(* ===== verification/Prelude.thy ===== *)
theory Prelude
  imports
    Complex_Main
    "HOL-Library.AList"
    "HOL-Library.Multiset"
    "HOL-Library.List_Lexorder"
    "HOL-Library.Char_ord"
    "HOL-Library.Sublist"
begin

text \<open>
  Shared material: the parts of Go's language and standard library that the modelled
  packages use, and the generic lemmas the component theories rest on.

  \<^item> Go strings are byte sequences: \<^typ>\<open>string\<close>, a list of 8-bit characters, ordered
    lexicographically by byte value (List\_Lexorder over Char\_ord), as Go's \<open><\<close> does.
  \<^item> A Go map is an association list with distinct keys (\<open>gomap\<close>). Go leaves the order of
    \<open>range\<close> over a map unspecified, so every \<open>range\<close> loop takes an iteration order as a
    parameter: a function that permutes the list of keys (\<open>iteration_order\<close>).
  \<^item> A pointer that may be nil is an option.
\<close>

named_theorems gomap_simps "lookups after the map-building loops"
named_theorems text_simps "functions of the strings package"

section \<open>Strings\<close>

type_synonym gostring = string

text \<open>
  The UTF-8 encodings of the code points for which \<^verbatim>\<open>unicode.IsSpace\<close> holds.
  \<^verbatim>\<open>strings.TrimSpace\<close> removes exactly these at both ends.
\<close>

definition space_encodings :: "gostring list" where
  "space_encodings =
     [[CHR 0x09], [CHR 0x0A], [CHR 0x0B], [CHR 0x0C], [CHR 0x0D], [CHR 0x20],
      [CHR 0xC2, CHR 0x85], [CHR 0xC2, CHR 0xA0], [CHR 0xE1, CHR 0x9A, CHR 0x80],
      [CHR 0xE2, CHR 0x80, CHR 0x80], [CHR 0xE2, CHR 0x80, CHR 0x81],
      [CHR 0xE2, CHR 0x80, CHR 0x82], [CHR 0xE2, CHR 0x80, CHR 0x83],
      [CHR 0xE2, CHR 0x80, CHR 0x84], [CHR 0xE2, CHR 0x80, CHR 0x85],
      [CHR 0xE2, CHR 0x80, CHR 0x86], [CHR 0xE2, CHR 0x80, CHR 0x87],
      [CHR 0xE2, CHR 0x80, CHR 0x88], [CHR 0xE2, CHR 0x80, CHR 0x89],
      [CHR 0xE2, CHR 0x80, CHR 0x8A], [CHR 0xE2, CHR 0x80, CHR 0xA8],
      [CHR 0xE2, CHR 0x80, CHR 0xA9], [CHR 0xE2, CHR 0x80, CHR 0xAF],
      [CHR 0xE2, CHR 0x81, CHR 0x9F], [CHR 0xE3, CHR 0x80, CHR 0x80]]"

lemma find_SomeD: "find P xs = Some x \<Longrightarrow> x \<in> set xs \<and> P x"
  by (induction xs) (auto split: if_splits)

lemma space_encodings_nonempty: "e \<in> set space_encodings \<Longrightarrow> 0 < length e"
  unfolding space_encodings_def by auto

lemma find_space_nonempty: "find P space_encodings = Some e \<Longrightarrow> e \<noteq> []"
  using space_encodings_nonempty by (fastforce simp: find_Some_iff in_set_conv_nth)

function trim_left :: "gostring \<Rightarrow> gostring" where
  "trim_left s =
     (case find (\<lambda>e. prefix e s) space_encodings of
        None \<Rightarrow> s
      | Some e \<Rightarrow> trim_left (drop (length e) s))"
  by pat_completeness auto
termination
proof (relation "measure length")
  fix s e assume e: "find (\<lambda>e. prefix e s) space_encodings = Some e"
  then have "e \<noteq> []" by (rule find_space_nonempty)
  moreover from e have "prefix e s" by (auto simp: find_Some_iff)
  ultimately show "(drop (length e) s, s) \<in> measure length"
    by (auto simp: prefix_def)
qed simp

function trim_right :: "gostring \<Rightarrow> gostring" where
  "trim_right s =
     (case find (\<lambda>e. suffix e s) space_encodings of
        None \<Rightarrow> s
      | Some e \<Rightarrow> trim_right (take (length s - length e) s))"
  by pat_completeness auto
termination
proof (relation "measure length")
  fix s e assume e: "find (\<lambda>e. suffix e s) space_encodings = Some e"
  then have "e \<noteq> []" by (rule find_space_nonempty)
  moreover from e have "suffix e s" by (auto simp: find_Some_iff)
  ultimately show "(take (length s - length e) s, s) \<in> measure length"
    by (auto simp: suffix_def)
qed simp

declare trim_left.simps [simp del] trim_right.simps [simp del]

definition TrimSpace :: "gostring \<Rightarrow> gostring" where
  "TrimSpace s = trim_right (trim_left s)"

text \<open>
  \<^verbatim>\<open>strings.ToLower\<close> on ASCII text; bytes from 0x80 on are left alone.
\<close>

definition lower_char :: "char \<Rightarrow> char" where
  "lower_char c = (if 65 \<le> (of_char c :: nat) \<and> (of_char c :: nat) \<le> 90
                   then char_of ((of_char c :: nat) + 32) else c)"

definition ToLower :: "gostring \<Rightarrow> gostring" where
  "ToLower s = map lower_char s"

definition HasPrefix :: "gostring \<Rightarrow> gostring \<Rightarrow> bool" where
  "HasPrefix s p \<longleftrightarrow> take (length p) s = p"

definition HasSuffix :: "gostring \<Rightarrow> gostring \<Rightarrow> bool" where
  "HasSuffix s p \<longleftrightarrow> length p \<le> length s \<and> drop (length s - length p) s = p"

definition TrimPrefix :: "gostring \<Rightarrow> gostring \<Rightarrow> gostring" where
  "TrimPrefix s p = (if HasPrefix s p then drop (length p) s else s)"

text \<open>\<^verbatim>\<open>strings.Cut\<close> and \<^verbatim>\<open>strings.Split\<close> at a one-byte separator.\<close>

definition Cut :: "gostring \<Rightarrow> char \<Rightarrow> gostring \<times> gostring \<times> bool" where
  "Cut s c = (if c \<in> set s
              then (takeWhile (\<lambda>x. x \<noteq> c) s, tl (dropWhile (\<lambda>x. x \<noteq> c) s), True)
              else (s, [], False))"

fun Split :: "gostring \<Rightarrow> char \<Rightarrow> gostring list" where
  "Split [] c = [[]]"
| "Split (x # xs) c =
     (if x = c then [] # Split xs c
      else (case Split xs c of [] \<Rightarrow> [[x]] | p # ps \<Rightarrow> (x # p) # ps))"

fun Join :: "gostring list \<Rightarrow> gostring \<Rightarrow> gostring" where
  "Join [] sep = []"
| "Join [x] sep = x"
| "Join (x # y # ys) sep = x @ sep @ Join (y # ys) sep"

fun Contains :: "gostring \<Rightarrow> gostring \<Rightarrow> bool" where
  "Contains [] p = (p = [])"
| "Contains (x # xs) p = (HasPrefix (x # xs) p \<or> Contains xs p)"

text \<open>Decimal rendering, \<^verbatim>\<open>strconv.Itoa\<close> and the verb \<^verbatim>\<open>%d\<close>.\<close>

definition digit_char :: "nat \<Rightarrow> char" where
  "digit_char n = char_of (48 + n)"

fun nat_string :: "nat \<Rightarrow> gostring" where
  "nat_string n = (if n < 10 then [digit_char n] else nat_string (n div 10) @ [digit_char (n mod 10)])"

declare nat_string.simps [simp del]

definition Itoa :: "int \<Rightarrow> gostring" where
  "Itoa i = (if i < 0 then CHR ''-'' # nat_string (nat (- i)) else nat_string (nat i))"

text \<open>
  \<^verbatim>\<open>strconv.Quote\<close>, the verb \<^verbatim>\<open>%q\<close>: printable ASCII as it is, the quote and
  the backslash escaped, control characters as escapes. Bytes from 0x80 on are kept, which is
  what Go does with printable UTF-8 text.
\<close>

definition hex_digit :: "nat \<Rightarrow> char" where
  "hex_digit n = (if n < 10 then char_of (48 + n) else char_of (87 + n))"

definition hex_byte :: "nat \<Rightarrow> gostring" where
  "hex_byte b = [hex_digit (b div 16), hex_digit (b mod 16)]"

definition quote_char :: "char \<Rightarrow> gostring" where
  "quote_char c =
     (let n = (of_char c :: nat); esc = CHR 0x5C in
      if n = 0x22 \<or> n = 0x5C then [esc, c]
      else if 0x20 \<le> n \<and> n \<noteq> 0x7F then [c]
      else if n = 0x07 then [esc, CHR ''a'']
      else if n = 0x08 then [esc, CHR ''b'']
      else if n = 0x0C then [esc, CHR ''f'']
      else if n = 0x0A then [esc, CHR ''n'']
      else if n = 0x0D then [esc, CHR ''r'']
      else if n = 0x09 then [esc, CHR ''t'']
      else if n = 0x0B then [esc, CHR ''v'']
      else [esc, CHR ''x''] @ hex_byte n)"

definition Quote :: "gostring \<Rightarrow> gostring" where
  "Quote s = [CHR 0x22] @ concat (map quote_char s) @ [CHR 0x22]"

section \<open>Maps and their iteration\<close>

type_synonym ('k, 'v) gomap = "('k \<times> 'v) list"

text \<open>\<open>m[k]\<close> for a map of counters and for a map of slices: Go's zero value when absent.\<close>

definition count_of :: "('k, nat) gomap \<Rightarrow> 'k \<Rightarrow> nat" where
  "count_of m k = (case map_of m k of None \<Rightarrow> 0 | Some n \<Rightarrow> n)"

definition adj_of :: "('k, 'v list) gomap \<Rightarrow> 'k \<Rightarrow> 'v list" where
  "adj_of m k = (case map_of m k of None \<Rightarrow> [] | Some vs \<Rightarrow> vs)"

text \<open>\<open>m[k]++\<close>, \<open>m[k] = append(m[k], v)\<close> and the guarded \<open>m[k] = v\<close> of a first occurrence.\<close>

definition incr :: "'k \<Rightarrow> ('k, nat) gomap \<Rightarrow> ('k, nat) gomap" where
  "incr k m = AList.update k (Suc (count_of m k)) m"

definition push :: "'k \<Rightarrow> 'v \<Rightarrow> ('k, 'v list) gomap \<Rightarrow> ('k, 'v list) gomap" where
  "push k v m = AList.update k (adj_of m k @ [v]) m"

definition put_absent :: "'k \<Rightarrow> 'v \<Rightarrow> ('k, 'v) gomap \<Rightarrow> ('k, 'v) gomap" where
  "put_absent k v m = (if map_of m k = None then AList.update k v m else m)"

definition gm_keys :: "('k, 'v) gomap \<Rightarrow> 'k list" where
  "gm_keys m = map fst m"

text \<open>
  The pairs a \<open>range\<close> loop visits: the keys in the order the runtime picks, each with its
  value. An iteration order is any permutation of the keys.
\<close>

definition iteration_order :: "('k list \<Rightarrow> 'k list) \<Rightarrow> bool" where
  "iteration_order ord \<longleftrightarrow> (\<forall>ks. mset (ord ks) = mset ks)"

definition range_map :: "('k list \<Rightarrow> 'k list) \<Rightarrow> ('k, 'v) gomap \<Rightarrow> ('k \<times> 'v) list" where
  "range_map ord m = List.map_filter (\<lambda>k. map_option (Pair k) (map_of m k)) (ord (gm_keys m))"

text \<open>The counting, grouping and indexing loops the rules share.\<close>

definition count_by :: "('a \<Rightarrow> 'k) \<Rightarrow> 'a list \<Rightarrow> ('k, nat) gomap" where
  "count_by f xs = fold (\<lambda>x. incr (f x)) xs []"

definition group_by :: "('a \<Rightarrow> 'k) \<Rightarrow> ('a \<Rightarrow> 'v) \<Rightarrow> 'a list \<Rightarrow> ('k, 'v list) gomap" where
  "group_by f g xs = fold (\<lambda>x. push (f x) (g x)) xs []"

definition index_last :: "('a \<Rightarrow> 'k) \<Rightarrow> 'a list \<Rightarrow> ('k, 'a) gomap" where
  "index_last f xs = fold (\<lambda>x. AList.update (f x) x) xs []"

definition index_first :: "('a \<Rightarrow> 'k) \<Rightarrow> 'a list \<Rightarrow> ('k, 'a) gomap" where
  "index_first f xs = fold (\<lambda>x. put_absent (f x) x) xs []"

definition set_add :: "'k \<Rightarrow> ('k, unit) gomap \<Rightarrow> ('k, unit) gomap" where
  "set_add k m = AList.update k () m"

definition key_set :: "'k list \<Rightarrow> ('k, unit) gomap" where
  "key_set ks = fold set_add ks []"

subsection \<open>Lookups after the loops\<close>

lemma count_of_Nil [simp]: "count_of [] k = 0"
  by (simp add: count_of_def)

lemma adj_of_Nil [simp]: "adj_of [] k = []"
  by (simp add: adj_of_def)

lemma gm_keys_Nil [simp]: "gm_keys [] = []"
  by (simp add: gm_keys_def)

lemma set_gm_keys: "set (gm_keys m) = dom (map_of m)"
  by (simp add: gm_keys_def dom_map_of_conv_image_fst)

lemma count_of_incr: "count_of (incr k m) k' = count_of m k' + (if k = k' then 1 else 0)"
  by (simp add: incr_def count_of_def update_conv')

lemma adj_of_push: "adj_of (push k v m) k' = adj_of m k' @ (if k = k' then [v] else [])"
  by (simp add: push_def adj_of_def update_conv')

lemma dom_map_of_update: "dom (map_of (AList.update k v m)) = insert k (dom (map_of m))"
  by (auto simp: update_conv' split: if_splits)

lemma set_gm_keys_update: "set (gm_keys (AList.update k v m)) = insert k (set (gm_keys m))"
  by (simp add: set_gm_keys update_conv')

lemma distinct_gm_keys_update: "distinct (gm_keys m) \<Longrightarrow> distinct (gm_keys (AList.update k v m))"
  by (simp add: gm_keys_def distinct_update)

lemma count_of_fold_incr:
  "count_of (fold (\<lambda>x. incr (f x)) xs m) k = count_of m k + length (filter (\<lambda>x. f x = k) xs)"
  by (induction xs arbitrary: m) (auto simp: count_of_incr)

lemma adj_of_fold_push:
  "adj_of (fold (\<lambda>x. push (f x) (g x)) xs m) k = adj_of m k @ map g (filter (\<lambda>x. f x = k) xs)"
  by (induction xs arbitrary: m) (auto simp: adj_of_push)

lemma gm_keys_fold_update:
  "set (gm_keys (fold (\<lambda>x m. AList.update (f x) (g x m) m) xs m)) = set (gm_keys m) \<union> f ` set xs"
  by (induction xs arbitrary: m) (auto simp: set_gm_keys_update)

lemma distinct_gm_keys_fold_update:
  "distinct (gm_keys m) \<Longrightarrow> distinct (gm_keys (fold (\<lambda>x m. AList.update (f x) (g x m) m) xs m))"
  by (induction xs arbitrary: m) (auto simp: distinct_gm_keys_update)

lemma count_of_count_by [gomap_simps]:
  "count_of (count_by f xs) k = length (filter (\<lambda>x. f x = k) xs)"
  by (simp add: count_by_def count_of_fold_incr)

lemma adj_of_group_by [gomap_simps]:
  "adj_of (group_by f g xs) k = map g (filter (\<lambda>x. f x = k) xs)"
  by (simp add: group_by_def adj_of_fold_push)

lemma set_keys_count_by [gomap_simps]: "set (gm_keys (count_by f xs)) = f ` set xs"
  using gm_keys_fold_update [of f "\<lambda>x m. Suc (count_of m (f x))" xs "[]"]
  by (simp add: count_by_def incr_def [abs_def])

lemma set_keys_group_by [gomap_simps]: "set (gm_keys (group_by f g xs)) = f ` set xs"
  using gm_keys_fold_update [of f "\<lambda>x m. adj_of m (f x) @ [g x]" xs "[]"]
  by (simp add: group_by_def push_def [abs_def])

lemma set_keys_key_set [gomap_simps]: "set (gm_keys (key_set ks)) = set ks"
  using gm_keys_fold_update [of "\<lambda>k. k" "\<lambda>k m. ()" ks "[]"]
  by (simp add: key_set_def set_add_def [abs_def])

lemma distinct_keys_count_by [simp]: "distinct (gm_keys (count_by f xs))"
  unfolding count_by_def incr_def by (rule distinct_gm_keys_fold_update) simp

lemma distinct_keys_group_by [simp]: "distinct (gm_keys (group_by f g xs))"
  unfolding group_by_def push_def by (rule distinct_gm_keys_fold_update) simp

lemma distinct_keys_key_set [simp]: "distinct (gm_keys (key_set ks))"
  using distinct_gm_keys_fold_update [of "[]" "\<lambda>k. k" "\<lambda>k m. ()" ks]
  by (simp add: key_set_def set_add_def [abs_def])

lemma map_of_fold_update:
  "map_of (fold (\<lambda>x. AList.update (f x) x) xs m) k =
     (case find (\<lambda>x. f x = k) (rev xs) of None \<Rightarrow> map_of m k | Some x \<Rightarrow> Some x)"
proof (induction xs rule: rev_induct)
  case Nil
  then show ?case by simp
next
  case (snoc x xs)
  then show ?case by (simp add: update_conv')
qed

lemma map_of_index_last [gomap_simps]: "map_of (index_last f xs) k = find (\<lambda>x. f x = k) (rev xs)"
  by (simp add: index_last_def map_of_fold_update split: option.split)

lemma map_of_fold_put_absent:
  "map_of (fold (\<lambda>x. put_absent (f x) x) xs m) k =
     (case map_of m k of Some v \<Rightarrow> Some v | None \<Rightarrow> find (\<lambda>x. f x = k) xs)"
  by (induction xs arbitrary: m) (auto simp: put_absent_def update_conv' split: option.splits)

lemma map_of_index_first [gomap_simps]: "map_of (index_first f xs) k = find (\<lambda>x. f x = k) xs"
  by (simp add: index_first_def map_of_fold_put_absent)

subsection \<open>Iteration\<close>

lemma iteration_order_mset: "iteration_order ord \<Longrightarrow> mset (ord ks) = mset ks"
  by (simp add: iteration_order_def)

lemma iteration_order_set: "iteration_order ord \<Longrightarrow> set (ord ks) = set ks"
  by (metis iteration_order_mset set_mset_mset)

lemma iteration_order_distinct: "iteration_order ord \<Longrightarrow> distinct (ord ks) = distinct ks"
  by (metis iteration_order_mset mset_eq_imp_distinct_iff)

lemma iteration_order_sort: "iteration_order ord \<Longrightarrow> sort (ord ks) = sort ks"
  by (simp add: iteration_order_mset properties_for_sort)

lemma iteration_order_id [simp]: "iteration_order (\<lambda>ks. ks)"
  by (simp add: iteration_order_def)

lemma iteration_order_rev [simp]: "iteration_order rev"
  by (simp add: iteration_order_def)

lemma mset_map_filter: "mset (List.map_filter f xs) = image_mset (the \<circ> f) (filter_mset (\<lambda>x. f x \<noteq> None) (mset xs))"
  by (simp add: List.map_filter_def)

lemma map_filter_map_fst:
  "(\<And>x. x \<in> set m \<Longrightarrow> f (fst x) = Some x) \<Longrightarrow> List.map_filter f (map fst m) = m"
  by (induction m) (simp_all add: List.map_filter_simps)

lemma map_filter_own_keys:
  "distinct (map fst m) \<Longrightarrow> List.map_filter (\<lambda>k. map_option (Pair k) (map_of m k)) (map fst m) = m"
  by (rule map_filter_map_fst) (auto intro: map_of_is_SomeI)

lemma mset_range_map:
  assumes "iteration_order ord" and "distinct (gm_keys m)"
  shows "mset (range_map ord m) = mset m"
proof -
  have "mset (range_map ord m) =
        mset (List.map_filter (\<lambda>k. map_option (Pair k) (map_of m k)) (gm_keys m))"
    by (simp add: range_map_def mset_map_filter iteration_order_mset [OF assms(1)])
  also have "\<dots> = mset m"
    using assms(2) by (simp add: gm_keys_def map_filter_own_keys)
  finally show ?thesis .
qed

lemma set_range_map:
  "iteration_order ord \<Longrightarrow> distinct (gm_keys m) \<Longrightarrow> set (range_map ord m) = set m"
  by (metis mset_range_map set_mset_mset)

lemma mset_loop_order:
  assumes "iteration_order ord" and "iteration_order ord'" and "distinct (gm_keys m)"
  shows "mset (map f (filter P (range_map ord m))) = mset (map f (filter P (range_map ord' m)))"
  using assms by (simp add: mset_range_map)

lemma set_gm_keys_add_if:
  "set (gm_keys (fold (\<lambda>(k, v) s. if P v then set_add k s else s) kvs s)) =
     set (gm_keys s) \<union> {k. \<exists>v. (k, v) \<in> set kvs \<and> P v}"
  by (induction kvs arbitrary: s) (auto simp: set_add_def set_gm_keys_update split: if_splits)

lemma distinct_gm_keys_add_if:
  "distinct (gm_keys s) \<Longrightarrow> distinct (gm_keys (fold (\<lambda>(k, v) s. if P v then set_add k s else s) kvs s))"
  by (induction kvs arbitrary: s) (auto simp: set_add_def distinct_gm_keys_update)

lemma set_gm_keys_fold_add: "set (gm_keys (fold set_add ks s)) = set (gm_keys s) \<union> set ks"
  by (induction ks arbitrary: s) (auto simp: set_add_def set_gm_keys_update)

lemma distinct_gm_keys_fold_add: "distinct (gm_keys s) \<Longrightarrow> distinct (gm_keys (fold set_add ks s))"
  by (induction ks arbitrary: s) (auto simp: set_add_def distinct_gm_keys_update)

lemma in_set_map_of: "distinct (gm_keys m) \<Longrightarrow> (k, v) \<in> set m \<longleftrightarrow> map_of m k = Some v"
  by (simp add: gm_keys_def)

lemma count_of_in_set:
  "distinct (gm_keys m) \<Longrightarrow> (k, n) \<in> set m \<longleftrightarrow> k \<in> set (gm_keys m) \<and> count_of m k = n"
  by (auto simp: in_set_map_of set_gm_keys count_of_def)

lemma set_count_by:
  "(k, n) \<in> set (count_by f xs) \<longleftrightarrow> 0 < n \<and> n = length (filter (\<lambda>x. f x = k) xs)"
  by (auto simp: count_of_in_set gomap_simps length_greater_0_conv filter_empty_conv)

lemma put_absent_facts:
  "count_of (put_absent k 0 m) k' = count_of m k'"
  "set (gm_keys (put_absent k v m)) = insert k (set (gm_keys m))"
  "distinct (gm_keys m) \<Longrightarrow> distinct (gm_keys (put_absent k v m))"
  by (auto simp: put_absent_def count_of_def update_conv' set_gm_keys_update distinct_gm_keys_update set_gm_keys
      split: option.split)

lemma zero_counts:
  "count_of (fold (\<lambda>x. put_absent (f x) 0) xs m) k = count_of m k"
  "set (gm_keys (fold (\<lambda>x. put_absent (f x) v) xs m)) = set (gm_keys m) \<union> f ` set xs"
  "distinct (gm_keys m) \<Longrightarrow> distinct (gm_keys (fold (\<lambda>x. put_absent (f x) v) xs m))"
  by (induction xs arbitrary: m) (auto simp: put_absent_facts)

lemma distinct_zero_keys:
  assumes "iteration_order ord" and "distinct (gm_keys m)"
  shows "distinct (map fst (filter (\<lambda>(k, v). P v) (range_map ord m)))"
proof -
  have "mset (map fst (range_map ord m)) = mset (gm_keys m)"
    using mset_range_map [OF assms] by (simp add: gm_keys_def)
  then have "distinct (map fst (range_map ord m))" using assms(2) by (metis mset_eq_imp_distinct_iff)
  then show ?thesis by (simp add: distinct_map_filter)
qed

section \<open>Sorting\<close>

lemma sort_mset_cong: "mset xs = mset ys \<Longrightarrow> sort xs = sort ys"
  by (metis mset_sort properties_for_sort sorted_sort)

text \<open>
  \<^verbatim>\<open>sort.SliceStable\<close> with a less-than function. When the function compares a key of a
  linear order, the result is the library's \<^const>\<open>sort_key\<close>.
\<close>

fun insert_stable :: "('a \<Rightarrow> 'a \<Rightarrow> bool) \<Rightarrow> 'a \<Rightarrow> 'a list \<Rightarrow> 'a list" where
  "insert_stable lt x [] = [x]"
| "insert_stable lt x (y # ys) =
     (if lt y x then y # insert_stable lt x ys else x # y # ys)"

definition SliceStable :: "('a \<Rightarrow> 'a \<Rightarrow> bool) \<Rightarrow> 'a list \<Rightarrow> 'a list" where
  "SliceStable lt xs = foldr (insert_stable lt) xs []"

lemma insert_stable_insort_key:
  assumes "\<And>a b. lt a b \<longleftrightarrow> key a < (key b :: 'b :: linorder)"
  shows "insert_stable lt x ys = insort_key key x ys"
  by (induction ys) (auto simp: assms)

lemma SliceStable_sort_key:
  assumes "\<And>a b. lt a b \<longleftrightarrow> key a < (key b :: 'b :: linorder)"
  shows "SliceStable lt xs = sort_key key xs"
  unfolding SliceStable_def sort_key_def
  by (induction xs) (auto simp: insert_stable_insort_key [OF assms])

end
