(* ===== verification/Model.thy ===== *)
theory Model
  imports Prelude
begin

text \<open>
  The internal representation of a parsed diagram and of a lint finding,
  \<^verbatim>\<open>internal/model/diagram.go\<close>. Go's string types \<^verbatim>\<open>DiagramType\<close> and
  \<^verbatim>\<open>DiagramFamily\<close> stay strings, so that every value the parser can store is covered.
\<close>

type_synonym diagram_type = gostring
type_synonym diagram_family = gostring

abbreviation "DiagramTypeUnknown \<equiv> ''unknown''"
abbreviation "DiagramTypeFlowchart \<equiv> ''flowchart''"
abbreviation "DiagramTypeSequence \<equiv> ''sequence''"
abbreviation "DiagramTypeClass \<equiv> ''class''"
abbreviation "DiagramTypeER \<equiv> ''er''"
abbreviation "DiagramTypeState \<equiv> ''state''"

abbreviation "DiagramFamilyUnknown \<equiv> ''unknown''"
abbreviation "DiagramFamilyFlowchart \<equiv> ''flowchart''"
abbreviation "DiagramFamilySequence \<equiv> ''sequence''"
abbreviation "DiagramFamilyClass \<equiv> ''class''"
abbreviation "DiagramFamilyER \<equiv> ''er''"
abbreviation "DiagramFamilyState \<equiv> ''state''"

definition RecognizedDiagramTypes :: "diagram_type list" where
  "RecognizedDiagramTypes =
     [DiagramTypeFlowchart, DiagramTypeSequence, DiagramTypeClass, DiagramTypeER, DiagramTypeState]"

definition DiagramTypesForFamily :: "diagram_family \<Rightarrow> diagram_type list" where
  "DiagramTypesForFamily family =
     (if family = DiagramFamilyFlowchart then [DiagramTypeFlowchart]
      else if family = DiagramFamilySequence then [DiagramTypeSequence]
      else if family = DiagramFamilyClass then [DiagramTypeClass]
      else if family = DiagramFamilyER then [DiagramTypeER]
      else if family = DiagramFamilyState then [DiagramTypeState]
      else [])"

definition Family :: "diagram_type \<Rightarrow> diagram_family" where
  "Family t =
     (if t = DiagramTypeFlowchart then DiagramFamilyFlowchart
      else if t = DiagramTypeSequence then DiagramFamilySequence
      else if t = DiagramTypeClass then DiagramFamilyClass
      else if t = DiagramTypeER then DiagramFamilyER
      else if t = DiagramTypeState then DiagramFamilyState
      else DiagramFamilyUnknown)"

record node =
  node_ID :: gostring
  node_Label :: gostring
  node_Line :: "int option"
  node_Column :: "int option"

record edge =
  edge_From :: gostring
  edge_To :: gostring
  edge_Type :: gostring
  edge_Line :: "int option"
  edge_Column :: "int option"

record subgraph =
  sub_ID :: gostring
  sub_Label :: gostring
  sub_Nodes :: "gostring list"

record suppression =
  sup_RuleID :: gostring
  sup_Scope :: gostring
  sup_Line :: int
  sup_TargetLine :: int
  sup_SubgraphID :: gostring

record diagram =
  diag_Type :: diagram_type
  diag_Direction :: gostring
  diag_Nodes :: "node list"
  diag_Edges :: "edge list"
  diag_Subgraphs :: "subgraph list"
  diag_Suppressions :: "suppression list"
  diag_SourceNodeIDs :: "gostring list"
  diag_DisconnectedNodeIDs :: "gostring list"
  diag_DuplicateNodeIDs :: "gostring list"
  diag_StartStates :: "gostring list"

record issue_context =
  ctx_SubgraphID :: gostring
  ctx_SubgraphLabel :: gostring

record issue =
  iss_RuleID :: gostring
  iss_Severity :: gostring
  iss_Message :: gostring
  iss_Line :: "int option"
  iss_Column :: "int option"
  iss_Fingerprint :: gostring
  iss_Context :: "issue_context option"

text \<open>A \<^verbatim>\<open>model.Issue\<close> literal leaves the fingerprint empty; the engine fills it in.\<close>

definition mk_issue ::
  "gostring \<Rightarrow> gostring \<Rightarrow> gostring \<Rightarrow> int option \<Rightarrow> int option \<Rightarrow> issue_context option \<Rightarrow> issue" where
  "mk_issue ruleID severity message line column context =
     \<lparr>iss_RuleID = ruleID, iss_Severity = severity, iss_Message = message, iss_Line = line,
      iss_Column = column, iss_Fingerprint = [], iss_Context = context\<rparr>"

text \<open>An edge and a node without a source position, for small diagrams.\<close>

abbreviation arrow :: "gostring \<Rightarrow> gostring \<Rightarrow> edge" where
  "arrow x y \<equiv> \<lparr>edge_From = x, edge_To = y, edge_Type = ''arrow'', edge_Line = None, edge_Column = None\<rparr>"

lemma mk_issue_sel [simp]:
  "iss_RuleID (mk_issue r s m l c x) = r"
  "iss_Severity (mk_issue r s m l c x) = s"
  "iss_Message (mk_issue r s m l c x) = m"
  "iss_Line (mk_issue r s m l c x) = l"
  "iss_Column (mk_issue r s m l c x) = c"
  "iss_Fingerprint (mk_issue r s m l c x) = []"
  "iss_Context (mk_issue r s m l c x) = x"
  by (simp_all add: mk_issue_def)

text \<open>The zero \<^verbatim>\<open>model.Diagram\<close> and the zero \<^verbatim>\<open>model.Node\<close>.\<close>

definition empty_diagram :: diagram where
  "empty_diagram =
     \<lparr>diag_Type = [], diag_Direction = [], diag_Nodes = [], diag_Edges = [], diag_Subgraphs = [],
      diag_Suppressions = [], diag_SourceNodeIDs = [], diag_DisconnectedNodeIDs = [],
      diag_DuplicateNodeIDs = [], diag_StartStates = []\<rparr>"

definition zero_node :: node where
  "zero_node = \<lparr>node_ID = [], node_Label = [], node_Line = None, node_Column = None\<rparr>"

lemma Family_known_iff: "Family t \<noteq> DiagramFamilyUnknown \<longleftrightarrow> t \<in> set RecognizedDiagramTypes"
  by (auto simp: Family_def RecognizedDiagramTypes_def)

lemma DiagramTypesForFamily_Family:
  "t \<in> set RecognizedDiagramTypes \<Longrightarrow> DiagramTypesForFamily (Family t) = [t]"
  by (auto simp: Family_def RecognizedDiagramTypes_def DiagramTypesForFamily_def)

end
