(* ===== verification/Rule_Values.thy ===== *)
theory Rule_Values
  imports Model
begin

text \<open>
  The values a lint configuration holds, their normalisation, and suppression selectors:
  the leaf operations of \<^verbatim>\<open>internal/rules/rule.go\<close> and \<^verbatim>\<open>internal/rules/selector.go\<close>.

  An \<^verbatim>\<open>interface{}\<close> value is one of the constructors of \<open>go_value\<close>: what
  \<^verbatim>\<open>encoding/json\<close> decodes into (nil, bool, float64, string, slice, map) and the
  \<^verbatim>\<open>int\<close> and \<^verbatim>\<open>[]string\<close> values Go callers build. A float64 that JSON can
  denote is finite, hence a rational number.
\<close>

datatype go_value =
    VNil
  | VBool bool
  | VInt int
  | VFloat rat
  | VString gostring
  | VStrings "gostring list"
  | VList "go_value list"
  | VMap "(gostring \<times> go_value) list"

type_synonym rule_config = "(gostring, go_value) gomap"
type_synonym config = "(gostring, rule_config) gomap"

section \<open>Severities and option keys\<close>

definition allowedSeverities :: "gostring list" where
  "allowedSeverities = [''error'', ''warning'', ''info'']"

definition normalizeSeverity :: "gostring \<Rightarrow> gostring" where
  "normalizeSeverity severity = ToLower (TrimSpace severity)"

definition normalizeMetaKey :: "gostring \<Rightarrow> gostring" where
  "normalizeMetaKey key =
     (let normalized = ToLower (TrimSpace key)
      in if normalized \<in> {''suppression'', ''suppress'', ''suppressions'',
                           ''suppression-selectors'', ''suppression_selectors''}
         then ''suppression-selectors'' else normalized)"

text \<open>
  Conversion of a float64 to \<^verbatim>\<open>int\<close>. Out of range the language leaves the result to
  the implementation; this is the amd64 one, the smallest int64.
\<close>

definition int_of_float :: "rat \<Rightarrow> int" where
  "int_of_float n =
     (let t = (if n < 0 then \<lceil>n\<rceil> else \<lfloor>n\<rfloor>)
      in if - (2 ^ 63) \<le> t \<and> t < 2 ^ 63 then t else - (2 ^ 63))"

definition is_integral :: "rat \<Rightarrow> bool" where
  "is_integral n \<longleftrightarrow> of_int \<lfloor>n\<rfloor> = n"

text \<open>
  The integer option \<^verbatim>\<open>limit\<close>, read the same way by every rule that has one: an int or
  an integral float64 that is at least 1, and the default otherwise.
\<close>

definition limit_option :: "config \<Rightarrow> gostring \<Rightarrow> int \<Rightarrow> int" where
  "limit_option cfg ruleID deflt =
     (case map_of cfg ruleID of
        None \<Rightarrow> deflt
      | Some rc \<Rightarrow>
          (case map_of rc ''limit'' of
             Some (VInt n) \<Rightarrow> if n \<ge> 1 then n else deflt
           | Some (VFloat n) \<Rightarrow> if n \<ge> 1 \<and> is_integral n then int_of_float n else deflt
           | _ \<Rightarrow> deflt))"

lemma limit_option_default: "map_of cfg ruleID = None \<Longrightarrow> limit_option cfg ruleID d = d"
  by (simp add: limit_option_def)

lemma int_of_float_small:
  assumes "1 \<le> n" "is_integral n" "n < 2 ^ 63"
  shows "of_int (int_of_float n) = n"
proof -
  have "\<lfloor>n\<rfloor> < 2 ^ 63" using assms(3) by (simp add: floor_less_iff)
  moreover have "0 \<le> \<lfloor>n\<rfloor>" using assms(1) by simp
  ultimately have "int_of_float n = \<lfloor>n\<rfloor>"
    using assms(1) by (simp add: int_of_float_def Let_def)
  then show ?thesis using assms(2) by (simp add: is_integral_def)
qed

section \<open>Suppression selectors\<close>

record suppression_selector =
  sel_Negated :: bool
  sel_Prefix :: gostring
  sel_Value :: gostring

text \<open>
  The regular expression \<^verbatim>\<open>^!?(node|subgraph|rule):\S+$\<close>. In Go's syntax \<^verbatim>\<open>\S\<close>
  excludes tab, newline, form feed, carriage return and space, and \<^verbatim>\<open>$\<close> is the end of the text.
\<close>

definition selector_prefixes :: "gostring list" where
  "selector_prefixes = [''node'', ''subgraph'', ''rule'']"

definition re_space :: "char \<Rightarrow> bool" where
  "re_space c \<longleftrightarrow> c \<in> {CHR 0x09, CHR 0x0A, CHR 0x0C, CHR 0x0D, CHR 0x20}"

definition selector_body_matches :: "gostring \<Rightarrow> bool" where
  "selector_body_matches s \<longleftrightarrow>
     (\<exists>p\<in>set selector_prefixes. HasPrefix s (p @ '':'') \<and>
        drop (length p + 1) s \<noteq> [] \<and> list_all (\<lambda>c. \<not> re_space c) (drop (length p + 1) s))"

definition SuppressionSelectorPattern_matches :: "gostring \<Rightarrow> bool" where
  "SuppressionSelectorPattern_matches raw \<longleftrightarrow>
     selector_body_matches (if HasPrefix raw ''!'' then drop 1 raw else raw)"

definition ParseSuppressionSelector :: "gostring \<Rightarrow> suppression_selector option" where
  "ParseSuppressionSelector raw =
     (if \<not> SuppressionSelectorPattern_matches raw then None
      else let negated = HasPrefix raw ''!'';
               selector = (if negated then drop 1 raw else raw);
               (prefix, value, _) = Cut selector CHR '':''
           in Some \<lparr>sel_Negated = negated, sel_Prefix = prefix, sel_Value = value\<rparr>)"

definition ValidateSuppressionSelectors :: "gostring list \<Rightarrow> gostring list \<Rightarrow> gostring list" where
  "ValidateSuppressionSelectors selectors knownRuleIDs =
     concat (map (\<lambda>selector.
       case ParseSuppressionSelector selector of
         None \<Rightarrow> []
       | Some parsed \<Rightarrow>
           if sel_Prefix parsed \<noteq> ''rule'' then []
           else if sel_Value parsed = ''*'' then []
           else if sel_Value parsed \<notin> set knownRuleIDs
             then [''suppression selector references unknown rule: '' @ sel_Value parsed]
             else []) selectors)"

text \<open>The canonical text of a selector, and the selectors that have one.\<close>

definition selector_text :: "suppression_selector \<Rightarrow> gostring" where
  "selector_text s = (if sel_Negated s then ''!'' else []) @ sel_Prefix s @ '':'' @ sel_Value s"

definition selector_ok :: "suppression_selector \<Rightarrow> bool" where
  "selector_ok s \<longleftrightarrow> sel_Prefix s \<in> set selector_prefixes \<and> sel_Value s \<noteq> [] \<and>
     list_all (\<lambda>c. \<not> re_space c) (sel_Value s)"

lemma Cut_prefix:
  "CHR '':'' \<notin> set p \<Longrightarrow> Cut (p @ '':'' @ v) CHR '':'' = (p, v, True)"
  by (induction p) (auto simp: Cut_def)

lemma selector_prefixes_plain:
  "p \<in> set selector_prefixes \<Longrightarrow> CHR '':'' \<notin> set p \<and> \<not> HasPrefix (p @ s) ''!''"
  by (auto simp: selector_prefixes_def HasPrefix_def)

lemma ParseSuppressionSelector_text:
  assumes "selector_ok s"
  shows "ParseSuppressionSelector (selector_text s) = Some s"
proof -
  let ?body = "sel_Prefix s @ '':'' @ sel_Value s"
  from assms have p: "sel_Prefix s \<in> set selector_prefixes"
    and v: "sel_Value s \<noteq> []" "list_all (\<lambda>c. \<not> re_space c) (sel_Value s)"
    by (auto simp: selector_ok_def)
  note plain = selector_prefixes_plain [OF p]
  have "HasPrefix ?body (sel_Prefix s @ '':'')" by (simp add: HasPrefix_def)
  moreover have "drop (length (sel_Prefix s) + 1) ?body = sel_Value s" by simp
  ultimately have body: "selector_body_matches ?body"
    using p v unfolding selector_body_matches_def by metis
  have no: "\<not> HasPrefix ?body ''!''" using plain by blast
  have yes: "HasPrefix (''!'' @ ?body) ''!''" by (simp add: HasPrefix_def)
  show ?thesis
    using body no yes plain Cut_prefix [of "sel_Prefix s" "sel_Value s"]
    by (cases "sel_Negated s")
      (auto simp: ParseSuppressionSelector_def selector_text_def
        SuppressionSelectorPattern_matches_def)
qed

end
