(* ===== verification/Registry.thy ===== *)
theory Registry
  imports Rule_Values
begin

text \<open>
  The registry of built-in rules, \<^verbatim>\<open>internal/rules/registry.go\<close>: metadata, the option
  constraints and their validation; the JSON schema built from it, \<^verbatim>\<open>internal/rules/schema.go\<close>;
  and the namespace policy of rule identifiers, \<^verbatim>\<open>internal/rules/rule_id_namespace.go\<close>.
  A Go set \<^verbatim>\<open>map[string]struct{}\<close> that is only looked up is the list of its keys.
\<close>

record option_metadata =
  opt_Name :: gostring
  opt_Type :: gostring
  opt_Description :: gostring
  opt_Constraints :: gostring

record rule_metadata =
  meta_ID :: gostring
  meta_State :: gostring
  meta_Availability :: gostring
  meta_Severity :: gostring
  meta_Description :: gostring
  meta_DefaultConfig :: "(gostring, go_value) gomap"
  meta_ConfigurableOptions :: "option_metadata list"
  meta_AllowedOptionKeys :: "gostring list"

section \<open>Option constraints\<close>

definition validate_bool :: "go_value \<Rightarrow> bool" where
  "validate_bool value = (case value of VBool _ \<Rightarrow> True | _ \<Rightarrow> False)"

definition validate_severity :: "go_value \<Rightarrow> bool" where
  "validate_severity value =
     (case value of VString s \<Rightarrow> normalizeSeverity s \<in> set allowedSeverities | _ \<Rightarrow> False)"

text \<open>A value as a slice of strings: \<^verbatim>\<open>[]string\<close>, or \<^verbatim>\<open>[]interface{}\<close> of strings only.\<close>

fun all_strings :: "go_value list \<Rightarrow> gostring list option" where
  "all_strings [] = Some []"
| "all_strings (VString s # vs) = map_option (Cons s) (all_strings vs)"
| "all_strings (_ # vs) = None"

definition string_slice :: "go_value \<Rightarrow> gostring list option" where
  "string_slice value =
     (case value of VList vs \<Rightarrow> all_strings vs | VStrings ss \<Rightarrow> Some ss | _ \<Rightarrow> None)"

definition validate_selectors :: "go_value \<Rightarrow> bool" where
  "validate_selectors value =
     (case string_slice value of
        None \<Rightarrow> False
      | Some selectors \<Rightarrow> list_all (\<lambda>s. ParseSuppressionSelector s \<noteq> None) selectors)"

definition validate_limit :: "go_value \<Rightarrow> bool" where
  "validate_limit value =
     (case value of
        VInt n \<Rightarrow> n \<ge> 1
      | VFloat n \<Rightarrow> n \<ge> 1 \<and> is_integral n
      | _ \<Rightarrow> False)"

definition sharedOptionConstraints :: "(gostring, go_value \<Rightarrow> bool) gomap" where
  "sharedOptionConstraints =
     [(''enabled'', validate_bool), (''severity'', validate_severity),
      (''suppression-selectors'', validate_selectors)]"

definition ruleSpecificConstraints :: "(gostring, (gostring, go_value \<Rightarrow> bool) gomap) gomap" where
  "ruleSpecificConstraints =
     [(''max-fanout'', [(''limit'', validate_limit)]),
      (''max-depth'', [(''limit'', validate_limit)]),
      (''no-cycles'', [(''allow-self-loop'', validate_bool)])]"

definition NormalizeOptionKey :: "gostring \<Rightarrow> gostring" where
  "NormalizeOptionKey key = normalizeMetaKey key"

datatype option_error = UnknownOption | InvalidOption

definition ValidateOption :: "gostring \<Rightarrow> gostring \<Rightarrow> go_value \<Rightarrow> option_error option" where
  "ValidateOption ruleID optionKey value =
     (let canonicalKey = NormalizeOptionKey optionKey;
          constraint =
            (case map_of sharedOptionConstraints canonicalKey of
               Some c \<Rightarrow> Some c
             | None \<Rightarrow>
                 (case map_of ruleSpecificConstraints ruleID of
                    None \<Rightarrow> None
                  | Some ruleConstraints \<Rightarrow> map_of ruleConstraints canonicalKey))
      in case constraint of
           None \<Rightarrow> Some UnknownOption
         | Some validate \<Rightarrow> if \<not> validate value then Some InvalidOption else None)"

section \<open>Built-in metadata\<close>

definition defaultMaxFanout :: int where
  "defaultMaxFanout = 5"

definition defaultMaxDepth :: int where
  "defaultMaxDepth = 8"

definition suppressionSelectorConstraints :: gostring where
  "suppressionSelectorConstraints =
     ''Each entry must match !?(node|subgraph|rule):<id> with no whitespace; ! negates a selector.''"

definition opt_enabled :: option_metadata where
  "opt_enabled =
     \<lparr>opt_Name = ''enabled'', opt_Type = ''boolean'',
      opt_Description = ''Enable or disable this rule.'',
      opt_Constraints = ''Must be true or false.''\<rparr>"

definition opt_severity :: option_metadata where
  "opt_severity =
     \<lparr>opt_Name = ''severity'', opt_Type = ''string'',
      opt_Description = ''Severity assigned to emitted issues (case-insensitive; surrounding whitespace ignored).'',
      opt_Constraints = ''Accepted values (canonical): error, warning, info.''\<rparr>"

definition opt_selectors :: "gostring \<Rightarrow> option_metadata" where
  "opt_selectors constraints =
     \<lparr>opt_Name = ''suppression-selectors'', opt_Type = ''array[string]'',
      opt_Description = ''Selectors that suppress matching issues.'',
      opt_Constraints = constraints\<rparr>"

definition meta_max_fanout :: rule_metadata where
  "meta_max_fanout =
   \<lparr>meta_ID = ''max-fanout'', meta_State = ''implemented'',
     meta_Availability = [], meta_Severity = ''warning'',
     meta_Description = ''Flags nodes whose outgoing edge count exceeds a configurable limit.'',
     meta_DefaultConfig = [(''enabled'', VBool True), (''severity'', VString ''warning''), (''suppression-selectors'', VStrings []),
       (''limit'', VInt defaultMaxFanout)],
     meta_ConfigurableOptions =
       [opt_enabled,
        opt_severity,
        opt_selectors suppressionSelectorConstraints,
        \<lparr>opt_Name = ''limit'', opt_Type = ''integer'',
          opt_Description = ''Maximum allowed outgoing edges per node.'',
          opt_Constraints = ''Must be an integer >= 1. Default is 5.''\<rparr>],
     meta_AllowedOptionKeys = []\<rparr>"

definition meta_no_duplicate_node_ids :: rule_metadata where
  "meta_no_duplicate_node_ids =
   \<lparr>meta_ID = ''no-duplicate-node-ids'', meta_State = ''implemented'',
     meta_Availability = [], meta_Severity = ''error'',
     meta_Description = ''Flags diagrams containing more than one node with the same ID.'',
     meta_DefaultConfig = [(''enabled'', VBool True), (''severity'', VString ''error''), (''suppression-selectors'', VStrings [])],
     meta_ConfigurableOptions =
       [opt_enabled,
        opt_severity,
        opt_selectors suppressionSelectorConstraints],
     meta_AllowedOptionKeys = []\<rparr>"

definition meta_no_disconnected_nodes :: rule_metadata where
  "meta_no_disconnected_nodes =
   \<lparr>meta_ID = ''no-disconnected-nodes'', meta_State = ''implemented'',
     meta_Availability = [], meta_Severity = ''error'',
     meta_Description = ''Flags nodes that are not connected by any incoming or outgoing edge.'',
     meta_DefaultConfig = [(''enabled'', VBool True), (''severity'', VString ''error''), (''suppression-selectors'', VStrings [])],
     meta_ConfigurableOptions =
       [opt_enabled,
        opt_severity,
        opt_selectors suppressionSelectorConstraints],
     meta_AllowedOptionKeys = []\<rparr>"

definition meta_max_depth :: rule_metadata where
  "meta_max_depth =
   \<lparr>meta_ID = ''max-depth'', meta_State = ''implemented'',
     meta_Availability = [], meta_Severity = ''warning'',
     meta_Description = ''Flags root-to-leaf traversals whose depth exceeds a configurable limit.'',
     meta_DefaultConfig = [(''enabled'', VBool True), (''severity'', VString ''warning''), (''suppression-selectors'', VStrings []),
       (''limit'', VInt defaultMaxDepth)],
     meta_ConfigurableOptions =
       [opt_enabled,
        opt_severity,
        opt_selectors suppressionSelectorConstraints,
        \<lparr>opt_Name = ''limit'', opt_Type = ''integer'',
          opt_Description = ''Maximum allowed depth for root-to-leaf traversals.'',
          opt_Constraints = ''Must be an integer >= 1. Default is 8.''\<rparr>],
     meta_AllowedOptionKeys = []\<rparr>"

definition meta_no_cycles :: rule_metadata where
  "meta_no_cycles =
   \<lparr>meta_ID = ''no-cycles'', meta_State = ''implemented'',
     meta_Availability = [], meta_Severity = ''error'',
     meta_Description = ''Flags directed cycles in flowcharts.'',
     meta_DefaultConfig = [(''enabled'', VBool True), (''severity'', VString ''error''), (''suppression-selectors'', VStrings []),
       (''allow-self-loop'', VBool False)],
     meta_ConfigurableOptions =
       [opt_enabled,
        opt_severity,
        opt_selectors suppressionSelectorConstraints,
        \<lparr>opt_Name = ''allow-self-loop'', opt_Type = ''boolean'',
          opt_Description = ''Allow single-node self-loop cycles without emitting issues.'',
          opt_Constraints = ''Must be true or false.''\<rparr>],
     meta_AllowedOptionKeys = []\<rparr>"

definition meta_class_no_orphan_classes :: rule_metadata where
  "meta_class_no_orphan_classes =
   \<lparr>meta_ID = ''class-no-orphan-classes'', meta_State = ''planned'',
     meta_Availability = ''Planned for class diagram linting expansion.'', meta_Severity = ''info'',
     meta_Description = ''Will flag classes that are not connected to any relationship.'',
     meta_DefaultConfig = [(''enabled'', VBool False), (''severity'', VString ''info''), (''suppression-selectors'', VStrings [])],
     meta_ConfigurableOptions =
       [opt_enabled,
        opt_severity,
        opt_selectors ''Each entry must be a string selector.''],
     meta_AllowedOptionKeys = []\<rparr>"

definition meta_er_no_isolated_entities :: rule_metadata where
  "meta_er_no_isolated_entities =
   \<lparr>meta_ID = ''er-no-isolated-entities'', meta_State = ''planned'',
     meta_Availability = ''Planned for ER diagram linting expansion.'', meta_Severity = ''info'',
     meta_Description = ''Will flag entities with no incoming or outgoing relationships.'',
     meta_DefaultConfig = [(''enabled'', VBool False), (''severity'', VString ''info''), (''suppression-selectors'', VStrings [])],
     meta_ConfigurableOptions =
       [opt_enabled,
        opt_severity,
        opt_selectors ''Each entry must be a string selector.''],
     meta_AllowedOptionKeys = []\<rparr>"

definition meta_sequence_max_participants :: rule_metadata where
  "meta_sequence_max_participants =
   \<lparr>meta_ID = ''sequence-max-participants'', meta_State = ''planned'',
     meta_Availability = ''Planned for sequence diagram linting expansion.'', meta_Severity = ''info'',
     meta_Description = ''Will flag sequence diagrams that exceed a configurable participant count.'',
     meta_DefaultConfig = [(''enabled'', VBool False), (''severity'', VString ''info''), (''suppression-selectors'', VStrings [])],
     meta_ConfigurableOptions =
       [opt_enabled,
        opt_severity,
        opt_selectors ''Each entry must be a string selector.''],
     meta_AllowedOptionKeys = []\<rparr>"

definition meta_state_no_unreachable_states :: rule_metadata where
  "meta_state_no_unreachable_states =
   \<lparr>meta_ID = ''state-no-unreachable-states'', meta_State = ''planned'',
     meta_Availability = ''Planned for state diagram linting expansion.'', meta_Severity = ''info'',
     meta_Description = ''Will flag states that cannot be reached from any initial state.'',
     meta_DefaultConfig = [(''enabled'', VBool False), (''severity'', VString ''info''), (''suppression-selectors'', VStrings [])],
     meta_ConfigurableOptions =
       [opt_enabled,
        opt_severity,
        opt_selectors ''Each entry must be a string selector.''],
     meta_AllowedOptionKeys = []\<rparr>"

definition builtInRuleMetadata :: "rule_metadata list" where
  "builtInRuleMetadata =
     [meta_max_fanout, meta_no_duplicate_node_ids, meta_no_disconnected_nodes,
      meta_max_depth, meta_no_cycles, meta_class_no_orphan_classes,
      meta_er_no_isolated_entities, meta_sequence_max_participants, meta_state_no_unreachable_states]"

definition cloneRuleMetadata :: "rule_metadata \<Rightarrow> rule_metadata" where
  "cloneRuleMetadata metadata = metadata"

definition ListRuleMetadata :: "rule_metadata list" where
  "ListRuleMetadata = sort_key meta_ID (map cloneRuleMetadata builtInRuleMetadata)"

definition ListRuleMetadataForRuleIDs :: "gostring list \<Rightarrow> rule_metadata list" where
  "ListRuleMetadataForRuleIDs ruleIDs =
     (if ruleIDs = [] then []
      else sort_key meta_ID
             (map cloneRuleMetadata (filter (\<lambda>rule. meta_ID rule \<in> set ruleIDs) builtInRuleMetadata)))"

definition ListImplementedRuleMetadata :: "rule_metadata list" where
  "ListImplementedRuleMetadata =
     sort_key meta_ID
       (map cloneRuleMetadata (filter (\<lambda>rule. meta_State rule = ''implemented'') builtInRuleMetadata))"

definition ConfigRegistryForRuleIDs :: "gostring list \<Rightarrow> (gostring, rule_metadata) gomap" where
  "ConfigRegistryForRuleIDs ruleIDs =
     fold (\<lambda>metadata registry.
             let allowed = sort (gm_keys sharedOptionConstraints @
                   (case map_of ruleSpecificConstraints (meta_ID metadata) of
                      None \<Rightarrow> [] | Some m \<Rightarrow> gm_keys m))
             in AList.update (meta_ID metadata) (metadata\<lparr>meta_AllowedOptionKeys := allowed\<rparr>) registry)
       (if ruleIDs \<noteq> [] then ListRuleMetadataForRuleIDs ruleIDs else ListImplementedRuleMetadata) []"

definition ConfigRegistry :: "(gostring, rule_metadata) gomap" where
  "ConfigRegistry = ConfigRegistryForRuleIDs []"

section \<open>JSON schema of a configuration\<close>

definition CurrentConfigSchemaVersion :: gostring where
  "CurrentConfigSchemaVersion = ''v1''"

definition SuppressionSelectorPattern :: gostring where
  "SuppressionSelectorPattern = ''^!?(node|subgraph|rule):'' @ [CHR 0x5C] @ ''S+$''"

definition optionSchema :: "gostring \<Rightarrow> gostring \<Rightarrow> go_value" where
  "optionSchema name description =
     VMap ((''description'', VString description) #
       (if name = ''enabled'' then [(''type'', VString ''boolean'')]
        else if name = ''severity'' then
          [(''type'', VString ''string''), (''enum'', VStrings [''error'', ''warning'', ''info''])]
        else if name = ''suppression-selectors'' then
          [(''type'', VString ''array''),
           (''items'', VMap [(''type'', VString ''string''), (''pattern'', VString SuppressionSelectorPattern)])]
        else if name = ''limit'' then [(''type'', VString ''integer''), (''minimum'', VInt 1)]
        else if name = ''allow-self-loop'' then [(''type'', VString ''boolean'')]
        else [(''type'', VString ''string'')]))"

definition ruleOptionsSchema :: "rule_metadata \<Rightarrow> go_value" where
  "ruleOptionsSchema metadata =
     VMap [(''type'', VString ''object''), (''additionalProperties'', VBool False),
           (''properties'', VMap
              (fold (\<lambda>option. AList.update (opt_Name option)
                                 (optionSchema (opt_Name option) (opt_Description option)))
                 (meta_ConfigurableOptions metadata) []))]"

definition flatConfigSchemaForRuleIDs :: "gostring list \<Rightarrow> go_value" where
  "flatConfigSchemaForRuleIDs ruleIDs =
     (let registry = ConfigRegistryForRuleIDs ruleIDs;
          ruleIDList = sort (gm_keys registry);
          properties = map (\<lambda>ruleID. (ruleID, ruleOptionsSchema (the (map_of registry ruleID)))) ruleIDList
      in VMap [(''type'', VString ''object''), (''additionalProperties'', VBool False),
               (''properties'', VMap properties)])"

definition ConfigV1JSONSchemaForRuleIDs :: "gostring list \<Rightarrow> go_value" where
  "ConfigV1JSONSchemaForRuleIDs ruleIDs =
     VMap [(''$schema'', VString ''https://json-schema.org/draft/2020-12/schema''),
           (''title'', VString ''merm8 Rule Configuration v1''),
           (''type'', VString ''object''),
           (''required'', VStrings [''schema-version'', ''rules'']),
           (''additionalProperties'', VBool False),
           (''properties'', VMap
              [(''schema-version'', VMap [(''type'', VString ''string''),
                                          (''enum'', VStrings [CurrentConfigSchemaVersion])]),
               (''rules'', flatConfigSchemaForRuleIDs ruleIDs)])]"

definition ConfigJSONSchemaForRuleIDs :: "gostring list \<Rightarrow> go_value" where
  "ConfigJSONSchemaForRuleIDs ruleIDs =
     VMap [(''$schema'', VString ''https://json-schema.org/draft/2020-12/schema''),
           (''title'', VString ''merm8 Rule Configuration''),
           (''oneOf'', VList [flatConfigSchemaForRuleIDs ruleIDs, ConfigV1JSONSchemaForRuleIDs ruleIDs])]"

section \<open>Namespaces of rule identifiers\<close>

definition builtInRuleIDSet :: "gostring list" where
  "builtInRuleIDSet = map meta_ID builtInRuleMetadata"

definition segment_char :: "char \<Rightarrow> bool" where
  "segment_char c \<longleftrightarrow> (CHR ''a'' \<le> c \<and> c \<le> CHR ''z'') \<or> (CHR ''0'' \<le> c \<and> c \<le> CHR ''9'')"

definition isValidRuleIDSegment :: "gostring \<Rightarrow> bool" where
  "isValidRuleIDSegment value =
     (case value of
        [] \<Rightarrow> False
      | c # cs \<Rightarrow> segment_char c \<and> list_all (\<lambda>x. segment_char x \<or> x = CHR ''-'') cs)"

datatype rule_id_error =
    EmptyRuleID
  | InvalidCoreSegment gostring
  | ReservedCoreNamespace gostring
  | InvalidCustomID gostring
  | UnsupportedNamespace gostring
  | InvalidBareID gostring
  | UnknownRuleID gostring

text \<open>The registration check returns a warning, empty when there is none, or an error.\<close>

definition legacyCustomRuleIDTransitionWindow :: gostring where
  "legacyCustomRuleIDTransitionWindow = ''v1.4.0''"

definition ValidateRegisteredRuleID :: "gostring \<Rightarrow> rule_id_error + gostring" where
  "ValidateRegisteredRuleID rawRuleID =
     (let ruleID = TrimSpace rawRuleID in
      if ruleID = [] then Inl EmptyRuleID
      else if HasPrefix ruleID ''core/'' then
        (let ruleName = TrimPrefix ruleID ''core/'' in
         if \<not> isValidRuleIDSegment ruleName then Inl (InvalidCoreSegment rawRuleID)
         else if ruleName \<notin> set builtInRuleIDSet then Inl (ReservedCoreNamespace rawRuleID)
         else Inr [])
      else if HasPrefix ruleID ''custom/'' then
        (case Split ruleID CHR ''/'' of
           [_, p1, p2] \<Rightarrow>
             if \<not> isValidRuleIDSegment p1 \<or> \<not> isValidRuleIDSegment p2
             then Inl (InvalidCustomID rawRuleID) else Inr []
         | _ \<Rightarrow> Inl (InvalidCustomID rawRuleID))
      else if CHR ''/'' \<in> set ruleID then Inl (UnsupportedNamespace rawRuleID)
      else if \<not> isValidRuleIDSegment ruleID then Inl (InvalidBareID rawRuleID)
      else if ruleID \<in> set builtInRuleIDSet then Inr []
      else Inr (''legacy unnamespaced custom rule id '' @ [CHR 0x22] @ ruleID @ [CHR 0x22] @
                '' is deprecated and will be removed in '' @ legacyCustomRuleIDTransitionWindow @
                ''; migrate to custom/<provider>/'' @ ruleID))"

definition CanonicalRuleRegistrationID :: "gostring \<Rightarrow> gostring" where
  "CanonicalRuleRegistrationID rawRuleID =
     (let ruleID = TrimSpace rawRuleID in
      if HasPrefix ruleID ''core/'' \<or> HasPrefix ruleID ''custom/'' then ruleID
      else if ruleID \<in> set builtInRuleIDSet then ''core/'' @ ruleID
      else ''custom/legacy/'' @ ruleID)"

text \<open>The configured key resolves to the registered identifier and a warning, or is unknown.\<close>

definition NormalizeConfigRuleID ::
  "gostring \<Rightarrow> gostring list \<Rightarrow> rule_id_error + gostring \<times> gostring" where
  "NormalizeConfigRuleID rawRuleID knownRuleIDs =
     (let ruleID = TrimSpace rawRuleID in
      if ruleID = [] then Inl EmptyRuleID
      else if HasPrefix ruleID ''core/'' then
        (let innerRuleID = TrimPrefix ruleID ''core/'' in
         if \<not> isValidRuleIDSegment innerRuleID then Inl (UnknownRuleID ruleID)
         else if innerRuleID \<notin> set builtInRuleIDSet then Inl (UnknownRuleID ruleID)
         else if innerRuleID \<notin> set knownRuleIDs then Inl (UnknownRuleID ruleID)
         else Inr (innerRuleID, []))
      else if ruleID \<in> set knownRuleIDs then
        Inr (ruleID,
          if ruleID \<in> set builtInRuleIDSet
          then ''legacy built-in rule id '' @ [CHR 0x22] @ ruleID @ [CHR 0x22] @
               '' in config is accepted; prefer core/'' @ ruleID
          else [])
      else Inl (UnknownRuleID ruleID))"

section \<open>Facts about the registry\<close>

lemmas builtIn_metas = builtInRuleMetadata_def meta_max_fanout_def meta_no_duplicate_node_ids_def meta_no_disconnected_nodes_def
  meta_max_depth_def meta_no_cycles_def meta_class_no_orphan_classes_def
  meta_er_no_isolated_entities_def meta_sequence_max_participants_def meta_state_no_unreachable_states_def

lemma builtInRuleIDSet_eq:
  "builtInRuleIDSet =
     [''max-fanout'', ''no-duplicate-node-ids'', ''no-disconnected-nodes'', ''max-depth'', ''no-cycles'',
      ''class-no-orphan-classes'', ''er-no-isolated-entities'', ''sequence-max-participants'',
      ''state-no-unreachable-states'']"
  by (simp add: builtInRuleIDSet_def builtIn_metas)

lemma distinct_builtInRuleIDSet: "distinct builtInRuleIDSet"
  by (simp add: builtInRuleIDSet_eq)

lemma NormalizeConfigRuleID_known:
  "NormalizeConfigRuleID raw known = Inr (ruleID, w) \<Longrightarrow> ruleID \<in> set known"
  by (auto simp: NormalizeConfigRuleID_def Let_def split: if_splits)

end
