(* ===== verification/Rule_Config.thy ===== *)
theory Rule_Config
  imports Registry
begin

text \<open>
  The rule interface and the shared part of every rule, \<^verbatim>\<open>internal/rules/rule.go\<close>:
  severity resolution, enabling, normalisation and validation of a configuration, and the
  subgraph context of a node.

  The association list of a map argument lists its entries in the order \<open>range\<close> visits them;
  a map that a function builds and then ranges over is visited in the order \<open>ord\<close>.
\<close>

datatype config_error =
    BadRuleID rule_id_error
  | SeverityNotString gostring
  | SeverityNotAllowed gostring gostring
  | EnabledNotBoolean gostring
  | SelectorsNotStrings gostring
  | BadSelector gostring gostring

section \<open>Severity and enabling\<close>

definition resolveSeverity :: "gostring \<Rightarrow> config \<Rightarrow> gostring \<Rightarrow> config_error + gostring" where
  "resolveSeverity ruleID cfg defaultSeverity =
     (case map_of cfg ruleID of
        None \<Rightarrow> Inr defaultSeverity
      | Some ruleConfig \<Rightarrow>
          (case map_of ruleConfig ''severity'' of
             None \<Rightarrow> Inr defaultSeverity
           | Some (VString raw) \<Rightarrow>
               (let severity = normalizeSeverity raw
                in if severity \<in> set allowedSeverities then Inr severity
                   else Inl (SeverityNotAllowed ruleID severity))
           | Some _ \<Rightarrow> Inl (SeverityNotString ruleID)))"

definition EffectiveSeverity :: "gostring \<Rightarrow> config \<Rightarrow> gostring \<Rightarrow> gostring" where
  "EffectiveSeverity ruleID cfg defaultSeverity =
     (case resolveSeverity ruleID cfg defaultSeverity of
        Inl _ \<Rightarrow> defaultSeverity
      | Inr severity \<Rightarrow> severity)"

definition RuleEnabled :: "gostring \<Rightarrow> config \<Rightarrow> bool" where
  "RuleEnabled ruleID cfg =
     (case map_of cfg ruleID of
        None \<Rightarrow> True
      | Some ruleConfig \<Rightarrow>
          (case map_of ruleConfig ''enabled'' of
             Some (VBool enabled) \<Rightarrow> enabled
           | _ \<Rightarrow> True))"

section \<open>Normalisation and validation\<close>

definition validate_rule_config :: "gostring \<Rightarrow> config \<Rightarrow> config_error option" where
  "validate_rule_config ruleID cfg =
     (case resolveSeverity ruleID cfg ''warning'' of
        Inl e \<Rightarrow> Some e
      | Inr _ \<Rightarrow>
          (let ruleConfig = (case map_of cfg ruleID of None \<Rightarrow> [] | Some rc \<Rightarrow> rc) in
           if (case map_of ruleConfig ''enabled'' of None \<Rightarrow> False | Some (VBool _) \<Rightarrow> False | Some _ \<Rightarrow> True)
           then Some (EnabledNotBoolean ruleID)
           else case map_of ruleConfig ''suppression-selectors'' of
                  None \<Rightarrow> None
                | Some rawSelectors \<Rightarrow>
                    (case string_slice rawSelectors of
                       None \<Rightarrow> Some (SelectorsNotStrings ruleID)
                     | Some selectors \<Rightarrow>
                         map_option (BadSelector ruleID)
                           (find (\<lambda>s. ParseSuppressionSelector s = None) selectors))))"

fun validate_rules :: "gostring list \<Rightarrow> config \<Rightarrow> config_error option" where
  "validate_rules [] cfg = None"
| "validate_rules (ruleID # rest) cfg =
     (case validate_rule_config ruleID cfg of
        Some e \<Rightarrow> Some e
      | None \<Rightarrow> validate_rules rest cfg)"

definition ValidateConfig :: "(gostring list \<Rightarrow> gostring list) \<Rightarrow> config \<Rightarrow> config_error option" where
  "ValidateConfig ord cfg = validate_rules (ord (gm_keys cfg)) cfg"

definition normalize_options :: "rule_config \<Rightarrow> rule_config" where
  "normalize_options rawRuleCfg =
     fold (\<lambda>(key, value). AList.update (normalizeMetaKey key) value) rawRuleCfg []"

definition merge_options :: "rule_config \<Rightarrow> rule_config \<Rightarrow> rule_config" where
  "merge_options existing new = fold (\<lambda>(key, value). put_absent key value) new existing"

fun normalize_rules ::
  "gostring list \<Rightarrow> (gostring \<times> rule_config) list \<Rightarrow> config \<Rightarrow> config_error + config" where
  "normalize_rules known [] normalized = Inr normalized"
| "normalize_rules known ((ruleID, rawRuleCfg) # rest) normalized =
     (case NormalizeConfigRuleID ruleID known of
        Inl e \<Rightarrow> Inl (BadRuleID e)
      | Inr (canonicalRuleID, warning) \<Rightarrow>
          (let normalizedRuleCfg = normalize_options rawRuleCfg
           in normalize_rules known rest
                (AList.update canonicalRuleID
                   (case map_of normalized canonicalRuleID of
                      None \<Rightarrow> normalizedRuleCfg
                    | Some existing \<Rightarrow> merge_options existing normalizedRuleCfg)
                   normalized)))"

definition NormalizeConfig ::
  "(gostring list \<Rightarrow> gostring list) \<Rightarrow> config \<Rightarrow> gostring list \<Rightarrow> config_error + config" where
  "NormalizeConfig ord cfg knownRuleIDs =
     (case normalize_rules knownRuleIDs cfg [] of
        Inl e \<Rightarrow> Inl e
      | Inr normalized \<Rightarrow>
          (case ValidateConfig ord normalized of
             Some e \<Rightarrow> Inl e
           | None \<Rightarrow> Inr normalized))"

section \<open>Subgraph context\<close>

text \<open>The inner loop: the context at the wanted occurrence, or the number seen so far.\<close>

fun scan_subgraph :: "subgraph \<Rightarrow> gostring \<Rightarrow> int \<Rightarrow> gostring list \<Rightarrow> int \<Rightarrow> issue_context + int" where
  "scan_subgraph sg nodeID occurrence [] seen = Inr seen"
| "scan_subgraph sg nodeID occurrence (i # ids) seen =
     (if i = nodeID then
        (if seen = occurrence
         then Inl \<lparr>ctx_SubgraphID = sub_ID sg, ctx_SubgraphLabel = sub_Label sg\<rparr>
         else scan_subgraph sg nodeID occurrence ids (seen + 1))
      else scan_subgraph sg nodeID occurrence ids seen)"

fun scan_subgraphs :: "subgraph list \<Rightarrow> gostring \<Rightarrow> int \<Rightarrow> int \<Rightarrow> issue_context option" where
  "scan_subgraphs [] nodeID occurrence seen = None"
| "scan_subgraphs (sg # sgs) nodeID occurrence seen =
     (case scan_subgraph sg nodeID occurrence (sub_Nodes sg) seen of
        Inl ctx \<Rightarrow> Some ctx
      | Inr seen' \<Rightarrow> scan_subgraphs sgs nodeID occurrence seen')"

definition NodeSubgraphContextForOccurrence :: "diagram \<Rightarrow> gostring \<Rightarrow> int \<Rightarrow> issue_context option" where
  "NodeSubgraphContextForOccurrence d nodeID occurrence =
     (if occurrence < 0 then None
      else scan_subgraphs (diag_Subgraphs d) nodeID occurrence 0)"

definition NodeSubgraphContext :: "diagram \<Rightarrow> gostring \<Rightarrow> issue_context option" where
  "NodeSubgraphContext d nodeID = NodeSubgraphContextForOccurrence d nodeID 0"

section \<open>The rule interface\<close>

text \<open>
  A rule: its identifier, its families (\<^const>\<open>None\<close> when the rule does not implement
  \<^verbatim>\<open>DiagramFamilyRule\<close>) and its \<^verbatim>\<open>Run\<close>, which takes the iteration order of its maps.
\<close>

record rule =
  rule_ID :: gostring
  rule_Families :: "diagram_family list option"
  rule_Run :: "(gostring list \<Rightarrow> gostring list) \<Rightarrow> diagram \<Rightarrow> config \<Rightarrow> issue list"

definition SupportsDiagramFamily :: "rule \<Rightarrow> diagram_family \<Rightarrow> bool" where
  "SupportsDiagramFamily r family =
     (case rule_Families r of
        None \<Rightarrow> True
      | Some families \<Rightarrow> families = [] \<or> family \<in> set families)"

text \<open>
  What the engine relies on in every rule: findings carry the rule's own identifier, a
  canonical severity and an empty fingerprint.
\<close>

locale lint_rule =
  fixes r :: rule
  assumes run_RuleID: "i \<in> set (rule_Run r ord d cfg) \<Longrightarrow> iss_RuleID i = rule_ID r"
    and run_Severity: "i \<in> set (rule_Run r ord d cfg) \<Longrightarrow> iss_Severity i \<in> set allowedSeverities"
    and run_Fingerprint: "i \<in> set (rule_Run r ord d cfg) \<Longrightarrow> iss_Fingerprint i = []"

text \<open>A rule whose findings do not depend on the order in which it visits its maps.\<close>

locale deterministic_rule = lint_rule +
  assumes run_order:
    "iteration_order ord \<Longrightarrow> iteration_order ord' \<Longrightarrow>
     mset (rule_Run r ord d cfg) = mset (rule_Run r ord' d cfg)"

section \<open>Lemmas\<close>

lemma EffectiveSeverity_allowed:
  "deflt \<in> set allowedSeverities \<Longrightarrow> EffectiveSeverity ruleID cfg deflt \<in> set allowedSeverities"
  by (auto simp: EffectiveSeverity_def resolveSeverity_def Let_def split: option.splits go_value.splits sum.splits)

lemma EffectiveSeverity_builtin [simp]:
  "EffectiveSeverity ruleID cfg ''error'' \<in> set allowedSeverities"
  "EffectiveSeverity ruleID cfg ''warning'' \<in> set allowedSeverities"
  by (rule EffectiveSeverity_allowed, simp add: allowedSeverities_def)+

text \<open>The three conditions of \<open>lint_rule\<close> on a list of findings.\<close>

definition own_issues :: "rule \<Rightarrow> issue list \<Rightarrow> bool" where
  "own_issues r is \<longleftrightarrow>
     (\<forall>i\<in>set is. iss_RuleID i = rule_ID r \<and> iss_Severity i \<in> set allowedSeverities \<and>
        iss_Fingerprint i = [])"

lemma lint_ruleI: "(\<And>ord d cfg. own_issues r (rule_Run r ord d cfg)) \<Longrightarrow> lint_rule r"
  unfolding own_issues_def by unfold_locales fastforce+

lemma deterministic_ruleI:
  assumes "\<And>ord d cfg. own_issues r (rule_Run r ord d cfg)"
    and "\<And>ord ord' d cfg. iteration_order ord \<Longrightarrow> iteration_order ord' \<Longrightarrow>
          mset (rule_Run r ord d cfg) = mset (rule_Run r ord' d cfg)"
  shows "deterministic_rule r"
  using lint_ruleI [OF assms(1)] assms(2) unfolding deterministic_rule_def deterministic_rule_axioms_def
  by blast

lemma validate_rules_None:
  "validate_rules ids cfg = None \<longleftrightarrow> (\<forall>ruleID\<in>set ids. validate_rule_config ruleID cfg = None)"
  by (induction ids) (auto split: option.splits)

lemma ValidateConfig_None:
  "iteration_order ord \<Longrightarrow>
   ValidateConfig ord cfg = None \<longleftrightarrow> (\<forall>ruleID\<in>set (gm_keys cfg). validate_rule_config ruleID cfg = None)"
  by (simp add: ValidateConfig_def validate_rules_None iteration_order_set)

lemma normalize_rules_keys:
  "normalize_rules known rcs acc = Inr out \<Longrightarrow>
   set (gm_keys acc) \<subseteq> set known \<Longrightarrow> distinct (gm_keys acc) \<Longrightarrow>
   set (gm_keys out) \<subseteq> set known \<and> distinct (gm_keys out)"
proof (induction rcs arbitrary: acc)
  case Nil
  then show ?case by simp
next
  case (Cons rc rcs)
  obtain ruleID raw where rc: "rc = (ruleID, raw)" by (cases rc)
  with Cons.prems(1) obtain canon w where canon: "NormalizeConfigRuleID ruleID known = Inr (canon, w)"
    by (auto split: sum.splits)
  then have "canon \<in> set known" by (rule NormalizeConfigRuleID_known)
  with Cons rc canon show ?case
    by (auto simp: Let_def set_gm_keys_update distinct_gm_keys_update)
qed

lemma NormalizeConfig_keys:
  assumes "NormalizeConfig ord cfg known = Inr out"
  shows "set (gm_keys out) \<subseteq> set known" and "distinct (gm_keys out)"
  using assms normalize_rules_keys [of known cfg "[]" out]
  by (auto simp: NormalizeConfig_def split: sum.splits option.splits)

lemma NormalizeConfig_valid:
  assumes "iteration_order ord" and "NormalizeConfig ord cfg known = Inr out"
    and "ruleID \<in> set (gm_keys out)"
  shows "validate_rule_config ruleID out = None"
  using assms by (auto simp: NormalizeConfig_def ValidateConfig_None split: sum.splits option.splits)

lemma NormalizeConfig_Inr:
  assumes "iteration_order ord"
  shows "NormalizeConfig ord cfg known = Inr out \<longleftrightarrow> normalize_rules known cfg [] = Inr out \<and>
    (\<forall>ruleID\<in>set (gm_keys out). validate_rule_config ruleID out = None)"
  unfolding ValidateConfig_None [OF assms, symmetric]
  by (auto simp: NormalizeConfig_def split: sum.splits option.splits)

lemma scan_subgraph_eq:
  "0 \<le> n \<Longrightarrow> scan_subgraph sg x (seen + n) ids seen =
     (if nat n < count_list ids x
      then Inl \<lparr>ctx_SubgraphID = sub_ID sg, ctx_SubgraphLabel = sub_Label sg\<rparr>
      else Inr (seen + int (count_list ids x)))"
proof (induction ids arbitrary: n seen)
  case Nil
  then show ?case by simp
next
  case (Cons i ids)
  show ?case
  proof (cases "i = x \<and> n \<noteq> 0")
    case True
    with Cons.prems have "0 \<le> n - 1" by simp
    from Cons.IH [OF this, of "seen + 1"] True Cons.prems show ?thesis
      by (auto simp: algebra_simps)
  next
    case False
    with Cons show ?thesis by auto
  qed
qed

text \<open>
  The occurrence lookup finds the subgraph of the n-th entry for the node in the
  concatenation of all subgraph node lists.
\<close>

definition occurrences :: "subgraph list \<Rightarrow> gostring \<Rightarrow> subgraph list" where
  "occurrences sgs x = concat (map (\<lambda>sg. replicate (count_list (sub_Nodes sg) x) sg) sgs)"

lemma scan_subgraphs_eq:
  "0 \<le> n \<Longrightarrow> scan_subgraphs sgs x (seen + n) seen =
     (if nat n < length (occurrences sgs x)
      then Some \<lparr>ctx_SubgraphID = sub_ID (occurrences sgs x ! nat n),
                 ctx_SubgraphLabel = sub_Label (occurrences sgs x ! nat n)\<rparr>
      else None)"
proof (induction sgs arbitrary: n seen)
  case Nil
  then show ?case by (simp add: occurrences_def)
next
  case (Cons sg sgs)
  let ?c = "count_list (sub_Nodes sg) x"
  show ?case
  proof (cases "nat n < ?c")
    case True
    with Cons.prems show ?thesis
      by (simp add: scan_subgraph_eq occurrences_def nth_append)
  next
    case False
    with Cons.prems have n': "0 \<le> n - int ?c" by simp
    have split: "seen + n = (seen + int ?c) + (n - int ?c)" by simp
    have scan: "scan_subgraph sg x (seen + n) (sub_Nodes sg) seen = Inr (seen + int ?c)"
      using False Cons.prems by (simp add: scan_subgraph_eq)
    have idx: "nat (n - int ?c) = nat n - ?c" by simp
    have occ: "occurrences (sg # sgs) x = replicate ?c sg @ occurrences sgs x"
      by (simp add: occurrences_def)
    show ?thesis
      using Cons.IH [OF n', of "seen + int ?c"] False
      unfolding scan_subgraphs.simps scan split [symmetric] idx occ
      by (simp add: nth_append less_diff_conv2)
  qed
qed

end
