(* ===== verification/Rules_Flowchart.thy ===== *)
theory Rules_Flowchart
  imports Rule_Config
begin

text \<open>
  The three counting rules for flowcharts: \<^verbatim>\<open>no_duplicate_node_ids.go\<close>,
  \<^verbatim>\<open>no_disconnected_nodes.go\<close> and \<^verbatim>\<open>max_fanout.go\<close> of \<^verbatim>\<open>internal/rules\<close>.
  For each: the rule, which identifiers it flags, and that the findings do not depend on the
  order in which Go visits its maps.
\<close>

section \<open>Duplicate node identifiers\<close>

definition duplicate_ids :: "(gostring list \<Rightarrow> gostring list) \<Rightarrow> diagram \<Rightarrow> (gostring, unit) gomap" where
  "duplicate_ids ord d =
     (let idCount = count_by node_ID (diag_Nodes d);
          fromNodes = fold (\<lambda>(nodeID, count) s. if count > 1 then set_add nodeID s else s)
                        (range_map ord idCount) []
      in fold set_add (diag_DuplicateNodeIDs d) fromNodes)"

definition NoDuplicateNodeIDs_Run ::
  "(gostring list \<Rightarrow> gostring list) \<Rightarrow> diagram \<Rightarrow> config \<Rightarrow> issue list" where
  "NoDuplicateNodeIDs_Run ord d cfg =
     (let severity = EffectiveSeverity ''no-duplicate-node-ids'' cfg ''error'';
          lastNodeByID = index_last node_ID (diag_Nodes d);
          orderedDuplicateIDs = sort (ord (gm_keys (duplicate_ids ord d)))
      in map (\<lambda>nodeID.
                let lastNode = map_of lastNodeByID nodeID
                in mk_issue ''no-duplicate-node-ids'' severity (''duplicate node ID: '' @ nodeID)
                     (Option.bind lastNode node_Line) (Option.bind lastNode node_Column) None)
           orderedDuplicateIDs)"

definition NoDuplicateNodeIDs :: rule where
  "NoDuplicateNodeIDs =
     \<lparr>rule_ID = ''no-duplicate-node-ids'', rule_Families = Some [DiagramFamilyFlowchart],
      rule_Run = NoDuplicateNodeIDs_Run\<rparr>"

lemma set_duplicate_ids:
  "iteration_order ord \<Longrightarrow> set (gm_keys (duplicate_ids ord d)) =
     {x. 1 < length (filter (\<lambda>n. node_ID n = x) (diag_Nodes d))} \<union> set (diag_DuplicateNodeIDs d)"
  unfolding duplicate_ids_def Let_def
  by (auto simp: set_gm_keys_fold_add set_gm_keys_add_if [where P = "\<lambda>n. Suc 0 < n"] set_range_map set_count_by)

lemma distinct_duplicate_ids: "distinct (gm_keys (duplicate_ids ord d))"
  unfolding duplicate_ids_def Let_def
  by (simp add: distinct_gm_keys_fold_add distinct_gm_keys_add_if [where P = "\<lambda>n. Suc 0 < n"])

lemma sorted_keys_cong:
  assumes "iteration_order ord" "iteration_order ord'" "distinct ks" "distinct ks'" "set ks = set ks'"
  shows "sort (ord ks) = sort (ord' ks')"
  using assms by (metis iteration_order_sort sorted_distinct_set_unique sorted_sort distinct_sort set_sort)

lemma NoDuplicateNodeIDs_order:
  assumes "iteration_order ord" "iteration_order ord'"
  shows "NoDuplicateNodeIDs_Run ord d cfg = NoDuplicateNodeIDs_Run ord' d cfg"
proof -
  have "sort (ord (gm_keys (duplicate_ids ord d))) = sort (ord' (gm_keys (duplicate_ids ord' d)))"
    by (rule sorted_keys_cong) (simp_all add: assms distinct_duplicate_ids set_duplicate_ids)
  then show ?thesis by (simp add: NoDuplicateNodeIDs_Run_def)
qed

section \<open>Disconnected nodes\<close>

definition disconnected_ids :: "diagram \<Rightarrow> (gostring, unit) gomap" where
  "disconnected_ids d =
     (let singleNodeNoEdgesExempt = (length (diag_Nodes d) = 1 \<and> length (diag_Edges d) = 0)
      in if singleNodeNoEdgesExempt then []
         else
           let graphIDs =
             (if length (diag_Nodes d) = 0 then []
              else if length (diag_Edges d) = 0 then key_set (map node_ID (diag_Nodes d))
              else let nodeInEdges = fold (\<lambda>e s. set_add (edge_To e) (set_add (edge_From e) s)) (diag_Edges d) []
                   in key_set (map node_ID (filter (\<lambda>n. map_of nodeInEdges (node_ID n) = None) (diag_Nodes d))))
           in fold set_add (diag_DisconnectedNodeIDs d) graphIDs)"

definition NoDisconnectedNodes_Run ::
  "(gostring list \<Rightarrow> gostring list) \<Rightarrow> diagram \<Rightarrow> config \<Rightarrow> issue list" where
  "NoDisconnectedNodes_Run ord d cfg =
     (let severity = EffectiveSeverity ''no-disconnected-nodes'' cfg ''error'';
          nodeByID = index_first node_ID (diag_Nodes d);
          disconnectedIDs = disconnected_ids d
      in if disconnectedIDs = [] then []
         else map (\<lambda>nodeID.
                     let node = map_of nodeByID nodeID
                     in mk_issue ''no-disconnected-nodes'' severity (''node is disconnected: '' @ nodeID)
                          (Option.bind node node_Line) (Option.bind node node_Column) None)
                (sort (ord (gm_keys disconnectedIDs))))"

definition NoDisconnectedNodes :: rule where
  "NoDisconnectedNodes =
     \<lparr>rule_ID = ''no-disconnected-nodes'', rule_Families = Some [DiagramFamilyFlowchart],
      rule_Run = NoDisconnectedNodes_Run\<rparr>"

definition touches :: "diagram \<Rightarrow> gostring \<Rightarrow> bool" where
  "touches d x \<longleftrightarrow> (\<exists>e\<in>set (diag_Edges d). edge_From e = x \<or> edge_To e = x)"

lemma node_in_edges_keys:
  "set (gm_keys (fold (\<lambda>e s. set_add (edge_To e) (set_add (edge_From e) s)) es s)) =
     set (gm_keys s) \<union> edge_From ` set es \<union> edge_To ` set es"
  by (induction es arbitrary: s) (auto simp: set_add_def set_gm_keys_update)

lemma node_in_edges_None:
  "map_of (fold (\<lambda>e s. set_add (edge_To e) (set_add (edge_From e) s)) es []) x = None \<longleftrightarrow>
     (\<forall>e\<in>set es. edge_From e \<noteq> x \<and> edge_To e \<noteq> x)"
  using node_in_edges_keys [of es "[]"] by (auto simp: set_gm_keys map_of_eq_None_iff dom_map_of_conv_image_fst)

lemma set_disconnected_ids:
  "set (gm_keys (disconnected_ids d)) =
     (if length (diag_Nodes d) = 1 \<and> diag_Edges d = [] then {}
      else {x \<in> node_ID ` set (diag_Nodes d). \<not> touches d x} \<union> set (diag_DisconnectedNodeIDs d))"
  by (auto simp: disconnected_ids_def Let_def set_gm_keys_fold_add gomap_simps touches_def node_in_edges_None)

lemma distinct_disconnected_ids: "distinct (gm_keys (disconnected_ids d))"
  by (auto simp: disconnected_ids_def Let_def intro!: distinct_gm_keys_fold_add)

lemma NoDisconnectedNodes_order:
  "iteration_order ord \<Longrightarrow> iteration_order ord' \<Longrightarrow>
   NoDisconnectedNodes_Run ord d cfg = NoDisconnectedNodes_Run ord' d cfg"
  by (simp add: NoDisconnectedNodes_Run_def Let_def iteration_order_sort)

section \<open>Fan-out\<close>

definition MaxFanout_Run ::
  "(gostring list \<Rightarrow> gostring list) \<Rightarrow> diagram \<Rightarrow> config \<Rightarrow> issue list" where
  "MaxFanout_Run ord d cfg =
     (let severity = EffectiveSeverity ''max-fanout'' cfg ''warning'';
          limit = limit_option cfg ''max-fanout'' defaultMaxFanout;
          fanout = count_by edge_From (diag_Edges d);
          nodeLocations = index_last node_ID (diag_Nodes d);
          edgeLocations = index_first edge_From (diag_Edges d)
      in map (\<lambda>(nodeID, count).
                let message = ''node '' @ Quote nodeID @ '' has fanout '' @ Itoa (int count) @
                              '', exceeding limit of '' @ Itoa limit;
                    location =
                      (case map_of nodeLocations nodeID of
                         Some node \<Rightarrow> (node_Line node, node_Column node)
                       | None \<Rightarrow>
                           (case map_of edgeLocations nodeID of
                              Some edge \<Rightarrow> (edge_Line edge, edge_Column edge)
                            | None \<Rightarrow> (None, None)))
                in mk_issue ''max-fanout'' severity message (fst location) (snd location)
                     (NodeSubgraphContext d nodeID))
           (filter (\<lambda>(nodeID, count). int count > limit) (range_map ord fanout)))"

definition MaxFanout :: rule where
  "MaxFanout =
     \<lparr>rule_ID = ''max-fanout'', rule_Families = Some [DiagramFamilyFlowchart],
      rule_Run = MaxFanout_Run\<rparr>"

definition out_degree :: "diagram \<Rightarrow> gostring \<Rightarrow> nat" where
  "out_degree d x = length (filter (\<lambda>e. edge_From e = x) (diag_Edges d))"

lemma MaxFanout_order:
  assumes "iteration_order ord" "iteration_order ord'"
  shows "mset (MaxFanout_Run ord d cfg) = mset (MaxFanout_Run ord' d cfg)"
  unfolding MaxFanout_Run_def Let_def by (rule mset_loop_order) (simp_all add: assms)

section \<open>The rule contract\<close>

lemma NoDuplicateNodeIDs_sel [simp]:
  "rule_ID NoDuplicateNodeIDs = ''no-duplicate-node-ids''"
  "rule_Run NoDuplicateNodeIDs = NoDuplicateNodeIDs_Run"
  by (simp_all add: NoDuplicateNodeIDs_def)

lemma NoDisconnectedNodes_sel [simp]:
  "rule_ID NoDisconnectedNodes = ''no-disconnected-nodes''"
  "rule_Run NoDisconnectedNodes = NoDisconnectedNodes_Run"
  by (simp_all add: NoDisconnectedNodes_def)

lemma MaxFanout_sel [simp]:
  "rule_ID MaxFanout = ''max-fanout''" "rule_Run MaxFanout = MaxFanout_Run"
  by (simp_all add: MaxFanout_def)

interpretation duplicate_rule: deterministic_rule NoDuplicateNodeIDs
proof (rule deterministic_ruleI)
  show "own_issues NoDuplicateNodeIDs (rule_Run NoDuplicateNodeIDs ord d cfg)" for ord d cfg
    by (auto simp: NoDuplicateNodeIDs_Run_def Let_def own_issues_def)
qed (metis NoDuplicateNodeIDs_order NoDuplicateNodeIDs_sel(2))

interpretation disconnected_rule: deterministic_rule NoDisconnectedNodes
proof (rule deterministic_ruleI)
  show "own_issues NoDisconnectedNodes (rule_Run NoDisconnectedNodes ord d cfg)" for ord d cfg
    by (auto simp: NoDisconnectedNodes_Run_def Let_def own_issues_def)
qed (metis NoDisconnectedNodes_order NoDisconnectedNodes_sel(2))

interpretation fanout_rule: deterministic_rule MaxFanout
proof (rule deterministic_ruleI)
  show "own_issues MaxFanout (rule_Run MaxFanout ord d cfg)" for ord d cfg
    by (auto simp: MaxFanout_Run_def Let_def own_issues_def)
qed (metis MaxFanout_order MaxFanout_sel(2))

end
