(* ===== verification/Graph.thy ===== *)
theory Graph
  imports Prelude
begin

text \<open>
  Notions shared by the graph-walking rules: Go's \<^verbatim>\<open>map[string]bool\<close> marks, walks and
  closed walks of a relation, and how acyclicity extends when a finished node is added to a
  closed set.
\<close>

section \<open>Marks\<close>

type_synonym 'k marks = "('k, bool) gomap"

text \<open>\<open>m[k]\<close> for a map of booleans: false when absent.\<close>

definition marked :: "'k marks \<Rightarrow> 'k \<Rightarrow> bool" where
  "marked m k \<longleftrightarrow> map_of m k = Some True"

definition marks_of :: "'k marks \<Rightarrow> 'k set" where
  "marks_of m = {k. marked m k}"

lemma marked_Nil [simp]: "\<not> marked [] k"
  by (simp add: marked_def)

lemma marked_update [simp]: "marked (AList.update k b m) k' = (if k' = k then b else marked m k')"
  by (auto simp: marked_def update_conv')

lemma marks_of_Nil [simp]: "marks_of [] = {}"
  by (simp add: marks_of_def)

lemma marks_of_mark [simp]: "marks_of (AList.update k True m) = insert k (marks_of m)"
  by (auto simp: marks_of_def)

lemma marks_of_unmark [simp]: "marks_of (AList.update k False m) = marks_of m - {k}"
  by (auto simp: marks_of_def)

lemma marked_iff: "marked m k \<longleftrightarrow> k \<in> marks_of m"
  by (simp add: marks_of_def)

section \<open>Adjacency lists\<close>

definition adj_range :: "('k, 'v list) gomap \<Rightarrow> 'v set" where
  "adj_range adj = (\<Union>p\<in>set adj. set (snd p))"

definition succs :: "('k, 'k list) gomap \<Rightarrow> ('k \<times> 'k) set" where
  "succs adj = {(x, y). y \<in> set (adj_of adj x)}"

lemma finite_adj_range [simp]: "finite (adj_range adj)"
  by (simp add: adj_range_def)

lemma adj_of_range: "set (adj_of adj x) \<subseteq> adj_range adj"
proof (cases "map_of adj x")
  case (Some es)
  then have "(x, es) \<in> set adj" by (rule map_of_SomeD)
  with Some show ?thesis by (force simp: adj_of_def adj_range_def)
qed (simp add: adj_of_def)

lemma adj_of_key: "y \<in> set (adj_of adj x) \<Longrightarrow> x \<in> set (gm_keys adj)"
  unfolding adj_of_def set_gm_keys by (cases "map_of adj x") auto

lemma succs_group_by: "succs (group_by f g xs) = {(f x, g x) | x. x \<in> set xs}"
  by (auto simp: succs_def gomap_simps)

section \<open>Walks\<close>

definition walk :: "('a \<times> 'a) set \<Rightarrow> 'a list \<Rightarrow> bool" where
  "walk R xs \<longleftrightarrow> xs \<noteq> [] \<and> successively (\<lambda>x y. (x, y) \<in> R) xs"

definition closed_walk :: "('a \<times> 'a) set \<Rightarrow> 'a list \<Rightarrow> bool" where
  "closed_walk R xs \<longleftrightarrow> walk R xs \<and> 2 \<le> length xs \<and> hd xs = last xs"

lemma walk_single [simp]: "walk R [x]"
  by (simp add: walk_def)

lemma walk_Cons: "walk R (x # y # ys) \<longleftrightarrow> (x, y) \<in> R \<and> walk R (y # ys)"
  by (simp add: walk_def)

lemma walk_snoc: "walk R xs \<Longrightarrow> (last xs, y) \<in> R \<Longrightarrow> walk R (xs @ [y])"
  by (auto simp: walk_def successively_append_iff)

lemma walk_drop: "walk R xs \<Longrightarrow> i < length xs \<Longrightarrow> walk R (drop i xs)"
  by (metis append_take_drop_id drop_eq_Nil leD successively_append_iff walk_def)

lemma walk_rtrancl: "walk R xs \<Longrightarrow> (hd xs, last xs) \<in> R\<^sup>*"
proof (induction xs rule: induct_list012)
  case (3 x y zs)
  then have "(x, y) \<in> R" and "(y, last (y # zs)) \<in> R\<^sup>*" by (auto simp: walk_Cons)
  then show ?case by (auto intro: converse_rtrancl_into_rtrancl)
qed (auto simp: walk_def)

lemma closed_walk_cyclic:
  assumes "closed_walk R xs"
  shows "\<not> acyclic R"
proof -
  from assms have "\<exists>x y zs. xs = x # y # zs"
    by (cases xs; cases "tl xs") (auto simp: closed_walk_def)
  then obtain x y zs where xs: "xs = x # y # zs" by blast
  with assms have "(x, y) \<in> R" and "(y, last (y # zs)) \<in> R\<^sup>*" and "x = last (y # zs)"
    using walk_rtrancl [of R "y # zs"] by (auto simp: closed_walk_def walk_Cons)
  then have "(x, x) \<in> R\<^sup>+" by (auto intro: rtrancl_into_trancl2)
  then show ?thesis by (auto simp: acyclic_def)
qed

section \<open>Growing an acyclic region\<close>

lemma acyclic_empty [simp]: "acyclic {}"
  by (simp add: acyclic_def)

lemma closed_restrict_trancl:
  assumes closed: "R `` B \<subseteq> B" and step: "(x, y) \<in> (R \<inter> A \<times> UNIV)\<^sup>+" and "x \<in> B" and "B \<subseteq> A"
  shows "y \<in> B \<and> (x, y) \<in> (R \<inter> B \<times> UNIV)\<^sup>+"
  using step
proof (induction rule: trancl_induct)
  case (base y)
  with assms show ?case by auto
next
  case (step y z)
  then show ?case using closed by (auto intro: trancl_into_trancl)
qed

lemma acyclic_insert_finished:
  assumes "acyclic (R \<inter> B \<times> UNIV)" and "R `` B \<subseteq> B" and "n \<notin> B" and "R `` {n} \<subseteq> B"
  shows "acyclic (R \<inter> insert n B \<times> UNIV)"
  unfolding acyclic_def
proof (intro allI notI)
  let ?S = "R \<inter> insert n B \<times> UNIV"
  fix x assume cyc: "(x, x) \<in> ?S\<^sup>+"
  show False
  proof (cases "x \<in> B")
    case True
    from closed_restrict_trancl [OF assms(2) cyc True] have "(x, x) \<in> (R \<inter> B \<times> UNIV)\<^sup>+" by auto
    with assms(1) show False by (auto simp: acyclic_def)
  next
    case False
    from cyc obtain y where y: "(x, y) \<in> ?S" "y = x \<or> (y, x) \<in> ?S\<^sup>+"
      by (meson converse_tranclE)
    with False assms(4) have yB: "y \<in> B" by auto
    with False y(2) have "(y, x) \<in> ?S\<^sup>+" by auto
    from closed_restrict_trancl [OF assms(2) this yB] False show False by auto
  qed
qed

end
