(* ===== verification/Rules_Cycles.thy ===== *)
theory Rules_Cycles
  imports Rule_Config Graph "HOL-Library.Sublist"
begin

text \<open>
  The rule \<^verbatim>\<open>no-cycles\<close>, \<^verbatim>\<open>internal/rules/no_cycles.go\<close>: a depth-first search over the
  flowchart's edges with a recursion stack. The recursion of the closure \<^verbatim>\<open>dfs\<close> and its loop
  over the outgoing edges are one function, \<open>dfs_edges\<close>, that walks the rest of the edges of
  the node on top of the stack; it terminates because every nested call marks a node visited.
  The rule reports something exactly when the graph has a cycle, and every cycle it names is one.
\<close>

section \<open>The search\<close>

record search =
  sch_visited :: "gostring marks"
  sch_onStack :: "gostring marks"
  sch_stack :: "gostring list"
  sch_seenCycles :: "gostring list"
  sch_issues :: "issue list"

definition min_index :: "gostring list \<Rightarrow> nat" where
  "min_index ring = fold (\<lambda>i minIdx. if ring ! i < ring ! minIdx then i else minIdx) [1..<length ring] 0"

definition normalizedCycleKey :: "gostring list \<Rightarrow> gostring" where
  "normalizedCycleKey cycleNodes =
     (if cycleNodes = [] then []
      else let ring = (if length cycleNodes > 1 \<and> hd cycleNodes = last cycleNodes
                       then butlast cycleNodes else cycleNodes);
               minIdx = min_index ring
           in Join (drop minIdx ring @ take minIdx ring) ''->'')"

definition last_index :: "'a list \<Rightarrow> 'a \<Rightarrow> nat option" where
  "last_index xs x = find (\<lambda>i. xs ! i = x) (rev [0..<length xs])"

definition enter :: "gostring \<Rightarrow> search \<Rightarrow> search" where
  "enter nodeID st =
     st\<lparr>sch_visited := AList.update nodeID True (sch_visited st),
        sch_onStack := AList.update nodeID True (sch_onStack st),
        sch_stack := sch_stack st @ [nodeID]\<rparr>"

definition leave :: "gostring \<Rightarrow> search \<Rightarrow> search" where
  "leave nodeID st =
     st\<lparr>sch_stack := butlast (sch_stack st),
        sch_onStack := AList.update nodeID False (sch_onStack st)\<rparr>"

text \<open>The back-edge branch: \<open>mk\<close> builds the finding from the edge and the cycle.\<close>

definition report :: "(edge \<Rightarrow> gostring list \<Rightarrow> issue) \<Rightarrow> edge \<Rightarrow> search \<Rightarrow> search" where
  "report mk edge st =
     (case last_index (sch_stack st) (edge_To edge) of
        None \<Rightarrow> st
      | Some cycleStart \<Rightarrow>
          let cycleNodes = drop cycleStart (sch_stack st) @ [edge_To edge];
              cycleKey = normalizedCycleKey cycleNodes
          in if cycleKey \<in> set (sch_seenCycles st) then st
             else st\<lparr>sch_seenCycles := cycleKey # sch_seenCycles st,
                     sch_issues := sch_issues st @ [mk edge cycleNodes]\<rparr>)"

definition targets :: "(gostring, edge list) gomap \<Rightarrow> gostring set" where
  "targets adj = edge_To ` adj_range adj"

lemma adj_of_targets: "edge_To ` set (adj_of adj x) \<subseteq> targets adj"
  unfolding targets_def by (rule image_mono) (rule adj_of_range)

function dfs_edges ::
  "(gostring, edge list) gomap \<Rightarrow> bool \<Rightarrow> (edge \<Rightarrow> gostring list \<Rightarrow> issue) \<Rightarrow> edge list \<Rightarrow> search \<Rightarrow> search" where
  "dfs_edges adj allowSelfLoops mk [] st = st"
| "dfs_edges adj allowSelfLoops mk (edge # edges) st =
     (if allowSelfLoops \<and> edge_From edge = edge_To edge
      then dfs_edges adj allowSelfLoops mk edges st
      else let next = edge_To edge in
        if \<not> marked (sch_visited st) next
        then dfs_edges adj allowSelfLoops mk edges
               (leave next (dfs_edges adj allowSelfLoops mk (adj_of adj next) (enter next st)))
        else if marked (sch_onStack st) next
          then dfs_edges adj allowSelfLoops mk edges (report mk edge st)
          else dfs_edges adj allowSelfLoops mk edges st)"
  by pat_completeness auto

lemma enter_sel [simp]:
  "sch_visited (enter x st) = AList.update x True (sch_visited st)"
  "sch_onStack (enter x st) = AList.update x True (sch_onStack st)"
  "sch_stack (enter x st) = sch_stack st @ [x]"
  "sch_seenCycles (enter x st) = sch_seenCycles st"
  "sch_issues (enter x st) = sch_issues st"
  by (simp_all add: enter_def)

lemma leave_sel [simp]:
  "sch_visited (leave x st) = sch_visited st"
  "sch_onStack (leave x st) = AList.update x False (sch_onStack st)"
  "sch_stack (leave x st) = butlast (sch_stack st)"
  "sch_seenCycles (leave x st) = sch_seenCycles st"
  "sch_issues (leave x st) = sch_issues st"
  by (simp_all add: leave_def)

lemma report_frame [simp]:
  "sch_visited (report mk e st) = sch_visited st"
  "sch_onStack (report mk e st) = sch_onStack st"
  "sch_stack (report mk e st) = sch_stack st"
  by (simp_all add: report_def Let_def split: option.split)

lemma dfs_edges_visited_dom:
  "dfs_edges_dom (adj, a, mk, es, st) \<Longrightarrow>
   marks_of (sch_visited st) \<subseteq> marks_of (sch_visited (dfs_edges adj a mk es st))"
proof (induction adj a mk es st rule: dfs_edges.pinduct)
  case (2 adj a mk e es st)
  show ?case
  proof (cases "(a \<and> edge_From e = edge_To e) \<or> marked (sch_visited st) (edge_To e)")
    case True
    with 2 show ?thesis by (auto simp: dfs_edges.psimps Let_def)
  next
    case False
    let ?inner = "dfs_edges adj a mk (adj_of adj (edge_To e)) (enter (edge_To e) st)"
    have "marks_of (sch_visited st) \<subseteq> marks_of (sch_visited ?inner)"
      using 2(3) [OF _ refl] False by auto
    also have "\<dots> \<subseteq> marks_of (sch_visited (dfs_edges adj a mk es (leave (edge_To e) ?inner)))"
      using 2(4) [OF _ refl] False by auto
    finally show ?thesis using False 2(1) by (auto simp: dfs_edges.psimps Let_def)
  qed
qed (simp add: dfs_edges.psimps)

definition dfs_open :: "(gostring, edge list) gomap \<Rightarrow> edge list \<Rightarrow> search \<Rightarrow> gostring set" where
  "dfs_open adj es st = (edge_To ` set es \<union> targets adj) - marks_of (sch_visited st)"

lemma finite_dfs_open: "finite (dfs_open adj es st)"
  by (simp add: dfs_open_def targets_def)

lemma dfs_open_step:
  "marks_of (sch_visited st') = marks_of (sch_visited st) \<Longrightarrow>
   ((adj, a, mk, es, st'), (adj, a, mk, e # es, st))
     \<in> inv_image (finite_psubset <*lex*> less_than)
         (\<lambda>(adj, a, mk, es, st). (dfs_open adj es st, length es))"
  by (auto simp: finite_psubset_def finite_dfs_open) (auto simp: dfs_open_def)

termination dfs_edges
proof (relation "inv_image (finite_psubset <*lex*> less_than)
                  (\<lambda>(adj, a, mk, es, st). (dfs_open adj es st, length es))")
  show "wf (inv_image (finite_psubset <*lex*> less_than)
             (\<lambda>(adj, a, mk, es, st :: search). (dfs_open adj es st, length es)))"
    by auto
next
  fix adj :: "(gostring, edge list) gomap" and a mk and edge :: edge and edges
    and st :: search and "next" :: gostring
  assume nxt: "next = edge_To edge" and new: "\<not> marked (sch_visited st) next"
  have "dfs_open adj (adj_of adj next) (enter next st) \<subset> dfs_open adj (edge # edges) st"
    using adj_of_targets [of adj "next"] nxt new by (auto simp: dfs_open_def marked_iff)
  then show "((adj, a, mk, adj_of adj next, enter next st), adj, a, mk, edge # edges, st)
        \<in> inv_image (finite_psubset <*lex*> less_than)
            (\<lambda>(adj, a, mk, es, st). (dfs_open adj es st, length es))"
    by (simp add: finite_psubset_def finite_dfs_open)
next
  fix adj :: "(gostring, edge list) gomap" and a mk and edge :: edge and edges
    and st :: search and "next" :: gostring
  assume new: "\<not> marked (sch_visited st) next"
    and dom: "dfs_edges_dom (adj, a, mk, adj_of adj next, enter next st)"
  let ?st = "leave next (dfs_edges adj a mk (adj_of adj next) (enter next st))"
  have "dfs_open adj edges ?st \<subseteq> dfs_open adj (edge # edges) st"
    using dfs_edges_visited_dom [OF dom] by (auto simp: dfs_open_def)
  then show "((adj, a, mk, edges, ?st), adj, a, mk, edge # edges, st)
        \<in> inv_image (finite_psubset <*lex*> less_than)
            (\<lambda>(adj, a, mk, es, st). (dfs_open adj es st, length es))"
    by (auto simp: finite_psubset_def finite_dfs_open)
qed (rule dfs_open_step, simp)+

definition dfs ::
  "(gostring, edge list) gomap \<Rightarrow> bool \<Rightarrow> (edge \<Rightarrow> gostring list \<Rightarrow> issue) \<Rightarrow> gostring \<Rightarrow> search \<Rightarrow> search" where
  "dfs adj allowSelfLoops mk nodeID st =
     leave nodeID (dfs_edges adj allowSelfLoops mk (adj_of adj nodeID) (enter nodeID st))"

definition dfs_unvisited ::
  "(gostring, edge list) gomap \<Rightarrow> bool \<Rightarrow> (edge \<Rightarrow> gostring list \<Rightarrow> issue) \<Rightarrow> gostring \<Rightarrow> search \<Rightarrow> search" where
  "dfs_unvisited adj allowSelfLoops mk nodeID st =
     (if marked (sch_visited st) nodeID then st else dfs adj allowSelfLoops mk nodeID st)"

section \<open>The search state\<close>

text \<open>The stack has no repetition, its nodes are visited and are the ones marked as on it.\<close>

definition search_inv :: "search \<Rightarrow> bool" where
  "search_inv st \<longleftrightarrow> distinct (sch_stack st) \<and> marks_of (sch_onStack st) = set (sch_stack st)
     \<and> set (sch_stack st) \<subseteq> marks_of (sch_visited st)"

text \<open>What any part of the search keeps: the stack, and what was visited and found.\<close>

definition search_frame :: "search \<Rightarrow> search \<Rightarrow> bool" where
  "search_frame st st' \<longleftrightarrow> sch_stack st' = sch_stack st
     \<and> marks_of (sch_visited st) \<subseteq> marks_of (sch_visited st')
     \<and> prefix (sch_issues st) (sch_issues st')"

lemma search_frame_trans: "search_frame a b \<Longrightarrow> search_frame b c \<Longrightarrow> search_frame a c"
  by (auto simp: search_frame_def)

lemma search_inv_enter: "search_inv st \<Longrightarrow> \<not> marked (sch_visited st) x \<Longrightarrow> search_inv (enter x st)"
  by (auto simp: search_inv_def marked_iff)

lemma search_inv_leave:
  assumes "search_inv st" and "search_inv st'" and "search_frame (enter x st) st'"
    and "\<not> marked (sch_visited st) x"
  shows "search_inv (leave x st')" and "search_frame st (leave x st')"
  using assms by (auto simp: search_inv_def search_frame_def marked_iff)

lemma report_inv: "search_inv st \<Longrightarrow> search_inv (report mk e st)"
  by (simp add: search_inv_def)

lemma report_issues: "prefix (sch_issues st) (sch_issues (report mk e st))"
  by (simp add: report_def Let_def split: option.split)

text \<open>Induction over the run of the search: one case per branch of the loop body.\<close>

lemma dfs_edges_run:
  assumes "\<And>st. Q [] st st"
    and "\<And>e es st st'. a \<and> edge_From e = edge_To e \<Longrightarrow> Q es st st' \<Longrightarrow> Q (e # es) st st'"
    and "\<And>e es st st1 st2. \<not> (a \<and> edge_From e = edge_To e) \<Longrightarrow> \<not> marked (sch_visited st) (edge_To e) \<Longrightarrow>
          Q (adj_of adj (edge_To e)) (enter (edge_To e) st) st1 \<Longrightarrow> Q es (leave (edge_To e) st1) st2 \<Longrightarrow>
          Q (e # es) st st2"
    and "\<And>e es st st'. \<not> (a \<and> edge_From e = edge_To e) \<Longrightarrow> marked (sch_visited st) (edge_To e) \<Longrightarrow>
          marked (sch_onStack st) (edge_To e) \<Longrightarrow> Q es (report mk e st) st' \<Longrightarrow> Q (e # es) st st'"
    and "\<And>e es st st'. \<not> (a \<and> edge_From e = edge_To e) \<Longrightarrow> marked (sch_visited st) (edge_To e) \<Longrightarrow>
          \<not> marked (sch_onStack st) (edge_To e) \<Longrightarrow> Q es st st' \<Longrightarrow> Q (e # es) st st'"
  shows "Q es st (dfs_edges adj a mk es st)"
  using assms
proof (induction adj a mk es st rule: dfs_edges.induct)
  case (2 adj a mk e es st)
  note IH = 2(1-5) and rules = 2(6-10)
  show ?case
  proof (cases "a \<and> edge_From e = edge_To e")
    case True
    from rules(2) [OF True IH(1) [OF True rules]] True show ?thesis by simp
  next
    case c: False
    show ?thesis
    proof (cases "marked (sch_visited st) (edge_To e)")
      case False
      from rules(3) [OF c False IH(2) [OF c refl False rules] IH(3) [OF c refl False rules]] c False
      show ?thesis by (auto simp: Let_def)
    next
      case v: True
      then have nv: "\<not> \<not> marked (sch_visited st) (edge_To e)" by simp
      show ?thesis
      proof (cases "marked (sch_onStack st) (edge_To e)")
        case True
        from rules(4) [OF c v True IH(4) [OF c refl nv True rules]] c v True
        show ?thesis by (auto simp: Let_def)
      next
        case False
        from rules(5) [OF c v False IH(5) [OF c refl nv False rules]] c v False
        show ?thesis by (auto simp: Let_def)
      qed
    qed
  qed
qed simp

lemma dfs_edges_frame:
  "search_inv st \<longrightarrow> search_inv (dfs_edges adj a mk es st) \<and> search_frame st (dfs_edges adj a mk es st)"
proof (rule dfs_edges_run, goal_cases)
  case (3 e es st st1 st2)
  show ?case
  proof
    assume inv: "search_inv st"
    with 3 have "search_inv st1" "search_frame (enter (edge_To e) st) st1"
      by (auto simp: search_inv_enter)
    from search_inv_leave [OF inv this 3(2)] 3(4)
    show "search_inv st2 \<and> search_frame st st2" by (blast intro: search_frame_trans)
  qed
next
  case (4 e es st st')
  have "search_frame st (report mk e st)" by (simp add: search_frame_def report_issues)
  with 4(4) show ?case by (blast intro: report_inv search_frame_trans)
qed (auto simp: search_frame_def)

section \<open>Completeness of the search\<close>

text \<open>The edges the search follows: all of them, or all but the self-loops.\<close>

definition followed :: "(gostring, edge list) gomap \<Rightarrow> bool \<Rightarrow> (gostring \<times> gostring) set" where
  "followed adj allowSelfLoops =
     {(x, y). \<exists>e\<in>set (adj_of adj x). edge_To e = y \<and> \<not> (allowSelfLoops \<and> edge_From e = edge_To e)}"

definition finished :: "search \<Rightarrow> gostring set" where
  "finished st = marks_of (sch_visited st) - set (sch_stack st)"

text \<open>While nothing was reported, the finished nodes lead only to finished nodes, without a cycle.\<close>

definition clean :: "(gostring \<times> gostring) set \<Rightarrow> search \<Rightarrow> bool" where
  "clean R st \<longleftrightarrow> sch_issues st = [] \<and> sch_seenCycles st = []
     \<and> R `` finished st \<subseteq> finished st \<and> acyclic (R \<inter> finished st \<times> UNIV)"

lemma last_index_Some:
  assumes "x \<in> set xs"
  obtains i where "last_index xs x = Some i" and "i < length xs" and "xs ! i = x"
proof (cases "last_index xs x")
  case None
  with assms show ?thesis by (auto simp: last_index_def find_None_iff in_set_conv_nth)
next
  case (Some i)
  then have "i \<in> set (rev [0..<length xs]) \<and> xs ! i = x"
    unfolding last_index_def by (rule find_SomeD)
  with Some show ?thesis using that by simp
qed

lemma search_frame_finished: "search_frame st st' \<Longrightarrow> finished st \<subseteq> finished st'"
  by (auto simp: search_frame_def finished_def)

lemma search_frame_issues: "search_frame st st' \<Longrightarrow> sch_issues st' = [] \<Longrightarrow> sch_issues st = []"
  by (simp add: search_frame_def)

lemma finished_enter [simp]: "\<not> marked (sch_visited st) x \<Longrightarrow> finished (enter x st) = finished st"
  by (auto simp: finished_def marked_iff)

lemma finished_leave:
  assumes "search_inv st" and "search_inv st'" and "search_frame (enter x st) st'"
    and "\<not> marked (sch_visited st) x"
  shows "finished (leave x st') = insert x (finished st')" and "x \<notin> finished st'"
  using assms by (auto simp: finished_def search_frame_def marked_iff search_inv_def)

lemma clean_leave:
  assumes "search_inv st" and "search_inv st'" and "search_frame (enter x st) st'"
    and "\<not> marked (sch_visited st) x" and "clean R st'" and "R `` {x} \<subseteq> finished st'"
  shows "clean R (leave x st')"
  using assms(5,6) finished_leave [OF assms(1-4)] acyclic_insert_finished
  by (auto simp: clean_def)

lemma dfs_edges_clean:
  fixes adj a mk defines "R \<equiv> followed adj a"
  shows "search_inv st \<longrightarrow> search_inv (dfs_edges adj a mk es st) \<and> search_frame st (dfs_edges adj a mk es st)
    \<and> (clean R st \<and> sch_issues (dfs_edges adj a mk es st) = [] \<longrightarrow> clean R (dfs_edges adj a mk es st)
       \<and> edge_To ` {e \<in> set es. \<not> (a \<and> edge_From e = edge_To e)} \<subseteq> finished (dfs_edges adj a mk es st))"
proof (rule dfs_edges_run, goal_cases)
  case (3 e es st st1 st2)
  let ?x = "edge_To e"
  show ?case
  proof (intro impI)
    assume inv: "search_inv st"
    then have inv1: "search_inv st1" and fr1: "search_frame (enter ?x st) st1"
      using 3 by (auto simp: search_inv_enter)
    note l = search_inv_leave [OF inv inv1 fr1 3(2)]
    have inv2: "search_inv st2" and fr2: "search_frame (leave ?x st1) st2" using 3(4) l by auto
    have "clean R st2 \<and> edge_To ` {e' \<in> set (e # es). \<not> (a \<and> edge_From e' = edge_To e')} \<subseteq> finished st2"
      if c: "clean R st" "sch_issues st2 = []"
    proof -
      have "sch_issues st1 = []" using search_frame_issues [OF fr2 c(2)] by simp
      moreover have "clean R (enter ?x st)" using c(1) 3(2) by (simp add: clean_def)
      ultimately have c1: "clean R st1"
        and t: "edge_To ` {e \<in> set (adj_of adj ?x). \<not> (a \<and> edge_From e = edge_To e)} \<subseteq> finished st1"
        using 3(3) search_inv_enter [OF inv 3(2)] by auto
      from t have "R `` {?x} \<subseteq> finished st1" by (auto simp: R_def followed_def)
      from clean_leave [OF inv inv1 fr1 3(2) c1 this]
      have "clean R st2 \<and> edge_To ` {e \<in> set es. \<not> (a \<and> edge_From e = edge_To e)} \<subseteq> finished st2"
        using 3(4) l(1) c(2) by blast
      moreover have "?x \<in> finished st2"
        using finished_leave(1) [OF inv inv1 fr1 3(2)] search_frame_finished [OF fr2] by auto
      ultimately show ?thesis by auto
    qed
    with inv2 search_frame_trans [OF l(2) fr2]
    show "search_inv st2 \<and> search_frame st st2 \<and> (clean R st \<and> sch_issues st2 = [] \<longrightarrow> clean R st2
       \<and> edge_To ` {e' \<in> set (e # es). \<not> (a \<and> edge_From e' = edge_To e')} \<subseteq> finished st2)" by blast
  qed
next
  case (4 e es st st')
  have "sch_issues (report mk e st) \<noteq> []" if "search_inv st" "clean R st"
  proof -
    have "edge_To e \<in> set (sch_stack st)" using that(1) 4(3) by (simp add: search_inv_def marked_iff)
    from last_index_Some [OF this] obtain i where "last_index (sch_stack st) (edge_To e) = Some i" .
    with that(2) show ?thesis by (simp add: report_def Let_def clean_def)
  qed
  moreover have "search_frame st (report mk e st)" by (simp add: search_frame_def report_issues)
  ultimately have "search_inv st \<longrightarrow> search_inv st' \<and> search_frame st st' \<and> \<not> (clean R st \<and> sch_issues st' = [])"
    using 4(4) report_inv [of st mk e] search_frame_trans [of st "report mk e st" st']
      search_frame_issues [of "report mk e st" st'] by blast
  then show ?case by blast
next
  case (5 e es st st')
  have "edge_To e \<in> finished st" if "search_inv st"
    using that 5(2,3) by (simp add: finished_def search_inv_def marked_iff)
  then have "search_inv st \<longrightarrow> search_frame st st' \<longrightarrow> edge_To e \<in> finished st'"
    using search_frame_finished by blast
  with 5(4) show ?case by auto
qed (auto simp: search_frame_def)

lemma dfs_clean:
  assumes "search_inv st" and "\<not> marked (sch_visited st) x"
  shows "search_inv (dfs adj a mk x st)" and "search_frame st (dfs adj a mk x st)"
    and "clean (followed adj a) st \<Longrightarrow> sch_issues (dfs adj a mk x st) = [] \<Longrightarrow> clean (followed adj a) (dfs adj a mk x st)"
    and "marked (sch_visited (dfs adj a mk x st)) x"
proof -
  let ?st = "dfs_edges adj a mk (adj_of adj x) (enter x st)"
  have r: "search_inv ?st" "search_frame (enter x st) ?st"
    and c: "clean (followed adj a) (enter x st) \<Longrightarrow> sch_issues ?st = [] \<Longrightarrow> clean (followed adj a) ?st
      \<and> edge_To ` {e \<in> set (adj_of adj x). \<not> (a \<and> edge_From e = edge_To e)} \<subseteq> finished ?st"
    using dfs_edges_clean [of "enter x st" adj a mk "adj_of adj x"] search_inv_enter [OF assms] by simp_all
  from search_inv_leave [OF assms(1) r assms(2)]
  show "search_inv (dfs adj a mk x st)" and "search_frame st (dfs adj a mk x st)" by (simp_all add: dfs_def)
  show "marked (sch_visited (dfs adj a mk x st)) x"
    using r(2) by (auto simp: dfs_def search_frame_def marked_iff)
  assume "clean (followed adj a) st" and "sch_issues (dfs adj a mk x st) = []"
  then have "clean (followed adj a) ?st"
    and "edge_To ` {e \<in> set (adj_of adj x). \<not> (a \<and> edge_From e = edge_To e)} \<subseteq> finished ?st"
    using c assms(2) by (simp_all add: dfs_def clean_def)
  moreover from this(2) have "followed adj a `` {x} \<subseteq> finished ?st" by (auto simp: followed_def)
  ultimately show "clean (followed adj a) (dfs adj a mk x st)"
    using clean_leave [OF assms(1) r assms(2)] by (simp add: dfs_def)
qed

lemma dfs_unvisited_clean:
  assumes "search_inv st"
  shows "search_inv (dfs_unvisited adj a mk x st)" and "search_frame st (dfs_unvisited adj a mk x st)"
    and "clean (followed adj a) st \<Longrightarrow> sch_issues (dfs_unvisited adj a mk x st) = [] \<Longrightarrow>
          clean (followed adj a) (dfs_unvisited adj a mk x st)"
    and "marked (sch_visited (dfs_unvisited adj a mk x st)) x"
  using assms dfs_clean [OF assms, of x adj a mk]
  by (simp_all add: dfs_unvisited_def search_frame_def split: if_splits)

lemma dfs_roots_clean:
  fixes adj a mk xs
  assumes "search_inv st"
  defines "st' \<equiv> fold (dfs_unvisited adj a mk) xs st"
  shows "search_inv st' \<and> search_frame st st' \<and> set xs \<subseteq> marks_of (sch_visited st')
    \<and> (clean (followed adj a) st \<longrightarrow> sch_issues st' = [] \<longrightarrow> clean (followed adj a) st')"
  using assms(1) unfolding st'_def
proof (induction xs arbitrary: st)
  case (Cons x xs)
  let ?st = "dfs_unvisited adj a mk x st" and ?fin = "fold (dfs_unvisited adj a mk) (x # xs) st"
  note d = dfs_unvisited_clean [OF Cons.prems, of adj a mk x]
  note IH = Cons.IH [OF d(1)]
  have fr: "search_frame ?st ?fin" using IH by simp
  then have "x \<in> marks_of (sch_visited ?fin)" using d(4) by (auto simp: search_frame_def marked_iff)
  moreover have "sch_issues ?fin = [] \<Longrightarrow> sch_issues ?st = []" by (rule search_frame_issues [OF fr])
  ultimately show ?case using IH d(3) search_frame_trans [OF d(2) fr] by auto
qed (simp add: search_frame_def)

section \<open>Soundness of the search\<close>

text \<open>
  The findings made so far are a log of edges with the cycle each closes: a closed walk that
  repeats no other node, no two of them with the same normalised key.
\<close>

definition cycle_log ::
  "(gostring \<times> gostring) set \<Rightarrow> (edge \<Rightarrow> gostring list \<Rightarrow> issue) \<Rightarrow> search \<Rightarrow> (edge \<times> gostring list) list \<Rightarrow> bool" where
  "cycle_log R mk st trail \<longleftrightarrow> sch_issues st = map (\<lambda>(e, c). mk e c) trail
     \<and> sch_seenCycles st = rev (map (normalizedCycleKey \<circ> snd) trail) \<and> distinct (sch_seenCycles st)
     \<and> (\<forall>(e, c)\<in>set trail. closed_walk R c \<and> distinct (butlast c) \<and> last c = edge_To e)"

definition logged :: "(gostring \<times> gostring) set \<Rightarrow> (edge \<Rightarrow> gostring list \<Rightarrow> issue) \<Rightarrow> search \<Rightarrow> bool" where
  "logged R mk st \<longleftrightarrow> (\<exists>trail. cycle_log R mk st trail)"

lemma report_logged:
  assumes "logged R mk st" and "search_inv st" and "walk R (sch_stack st)"
    and step: "(last (sch_stack st), edge_To e) \<in> R"
  shows "logged R mk (report mk e st)"
proof (cases "last_index (sch_stack st) (edge_To e)")
  case None
  with assms(1) show ?thesis by (simp add: report_def)
next
  case (Some i)
  then have i: "i < length (sch_stack st)" "sch_stack st ! i = edge_To e"
    unfolding last_index_def by (auto dest!: find_SomeD)
  define c where "c = drop i (sch_stack st) @ [edge_To e]"
  have "walk R (drop i (sch_stack st))" using walk_drop assms(3) i(1) by blast
  then have "walk R c" using step i(1) unfolding c_def by (intro walk_snoc) auto
  moreover have "hd c = edge_To e" using i by (simp add: c_def hd_append hd_drop_conv_nth)
  ultimately have c: "closed_walk R c \<and> distinct (butlast c) \<and> last c = edge_To e"
    using i(1) assms(2) by (simp add: closed_walk_def c_def search_inv_def)
  from assms(1) obtain trail where trail: "cycle_log R mk st trail" by (auto simp: logged_def)
  have "cycle_log R mk (report mk e st) (if normalizedCycleKey c \<in> set (sch_seenCycles st) then trail else trail @ [(e, c)])"
    using trail c Some by (auto simp: report_def Let_def cycle_log_def c_def)
  then show ?thesis by (auto simp: logged_def)
qed

lemma dfs_edges_logged:
  fixes adj a mk defines "R \<equiv> followed adj a"
  shows "search_inv st \<longrightarrow> search_inv (dfs_edges adj a mk es st) \<and> search_frame st (dfs_edges adj a mk es st)
    \<and> (logged R mk st \<and> walk R (sch_stack st) \<and> set es \<subseteq> set (adj_of adj (last (sch_stack st)))
       \<longrightarrow> logged R mk (dfs_edges adj a mk es st))"
proof (rule dfs_edges_run, goal_cases)
  case (3 e es st st1 st2)
  let ?x = "edge_To e"
  show ?case
  proof (intro impI)
    assume inv: "search_inv st"
    note inv0 = search_inv_enter [OF inv 3(2)]
    then have inv1: "search_inv st1" and fr1: "search_frame (enter ?x st) st1" using 3(3) by simp_all
    note l = search_inv_leave [OF inv inv1 fr1 3(2)]
    have inv2: "search_inv st2" and fr2: "search_frame (leave ?x st1) st2" using 3(4) l by simp_all
    have "logged R mk st2" if g: "logged R mk st" "walk R (sch_stack st)"
        "set (e # es) \<subseteq> set (adj_of adj (last (sch_stack st)))"
    proof -
      have "(last (sch_stack st), ?x) \<in> R" using g(3) 3(1) by (auto simp: R_def followed_def)
      then have "walk R (sch_stack (enter ?x st))" using walk_snoc [OF g(2)] by simp
      moreover have "logged R mk (enter ?x st)" using g(1) by (simp add: logged_def cycle_log_def)
      ultimately have "logged R mk st1" using 3(3) inv0 by simp
      then have "logged R mk (leave ?x st1)" by (simp add: logged_def cycle_log_def)
      moreover have "sch_stack (leave ?x st1) = sch_stack st" using l(2) by (simp add: search_frame_def)
      ultimately show ?thesis using 3(4) l(1) g(2,3) by simp
    qed
    with inv2 search_frame_trans [OF l(2) fr2]
    show "search_inv st2 \<and> search_frame st st2 \<and> (logged R mk st \<and> walk R (sch_stack st)
        \<and> set (e # es) \<subseteq> set (adj_of adj (last (sch_stack st))) \<longrightarrow> logged R mk st2)" by blast
  qed
next
  case (4 e es st st')
  have fr: "search_frame st (report mk e st)" by (simp add: search_frame_def report_issues)
  have "(last (sch_stack st), edge_To e) \<in> R" if "set (e # es) \<subseteq> set (adj_of adj (last (sch_stack st)))"
    using that 4(1) by (auto simp: R_def followed_def)
  with report_logged have "logged R mk (report mk e st)"
    if "search_inv st" "logged R mk st" "walk R (sch_stack st)" "set (e # es) \<subseteq> set (adj_of adj (last (sch_stack st)))"
    using that by blast
  then show ?case
    using 4(4) report_inv [of st mk e] search_frame_trans [OF fr] by simp
qed (auto simp: search_frame_def)

lemma dfs_unvisited_logged:
  assumes "search_inv st" and "sch_stack st = []" and "logged (followed adj a) mk st"
  shows "logged (followed adj a) mk (dfs_unvisited adj a mk x st)"
proof (cases "marked (sch_visited st) x")
  case False
  have "logged (followed adj a) mk (enter x st)" using assms(3) by (simp add: logged_def cycle_log_def)
  then have "logged (followed adj a) mk (dfs_edges adj a mk (adj_of adj x) (enter x st))"
    using dfs_edges_logged [of "enter x st" adj a mk "adj_of adj x"] search_inv_enter [OF assms(1) False] assms(2)
    by simp
  with False show ?thesis by (simp add: dfs_unvisited_def dfs_def logged_def cycle_log_def)
qed (simp add: dfs_unvisited_def assms)

lemma dfs_roots_logged:
  "search_inv st \<Longrightarrow> sch_stack st = [] \<Longrightarrow> logged (followed adj a) mk st \<Longrightarrow>
   logged (followed adj a) mk (fold (dfs_unvisited adj a mk) xs st)"
proof (induction xs arbitrary: st)
  case (Cons x xs)
  note d = dfs_unvisited_clean [OF Cons.prems(1), of adj a mk x]
  have "sch_stack (dfs_unvisited adj a mk x st) = []"
    using d(2) Cons.prems(2) by (simp add: search_frame_def)
  with Cons.IH [OF d(1)] dfs_unvisited_logged [OF Cons.prems] show ?case by simp
qed simp

section \<open>The rule\<close>

definition allow_self_loop :: "config \<Rightarrow> bool" where
  "allow_self_loop cfg =
     (case map_of cfg ''no-cycles'' of
        None \<Rightarrow> False
      | Some rc \<Rightarrow> (case map_of rc ''allow-self-loop'' of Some (VBool value) \<Rightarrow> value | _ \<Rightarrow> False))"

definition cycle_issue :: "diagram \<Rightarrow> config \<Rightarrow> edge \<Rightarrow> gostring list \<Rightarrow> issue" where
  "cycle_issue d cfg edge cycleNodes =
     (let severity = EffectiveSeverity ''no-cycles'' cfg ''error'';
          nodeByID = index_last node_ID (diag_Nodes d);
          next = edge_To edge;
          (line, column) = (case map_of nodeByID next of
                              Some node \<Rightarrow> (node_Line node, node_Column node)
                            | None \<Rightarrow> (edge_Line edge, edge_Column edge))
      in mk_issue ''no-cycles'' severity (''directed cycle detected: '' @ Join cycleNodes '' -> '')
           line column (NodeSubgraphContext d next))"

definition NoCycles_Run :: "(gostring list \<Rightarrow> gostring list) \<Rightarrow> diagram \<Rightarrow> config \<Rightarrow> issue list" where
  "NoCycles_Run ord d cfg =
     (let allowSelfLoops = allow_self_loop cfg;
          adj = group_by edge_From (\<lambda>e. e) (diag_Edges d);
          start = \<lparr>sch_visited = [], sch_onStack = [], sch_stack = [], sch_seenCycles = [], sch_issues = []\<rparr>;
          visit = dfs_unvisited adj allowSelfLoops (cycle_issue d cfg);
          fromNodes = fold visit (map node_ID (diag_Nodes d)) start
      in sch_issues (fold visit (ord (gm_keys adj)) fromNodes))"

definition NoCycles :: rule where
  "NoCycles = \<lparr>rule_ID = ''no-cycles'', rule_Families = Some [DiagramFamilyFlowchart], rule_Run = NoCycles_Run\<rparr>"

definition flow :: "diagram \<Rightarrow> bool \<Rightarrow> (gostring \<times> gostring) set" where
  "flow d allowSelfLoops =
     {(edge_From e, edge_To e) | e. e \<in> set (diag_Edges d) \<and> \<not> (allowSelfLoops \<and> edge_From e = edge_To e)}"

lemma followed_flow: "followed (group_by edge_From (\<lambda>e. e) (diag_Edges d)) a = flow d a"
  by (auto simp: followed_def flow_def gomap_simps)

lemma cycle_issue_sel [simp]:
  "iss_RuleID (cycle_issue d cfg e c) = ''no-cycles''"
  "iss_Severity (cycle_issue d cfg e c) = EffectiveSeverity ''no-cycles'' cfg ''error''"
  "iss_Message (cycle_issue d cfg e c) = ''directed cycle detected: '' @ Join c '' -> ''"
  "iss_Fingerprint (cycle_issue d cfg e c) = []"
  by (simp_all add: cycle_issue_def Let_def mk_issue_def split: option.split)

lemma NoCycles_search:
  obtains st where "NoCycles_Run ord d cfg = sch_issues st" and "search_inv st"
    and "logged (flow d (allow_self_loop cfg)) (cycle_issue d cfg) st"
    and "iteration_order ord \<Longrightarrow> sch_issues st = [] \<Longrightarrow> acyclic (flow d (allow_self_loop cfg))"
proof -
  let ?a = "allow_self_loop cfg" and ?adj = "group_by edge_From (\<lambda>e. e) (diag_Edges d)"
  let ?start = "\<lparr>sch_visited = [], sch_onStack = [], sch_stack = [], sch_seenCycles = [], sch_issues = []\<rparr>"
  let ?roots = "map node_ID (diag_Nodes d) @ ord (gm_keys ?adj)"
  let ?st = "fold (dfs_unvisited ?adj ?a (cycle_issue d cfg)) ?roots ?start"
  have inv: "search_inv ?start" by (simp add: search_inv_def)
  note r = dfs_roots_clean [OF inv, of ?adj ?a "cycle_issue d cfg" ?roots, unfolded followed_flow]
  have stack: "sch_stack ?st = []" using r by (simp add: search_frame_def)
  have "logged (flow d ?a) (cycle_issue d cfg) ?start" by (auto simp: logged_def cycle_log_def)
  then have trail: "logged (flow d ?a) (cycle_issue d cfg) ?st"
    using dfs_roots_logged [OF inv, of ?adj ?a "cycle_issue d cfg" ?roots, unfolded followed_flow] by simp
  have "acyclic (flow d ?a)" if ord: "iteration_order ord" and none: "sch_issues ?st = []"
  proof -
    have "clean (flow d ?a) ?start" by (simp add: clean_def finished_def)
    with r none have "acyclic (flow d ?a \<inter> finished ?st \<times> UNIV)" by (simp add: clean_def)
    moreover have "edge_From ` set (diag_Edges d) \<subseteq> finished ?st"
      using r stack by (auto simp: finished_def iteration_order_set [OF ord] gomap_simps)
    then have "flow d ?a \<inter> finished ?st \<times> UNIV = flow d ?a" by (auto simp: flow_def)
    ultimately show ?thesis by simp
  qed
  with r trail show thesis by (intro that [of ?st]) (simp_all add: NoCycles_Run_def Let_def)
qed

lemma NoCycles_issue_cycle:
  assumes "i \<in> set (NoCycles_Run ord d cfg)"
  obtains e c where "i = cycle_issue d cfg e c" and "closed_walk (flow d (allow_self_loop cfg)) c"
    and "distinct (butlast c)" and "last c = edge_To e"
proof -
  from NoCycles_search [of ord d cfg] obtain st where st: "NoCycles_Run ord d cfg = sch_issues st"
    "logged (flow d (allow_self_loop cfg)) (cycle_issue d cfg) st" by metis
  then obtain trail where "cycle_log (flow d (allow_self_loop cfg)) (cycle_issue d cfg) st trail"
    by (auto simp: logged_def)
  with st(1) assms show thesis using that by (fastforce simp: cycle_log_def)
qed

lemma NoCycles_sel [simp]: "rule_ID NoCycles = ''no-cycles''" "rule_Run NoCycles = NoCycles_Run"
  by (simp_all add: NoCycles_def)

interpretation cycles_rule: lint_rule NoCycles
  by (rule lint_ruleI) (auto simp: own_issues_def elim: NoCycles_issue_cycle)

text \<open>When every edge leaves a node of the diagram, the loop over the map has nothing left to visit.\<close>

lemma NoCycles_order:
  assumes "edge_From ` set (diag_Edges d) \<subseteq> node_ID ` set (diag_Nodes d)"
    and "iteration_order ord" and "iteration_order ord'"
  shows "NoCycles_Run ord d cfg = NoCycles_Run ord' d cfg"
proof -
  let ?adj = "group_by edge_From (\<lambda>e. e) (diag_Edges d)"
  let ?visit = "dfs_unvisited ?adj (allow_self_loop cfg) (cycle_issue d cfg)"
  let ?st = "fold ?visit (map node_ID (diag_Nodes d))
    \<lparr>sch_visited = [], sch_onStack = [], sch_stack = [], sch_seenCycles = [], sch_issues = []\<rparr>"
  have "search_inv \<lparr>sch_visited = [], sch_onStack = [], sch_stack = [], sch_seenCycles = [], sch_issues = []\<rparr>"
    by (simp add: search_inv_def)
  from dfs_roots_clean [OF this] have "set (map node_ID (diag_Nodes d)) \<subseteq> marks_of (sch_visited ?st)" by blast
  then have "edge_From ` set (diag_Edges d) \<subseteq> marks_of (sch_visited ?st)" using assms(1) by auto
  then have "fold ?visit xs ?st = ?st" if "set xs \<subseteq> edge_From ` set (diag_Edges d)" for xs
    using that by (induction xs) (auto simp: dfs_unvisited_def marked_iff)
  moreover have "set (o' (gm_keys ?adj)) = edge_From ` set (diag_Edges d)" if "iteration_order o'" for o'
    using that by (simp add: iteration_order_set gomap_simps)
  ultimately show ?thesis using assms(2,3) by (simp add: NoCycles_Run_def Let_def)
qed

section \<open>Properties\<close>

text \<open>
  C3: the rule is silent exactly on the flowcharts whose edges (without the self-loops, when the
  option \<^verbatim>\<open>allow-self-loop\<close> is set) form no directed cycle, whatever order the maps are
  visited in.
\<close>

theorem NoCycles_silent_iff_acyclic:
  assumes "iteration_order ord"
  shows "NoCycles_Run ord d cfg = [] \<longleftrightarrow> acyclic (flow d (allow_self_loop cfg))"
proof
  assume "NoCycles_Run ord d cfg = []"
  with NoCycles_search [of ord d cfg] assms show "acyclic (flow d (allow_self_loop cfg))" by metis
next
  assume acyclic: "acyclic (flow d (allow_self_loop cfg))"
  have "i \<notin> set (NoCycles_Run ord d cfg)" for i
    by (auto elim!: NoCycles_issue_cycle dest: closed_walk_cyclic simp: acyclic)
  then show "NoCycles_Run ord d cfg = []" by (simp add: set_eq_iff flip: set_empty)
qed

theorem NoCycles_silent_iff_acyclic_witness:
  "acyclic (flow (empty_diagram\<lparr>diag_Edges := [arrow ''A'' ''A'']\<rparr>)
     (allow_self_loop [(''no-cycles'', [(''allow-self-loop'', VBool True)])]))"
proof -
  have "NoCycles_Run rev (empty_diagram\<lparr>diag_Edges := [arrow ''A'' ''A'']\<rparr>)
     [(''no-cycles'', [(''allow-self-loop'', VBool True)])] = []"
    by code_simp
  then show ?thesis by (simp only: NoCycles_silent_iff_acyclic [OF iteration_order_rev])
qed

text \<open>
  C6: every finding of the rule names a real cycle: its message lists the nodes of a closed walk
  along the diagram's edges that repeats no node but the first, and it is the last node of that
  walk that the finding is placed at.
\<close>

theorem NoCycles_findings_are_cycles:
  assumes "i \<in> set (NoCycles_Run ord d cfg)"
  shows "\<exists>c. closed_walk (flow d (allow_self_loop cfg)) c \<and> distinct (butlast c)
    \<and> iss_Message i = ''directed cycle detected: '' @ Join c '' -> ''
    \<and> iss_Context i = NodeSubgraphContext d (last c)"
  using assms
  by (elim NoCycles_issue_cycle) (auto simp: cycle_issue_def Let_def mk_issue_def split: option.splits)

theorem NoCycles_findings_are_cycles_witness:
  "\<exists>c. closed_walk (flow (empty_diagram\<lparr>diag_Edges := [arrow ''A'' ''B'', arrow ''B'' ''A'']\<rparr>) False) c
     \<and> Join c '' -> '' = ''A -> B -> A''"
proof -
  let ?d = "empty_diagram\<lparr>diag_Edges := [arrow ''A'' ''B'', arrow ''B'' ''A'']\<rparr>"
  have run: "NoCycles_Run (\<lambda>ks. ks) ?d [] =
      [mk_issue ''no-cycles'' ''error'' ''directed cycle detected: A -> B -> A'' None None None]"
    by code_simp
  then have "hd (NoCycles_Run (\<lambda>ks. ks) ?d []) \<in> set (NoCycles_Run (\<lambda>ks. ks) ?d [])" by simp
  from NoCycles_findings_are_cycles [OF this] show ?thesis
    unfolding run by (auto simp: allow_self_loop_def)
qed

end
