(* ===== verification/Rules_Depth.thy ===== *)
theory Rules_Depth
  imports Rule_Config Registry Graph "HOL-Library.Sublist"
begin

text \<open>
  The rule \<^verbatim>\<open>max-depth\<close>, \<^verbatim>\<open>internal/rules/max_depth.go\<close>: the memoised search for the
  longest path and the Tarjan search that picks start nodes when every node has an incoming
  edge. \<open>longest\<close> is \<^verbatim>\<open>longestPathFromWithCycleInfo\<close>, its loop over the successors is
  \<open>longest_loop\<close>; the memo is threaded, the marks (restored by the deferred \<^verbatim>\<open>delete\<close>) are an
  argument. The main result: the memo never changes the answer, which is the length of the
  longest trail (a walk that repeats no node before its last step).
\<close>

section \<open>The longest path\<close>

record path_result =
  pr_depth :: nat
  pr_path :: "gostring list"

type_synonym memo = "(gostring, path_result) gomap"

text \<open>The variables of the loop: \<open>bestDepth\<close>, \<open>bestPath\<close>, \<open>cacheable\<close> and \<open>hasCycle\<close>.\<close>

record path_best =
  pb_depth :: nat
  pb_path :: "gostring list"
  pb_cacheable :: bool
  pb_hasCycle :: bool

definition consider_child ::
  "gostring \<Rightarrow> gostring marks \<Rightarrow> gostring \<Rightarrow> nat \<times> gostring list \<times> bool \<Rightarrow> path_best \<Rightarrow> path_best" where
  "consider_child nodeID visited next child best =
     (let (depth, path, childHasCycle) = child;
          best = (if marked visited next then best\<lparr>pb_cacheable := False, pb_hasCycle := True\<rparr> else best);
          best = (if childHasCycle then best\<lparr>pb_cacheable := False, pb_hasCycle := True\<rparr> else best);
          candidateDepth = depth + 1
      in if candidateDepth > pb_depth best
         then best\<lparr>pb_depth := candidateDepth, pb_path := [nodeID] @ path\<rparr> else best)"

function longest ::
  "gostring \<Rightarrow> (gostring, gostring list) gomap \<Rightarrow> gostring marks \<Rightarrow> memo \<Rightarrow> (nat \<times> gostring list \<times> bool) \<times> memo"
  and longest_loop ::
  "gostring \<Rightarrow> gostring list \<Rightarrow> (gostring, gostring list) gomap \<Rightarrow> gostring marks \<Rightarrow> path_best \<Rightarrow> memo
     \<Rightarrow> path_best \<times> memo" where
  "longest nodeID adj visited memo =
     (if marked visited nodeID then ((0, [nodeID], True), memo)
      else case map_of memo nodeID of
        Some cached \<Rightarrow> ((pr_depth cached, pr_path cached, False), memo)
      | None \<Rightarrow>
          let visited = AList.update nodeID True visited;
              nextNodes = adj_of adj nodeID
          in if length nextNodes = 0 then ((0, [nodeID], False), memo)
             else
               let (best, memo) = longest_loop nodeID nextNodes adj visited
                     \<lparr>pb_depth = 0, pb_path = [nodeID], pb_cacheable = True, pb_hasCycle = False\<rparr> memo;
                   memo = (if pb_cacheable best
                           then AList.update nodeID \<lparr>pr_depth = pb_depth best, pr_path = pb_path best\<rparr> memo
                           else memo)
               in ((pb_depth best, pb_path best, pb_hasCycle best), memo))"
| "longest_loop nodeID [] adj visited best memo = (best, memo)"
| "longest_loop nodeID (next # nextNodes) adj visited best memo =
     (let (child, memo) = longest next adj visited memo
      in longest_loop nodeID nextNodes adj visited (consider_child nodeID visited next child best) memo)"
  by pat_completeness auto

definition trail_open :: "gostring set \<Rightarrow> (gostring, gostring list) gomap \<Rightarrow> gostring marks \<Rightarrow> gostring set" where
  "trail_open ns adj visited = ns \<union> adj_range adj - marks_of visited"

definition longest_measure where
  "longest_measure x =
     (case x of Inl (n, adj, visited, memo) \<Rightarrow> (trail_open {n} adj visited, 0)
      | Inr (n, ns, adj, visited, best, memo) \<Rightarrow> (trail_open (set ns) adj visited, length ns))"

lemma trail_open_mono:
  "ns \<subseteq> ms \<Longrightarrow> i < j \<Longrightarrow> finite ms \<Longrightarrow>
   ((trail_open ns adj visited, i), (trail_open ms adj visited, j)) \<in> finite_psubset <*lex*> less_than"
proof -
  assume "ns \<subseteq> ms" "i < j" "finite ms"
  then have "trail_open ns adj visited \<subseteq> trail_open ms adj visited" "finite (trail_open ms adj visited)"
    by (auto simp: trail_open_def)
  with \<open>i < j\<close> show ?thesis by (auto simp: finite_psubset_def)
qed

lemma trail_open_enter:
  assumes "\<not> marked visited n"
  shows "((trail_open (set (adj_of adj n)) adj (AList.update n True visited), i), (trail_open {n} adj visited, j))
    \<in> finite_psubset <*lex*> less_than"
proof -
  have "trail_open (set (adj_of adj n)) adj (AList.update n True visited) \<subset> trail_open {n} adj visited"
    using assms adj_of_range [of adj n] by (auto simp: trail_open_def marked_iff)
  then show ?thesis by (simp add: finite_psubset_def trail_open_def)
qed

termination longest
proof (relation "inv_image (finite_psubset <*lex*> less_than) longest_measure")
  show "wf (inv_image (finite_psubset <*lex*> less_than) longest_measure)" by auto
qed (auto simp: longest_measure_def simp del: in_lex_prod intro!: trail_open_mono trail_open_enter)

declare longest.simps [simp del]

definition longestPathFrom ::
  "gostring \<Rightarrow> (gostring, gostring list) gomap \<Rightarrow> gostring marks \<Rightarrow> memo \<Rightarrow> (nat \<times> gostring list) \<times> memo" where
  "longestPathFrom nodeID adj visited memo =
     (let ((depth, path, _), memo) = longest nodeID adj visited memo in ((depth, path), memo))"

section \<open>Trails\<close>

definition trail :: "('a \<times> 'a) set \<Rightarrow> 'a set \<Rightarrow> 'a list \<Rightarrow> bool" where
  "trail R V p \<longleftrightarrow> walk R p \<and> distinct (butlast p) \<and> set (butlast p) \<inter> V = {}"

text \<open>The best trail from a node: it has \<open>k\<close> steps and none has more.\<close>

definition best_trail :: "('a \<times> 'a) set \<Rightarrow> 'a set \<Rightarrow> 'a \<Rightarrow> nat \<Rightarrow> 'a list \<Rightarrow> bool" where
  "best_trail R V n k p \<longleftrightarrow> trail R V p \<and> hd p = n \<and> length p = Suc k
     \<and> (\<forall>q. trail R V q \<longrightarrow> hd q = n \<longrightarrow> length q \<le> Suc k)"

text \<open>Nothing a node leads to is marked or on a cycle.\<close>

definition unblocked :: "('a \<times> 'a) set \<Rightarrow> 'a set \<Rightarrow> 'a \<Rightarrow> bool" where
  "unblocked R V n \<longleftrightarrow> (\<forall>x. (n, x) \<in> R\<^sup>* \<longrightarrow> x \<notin> V \<and> (x, x) \<notin> R\<^sup>+)"

lemma trail_nonempty: "trail R V p \<Longrightarrow> p \<noteq> []"
  by (simp add: trail_def walk_def)

lemma trail_single [simp]: "trail R V [n]"
  by (simp add: trail_def)

lemma trail_Cons:
  assumes "q \<noteq> []"
  shows "trail R V (n # q) \<longleftrightarrow> (n, hd q) \<in> R \<and> n \<notin> V \<and> trail R (insert n V) q"
  using assms by (cases q) (auto simp: trail_def walk_Cons)

lemma trail_marked: "trail R V q \<Longrightarrow> hd q \<in> V \<Longrightarrow> length q = 1"
  by (cases q; cases "tl q") (auto simp: trail_def walk_def)

lemma best_trail_marked: "n \<in> V \<Longrightarrow> best_trail R V n 0 [n]"
  using trail_marked [of R V] by (fastforce simp: best_trail_def)

lemma walk_reaches: "walk R p \<Longrightarrow> x \<in> set p \<Longrightarrow> (hd p, x) \<in> R\<^sup>*"
proof (induction p rule: induct_list012)
  case (3 a b p)
  then have "x = a \<or> (b, x) \<in> R\<^sup>*" and "(a, b) \<in> R" by (auto simp: walk_Cons)
  then show ?case by (auto intro: converse_rtrancl_into_rtrancl)
qed (auto simp: walk_def)

lemma trail_unblocked:
  assumes "\<And>x. (hd q, x) \<in> R\<^sup>* \<Longrightarrow> x \<notin> V"
  shows "trail R V q \<longleftrightarrow> trail R {} q"
  using assms walk_reaches [of R q] in_set_butlastD [of _ q] by (auto simp: trail_def)

lemma best_trail_unblocked:
  assumes "unblocked R V n"
  shows "best_trail R V n k p \<longleftrightarrow> best_trail R {} n k p"
proof -
  have "hd q = n \<Longrightarrow> trail R V q = trail R {} q" for q
    using trail_unblocked [of q R V] assms by (auto simp: unblocked_def)
  then show ?thesis by (auto simp: best_trail_def)
qed

lemma unblocked_step:
  assumes "n \<notin> V" and "\<And>m. (n, m) \<in> R \<Longrightarrow> unblocked R (insert n V) m"
  shows "unblocked R V n"
  unfolding unblocked_def
proof (intro allI impI)
  fix x assume "(n, x) \<in> R\<^sup>*"
  then consider "x = n" | m where "(n, m) \<in> R" "(m, x) \<in> R\<^sup>*" by (auto elim: converse_rtranclE)
  then show "x \<notin> V \<and> (x, x) \<notin> R\<^sup>+"
  proof cases
    case 1
    have "(n, n) \<notin> R\<^sup>+" using assms(2) by (auto simp: unblocked_def dest!: tranclD)
    with 1 assms(1) show ?thesis by simp
  qed (use assms(2) in \<open>auto simp: unblocked_def\<close>)
qed

section \<open>The memo is harmless\<close>

definition memo_ok :: "(gostring \<times> gostring) set \<Rightarrow> memo \<Rightarrow> bool" where
  "memo_ok R memo \<longleftrightarrow> (\<forall>n r. map_of memo n = Some r \<longrightarrow>
     unblocked R {} n \<and> best_trail R {} n (pr_depth r) (pr_path r))"

text \<open>What the loop guarantees of its variables.\<close>

definition loop_post ::
  "(gostring \<times> gostring) set \<Rightarrow> gostring set \<Rightarrow> gostring \<Rightarrow> gostring list \<Rightarrow> path_best \<Rightarrow> path_best \<Rightarrow> bool" where
  "loop_post R V n ns best best' \<longleftrightarrow>
     (pb_cacheable best = (\<not> pb_hasCycle best) \<longrightarrow> pb_cacheable best' = (\<not> pb_hasCycle best'))
     \<and> (pb_hasCycle best \<longrightarrow> pb_hasCycle best') \<and> pb_depth best \<le> pb_depth best'
     \<and> (\<forall>q. trail R V q \<longrightarrow> hd q \<in> set ns \<longrightarrow> length q \<le> pb_depth best')
     \<and> ((pb_depth best', pb_path best') = (pb_depth best, pb_path best) \<or>
        (\<exists>q. trail R V q \<and> hd q \<in> set ns \<and> pb_path best' = n # q \<and> length q = pb_depth best'))
     \<and> (\<not> pb_hasCycle best' \<longrightarrow> (\<forall>m\<in>set ns. unblocked R V m))"

lemma consider_child_post:
  assumes "best_trail R (marks_of visited) m depth path" and "\<not> hasCycle \<longrightarrow> unblocked R (marks_of visited) m"
  shows "loop_post R (marks_of visited) n [m] best (consider_child n visited m (depth, path, hasCycle) best)"
  using assms trail_nonempty [of R "marks_of visited"]
  by (auto simp: loop_post_def consider_child_def Let_def best_trail_def marked_iff)

lemma loop_post_trans:
  assumes "loop_post R V n ns best best'" and "loop_post R V n ms best' best''"
  shows "loop_post R V n (ns @ ms) best best''"
proof -
  note a = assms(1) [unfolded loop_post_def] and b = assms(2) [unfolded loop_post_def]
  have le: "pb_depth best' \<le> pb_depth best''" using b by simp
  have bound: "length q \<le> pb_depth best''" if "trail R V q" "hd q \<in> set (ns @ ms)" for q
  proof (cases "hd q \<in> set ns")
    case True
    with a that(1) have "length q \<le> pb_depth best'" by blast
    with le show ?thesis by simp
  qed (use b that in auto)
  have attained: "(pb_depth best'', pb_path best'') = (pb_depth best, pb_path best) \<or>
      (\<exists>q. trail R V q \<and> hd q \<in> set (ns @ ms) \<and> pb_path best'' = n # q \<and> length q = pb_depth best'')"
  proof (cases "(pb_depth best'', pb_path best'') = (pb_depth best', pb_path best')")
    case True
    with a show ?thesis by (metis UnI1 prod.inject set_append)
  next
    case False
    with b show ?thesis by (metis UnI2 set_append)
  qed
  have "\<not> pb_hasCycle best'' \<longrightarrow> (\<forall>m\<in>set (ns @ ms). unblocked R V m)" using a b by (metis UnE set_append)
  moreover have "pb_depth best \<le> pb_depth best''" using a le by linarith
  ultimately show ?thesis using a b bound attained by (simp add: loop_post_def)
qed

lemma loop_best:
  assumes new: "n \<notin> V" and ns: "set ns = R `` {n}"
    and post: "loop_post R (insert n V) n ns \<lparr>pb_depth = 0, pb_path = [n], pb_cacheable = True, pb_hasCycle = False\<rparr> best"
  shows "best_trail R V n (pb_depth best) (pb_path best)" and "\<not> pb_hasCycle best \<longrightarrow> unblocked R V n"
    and "pb_cacheable best = (\<not> pb_hasCycle best)"
proof -
  have "length p \<le> Suc (pb_depth best)" if p: "trail R V p" "hd p = n" for p
  proof (cases "length p = 1")
    case False
    with p trail_nonempty [OF p(1)] obtain q where q: "p = n # q" "q \<noteq> []" by (cases p) auto
    with p(1) have "(n, hd q) \<in> R" "trail R (insert n V) q" by (simp_all add: trail_Cons)
    with post ns q(1) show ?thesis by (auto simp: loop_post_def)
  qed simp
  moreover have "trail R V (pb_path best) \<and> hd (pb_path best) = n \<and> length (pb_path best) = Suc (pb_depth best)"
  proof -
    from post consider "pb_depth best = 0" "pb_path best = [n]"
      | q where "trail R (insert n V) q" "hd q \<in> set ns" "pb_path best = n # q" "length q = pb_depth best"
      by (auto simp: loop_post_def)
    then show ?thesis
    proof cases
      case 2
      then show ?thesis using new ns trail_nonempty [OF 2(1)] by (auto simp: trail_Cons)
    qed simp
  qed
  ultimately show "best_trail R V n (pb_depth best) (pb_path best)" by (simp add: best_trail_def)
  show "\<not> pb_hasCycle best \<longrightarrow> unblocked R V n"
    using post ns by (auto simp: loop_post_def intro!: unblocked_step [OF new])
  show "pb_cacheable best = (\<not> pb_hasCycle best)" using post by (simp add: loop_post_def)
qed

lemma unblocked_context:
  assumes "unblocked R {} n" and "n \<notin> V" and "\<forall>v\<in>V. (v, n) \<in> R\<^sup>*"
  shows "unblocked R V n"
  unfolding unblocked_def
proof (intro allI impI conjI notI)
  fix x assume x: "(n, x) \<in> R\<^sup>*" "x \<in> V"
  with assms(2,3) have "(n, n) \<in> R\<^sup>+" by (metis rtranclD trancl_rtrancl_trancl)
  with assms(1) show False by (auto simp: unblocked_def)
qed (use assms(1) in \<open>auto simp: unblocked_def\<close>)

lemma memo_ok_update:
  assumes "memo_ok R memo" and "unblocked R V n" and "best_trail R V n k p"
  shows "memo_ok R (AList.update n \<lparr>pr_depth = k, pr_path = p\<rparr> memo)"
proof -
  have "unblocked R {} n" using assms(2) by (simp add: unblocked_def)
  moreover have "best_trail R {} n k p" using assms(3) best_trail_unblocked [OF assms(2)] by simp
  ultimately show ?thesis using assms(1) by (auto simp: memo_ok_def update_conv')
qed

lemma no_successor_best: "(n :: gostring) \<notin> V \<Longrightarrow> R `` {n} = {} \<Longrightarrow> best_trail R V n 0 [n] \<and> unblocked R V n"
  using loop_best [of n V "[]" R "\<lparr>pb_depth = 0, pb_path = [n], pb_cacheable = True, pb_hasCycle = False\<rparr>"]
  by (simp add: loop_post_def)

definition longest_post :: "(gostring \<times> gostring) set \<Rightarrow> gostring set \<Rightarrow> gostring \<Rightarrow> (nat \<times> gostring list \<times> bool) \<times> memo \<Rightarrow> bool" where
  "longest_post R V n result \<longleftrightarrow> (case result of ((k, p, hasCycle), memo) \<Rightarrow>
     memo_ok R memo \<and> best_trail R V n k p \<and> (\<not> hasCycle \<longrightarrow> unblocked R V n))"

lemma longest_correct:
  "memo_ok (succs adj) memo \<Longrightarrow> \<forall>v\<in>marks_of visited. (v, n) \<in> (succs adj)\<^sup>* \<Longrightarrow>
     longest_post (succs adj) (marks_of visited) n (longest n adj visited memo)"
  and "memo_ok (succs adj) memo \<Longrightarrow> set ns \<subseteq> set (adj_of adj n) \<Longrightarrow> \<forall>v\<in>marks_of visited. (v, n) \<in> (succs adj)\<^sup>* \<Longrightarrow>
     memo_ok (succs adj) (snd (longest_loop n ns adj visited best memo)) \<and>
     loop_post (succs adj) (marks_of visited) n ns best (fst (longest_loop n ns adj visited best memo))"
proof (induction n adj visited memo and n ns adj visited best memo rule: longest_longest_loop.induct)
  case (1 n adj visited memo)
  let ?R = "succs adj" and ?V = "marks_of visited"
  have image: "?R `` {n} = set (adj_of adj n)" by (auto simp: succs_def)
  show ?case
  proof (cases "marked visited n")
    case True
    with 1(2) show ?thesis
      by (subst longest.simps) (simp add: longest_post_def best_trail_marked marked_iff)
  next
    case new: False
    then have nV: "n \<notin> ?V" by (simp add: marked_iff)
    show ?thesis
    proof (cases "map_of memo n")
      case (Some r)
      with 1(2) have r: "unblocked ?R {} n" "best_trail ?R {} n (pr_depth r) (pr_path r)" by (auto simp: memo_ok_def)
      note u = unblocked_context [OF r(1) nV 1(3)]
      from Some new 1(2) u r(2) best_trail_unblocked [OF u] show ?thesis
        by (subst longest.simps) (simp add: longest_post_def)
    next
      case None
      show ?thesis
      proof (cases "adj_of adj n = []")
        case True
        with new None 1(2) no_successor_best [OF nV] image show ?thesis
          by (subst longest.simps) (simp add: longest_post_def)
      next
        case False
        let ?start = "\<lparr>pb_depth = 0, pb_path = [n], pb_cacheable = True, pb_hasCycle = False\<rparr>"
        obtain best memo' where run: "longest_loop n (adj_of adj n) adj (AList.update n True visited) ?start memo = (best, memo')"
          by (meson surj_pair)
        have IH: "memo_ok ?R memo'" "loop_post ?R (insert n ?V) n (adj_of adj n) ?start best"
          using 1(1) [OF new None refl refl] False 1(2,3) by (simp_all add: run)
        note b = loop_best [OF nV image [symmetric] IH(2)]
        have "memo_ok ?R (if pb_cacheable best then AList.update n \<lparr>pr_depth = pb_depth best, pr_path = pb_path best\<rparr> memo' else memo')"
          using IH(1) b memo_ok_update [OF IH(1) _ b(1)] by simp
        with new None False b run show ?thesis
          by (subst longest.simps) (simp add: longest_post_def Let_def)
      qed
    qed
  qed
next
  case (3 n m ns adj visited best memo)
  obtain k p c memo' where run: "longest m adj visited memo = ((k, p, c), memo')" by (metis surj_pair)
  have "(n, m) \<in> succs adj" using 3(4) by (auto simp: succs_def)
  with 3(5) have "\<forall>v\<in>marks_of visited. (v, m) \<in> (succs adj)\<^sup>*" by (auto intro: rtrancl_into_rtrancl)
  from 3(1) [OF 3(3) this] run have post: "memo_ok (succs adj) memo'" "best_trail (succs adj) (marks_of visited) m k p"
    "\<not> c \<longrightarrow> unblocked (succs adj) (marks_of visited) m" by (auto simp: longest_post_def)
  from 3(2) [OF refl run [symmetric] post(1) _ 3(5)] 3(4)
    loop_post_trans [OF consider_child_post [OF post(2,3)]] run
  show ?case by auto
qed (simp_all add: loop_post_def)

section \<open>Start nodes of a graph without sources\<close>

text \<open>
  \<^verbatim>\<open>sccRepresentatives\<close>: Tarjan's search. The recursion of \<^verbatim>\<open>strongConnect\<close> and its loop
  over the successors are \<open>strong_edges\<close>, between \<open>strong_enter\<close> and \<open>strong_leave\<close>.
\<close>

record scc_search =
  scc_index :: nat
  scc_indices :: "(gostring, nat) gomap"
  scc_lowlink :: "(gostring, nat) gomap"
  scc_onStack :: "gostring marks"
  scc_stack :: "gostring list"
  scc_representatives :: "gostring list"

definition strong_enter :: "gostring \<Rightarrow> scc_search \<Rightarrow> scc_search" where
  "strong_enter v st =
     st\<lparr>scc_indices := AList.update v (scc_index st) (scc_indices st),
        scc_lowlink := AList.update v (scc_index st) (scc_lowlink st),
        scc_index := scc_index st + 1,
        scc_stack := scc_stack st @ [v],
        scc_onStack := AList.update v True (scc_onStack st)\<rparr>"

text \<open>The loop that pops a component, on the reversed stack; it stops at \<open>v\<close>.\<close>

fun pop_component ::
  "gostring \<Rightarrow> gostring list \<Rightarrow> gostring marks \<Rightarrow> gostring list \<Rightarrow> gostring list \<times> gostring marks \<times> gostring list" where
  "pop_component v [] onStack component = ([], onStack, component)"
| "pop_component v (w # stack) onStack component =
     (if w = v then (stack, AList.update w False onStack, component @ [w])
      else pop_component v stack (AList.update w False onStack) (component @ [w]))"

definition strong_leave :: "gostring \<Rightarrow> scc_search \<Rightarrow> scc_search" where
  "strong_leave v st =
     (if count_of (scc_lowlink st) v = count_of (scc_indices st) v
      then let (stack, onStack, component) = pop_component v (rev (scc_stack st)) (scc_onStack st) []
           in st\<lparr>scc_stack := rev stack, scc_onStack := onStack,
                 scc_representatives := scc_representatives st @ [hd (sort component)]\<rparr>
      else st)"

definition lower :: "gostring \<Rightarrow> nat \<Rightarrow> scc_search \<Rightarrow> scc_search" where
  "lower v n st =
     (if n < count_of (scc_lowlink st) v then st\<lparr>scc_lowlink := AList.update v n (scc_lowlink st)\<rparr> else st)"

function strong_edges ::
  "(gostring, gostring list) gomap \<Rightarrow> gostring \<Rightarrow> gostring list \<Rightarrow> scc_search \<Rightarrow> scc_search" where
  "strong_edges adj v [] st = st"
| "strong_edges adj v (w # ws) st =
     (if map_of (scc_indices st) w = None
      then let st' = strong_leave w (strong_edges adj w (adj_of adj w) (strong_enter w st))
           in strong_edges adj v ws (lower v (count_of (scc_lowlink st') w) st')
      else if marked (scc_onStack st) w
      then strong_edges adj v ws (lower v (count_of (scc_indices st) w) st)
      else strong_edges adj v ws st)"
  by pat_completeness auto

lemma strong_indices [simp]:
  "scc_indices (strong_enter v st) = AList.update v (scc_index st) (scc_indices st)"
  "scc_indices (strong_leave v st) = scc_indices st"
  "scc_indices (lower v n st) = scc_indices st"
  by (simp_all add: strong_enter_def strong_leave_def lower_def split: prod.split)

lemma strong_edges_indices_dom:
  "strong_edges_dom (adj, v, ws, st) \<Longrightarrow>
   dom (map_of (scc_indices st)) \<subseteq> dom (map_of (scc_indices (strong_edges adj v ws st)))"
proof (induction adj v ws st rule: strong_edges.pinduct)
  case (2 adj v w ws st)
  show ?case
  proof (cases "map_of (scc_indices st) w = None")
    case True
    let ?st = "strong_edges adj w (adj_of adj w) (strong_enter w st)"
    have "dom (map_of (scc_indices st)) \<subseteq> dom (map_of (scc_indices ?st))"
      using 2(2) [OF True] by (simp add: dom_map_of_update)
    moreover have "dom (map_of (scc_indices ?st)) \<subseteq> dom (map_of (scc_indices (strong_edges adj v (w # ws) st)))"
      using 2(3) [OF True refl] True 2(1) by (simp add: strong_edges.psimps Let_def)
    ultimately show ?thesis by blast
  next
    case False
    with 2 show ?thesis by (auto simp: strong_edges.psimps)
  qed
qed (simp add: strong_edges.psimps)

definition strong_open :: "(gostring, gostring list) gomap \<Rightarrow> gostring list \<Rightarrow> scc_search \<Rightarrow> gostring set" where
  "strong_open adj ws st = set ws \<union> adj_range adj - dom (map_of (scc_indices st))"

definition strong_rel where
  "strong_rel = inv_image (finite_psubset <*lex*> less_than) (\<lambda>(adj, v, ws, st). (strong_open adj ws st, length ws))"

lemma strong_rel_same:
  assumes "dom (map_of (scc_indices st)) \<subseteq> dom (map_of (scc_indices st'))"
  shows "((adj, v, ws, st'), (adj, v, w # ws, st)) \<in> strong_rel"
proof -
  have "strong_open adj ws st' \<subseteq> strong_open adj (w # ws) st" using assms by (auto simp: strong_open_def)
  moreover have "finite (strong_open adj (w # ws) st)" by (simp add: strong_open_def)
  ultimately show ?thesis by (auto simp: strong_rel_def finite_psubset_def)
qed

lemma strong_rel_inner:
  assumes "map_of (scc_indices st) w = None"
  shows "((adj, w, adj_of adj w, strong_enter w st), (adj, v, w # ws, st)) \<in> strong_rel"
proof -
  have "strong_open adj (adj_of adj w) (strong_enter w st) \<subset> strong_open adj (w # ws) st"
    using assms adj_of_range [of adj w] by (auto simp: strong_open_def dom_map_of_update)
  then show ?thesis by (simp add: strong_rel_def finite_psubset_def strong_open_def)
qed

termination strong_edges
proof (relation strong_rel)
  show "wf strong_rel" by (auto simp: strong_rel_def)
next
  fix adj :: "(gostring, gostring list) gomap" and v w :: gostring and ws st x
  assume x: "x = strong_leave w (strong_edges adj w (adj_of adj w) (strong_enter w st))"
    and dom: "strong_edges_dom (adj, w, adj_of adj w, strong_enter w st)"
  have "dom (map_of (scc_indices st)) \<subseteq> dom (map_of (scc_indices (lower v (count_of (scc_lowlink x) w) x)))"
    using strong_edges_indices_dom [OF dom] by (simp add: x dom_map_of_update)
  then show "((adj, v, ws, lower v (count_of (scc_lowlink x) w) x), adj, v, w # ws, st) \<in> strong_rel"
    by (rule strong_rel_same)
qed (simp_all add: strong_rel_same strong_rel_inner)

definition strongConnect :: "(gostring, gostring list) gomap \<Rightarrow> gostring \<Rightarrow> scc_search \<Rightarrow> scc_search" where
  "strongConnect adj v st = strong_leave v (strong_edges adj v (adj_of adj v) (strong_enter v st))"

definition sccRepresentatives ::
  "(gostring list \<Rightarrow> gostring list) \<Rightarrow> (gostring, gostring list) gomap \<Rightarrow> (gostring, nat) gomap \<Rightarrow> gostring list" where
  "sccRepresentatives ord adj indegree =
     (let nodes = sort (ord (gm_keys indegree));
          st = fold (\<lambda>nodeID st. if map_of (scc_indices st) nodeID = None then strongConnect adj nodeID st else st)
                 nodes \<lparr>scc_index = 0, scc_indices = [], scc_lowlink = [], scc_onStack = [], scc_stack = [],
                         scc_representatives = []\<rparr>
      in sort (scc_representatives st))"

text \<open>The stack of a call survives the calls it makes, so the popping loop always meets its node.\<close>

lemma pop_component_stops:
  assumes "v \<in> set stack"
  shows "\<exists>ws rest. stack = ws @ v # rest \<and> v \<notin> set ws \<and>
    (\<exists>onStack'. pop_component v stack onStack component = (rest, onStack', component @ ws @ [v]))"
  using assms
proof (induction stack arbitrary: onStack component)
  case (Cons w stack)
  show ?case
  proof (cases "w = v")
    case True
    then show ?thesis by (intro exI [of _ "[]"] exI [of _ stack]) simp
  next
    case False
    with Cons.prems have "v \<in> set stack" by simp
    from Cons.IH [OF this, of "AList.update w False onStack" "component @ [w]"] obtain ws rest onStack'
      where "stack = ws @ v # rest" "v \<notin> set ws"
        "pop_component v stack (AList.update w False onStack) (component @ [w]) = (rest, onStack', component @ (w # ws) @ [v])"
      by auto
    with False show ?thesis by (intro exI [of _ "w # ws"] exI [of _ rest]) simp
  qed
qed simp

lemma strong_leave_stack:
  assumes "prefix (stack @ [v]) (scc_stack st)"
  shows "prefix stack (scc_stack (strong_leave v st))"
proof -
  from assms obtain zs where zs: "scc_stack st = stack @ [v] @ zs" by (auto simp: prefix_def)
  then have "v \<in> set (rev (scc_stack st))" by simp
  from pop_component_stops [OF this, of "scc_onStack st" "[]"] obtain ws rest onStack'
    where pop: "rev (scc_stack st) = ws @ v # rest" "v \<notin> set ws"
      "pop_component v (rev (scc_stack st)) (scc_onStack st) [] = (rest, onStack', ws @ [v])" by auto
  from pop(1) have split: "scc_stack st = rev rest @ v # rev ws" by (metis append.assoc append_Cons append_Nil rev.simps(2) rev_append rev_rev_ident)
  have "prefix stack (rev rest)"
  proof -
    from split zs have "stack @ v # zs = rev rest @ v # rev ws" by simp
    then obtain us where "stack @ us = rev rest \<or> stack = rev rest @ us \<and> us @ v # zs = v # rev ws"
      by (auto simp: append_eq_append_conv2)
    moreover have "us = []" if "us @ v # zs = v # rev ws"
    proof (rule ccontr)
      assume "us \<noteq> []"
      with that obtain list where "list @ v # zs = rev ws" by (cases us) auto
      then have "v \<in> set (rev ws)" by (metis in_set_conv_decomp)
      with pop(2) show False by simp
    qed
    ultimately show ?thesis by (metis append_Nil2 prefixI prefix_order.refl)
  qed
  then show ?thesis using pop(3) zs by (simp add: strong_leave_def)
qed

lemma strong_edges_stack: "prefix (scc_stack st) (scc_stack (strong_edges adj v ws st))"
proof (induction adj v ws st rule: strong_edges.induct)
  case (2 adj v w ws st)
  have low: "scc_stack (lower a n s) = scc_stack s" for a n s by (simp add: lower_def)
  show ?case
  proof (cases "map_of (scc_indices st) w = None")
    case True
    let ?st = "strong_leave w (strong_edges adj w (adj_of adj w) (strong_enter w st))"
    have "prefix (scc_stack st @ [w]) (scc_stack (strong_edges adj w (adj_of adj w) (strong_enter w st)))"
      using 2(1) [OF True] by (simp add: strong_enter_def)
    from prefix_order.trans [OF strong_leave_stack [OF this]] 2(2) [OF True refl] True
    show ?thesis by (simp add: low Let_def)
  next
    case False
    with 2(3,4) [OF False] show ?thesis by (simp only: strong_edges.simps if_False low split: if_split) auto
  qed
qed simp

lemma strongConnect_finds_itself:
  "v \<in> set (scc_stack (strong_edges adj v (adj_of adj v) (strong_enter v st)))"
  using strong_edges_stack [of "strong_enter v st" adj v "adj_of adj v"]
  by (auto simp: strong_enter_def prefix_def)

section \<open>The rule\<close>

definition depth_indegree :: "diagram \<Rightarrow> (gostring, nat) gomap" where
  "depth_indegree d =
     (let indegree = fold (\<lambda>node. put_absent (node_ID node) 0) (diag_Nodes d) []
      in fold (\<lambda>edge m. put_absent (edge_From edge) 0 (incr (edge_To edge) m)) (diag_Edges d) indegree)"

definition depth_starts :: "(gostring list \<Rightarrow> gostring list) \<Rightarrow> diagram \<Rightarrow> gostring list" where
  "depth_starts ord d =
     (let adj = group_by edge_From edge_To (diag_Edges d);
          indegree = depth_indegree d;
          starts = map fst (filter (\<lambda>(nodeID, degree). degree = 0) (range_map ord indegree));
          starts = (if length starts = 0 then sccRepresentatives ord adj indegree else starts)
      in sort starts)"

definition depth_issue :: "diagram \<Rightarrow> config \<Rightarrow> int \<Rightarrow> gostring \<Rightarrow> nat \<Rightarrow> gostring list \<Rightarrow> issue" where
  "depth_issue d cfg limit start depth path =
     (let severity = EffectiveSeverity ''max-depth'' cfg ''warning'';
          node = map_of (index_last node_ID (diag_Nodes d)) start
      in mk_issue ''max-depth'' severity
           (''path depth '' @ Itoa (int depth) @ '' exceeds configured limit '' @ Itoa limit @ '': '' @ Join path '' -> '')
           (Option.bind node node_Line) (Option.bind node node_Column) (NodeSubgraphContext d start))"

record depth_loop =
  dl_issues :: "issue list"
  dl_seenPaths :: "gostring list"
  dl_memo :: memo

definition depth_step :: "diagram \<Rightarrow> config \<Rightarrow> int \<Rightarrow> gostring \<Rightarrow> depth_loop \<Rightarrow> depth_loop" where
  "depth_step d cfg limit start st =
     (let adj = group_by edge_From edge_To (diag_Edges d);
          ((depth, path), memo) = longestPathFrom start adj [] (dl_memo st);
          st = st\<lparr>dl_memo := memo\<rparr>
      in if int depth \<le> limit then st
         else let pathKey = Join path ''->''
              in if pathKey \<in> set (dl_seenPaths st) then st
                 else st\<lparr>dl_seenPaths := pathKey # dl_seenPaths st,
                         dl_issues := dl_issues st @ [depth_issue d cfg limit start depth path]\<rparr>)"

definition MaxDepth_Run :: "(gostring list \<Rightarrow> gostring list) \<Rightarrow> diagram \<Rightarrow> config \<Rightarrow> issue list" where
  "MaxDepth_Run ord d cfg =
     (let limit = limit_option cfg ''max-depth'' defaultMaxDepth
      in dl_issues (fold (depth_step d cfg limit) (depth_starts ord d)
           \<lparr>dl_issues = [], dl_seenPaths = [], dl_memo = []\<rparr>))"

definition MaxDepth :: rule where
  "MaxDepth = \<lparr>rule_ID = ''max-depth'', rule_Families = Some [DiagramFamilyFlowchart], rule_Run = MaxDepth_Run\<rparr>"

section \<open>The start nodes\<close>

lemma depth_indegree_fold:
  "count_of (fold (\<lambda>edge m. put_absent (edge_From edge) 0 (incr (edge_To edge) m)) es m) k =
     count_of m k + length (filter (\<lambda>e. edge_To e = k) es)"
  "set (gm_keys (fold (\<lambda>edge m. put_absent (edge_From edge) 0 (incr (edge_To edge) m)) es m)) =
     set (gm_keys m) \<union> edge_From ` set es \<union> edge_To ` set es"
  "distinct (gm_keys m) \<Longrightarrow>
     distinct (gm_keys (fold (\<lambda>edge m. put_absent (edge_From edge) 0 (incr (edge_To edge) m)) es m))"
  by (induction es arbitrary: m)
    (auto simp: put_absent_facts count_of_incr incr_def [THEN arg_cong, of gm_keys] set_gm_keys_update
      distinct_gm_keys_update)

lemma distinct_depth_indegree [simp]: "distinct (gm_keys (depth_indegree d))"
  unfolding depth_indegree_def Let_def by (rule depth_indegree_fold(3)) (simp add: zero_counts)

definition sources :: "diagram \<Rightarrow> gostring set" where
  "sources d = {x \<in> node_ID ` set (diag_Nodes d) \<union> edge_From ` set (diag_Edges d).
                  \<forall>e\<in>set (diag_Edges d). edge_To e \<noteq> x}"

lemma depth_indegree_zero: "(x, 0) \<in> set (depth_indegree d) \<longleftrightarrow> x \<in> sources d"
  unfolding count_of_in_set [OF distinct_depth_indegree]
  by (auto simp: depth_indegree_def Let_def depth_indegree_fold zero_counts sources_def filter_empty_conv)

lemma depth_starts_sources:
  assumes "iteration_order ord" and "sources d \<noteq> {}"
  shows "set (depth_starts ord d) = sources d"
proof -
  let ?starts = "map fst (filter (\<lambda>(nodeID, degree). degree = 0) (range_map ord (depth_indegree d)))"
  have "set ?starts = sources d"
    by (force simp: set_range_map [OF assms(1) distinct_depth_indegree] simp flip: depth_indegree_zero)
  moreover from this assms(2) have "?starts \<noteq> []" by (metis set_empty)
  ultimately show ?thesis by (simp add: depth_starts_def Let_def)
qed

lemma depth_starts_order:
  assumes "iteration_order ord" and "iteration_order ord'"
  shows "depth_starts ord d = depth_starts ord' d"
proof -
  let ?starts = "\<lambda>ord. map fst (filter (\<lambda>(nodeID, degree). degree = 0) (range_map ord (depth_indegree d)))"
  have m: "mset (?starts ord) = mset (?starts ord')" using assms by (simp add: mset_range_map)
  then have "?starts ord = [] \<longleftrightarrow> ?starts ord' = []" by (metis mset_zero_iff)
  moreover have "sccRepresentatives ord adj m = sccRepresentatives ord' adj m" for adj m
    using assms by (simp add: sccRepresentatives_def iteration_order_sort)
  ultimately show ?thesis using sort_mset_cong [OF m] by (simp add: depth_starts_def Let_def)
qed

section \<open>The rule contract and the property\<close>

definition arrows :: "diagram \<Rightarrow> (gostring \<times> gostring) set" where
  "arrows d = {(edge_From e, edge_To e) | e. e \<in> set (diag_Edges d)}"

definition depth_ok :: "diagram \<Rightarrow> config \<Rightarrow> int \<Rightarrow> depth_loop \<Rightarrow> bool" where
  "depth_ok d cfg limit st \<longleftrightarrow> memo_ok (arrows d) (dl_memo st) \<and> (dl_seenPaths st = [] \<longleftrightarrow> dl_issues st = [])
     \<and> (\<forall>i\<in>set (dl_issues st). \<exists>s k p. best_trail (arrows d) {} s k p \<and> int k > limit \<and> i = depth_issue d cfg limit s k p)"

lemma best_trail_unique: "best_trail R V n k p \<Longrightarrow> best_trail R V n k' p' \<Longrightarrow> k = k'"
  by (metis Suc_le_mono best_trail_def le_antisym)

lemma depth_step_ok:
  assumes "depth_ok d cfg limit st"
  shows "depth_ok d cfg limit (depth_step d cfg limit s st)"
    and "dl_issues (depth_step d cfg limit s st) = [] \<longleftrightarrow>
          dl_issues st = [] \<and> (\<forall>p. trail (arrows d) {} p \<longrightarrow> hd p = s \<longrightarrow> int (length p) - 1 \<le> limit)"
proof -
  let ?adj = "group_by edge_From edge_To (diag_Edges d)"
  have R: "succs ?adj = arrows d" by (simp add: succs_group_by arrows_def)
  obtain k p c memo' where run: "longest s ?adj [] (dl_memo st) = ((k, p, c), memo')" by (metis surj_pair)
  have "longest_post (arrows d) {} s (longest s ?adj [] (dl_memo st))"
    using longest_correct(1) [of ?adj "dl_memo st" "[]" s] assms by (simp add: R depth_ok_def)
  then have post: "memo_ok (arrows d) memo'" "best_trail (arrows d) {} s k p"
    by (simp_all add: run longest_post_def)
  have lp: "longestPathFrom s ?adj [] (dl_memo st) = ((k, p), memo')" by (simp add: longestPathFrom_def run)
  show "depth_ok d cfg limit (depth_step d cfg limit s st)"
    using assms post by (auto simp: depth_ok_def depth_step_def Let_def lp not_le)
  have "(\<forall>q. trail (arrows d) {} q \<longrightarrow> hd q = s \<longrightarrow> int (length q) - 1 \<le> limit) \<longleftrightarrow> int k \<le> limit"
    using post(2) by (fastforce simp: best_trail_def)
  then show "dl_issues (depth_step d cfg limit s st) = [] \<longleftrightarrow>
      dl_issues st = [] \<and> (\<forall>p. trail (arrows d) {} p \<longrightarrow> hd p = s \<longrightarrow> int (length p) - 1 \<le> limit)"
    using assms by (auto simp: depth_ok_def depth_step_def Let_def lp)
qed

lemma depth_steps_ok:
  "depth_ok d cfg limit st \<Longrightarrow> depth_ok d cfg limit (fold (depth_step d cfg limit) xs st) \<and>
   (dl_issues (fold (depth_step d cfg limit) xs st) = [] \<longleftrightarrow>
     dl_issues st = [] \<and> (\<forall>p. trail (arrows d) {} p \<longrightarrow> hd p \<in> set xs \<longrightarrow> int (length p) - 1 \<le> limit))"
  by (induction xs arbitrary: st) (auto simp: depth_step_ok)

lemma MaxDepth_run_ok:
  "depth_ok d cfg (limit_option cfg ''max-depth'' defaultMaxDepth)
     (fold (depth_step d cfg (limit_option cfg ''max-depth'' defaultMaxDepth)) xs
       \<lparr>dl_issues = [], dl_seenPaths = [], dl_memo = []\<rparr>)"
  using depth_steps_ok [of d cfg _ "\<lparr>dl_issues = [], dl_seenPaths = [], dl_memo = []\<rparr>" xs]
  by (simp add: depth_ok_def memo_ok_def)

lemma MaxDepth_sel [simp]: "rule_ID MaxDepth = ''max-depth''" "rule_Run MaxDepth = MaxDepth_Run"
  by (simp_all add: MaxDepth_def)

interpretation depth_rule: deterministic_rule MaxDepth
proof (rule deterministic_ruleI)
  show "own_issues MaxDepth (rule_Run MaxDepth ord d cfg)" for ord d cfg
    using MaxDepth_run_ok [of d cfg "depth_starts ord d"]
    by (auto simp: own_issues_def MaxDepth_Run_def Let_def depth_ok_def depth_issue_def)
  show "mset (rule_Run MaxDepth ord d cfg) = mset (rule_Run MaxDepth ord' d cfg)"
    if "iteration_order ord" "iteration_order ord'" for ord ord' d cfg
    using depth_starts_order [OF that, of d] by (simp add: MaxDepth_Run_def)
qed

text \<open>
  C4: \<^verbatim>\<open>max-depth\<close> is silent exactly when no trail that leaves a start node has more steps than
  the limit, where a trail repeats no node before its last step; the memo shared by the start
  nodes does not change that. When some node has no incoming edge, the start nodes are exactly
  those nodes.
\<close>

theorem MaxDepth_silent_iff:
  assumes "iteration_order ord"
  shows "(MaxDepth_Run ord d cfg = [] \<longleftrightarrow>
      (\<forall>p. trail (arrows d) {} p \<and> hd p \<in> set (depth_starts ord d) \<longrightarrow>
           int (length p) - 1 \<le> limit_option cfg ''max-depth'' defaultMaxDepth)) \<and>
    (sources d \<noteq> {} \<longrightarrow> set (depth_starts ord d) = sources d)"
proof -
  let ?start = "\<lparr>dl_issues = [], dl_seenPaths = [], dl_memo = []\<rparr>"
  have "depth_ok d cfg (limit_option cfg ''max-depth'' defaultMaxDepth) ?start" by (simp add: depth_ok_def memo_ok_def)
  from depth_steps_ok [OF this, of "depth_starts ord d"] depth_starts_sources [OF assms, of d] show ?thesis
    by (auto simp: MaxDepth_Run_def Let_def)
qed

theorem MaxDepth_silent_iff_witness:
  "let d = empty_diagram\<lparr>diag_Edges := [arrow ''A'' ''B'', arrow ''B'' ''C'', arrow ''C'' ''B'']\<rparr>;
       cfg = [(''max-depth'', [(''limit'', VInt 2)])]
   in \<exists>p. trail (arrows d) {} p \<and> hd p \<in> set (depth_starts rev d) \<and>
        int (length p) - 1 > limit_option cfg ''max-depth'' defaultMaxDepth"
proof -
  have "map iss_Message (MaxDepth_Run rev (empty_diagram\<lparr>diag_Edges := [arrow ''A'' ''B'', arrow ''B'' ''C'', arrow ''C'' ''B'']\<rparr>)
      [(''max-depth'', [(''limit'', VInt 2)])]) = [''path depth 3 exceeds configured limit 2: A -> B -> C -> B'']"
    by code_simp
  then show ?thesis
    unfolding Let_def using MaxDepth_silent_iff [OF iteration_order_rev] by (metis list.simps(8) list.distinct(1) not_le)
qed

text \<open>
  C7: every finding of \<^verbatim>\<open>max-depth\<close> prints a trail of the diagram that is longer than the limit
  and longest among the trails from its first node, with its number of steps.
\<close>

theorem MaxDepth_findings_longest:
  assumes "i \<in> set (MaxDepth_Run ord d cfg)"
  shows "\<exists>s k p. best_trail (arrows d) {} s k p \<and> int k > limit_option cfg ''max-depth'' defaultMaxDepth
    \<and> iss_Message i = ''path depth '' @ Itoa (int k) @ '' exceeds configured limit '' @
        Itoa (limit_option cfg ''max-depth'' defaultMaxDepth) @ '': '' @ Join p '' -> ''
    \<and> iss_Context i = NodeSubgraphContext d s"
  using assms MaxDepth_run_ok [of d cfg "depth_starts ord d"]
  by (fastforce simp: MaxDepth_Run_def Let_def depth_ok_def depth_issue_def)

theorem MaxDepth_findings_longest_witness:
  "let d = empty_diagram\<lparr>diag_Edges := [arrow ''A'' ''B'', arrow ''B'' ''C'']\<rparr>
   in \<exists>s k p. best_trail (arrows d) {} s k p \<and> int k > 1"
proof -
  let ?d = "empty_diagram\<lparr>diag_Edges := [arrow ''A'' ''B'', arrow ''B'' ''C'']\<rparr>"
  let ?cfg = "[(''max-depth'', [(''limit'', VInt 1)])]"
  have "length (MaxDepth_Run rev ?d ?cfg) = 1" by code_simp
  then have "hd (MaxDepth_Run rev ?d ?cfg) \<in> set (MaxDepth_Run rev ?d ?cfg)" by (cases "MaxDepth_Run rev ?d ?cfg") auto
  moreover have "limit_option ?cfg ''max-depth'' defaultMaxDepth = 1" by code_simp
  ultimately show ?thesis unfolding Let_def using MaxDepth_findings_longest [of _ rev ?d ?cfg] by metis
qed

end
