(* ===== verification/Rules_Other.thy ===== *)
theory Rules_Other
  imports Rule_Config
begin

text \<open>
  The counting and local rules for the other diagram families: \<^verbatim>\<open>sequence_*.go\<close>,
  \<^verbatim>\<open>class_no_duplicate_classes.go\<close>, \<^verbatim>\<open>er_no_self_referential.go\<close>,
  \<^verbatim>\<open>state_no_circular_transitions.go\<close> and \<^verbatim>\<open>state_max_transitions.go\<close> of
  \<^verbatim>\<open>internal/rules\<close>. Each meets the rule contract and is independent of map order.
\<close>

section \<open>Sequence diagrams\<close>

definition undefined_refs :: "diagram \<Rightarrow> (gostring, edge) gomap" where
  "undefined_refs d =
     (let definedActors = key_set (map node_ID (diag_Nodes d));
          undef = (\<lambda>x. x \<noteq> [] \<and> map_of definedActors x = None)
      in fold (\<lambda>edge refs.
                 let refs = (if undef (edge_From edge) then AList.update (edge_From edge) edge refs else refs)
                 in if undef (edge_To edge) then AList.update (edge_To edge) edge refs else refs)
           (diag_Edges d) [])"

definition SequenceNoUndefinedActors_Run ::
  "(gostring list \<Rightarrow> gostring list) \<Rightarrow> diagram \<Rightarrow> config \<Rightarrow> issue list" where
  "SequenceNoUndefinedActors_Run ord d cfg =
     (let severity = EffectiveSeverity ''no-undefined-actors'' cfg ''error'';
          undefinedRefs = undefined_refs d
      in if undefinedRefs = [] then []
         else map (\<lambda>(actorID, edge).
                     mk_issue ''no-undefined-actors'' severity (''undefined actor reference: '' @ actorID)
                       (edge_Line edge) (edge_Column edge) None)
                (range_map ord undefinedRefs))"

definition SequenceNoUndefinedActors :: rule where
  "SequenceNoUndefinedActors =
     \<lparr>rule_ID = ''no-undefined-actors'', rule_Families = Some [DiagramFamilySequence],
      rule_Run = SequenceNoUndefinedActors_Run\<rparr>"

definition SequenceNoDuplicateActors_Run ::
  "(gostring list \<Rightarrow> gostring list) \<Rightarrow> diagram \<Rightarrow> config \<Rightarrow> issue list" where
  "SequenceNoDuplicateActors_Run ord d cfg =
     (let severity = EffectiveSeverity ''no-duplicate-actors'' cfg ''error'';
          actorCounts = count_by node_ID (diag_Nodes d);
          actorLocations = index_first node_ID (diag_Nodes d)
      in map (\<lambda>(actorID, count).
                let node = (case map_of actorLocations actorID of None \<Rightarrow> zero_node | Some n \<Rightarrow> n)
                in mk_issue ''no-duplicate-actors'' severity (''duplicate actor definition: '' @ actorID)
                     (node_Line node) (node_Column node) None)
           (filter (\<lambda>(actorID, count). count > 1) (range_map ord actorCounts)))"

definition SequenceNoDuplicateActors :: rule where
  "SequenceNoDuplicateActors =
     \<lparr>rule_ID = ''no-duplicate-actors'', rule_Families = Some [DiagramFamilySequence],
      rule_Run = SequenceNoDuplicateActors_Run\<rparr>"

definition defaultSequenceMaxNesting :: int where
  "defaultSequenceMaxNesting = 3"

text \<open>The rule reads its limit and severity and returns no findings.\<close>

definition SequenceMaxNesting_Run ::
  "(gostring list \<Rightarrow> gostring list) \<Rightarrow> diagram \<Rightarrow> config \<Rightarrow> issue list" where
  "SequenceMaxNesting_Run ord d cfg =
     (let severity = EffectiveSeverity ''max-nesting-depth'' cfg ''warning'';
          limit = limit_option cfg ''max-nesting-depth'' defaultSequenceMaxNesting
      in [])"

definition SequenceMaxNesting :: rule where
  "SequenceMaxNesting =
     \<lparr>rule_ID = ''max-nesting-depth'', rule_Families = Some [DiagramFamilySequence],
      rule_Run = SequenceMaxNesting_Run\<rparr>"

section \<open>Class and entity-relationship diagrams\<close>

definition ClassNoDuplicateClasses_Run ::
  "(gostring list \<Rightarrow> gostring list) \<Rightarrow> diagram \<Rightarrow> config \<Rightarrow> issue list" where
  "ClassNoDuplicateClasses_Run ord d cfg =
     (let severity = EffectiveSeverity ''no-duplicate-classes'' cfg ''error'';
          classCounts = count_by node_ID (diag_Nodes d);
          classLocations = index_first node_ID (diag_Nodes d)
      in map (\<lambda>(classID, count).
                let node = (case map_of classLocations classID of None \<Rightarrow> zero_node | Some n \<Rightarrow> n)
                in mk_issue ''no-duplicate-classes'' severity (''duplicate class definition: '' @ classID)
                     (node_Line node) (node_Column node) None)
           (filter (\<lambda>(classID, count). count > 1) (range_map ord classCounts)))"

definition ClassNoDuplicateClasses :: rule where
  "ClassNoDuplicateClasses =
     \<lparr>rule_ID = ''no-duplicate-classes'', rule_Families = Some [DiagramFamilyClass],
      rule_Run = ClassNoDuplicateClasses_Run\<rparr>"

definition ERNoSelfReferential_Run ::
  "(gostring list \<Rightarrow> gostring list) \<Rightarrow> diagram \<Rightarrow> config \<Rightarrow> issue list" where
  "ERNoSelfReferential_Run ord d cfg =
     (let severity = EffectiveSeverity ''no-self-referential'' cfg ''warning''
      in map (\<lambda>edge. mk_issue ''no-self-referential'' severity
                        (''self-referential entity relationship: '' @ edge_From edge)
                        (edge_Line edge) (edge_Column edge) None)
           (filter (\<lambda>edge. edge_From edge = edge_To edge) (diag_Edges d)))"

definition ERNoSelfReferential :: rule where
  "ERNoSelfReferential =
     \<lparr>rule_ID = ''no-self-referential'', rule_Families = Some [DiagramFamilyER],
      rule_Run = ERNoSelfReferential_Run\<rparr>"

section \<open>State diagrams\<close>

definition StateNoCircularTransitions_Run ::
  "(gostring list \<Rightarrow> gostring list) \<Rightarrow> diagram \<Rightarrow> config \<Rightarrow> issue list" where
  "StateNoCircularTransitions_Run ord d cfg =
     (let severity = EffectiveSeverity ''no-circular-transitions'' cfg ''error''
      in map (\<lambda>edge. mk_issue ''no-circular-transitions'' severity
                        (''self-loop state transition: '' @ edge_From edge)
                        (edge_Line edge) (edge_Column edge) None)
           (filter (\<lambda>edge. edge_From edge = edge_To edge) (diag_Edges d)))"

definition StateNoCircularTransitions :: rule where
  "StateNoCircularTransitions =
     \<lparr>rule_ID = ''no-circular-transitions'', rule_Families = Some [DiagramFamilyState],
      rule_Run = StateNoCircularTransitions_Run\<rparr>"

definition defaultStateMaxTransitions :: int where
  "defaultStateMaxTransitions = 10"

definition StateMaxTransitions_Run ::
  "(gostring list \<Rightarrow> gostring list) \<Rightarrow> diagram \<Rightarrow> config \<Rightarrow> issue list" where
  "StateMaxTransitions_Run ord d cfg =
     (let severity = EffectiveSeverity ''max-transitions'' cfg ''warning'';
          limit = limit_option cfg ''max-transitions'' defaultStateMaxTransitions;
          nodeByID = index_last node_ID (diag_Nodes d);
          outgoing = count_by edge_From (diag_Edges d)
      in map (\<lambda>(stateID, count).
                let node = (case map_of nodeByID stateID of None \<Rightarrow> zero_node | Some n \<Rightarrow> n)
                in mk_issue ''max-transitions'' severity
                     (''state '' @ Quote stateID @ '' has '' @ Itoa (int count) @
                      '' outgoing transitions, exceeding limit of '' @ Itoa limit)
                     (node_Line node) (node_Column node) None)
           (filter (\<lambda>(stateID, count). int count > limit) (range_map ord outgoing)))"

definition StateMaxTransitions :: rule where
  "StateMaxTransitions =
     \<lparr>rule_ID = ''max-transitions'', rule_Families = Some [DiagramFamilyState],
      rule_Run = StateMaxTransitions_Run\<rparr>"

section \<open>Lemmas\<close>

lemma undefined_refs_fold:
  fixes undef :: "gostring \<Rightarrow> bool"
  defines "step \<equiv> (\<lambda>edge refs.
                 let refs = (if undef (edge_From edge) then AList.update (edge_From edge) edge refs else refs)
                 in if undef (edge_To edge) then AList.update (edge_To edge) edge refs else refs)"
  shows "distinct (gm_keys refs) \<Longrightarrow> distinct (gm_keys (fold step es refs))"
    and "set (gm_keys (fold step es refs)) =
           set (gm_keys refs) \<union> {x. undef x \<and> (\<exists>e\<in>set es. edge_From e = x \<or> edge_To e = x)}"
  by (induction es arbitrary: refs)
    (auto simp: step_def Let_def distinct_gm_keys_update set_gm_keys_update split: if_splits)

lemma key_set_None: "map_of (key_set ks) x = None \<longleftrightarrow> x \<notin> set ks"
  using set_keys_key_set [of ks] by (metis set_gm_keys domIff)

lemma distinct_undefined_refs: "distinct (gm_keys (undefined_refs d))"
  unfolding undefined_refs_def Let_def by (rule undefined_refs_fold(1) [unfolded Let_def]) simp

lemma set_undefined_refs:
  "set (gm_keys (undefined_refs d)) =
     {x. x \<noteq> [] \<and> x \<notin> node_ID ` set (diag_Nodes d) \<and>
         (\<exists>e\<in>set (diag_Edges d). edge_From e = x \<or> edge_To e = x)}"
  unfolding undefined_refs_def Let_def
  by (subst undefined_refs_fold(2) [unfolded Let_def]) (simp add: key_set_None)

lemma SequenceNoUndefinedActors_order:
  "iteration_order ord \<Longrightarrow> iteration_order ord' \<Longrightarrow>
   mset (SequenceNoUndefinedActors_Run ord d cfg) = mset (SequenceNoUndefinedActors_Run ord' d cfg)"
  unfolding SequenceNoUndefinedActors_Run_def Let_def
  by (simp add: mset_range_map distinct_undefined_refs)

lemma SequenceNoDuplicateActors_order:
  "iteration_order ord \<Longrightarrow> iteration_order ord' \<Longrightarrow>
   mset (SequenceNoDuplicateActors_Run ord d cfg) = mset (SequenceNoDuplicateActors_Run ord' d cfg)"
  unfolding SequenceNoDuplicateActors_Run_def Let_def by (rule mset_loop_order) simp_all

lemma ClassNoDuplicateClasses_order:
  "iteration_order ord \<Longrightarrow> iteration_order ord' \<Longrightarrow>
   mset (ClassNoDuplicateClasses_Run ord d cfg) = mset (ClassNoDuplicateClasses_Run ord' d cfg)"
  unfolding ClassNoDuplicateClasses_Run_def Let_def by (rule mset_loop_order) simp_all

lemma StateMaxTransitions_order:
  "iteration_order ord \<Longrightarrow> iteration_order ord' \<Longrightarrow>
   mset (StateMaxTransitions_Run ord d cfg) = mset (StateMaxTransitions_Run ord' d cfg)"
  unfolding StateMaxTransitions_Run_def Let_def by (rule mset_loop_order) simp_all

lemma other_rules_sel [simp]:
  "rule_ID SequenceNoUndefinedActors = ''no-undefined-actors''"
  "rule_ID SequenceNoDuplicateActors = ''no-duplicate-actors''"
  "rule_ID SequenceMaxNesting = ''max-nesting-depth''"
  "rule_ID ClassNoDuplicateClasses = ''no-duplicate-classes''"
  "rule_ID ERNoSelfReferential = ''no-self-referential''"
  "rule_ID StateNoCircularTransitions = ''no-circular-transitions''"
  "rule_ID StateMaxTransitions = ''max-transitions''"
  by (simp_all add: SequenceNoUndefinedActors_def SequenceNoDuplicateActors_def SequenceMaxNesting_def
      ClassNoDuplicateClasses_def ERNoSelfReferential_def StateNoCircularTransitions_def
      StateMaxTransitions_def)

lemma other_rules_run [simp]:
  "rule_Run SequenceNoUndefinedActors = SequenceNoUndefinedActors_Run"
  "rule_Run SequenceNoDuplicateActors = SequenceNoDuplicateActors_Run"
  "rule_Run SequenceMaxNesting = SequenceMaxNesting_Run"
  "rule_Run ClassNoDuplicateClasses = ClassNoDuplicateClasses_Run"
  "rule_Run ERNoSelfReferential = ERNoSelfReferential_Run"
  "rule_Run StateNoCircularTransitions = StateNoCircularTransitions_Run"
  "rule_Run StateMaxTransitions = StateMaxTransitions_Run"
  by (simp_all add: SequenceNoUndefinedActors_def SequenceNoDuplicateActors_def SequenceMaxNesting_def
      ClassNoDuplicateClasses_def ERNoSelfReferential_def StateNoCircularTransitions_def
      StateMaxTransitions_def)

section \<open>The rule contract\<close>

interpretation undefined_actors_rule: deterministic_rule SequenceNoUndefinedActors
proof (rule deterministic_ruleI)
  show "own_issues SequenceNoUndefinedActors (rule_Run SequenceNoUndefinedActors ord d cfg)" for ord d cfg
    by (auto simp: SequenceNoUndefinedActors_Run_def Let_def own_issues_def)
qed (metis SequenceNoUndefinedActors_order other_rules_run(1))

interpretation duplicate_actors_rule: deterministic_rule SequenceNoDuplicateActors
proof (rule deterministic_ruleI)
  show "own_issues SequenceNoDuplicateActors (rule_Run SequenceNoDuplicateActors ord d cfg)" for ord d cfg
    by (auto simp: SequenceNoDuplicateActors_Run_def Let_def own_issues_def)
qed (metis SequenceNoDuplicateActors_order other_rules_run(2))

interpretation max_nesting_rule: deterministic_rule SequenceMaxNesting
  by (rule deterministic_ruleI) (simp_all add: SequenceMaxNesting_Run_def own_issues_def)

interpretation duplicate_classes_rule: deterministic_rule ClassNoDuplicateClasses
proof (rule deterministic_ruleI)
  show "own_issues ClassNoDuplicateClasses (rule_Run ClassNoDuplicateClasses ord d cfg)" for ord d cfg
    by (auto simp: ClassNoDuplicateClasses_Run_def Let_def own_issues_def)
qed (metis ClassNoDuplicateClasses_order other_rules_run(4))

interpretation self_referential_rule: deterministic_rule ERNoSelfReferential
  by (rule deterministic_ruleI) (auto simp: ERNoSelfReferential_Run_def own_issues_def)

interpretation circular_transitions_rule: deterministic_rule StateNoCircularTransitions
  by (rule deterministic_ruleI) (auto simp: StateNoCircularTransitions_Run_def own_issues_def)

interpretation max_transitions_rule: deterministic_rule StateMaxTransitions
proof (rule deterministic_ruleI)
  show "own_issues StateMaxTransitions (rule_Run StateMaxTransitions ord d cfg)" for ord d cfg
    by (auto simp: StateMaxTransitions_Run_def Let_def own_issues_def)
qed (metis StateMaxTransitions_order other_rules_run(7))

end
