(* ===== verification/Rules_Reach.thy ===== *)
theory Rules_Reach
  imports Rule_Config Graph
begin

text \<open>
  The rule \<^verbatim>\<open>no-unreachable-state\<close>, \<^verbatim>\<open>internal/rules/state_no_unreachable.go\<close>: a
  breadth-first search from the start states of a state diagram. The search marks exactly the
  states that a path of transitions reaches from a start state, so the rule reports exactly the
  others, in the order of the diagram's nodes and independently of the map order.
\<close>

section \<open>The rule\<close>

definition discover :: "gostring \<Rightarrow> gostring marks \<times> gostring list \<Rightarrow> gostring marks \<times> gostring list" where
  "discover neighbor found = (let (reachable, queue) = found in
     if \<not> marked reachable neighbor then (AList.update neighbor True reachable, queue @ [neighbor])
     else (reachable, queue))"

lemma discover_pair:
  "discover n (reachable, queue) =
     (if marked reachable n then (reachable, queue) else (AList.update n True reachable, queue @ [n]))"
  by (simp add: discover_def)

text \<open>The initial queue: the explicit start states, or else the nodes with no incoming edge.\<close>

definition initial_states ::
  "(gostring list \<Rightarrow> gostring list) \<Rightarrow> diagram \<Rightarrow> gostring marks \<times> gostring list" where
  "initial_states ord d =
     (if length (diag_StartStates d) > 0 then fold discover (diag_StartStates d) ([], [])
      else
        let indegree = fold (\<lambda>node m. AList.update (node_ID node) 0 m) (diag_Nodes d) [];
            indegree = fold (\<lambda>edge. incr (edge_To edge)) (diag_Edges d) indegree
        in fold (\<lambda>(nodeID, degree) (reachable, queue).
                   if degree = 0 then (AList.update nodeID True reachable, queue @ [nodeID])
                   else (reachable, queue))
             (range_map ord indegree) ([], []))"

definition open_targets :: "(gostring, gostring list) gomap \<Rightarrow> gostring marks \<Rightarrow> gostring set" where
  "open_targets adj reachable = adj_range adj - marks_of reachable"

lemma discover_measure:
  assumes "set ns \<subseteq> adj_range adj" and "fold discover ns (reachable, queue) = (reachable', queue')"
  shows "card (open_targets adj reachable') + length queue' = card (open_targets adj reachable) + length queue"
  using assms
proof (induction ns arbitrary: reachable queue)
  case (Cons n ns)
  show ?case
  proof (cases "marked reachable n")
    case False
    have "n \<in> open_targets adj reachable"
      using False Cons.prems(1) by (simp add: open_targets_def marked_iff)
    moreover have "open_targets adj (AList.update n True reachable) = open_targets adj reachable - {n}"
      by (auto simp: open_targets_def)
    moreover have "finite (open_targets adj reachable)" by (simp add: open_targets_def)
    ultimately have "Suc (card (open_targets adj (AList.update n True reachable))) = card (open_targets adj reachable)"
      by (metis card_Suc_Diff1)
    moreover have "fold discover ns (AList.update n True reachable, queue @ [n]) = (reachable', queue')"
      using Cons.prems(2) False by (simp add: discover_pair)
    ultimately show ?thesis using Cons.IH [of "AList.update n True reachable" "queue @ [n]"] Cons.prems(1) by simp
  qed (use Cons in \<open>simp add: discover_pair\<close>)
qed simp

function bfs :: "(gostring, gostring list) gomap \<Rightarrow> gostring marks \<Rightarrow> gostring list \<Rightarrow> gostring marks" where
  "bfs adj reachable [] = reachable"
| "bfs adj reachable (current # queue) =
     (let (reachable', queue') = fold discover (adj_of adj current) (reachable, queue)
      in bfs adj reachable' queue')"
  by pat_completeness auto
termination
proof (relation "measure (\<lambda>(adj, reachable, queue). card (open_targets adj reachable) + length queue)")
  fix adj reachable x reachable' and current :: gostring and queue queue' :: "gostring list"
  assume "x = fold discover (adj_of adj current) (reachable, queue)" and "(reachable', queue') = x"
  then show "((adj, reachable', queue'), adj, reachable, current # queue)
      \<in> measure (\<lambda>(adj, reachable, queue). card (open_targets adj reachable) + length queue)"
    using discover_measure [OF adj_of_range, of adj current reachable queue reachable' queue']
    by (metis (no_types, lifting) add_Suc_right case_prod_conv in_measure length_Cons lessI)
qed simp

definition StateNoUnreachable_Run ::
  "(gostring list \<Rightarrow> gostring list) \<Rightarrow> diagram \<Rightarrow> config \<Rightarrow> issue list" where
  "StateNoUnreachable_Run ord d cfg =
     (let severity = EffectiveSeverity ''no-unreachable-state'' cfg ''error'';
          adj = group_by edge_From edge_To (diag_Edges d);
          (reachable, queue) = initial_states ord d;
          reachable = bfs adj reachable queue
      in map (\<lambda>node. mk_issue ''no-unreachable-state'' severity (''unreachable state: '' @ node_ID node)
                        (node_Line node) (node_Column node) None)
           (filter (\<lambda>node. \<not> marked reachable (node_ID node)) (diag_Nodes d)))"

definition StateNoUnreachable :: rule where
  "StateNoUnreachable =
     \<lparr>rule_ID = ''no-unreachable-state'', rule_Families = Some [DiagramFamilyState],
      rule_Run = StateNoUnreachable_Run\<rparr>"

section \<open>The search finds the reachable states\<close>

lemma discover_fold:
  assumes "fold discover ns (reachable, queue) = (reachable', queue')"
  shows "marks_of reachable' = marks_of reachable \<union> set ns"
    and "set queue' = set queue \<union> (set ns - marks_of reachable)"
  using assms
  by (induction ns arbitrary: reachable queue)
    (auto simp: discover_pair marked_iff split: if_splits)

text \<open>Marked states outside the queue have had their successors marked.\<close>

definition bfs_inv :: "(gostring, gostring list) gomap \<Rightarrow> gostring marks \<Rightarrow> gostring list \<Rightarrow> bool" where
  "bfs_inv adj reachable queue \<longleftrightarrow> set queue \<subseteq> marks_of reachable
     \<and> succs adj `` (marks_of reachable - set queue) \<subseteq> marks_of reachable"

lemma bfs_inv_step:
  assumes "bfs_inv adj reachable (current # queue)"
    and "fold discover (adj_of adj current) (reachable, queue) = (reachable', queue')"
  shows "bfs_inv adj reachable' queue'"
proof -
  note f = discover_fold [OF assms(2)]
  have "succs adj `` {current} = set (adj_of adj current)" by (auto simp: succs_def)
  with assms(1) f show ?thesis unfolding bfs_inv_def by (auto simp: succs_def)
qed

lemma bfs_reachable:
  "bfs_inv adj reachable queue \<Longrightarrow> marks_of (bfs adj reachable queue) = (succs adj)\<^sup>* `` marks_of reachable"
proof (induction adj reachable queue rule: bfs.induct)
  case (1 adj reachable)
  then have "succs adj `` marks_of reachable \<subseteq> marks_of reachable" by (simp add: bfs_inv_def)
  then show ?case by (metis Image_closed_trancl bfs.simps(1))
next
  case (2 adj reachable current queue)
  obtain reachable' queue' where s: "fold discover (adj_of adj current) (reachable, queue) = (reachable', queue')"
    by (meson surj_pair)
  have "current \<in> marks_of reachable" using 2(2) by (simp add: bfs_inv_def)
  moreover have "marks_of reachable' = marks_of reachable \<union> succs adj `` {current}"
    using discover_fold(1) [OF s] by (auto simp: succs_def)
  ultimately have "(succs adj)\<^sup>* `` marks_of reachable' = (succs adj)\<^sup>* `` marks_of reachable"
    by (auto intro: converse_rtrancl_into_rtrancl)
  with 2(1) [OF s [symmetric]] bfs_inv_step [OF 2(2) s] show ?case by (simp add: s)
qed

section \<open>The start states\<close>

definition start_states :: "diagram \<Rightarrow> gostring set" where
  "start_states d =
     (if diag_StartStates d \<noteq> [] then set (diag_StartStates d)
      else {x \<in> node_ID ` set (diag_Nodes d). \<forall>e\<in>set (diag_Edges d). edge_To e \<noteq> x})"

lemma zero_fold:
  "count_of (fold (\<lambda>node m. AList.update (node_ID node) 0 m) ns m) k = (if k \<in> node_ID ` set ns then 0 else count_of m k)"
  "set (gm_keys (fold (\<lambda>node m. AList.update (node_ID node) 0 m) ns m)) = set (gm_keys m) \<union> node_ID ` set ns"
  "distinct (gm_keys m) \<Longrightarrow> distinct (gm_keys (fold (\<lambda>node m. AList.update (node_ID node) (0::nat) m) ns m))"
  by (induction ns arbitrary: m)
    (auto simp: count_of_def update_conv' set_gm_keys_update distinct_gm_keys_update)

lemma pick_zero:
  assumes "fold (\<lambda>(k, n) (m, q). if n = (0::nat) then (AList.update k True m, q @ [k]) else (m, q)) kns (m, q) = (m', q')"
  shows "marks_of m' = marks_of m \<union> {k. (k, 0) \<in> set kns}" and "set q' = set q \<union> {k. (k, 0) \<in> set kns}"
  using assms by (induction kns arbitrary: m q) (auto split: if_splits)

lemma initial_states_start:
  assumes ord: "iteration_order ord" and init: "initial_states ord d = (reachable, queue)"
  shows "marks_of reachable = start_states d \<and> set queue = start_states d"
proof (cases "diag_StartStates d = []")
  case False
  then have "fold discover (diag_StartStates d) ([], []) = (reachable, queue)"
    using init by (simp add: initial_states_def)
  from discover_fold [OF this] False show ?thesis by (simp add: start_states_def)
next
  case True
  let ?zero = "fold (\<lambda>node m. AList.update (node_ID node) 0 m) (diag_Nodes d) []"
  let ?deg = "fold (\<lambda>edge. incr (edge_To edge)) (diag_Edges d) ?zero"
  have dis: "distinct (gm_keys ?deg)"
    unfolding incr_def by (rule distinct_gm_keys_fold_update) (simp add: zero_fold(3))
  have cnt: "count_of ?deg x = length (filter (\<lambda>e. edge_To e = x) (diag_Edges d))" for x
    by (simp add: count_of_fold_incr zero_fold(1))
  have keys: "set (gm_keys ?deg) = node_ID ` set (diag_Nodes d) \<union> edge_To ` set (diag_Edges d)"
    unfolding incr_def by (simp add: gm_keys_fold_update zero_fold(2))
  have "{k. (k, 0) \<in> set (range_map ord ?deg)} = start_states d"
    using True by (auto simp: set_range_map [OF ord dis] count_of_in_set [OF dis] cnt keys start_states_def filter_empty_conv)
  moreover have "fold (\<lambda>(k, n) (m, q). if n = 0 then (AList.update k True m, q @ [k]) else (m, q))
      (range_map ord ?deg) ([], []) = (reachable, queue)"
    using init True by (simp add: initial_states_def Let_def)
  ultimately show ?thesis using pick_zero [of "range_map ord ?deg" "[]" "[]" reachable queue] by simp
qed

section \<open>The rule contract and the property\<close>

lemma StateNoUnreachable_eq:
  assumes "iteration_order ord"
  shows "StateNoUnreachable_Run ord d cfg =
    map (\<lambda>node. mk_issue ''no-unreachable-state'' (EffectiveSeverity ''no-unreachable-state'' cfg ''error'')
           (''unreachable state: '' @ node_ID node) (node_Line node) (node_Column node) None)
      (filter (\<lambda>node. node_ID node \<notin> {(edge_From e, edge_To e) | e. e \<in> set (diag_Edges d)}\<^sup>* `` start_states d) (diag_Nodes d))"
proof -
  obtain reachable queue where init: "initial_states ord d = (reachable, queue)" by fastforce
  let ?adj = "group_by edge_From edge_To (diag_Edges d)"
  note st = initial_states_start [OF assms init]
  then have "bfs_inv ?adj reachable queue" by (simp add: bfs_inv_def)
  from bfs_reachable [OF this] st
  have "marked (bfs ?adj reachable queue) x \<longleftrightarrow>
      x \<in> {(edge_From e, edge_To e) | e. e \<in> set (diag_Edges d)}\<^sup>* `` start_states d" for x
    by (simp add: marked_iff succs_group_by)
  then show ?thesis by (simp add: StateNoUnreachable_Run_def init)
qed

lemma StateNoUnreachable_sel [simp]:
  "rule_ID StateNoUnreachable = ''no-unreachable-state''" "rule_Run StateNoUnreachable = StateNoUnreachable_Run"
  by (simp_all add: StateNoUnreachable_def)

interpretation unreachable_rule: deterministic_rule StateNoUnreachable
proof (rule deterministic_ruleI)
  show "own_issues StateNoUnreachable (rule_Run StateNoUnreachable ord d cfg)" for ord d cfg
    by (auto simp: StateNoUnreachable_Run_def own_issues_def split: prod.split)
qed (simp add: StateNoUnreachable_eq)

text \<open>
  C8: the rule reports exactly the states that no path of transitions reaches from a start
  state, one finding per node entry and in the order of the nodes; the start states are the
  targets of the start marker or, when there are none, the nodes with no incoming transition.
\<close>

theorem StateNoUnreachable_exact:
  assumes "iteration_order ord"
  shows "map iss_Message (StateNoUnreachable_Run ord d cfg) =
    map (\<lambda>node. ''unreachable state: '' @ node_ID node)
      (filter (\<lambda>node. \<not> (\<exists>s\<in>start_states d. (s, node_ID node) \<in> {(edge_From e, edge_To e) | e. e \<in> set (diag_Edges d)}\<^sup>*))
        (diag_Nodes d))"
  unfolding StateNoUnreachable_eq [OF assms] by (simp add: Image_iff comp_def)

theorem StateNoUnreachable_exact_witness:
  "let d = empty_diagram\<lparr>diag_Nodes := [zero_node\<lparr>node_ID := ''S''\<rparr>, zero_node\<lparr>node_ID := ''L''\<rparr>],
                          diag_Edges := [arrow ''L'' ''L'']\<rparr>
   in map (\<lambda>node. ''unreachable state: '' @ node_ID node)
        (filter (\<lambda>node. \<not> (\<exists>s\<in>start_states d. (s, node_ID node) \<in> {(edge_From e, edge_To e) | e. e \<in> set (diag_Edges d)}\<^sup>*))
          (diag_Nodes d)) = [''unreachable state: L'']"
  unfolding Let_def
  by (rule trans [OF StateNoUnreachable_exact [OF iteration_order_rev, of _ "[]", symmetric]]) code_simp

end
