(* ===== verification/Rules_Chain.thy ===== *)
theory Rules_Chain
  imports Rule_Config Graph
begin

text \<open>
  The rules \<^verbatim>\<open>no-circular-inheritance\<close> (\<^verbatim>\<open>class_no_circular_inheritance.go\<close>) and
  \<^verbatim>\<open>no-circular-chain\<close> (\<^verbatim>\<open>er_no_circular_chain.go\<close>) under \<^verbatim>\<open>internal/rules\<close>. Both
  run the same depth-first search, which gives up on a start node as soon as it meets a node of
  the recursion stack and then leaves the stack marks of the abandoned path behind. The search
  still reports something exactly when the relation has a cycle, and what it reports is one; but
  which cycles it reports, and how many, depends on the order in which the adjacency map is
  visited.
\<close>

section \<open>The search\<close>

record chain_search =
  chn_visited :: "gostring marks"
  chn_recStack :: "gostring marks"
  chn_cycles :: "gostring list"

fun joinPath :: "gostring list \<Rightarrow> gostring" where
  "joinPath [] = ''''"
| "joinPath (p # path) = fold (\<lambda>q result. result @ '' -> '' @ q) path p"

definition first_index :: "'a list \<Rightarrow> 'a \<Rightarrow> nat option" where
  "first_index xs x = find (\<lambda>i. xs ! i = x) [0..<length xs]"

definition chain_mark :: "gostring \<Rightarrow> chain_search \<Rightarrow> chain_search" where
  "chain_mark node st =
     st\<lparr>chn_visited := AList.update node True (chn_visited st),
        chn_recStack := AList.update node True (chn_recStack st)\<rparr>"

definition chain_unmark :: "gostring \<Rightarrow> chain_search \<Rightarrow> chain_search" where
  "chain_unmark node st = st\<lparr>chn_recStack := AList.update node False (chn_recStack st)\<rparr>"

definition chain_record :: "gostring list \<Rightarrow> gostring \<Rightarrow> chain_search \<Rightarrow> chain_search" where
  "chain_record path neighbor st =
     (case first_index path neighbor of
        Some cycleStart \<Rightarrow>
          st\<lparr>chn_cycles := chn_cycles st @ [joinPath (drop cycleStart path @ [neighbor])]\<rparr>
      | None \<Rightarrow> st)"

text \<open>
  The loop over the neighbours that are left, inside a call whose \<open>path\<close> ends in the current
  node; the result says whether the call returns early.
\<close>

function chain_edges ::
  "(gostring, gostring list) gomap \<Rightarrow> gostring list \<Rightarrow> gostring list \<Rightarrow> chain_search \<Rightarrow> bool \<times> chain_search" where
  "chain_edges adj path [] st = (False, st)"
| "chain_edges adj path (neighbor # neighbors) st =
     (if \<not> marked (chn_visited st) neighbor
      then let (found, st') = chain_edges adj (path @ [neighbor]) (adj_of adj neighbor) (chain_mark neighbor st)
           in if found then (True, st')
              else chain_edges adj path neighbors (chain_unmark neighbor st')
      else if marked (chn_recStack st) neighbor then (True, chain_record path neighbor st)
      else chain_edges adj path neighbors st)"
  by pat_completeness auto

lemma chain_mark_sel [simp]:
  "chn_visited (chain_mark x st) = AList.update x True (chn_visited st)"
  "chn_recStack (chain_mark x st) = AList.update x True (chn_recStack st)"
  "chn_cycles (chain_mark x st) = chn_cycles st"
  by (simp_all add: chain_mark_def)

lemma chain_unmark_sel [simp]:
  "chn_visited (chain_unmark x st) = chn_visited st"
  "chn_recStack (chain_unmark x st) = AList.update x False (chn_recStack st)"
  "chn_cycles (chain_unmark x st) = chn_cycles st"
  by (simp_all add: chain_unmark_def)

lemma chain_record_sel [simp]:
  "chn_visited (chain_record path x st) = chn_visited st"
  "chn_recStack (chain_record path x st) = chn_recStack st"
  by (simp_all add: chain_record_def split: option.split)

lemma chain_edges_visited_dom:
  "chain_edges_dom (adj, path, ns, st) \<Longrightarrow>
   marks_of (chn_visited st) \<subseteq> marks_of (chn_visited (snd (chain_edges adj path ns st)))"
proof (induction adj path ns st rule: chain_edges.pinduct)
  case (2 adj path n ns st)
  show ?case
  proof (cases "marked (chn_visited st) n")
    case True
    with 2 show ?thesis by (auto simp: chain_edges.psimps)
  next
    case False
    obtain found st' where inner: "chain_edges adj (path @ [n]) (adj_of adj n) (chain_mark n st) = (found, st')"
      by (meson surj_pair)
    have "marks_of (chn_visited st) \<subseteq> marks_of (chn_visited st')"
      using 2(2) [OF False] inner by auto
    moreover have "\<not> found \<Longrightarrow> marks_of (chn_visited st') \<subseteq>
        marks_of (chn_visited (snd (chain_edges adj path ns (chain_unmark n st'))))"
      using 2(3) [OF False inner [symmetric]] by simp
    ultimately show ?thesis using False 2(1) inner by (auto simp: chain_edges.psimps)
  qed
qed (simp add: chain_edges.psimps)

definition chain_open :: "(gostring, gostring list) gomap \<Rightarrow> gostring list \<Rightarrow> chain_search \<Rightarrow> gostring set" where
  "chain_open adj ns st = (set ns \<union> adj_range adj) - marks_of (chn_visited st)"

lemma finite_chain_open [simp]: "finite (chain_open adj ns st)"
  by (simp add: chain_open_def)

definition chain_rel where
  "chain_rel = inv_image (finite_psubset <*lex*> less_than) (\<lambda>(adj, path, ns, st). (chain_open adj ns st, length ns))"

lemma chain_rel_same:
  "marks_of (chn_visited st) \<subseteq> marks_of (chn_visited st') \<Longrightarrow>
   ((adj, path, ns, st'), (adj, path', n # ns, st)) \<in> chain_rel"
proof -
  assume "marks_of (chn_visited st) \<subseteq> marks_of (chn_visited st')"
  then have "chain_open adj ns st' \<subseteq> chain_open adj (n # ns) st" by (auto simp: chain_open_def)
  then show ?thesis by (auto simp: chain_rel_def finite_psubset_def)
qed

lemma chain_rel_inner:
  assumes "\<not> marked (chn_visited st) n"
  shows "((adj, path', adj_of adj n, chain_mark n st), (adj, path, n # ns, st)) \<in> chain_rel"
proof -
  have "chain_open adj (adj_of adj n) (chain_mark n st) \<subset> chain_open adj (n # ns) st"
    using assms adj_of_range [of adj n] by (auto simp: chain_open_def marked_iff)
  then show ?thesis by (simp add: chain_rel_def finite_psubset_def)
qed

termination chain_edges
proof (relation chain_rel)
  show "wf chain_rel" by (auto simp: chain_rel_def)
next
  fix adj path neighbor neighbors st x found st'
  assume "\<not> marked (chn_visited st) neighbor"
    and x: "x = chain_edges adj (path @ [neighbor]) (adj_of adj neighbor) (chain_mark neighbor st)"
    and p: "(found, st') = x"
    and dom: "chain_edges_dom (adj, path @ [neighbor], adj_of adj neighbor, chain_mark neighbor st)"
  have "st' = snd (chain_edges adj (path @ [neighbor]) (adj_of adj neighbor) (chain_mark neighbor st))"
    using x p by (metis snd_conv)
  with chain_edges_visited_dom [OF dom]
  have "marks_of (chn_visited st) \<subseteq> marks_of (chn_visited (chain_unmark neighbor st'))" by auto
  then show "((adj, path, neighbors, chain_unmark neighbor st'), adj, path, neighbor # neighbors, st) \<in> chain_rel"
    by (rule chain_rel_same)
qed (simp_all add: chain_rel_same chain_rel_inner)

definition chain_start ::
  "(gostring, gostring list) gomap \<Rightarrow> gostring \<Rightarrow> chain_search \<Rightarrow> chain_search" where
  "chain_start adj node st =
     (if marked (chn_visited st) node then st
      else let (found, st') = chain_edges adj [node] (adj_of adj node) (chain_mark node st)
           in if found then st' else chain_unmark node st')"

definition chain_cycles ::
  "(gostring list \<Rightarrow> gostring list) \<Rightarrow> (gostring, gostring list) gomap \<Rightarrow> gostring list" where
  "chain_cycles ord adj =
     chn_cycles (fold (chain_start adj) (ord (gm_keys adj))
       \<lparr>chn_visited = [], chn_recStack = [], chn_cycles = []\<rparr>)"

section \<open>Completeness of the search\<close>

text \<open>While nothing was found: the stack marks are the path, and what is finished is closed and acyclic.\<close>

definition chain_finished :: "gostring list \<Rightarrow> chain_search \<Rightarrow> gostring set" where
  "chain_finished path st = marks_of (chn_visited st) - set path"

definition chain_clean :: "(gostring \<times> gostring) set \<Rightarrow> gostring list \<Rightarrow> chain_search \<Rightarrow> bool" where
  "chain_clean R path st \<longleftrightarrow> chn_cycles st = [] \<and> marks_of (chn_recStack st) = set path
     \<and> set path \<subseteq> marks_of (chn_visited st)
     \<and> R `` chain_finished path st \<subseteq> chain_finished path st \<and> acyclic (R \<inter> chain_finished path st \<times> UNIV)"

lemma chain_clean_mark:
  "chain_clean R path st \<Longrightarrow> \<not> marked (chn_visited st) n \<Longrightarrow> chain_clean R (path @ [n]) (chain_mark n st)"
proof -
  assume *: "chain_clean R path st" "\<not> marked (chn_visited st) n"
  then have "chain_finished (path @ [n]) (chain_mark n st) = chain_finished path st"
    by (auto simp: chain_finished_def marked_iff)
  with * show ?thesis by (auto simp: chain_clean_def)
qed

lemma chain_clean_unmark:
  assumes "chain_clean R (path @ [n]) st" and "n \<notin> set path" and "R `` {n} \<subseteq> chain_finished (path @ [n]) st"
  shows "chain_clean R path (chain_unmark n st)"
proof -
  have "chain_finished path (chain_unmark n st) = insert n (chain_finished (path @ [n]) st)"
    using assms(1,2) by (auto simp: chain_finished_def chain_clean_def)
  moreover have "n \<notin> chain_finished (path @ [n]) st" by (simp add: chain_finished_def)
  ultimately show ?thesis
    using assms acyclic_insert_finished [of R "chain_finished (path @ [n]) st" n]
    by (auto simp: chain_clean_def)
qed

lemma first_index_Some:
  assumes "x \<in> set xs"
  shows "\<exists>i. first_index xs x = Some i"
  using assms by (cases "first_index xs x") (auto simp: first_index_def find_None_iff in_set_conv_nth)

lemma first_index_nth: "first_index xs x = Some i \<Longrightarrow> i < length xs \<and> xs ! i = x"
  unfolding first_index_def by (auto dest!: find_SomeD)

lemma chain_edges_clean:
  "chain_clean (succs adj) path st \<Longrightarrow> chain_edges adj path ns st = (found, st') \<Longrightarrow>
   marks_of (chn_visited st) \<subseteq> marks_of (chn_visited st') \<and>
   (if found then chn_cycles st' \<noteq> []
    else chain_clean (succs adj) path st' \<and> set ns \<subseteq> chain_finished path st')"
proof (induction adj path ns st arbitrary: found st' rule: chain_edges.induct)
  case (2 adj path n ns st)
  show ?case
  proof (cases "marked (chn_visited st) n")
    case visited: True
    show ?thesis
    proof (cases "marked (chn_recStack st) n")
      case True
      with 2(4) have "n \<in> set path" by (simp add: chain_clean_def marked_iff)
      then obtain i where "first_index path n = Some i" using first_index_Some by metis
      with visited True 2(5) show ?thesis by (auto simp: chain_record_def)
    next
      case False
      with visited 2(5) have "chain_edges adj path ns st = (found, st')" by simp
      note IH = 2(3) [OF _ False 2(4) this]
      have "n \<in> chain_finished path st"
        using visited False 2(4) by (simp add: chain_finished_def chain_clean_def marked_iff)
      with IH visited show ?thesis by (auto simp: chain_finished_def split: if_splits)
    qed
  next
    case new: False
    obtain found1 st1 where inner: "chain_edges adj (path @ [n]) (adj_of adj n) (chain_mark n st) = (found1, st1)"
      by (meson surj_pair)
    note IH1 = 2(1) [OF new chain_clean_mark [OF 2(4) new] inner]
    have np: "n \<notin> set path" using 2(4) new by (auto simp: chain_clean_def marked_iff)
    show ?thesis
    proof (cases found1)
      case True
      with 2(5) new inner IH1 show ?thesis by auto
    next
      case nf: False
      have "chain_clean (succs adj) path (chain_unmark n st1)"
        using IH1 nf np by (intro chain_clean_unmark) (auto simp: succs_def)
      moreover have "chain_edges adj path ns (chain_unmark n st1) = (found, st')"
        using 2(5) new inner nf by simp
      ultimately have IH2: "marks_of (chn_visited st1) \<subseteq> marks_of (chn_visited st') \<and>
          (if found then chn_cycles st' \<noteq> [] else chain_clean (succs adj) path st' \<and> set ns \<subseteq> chain_finished path st')"
        using 2(2) [OF new inner [symmetric] refl nf] by simp
      moreover have "n \<in> marks_of (chn_visited st1)" using IH1 by auto
      ultimately show ?thesis using IH1 np by (auto simp: chain_finished_def split: if_splits)
    qed
  qed
qed simp

lemma chain_start_clean:
  assumes "chain_clean (succs adj) [] st"
  shows "marks_of (chn_visited st) \<subseteq> marks_of (chn_visited (chain_start adj x st))
    \<and> x \<in> marks_of (chn_visited (chain_start adj x st))
    \<and> (chn_cycles (chain_start adj x st) = [] \<longrightarrow> chain_clean (succs adj) [] (chain_start adj x st))"
proof (cases "marked (chn_visited st) x")
  case False
  obtain found st' where inner: "chain_edges adj [x] (adj_of adj x) (chain_mark x st) = (found, st')"
    by (meson surj_pair)
  have "chain_clean (succs adj) [x] (chain_mark x st)" using chain_clean_mark [OF assms False] by simp
  note c = chain_edges_clean [OF this inner]
  have "chain_clean (succs adj) [] (chain_unmark x st')" if "\<not> found"
    using c that by (intro chain_clean_unmark) (auto simp: succs_def)
  with c False inner show ?thesis by (auto simp: chain_start_def)
qed (use assms in \<open>simp add: chain_start_def marked_iff\<close>)

section \<open>Soundness of the search\<close>

definition chain_sound :: "(gostring \<times> gostring) set \<Rightarrow> chain_search \<Rightarrow> bool" where
  "chain_sound R st \<longleftrightarrow> (\<forall>m\<in>set (chn_cycles st). \<exists>c. closed_walk R c \<and> distinct (butlast c) \<and> m = joinPath c)"

text \<open>The path of a call: a walk of distinct visited nodes.\<close>

definition chain_path :: "(gostring \<times> gostring) set \<Rightarrow> gostring list \<Rightarrow> chain_search \<Rightarrow> bool" where
  "chain_path R path st \<longleftrightarrow> walk R path \<and> distinct path \<and> set path \<subseteq> marks_of (chn_visited st)"

lemma chain_record_sound:
  assumes "chain_sound R st" and "chain_path R path st" and "(last path, n) \<in> R"
  shows "chain_sound R (chain_record path n st)"
proof (cases "first_index path n")
  case (Some i)
  then have i: "i < length path" "path ! i = n" using first_index_nth by metis+
  have "walk R (drop i path)" using walk_drop assms(2) i(1) by (auto simp: chain_path_def)
  then have "walk R (drop i path @ [n])" using assms(3) i(1) by (intro walk_snoc) auto
  then have "closed_walk R (drop i path @ [n])"
    using i by (simp add: closed_walk_def hd_append hd_drop_conv_nth)
  moreover have "distinct (butlast (drop i path @ [n]))" using assms(2) by (simp add: chain_path_def)
  ultimately show ?thesis using assms(1) Some by (auto simp: chain_sound_def chain_record_def)
qed (use assms in \<open>simp add: chain_record_def\<close>)

lemma chain_path_extend:
  assumes "chain_path R path st" and "(last path, n) \<in> R" and "\<not> marked (chn_visited st) n"
  shows "chain_path R (path @ [n]) (chain_mark n st)"
  using assms walk_snoc [of R path n] by (auto simp: chain_path_def marked_iff)

lemma chain_edges_sound:
  "chain_edges adj path ns st = (found, st') \<Longrightarrow>
   marks_of (chn_visited st) \<subseteq> marks_of (chn_visited st') \<and> (chn_cycles st \<noteq> [] \<longrightarrow> chn_cycles st' \<noteq> []) \<and>
   (chain_path (succs adj) path st \<and> set ns \<subseteq> set (adj_of adj (last path)) \<and> chain_sound (succs adj) st
     \<longrightarrow> chain_sound (succs adj) st')"
proof (induction adj path ns st arbitrary: found st' rule: chain_edges.induct)
  case (2 adj path n ns st)
  show ?case
  proof (cases "marked (chn_visited st) n")
    case visited: True
    show ?thesis
    proof (cases "marked (chn_recStack st) n")
      case True
      with visited 2(4) have st': "st' = chain_record path n st" by simp
      have "chn_cycles st \<noteq> [] \<Longrightarrow> chn_cycles st' \<noteq> []" by (simp add: st' chain_record_def split: option.split)
      then show ?thesis using chain_record_sound [of "succs adj" st path n] by (auto simp: st' succs_def)
    next
      case False
      with visited 2(4) have "chain_edges adj path ns st = (found, st')" by simp
      from 2(3) [OF _ False this] visited show ?thesis by auto
    qed
  next
    case new: False
    obtain found1 st1 where inner: "chain_edges adj (path @ [n]) (adj_of adj n) (chain_mark n st) = (found1, st1)"
      by (meson surj_pair)
    note IH1 = 2(1) [OF new inner]
    have sound1: "chain_sound (succs adj) st1"
      if "chain_path (succs adj) path st" "set (n # ns) \<subseteq> set (adj_of adj (last path))" "chain_sound (succs adj) st"
    proof -
      have "chain_path (succs adj) (path @ [n]) (chain_mark n st)"
        using chain_path_extend [OF that(1) _ new] that(2) by (auto simp: succs_def)
      then show ?thesis using IH1 that(3) by (simp add: chain_sound_def)
    qed
    show ?thesis
    proof (cases found1)
      case True
      with 2(4) new inner IH1 sound1 show ?thesis by auto
    next
      case nf: False
      then have "chain_edges adj path ns (chain_unmark n st1) = (found, st')" using 2(4) new inner by simp
      note IH2 = 2(2) [OF new inner [symmetric] refl nf this]
      have "chain_path (succs adj) path st \<Longrightarrow> chain_path (succs adj) path (chain_unmark n st1)"
        using IH1 by (auto simp: chain_path_def)
      moreover have "chain_sound (succs adj) st1 \<Longrightarrow> chain_sound (succs adj) (chain_unmark n st1)"
        by (simp add: chain_sound_def)
      moreover have "marks_of (chn_visited st) \<subseteq> marks_of (chn_visited st')"
        using IH1 IH2 by auto
      ultimately show ?thesis using IH1 IH2 sound1 by simp
    qed
  qed
qed auto

lemma chain_start_sound:
  assumes "chain_sound (succs adj) st"
  shows "chain_sound (succs adj) (chain_start adj x st)"
    and "chn_cycles st \<noteq> [] \<Longrightarrow> chn_cycles (chain_start adj x st) \<noteq> []"
proof -
  obtain found st' where inner: "chain_edges adj [x] (adj_of adj x) (chain_mark x st) = (found, st')"
    by (meson surj_pair)
  have "chain_path (succs adj) [x] (chain_mark x st)" by (simp add: chain_path_def)
  with chain_edges_sound [OF inner] assms
  show "chain_sound (succs adj) (chain_start adj x st)"
    and "chn_cycles st \<noteq> [] \<Longrightarrow> chn_cycles (chain_start adj x st) \<noteq> []"
    using inner by (auto simp: chain_start_def chain_sound_def)
qed

lemma chain_starts:
  fixes adj xs st defines "fin \<equiv> fold (chain_start adj) xs st"
  assumes "chain_sound (succs adj) st"
  shows "chain_sound (succs adj) fin \<and> (chn_cycles st \<noteq> [] \<longrightarrow> chn_cycles fin \<noteq> [])
    \<and> (chain_clean (succs adj) [] st \<and> chn_cycles fin = [] \<longrightarrow>
         chain_clean (succs adj) [] fin \<and> set xs \<union> marks_of (chn_visited st) \<subseteq> marks_of (chn_visited fin))"
  using assms(2) unfolding fin_def
proof (induction xs arbitrary: st)
  case (Cons x xs)
  let ?st = "chain_start adj x st"
  from Cons.IH [OF chain_start_sound(1) [OF Cons.prems]] chain_start_sound(2) [OF Cons.prems, of x]
    chain_start_clean [of adj st x]
  show ?case by (simp, blast)
qed simp

lemma chain_cycles_sound:
  assumes "m \<in> set (chain_cycles ord adj)"
  obtains c where "closed_walk (succs adj) c" and "distinct (butlast c)" and "m = joinPath c"
  using assms chain_starts [of adj "\<lparr>chn_visited = [], chn_recStack = [], chn_cycles = []\<rparr>" "ord (gm_keys adj)"]
  by (auto simp: chain_cycles_def chain_sound_def)

lemma chain_cycles_complete:
  assumes "iteration_order ord" and "chain_cycles ord adj = []"
  shows "acyclic (succs adj)"
proof -
  let ?start = "\<lparr>chn_visited = [], chn_recStack = [], chn_cycles = []\<rparr>"
  let ?fin = "fold (chain_start adj) (ord (gm_keys adj)) ?start"
  have "chain_sound (succs adj) ?start" "chain_clean (succs adj) [] ?start"
    by (simp_all add: chain_sound_def chain_clean_def chain_finished_def)
  with chain_starts [of adj ?start "ord (gm_keys adj)"] assms(2)
  have "chain_clean (succs adj) [] ?fin" and k: "set (ord (gm_keys adj)) \<subseteq> marks_of (chn_visited ?fin)"
    by (simp_all add: chain_cycles_def)
  moreover have "succs adj \<inter> chain_finished [] ?fin \<times> UNIV = succs adj"
    using k by (auto simp: succs_def chain_finished_def iteration_order_set [OF assms(1)] dest: adj_of_key)
  ultimately show ?thesis by (metis chain_clean_def)
qed

lemma chain_cycles_iff: "iteration_order ord \<Longrightarrow> chain_cycles ord adj = [] \<longleftrightarrow> acyclic (succs adj)"
  by (metis chain_cycles_complete chain_cycles_sound closed_walk_cyclic list.set_intros(1) neq_Nil_conv)

lemma fold_join: "fold (\<lambda>q result. result @ sep @ q) qs (r @ s) = r @ fold (\<lambda>q result. result @ sep @ q) qs s"
  by (induction qs arbitrary: s) simp_all

lemma joinPath_Join: "joinPath path = Join path '' -> ''"
proof (induction path rule: induct_list012)
  case (3 p q qs)
  have "joinPath (p # q # qs) = fold (\<lambda>q result. result @ '' -> '' @ q) qs ((p @ '' -> '') @ q)" by simp
  also have "\<dots> = p @ '' -> '' @ joinPath (q # qs)" unfolding fold_join by simp
  finally show ?case using 3(2) by simp
qed simp_all

section \<open>The rules\<close>

definition ClassNoCircularInheritance_Run ::
  "(gostring list \<Rightarrow> gostring list) \<Rightarrow> diagram \<Rightarrow> config \<Rightarrow> issue list" where
  "ClassNoCircularInheritance_Run ord d cfg =
     (let severity = EffectiveSeverity ''no-circular-inheritance'' cfg ''error'';
          adj = group_by edge_From edge_To (filter (\<lambda>edge. edge_Type edge = ''extension'') (diag_Edges d))
      in map (\<lambda>cycle. mk_issue ''no-circular-inheritance'' severity
                         (''circular inheritance detected: '' @ cycle) None None None)
           (chain_cycles ord adj))"

definition ClassNoCircularInheritance :: rule where
  "ClassNoCircularInheritance =
     \<lparr>rule_ID = ''no-circular-inheritance'', rule_Families = Some [DiagramFamilyClass],
      rule_Run = ClassNoCircularInheritance_Run\<rparr>"

definition ERNoCircularChain_Run ::
  "(gostring list \<Rightarrow> gostring list) \<Rightarrow> diagram \<Rightarrow> config \<Rightarrow> issue list" where
  "ERNoCircularChain_Run ord d cfg =
     (let severity = EffectiveSeverity ''no-circular-chain'' cfg ''error'';
          adj = group_by edge_From edge_To (filter (\<lambda>edge. edge_From edge \<noteq> edge_To edge) (diag_Edges d))
      in map (\<lambda>cycle. mk_issue ''no-circular-chain'' severity
                         (''circular entity relationship chain detected: '' @ cycle) None None None)
           (chain_cycles ord adj))"

definition ERNoCircularChain :: rule where
  "ERNoCircularChain =
     \<lparr>rule_ID = ''no-circular-chain'', rule_Families = Some [DiagramFamilyER],
      rule_Run = ERNoCircularChain_Run\<rparr>"

lemma chain_rules_sel [simp]:
  "rule_ID ClassNoCircularInheritance = ''no-circular-inheritance''"
  "rule_Run ClassNoCircularInheritance = ClassNoCircularInheritance_Run"
  "rule_ID ERNoCircularChain = ''no-circular-chain''"
  "rule_Run ERNoCircularChain = ERNoCircularChain_Run"
  by (simp_all add: ClassNoCircularInheritance_def ERNoCircularChain_def)

interpretation circular_inheritance_rule: lint_rule ClassNoCircularInheritance
  by (rule lint_ruleI) (auto simp: own_issues_def ClassNoCircularInheritance_Run_def)

interpretation circular_chain_rule: lint_rule ERNoCircularChain
  by (rule lint_ruleI) (auto simp: own_issues_def ERNoCircularChain_Run_def)

text \<open>The inheritance relation of a class diagram, and the relation of an ER diagram without self-references.\<close>

definition extends :: "diagram \<Rightarrow> (gostring \<times> gostring) set" where
  "extends d = {(edge_From e, edge_To e) | e. e \<in> set (diag_Edges d) \<and> edge_Type e = ''extension''}"

definition entity_chain :: "diagram \<Rightarrow> (gostring \<times> gostring) set" where
  "entity_chain d = {(edge_From e, edge_To e) | e. e \<in> set (diag_Edges d) \<and> edge_From e \<noteq> edge_To e}"

lemma succs_extends:
  "succs (group_by edge_From edge_To (filter (\<lambda>edge. edge_Type edge = ''extension'') (diag_Edges d))) = extends d"
  by (auto simp: succs_group_by extends_def)

lemma succs_entity_chain:
  "succs (group_by edge_From edge_To (filter (\<lambda>edge. edge_From edge \<noteq> edge_To edge) (diag_Edges d))) = entity_chain d"
  by (auto simp: succs_group_by entity_chain_def)

section \<open>Properties\<close>

text \<open>
  C9: whatever the map order, \<^verbatim>\<open>no-circular-inheritance\<close> is silent exactly when the
  extension edges have no cycle, and each of its messages lists the classes of a real cycle.
\<close>

theorem ClassNoCircularInheritance_correct:
  assumes "iteration_order ord"
  shows "(ClassNoCircularInheritance_Run ord d cfg = [] \<longleftrightarrow> acyclic (extends d)) \<and>
    (\<forall>i \<in> set (ClassNoCircularInheritance_Run ord d cfg). \<exists>c. closed_walk (extends d) c \<and> distinct (butlast c)
       \<and> iss_Message i = ''circular inheritance detected: '' @ Join c '' -> '')"
  unfolding ClassNoCircularInheritance_Run_def Let_def map_is_Nil_conv chain_cycles_iff [OF assms] succs_extends
  by (auto elim!: chain_cycles_sound simp: joinPath_Join succs_extends)

theorem ClassNoCircularInheritance_correct_witness:
  "let ext = (\<lambda>x y. (arrow x y)\<lparr>edge_Type := ''extension''\<rparr>);
       d = empty_diagram\<lparr>diag_Edges := [ext ''A'' ''B'', arrow ''B'' ''A'', ext ''B'' ''C'']\<rparr>
   in acyclic (extends d)"
proof -
  have "ClassNoCircularInheritance_Run rev (empty_diagram\<lparr>diag_Edges :=
      [(arrow ''A'' ''B'')\<lparr>edge_Type := ''extension''\<rparr>, arrow ''B'' ''A'', (arrow ''B'' ''C'')\<lparr>edge_Type := ''extension''\<rparr>]\<rparr>) [] = []"
    by code_simp
  then show ?thesis
    unfolding Let_def by (rule ClassNoCircularInheritance_correct [OF iteration_order_rev, THEN conjunct1, THEN iffD1])
qed

text \<open>
  Whatever the map order, \<^verbatim>\<open>no-circular-chain\<close> is silent exactly when the edges
  between distinct entities have no cycle, and each of its messages lists a real cycle.
\<close>

theorem ERNoCircularChain_correct:
  assumes "iteration_order ord"
  shows "(ERNoCircularChain_Run ord d cfg = [] \<longleftrightarrow> acyclic (entity_chain d)) \<and>
    (\<forall>i \<in> set (ERNoCircularChain_Run ord d cfg). \<exists>c. closed_walk (entity_chain d) c \<and> distinct (butlast c)
       \<and> iss_Message i = ''circular entity relationship chain detected: '' @ Join c '' -> '')"
  unfolding ERNoCircularChain_Run_def Let_def map_is_Nil_conv chain_cycles_iff [OF assms] succs_entity_chain
  by (auto elim!: chain_cycles_sound simp: joinPath_Join succs_entity_chain)

theorem ERNoCircularChain_correct_witness:
  "let d = empty_diagram\<lparr>diag_Edges := [arrow ''A'' ''A'', arrow ''A'' ''B'', arrow ''B'' ''A'']\<rparr>
   in \<not> acyclic (entity_chain d)"
proof -
  have "map iss_Message (ERNoCircularChain_Run rev
          (empty_diagram\<lparr>diag_Edges := [arrow ''A'' ''A'', arrow ''A'' ''B'', arrow ''B'' ''A'']\<rparr>) []) \<noteq> []"
    by code_simp
  then show ?thesis
    unfolding Let_def using ERNoCircularChain_correct [OF iteration_order_rev, THEN conjunct1] by blast
qed

text \<open>
  What the search does not promise: two visiting orders of the same map give different
  messages, and of two cycles through one entity only one is reported.
\<close>

lemma ERNoCircularChain_order_dependent:
  "map iss_Message (ERNoCircularChain_Run (\<lambda>ks. ks) (empty_diagram\<lparr>diag_Edges := [arrow ''A'' ''B'', arrow ''B'' ''A'']\<rparr>) [])
     = [''circular entity relationship chain detected: A -> B -> A'']"
  "map iss_Message (ERNoCircularChain_Run rev (empty_diagram\<lparr>diag_Edges := [arrow ''A'' ''B'', arrow ''B'' ''A'']\<rparr>) [])
     = [''circular entity relationship chain detected: B -> A -> B'']"
  by code_simp+

lemma ERNoCircularChain_misses_cycles:
  "map iss_Message (ERNoCircularChain_Run (\<lambda>ks. ks)
     (empty_diagram\<lparr>diag_Edges := [arrow ''A'' ''B'', arrow ''B'' ''A'', arrow ''A'' ''C'', arrow ''C'' ''A'']\<rparr>) [])
     = [''circular entity relationship chain detected: A -> B -> A'']"
  by code_simp

end
