(* ===== verification/Rules_Inheritance.thy ===== *)
theory Rules_Inheritance
  imports Rule_Config Graph
begin

text \<open>
  The rule \<^verbatim>\<open>max-inheritance-depth\<close>, \<^verbatim>\<open>internal/rules/class_max_inheritance_depth.go\<close>.
  The recursion of \<^verbatim>\<open>calculateInheritanceDepth\<close> explores every simple chain below a class; its
  result is the length of the longest one. The deferred reset of \<^verbatim>\<open>visited[node]\<close> restores the
  marks the caller had, so the marks are an argument here and not part of the result.
\<close>

section \<open>The recursion\<close>

definition depth_open :: "(gostring, gostring list) gomap \<Rightarrow> gostring marks \<Rightarrow> gostring \<Rightarrow> gostring set" where
  "depth_open adj visited node = insert node (adj_range adj) - marks_of visited"

function calculateInheritanceDepth ::
  "gostring \<Rightarrow> (gostring, gostring list) gomap \<Rightarrow> gostring marks \<Rightarrow> nat" where
  "calculateInheritanceDepth node adj visited =
     (if marked visited node then 0
      else let visited' = AList.update node True visited;
               maxChildDepth =
                 fold (\<lambda>childDepth maxChildDepth. if childDepth > maxChildDepth then childDepth else maxChildDepth)
                   (map (\<lambda>child. calculateInheritanceDepth child adj visited') (adj_of adj node)) 0
           in maxChildDepth + 1)"
  by pat_completeness auto
termination
proof (relation "inv_image finite_psubset (\<lambda>(node, adj, visited). depth_open adj visited node)")
  fix node :: gostring and adj :: "(gostring, gostring list) gomap" and visited x child
  assume "\<not> marked visited node" and x: "x = AList.update node True visited" and "child \<in> set (adj_of adj node)"
  then have "child \<in> adj_range adj" and "node \<notin> marks_of visited"
    using adj_of_range [of adj node] by (auto simp: marked_iff)
  then have "depth_open adj x child \<subset> depth_open adj visited node"
    unfolding x depth_open_def by auto
  then show "((child, adj, x), node, adj, visited)
      \<in> inv_image finite_psubset (\<lambda>(node, adj, visited). depth_open adj visited node)"
    by (simp add: finite_psubset_def depth_open_def)
qed auto

declare calculateInheritanceDepth.simps [simp del]

section \<open>The rule\<close>

definition defaultClassMaxInheritanceDepth :: int where
  "defaultClassMaxInheritanceDepth = 5"

text \<open>The number of parents of each class, keyed by the nodes and the ends of the extension edges.\<close>

definition parent_counts :: "diagram \<Rightarrow> (gostring, nat) gomap" where
  "parent_counts d =
     (let indegree = fold (\<lambda>node. put_absent (node_ID node) 0) (diag_Nodes d) []
      in fold (\<lambda>edge m. if edge_Type edge = ''extension''
                        then put_absent (edge_To edge) 0 (incr (edge_From edge) m) else m)
           (diag_Edges d) indegree)"

definition ClassMaxInheritanceDepth_Run ::
  "(gostring list \<Rightarrow> gostring list) \<Rightarrow> diagram \<Rightarrow> config \<Rightarrow> issue list" where
  "ClassMaxInheritanceDepth_Run ord d cfg =
     (let severity = EffectiveSeverity ''max-inheritance-depth'' cfg ''warning'';
          limit = limit_option cfg ''max-inheritance-depth'' defaultClassMaxInheritanceDepth;
          reverseAdj = group_by edge_To edge_From (filter (\<lambda>edge. edge_Type edge = ''extension'') (diag_Edges d));
          nodeByID = index_last node_ID (diag_Nodes d);
          roots = map fst (filter (\<lambda>(nodeID, degree). degree = 0) (range_map ord (parent_counts d)))
      in map (\<lambda>root.
                let node = (case map_of nodeByID root of None \<Rightarrow> zero_node | Some n \<Rightarrow> n)
                in mk_issue ''max-inheritance-depth'' severity
                     (''inheritance depth '' @ Itoa (int (calculateInheritanceDepth root reverseAdj [])) @
                      '' from '' @ Quote root @ '' exceeds limit '' @ Itoa limit)
                     (node_Line node) (node_Column node) None)
           (filter (\<lambda>root. int (calculateInheritanceDepth root reverseAdj []) > limit) roots))"

definition ClassMaxInheritanceDepth :: rule where
  "ClassMaxInheritanceDepth =
     \<lparr>rule_ID = ''max-inheritance-depth'', rule_Families = Some [DiagramFamilyClass],
      rule_Run = ClassMaxInheritanceDepth_Run\<rparr>"

section \<open>The recursion measures the longest chain\<close>

definition chain_from :: "('a \<times> 'a) set \<Rightarrow> 'a set \<Rightarrow> 'a \<Rightarrow> 'a list \<Rightarrow> bool" where
  "chain_from R V n p \<longleftrightarrow> walk R p \<and> hd p = n \<and> distinct p \<and> set p \<inter> V = {}"

lemma chain_from_Cons:
  "chain_from R V n (m # p) \<longleftrightarrow> m = n \<and> n \<notin> V \<and> (p = [] \<or> (n, hd p) \<in> R \<and> chain_from R (insert n V) (hd p) p)"
  by (cases p) (auto simp: chain_from_def walk_Cons)

lemma running_max: "fold (\<lambda>c m. if c > m then c else m) xs (m :: nat) = Max (set (m # xs))"
proof -
  have "(\<lambda>c m. if c > m then c else m) = (max :: nat \<Rightarrow> nat \<Rightarrow> nat)" by (auto simp: max_def fun_eq_iff)
  then show ?thesis by (simp only: Max.set_eq_fold)
qed

lemma calculateInheritanceDepth_longest:
  "\<not> marked visited n \<Longrightarrow>
     (\<exists>p. chain_from (succs adj) (marks_of visited) n p \<and> length p = calculateInheritanceDepth n adj visited) \<and>
     (\<forall>p. chain_from (succs adj) (marks_of visited) n p \<longrightarrow> length p \<le> calculateInheritanceDepth n adj visited)"
proof (induction n adj visited rule: calculateInheritanceDepth.induct)
  case (1 n adj visited)
  let ?V = "marks_of visited" and ?v = "AList.update n True visited" and ?R = "succs adj"
  let ?d = "\<lambda>c. calculateInheritanceDepth c adj ?v"
  have IH: "(\<exists>p. chain_from ?R (insert n ?V) c p \<and> length p = ?d c) \<and>
      (\<forall>p. chain_from ?R (insert n ?V) c p \<longrightarrow> length p \<le> ?d c)"
    if "(n, c) \<in> ?R" "c \<notin> insert n ?V" for c
    using 1(1) [OF 1(2) refl, of c] that by (simp add: marked_iff succs_def)
  have nV: "n \<notin> ?V" using 1(2) by (simp add: marked_iff)
  have stop: "?d c = 0" if "c \<in> insert n ?V" for c
    using that by (subst calculateInheritanceDepth.simps) (simp add: marked_iff)
  define M where "M = Max (insert 0 (?d ` set (adj_of adj n)))"
  have d: "calculateInheritanceDepth n adj visited = Suc M"
    using 1(2) by (subst calculateInheritanceDepth.simps) (simp add: running_max M_def Let_def)
  have "\<exists>p. chain_from ?R ?V n p \<and> length p = Suc M"
  proof (cases "M = 0")
    case True
    then show ?thesis using nV by (intro exI [of _ "[n]"]) (simp add: chain_from_Cons)
  next
    case False
    have "M \<in> insert 0 (?d ` set (adj_of adj n))" unfolding M_def by (rule Max_in) auto
    with False obtain c where c: "(n, c) \<in> ?R" "?d c = M" by (auto simp: succs_def)
    with stop False have "c \<notin> insert n ?V" by auto
    with IH c obtain p where "chain_from ?R (insert n ?V) c p" "length p = M" by metis
    moreover from this have "hd p = c" "p \<noteq> []" using False by (auto simp: chain_from_def)
    ultimately show ?thesis using nV c(1) by (intro exI [of _ "n # p"]) (simp add: chain_from_Cons)
  qed
  moreover have "length p \<le> Suc M" if p: "chain_from ?R ?V n p" for p
  proof (cases p)
    case (Cons m q)
    show ?thesis
    proof (cases "q = []")
      case False
      with p Cons have q: "(n, hd q) \<in> ?R" "chain_from ?R (insert n ?V) (hd q) q" by (auto simp: chain_from_Cons)
      with False have "hd q \<notin> insert n ?V" by (cases q) (auto simp: chain_from_def)
      with IH q have "length q \<le> ?d (hd q)" by blast
      also have "\<dots> \<le> M" unfolding M_def using q(1) by (intro Max_ge) (auto simp: succs_def)
      finally show ?thesis using Cons by simp
    qed (use Cons in simp)
  qed simp
  ultimately show ?case unfolding d by simp
qed

section \<open>The roots\<close>

lemma parent_counts_fold:
  fixes es m
  defines "f \<equiv> fold (\<lambda>edge m. if edge_Type edge = ''extension''
                        then put_absent (edge_To edge) 0 (incr (edge_From edge) m) else m)"
  shows "count_of (f es m) k = count_of m k + length (filter (\<lambda>e. edge_Type e = ''extension'' \<and> edge_From e = k) es)"
    and "set (gm_keys (f es m)) = set (gm_keys m) \<union>
          {x. \<exists>e\<in>set es. edge_Type e = ''extension'' \<and> (edge_From e = x \<or> edge_To e = x)}"
    and "distinct (gm_keys m) \<Longrightarrow> distinct (gm_keys (f es m))"
  unfolding f_def
  by (induction es arbitrary: m)
    (auto simp: put_absent_facts count_of_incr incr_def [THEN arg_cong, of gm_keys] set_gm_keys_update
      distinct_gm_keys_update)

lemma distinct_parent_counts: "distinct (gm_keys (parent_counts d))"
  unfolding parent_counts_def Let_def by (rule parent_counts_fold(3)) (simp add: zero_counts)

text \<open>The classes of the diagram that extend no other class, and the subclass relation below them.\<close>

definition base_classes :: "diagram \<Rightarrow> gostring set" where
  "base_classes d =
     {x \<in> node_ID ` set (diag_Nodes d) \<union> {edge_To e | e. e \<in> set (diag_Edges d) \<and> edge_Type e = ''extension''}.
        \<forall>e\<in>set (diag_Edges d). edge_Type e = ''extension'' \<longrightarrow> edge_From e \<noteq> x}"

definition subclasses :: "diagram \<Rightarrow> (gostring \<times> gostring) set" where
  "subclasses d = {(edge_To e, edge_From e) | e. e \<in> set (diag_Edges d) \<and> edge_Type e = ''extension''}"

lemma parent_counts_zero: "(x, 0) \<in> set (parent_counts d) \<longleftrightarrow> x \<in> base_classes d"
  unfolding count_of_in_set [OF distinct_parent_counts]
  by (auto simp: parent_counts_def Let_def parent_counts_fold zero_counts base_classes_def filter_empty_conv)

lemma succs_subclasses:
  "succs (group_by edge_To edge_From (filter (\<lambda>edge. edge_Type edge = ''extension'') (diag_Edges d))) = subclasses d"
  by (auto simp: succs_group_by subclasses_def)

text \<open>The number of classes on the longest chain of subclasses that starts at a class.\<close>

definition longest_chain :: "diagram \<Rightarrow> gostring \<Rightarrow> nat" where
  "longest_chain d x = Max {length p | p. chain_from (subclasses d) {} x p}"

lemma depth_longest_chain:
  "calculateInheritanceDepth x
     (group_by edge_To edge_From (filter (\<lambda>edge. edge_Type edge = ''extension'') (diag_Edges d))) [] = longest_chain d x"
  (is "?depth = _")
proof -
  from calculateInheritanceDepth_longest [of "[]" x
      "group_by edge_To edge_From (filter (\<lambda>edge. edge_Type edge = ''extension'') (diag_Edges d))"]
  have "\<exists>p. ?depth = length p \<and> chain_from (subclasses d) {} x p"
    and le: "\<And>p. chain_from (subclasses d) {} x p \<Longrightarrow> length p \<le> ?depth"
    by (auto simp: succs_subclasses eq_commute)
  moreover have "finite {length p | p. chain_from (subclasses d) {} x p}"
    by (rule finite_subset [of _ "{.. ?depth}"]) (auto dest: le)
  ultimately show ?thesis unfolding longest_chain_def by (intro Max_eqI [symmetric]) (blast dest: le)+
qed

lemma ClassMaxInheritanceDepth_order:
  "iteration_order ord \<Longrightarrow> iteration_order ord' \<Longrightarrow>
   mset (ClassMaxInheritanceDepth_Run ord d cfg) = mset (ClassMaxInheritanceDepth_Run ord' d cfg)"
  unfolding ClassMaxInheritanceDepth_Run_def Let_def
  by (simp add: mset_range_map distinct_parent_counts)

lemma ClassMaxInheritanceDepth_sel [simp]:
  "rule_ID ClassMaxInheritanceDepth = ''max-inheritance-depth''"
  "rule_Run ClassMaxInheritanceDepth = ClassMaxInheritanceDepth_Run"
  by (simp_all add: ClassMaxInheritanceDepth_def)

interpretation inheritance_depth_rule: deterministic_rule ClassMaxInheritanceDepth
proof (rule deterministic_ruleI)
  show "own_issues ClassMaxInheritanceDepth (rule_Run ClassMaxInheritanceDepth ord d cfg)" for ord d cfg
    by (auto simp: ClassMaxInheritanceDepth_Run_def Let_def own_issues_def)
qed (metis ClassMaxInheritanceDepth_order ClassMaxInheritanceDepth_sel(2))

section \<open>Property\<close>

text \<open>
  C10: the rule reports each base class once when the longest chain of subclasses below it has
  more classes than the limit, and no other class; the depth it prints is that longest length,
  also when the extension edges have cycles.
\<close>

theorem ClassMaxInheritanceDepth_exact:
  assumes "iteration_order ord"
  shows "\<exists>roots. distinct roots
    \<and> set roots = {x \<in> base_classes d. int (longest_chain d x) > limit_option cfg ''max-inheritance-depth'' 5}
    \<and> map iss_Message (ClassMaxInheritanceDepth_Run ord d cfg) =
        map (\<lambda>x. ''inheritance depth '' @ Itoa (int (longest_chain d x)) @ '' from '' @ Quote x @
                 '' exceeds limit '' @ Itoa (limit_option cfg ''max-inheritance-depth'' 5)) roots"
proof -
  let ?limit = "limit_option cfg ''max-inheritance-depth'' 5"
  let ?roots = "map fst (filter (\<lambda>(nodeID, degree). degree = 0) (range_map ord (parent_counts d)))"
  have "set ?roots = base_classes d"
    by (force simp: set_range_map [OF assms distinct_parent_counts] simp flip: parent_counts_zero)
  moreover have "distinct ?roots" by (rule distinct_zero_keys [OF assms distinct_parent_counts])
  ultimately show ?thesis
    by (intro exI [of _ "filter (\<lambda>x. int (longest_chain d x) > ?limit) ?roots"])
      (simp add: ClassMaxInheritanceDepth_Run_def Let_def depth_longest_chain defaultClassMaxInheritanceDepth_def comp_def)
qed

theorem ClassMaxInheritanceDepth_exact_witness:
  "let ext = (\<lambda>x y. (arrow x y)\<lparr>edge_Type := ''extension''\<rparr>);
       d = empty_diagram\<lparr>diag_Edges := [ext ''B'' ''A'', ext ''C'' ''B'']\<rparr>
   in \<exists>x\<in>base_classes d. longest_chain d x > 2"
proof -
  define d where "d = empty_diagram\<lparr>diag_Edges :=
    [(arrow ''B'' ''A'')\<lparr>edge_Type := ''extension''\<rparr>, (arrow ''C'' ''B'')\<lparr>edge_Type := ''extension''\<rparr>]\<rparr>"
  let ?cfg = "[(''max-inheritance-depth'', [(''limit'', VInt 2)])]"
  have "length (ClassMaxInheritanceDepth_Run rev d ?cfg) = 1" unfolding d_def by code_simp
  moreover have "limit_option ?cfg ''max-inheritance-depth'' 5 = 2" by code_simp
  ultimately have "\<exists>x\<in>base_classes d. longest_chain d x > 2"
    using ClassMaxInheritanceDepth_exact [OF iteration_order_rev, of d ?cfg]
    by (metis (no_types, lifting) length_0_conv length_map mem_Collect_eq nth_mem zero_less_one of_nat_numeral of_nat_less_iff)
  then show ?thesis by (simp add: d_def Let_def)
qed

end
