(* ===== verification/Sha256.thy ===== *)
theory Sha256
  imports Prelude "HOL-Library.Word"
begin

text \<open>
  The standard library function \<^verbatim>\<open>crypto/sha256.Sum256\<close> and \<^verbatim>\<open>encoding/hex.EncodeToString\<close>
  that the engine's fingerprints and the caches' keys use: SHA-256 as FIPS 180-4 defines it, on
  32-bit words, for messages of whole bytes.
\<close>

unbundle bit_operations_syntax

type_synonym w32 = "32 word"

definition rotr :: "nat \<Rightarrow> w32 \<Rightarrow> w32" where
  "rotr n x = drop_bit n x OR push_bit (32 - n) x"

definition sha_k :: "w32 list" where
  "sha_k =
    [
     1116352408, 1899447441, 3049323471, 3921009573, 961987163, 1508970993,
     2453635748, 2870763221, 3624381080, 310598401, 607225278, 1426881987,
     1925078388, 2162078206, 2614888103, 3248222580, 3835390401, 4022224774,
     264347078, 604807628, 770255983, 1249150122, 1555081692, 1996064986,
     2554220882, 2821834349, 2952996808, 3210313671, 3336571891, 3584528711,
     113926993, 338241895, 666307205, 773529912, 1294757372, 1396182291,
     1695183700, 1986661051, 2177026350, 2456956037, 2730485921, 2820302411,
     3259730800, 3345764771, 3516065817, 3600352804, 4094571909, 275423344,
     430227734, 506948616, 659060556, 883997877, 958139571, 1322822218,
     1537002063, 1747873779, 1955562222, 2024104815, 2227730452, 2361852424,
     2428436474, 2756734187, 3204031479, 3329325298]"

definition sha_init :: "w32 list" where
  "sha_init =
    [
     1779033703, 3144134277, 1013904242, 2773480762, 1359893119, 2600822924,
     528734635, 1541459225]"

text \<open>The message schedule, newest word first.\<close>

fun sha_extend :: "nat \<Rightarrow> w32 list \<Rightarrow> w32 list" where
  "sha_extend 0 ws = ws"
| "sha_extend (Suc n) ws =
     (let w15 = ws ! 14; w2 = ws ! 1;
          s0 = rotr 7 w15 XOR rotr 18 w15 XOR drop_bit 3 w15;
          s1 = rotr 17 w2 XOR rotr 19 w2 XOR drop_bit 10 w2
      in sha_extend n ((ws ! 15 + s0 + ws ! 6 + s1) # ws))"

fun sha_round :: "w32 list \<Rightarrow> w32 \<times> w32 \<Rightarrow> w32 list" where
  "sha_round [a, b, c, d, e, f, g, h] (k, w) =
     (let s1 = rotr 6 e XOR rotr 11 e XOR rotr 25 e;
          ch = (e AND f) XOR (NOT e AND g);
          t1 = h + s1 + ch + k + w;
          s0 = rotr 2 a XOR rotr 13 a XOR rotr 22 a;
          maj = (a AND b) XOR (a AND c) XOR (b AND c);
          t2 = s0 + maj
      in [t1 + t2, a, b, c, d + t1, e, f, g])"
| "sha_round st _ = st"

definition sha_block :: "w32 list \<Rightarrow> w32 list \<Rightarrow> w32 list" where
  "sha_block ws st =
     map2 (+) st (foldl sha_round st (zip sha_k (rev (sha_extend 48 (rev ws)))))"

definition be_bytes :: "nat \<Rightarrow> int \<Rightarrow> nat list" where
  "be_bytes n x = map (\<lambda>i. nat (x div 256 ^ i mod 256)) (rev [0..<n])"

definition sha_pad :: "nat list \<Rightarrow> nat list" where
  "sha_pad bs = bs @ [128] @ replicate ((119 - length bs mod 64) mod 64) 0 @ be_bytes 8 (8 * int (length bs))"

fun be_words :: "nat list \<Rightarrow> w32 list" where
  "be_words (a # b # c # d # bs) = (((of_nat a * 256 + of_nat b) * 256 + of_nat c) * 256 + of_nat d) # be_words bs"
| "be_words _ = []"

fun sha_blocks :: "nat \<Rightarrow> w32 list \<Rightarrow> w32 list \<Rightarrow> w32 list" where
  "sha_blocks 0 ws st = st"
| "sha_blocks (Suc n) ws st = sha_blocks n (drop 16 ws) (sha_block (take 16 ws) st)"

definition word_bytes :: "w32 \<Rightarrow> nat list" where
  "word_bytes w = map (\<lambda>i. unat (drop_bit i w AND 255)) [24, 16, 8, 0]"

definition Sum256 :: "gostring \<Rightarrow> gostring" where
  "Sum256 s =
     (let padded = sha_pad (map of_char s)
      in map char_of (concat (map word_bytes (sha_blocks (length padded div 64) (be_words padded) sha_init))))"

definition EncodeToString :: "gostring \<Rightarrow> gostring" where
  "EncodeToString s = concat (map (\<lambda>c. hex_byte (of_char c)) s)"

end
