(* ===== verification/Engine.thy ===== *)
theory Engine
  imports Rules_Flowchart Rules_Cycles Rules_Depth Rules_Other Rules_Reach Rules_Chain Rules_Inheritance
    Sha256 "HOL-Library.Product_Lexorder"
begin

text \<open>
  The lint engine: \<^verbatim>\<open>internal/engine/engine.go\<close>, \<^verbatim>\<open>instrumentation.go\<close> and
  \<^verbatim>\<open>internal/rules/rule_groups.go\<close>. Registration of rules (panics are values), the run of the
  registered rules over a diagram, comment and configuration suppressions, the stable sort, the
  removal of duplicates and the fingerprints. The wall-clock durations that go to the
  instrumentation sink are a parameter.
\<close>

section \<open>Rule groups\<close>

definition FlowchartRules :: "rule list" where
  "FlowchartRules = [NoDuplicateNodeIDs, NoDisconnectedNodes, MaxFanout, NoCycles, MaxDepth]"

definition SequenceRules :: "rule list" where
  "SequenceRules = [SequenceNoUndefinedActors, SequenceNoDuplicateActors, SequenceMaxNesting]"

definition ClassRules :: "rule list" where
  "ClassRules = [ClassNoCircularInheritance, ClassNoDuplicateClasses, ClassMaxInheritanceDepth]"

definition ERRules :: "rule list" where
  "ERRules = [ERNoCircularChain, ERNoSelfReferential]"

definition StateRules :: "rule list" where
  "StateRules = [StateNoCircularTransitions, StateNoUnreachable, StateMaxTransitions]"

section \<open>Registration\<close>

record rule_metrics =
  met_RuleID :: gostring
  met_Executions :: int
  met_IssuesEmitted :: int
  met_TotalDurationNS :: int

datatype sink = NoopInstrumentationSink | Sink gostring

record engine =
  eng_rules :: "rule list"
  eng_sink :: sink

datatype engine_panic =
    InvalidRegistration gostring rule_id_error
  | DuplicateRegistration gostring gostring gostring

text \<open>The registration loop: a panic, or the warnings it logs.\<close>

fun register_rules :: "rule list \<Rightarrow> (gostring, gostring) gomap \<Rightarrow> engine_panic + gostring list" where
  "register_rules [] seenRuleIDs = Inr []"
| "register_rules (registeredRule # rest) seenRuleIDs =
     (let ruleID = rule_ID registeredRule in
      case ValidateRegisteredRuleID ruleID of
        Inl err \<Rightarrow> Inl (InvalidRegistration ruleID err)
      | Inr warning \<Rightarrow>
          (let canonicalID = CanonicalRuleRegistrationID ruleID in
           case map_of seenRuleIDs canonicalID of
             Some existing \<Rightarrow> Inl (DuplicateRegistration existing ruleID canonicalID)
           | None \<Rightarrow>
               (case register_rules rest (AList.update canonicalID ruleID seenRuleIDs) of
                  Inl p \<Rightarrow> Inl p
                | Inr warnings \<Rightarrow> Inr ((if warning \<noteq> [] then [warning] else []) @ warnings))))"

definition NewWithRules :: "rule list \<Rightarrow> engine_panic + engine \<times> gostring list" where
  "NewWithRules registeredRules =
     (case register_rules registeredRules [] of
        Inl p \<Rightarrow> Inl p
      | Inr warnings \<Rightarrow> Inr (\<lparr>eng_rules = registeredRules, eng_sink = NoopInstrumentationSink\<rparr>, warnings))"

definition New :: "engine_panic + engine \<times> gostring list" where
  "New = NewWithRules (FlowchartRules @ SequenceRules @ ClassRules @ ERRules @ StateRules)"

definition SetInstrumentationSink :: "sink option \<Rightarrow> engine \<Rightarrow> engine" where
  "SetInstrumentationSink sink e =
     e\<lparr>eng_sink := (case sink of None \<Rightarrow> NoopInstrumentationSink | Some s \<Rightarrow> s)\<rparr>"

definition KnownRuleIDs :: "engine \<Rightarrow> gostring list" where
  "KnownRuleIDs e = gm_keys (key_set (map rule_ID (eng_rules e)))"

definition engine_NormalizeConfig ::
  "(gostring list \<Rightarrow> gostring list) \<Rightarrow> engine \<Rightarrow> config \<Rightarrow> config_error + config" where
  "engine_NormalizeConfig ord e cfg = NormalizeConfig ord cfg (KnownRuleIDs e)"

definition DiagramFamilies :: "engine \<Rightarrow> diagram_family list" where
  "DiagramFamilies e =
     (let families = concat (map (\<lambda>r. case rule_Families r of None \<Rightarrow> [] | Some fs \<Rightarrow> fs) (eng_rules e));
          present = key_set (filter (\<lambda>family. family \<noteq> DiagramFamilyUnknown) families)
      in filter (\<lambda>candidate. map_of present candidate \<noteq> None)
           [DiagramFamilyFlowchart, DiagramFamilySequence, DiagramFamilyClass, DiagramFamilyER, DiagramFamilyState])"

section \<open>Suppression comments\<close>

definition suppressionMatchesRule :: "gostring \<Rightarrow> gostring \<Rightarrow> bool" where
  "suppressionMatchesRule issueRuleID suppressedRuleID \<longleftrightarrow>
     suppressedRuleID = ''all'' \<or> suppressedRuleID = issueRuleID"

definition suppressionAppliesToContext :: "issue \<Rightarrow> suppression \<Rightarrow> bool" where
  "suppressionAppliesToContext issue suppression =
     (if sup_SubgraphID suppression = [] then True
      else case iss_Context issue of None \<Rightarrow> False | Some ctx \<Rightarrow> ctx_SubgraphID ctx = sup_SubgraphID suppression)"

fun isSuppressed :: "issue \<Rightarrow> suppression list \<Rightarrow> bool" where
  "isSuppressed issue [] = False"
| "isSuppressed issue (suppression # suppressions) =
     (if \<not> suppressionMatchesRule (iss_RuleID issue) (sup_RuleID suppression) then isSuppressed issue suppressions
      else if sup_Scope suppression = ''file'' then
        (if suppressionAppliesToContext issue suppression then True else isSuppressed issue suppressions)
      else if sup_Scope suppression = ''next-line'' then
        (if iss_Line issue = Some (sup_TargetLine suppression) \<and> suppressionAppliesToContext issue suppression
         then True else isSuppressed issue suppressions)
      else isSuppressed issue suppressions)"

definition applySuppressions :: "issue list \<Rightarrow> suppression list \<Rightarrow> issue list" where
  "applySuppressions issues suppressions =
     (if length suppressions = 0 then issues
      else filter (\<lambda>issue. \<not> isSuppressed issue suppressions) issues)"

section \<open>Configured selectors\<close>

definition suppressionSelectorsForRule :: "config \<Rightarrow> gostring \<Rightarrow> gostring list" where
  "suppressionSelectorsForRule cfg ruleID =
     (case map_of cfg ruleID of
        None \<Rightarrow> []
      | Some ruleCfg \<Rightarrow>
          (case map_of ruleCfg ''suppression-selectors'' of
             Some (VStrings selectors) \<Rightarrow> selectors
           | Some (VList selectors) \<Rightarrow>
               List.map_filter (\<lambda>v. case v of VString value \<Rightarrow> Some value | _ \<Rightarrow> None) selectors
           | _ \<Rightarrow> []))"

definition applySelectorMatchPrecedence :: "bool \<Rightarrow> bool \<Rightarrow> bool \<Rightarrow> bool \<times> bool" where
  "applySelectorMatchPrecedence negated matchedInclude matchedExclude =
     (if negated then (matchedInclude, True) else (True, matchedExclude))"

definition suppressionSelectorPrefixes :: "gostring list" where
  "suppressionSelectorPrefixes = [''node'', ''subgraph'', ''rule'']"

definition parseSelector :: "gostring \<Rightarrow> suppression_selector option" where
  "parseSelector raw =
     (case ParseSuppressionSelector raw of
        None \<Rightarrow> None
      | Some parsed \<Rightarrow> if sel_Prefix parsed \<in> set suppressionSelectorPrefixes then Some parsed else None)"

definition buildNodeLineIndex :: "diagram \<Rightarrow> (int, gostring list) gomap" where
  "buildNodeLineIndex d =
     fold (\<lambda>node index. case node_Line node of None \<Rightarrow> index | Some line \<Rightarrow> push line (node_ID node) index)
       (diag_Nodes d) []"

text \<open>
  The regular expressions over messages: the captured node identifier. The first one's class
  excludes only the quote; the dot of the others does not match a line feed and their \<^verbatim>\<open>$\<close> is the
  end of the text.
\<close>

definition maxFanoutNodePattern :: "gostring \<Rightarrow> gostring option" where
  "maxFanoutNodePattern message =
     (let opening = ''node '' @ [CHR 0x22] in
      if \<not> HasPrefix message opening then None
      else let rest = drop (length opening) message;
               name = takeWhile (\<lambda>c. c \<noteq> CHR 0x22) rest
           in if name \<noteq> [] \<and> HasPrefix (drop (length name) rest) ([CHR 0x22] @ '' has fanout'')
              then Some name else None)"

definition rest_of_line :: "gostring \<Rightarrow> gostring \<Rightarrow> gostring option" where
  "rest_of_line opening message =
     (if \<not> HasPrefix message opening then None
      else let rest = drop (length opening) message
           in if rest \<noteq> [] \<and> CHR 0x0A \<notin> set rest then Some rest else None)"

definition linkedNodeIDs :: "issue \<Rightarrow> (int, gostring list) gomap \<Rightarrow> gostring list" where
  "linkedNodeIDs issue nodeLineIndex =
     (case Option.bind (iss_Line issue) (map_of nodeLineIndex) of
        Some ids \<Rightarrow> ids
      | None \<Rightarrow>
          (case maxFanoutNodePattern (iss_Message issue) of
             Some m \<Rightarrow> [m]
           | None \<Rightarrow>
               (case rest_of_line ''node is disconnected: '' (iss_Message issue) of
                  Some m \<Rightarrow> [m]
                | None \<Rightarrow>
                    (case rest_of_line ''duplicate node ID: '' (iss_Message issue) of
                       Some m \<Rightarrow> [m]
                     | None \<Rightarrow> []))))"

definition selector_matches :: "issue \<Rightarrow> (int, gostring list) gomap \<Rightarrow> suppression_selector \<Rightarrow> bool" where
  "selector_matches issue nodeLineIndex parsed =
     (if sel_Prefix parsed = ''rule'' then iss_RuleID issue = sel_Value parsed
      else if sel_Prefix parsed = ''subgraph'' then
        (case iss_Context issue of None \<Rightarrow> False | Some ctx \<Rightarrow> ctx_SubgraphID ctx = sel_Value parsed)
      else if sel_Prefix parsed = ''node'' then sel_Value parsed \<in> set (linkedNodeIDs issue nodeLineIndex)
      else False)"

definition issueMatchesAnySelector :: "issue \<Rightarrow> gostring list \<Rightarrow> (int, gostring list) gomap \<Rightarrow> bool" where
  "issueMatchesAnySelector issue selectors nodeLineIndex =
     (let (matchedInclude, matchedExclude) =
        fold (\<lambda>raw (matchedInclude, matchedExclude).
                case parseSelector raw of
                  None \<Rightarrow> (matchedInclude, matchedExclude)
                | Some parsed \<Rightarrow>
                    if \<not> selector_matches issue nodeLineIndex parsed then (matchedInclude, matchedExclude)
                    else applySelectorMatchPrecedence (sel_Negated parsed) matchedInclude matchedExclude)
          selectors (False, False)
      in matchedInclude \<and> \<not> matchedExclude)"

definition applyConfigSelectors :: "issue list \<Rightarrow> diagram \<Rightarrow> config \<Rightarrow> issue list" where
  "applyConfigSelectors issues d cfg =
     (let nodeLineIndex = buildNodeLineIndex d
      in filter (\<lambda>issue.
           let selectors = suppressionSelectorsForRule cfg (iss_RuleID issue)
           in length selectors = 0 \<or> \<not> issueMatchesAnySelector issue selectors nodeLineIndex) issues)"

section \<open>Sorting, duplicates and fingerprints\<close>

definition compareIntPtr :: "int option \<Rightarrow> int option \<Rightarrow> int" where
  "compareIntPtr left right =
     (case (left, right) of
        (None, None) \<Rightarrow> 0
      | (None, Some _) \<Rightarrow> 1
      | (Some _, None) \<Rightarrow> - 1
      | (Some l, Some r) \<Rightarrow> if l < r then - 1 else if l > r then 1 else 0)"

definition compareIssueContext :: "issue_context option \<Rightarrow> issue_context option \<Rightarrow> int" where
  "compareIssueContext left right =
     (case (left, right) of
        (None, None) \<Rightarrow> 0
      | (None, Some _) \<Rightarrow> 1
      | (Some _, None) \<Rightarrow> - 1
      | (Some l, Some r) \<Rightarrow>
          if ctx_SubgraphID l < ctx_SubgraphID r then - 1
          else if ctx_SubgraphID l > ctx_SubgraphID r then 1
          else if ctx_SubgraphLabel l < ctx_SubgraphLabel r then - 1
          else if ctx_SubgraphLabel l > ctx_SubgraphLabel r then 1
          else 0)"

definition severityPriority :: "gostring \<Rightarrow> int" where
  "severityPriority severity =
     (if severity = ''error'' then 0
      else if severity = ''warning'' \<or> severity = ''warn'' then 1
      else if severity = ''info'' then 2
      else 3)"

definition issue_less :: "issue \<Rightarrow> issue \<Rightarrow> bool" where
  "issue_less left right =
     (if severityPriority (iss_Severity left) \<noteq> severityPriority (iss_Severity right)
      then severityPriority (iss_Severity left) < severityPriority (iss_Severity right)
      else if iss_RuleID left \<noteq> iss_RuleID right then iss_RuleID left < iss_RuleID right
      else if compareIntPtr (iss_Line left) (iss_Line right) \<noteq> 0
      then compareIntPtr (iss_Line left) (iss_Line right) < 0
      else if compareIntPtr (iss_Column left) (iss_Column right) \<noteq> 0
      then compareIntPtr (iss_Column left) (iss_Column right) < 0
      else if compareIssueContext (iss_Context left) (iss_Context right) \<noteq> 0
      then compareIssueContext (iss_Context left) (iss_Context right) < 0
      else iss_Message left < iss_Message right)"

definition sortIssues :: "issue list \<Rightarrow> issue list" where
  "sortIssues issues = SliceStable issue_less issues"

definition sameIssue :: "issue \<Rightarrow> issue \<Rightarrow> bool" where
  "sameIssue left right \<longleftrightarrow>
     iss_RuleID left = iss_RuleID right \<and> iss_Severity left = iss_Severity right \<and>
     iss_Message left = iss_Message right \<and>
     compareIntPtr (iss_Line left) (iss_Line right) = 0 \<and>
     compareIntPtr (iss_Column left) (iss_Column right) = 0 \<and>
     compareIssueContext (iss_Context left) (iss_Context right) = 0"

definition dedupeIssues :: "issue list \<Rightarrow> issue list" where
  "dedupeIssues issues =
     foldl (\<lambda>result issue. if length result > 0 \<and> sameIssue (last result) issue then result else result @ [issue])
       [] issues"

definition intValue :: "int option \<Rightarrow> int" where
  "intValue value = (case value of None \<Rightarrow> - 1 | Some v \<Rightarrow> v)"

definition issue_signature :: "issue \<Rightarrow> gostring" where
  "issue_signature issue =
     (let (contextID, contextLabel) =
        (case iss_Context issue of None \<Rightarrow> ([], []) | Some ctx \<Rightarrow> (ctx_SubgraphID ctx, ctx_SubgraphLabel ctx))
      in Join [iss_RuleID issue, iss_Severity issue, iss_Message issue, Itoa (intValue (iss_Line issue)),
               Itoa (intValue (iss_Column issue)), contextID, contextLabel] ''|'')"

definition issueFingerprint :: "issue \<Rightarrow> gostring" where
  "issueFingerprint issue = EncodeToString (Sum256 (issue_signature issue))"

definition populateFingerprints :: "issue list \<Rightarrow> issue list" where
  "populateFingerprints issues = map (\<lambda>issue. issue\<lparr>iss_Fingerprint := issueFingerprint issue\<rparr>) issues"

section \<open>The run\<close>

definition unsupportedDiagramTypeIssue :: "diagram \<Rightarrow> issue" where
  "unsupportedDiagramTypeIssue d =
     mk_issue ''unsupported-diagram-type'' ''info''
       (''diagram type '' @ [CHR 0x22] @ diag_Type d @ [CHR 0x22] @ '' is parsed but lint rules are not available yet'')
       None None None"

text \<open>The rules that run, each with its findings, in registration order.\<close>

definition run_rules ::
  "(gostring list \<Rightarrow> gostring list) \<Rightarrow> rule list \<Rightarrow> diagram \<Rightarrow> config \<Rightarrow> (gostring \<times> issue list) list" where
  "run_rules ord rs d normalizedCfg =
     List.map_filter (\<lambda>r.
       if \<not> SupportsDiagramFamily r (Family (diag_Type d)) then None
       else if \<not> RuleEnabled (rule_ID r) normalizedCfg then None
       else Some (rule_ID r, rule_Run r ord d normalizedCfg)) rs"

definition finish_issues :: "issue list \<Rightarrow> diagram \<Rightarrow> config \<Rightarrow> issue list" where
  "finish_issues issues d normalizedCfg =
     (if length issues = 0 then []
      else let issues = applySuppressions issues (diag_Suppressions d) in
        if length issues = 0 then []
        else let issues = applyConfigSelectors issues d normalizedCfg in
          if length issues = 0 then []
          else populateFingerprints (dedupeIssues (sortIssues issues)))"

text \<open>
  The findings and the metrics emitted; \<open>duration\<close> gives the measured time of each rule. A nil
  diagram and an invalid configuration give no findings.
\<close>

definition RunWithInstrumentation ::
  "(gostring list \<Rightarrow> gostring list) \<Rightarrow> (gostring \<Rightarrow> int) \<Rightarrow> engine \<Rightarrow> diagram option \<Rightarrow> config
     \<Rightarrow> issue list \<times> rule_metrics list" where
  "RunWithInstrumentation ord duration e diag cfg =
     (case diag of
        None \<Rightarrow> ([], [])
      | Some d \<Rightarrow>
          (case engine_NormalizeConfig ord e cfg of
             Inl err \<Rightarrow> ([], [])
           | Inr normalizedCfg \<Rightarrow>
               if Family (diag_Type d) = DiagramFamilyUnknown then ([unsupportedDiagramTypeIssue d], [])
               else
                 let results = run_rules ord (eng_rules e) d normalizedCfg
                 in (finish_issues (concat (map snd results)) d normalizedCfg,
                     map (\<lambda>(ruleID, ruleIssues).
                            \<lparr>met_RuleID = ruleID, met_Executions = 1, met_IssuesEmitted = int (length ruleIssues),
                             met_TotalDurationNS = duration ruleID\<rparr>) results)))"

text \<open>The method \<^verbatim>\<open>Run\<close> sends the metrics to the engine's own sink.\<close>

definition Run ::
  "(gostring list \<Rightarrow> gostring list) \<Rightarrow> (gostring \<Rightarrow> int) \<Rightarrow> engine \<Rightarrow> diagram option \<Rightarrow> config
     \<Rightarrow> issue list \<times> (sink \<times> rule_metrics list)" where
  "Run ord duration e diag cfg =
     (let (issues, metrics) = RunWithInstrumentation ord duration e diag cfg
      in (issues, (eng_sink e, metrics)))"

section \<open>The order of findings\<close>

definition nil_last :: "int option \<Rightarrow> nat \<times> int" where
  "nil_last x = (case x of None \<Rightarrow> (1, 0) | Some i \<Rightarrow> (0, i))"

definition context_key :: "issue_context option \<Rightarrow> nat \<times> gostring \<times> gostring" where
  "context_key x = (case x of None \<Rightarrow> (1, [], []) | Some c \<Rightarrow> (0, ctx_SubgraphID c, ctx_SubgraphLabel c))"

text \<open>The sort key: severity, rule, line and column (absent last), context (absent last), message.\<close>

definition issue_key ::
  "issue \<Rightarrow> int \<times> gostring \<times> (nat \<times> int) \<times> (nat \<times> int) \<times> (nat \<times> gostring \<times> gostring) \<times> gostring" where
  "issue_key i = (severityPriority (iss_Severity i), iss_RuleID i, nil_last (iss_Line i), nil_last (iss_Column i),
     context_key (iss_Context i), iss_Message i)"

lemma compareIntPtr_key:
  "compareIntPtr a b = 0 \<longleftrightarrow> nil_last a = nil_last b" "compareIntPtr a b < 0 \<longleftrightarrow> nil_last a < nil_last b"
  by (auto simp: compareIntPtr_def nil_last_def split: option.splits)

lemma compareIssueContext_key:
  "compareIssueContext a b = 0 \<longleftrightarrow> context_key a = context_key b"
  "compareIssueContext a b < 0 \<longleftrightarrow> context_key a < context_key b"
  by (auto simp: compareIssueContext_def context_key_def split: option.splits)

lemma issue_less_key: "issue_less a b \<longleftrightarrow> issue_key a < issue_key b"
  by (auto simp: issue_less_def issue_key_def compareIntPtr_key compareIssueContext_key)

lemma sortIssues_sort_key: "sortIssues issues = sort_key issue_key issues"
  unfolding sortIssues_def by (rule SliceStable_sort_key) (rule issue_less_key)

lemma sameIssue_key: "sameIssue a b \<longleftrightarrow> issue_key a = issue_key b \<and> iss_Severity a = iss_Severity b"
  by (auto simp: sameIssue_def issue_key_def compareIntPtr_key compareIssueContext_key)

end
