(* ===== verification/Engine_Props.thy ===== *)
theory Engine_Props
  imports Engine
begin

text \<open>
  What the engine promises: the output is strictly ordered by the sort key, contains exactly the
  findings of the enabled rules that no comment and no selector suppresses, and does not depend
  on map orders as long as the rules that run do not. The rule contract enters through the locale
  \<open>rule_set\<close>, interpreted on the default rules.
\<close>

section \<open>Findings before the engine fills in fingerprints\<close>

definition raw_issue :: "issue \<Rightarrow> bool" where
  "raw_issue i \<longleftrightarrow> iss_Severity i \<in> set allowedSeverities \<and> iss_Fingerprint i = []"

lemma severityPriority_inj:
  "a \<in> set allowedSeverities \<Longrightarrow> b \<in> set allowedSeverities \<Longrightarrow> severityPriority a = severityPriority b \<Longrightarrow> a = b"
  by (auto simp: allowedSeverities_def severityPriority_def)

lemma nil_last_inj: "nil_last a = nil_last b \<Longrightarrow> a = b"
  by (auto simp: nil_last_def split: option.splits)

lemma context_key_inj: "context_key a = context_key b \<Longrightarrow> a = b"
  by (auto simp: context_key_def split: option.splits)

lemma raw_issue_key_inj: "raw_issue a \<Longrightarrow> raw_issue b \<Longrightarrow> issue_key a = issue_key b \<Longrightarrow> a = b"
  by (auto simp: raw_issue_def issue_key_def
      dest: severityPriority_inj nil_last_inj context_key_inj intro!: issue.equality)

lemma sameIssue_raw: "raw_issue a \<Longrightarrow> raw_issue b \<Longrightarrow> sameIssue a b \<longleftrightarrow> a = b"
  by (auto simp: sameIssue_key raw_issue_key_inj)

section \<open>Duplicates\<close>

lemma dedupe_fold:
  assumes "\<forall>a\<in>set (res @ xs). raw_issue a" and "res \<noteq> []"
  shows "foldl (\<lambda>result issue. if length result > 0 \<and> sameIssue (last result) issue then result else result @ [issue]) res xs
    = butlast res @ remdups_adj (last res # xs)"
  using assms
proof (induction xs arbitrary: res)
  case (Cons x xs)
  show ?case
  proof (cases "x = last res")
    case True
    have "sameIssue (last res) x" using Cons.prems True by (simp add: sameIssue_raw)
    with Cons True show ?thesis by simp
  next
    case False
    then have "\<not> sameIssue (last res) x" using Cons.prems by (simp add: sameIssue_raw)
    with Cons.prems False Cons.IH [of "res @ [x]"] show ?thesis by (simp flip: append_butlast_last_id)
  qed
qed simp

lemma dedupeIssues_remdups_adj:
  assumes "\<forall>a\<in>set xs. raw_issue a"
  shows "dedupeIssues xs = remdups_adj xs"
proof (cases xs)
  case (Cons x ys)
  with dedupe_fold [of "[x]" ys] assms show ?thesis by (simp add: dedupeIssues_def)
qed (simp add: dedupeIssues_def)

lemma sorted_remdups_adj_strict:
  fixes key :: "'a \<Rightarrow> 'b :: linorder"
  assumes "sorted (map key xs)" and "inj_on key (set xs)"
  shows "sorted_wrt (\<lambda>a b. key a < key b) (remdups_adj xs)"
  using assms
proof (induction xs rule: remdups_adj.induct)
  case (3 x y xs)
  show ?case
  proof (cases "x = y")
    case False
    have "key x < key y" using 3(3,4) False by (auto simp: order.strict_iff_order dest: inj_onD)
    moreover have "\<forall>z\<in>set xs. key y \<le> key z" using 3(3) by simp
    moreover have "sorted_wrt (\<lambda>a b. key a < key b) (remdups_adj (y # xs))"
      using 3(2) [OF False] 3(3,4) by (auto intro: inj_on_subset)
    ultimately show ?thesis using False by (auto dest: order.strict_trans2)
  qed (use 3 in \<open>auto intro: inj_on_subset\<close>)
qed simp_all

lemma sort_key_mset_cong:
  assumes "mset xs = mset ys" and "inj_on key (set xs)"
  shows "sort_key (key :: 'a \<Rightarrow> 'b :: linorder) xs = sort_key key ys"
proof -
  have sorted: "map key (sort_key key zs) = sort (map key zs)" for zs
    by (rule properties_for_sort [symmetric]) simp_all
  have "map key (sort_key key xs) = map key (sort_key key ys)"
    unfolding sorted using assms(1) by (intro sort_mset_cong) simp
  moreover have "inj_on key (set (sort_key key xs) \<union> set (sort_key key ys))"
    using assms by (metis mset_eq_setD set_sort sup.idem)
  ultimately show ?thesis by (metis map_inj_on)
qed

section \<open>The last phase of a run\<close>

definition kept :: "diagram \<Rightarrow> config \<Rightarrow> issue \<Rightarrow> bool" where
  "kept d cfg i \<longleftrightarrow> \<not> isSuppressed i (diag_Suppressions d) \<and>
     \<not> issueMatchesAnySelector i (suppressionSelectorsForRule cfg (iss_RuleID i)) (buildNodeLineIndex d)"

lemma issueMatchesAnySelector_Nil [simp]: "\<not> issueMatchesAnySelector i [] idx"
  by (simp add: issueMatchesAnySelector_def)

lemma isSuppressed_Nil [simp]: "\<not> isSuppressed i []" by simp

lemma finish_issues_eq:
  "finish_issues issues d cfg =
     populateFingerprints (dedupeIssues (sortIssues (filter (kept d cfg) issues)))"
proof -
  have s: "applySuppressions xs sups = filter (\<lambda>i. \<not> isSuppressed i sups) xs" for xs sups
    by (simp add: applySuppressions_def)
  have c: "applyConfigSelectors xs d cfg = filter (\<lambda>i. \<not> issueMatchesAnySelector i
      (suppressionSelectorsForRule cfg (iss_RuleID i)) (buildNodeLineIndex d)) xs" for xs
    by (auto simp: applyConfigSelectors_def Let_def intro!: filter_cong)
  have e: "populateFingerprints (dedupeIssues (sortIssues [])) = []"
    by (simp add: populateFingerprints_def dedupeIssues_def sortIssues_def SliceStable_def)
  have f: "filter (kept d cfg) issues = applyConfigSelectors (applySuppressions issues (diag_Suppressions d)) d cfg"
    unfolding s c by (auto simp: kept_def conj_commute intro!: filter_cong)
  have "applySuppressions [] sups = []" "applyConfigSelectors [] d cfg = []" for sups by (simp_all add: s c)
  then show ?thesis unfolding f finish_issues_def Let_def by (auto simp: e)
qed

lemma finish_issues_raw:
  assumes "\<forall>i\<in>set issues. raw_issue i"
  shows "finish_issues issues d cfg =
    map (\<lambda>i. i\<lparr>iss_Fingerprint := issueFingerprint i\<rparr>) (remdups_adj (sort_key issue_key (filter (kept d cfg) issues)))"
  unfolding finish_issues_eq sortIssues_sort_key populateFingerprints_def
  using assms by (simp add: dedupeIssues_remdups_adj)

lemma raw_inj_on: "\<forall>i\<in>A. raw_issue i \<Longrightarrow> inj_on issue_key A"
  by (auto intro!: inj_onI raw_issue_key_inj)

lemma issue_key_fingerprint [simp]: "issue_key (i\<lparr>iss_Fingerprint := f\<rparr>) = issue_key i"
  by (simp add: issue_key_def)

lemma finish_issues_sorted:
  assumes "\<forall>i\<in>set issues. raw_issue i"
  shows "sorted_wrt (\<lambda>a b. issue_key a < issue_key b) (finish_issues issues d cfg)"
proof -
  have "sorted_wrt (\<lambda>a b. issue_key a < issue_key b) (remdups_adj (sort_key issue_key (filter (kept d cfg) issues)))"
    using assms by (intro sorted_remdups_adj_strict) (auto intro!: raw_inj_on)
  then show ?thesis unfolding finish_issues_raw [OF assms] by (simp add: sorted_wrt_map)
qed

lemma set_finish_issues:
  assumes "\<forall>i\<in>set issues. raw_issue i"
  shows "set (finish_issues issues d cfg) =
    (\<lambda>i. i\<lparr>iss_Fingerprint := issueFingerprint i\<rparr>) ` {i \<in> set issues. kept d cfg i}"
  unfolding finish_issues_raw [OF assms] by simp

lemma finish_issues_mset:
  assumes "\<forall>i\<in>set issues. raw_issue i" and "mset issues = mset issues'"
  shows "finish_issues issues d cfg = finish_issues issues' d cfg"
proof -
  have "\<forall>i\<in>set issues'. raw_issue i" using assms by (metis mset_eq_setD)
  moreover have "sort_key issue_key (filter (kept d cfg) issues) = sort_key issue_key (filter (kept d cfg) issues')"
    using assms by (intro sort_key_mset_cong) (auto intro!: raw_inj_on)
  ultimately show ?thesis using assms(1) by (simp add: finish_issues_raw)
qed

section \<open>The rule set\<close>

text \<open>What the engine needs of the rules registered on it.\<close>

locale rule_set =
  fixes rs :: "rule list"
  assumes lawful: "r \<in> set rs \<Longrightarrow> lint_rule r"
begin

lemma run_rules_raw:
  assumes "(ruleID, issues) \<in> set (run_rules ord rs d cfg)" and "i \<in> set issues"
  shows "raw_issue i \<and> iss_RuleID i = ruleID"
proof -
  from assms(1) obtain r where r: "r \<in> set rs" "ruleID = rule_ID r" "issues = rule_Run r ord d cfg"
    by (auto simp: run_rules_def List.map_filter_def split: if_splits)
  then have "lint_rule r" by (simp add: lawful)
  from lint_rule.run_RuleID [OF this] lint_rule.run_Severity [OF this] lint_rule.run_Fingerprint [OF this] assms(2) r
  show ?thesis by (simp add: raw_issue_def)
qed

lemma all_raw: "\<forall>i\<in>set (concat (map snd (run_rules ord rs d cfg))). raw_issue i"
  using run_rules_raw by fastforce

lemma run_sorted:
  "sorted_wrt (\<lambda>a b. issue_key a < issue_key b) (finish_issues (concat (map snd (run_rules ord rs d cfg))) d cfg)"
  by (rule finish_issues_sorted [OF all_raw])

lemma run_exact:
  "set (finish_issues (concat (map snd (run_rules ord rs d cfg))) d cfg) =
     (\<lambda>i. i\<lparr>iss_Fingerprint := issueFingerprint i\<rparr>) ` {i. kept d cfg i \<and>
       (\<exists>r\<in>set rs. SupportsDiagramFamily r (Family (diag_Type d)) \<and> RuleEnabled (rule_ID r) cfg \<and> i \<in> set (rule_Run r ord d cfg))}"
proof -
  have "i \<in> set (concat (map snd (run_rules ord rs d cfg))) \<longleftrightarrow>
      (\<exists>r\<in>set rs. SupportsDiagramFamily r (Family (diag_Type d)) \<and> RuleEnabled (rule_ID r) cfg \<and> i \<in> set (rule_Run r ord d cfg))" for i
    by (force simp: run_rules_def List.map_filter_def)
  then show ?thesis unfolding set_finish_issues [OF all_raw] by (intro arg_cong [where f = "image _"]) auto
qed

lemma run_order:
  assumes "\<And>r. r \<in> set rs \<Longrightarrow> SupportsDiagramFamily r (Family (diag_Type d)) \<Longrightarrow>
      mset (rule_Run r ord d cfg) = mset (rule_Run r ord' d cfg)"
  shows "finish_issues (concat (map snd (run_rules ord rs d cfg))) d cfg =
         finish_issues (concat (map snd (run_rules ord' rs d cfg))) d cfg"
proof (rule finish_issues_mset [OF all_raw])
  have "mset (concat (map snd (run_rules ord qs d cfg))) = mset (concat (map snd (run_rules ord' qs d cfg)))"
    if "set qs \<subseteq> set rs" for qs
    using that assms by (induction qs) (auto simp: run_rules_def List.map_filter_simps split: option.split)
  then show "mset (concat (map snd (run_rules ord rs d cfg))) = mset (concat (map snd (run_rules ord' rs d cfg)))"
    by blast
qed

end

section \<open>The default rules\<close>

definition default_rules :: "rule list" where
  "default_rules = FlowchartRules @ SequenceRules @ ClassRules @ ERRules @ StateRules"

lemmas rule_groups = FlowchartRules_def SequenceRules_def ClassRules_def ERRules_def StateRules_def

lemmas all_rules_lawful = duplicate_rule.lint_rule_axioms disconnected_rule.lint_rule_axioms
  fanout_rule.lint_rule_axioms cycles_rule.lint_rule_axioms depth_rule.lint_rule_axioms
  undefined_actors_rule.lint_rule_axioms duplicate_actors_rule.lint_rule_axioms max_nesting_rule.lint_rule_axioms
  circular_inheritance_rule.lint_rule_axioms duplicate_classes_rule.lint_rule_axioms
  inheritance_depth_rule.lint_rule_axioms circular_chain_rule.lint_rule_axioms
  self_referential_rule.lint_rule_axioms circular_transitions_rule.lint_rule_axioms
  unreachable_rule.lint_rule_axioms max_transitions_rule.lint_rule_axioms

interpretation defaults: rule_set default_rules
  by (rule rule_set.intro) (auto simp: default_rules_def rule_groups all_rules_lawful)

lemmas deterministic_rules = duplicate_rule.deterministic_rule_axioms disconnected_rule.deterministic_rule_axioms
  fanout_rule.deterministic_rule_axioms depth_rule.deterministic_rule_axioms
  undefined_actors_rule.deterministic_rule_axioms duplicate_actors_rule.deterministic_rule_axioms
  max_nesting_rule.deterministic_rule_axioms duplicate_classes_rule.deterministic_rule_axioms
  inheritance_depth_rule.deterministic_rule_axioms self_referential_rule.deterministic_rule_axioms
  circular_transitions_rule.deterministic_rule_axioms unreachable_rule.deterministic_rule_axioms
  max_transitions_rule.deterministic_rule_axioms

lemma default_rules_deterministic:
  "r \<in> set default_rules \<Longrightarrow> r = NoCycles \<or> rule_Families r = Some [DiagramFamilyClass] \<or>
     rule_Families r = Some [DiagramFamilyER] \<or> deterministic_rule r"
proof -
  have "rule_Families ClassNoCircularInheritance = Some [DiagramFamilyClass]"
    "rule_Families ERNoCircularChain = Some [DiagramFamilyER]"
    by (simp_all add: ClassNoCircularInheritance_def ERNoCircularChain_def)
  then show "r \<in> set default_rules \<Longrightarrow> ?thesis"
    unfolding default_rules_def rule_groups unfolding set_append list.set Un_iff insert_iff empty_iff by (elim disjE) (simp_all add: deterministic_rules)
qed

lemma default_rules_order:
  assumes "iteration_order ord" and "iteration_order ord'"
    and "r \<in> set default_rules" and "SupportsDiagramFamily r (Family (diag_Type d))"
    and "Family (diag_Type d) \<in> {DiagramFamilyFlowchart, DiagramFamilySequence, DiagramFamilyState}"
    and "edge_From ` set (diag_Edges d) \<subseteq> node_ID ` set (diag_Nodes d)"
  shows "mset (rule_Run r ord d cfg) = mset (rule_Run r ord' d cfg)"
proof -
  have "r = NoCycles \<or> deterministic_rule r"
    using default_rules_deterministic [OF assms(3)] assms(4,5) by (auto simp: SupportsDiagramFamily_def)
  then show ?thesis
    using NoCycles_order [OF assms(6,1,2), of cfg] deterministic_rule.run_order [OF _ assms(1,2), of r d cfg]
    by (elim disjE) simp_all
qed

lemma New_rules: "New = Inr (e, warnings) \<Longrightarrow> eng_rules e = default_rules"
  by (auto simp: New_def NewWithRules_def default_rules_def split: sum.splits)

section \<open>Registration\<close>

lemma register_rules_ok:
  "(\<exists>ws. register_rules rs seen = Inr ws) \<longleftrightarrow>
     (\<forall>r\<in>set rs. \<exists>w. ValidateRegisteredRuleID (rule_ID r) = Inr w) \<and>
     distinct (map (\<lambda>r. CanonicalRuleRegistrationID (rule_ID r)) rs) \<and>
     (\<forall>r\<in>set rs. map_of seen (CanonicalRuleRegistrationID (rule_ID r)) = None)"
proof (induction rs arbitrary: seen)
  case (Cons r rs)
  let ?c = "CanonicalRuleRegistrationID (rule_ID r)"
  have step: "(\<exists>ws. register_rules (r # rs) seen = Inr ws) \<longleftrightarrow>
      (\<exists>w. ValidateRegisteredRuleID (rule_ID r) = Inr w) \<and> map_of seen ?c = None \<and>
      (\<exists>ws. register_rules rs (AList.update ?c (rule_ID r) seen) = Inr ws)"
    by (auto simp: Let_def split: sum.splits option.splits)
  show ?case unfolding step Cons.IH by (auto simp: update_conv' image_iff split: if_splits)
qed simp

text \<open>
  Registration succeeds exactly when every rule identifier is acceptable and no two rules
  have the same canonical identifier; the engine then holds the given rules in the given order.
\<close>

theorem NewWithRules_succeeds_iff:
  "(\<exists>warnings. NewWithRules rs = Inr (\<lparr>eng_rules = rs, eng_sink = NoopInstrumentationSink\<rparr>, warnings)) \<longleftrightarrow>
     list_all (\<lambda>r. \<exists>w. ValidateRegisteredRuleID (rule_ID r) = Inr w) rs \<and>
     distinct (map (\<lambda>r. CanonicalRuleRegistrationID (rule_ID r)) rs)"
  using register_rules_ok [of rs "[]"] by (auto simp: NewWithRules_def list_all_iff split: sum.splits)

lemma New_default:
  "\<exists>warnings. New = Inr (\<lparr>eng_rules = default_rules, eng_sink = NoopInstrumentationSink\<rparr>, warnings) \<and> length warnings = 11"
proof -
  have "(case register_rules default_rules [] of Inl p \<Rightarrow> False | Inr warnings \<Rightarrow> length warnings = 11)" by code_simp
  then show ?thesis by (auto simp: New_def NewWithRules_def default_rules_def split: sum.splits)
qed

text \<open>
  The default engine registers without a panic and holds all sixteen rules; eleven of them,
  those of the families other than flowchart, are logged as legacy custom rules because the
  registry of built-in rules does not list them.
\<close>

theorem New_registers_all:
  "\<exists>warnings. New = Inr (\<lparr>eng_rules = default_rules, eng_sink = NoopInstrumentationSink\<rparr>, warnings)
     \<and> length (eng_rules \<lparr>eng_rules = default_rules, eng_sink = NoopInstrumentationSink\<rparr>) = 16 \<and> length warnings = 11"
  using New_default by (simp add: default_rules_def rule_groups)

lemma Run_cases:
  assumes "New = Inr (e, warnings)"
  obtains "fst (RunWithInstrumentation ord duration e (Some d) cfg) = []"
  | "fst (RunWithInstrumentation ord duration e (Some d) cfg) = [unsupportedDiagramTypeIssue d]"
      "Family (diag_Type d) = DiagramFamilyUnknown"
  | cfg' where "engine_NormalizeConfig ord e cfg = Inr cfg'" "Family (diag_Type d) \<noteq> DiagramFamilyUnknown"
      "fst (RunWithInstrumentation ord duration e (Some d) cfg) =
         finish_issues (concat (map snd (run_rules ord default_rules d cfg'))) d cfg'"
  using New_rules [OF assms]
  by (cases "engine_NormalizeConfig ord e cfg") (auto simp: RunWithInstrumentation_def Let_def split: if_splits)

section \<open>Properties of a run\<close>

text \<open>
  C2: the findings of a run of the default engine are strictly increasing in the sort key
  (severity, rule, line, column, context, message; absent positions last): they are sorted and
  no finding appears twice.
\<close>

theorem Run_sorted_no_duplicates:
  assumes "New = Inr (e, warnings)"
  shows "sorted_wrt (\<lambda>a b. issue_key a < issue_key b) (fst (RunWithInstrumentation ord duration e (Some d) cfg))"
  by (cases rule: Run_cases [OF assms, of ord duration d cfg]) (simp_all add: defaults.run_sorted)

theorem Run_sorted_no_duplicates_witness:
  "let e = \<lparr>eng_rules = default_rules, eng_sink = NoopInstrumentationSink\<rparr>
   in sorted_wrt (\<lambda>a b. issue_key a < issue_key b)
        (fst (RunWithInstrumentation rev (\<lambda>_. 0) e (Some (empty_diagram\<lparr>diag_Type := ''flowchart''\<rparr>)) []))"
proof -
  obtain warnings where "New = Inr (\<lparr>eng_rules = default_rules, eng_sink = NoopInstrumentationSink\<rparr>, warnings)"
    using New_default by blast
  from Run_sorted_no_duplicates [OF this] show ?thesis by (simp add: Let_def)
qed

text \<open>
  C1: on a diagram of a known family and with a configuration the engine accepts, a finding is
  in the output exactly when an enabled rule of that family makes it and neither a suppression
  comment nor the rule's selectors remove it; the output adds only the fingerprint.
\<close>

theorem Run_exact:
  assumes "New = Inr (e, warnings)" and "engine_NormalizeConfig ord e cfg = Inr cfg'"
    and "Family (diag_Type d) \<noteq> DiagramFamilyUnknown"
  shows "set (fst (RunWithInstrumentation ord duration e (Some d) cfg)) =
    (\<lambda>i. i\<lparr>iss_Fingerprint := issueFingerprint i\<rparr>) `
      {i. kept d cfg' i \<and> (\<exists>r\<in>set (eng_rules e). SupportsDiagramFamily r (Family (diag_Type d)) \<and>
            RuleEnabled (rule_ID r) cfg' \<and> i \<in> set (rule_Run r ord d cfg'))}"
  using assms New_rules [OF assms(1)]
  by (simp add: RunWithInstrumentation_def Let_def defaults.run_exact)

theorem Run_exact_witness:
  "let e = \<lparr>eng_rules = default_rules, eng_sink = NoopInstrumentationSink\<rparr>; d = empty_diagram\<lparr>diag_Type := ''state''\<rparr>
   in set (fst (RunWithInstrumentation rev (\<lambda>_. 0) e (Some d) [])) =
     (\<lambda>i. i\<lparr>iss_Fingerprint := issueFingerprint i\<rparr>) `
      {i. kept d [] i \<and> (\<exists>r\<in>set default_rules. SupportsDiagramFamily r ''state'' \<and> i \<in> set (rule_Run r rev d []))}"
proof -
  let ?e = "\<lparr>eng_rules = default_rules, eng_sink = NoopInstrumentationSink\<rparr>"
  obtain warnings where new: "New = Inr (?e, warnings)" using New_default by blast
  have cfg: "engine_NormalizeConfig rev ?e [] = Inr []"
    by (simp add: engine_NormalizeConfig_def NormalizeConfig_def ValidateConfig_def)
  have "Family (diag_Type (empty_diagram\<lparr>diag_Type := ''state''\<rparr>)) = ''state''" by (simp add: Family_def)
  then show ?thesis
    using Run_exact [OF new cfg, of "empty_diagram\<lparr>diag_Type := ''state''\<rparr>" "\<lambda>_. 0"]
    by (simp add: Let_def RuleEnabled_def)
qed



section \<open>Suppression\<close>

text \<open>
  A comment directive suppresses a finding exactly when it names the rule or \<^verbatim>\<open>all\<close>, has scope
  \<^verbatim>\<open>file\<close>, or \<^verbatim>\<open>next-line\<close> with the finding on the target line, and is bound to no subgraph or to
  the finding's subgraph; other scopes suppress nothing.
\<close>

theorem isSuppressed_iff:
  "isSuppressed i sups \<longleftrightarrow> (\<exists>s\<in>set sups.
     (sup_RuleID s = ''all'' \<or> sup_RuleID s = iss_RuleID i) \<and>
     (sup_Scope s = ''file'' \<or> sup_Scope s = ''next-line'' \<and> iss_Line i = Some (sup_TargetLine s)) \<and>
     (sup_SubgraphID s = [] \<or> (\<exists>c. iss_Context i = Some c \<and> ctx_SubgraphID c = sup_SubgraphID s)))"
  by (induction sups)
    (auto simp: suppressionMatchesRule_def suppressionAppliesToContext_def split: option.splits if_splits)

lemma selector_fold:
  "fold (\<lambda>raw (inc, exc). case parseSelector raw of None \<Rightarrow> (inc, exc)
      | Some p \<Rightarrow> if \<not> selector_matches i idx p then (inc, exc) else applySelectorMatchPrecedence (sel_Negated p) inc exc)
     selectors (inc, exc) =
   (inc \<or> (\<exists>raw\<in>set selectors. \<exists>p. parseSelector raw = Some p \<and> selector_matches i idx p \<and> \<not> sel_Negated p),
    exc \<or> (\<exists>raw\<in>set selectors. \<exists>p. parseSelector raw = Some p \<and> selector_matches i idx p \<and> sel_Negated p))"
proof (induction selectors arbitrary: inc exc)
  case (Cons raw selectors)
  show ?case
    by (cases "parseSelector raw") (auto simp: Cons.IH applySelectorMatchPrecedence_def)
qed simp

text \<open>
  The selectors of a rule suppress a finding exactly when a plain selector matches it and no
  negated one does, in whatever order they are listed; selectors that do not parse are ignored.
\<close>

theorem issueMatchesAnySelector_iff:
  "issueMatchesAnySelector i selectors idx \<longleftrightarrow>
     (\<exists>raw\<in>set selectors. \<exists>p. parseSelector raw = Some p \<and> \<not> sel_Negated p \<and> selector_matches i idx p) \<and>
     \<not> (\<exists>raw\<in>set selectors. \<exists>p. parseSelector raw = Some p \<and> sel_Negated p \<and> selector_matches i idx p)"
  unfolding issueMatchesAnySelector_def selector_fold by auto

end
