(* ===== verification/Strconv.thy ===== *)
theory Strconv
  imports Prelude
begin

text \<open>
  The parts of Go's \<^verbatim>\<open>strconv\<close> and \<^verbatim>\<open>time\<close> packages that the configuration code uses:
  decimal integers, booleans and durations in text. An \<^verbatim>\<open>int\<close> is 64 bits wide: values are
  integers, and the operations that can overflow wrap explicitly (\<open>wrap64\<close>).
\<close>

section \<open>Machine integers\<close>

definition wrap64 :: "int \<Rightarrow> int" where
  "wrap64 x = (x + 2 ^ 63) mod 2 ^ 64 - 2 ^ 63"

definition int64 :: "int \<Rightarrow> bool" where
  "int64 x \<longleftrightarrow> - (2 ^ 63) \<le> x \<and> x < 2 ^ 63"

lemma wrap64_int64 [simp]: "int64 (wrap64 x)"
  by (simp add: wrap64_def int64_def)

lemma wrap64_id: "int64 x \<Longrightarrow> wrap64 x = x"
  by (simp add: wrap64_def int64_def)

section \<open>Decimal integers\<close>

definition digit_value :: "char \<Rightarrow> nat option" where
  "digit_value c = (let n = (of_char c :: nat) in if 48 \<le> n \<and> n \<le> 57 then Some (n - 48) else None)"

fun digits_value :: "nat \<Rightarrow> gostring \<Rightarrow> nat option" where
  "digits_value acc [] = Some acc"
| "digits_value acc (c # cs) =
     (case digit_value c of None \<Rightarrow> None | Some d \<Rightarrow> digits_value (10 * acc + d) cs)"

text \<open>
  \<^verbatim>\<open>strconv.ParseInt(s, 10, 64)\<close> and \<^verbatim>\<open>strconv.Atoi\<close>: an optional sign, at least one
  digit, and a value that fits; every error is \<open>None\<close>.
\<close>

definition ParseInt :: "gostring \<Rightarrow> int option" where
  "ParseInt s =
     (let (neg, ds) = (case s of [] \<Rightarrow> (False, []) | c # cs \<Rightarrow>
            if c = CHR ''-'' then (True, cs) else if c = CHR ''+'' then (False, cs) else (False, s))
      in if ds = [] then None
         else case digits_value 0 ds of
                None \<Rightarrow> None
              | Some n \<Rightarrow> let v = (if neg then - int n else int n) in if int64 v then Some v else None)"

definition Atoi :: "gostring \<Rightarrow> int option" where
  "Atoi s = ParseInt s"

lemma digits_value_append:
  "digits_value acc (xs @ ys) = (case digits_value acc xs of None \<Rightarrow> None | Some n \<Rightarrow> digits_value n ys)"
  by (induction xs arbitrary: acc) (auto split: option.split)

lemma of_char_digit_char: "n < 10 \<Longrightarrow> (of_char (digit_char n) :: nat) = 48 + n"
  by (simp add: digit_char_def of_char_of)

lemma digit_value_digit_char [simp]: "n < 10 \<Longrightarrow> digit_value (digit_char n) = Some n"
  by (simp add: digit_value_def of_char_digit_char)

lemma digits_value_nat_string: "digits_value 0 (nat_string n) = Some n"
proof (induction n rule: nat_string.induct)
  case (1 n)
  show ?case
  proof (cases "n < 10")
    case True
    then show ?thesis by (subst nat_string.simps) simp
  next
    case False
    then show ?thesis using 1 by (subst nat_string.simps) (simp add: digits_value_append)
  qed
qed

lemma nat_string_digits: "c \<in> set (nat_string n) \<Longrightarrow> digit_value c \<noteq> None"
proof (induction n rule: nat_string.induct)
  case (1 n)
  then show ?case by (subst (asm) (2) nat_string.simps) (auto split: if_splits)
qed

lemma nat_string_nonempty [simp]: "nat_string n \<noteq> []"
  by (subst nat_string.simps) simp

lemma nat_string_inject: "nat_string m = nat_string n \<longleftrightarrow> m = n"
  by (metis digits_value_nat_string option.inject)

lemma digit_value_sign: "digit_value CHR ''-'' = None" "digit_value CHR ''+'' = None"
  by (simp_all add: digit_value_def)

lemma ParseInt_nat_string: "int64 (int n) \<Longrightarrow> ParseInt (nat_string n) = Some (int n)"
proof -
  assume n: "int64 (int n)"
  obtain c cs where s: "nat_string n = c # cs" using nat_string_nonempty by (metis neq_Nil_conv)
  then have "c \<noteq> CHR ''-''" "c \<noteq> CHR ''+''" using nat_string_digits [of c n] digit_value_sign by auto
  then show ?thesis using n digits_value_nat_string [of n] unfolding s by (simp add: ParseInt_def)
qed

text \<open>
  Reading back a printed integer gives the integer.
\<close>

lemma ParseInt_Itoa: "int64 i \<Longrightarrow> ParseInt (Itoa i) = Some i"
proof (cases "i < 0")
  case True
  assume "int64 i"
  with True show ?thesis by (simp add: Itoa_def ParseInt_def digits_value_nat_string)
next
  case False
  assume "int64 i"
  with False show ?thesis using ParseInt_nat_string [of "nat i"] by (simp add: Itoa_def)
qed

lemma ParseInt_range: "ParseInt s = Some v \<Longrightarrow> int64 v"
  by (auto simp: ParseInt_def Let_def split: if_splits option.splits prod.splits)

lemma Itoa_inject: "Itoa i = Itoa j \<longleftrightarrow> i = j"
proof -
  have "digit_value (hd (nat_string n)) \<noteq> None" for n by (rule nat_string_digits [of _ n]) simp
  then have "nat_string n \<noteq> CHR ''-'' # s" for n s using digit_value_sign by (metis list.sel(1))
  then show ?thesis by (auto simp: Itoa_def nat_string_inject) (metis)+
qed

text \<open>White space neither starts nor ends a printed integer, so trimming leaves it alone.\<close>

lemma space_ends: "list_all (\<lambda>e. digit_value (hd e) = None \<and> hd e \<noteq> CHR ''-'' \<and> digit_value (last e) = None) space_encodings"
  by code_simp

lemma find_None: "(\<And>e. e \<in> set es \<Longrightarrow> \<not> P e) \<Longrightarrow> find P es = None"
  by (simp add: find_None_iff)

lemma TrimSpace_digits:
  assumes "s \<noteq> []" and "digit_value (hd s) \<noteq> None \<or> hd s = CHR ''-''" and "digit_value (last s) \<noteq> None"
  shows "TrimSpace s = s"
proof -
  have ends: "digit_value (hd e) = None" "hd e \<noteq> CHR ''-''" "digit_value (last e) = None" "e \<noteq> []" if "e \<in> set space_encodings" for e
    using that space_ends space_encodings_nonempty by (auto simp: list_all_iff)
  have "\<not> prefix e s" if "e \<in> set space_encodings" for e
    using ends [OF that] assms(1,2) by (auto simp: prefix_def)
  then have "trim_left s = s" by (simp add: trim_left.simps find_None)
  moreover have "\<not> suffix e s" if "e \<in> set space_encodings" for e
    using ends [OF that] assms(1,3) by (auto simp: suffix_def)
  then have "trim_right s = s" by (simp add: trim_right.simps find_None)
  ultimately show ?thesis by (simp add: TrimSpace_def)
qed

lemma TrimSpace_Itoa [simp]: "TrimSpace (Itoa i) = Itoa i"
proof -
  have "digit_value (hd (nat_string n)) \<noteq> None" "digit_value (last (nat_string n)) \<noteq> None" for n
    by (rule nat_string_digits [of _ n], simp)+
  then show ?thesis by (intro TrimSpace_digits) (simp_all add: Itoa_def)
qed

lemma Itoa_nonempty [simp]: "Itoa i \<noteq> []"
  by (simp add: Itoa_def)

section \<open>Booleans\<close>

definition ParseBool :: "gostring \<Rightarrow> bool option" where
  "ParseBool s =
     (if s \<in> {''1'', ''t'', ''T'', ''true'', ''TRUE'', ''True''} then Some True
      else if s \<in> {''0'', ''f'', ''F'', ''false'', ''FALSE'', ''False''} then Some False
      else None)"

definition FormatBool :: "bool \<Rightarrow> gostring" where
  "FormatBool b = (if b then ''true'' else ''false'')"

lemma ParseBool_FormatBool [simp]: "ParseBool (FormatBool b) = Some b"
  by (simp add: ParseBool_def FormatBool_def)

lemma FormatBool_inject: "FormatBool a = FormatBool b \<longleftrightarrow> a = b"
  by (simp add: FormatBool_def)

section \<open>Durations\<close>

abbreviation Nanosecond :: int where "Nanosecond \<equiv> 1"
abbreviation Microsecond :: int where "Microsecond \<equiv> 1000"
abbreviation Millisecond :: int where "Millisecond \<equiv> 1000000"
abbreviation Second :: int where "Second \<equiv> 1000000000"
abbreviation Minute :: int where "Minute \<equiv> 60 * Second"
abbreviation Hour :: int where "Hour \<equiv> 60 * Minute"

text \<open>
  \<^verbatim>\<open>fmtFrac\<close>: the fraction of \<open>v / 10 ^ prec\<close> without trailing zeros, with its point, built
  from the last digit on; nothing for a zero fraction. The loop returns the quotient too.
\<close>

fun fmtFrac_loop :: "nat \<Rightarrow> nat \<Rightarrow> bool \<Rightarrow> gostring \<Rightarrow> bool \<times> gostring \<times> nat" where
  "fmtFrac_loop 0 v print buf = (print, buf, v)"
| "fmtFrac_loop (Suc i) v print buf =
     (let digit = v mod 10; print = (print \<or> digit \<noteq> 0)
      in fmtFrac_loop i (v div 10) print (if print then digit_char digit # buf else buf))"

definition fmtFrac :: "nat \<Rightarrow> nat \<Rightarrow> gostring \<Rightarrow> gostring \<times> nat" where
  "fmtFrac v prec buf =
     (case fmtFrac_loop prec v False buf of
        (print, buf, v) \<Rightarrow> (if print then CHR ''.'' # buf else buf, v))"

definition Duration_String :: "int \<Rightarrow> gostring" where
  "Duration_String d =
     (let u = nat \<bar>d\<bar>;
          body = (if u = 0 then ''0s''
            else if int u < Second
            then let (prec, unit) = (if int u < Microsecond then (0, ''ns'')
                       else if int u < Millisecond then (3, [CHR 0xC2, CHR 0xB5, CHR ''s''])
                       else (6, ''ms''));
                     (buf, v) = fmtFrac u prec unit
                 in nat_string v @ buf
            else let (buf, v) = fmtFrac u 9 ''s'';
                     buf = nat_string (v mod 60) @ buf; v = v div 60
                 in if v = 0 then buf
                    else let buf = nat_string (v mod 60) @ ''m'' @ buf; v = v div 60
                         in if v = 0 then buf else nat_string v @ ''h'' @ buf)
      in if d < 0 then CHR ''-'' # body else body)"

lemma fmtFrac_loop_append: "fmtFrac_loop i v print buf =
    (case fmtFrac_loop i v print [] of (p, b, w) \<Rightarrow> (p, b @ buf, w))"
proof (induction i arbitrary: v print buf)
  case (Suc i)
  show ?case
    using Suc.IH [of "v div 10" "print \<or> v mod 10 \<noteq> 0"
        "if print \<or> v mod 10 \<noteq> 0 then digit_char (v mod 10) # buf else buf"]
      Suc.IH [of "v div 10" "print \<or> v mod 10 \<noteq> 0" "if print \<or> v mod 10 \<noteq> 0 then [digit_char (v mod 10)] else []"]
    by (auto simp: Let_def split: prod.splits)
qed simp

text \<open>The digits kept, as a number, and how many of them there are determine the fraction.\<close>

lemma fmtFrac_loop_value:
  assumes "fmtFrac_loop i v print [] = (p, b, w)"
  shows "w = v div 10 ^ i \<and> (p \<longleftrightarrow> print \<or> v mod 10 ^ i \<noteq> 0) \<and> (\<not> p \<longrightarrow> b = []) \<and> length b \<le> i
    \<and> (print \<longrightarrow> length b = i)
    \<and> (\<exists>n. digits_value 0 b = Some n \<and> v mod 10 ^ i = n * 10 ^ (i - length b))"
  using assms
proof (induction i arbitrary: v print p b w)
  case (Suc i)
  define d pr where "d = v mod 10" and "pr \<longleftrightarrow> print \<or> d \<noteq> 0"
  obtain p' b' w' where loop: "fmtFrac_loop i (v div 10) pr [] = (p', b', w')" by (metis prod_cases3)
  have b: "p = p'" "b = b' @ (if pr then [digit_char d] else [])" "w = w'"
    using Suc.prems loop fmtFrac_loop_append [of i "v div 10" pr "if pr then [digit_char d] else []"]
    by (auto simp: Let_def d_def pr_def split: if_splits)
  note IH = Suc.IH [OF loop]
  obtain n where n: "digits_value 0 b' = Some n" "v div 10 mod 10 ^ i = n * 10 ^ (i - length b')" using IH by blast
  have ih: "p' \<longleftrightarrow> pr \<or> v div 10 mod 10 ^ i \<noteq> 0" "\<not> p' \<longrightarrow> b' = []" "length b' \<le> i" using IH by blast+
  have split: "v mod 10 ^ Suc i = 10 * (v div 10 mod 10 ^ i) + d" by (simp add: d_def mod_mult2_eq)
  have w: "w = v div 10 ^ Suc i" using IH b by (simp add: div_mult2_eq)
  have d10: "d < 10" by (simp add: d_def)
  show ?case
  proof (cases pr)
    case True
    then have "length b' = i" using IH by simp
    then have "digits_value 0 b = Some (10 * n + d)" "v mod 10 ^ Suc i = 10 * n + d" "length b = Suc i"
      using n split b True d10 by (simp_all add: digits_value_append)
    moreover have "p" using IH b True by simp
    moreover have "print \<or> v mod 10 ^ Suc i \<noteq> 0" using True split by (auto simp: pr_def)
    ultimately show ?thesis using w by simp
  next
    case False
    then have "d = 0" "\<not> print" by (auto simp: pr_def)
    moreover have "Suc i - length b' = Suc (i - length b')" using ih by (simp add: Suc_diff_le)
    ultimately have "v mod 10 ^ Suc i = n * 10 ^ (Suc i - length b)"
      using split n(2) b False by simp
    moreover have "digits_value 0 b = Some n" "length b \<le> Suc i" "\<not> p \<longrightarrow> b = []" "p \<longleftrightarrow> v div 10 mod 10 ^ i \<noteq> 0"
      using n(1) ih b False by auto
    moreover have "v mod 10 ^ Suc i \<noteq> 0 \<longleftrightarrow> v div 10 mod 10 ^ i \<noteq> 0" using split \<open>d = 0\<close> by simp
    ultimately show ?thesis using w \<open>\<not> print\<close> by blast
  qed
qed simp

lemma fmtFrac_sound:
  assumes "fmtFrac v i buf = (s, w)"
  obtains b where "s = (if b = [] then buf else CHR ''.'' # b @ buf)" and "w = v div 10 ^ i"
    and "\<And>n. digits_value 0 b = Some n \<Longrightarrow> v mod 10 ^ i = n * 10 ^ (i - length b)"
    and "digits_value 0 b \<noteq> None"
proof -
  obtain p b w' where loop: "fmtFrac_loop i v False [] = (p, b, w')" by (metis prod_cases3)
  note facts = fmtFrac_loop_value [OF loop]
  have "p \<longleftrightarrow> b \<noteq> []" using facts by (cases "b = []") auto
  moreover have "fmtFrac v i buf = (if p then CHR ''.'' # b @ buf else b @ buf, w')"
    using loop fmtFrac_loop_append [of i v False buf] by (simp add: fmtFrac_def)
  ultimately have "s = (if b = [] then buf else CHR ''.'' # b @ buf)" "w = w'" using assms by (simp_all split: if_splits)
  moreover obtain n where n: "digits_value 0 b = Some n" "v mod 10 ^ i = n * 10 ^ (i - length b)" using facts by blast
  moreover have "w' = v div 10 ^ i" using facts by blast
  ultimately show thesis using that [of b] by simp
qed

lemma number_prefix:
  assumes "nat_string a @ x # xs = nat_string b @ y # ys" and "digit_value x = None" and "digit_value y = None"
  shows "a = b \<and> x = y \<and> xs = ys"
proof -
  have take: "takeWhile (\<lambda>c. digit_value c \<noteq> None) (nat_string n @ z # zs) = nat_string n" if "digit_value z = None" for n z zs
    using that nat_string_digits by (subst takeWhile_append2) auto
  have "nat_string a = nat_string b" using take [OF assms(2)] take [OF assms(3)] assms(1) by metis
  then show ?thesis using assms(1) by (simp add: nat_string_inject)
qed

text \<open>Different durations of a second or more print differently.\<close>

definition seconds_string :: "nat \<Rightarrow> gostring \<Rightarrow> gostring" where
  "seconds_string v buf =
     (if v div 60 = 0 then nat_string (v mod 60) @ buf
      else if v div 60 div 60 = 0 then nat_string (v div 60 mod 60) @ ''m'' @ nat_string (v mod 60) @ buf
      else nat_string (v div 60 div 60) @ ''h'' @ nat_string (v div 60 mod 60) @ ''m'' @ nat_string (v mod 60) @ buf)"

lemma Duration_String_seconds:
  assumes "Second \<le> d"
  shows "Duration_String d = seconds_string (nat d div 10 ^ 9) (fst (fmtFrac (nat d) 9 ''s''))"
proof -
  have "snd (fmtFrac (nat d) 9 ''s'') = nat d div 10 ^ 9"
    using fmtFrac_sound [OF surjective_pairing [of "fmtFrac (nat d) 9 ''s''"]] by metis
  then show ?thesis using assms
    by (simp add: Duration_String_def seconds_string_def Let_def case_prod_beta)
qed

lemma fmtFrac_shape:
  "fst (fmtFrac u 9 ''s'') = ''s'' \<or> (\<exists>b. fst (fmtFrac u 9 ''s'') = CHR ''.'' # b @ ''s'')"
  using fmtFrac_sound [OF surjective_pairing [of "fmtFrac u 9 ''s''"]] by (metis (full_types))

lemma fmtFrac_inject:
  assumes "fst (fmtFrac u 9 ''s'') = fst (fmtFrac v 9 ''s'')"
  shows "u mod 10 ^ 9 = v mod 10 ^ 9"
proof -
  obtain b where b: "fst (fmtFrac u 9 ''s'') = (if b = [] then ''s'' else CHR ''.'' # b @ ''s'')"
      "\<And>n. digits_value 0 b = Some n \<Longrightarrow> u mod 10 ^ 9 = n * 10 ^ (9 - length b)" "digits_value 0 b \<noteq> None"
    using fmtFrac_sound [OF surjective_pairing [of "fmtFrac u 9 ''s''"]] by metis
  obtain c where c: "fst (fmtFrac v 9 ''s'') = (if c = [] then ''s'' else CHR ''.'' # c @ ''s'')"
      "\<And>n. digits_value 0 c = Some n \<Longrightarrow> v mod 10 ^ 9 = n * 10 ^ (9 - length c)"
    using fmtFrac_sound [OF surjective_pairing [of "fmtFrac v 9 ''s''"]] by metis
  have "b = c" using assms b(1) c(1) by (auto split: if_splits)
  with b(2,3) c(2) show ?thesis by auto
qed

definition hms :: "nat \<Rightarrow> nat \<Rightarrow> nat \<Rightarrow> gostring \<Rightarrow> gostring" where
  "hms h m s buf =
     (if h = 0 \<and> m = 0 then nat_string s @ buf
      else if h = 0 then nat_string m @ CHR ''m'' # nat_string s @ buf
      else nat_string h @ CHR ''h'' # nat_string m @ CHR ''m'' # nat_string s @ buf)"

lemma seconds_string_hms: "seconds_string v buf = hms (v div 60 div 60) (v div 60 mod 60) (v mod 60) buf"
proof -
  have "q div 60 = 0 \<and> q mod 60 = 0 \<longleftrightarrow> q = 0" for q :: nat by (metis div_mult_mod_eq div_0 mod_0 add_0 mult_0)
  from this [of "v div 60"] show ?thesis unfolding seconds_string_def hms_def by (simp only: append_Cons append_Nil)
qed

lemma hms_inject:
  assumes eq: "hms h m s (x # xs) = hms h' m' s' (y # ys)"
    and x: "digit_value x = None" "x \<noteq> CHR ''m''" "x \<noteq> CHR ''h''"
    and y: "digit_value y = None" "y \<noteq> CHR ''m''" "y \<noteq> CHR ''h''"
  shows "h = h' \<and> m = m' \<and> s = s' \<and> x # xs = y # ys"
proof -
  have letters: "digit_value CHR ''m'' = None" "digit_value CHR ''h'' = None" by (simp_all add: digit_value_def)
  define lead where "lead h m x = (if h = (0::nat) \<and> m = (0::nat) then x else if h = 0 then CHR ''m'' else CHR ''h'')" for h m x
  have head: "\<exists>n zs. hms h m s (x # xs) = nat_string n @ lead h m x # zs" for h m s x xs
    by (simp add: hms_def lead_def) blast
  have lead_digit: "digit_value (lead h m x) = None" "digit_value (lead h' m' y) = None"
    using x(1) y(1) letters by (simp_all add: lead_def)
  obtain n zs n' zs' where "nat_string n @ lead h m x # zs = nat_string n' @ lead h' m' y # zs'"
    using eq head [of h m s x xs] head [of h' m' s' y ys] by metis
  from number_prefix [OF this lead_digit] have "lead h m x = lead h' m' y" by simp
  then consider "h = 0 \<and> m = 0 \<and> h' = 0 \<and> m' = 0" | "h = 0 \<and> m \<noteq> 0 \<and> h' = 0 \<and> m' \<noteq> 0" | "h \<noteq> 0 \<and> h' \<noteq> 0"
    using x y by (auto simp: lead_def split: if_splits)
  then show ?thesis
  proof cases
    case 1
    then show ?thesis using eq number_prefix [OF _ x(1) y(1), of s xs s' ys] by (simp add: hms_def)
  next
    case 2
    then have "nat_string m @ CHR ''m'' # nat_string s @ x # xs = nat_string m' @ CHR ''m'' # nat_string s' @ y # ys"
      using eq by (simp add: hms_def)
    from number_prefix [OF this letters(1,1)] 2 show ?thesis using number_prefix [OF _ x(1) y(1), of s xs s' ys] by simp
  next
    case 3
    then have "nat_string h @ CHR ''h'' # nat_string m @ CHR ''m'' # nat_string s @ x # xs =
        nat_string h' @ CHR ''h'' # nat_string m' @ CHR ''m'' # nat_string s' @ y # ys"
      using eq by (simp add: hms_def)
    note h = number_prefix [OF this letters(2,2)]
    then have "nat_string m @ CHR ''m'' # nat_string s @ x # xs = nat_string m' @ CHR ''m'' # nat_string s' @ y # ys" by simp
    from number_prefix [OF this letters(1,1)] h show ?thesis using number_prefix [OF _ x(1) y(1), of s xs s' ys] by simp
  qed
qed

lemma suffix_head:
  assumes "s = ''s'' \<or> (\<exists>b. s = CHR ''.'' # b)"
  obtains x xs where "s = x # xs" "digit_value x = None" "x \<noteq> CHR ''m''" "x \<noteq> CHR ''h''"
proof (cases "s = ''s''")
  case True
  then show thesis by (intro that [of "CHR ''s''" "[]"]) (simp_all add: digit_value_def)
next
  case False
  with assms obtain b where "s = CHR ''.'' # b" by blast
  then show thesis by (intro that [of "CHR ''.''" b]) (simp_all add: digit_value_def)
qed

lemma seconds_string_inject:
  assumes "seconds_string u s = seconds_string v t"
    and s: "s = ''s'' \<or> (\<exists>b. s = CHR ''.'' # b)" and t: "t = ''s'' \<or> (\<exists>b. t = CHR ''.'' # b)"
  shows "u = v \<and> s = t"
proof -
  from suffix_head [OF s] obtain x xs where sx: "s = x # xs" "digit_value x = None" "x \<noteq> CHR ''m''" "x \<noteq> CHR ''h''" .
  from suffix_head [OF t] obtain y ys where ty: "t = y # ys" "digit_value y = None" "y \<noteq> CHR ''m''" "y \<noteq> CHR ''h''" .
  note parts = hms_inject [OF assms(1) [unfolded seconds_string_hms sx(1) ty(1)] sx(2-4) ty(2-4)]
  have "n = (n div 60 div 60 * 60 + n div 60 mod 60) * 60 + n mod 60" for n :: nat by (simp only: div_mult_mod_eq)
  with parts show ?thesis unfolding sx(1) ty(1) by metis
qed

lemma Duration_String_inject:
  assumes "Second \<le> d" and "Second \<le> d'" and "Duration_String d = Duration_String d'"
  shows "d = d'"
proof -
  have "nat d div 10 ^ 9 = nat d' div 10 ^ 9 \<and> fst (fmtFrac (nat d) 9 ''s'') = fst (fmtFrac (nat d') 9 ''s'')"
    by (rule seconds_string_inject)
      (use assms fmtFrac_shape [of "nat d"] fmtFrac_shape [of "nat d'"] in \<open>auto simp: Duration_String_seconds\<close>)
  then have "nat d = nat d'" using fmtFrac_inject by (metis div_mult_mod_eq)
  then show ?thesis using assms(1,2) by simp
qed

end
