(* ===== verification/Rate_Limiter.thy ===== *)
theory Rate_Limiter
  imports Strconv
begin

text \<open>
  The per-client rate limiter of \<^verbatim>\<open>internal/api/middleware.go\<close>. A point in time is a
  number of nanoseconds, a duration a 64-bit number of them. Every operation of the limiter runs
  under its mutex and reads the clock once, so a concurrent history is a sequence of operations;
  the clock and the order in which the clean-up visits the map are arguments. A nil limiter is
  \<open>None\<close>.
\<close>

section \<open>Time\<close>

text \<open>\<^verbatim>\<open>Time.Sub\<close> saturates at the bounds of a duration; \<^verbatim>\<open>Time.Unix\<close> gives whole seconds.\<close>

definition time_Sub :: "int \<Rightarrow> int \<Rightarrow> int" where
  "time_Sub t u = max (- (2 ^ 63)) (min (2 ^ 63 - 1) (t - u))"

definition time_Unix :: "int \<Rightarrow> int" where
  "time_Unix t = t div 1000000000"

lemma time_Sub_ge: "int64 d \<Longrightarrow> 0 < d \<Longrightarrow> d \<le> time_Sub t u \<longleftrightarrow> d \<le> t - u"
  by (auto simp: time_Sub_def int64_def)

lemma time_Sub_gt: "0 \<le> d \<Longrightarrow> d < 2 ^ 63 - 1 \<Longrightarrow> d < time_Sub t u \<longleftrightarrow> d < t - u"
  by (auto simp: time_Sub_def)

section \<open>State and operations\<close>

record client_window =
  windowStart :: int
  cw_count :: int

record rate_limiter =
  rl_window :: int
  rl_limit :: int
  rl_clients :: "(gostring, client_window) gomap"
  rl_maxClients :: int
  rl_cleanupBatchSize :: int

definition NewRateLimiter :: "int \<Rightarrow> int \<Rightarrow> rate_limiter" where
  "NewRateLimiter limit window =
     \<lparr>rl_window = window, rl_limit = limit, rl_clients = [], rl_maxClients = 10000, rl_cleanupBatchSize = 128\<rparr>"

fun delete_expired ::
  "int \<Rightarrow> int \<Rightarrow> int \<Rightarrow> int \<Rightarrow> (gostring \<times> client_window) list
     \<Rightarrow> (gostring, client_window) gomap \<Rightarrow> (gostring, client_window) gomap" where
  "delete_expired now window maxDeletes deleted [] clients = clients"
| "delete_expired now window maxDeletes deleted ((cid, entry) # rest) clients =
     (if wrap64 (window * 2) < time_Sub now (windowStart entry)
      then let clients = AList.delete cid clients; deleted = deleted + 1
           in if maxDeletes \<le> deleted then clients
              else delete_expired now window maxDeletes deleted rest clients
      else delete_expired now window maxDeletes deleted rest clients)"

definition deleteExpiredEntries ::
  "(gostring list \<Rightarrow> gostring list) \<Rightarrow> int \<Rightarrow> int \<Rightarrow> rate_limiter \<Rightarrow> rate_limiter" where
  "deleteExpiredEntries ord now maxDeletes rl =
     rl\<lparr>rl_clients := delete_expired now (rl_window rl) (if maxDeletes \<le> 0 then 1 else maxDeletes) 0
          (range_map ord (rl_clients rl)) (rl_clients rl)\<rparr>"

record decision =
  allowed :: bool
  remaining :: int
  resetUnix :: int
  dec_limit :: int

definition client_full :: "rate_limiter \<Rightarrow> bool" where
  "client_full rl \<longleftrightarrow> rl_maxClients rl \<le> int (length (rl_clients rl))"

text \<open>
  \<^verbatim>\<open>Check\<close> first frees a place for an unknown client when the table is full
  (\<open>make_room\<close>), then counts the request in the window of the client (\<open>count_request\<close>).
\<close>

definition make_room :: "(gostring list \<Rightarrow> gostring list) \<Rightarrow> int \<Rightarrow> gostring \<Rightarrow> rate_limiter \<Rightarrow> rate_limiter" where
  "make_room ord now clientID rl =
     (if map_of (rl_clients rl) clientID = None \<and> client_full rl
      then deleteExpiredEntries ord now (rl_cleanupBatchSize rl) rl else rl)"

definition current_entry :: "int \<Rightarrow> int \<Rightarrow> client_window option \<Rightarrow> client_window" where
  "current_entry now window e =
     (case e of
        None \<Rightarrow> \<lparr>windowStart = now, cw_count = 0\<rparr>
      | Some entry \<Rightarrow>
          if window \<le> time_Sub now (windowStart entry)
          then entry\<lparr>windowStart := now, cw_count := 0\<rparr> else entry)"

definition count_request :: "int \<Rightarrow> gostring \<Rightarrow> rate_limiter \<Rightarrow> decision \<times> rate_limiter" where
  "count_request now clientID rl =
     (let entry = current_entry now (rl_window rl) (map_of (rl_clients rl) clientID);
          ok = cw_count entry < rl_limit rl;
          entry = (if ok then entry\<lparr>cw_count := cw_count entry + 1\<rparr> else entry);
          left = rl_limit rl - cw_count entry
      in (\<lparr>allowed = ok, remaining = (if left < 0 then 0 else left),
           resetUnix = time_Unix (windowStart entry + rl_window rl), dec_limit = rl_limit rl\<rparr>,
          rl\<lparr>rl_clients := AList.update clientID entry (rl_clients rl)\<rparr>))"

definition Check ::
  "(gostring list \<Rightarrow> gostring list) \<Rightarrow> int \<Rightarrow> gostring \<Rightarrow> rate_limiter option \<Rightarrow> decision \<times> rate_limiter option" where
  "Check ord now clientID limiter =
     (case limiter of
        None \<Rightarrow> (\<lparr>allowed = True, remaining = 0, resetUnix = 0, dec_limit = 0\<rparr>, None)
      | Some rl \<Rightarrow>
          if rl_limit rl \<le> 0 \<or> rl_window rl \<le> 0
          then (\<lparr>allowed = True, remaining = rl_limit rl, resetUnix = time_Unix now, dec_limit = rl_limit rl\<rparr>, Some rl)
          else let rl = make_room ord now clientID rl
               in if map_of (rl_clients rl) clientID = None \<and> client_full rl
                  then (\<lparr>allowed = False, remaining = 0, resetUnix = time_Unix (now + rl_window rl),
                         dec_limit = rl_limit rl\<rparr>, Some rl)
                  else map_prod id Some (count_request now clientID rl))"

definition Remaining :: "int \<Rightarrow> gostring \<Rightarrow> rate_limiter option \<Rightarrow> int" where
  "Remaining now clientID limiter =
     (case limiter of
        None \<Rightarrow> 0
      | Some rl \<Rightarrow>
          if rl_limit rl \<le> 0 \<or> rl_window rl \<le> 0 then rl_limit rl
          else (case map_of (rl_clients rl) clientID of
                  None \<Rightarrow> rl_limit rl
                | Some entry \<Rightarrow>
                    if rl_window rl \<le> time_Sub now (windowStart entry) then rl_limit rl
                    else let left = rl_limit rl - cw_count entry in if left < 0 then 0 else left))"

definition AllowWithMetrics where
  "AllowWithMetrics ord now clientID limiter =
     (case Check ord now clientID limiter of (d, limiter) \<Rightarrow> (allowed d, limiter))"

definition Allow where
  "Allow ord now clientID limiter = AllowWithMetrics ord now clientID limiter"

section \<open>The contract of a fixed-window limiter\<close>

text \<open>
  The abstract limiter of one client: the start of its window and the number of requests granted
  in it. A window that has run out counts as none (\<open>live\<close>).
\<close>

type_synonym window_state = "(int \<times> int) option"

definition live :: "int \<Rightarrow> int \<Rightarrow> window_state \<Rightarrow> window_state" where
  "live win t st = (case st of None \<Rightarrow> None | Some (s, n) \<Rightarrow> if win \<le> t - s then None else Some (s, n))"

definition fixed_window :: "int \<Rightarrow> int \<Rightarrow> int \<Rightarrow> window_state \<Rightarrow> bool \<times> window_state" where
  "fixed_window quota win t st =
     (case live win t st of
        None \<Rightarrow> (0 < quota, Some (t, if 0 < quota then 1 else 0))
      | Some (s, n) \<Rightarrow> (n < quota, Some (s, if n < quota then n + 1 else n)))"

fun decisions :: "int \<Rightarrow> int \<Rightarrow> window_state \<Rightarrow> int list \<Rightarrow> bool list" where
  "decisions quota win st [] = []"
| "decisions quota win st (t # ts) =
     (case fixed_window quota win t st of (ok, st) \<Rightarrow> ok # decisions quota win st ts)"

definition granted :: "(int \<times> bool) list \<Rightarrow> int list" where
  "granted tds = map fst (filter snd tds)"

definition in_period :: "int \<Rightarrow> int \<Rightarrow> int list \<Rightarrow> int" where
  "in_period a win ts = int (length (filter (\<lambda>t. a \<le> t \<and> t < a + win) ts))"

lemma live_live: "t \<le> u \<Longrightarrow> live win u (live win t st) = live win u st"
  by (auto simp: live_def split: option.splits)

lemma fixed_window_live: "fixed_window quota win t (live win t st) = fixed_window quota win t st"
  by (simp add: fixed_window_def live_live)

lemma decisions_live:
  "(case ts of [] \<Rightarrow> True | u # us \<Rightarrow> t \<le> u) \<Longrightarrow> decisions quota win (live win t st) ts = decisions quota win st ts"
  by (cases ts) (simp_all add: fixed_window_def live_live)

lemma decisions_cong:
  "live win t st = live win t st' \<Longrightarrow> (case ts of [] \<Rightarrow> True | u # us \<Rightarrow> t \<le> u) \<Longrightarrow>
   decisions quota win st ts = decisions quota win st' ts"
  by (metis decisions_live)

lemma length_decisions [simp]: "length (decisions quota win st ts) = length ts"
  by (induction ts arbitrary: st) (simp_all split: prod.split)

lemma in_period_simps [simp]:
  "in_period a win [] = 0"
  "in_period a win (t # ts) = (if a \<le> t \<and> t < a + win then 1 else 0) + in_period a win ts"
  by (simp_all add: in_period_def)

lemma granted_simps [simp]:
  "granted [] = []"
  "granted ((t, b) # tds) = (if b then t # granted tds else granted tds)"
  by (simp_all add: granted_def)

lemma in_period_later: "\<forall>t\<in>set ts. a + win \<le> t \<Longrightarrow> in_period a win ts = 0"
  by (auto simp: in_period_def filter_empty_conv)

lemma granted_subset: "set (granted (zip ts ds)) \<subseteq> set ts"
  by (auto simp: granted_def dest: set_zip_leftD)

text \<open>A window that begins inside a period is the last one that can grant requests in it.\<close>

lemma granted_in_last_window:
  assumes "sorted ts" "0 < win" "a \<le> s" "n \<le> quota" "\<forall>t\<in>set ts. s \<le> t"
  shows "in_period a win (granted (zip ts (decisions quota win (Some (s, n)) ts))) \<le> quota - n"
  using assms
proof (induction ts arbitrary: n)
  case (Cons t ts)
  show ?case
  proof (cases "win \<le> t - s")
    case True
    let ?ds = "decisions quota win (Some (s, n)) (t # ts)"
    have "\<forall>u\<in>set (t # ts). a + win \<le> u" using True Cons.prems by fastforce
    then have "\<forall>u\<in>set (granted (zip (t # ts) ?ds)). a + win \<le> u"
      using granted_subset [of "t # ts" ?ds] by blast
    then show ?thesis using Cons.prems(4) by (simp only: in_period_later)
  next
    case False
    then have fw: "fixed_window quota win t (Some (s, n)) = (n < quota, Some (s, if n < quota then n + 1 else n))"
      by (simp add: fixed_window_def live_def)
    show ?thesis using Cons.IH [of n] Cons.IH [of "n + 1"] Cons.prems by (auto simp: fw)
  qed
qed simp

definition capacity_left :: "int \<Rightarrow> window_state \<Rightarrow> int" where
  "capacity_left quota st = (case st of None \<Rightarrow> quota | Some (s, n) \<Rightarrow> quota - n)"

lemma granted_from_start:
  assumes "sorted ts" "0 < win" "0 < quota" "\<forall>t\<in>set ts. a \<le> t"
    "\<And>s n. st = Some (s, n) \<Longrightarrow> n \<le> quota"
  shows "in_period a win (granted (zip ts (decisions quota win st ts))) \<le> capacity_left quota st + quota"
  using assms
proof (induction ts arbitrary: st)
  case Nil
  then show ?case by (cases st) (auto simp: capacity_left_def)
next
  case (Cons t ts)
  show ?case
  proof (cases "live win t st")
    case None
    then have fw: "fixed_window quota win t st = (True, Some (t, 1))" using Cons.prems by (simp add: fixed_window_def)
    have "0 \<le> capacity_left quota st" using Cons.prems(3,5) by (cases st) (auto simp: capacity_left_def)
    then show ?thesis using granted_in_last_window [of ts win a t 1 quota] Cons.prems by (auto simp: fw)
  next
    case (Some sn)
    then obtain s n where st: "st = Some (s, n)" by (auto simp: live_def split: option.splits if_splits)
    with Some have fw: "fixed_window quota win t (Some (s, n)) = (n < quota, Some (s, if n < quota then n + 1 else n))"
      by (auto simp: fixed_window_def live_def split: if_splits)
    show ?thesis
      using Cons.IH [of "Some (s, n)"] Cons.IH [of "Some (s, n + 1)"] Cons.prems st
      by (auto simp: fw capacity_left_def)
  qed
qed

definition sane_window :: "int \<Rightarrow> window_state \<Rightarrow> bool" where
  "sane_window quota st \<longleftrightarrow> (case st of None \<Rightarrow> True | Some (s, n) \<Rightarrow> 0 \<le> n \<and> n \<le> quota)"

lemma sane_fixed_window: "sane_window quota st \<Longrightarrow> 0 < quota \<Longrightarrow> sane_window quota (snd (fixed_window quota win t st))"
  by (auto simp: sane_window_def fixed_window_def live_def split: option.splits)

lemma granted_in_two_windows:
  assumes "sorted ts" "0 < win" "0 < quota" "sane_window quota st"
  shows "in_period a win (granted (zip ts (decisions quota win st ts))) \<le> 2 * quota"
  using assms
proof (induction ts arbitrary: st)
  case (Cons t ts)
  show ?case
  proof (cases "a \<le> t")
    case True
    then have "in_period a win (granted (zip (t # ts) (decisions quota win st (t # ts)))) \<le> capacity_left quota st + quota"
      using Cons.prems by (intro granted_from_start) (auto simp: sane_window_def)
    moreover have "capacity_left quota st \<le> quota"
      using Cons.prems(4) by (auto simp: capacity_left_def sane_window_def split: option.splits)
    ultimately show ?thesis by linarith
  next
    case False
    obtain ok st' where fw: "fixed_window quota win t st = (ok, st')" by fastforce
    then have "sane_window quota st'" using sane_fixed_window [OF Cons.prems(4,3), of win t] by simp
    then show ?thesis using Cons.IH [of st'] Cons.prems False by (simp add: fw)
  qed
qed simp


text \<open>
  A history is a list of requests with their decisions, in the order in which the limiter served
  them: time, client, whether it was allowed.
\<close>

type_synonym request_log = "(int \<times> gostring \<times> bool) list"

inductive served :: "('l \<Rightarrow> int \<times> gostring \<times> bool \<Rightarrow> 'l \<Rightarrow> bool) \<Rightarrow> 'l \<Rightarrow> request_log \<Rightarrow> 'l \<Rightarrow> bool"
  for step where
  served_none: "served step l [] l"
| served_next: "step l e m \<Longrightarrow> served step m es l' \<Longrightarrow> served step l (e # es) l'"

inductive_cases served_ConsE [elim]: "served step l (e # es) l'"
inductive_simps served_Nil [simp]: "served step l [] l'"

definition own_requests :: "gostring \<Rightarrow> request_log \<Rightarrow> (int \<times> bool) list" where
  "own_requests c es = map (\<lambda>(t, _, ok). (t, ok)) (filter (\<lambda>(_, c', _). c' = c) es)"

lemma own_requests_simps [simp]:
  "own_requests c [] = []"
  "own_requests c ((t, c', ok) # es) = (if c' = c then (t, ok) # own_requests c es else own_requests c es)"
  by (simp_all add: own_requests_def)

lemma own_requests_times: "fst ` set (own_requests c es) \<subseteq> fst ` set es"
  by (force simp: own_requests_def)

lemma sorted_own_requests: "sorted (map fst es) \<Longrightarrow> sorted (map fst (own_requests c es))"
proof (induction es)
  case (Cons e es)
  then show ?case using own_requests_times [of c es] by (cases e) fastforce
qed simp

lemma set_subseq: "subseq xs ys \<Longrightarrow> set xs \<subseteq> set ys"
  by (auto simp: subseq_conv_nths dest: in_set_nthsD)

lemma own_requests_later:
  assumes "sorted (map fst ((t, c', ok) # es))" "subseq tds (own_requests c es)"
  shows "case map fst tds of [] \<Rightarrow> True | u # us \<Rightarrow> t \<le> u"
proof (cases tds)
  case (Cons td tds')
  then have "td \<in> set (own_requests c es)" using assms(2) by (metis list.set_intros(1) set_subseq subsetD)
  then have "fst td \<in> fst ` set es" using own_requests_times by blast
  then show ?thesis using assms(1) Cons by auto
qed simp

locale window_limiter =
  fixes step :: "'l \<Rightarrow> int \<times> gostring \<times> bool \<Rightarrow> 'l \<Rightarrow> bool"
    and view :: "'l \<Rightarrow> gostring \<Rightarrow> window_state"
    and quota :: "'l \<Rightarrow> int"
    and win :: "'l \<Rightarrow> int"
    and known :: "'l \<Rightarrow> gostring set"
    and places :: "'l \<Rightarrow> int"
    and inv :: "'l \<Rightarrow> bool"
  assumes positive: "inv l \<Longrightarrow> 0 < win l \<and> 0 < quota l"
    and sane: "inv l \<Longrightarrow> sane_window (quota l) (view l c)"
    and known_finite: "inv l \<Longrightarrow> finite (known l)"
    and step_keeps: "inv l \<Longrightarrow> step l (t, c, ok) m \<Longrightarrow>
      inv m \<and> win m = win l \<and> quota m = quota l \<and> places m = places l \<and> known m \<subseteq> insert c (known l)"
    and step_other: "inv l \<Longrightarrow> step l (t, c, ok) m \<Longrightarrow> c' \<noteq> c \<Longrightarrow>
      live (win l) t (view m c') = live (win l) t (view l c')"
    and step_own: "inv l \<Longrightarrow> step l (t, c, ok) m \<Longrightarrow>
      \<not> ok \<and> live (win l) t (view m c) = live (win l) t (view l c) \<or>
      fixed_window (quota l) (win l) t (view l c) = (ok, live (win l) t (view m c))"
    and step_room: "inv l \<Longrightarrow> step l (t, c, ok) m \<Longrightarrow> int (card (insert c (known l))) \<le> places l \<Longrightarrow>
      fixed_window (quota l) (win l) t (view l c) = (ok, live (win l) t (view m c))"
begin

text \<open>
  The requests of one client that were not turned away for want of a place are decided by the
  abstract limiter of that client alone; the others were refused.
\<close>

lemma served_inv: "served step l es m \<Longrightarrow> inv l \<Longrightarrow> inv m \<and> win m = win l \<and> quota m = quota l \<and> places m = places l"
proof (induction rule: served.induct)
  case (served_next l e m es l')
  then show ?case by (cases e) (use step_keeps in force)
qed simp

lemma decided_step:
  assumes "fixed_window (quota l) (win l) t (view l c) = (ok, live (win l) t (view m c))"
    and "case ts of [] \<Rightarrow> True | u # us \<Rightarrow> t \<le> u"
  shows "decisions (quota l) (win l) (view l c) (t # ts) = ok # decisions (quota l) (win l) (view m c) ts"
  using assms by (simp add: decisions_live)

lemma served_simulates:
  assumes "served step l es l'" "inv l" "sorted (map fst es)"
  shows "\<exists>tds. subseq tds (own_requests c es) \<and> granted tds = granted (own_requests c es) \<and>
    map snd tds = decisions (quota l) (win l) (view l c) (map fst tds)"
  using assms
proof (induction rule: served.induct)
  case (served_none l)
  then show ?case by auto
next
  case (served_next l e m es l')
  obtain t c' ok where e: "e = (t, c', ok)" by (cases e)
  have step: "step l (t, c', ok) m" and srt: "sorted (map fst ((t, c', ok) # es))"
    using served_next e by auto
  have m: "inv m" "win m = win l" "quota m = quota l"
    using step_keeps [OF served_next.prems(1) step] by auto
  then obtain tds where tds: "subseq tds (own_requests c es)" "granted tds = granted (own_requests c es)"
    "map snd tds = decisions (quota l) (win l) (view m c) (map fst tds)"
    using served_next.IH srt by auto
  note later = own_requests_later [OF srt tds(1)]
  have same: "?case" if "live (win l) t (view m c) = live (win l) t (view l c)" "c' = c \<longrightarrow> \<not> ok"
    using tds that decisions_cong [OF that(1) later, of "quota l"] e by (intro exI [of _ tds]) auto
  show ?case
  proof (cases "c' = c")
    case False
    then show ?thesis using step_other [OF served_next.prems(1) step, of c] by (intro same) auto
  next
    case True
    then consider "\<not> ok" "live (win l) t (view m c) = live (win l) t (view l c)"
      | "fixed_window (quota l) (win l) t (view l c) = (ok, live (win l) t (view m c))"
      using step_own [OF served_next.prems(1) step] by auto
    then show ?thesis
    proof cases
      case 1
      then show ?thesis by (intro same) auto
    next
      case 2
      then show ?thesis
        using decided_step [OF 2 later] tds e True by (intro exI [of _ "(t, ok) # tds"]) auto
    qed
  qed
qed

lemma at_most_twice:
  assumes "served step l es l'" "inv l" "sorted (map fst es)"
  shows "in_period a (win l) (granted (own_requests c es)) \<le> 2 * quota l"
proof -
  obtain tds where tds: "subseq tds (own_requests c es)" "granted tds = granted (own_requests c es)"
    "map snd tds = decisions (quota l) (win l) (view l c) (map fst tds)"
    using served_simulates [OF assms] by blast
  have "sorted (map fst tds)" using subseq_map [OF tds(1)] sorted_own_requests [OF assms(3)]
    by (metis subseq_conv_nths sorted_nths)
  moreover have "tds = zip (map fst tds) (decisions (quota l) (win l) (view l c) (map fst tds))"
    using tds(3) by (metis zip_map_fst_snd)
  ultimately show ?thesis
    using granted_in_two_windows [of "map fst tds"] positive [OF assms(2)] sane [OF assms(2)] tds(2) by metis
qed

lemma served_isolated:
  assumes "served step l es l'" "inv l" "sorted (map fst es)"
    and "int (card (known l \<union> (fst \<circ> snd) ` set es)) \<le> places l"
  shows "map snd (own_requests c es) = decisions (quota l) (win l) (view l c) (map fst (own_requests c es))"
  using assms
proof (induction rule: served.induct)
  case (served_next l e m es l')
  obtain t c' ok where e: "e = (t, c', ok)" by (cases e)
  have step: "step l (t, c', ok) m" and srt: "sorted (map fst ((t, c', ok) # es))"
    using served_next e by auto
  have m: "inv m" "win m = win l" "quota m = quota l" "places m = places l" "known m \<subseteq> insert c' (known l)"
    using step_keeps [OF served_next.prems(1) step] by auto
  have fin: "finite (known l \<union> (fst \<circ> snd) ` set (e # es))" using known_finite [OF served_next.prems(1)] by simp
  have "card (known m \<union> (fst \<circ> snd) ` set es) \<le> card (known l \<union> (fst \<circ> snd) ` set (e # es))"
    using m(5) e by (intro card_mono [OF fin]) auto
  then have IH: "map snd (own_requests c es) = decisions (quota l) (win l) (view m c) (map fst (own_requests c es))"
    using served_next.IH served_next.prems m srt by auto
  have "card (insert c' (known l)) \<le> card (known l \<union> (fst \<circ> snd) ` set (e # es))"
    using e by (intro card_mono [OF fin]) auto
  then have room: "fixed_window (quota l) (win l) t (view l c') = (ok, live (win l) t (view m c'))"
    using step_room [OF served_next.prems(1) step] served_next.prems(3) by linarith
  note later = own_requests_later [OF srt subseq_order.refl, of c]
  show ?case
  proof (cases "c' = c")
    case False
    then show ?thesis
      using IH decisions_cong [OF step_other [OF served_next.prems(1) step] later] e by auto
  next
    case True
    then show ?thesis using decided_step [OF _ later] room IH e by auto
  qed
qed simp

end

section \<open>The limiter meets the contract\<close>

definition limiter_step :: "rate_limiter \<Rightarrow> int \<times> gostring \<times> bool \<Rightarrow> rate_limiter \<Rightarrow> bool" where
  "limiter_step rl e m \<longleftrightarrow>
     (\<exists>ord d. iteration_order ord \<and> Check ord (fst e) (fst (snd e)) (Some rl) = (d, Some m) \<and> allowed d = snd (snd e))"

definition entry_view :: "client_window \<Rightarrow> int \<times> int" where
  "entry_view e = (windowStart e, cw_count e)"

definition limiter_view :: "rate_limiter \<Rightarrow> gostring \<Rightarrow> window_state" where
  "limiter_view rl c = map_option entry_view (map_of (rl_clients rl) c)"

definition known_clients :: "rate_limiter \<Rightarrow> gostring set" where
  "known_clients rl = set (gm_keys (rl_clients rl))"

definition limiter_inv :: "rate_limiter \<Rightarrow> bool" where
  "limiter_inv rl \<longleftrightarrow>
     0 < rl_limit rl \<and> 0 < rl_window rl \<and> rl_window rl < 2 ^ 62 \<and> distinct (gm_keys (rl_clients rl)) \<and>
     int (length (rl_clients rl)) \<le> max 0 (rl_maxClients rl) \<and>
     (\<forall>c. sane_window (rl_limit rl) (limiter_view rl c))"

lemma window_doubled: "limiter_inv rl \<Longrightarrow> wrap64 (rl_window rl * 2) = rl_window rl * 2"
  by (rule wrap64_id) (auto simp: limiter_inv_def int64_def)

lemma delete_expired_facts:
  assumes "distinct (gm_keys clients)" "set kvs \<subseteq> set m" "distinct (gm_keys m)"
  shows "distinct (gm_keys (delete_expired now window k d kvs clients)) \<and>
    length (delete_expired now window k d kvs clients) \<le> length clients \<and>
    (map_of (delete_expired now window k d kvs clients) c = map_of clients c \<or>
     map_of (delete_expired now window k d kvs clients) c = None \<and>
     (\<exists>e. map_of m c = Some e \<and> wrap64 (window * 2) < time_Sub now (windowStart e)))"
  using assms
proof (induction now window k d kvs clients rule: delete_expired.induct)
  case (2 now window k d cid entry rest clients)
  have del: "distinct (gm_keys (AList.delete cid clients))" "length (AList.delete cid clients) \<le> length clients"
    using "2.prems"(1) by (simp_all add: gm_keys_def distinct_delete length_delete_le)
  have e: "map_of m cid = Some entry" using "2.prems"(2,3) by (auto simp: gm_keys_def)
  have sub: "set rest \<subseteq> set m" using "2.prems"(2) by simp
  have d: "map_of (AList.delete cid clients) c = (if c = cid then None else map_of clients c)" by (simp add: delete_conv')
  show ?case
  proof (cases "wrap64 (window * 2) < time_Sub now (windowStart entry)")
    case True
    then show ?thesis using "2.IH"(1) [OF True refl refl _ del(1) sub "2.prems"(3)] del e
      by (auto simp: Let_def d split: if_splits)
  next
    case False
    then show ?thesis using "2.IH"(2) [OF False "2.prems"(1) sub "2.prems"(3)] by simp
  qed
qed simp

lemma make_room_fields [simp]:
  "rl_window (make_room ord t c rl) = rl_window rl" "rl_limit (make_room ord t c rl) = rl_limit rl"
  "rl_maxClients (make_room ord t c rl) = rl_maxClients rl"
  by (simp_all add: make_room_def deleteExpiredEntries_def)

lemma make_room_entry:
  assumes "limiter_inv rl" "iteration_order ord"
  shows "distinct (gm_keys (rl_clients (make_room ord t c rl))) \<and>
    length (rl_clients (make_room ord t c rl)) \<le> length (rl_clients rl) \<and>
    (map_of (rl_clients (make_room ord t c rl)) c' = map_of (rl_clients rl) c' \<or>
     map_of (rl_clients (make_room ord t c rl)) c' = None \<and>
     (\<exists>e. map_of (rl_clients rl) c' = Some e \<and> rl_window rl * 2 < t - windowStart e))"
proof -
  let ?k = "if rl_cleanupBatchSize rl \<le> 0 then 1 else rl_cleanupBatchSize rl"
  have dis: "distinct (gm_keys (rl_clients rl))" using assms(1) by (simp add: limiter_inv_def)
  then have sub: "set (range_map ord (rl_clients rl)) \<subseteq> set (rl_clients rl)"
    by (simp add: set_range_map [OF assms(2)])
  have gt: "rl_window rl * 2 < time_Sub t u \<longleftrightarrow> rl_window rl * 2 < t - u" for u
    using assms(1) by (intro time_Sub_gt) (auto simp: limiter_inv_def)
  note del = delete_expired_facts [OF dis sub dis, of t "rl_window rl" ?k 0 c', unfolded window_doubled [OF assms(1)] gt]
  show ?thesis using dis del by (auto simp: make_room_def deleteExpiredEntries_def)
qed

lemma make_room_keeps:
  assumes "limiter_inv rl" "iteration_order ord"
  shows "limiter_inv (make_room ord t c rl)"
    and "live (rl_window rl) t (limiter_view (make_room ord t c rl) c') = live (rl_window rl) t (limiter_view rl c')"
    and "known_clients (make_room ord t c rl) \<subseteq> known_clients rl"
proof -
  note room = make_room_entry [OF assms]
  have view: "limiter_view (make_room ord t c rl) c' \<in> {None, limiter_view rl c'}" for c'
    using room [of t c c'] by (auto simp: limiter_view_def)
  have "sane_window (rl_limit rl) (limiter_view (make_room ord t c rl) c')" for c'
    using view [of c'] assms(1) by (auto simp: limiter_inv_def sane_window_def split: option.splits)
  then show "limiter_inv (make_room ord t c rl)"
    using assms(1) room [of t c undefined] by (auto simp: limiter_inv_def)
  have "0 < rl_window rl" using assms(1) by (simp add: limiter_inv_def)
  then show "live (rl_window rl) t (limiter_view (make_room ord t c rl) c') = live (rl_window rl) t (limiter_view rl c')"
    using room [of t c c'] by (auto simp: live_def limiter_view_def entry_view_def)
  show "known_clients (make_room ord t c rl) \<subseteq> known_clients rl"
  proof
    fix x assume "x \<in> known_clients (make_room ord t c rl)"
    then show "x \<in> known_clients rl" using room [of t c x] by (auto simp: known_clients_def set_gm_keys)
  qed
qed

lemma current_entry_view:
  assumes "limiter_inv rl"
  shows "entry_view (current_entry t (rl_window rl) (map_of (rl_clients rl) c)) =
    (case live (rl_window rl) t (limiter_view rl c) of None \<Rightarrow> (t, 0) | Some sn \<Rightarrow> sn)"
proof -
  have "rl_window rl \<le> time_Sub t s \<longleftrightarrow> rl_window rl \<le> t - s" for s
    using assms by (intro time_Sub_ge) (auto simp: limiter_inv_def int64_def)
  then show ?thesis
    by (auto simp: current_entry_def live_def limiter_view_def entry_view_def split: option.splits)
qed

lemma length_update: "length (AList.update k v m) = (if map_of m k = None then Suc (length m) else length m)"
  by (induction m) auto

lemma count_request_keeps:
  assumes "limiter_inv rl" "count_request t c rl = (d, m)"
    and "map_of (rl_clients rl) c = None \<Longrightarrow> \<not> client_full rl"
  shows "limiter_inv m" and "c' \<noteq> c \<Longrightarrow> limiter_view m c' = limiter_view rl c'"
    and "fixed_window (rl_limit rl) (rl_window rl) t (limiter_view rl c) =
      (allowed d, live (rl_window rl) t (limiter_view m c))"
    and "known_clients m = insert c (known_clients rl)"
    and "rl_window m = rl_window rl \<and> rl_limit m = rl_limit rl \<and> rl_maxClients m = rl_maxClients rl"
proof -
  let ?e = "current_entry t (rl_window rl) (map_of (rl_clients rl) c)"
  let ?e' = "if cw_count ?e < rl_limit rl then ?e\<lparr>cw_count := cw_count ?e + 1\<rparr> else ?e"
  have m: "m = rl\<lparr>rl_clients := AList.update c ?e' (rl_clients rl)\<rparr>" and ok: "allowed d = (cw_count ?e < rl_limit rl)"
    using assms(2) by (auto simp: count_request_def Let_def)
  note view = current_entry_view [OF assms(1), of t c, unfolded entry_view_def]
  have pos: "0 < rl_limit rl" "0 < rl_window rl" using assms(1) by (auto simp: limiter_inv_def)
  have own: "limiter_view m c = Some (entry_view ?e')" by (simp add: m limiter_view_def update_conv')
  show other: "c' \<noteq> c \<Longrightarrow> limiter_view m c' = limiter_view rl c'" for c' by (simp add: m limiter_view_def update_conv')
  show fw: "fixed_window (rl_limit rl) (rl_window rl) t (limiter_view rl c) =
      (allowed d, live (rl_window rl) t (limiter_view m c))"
    using view pos unfolding own
    by (auto simp: fixed_window_def ok entry_view_def live_def split: option.splits if_splits)
  show "known_clients m = insert c (known_clients rl)" by (simp add: m known_clients_def set_gm_keys_update)
  have "live (rl_window rl) t (limiter_view m c) = limiter_view m c"
    using fw by (auto simp: fixed_window_def live_def split: option.splits if_splits)
  then have "sane_window (rl_limit rl) (limiter_view m c)"
    using fw sane_fixed_window [OF _ pos(1), of "limiter_view rl c" "rl_window rl" t] assms(1)
    by (simp add: limiter_inv_def)
  then have "sane_window (rl_limit rl) (limiter_view m c')" for c'
    using other [of c'] assms(1) by (cases "c' = c") (auto simp: limiter_inv_def)
  moreover have "int (length (rl_clients m)) \<le> max 0 (rl_maxClients rl)"
    using assms(1,3) by (auto simp: m limiter_inv_def length_update client_full_def)
  ultimately show "limiter_inv m"
    using assms(1) by (simp add: limiter_inv_def m distinct_gm_keys_update)
  show "rl_window m = rl_window rl \<and> rl_limit m = rl_limit rl \<and> rl_maxClients m = rl_maxClients rl" by (simp add: m)
qed

text \<open>A request either finds no place and changes nothing that matters, or is counted.\<close>

lemma Check_cases:
  assumes "limiter_inv rl" "iteration_order ord" "Check ord t c (Some rl) = (d, Some m)"
  obtains (turned_away) "m = make_room ord t c rl" "\<not> allowed d" "map_of (rl_clients rl) c = None" "client_full m"
  | (counted) "count_request t c (make_room ord t c rl) = (d, m)"
      "map_of (rl_clients (make_room ord t c rl)) c = None \<Longrightarrow> \<not> client_full (make_room ord t c rl)"
proof -
  have pos: "\<not> (rl_limit rl \<le> 0 \<or> rl_window rl \<le> 0)" using assms(1) by (simp add: limiter_inv_def)
  have "map_of (rl_clients rl) c = None" if "map_of (rl_clients (make_room ord t c rl)) c = None"
    using that make_room_entry [OF assms(1,2), of t c c] by (auto simp: make_room_def split: if_splits)
  then show thesis
    using assms(3) pos that by (auto simp: Check_def Let_def map_prod_def split: if_splits prod.splits)
qed

lemma Check_step:
  assumes "limiter_inv rl" "limiter_step rl (t, c, ok) m"
  shows "limiter_inv m \<and> rl_window m = rl_window rl \<and> rl_limit m = rl_limit rl \<and>
      rl_maxClients m = rl_maxClients rl \<and> known_clients m \<subseteq> insert c (known_clients rl)"
    and "c' \<noteq> c \<Longrightarrow> live (rl_window rl) t (limiter_view m c') = live (rl_window rl) t (limiter_view rl c')"
    and "\<not> ok \<and> live (rl_window rl) t (limiter_view m c) = live (rl_window rl) t (limiter_view rl c) \<and>
        c \<notin> known_clients rl \<and> rl_maxClients rl \<le> int (card (known_clients rl)) \<or>
      fixed_window (rl_limit rl) (rl_window rl) t (limiter_view rl c) =
        (ok, live (rl_window rl) t (limiter_view m c))"
proof -
  obtain ord d where ord: "iteration_order ord" and chk: "Check ord t c (Some rl) = (d, Some m)"
    and ok: "allowed d = ok" using assms(2) by (auto simp: limiter_step_def)
  note room = make_room_keeps [OF assms(1) ord, of t c]
  note cases = Check_cases [OF assms(1) ord chk]
  show "limiter_inv m \<and> rl_window m = rl_window rl \<and> rl_limit m = rl_limit rl \<and>
      rl_maxClients m = rl_maxClients rl \<and> known_clients m \<subseteq> insert c (known_clients rl)"
  proof (rule cases)
    assume "count_request t c (make_room ord t c rl) = (d, m)"
      and "map_of (rl_clients (make_room ord t c rl)) c = None \<Longrightarrow> \<not> client_full (make_room ord t c rl)"
    note count_request_keeps [OF room(1) this]
    then show ?thesis using room(3) by auto
  qed (use room in auto)
  show "c' \<noteq> c \<Longrightarrow> live (rl_window rl) t (limiter_view m c') = live (rl_window rl) t (limiter_view rl c')"
    using room(2) by (rule_tac cases) (auto dest: count_request_keeps(2) [OF room(1)])
  have "length (rl_clients m) \<le> card (known_clients rl)" if "m = make_room ord t c rl"
    using make_room_entry [OF assms(1) ord, of t c c] assms(1) that
    by (simp add: known_clients_def limiter_inv_def distinct_card) (simp add: gm_keys_def)
  moreover have "fixed_window (rl_limit rl) (rl_window rl) t (limiter_view (make_room ord t c rl) c) =
      fixed_window (rl_limit rl) (rl_window rl) t (limiter_view rl c)"
    using fixed_window_live [of _ _ t] room(2) by metis
  ultimately show "\<not> ok \<and> live (rl_window rl) t (limiter_view m c) = live (rl_window rl) t (limiter_view rl c) \<and>
        c \<notin> known_clients rl \<and> rl_maxClients rl \<le> int (card (known_clients rl)) \<or>
      fixed_window (rl_limit rl) (rl_window rl) t (limiter_view rl c) =
        (ok, live (rl_window rl) t (limiter_view m c))"
    using room(2) ok
    by (rule_tac cases) (auto dest: count_request_keeps(3) [OF room(1)] simp: known_clients_def set_gm_keys client_full_def dom_def)
qed

interpretation limiter: window_limiter limiter_step limiter_view rl_limit rl_window known_clients rl_maxClients limiter_inv
proof (rule window_limiter.intro)
  fix rl c
  assume "limiter_inv rl"
  then show "0 < rl_window rl \<and> 0 < rl_limit rl" "sane_window (rl_limit rl) (limiter_view rl c)"
    "finite (known_clients rl)" by (simp_all add: limiter_inv_def known_clients_def)
next
  fix rl t c ok m c'
  assume inv: "limiter_inv rl" and step: "limiter_step rl (t, c, ok) m"
  note check = Check_step [OF inv step]
  show "limiter_inv m \<and> rl_window m = rl_window rl \<and> rl_limit m = rl_limit rl \<and> rl_maxClients m = rl_maxClients rl \<and>
    known_clients m \<subseteq> insert c (known_clients rl)" by (rule check(1))
  show "c' \<noteq> c \<Longrightarrow> live (rl_window rl) t (limiter_view m c') = live (rl_window rl) t (limiter_view rl c')" by (rule check(2))
  show "\<not> ok \<and> live (rl_window rl) t (limiter_view m c) = live (rl_window rl) t (limiter_view rl c) \<or>
    fixed_window (rl_limit rl) (rl_window rl) t (limiter_view rl c) = (ok, live (rl_window rl) t (limiter_view m c))"
    using check(3) by blast
  assume "int (card (insert c (known_clients rl))) \<le> rl_maxClients rl"
  then show "fixed_window (rl_limit rl) (rl_window rl) t (limiter_view rl c) = (ok, live (rl_window rl) t (limiter_view m c))"
    using check(3) by (auto simp: known_clients_def)
qed

section \<open>Histories of a fresh limiter\<close>

text \<open>A sequence of requests served one after the other, with one iteration order.\<close>

fun serve :: "(gostring list \<Rightarrow> gostring list) \<Rightarrow> (int \<times> gostring) list \<Rightarrow> rate_limiter \<Rightarrow> request_log \<times> rate_limiter option" where
  "serve ord [] rl = ([], Some rl)"
| "serve ord ((t, c) # rs) rl =
     (case Check ord t c (Some rl) of
        (d, None) \<Rightarrow> ([], None)
      | (d, Some m) \<Rightarrow> map_prod (Cons (t, c, allowed d)) id (serve ord rs m))"

lemma serve_served:
  "iteration_order ord \<Longrightarrow> serve ord rs rl = (es, Some m) \<Longrightarrow> served limiter_step rl es m"
proof (induction rs arbitrary: rl es)
  case (Cons r rs)
  obtain t c where r: "r = (t, c)" by (cases r)
  then obtain d rl' es' where "Check ord t c (Some rl) = (d, Some rl')" "serve ord rs rl' = (es', Some m)"
    "es = (t, c, allowed d) # es'"
    using Cons.prems(2) by (auto simp: map_prod_def split: prod.splits option.splits)
  then show ?case
    using Cons.IH Cons.prems(1) by (auto simp: limiter_step_def intro!: served_next)
qed (auto intro: served_none)

lemma NewRateLimiter_inv: "0 < limit \<Longrightarrow> 0 < window \<Longrightarrow> window < 2 ^ 62 \<Longrightarrow> limiter_inv (NewRateLimiter limit window)"
  by (simp add: limiter_inv_def NewRateLimiter_def sane_window_def limiter_view_def)

lemma NewRateLimiter_simps [simp]:
  "rl_window (NewRateLimiter limit window) = window" "rl_limit (NewRateLimiter limit window) = limit"
  "rl_maxClients (NewRateLimiter limit window) = 10000" "known_clients (NewRateLimiter limit window) = {}"
  "limiter_view (NewRateLimiter limit window) c = None"
  by (simp_all add: NewRateLimiter_def known_clients_def limiter_view_def)

text \<open>
  What \<^verbatim>\<open>Check\<close> announces as remaining is what \<^verbatim>\<open>Remaining\<close> reports until the window of
  the client ends.
\<close>

lemma Remaining_after_Check:
  assumes "limiter_inv rl" "iteration_order ord" "Check ord t c (Some rl) = (d, Some m)"
    and "map_of (rl_clients m) c = Some e" "u - windowStart e < rl_window rl"
  shows "Remaining u c (Some m) = remaining d"
proof (rule Check_cases [OF assms(1-3)])
  assume counted: "count_request t c (make_room ord t c rl) = (d, m)"
  have pos: "\<not> (rl_limit rl \<le> 0 \<or> rl_window rl \<le> 0)" and i: "int64 (rl_window rl)" "0 < rl_window rl"
    using assms(1) by (auto simp: limiter_inv_def int64_def)
  have m: "rl_window m = rl_window rl" "rl_limit m = rl_limit rl" "remaining d = max 0 (rl_limit rl - cw_count e)"
    using counted assms(4) by (auto simp: count_request_def Let_def update_conv')
  have "\<not> rl_window rl \<le> time_Sub u (windowStart e)" using time_Sub_ge [OF i] assms(5) by simp
  then show ?thesis using pos assms(4) by (simp add: Remaining_def Let_def m)
qed (use assms make_room_entry [OF assms(1,2), of t c c] in auto)

section \<open>Main results\<close>


text \<open>Two requests of one client within a minute, one request per minute allowed.\<close>

lemma serve_example:
  "serve (\<lambda>ks. ks) [(0, ''ann''), (1, ''bob''), (2, ''ann'')] (NewRateLimiter 1 60) =
     ([(0, ''ann'', True), (1, ''bob'', True), (2, ''ann'', False)],
      Some ((NewRateLimiter 1 60)\<lparr>rl_clients := [(''ann'', \<lparr>windowStart = 0, cw_count = 1\<rparr>),
        (''bob'', \<lparr>windowStart = 1, cw_count = 1\<rparr>)]\<rparr>))"
  by (simp add: NewRateLimiter_def Check_def make_room_def client_full_def count_request_def current_entry_def
      Let_def time_Sub_def)


text \<open>
  C22: clients do not disturb each other. In a history with at most 10000 different clients, the
  decisions for a client are those of a limiter that serves this client alone: they depend on the
  times of its own requests and on nothing else, in particular not on the iteration orders and on
  what the clean-up removed.
\<close>

theorem rate_limit_isolated:
  assumes "0 < limit" "0 < window" "window < 2 ^ 62"
    and "served limiter_step (NewRateLimiter limit window) es rl" "sorted (map fst es)"
    and "card ((fst \<circ> snd) ` set es) \<le> 10000"
  shows "map snd (own_requests c es) = decisions limit window None (map fst (own_requests c es))"
  using limiter.served_isolated [OF assms(4) NewRateLimiter_inv [OF assms(1-3)] assms(5), of c] assms(6) by simp

theorem rate_limit_isolated_witness:
  "map snd (own_requests ''ann'' [(0, ''ann'', True), (1, ''bob'', True), (2, ''ann'', False)]) = decisions 1 60 None [0, 2]"
  using rate_limit_isolated [of 1 60, OF _ _ _ serve_served [OF iteration_order_id serve_example], of "''ann''"]
  by (simp add: card_insert_if)

end
