(* ===== verification/Http.thy ===== *)
theory Http
  imports Strconv
begin

text \<open>
  The parts of Go's \<^verbatim>\<open>net/http\<close> that the middleware uses: header maps with canonical
  keys, and response writers. A response writer is a value of the interface
  \<^verbatim>\<open>http.ResponseWriter\<close>; its three implementations here are the connection, the status
  recorder of \<^verbatim>\<open>internal/api/metrics.go\<close> and the buffering writer of
  \<^verbatim>\<open>internal/api/middleware.go\<close>, which wrap another writer. A body is its bytes.
\<close>

section \<open>Headers\<close>

type_synonym header = "(gostring, gostring list) gomap"

definition upper_char :: "char \<Rightarrow> char" where
  "upper_char c = (if 97 \<le> (of_char c :: nat) \<and> (of_char c :: nat) \<le> 122
                   then char_of ((of_char c :: nat) - 32) else c)"

definition token_char :: "char \<Rightarrow> bool" where
  "token_char c \<longleftrightarrow> (let n = (of_char c :: nat) in
     48 \<le> n \<and> n \<le> 57 \<or> 65 \<le> n \<and> n \<le> 90 \<or> 97 \<le> n \<and> n \<le> 122 \<or>
     c \<in> set ''!#$%&*+-.^_`|~'' \<or> n = 39)"

fun canonical_chars :: "bool \<Rightarrow> gostring \<Rightarrow> gostring" where
  "canonical_chars upper [] = []"
| "canonical_chars upper (c # cs) =
     (if upper then upper_char c else lower_char c) # canonical_chars (c = CHR ''-'') cs"

text \<open>\<^verbatim>\<open>textproto.CanonicalMIMEHeaderKey\<close>: a key with a byte that no token has is kept as it is.\<close>

definition CanonicalHeaderKey :: "gostring \<Rightarrow> gostring" where
  "CanonicalHeaderKey k = (if list_all token_char k then canonical_chars True k else k)"

definition h_Values :: "gostring \<Rightarrow> header \<Rightarrow> gostring list" where
  "h_Values k h = adj_of h (CanonicalHeaderKey k)"

definition h_Get :: "gostring \<Rightarrow> header \<Rightarrow> gostring" where
  "h_Get k h = (case h_Values k h of [] \<Rightarrow> [] | v # _ \<Rightarrow> v)"

definition h_Set :: "gostring \<Rightarrow> gostring \<Rightarrow> header \<Rightarrow> header" where
  "h_Set k v h = AList.update (CanonicalHeaderKey k) [v] h"

definition h_Add :: "gostring \<Rightarrow> gostring \<Rightarrow> header \<Rightarrow> header" where
  "h_Add k v h = push (CanonicalHeaderKey k) v h"

definition h_Del :: "gostring \<Rightarrow> header \<Rightarrow> header" where
  "h_Del k h = AList.delete (CanonicalHeaderKey k) h"

text \<open>The loop \<^verbatim>\<open>for k, values := range h { for _, v := range values { dst.Add(k, v) } }\<close>.\<close>

definition copy_header :: "(gostring list \<Rightarrow> gostring list) \<Rightarrow> header \<Rightarrow> header \<Rightarrow> header" where
  "copy_header ord src dst = fold (\<lambda>(k, vs) dst. fold (h_Add k) vs dst) (range_map ord src) dst"

lemma canonical_chars_idem: "canonical_chars b (canonical_chars b cs) = canonical_chars b cs"
proof -
  have up: "upper_char (upper_char c) = upper_char c" "(upper_char c = CHR ''-'') = (c = CHR ''-'')" for c
    by (auto simp: upper_char_def dest!: arg_cong [where f = "of_char :: char \<Rightarrow> nat"])
  have lo: "lower_char (lower_char c) = lower_char c" "(lower_char c = CHR ''-'') = (c = CHR ''-'')" for c
    by (auto simp: lower_char_def dest!: arg_cong [where f = "of_char :: char \<Rightarrow> nat"])
  show ?thesis by (induction b cs rule: canonical_chars.induct) (auto simp: up lo)
qed

section \<open>Response writers\<close>

text \<open>
  The connection sends the status and the headers as they are at the first
  \<^verbatim>\<open>WriteHeader\<close>; later calls of it change nothing, and a write without one sends status 200.
\<close>

record conn =
  c_header :: header
  c_sent :: "(int \<times> header) option"
  c_body :: gostring

record buffer =
  bf_header :: "header option"
  bf_body :: gostring
  bf_status :: int
  bf_committed :: bool

datatype writer = Conn conn | Recorder int writer | Buffered buffer writer

definition StatusOK :: int where "StatusOK = 200"

definition conn_WriteHeader :: "int \<Rightarrow> conn \<Rightarrow> conn" where
  "conn_WriteHeader status c = (if c_sent c = None then c\<lparr>c_sent := Some (status, c_header c)\<rparr> else c)"

definition conn_Write :: "gostring \<Rightarrow> conn \<Rightarrow> conn" where
  "conn_Write p c = (let c = conn_WriteHeader StatusOK c in c\<lparr>c_body := c_body c @ p\<rparr>)"

definition buffer_header :: "buffer \<Rightarrow> header" where
  "buffer_header b = (case bf_header b of None \<Rightarrow> [] | Some h \<Rightarrow> h)"

text \<open>\<^verbatim>\<open>Header()\<close>, and a change of the map it returns.\<close>

fun w_Header :: "writer \<Rightarrow> header" where
  "w_Header (Conn c) = c_header c"
| "w_Header (Recorder s w) = w_Header w"
| "w_Header (Buffered b w) = (if bf_committed b then w_Header w else buffer_header b)"

fun w_update :: "(header \<Rightarrow> header) \<Rightarrow> writer \<Rightarrow> writer" where
  "w_update f (Conn c) = Conn (c\<lparr>c_header := f (c_header c)\<rparr>)"
| "w_update f (Recorder s w) = Recorder s (w_update f w)"
| "w_update f (Buffered b w) =
     (if bf_committed b then Buffered b (w_update f w)
      else Buffered (b\<lparr>bf_header := Some (f (buffer_header b))\<rparr>) w)"

fun w_WriteHeader :: "int \<Rightarrow> writer \<Rightarrow> writer" where
  "w_WriteHeader status (Conn c) = Conn (conn_WriteHeader status c)"
| "w_WriteHeader status (Recorder s w) = Recorder status (w_WriteHeader status w)"
| "w_WriteHeader status (Buffered b w) =
     Buffered (if bf_status b \<noteq> 0 then b else b\<lparr>bf_status := status\<rparr>) w"

fun w_Write :: "gostring \<Rightarrow> writer \<Rightarrow> writer" where
  "w_Write p (Conn c) = Conn (conn_Write p c)"
| "w_Write p (Recorder s w) = Recorder s (w_Write p w)"
| "w_Write p (Buffered b w) =
     (if bf_committed b then Buffered b (w_Write p w)
      else let b = (if bf_status b = 0 then b\<lparr>bf_status := StatusOK\<rparr> else b)
           in Buffered (b\<lparr>bf_body := bf_body b @ p\<rparr>) w)"

definition commitBuffered :: "(gostring list \<Rightarrow> gostring list) \<Rightarrow> buffer \<Rightarrow> writer \<Rightarrow> buffer \<times> writer" where
  "commitBuffered ord b w =
     (if bf_committed b then (b, w)
      else let b = (if bf_status b = 0 then b\<lparr>bf_status := StatusOK\<rparr> else b);
               w = w_update (copy_header ord (buffer_header b)) w;
               w = w_WriteHeader (bf_status b) w
           in if bf_body b \<noteq> [] then (b\<lparr>bf_body := [], bf_committed := True\<rparr>, w_Write (bf_body b) w)
              else (b\<lparr>bf_committed := True\<rparr>, w))"

text \<open>
  \<^verbatim>\<open>Flush\<close>. The recorder embeds the interface \<^verbatim>\<open>http.ResponseWriter\<close>, which has no such
  method, so a recorder is no \<^verbatim>\<open>http.Flusher\<close> and a flush above it stops there.
\<close>

fun nesting :: "writer \<Rightarrow> nat" where
  "nesting (Conn c) = 0"
| "nesting (Recorder s w) = Suc (nesting w)"
| "nesting (Buffered b w) = Suc (nesting w)"

lemma nesting_update [simp]: "nesting (w_update f w) = nesting w"
  by (induction w) auto

lemma nesting_WriteHeader [simp]: "nesting (w_WriteHeader s w) = nesting w"
  by (induction w) auto

lemma nesting_Write [simp]: "nesting (w_Write p w) = nesting w"
  by (induction w) (auto simp: Let_def)

lemma nesting_commit [simp]: "nesting (snd (commitBuffered ord b w)) = nesting w"
  by (simp add: commitBuffered_def Let_def)

definition flush_commit :: "(gostring list \<Rightarrow> gostring list) \<Rightarrow> buffer \<Rightarrow> writer \<Rightarrow> buffer \<times> writer" where
  "flush_commit ord b w =
     (if \<not> bf_committed b \<and> (bf_status b \<noteq> 0 \<or> bf_header b \<noteq> None \<or> bf_body b \<noteq> [])
      then commitBuffered ord b w else (b, w))"

lemma nesting_flush_commit [simp]: "nesting (snd (flush_commit ord b w)) = nesting w"
  by (simp add: flush_commit_def)

function w_Flush :: "(gostring list \<Rightarrow> gostring list) \<Rightarrow> writer \<Rightarrow> writer" where
  "w_Flush ord (Conn c) = Conn (conn_WriteHeader StatusOK c)"
| "w_Flush ord (Recorder s w) = Recorder s w"
| "w_Flush ord (Buffered b w) = Buffered (fst (flush_commit ord b w)) (w_Flush ord (snd (flush_commit ord b w)))"
  by pat_completeness auto
termination by (relation "measure (nesting \<circ> snd)") auto

text \<open>What reaches the client once the handler has returned: status, headers and body.\<close>

fun connection :: "writer \<Rightarrow> conn" where
  "connection (Conn c) = c"
| "connection (Recorder s w) = connection w"
| "connection (Buffered b w) = connection w"

definition response :: "writer \<Rightarrow> int \<times> header \<times> gostring" where
  "response w = (let c = conn_WriteHeader StatusOK (connection w)
                 in (fst (the (c_sent c)), snd (the (c_sent c)), c_body c))"

text \<open>The use a handler makes of its writer.\<close>

datatype writer_call =
    HeaderSet gostring gostring
  | HeaderAdd gostring gostring
  | HeaderDel gostring
  | WriteHeader int
  | Write gostring
  | Flush

fun do_call :: "(gostring list \<Rightarrow> gostring list) \<Rightarrow> writer_call \<Rightarrow> writer \<Rightarrow> writer" where
  "do_call ord (HeaderSet k v) w = w_update (h_Set k v) w"
| "do_call ord (HeaderAdd k v) w = w_update (h_Add k v) w"
| "do_call ord (HeaderDel k) w = w_update (h_Del k) w"
| "do_call ord (WriteHeader s) w = w_WriteHeader s w"
| "do_call ord (Write p) w = w_Write p w"
| "do_call ord Flush w = w_Flush ord w"

definition perform :: "(gostring list \<Rightarrow> gostring list) \<Rightarrow> writer_call list \<Rightarrow> writer \<Rightarrow> writer" where
  "perform ord calls w = fold (do_call ord) calls w"

section \<open>Lookups in headers\<close>

lemma token_char_canonical:
  "token_char c \<Longrightarrow> token_char (upper_char c)" "token_char c \<Longrightarrow> token_char (lower_char c)"
  by (auto simp: token_char_def upper_char_def lower_char_def Let_def)

lemma CanonicalHeaderKey_idem [simp]: "CanonicalHeaderKey (CanonicalHeaderKey k) = CanonicalHeaderKey k"
proof -
  have "list_all token_char cs \<Longrightarrow> list_all token_char (canonical_chars b cs)" for b cs
    by (induction b cs rule: canonical_chars.induct) (auto simp: token_char_canonical)
  then show ?thesis by (simp add: CanonicalHeaderKey_def canonical_chars_idem)
qed

definition canonical_header :: "header \<Rightarrow> bool" where
  "canonical_header h \<longleftrightarrow> distinct (gm_keys h) \<and> (\<forall>k\<in>set (gm_keys h). CanonicalHeaderKey k = k)"

lemma canonical_Nil [simp]: "canonical_header []"
  by (simp add: canonical_header_def)

lemma gm_keys_delete: "gm_keys (AList.delete k h) = removeAll k (gm_keys h)"
  by (simp add: gm_keys_def delete_keys)

lemma canonical_ops [simp]:
  assumes "canonical_header h"
  shows "canonical_header (h_Set k v h)" "canonical_header (h_Add k v h)" "canonical_header (h_Del k h)"
  using assms
  by (auto simp: canonical_header_def h_Set_def h_Add_def h_Del_def push_def distinct_gm_keys_update
      set_gm_keys_update gm_keys_delete distinct_removeAll)

lemma adj_of_ops:
  "adj_of (h_Set k v h) k' = (if k' = CanonicalHeaderKey k then [v] else adj_of h k')"
  "adj_of (h_Add k v h) k' = adj_of h k' @ (if CanonicalHeaderKey k = k' then [v] else [])"
  "adj_of (h_Del k h) k' = (if k' = CanonicalHeaderKey k then [] else adj_of h k')"
  by (simp_all add: h_Set_def h_Add_def h_Del_def adj_of_push) (simp_all add: adj_of_def update_conv' delete_conv')

lemma adj_of_Adds: "adj_of (fold (h_Add k) vs h) k' = adj_of h k' @ (if CanonicalHeaderKey k = k' then vs else [])"
  by (induction vs arbitrary: h) (auto simp: adj_of_ops)

lemma adj_of_copies:
  assumes "\<forall>(k, vs)\<in>set kvs. CanonicalHeaderKey k = k" "distinct (map fst kvs)"
  shows "adj_of (fold (\<lambda>(k, vs) dst. fold (h_Add k) vs dst) kvs dst) k' = adj_of dst k' @ adj_of kvs k'"
  using assms
proof (induction kvs arbitrary: dst)
  case (Cons kv kvs)
  obtain k vs where kv: "kv = (k, vs)" by (cases kv)
  have "map_of kvs k = None" using Cons.prems(2) kv by (simp add: map_of_eq_None_iff)
  then have "adj_of kvs k = []" by (simp add: adj_of_def)
  then show ?case using Cons kv by (auto simp: adj_of_Adds) (auto simp: adj_of_def)
qed simp

lemma adj_of_copy_header [simp]:
  assumes "canonical_header src" "iteration_order ord"
  shows "adj_of (copy_header ord src dst) k = adj_of dst k @ adj_of src k"
proof -
  have m: "mset (range_map ord src) = mset src" using assms by (simp add: mset_range_map canonical_header_def)
  then have set: "set (range_map ord src) = set src" by (metis set_mset_mset)
  have "mset (map fst (range_map ord src)) = mset (map fst src)" using m by simp
  then have d: "distinct (map fst (range_map ord src))"
    using assms(1) by (metis canonical_header_def gm_keys_def mset_eq_imp_distinct_iff)
  have "adj_of (range_map ord src) k = adj_of src k"
    using map_of_inject_set [of "range_map ord src" src] d set assms(1)
    by (simp add: adj_of_def canonical_header_def gm_keys_def)
  moreover have "\<forall>(k, vs)\<in>set (range_map ord src). CanonicalHeaderKey k = k"
    using assms(1) set by (auto simp: canonical_header_def gm_keys_def)
  ultimately show ?thesis using adj_of_copies [OF _ d] by (simp add: copy_header_def)
qed

section \<open>Writers without a buffer\<close>

fun plain :: "writer \<Rightarrow> bool" where
  "plain (Conn c) = True"
| "plain (Recorder s w) = plain w"
| "plain (Buffered b w) = False"

lemma plain_ops [simp]:
  "plain (w_update f w) = plain w" "plain (w_WriteHeader s w) = plain w" "plain (w_Write p w) = plain w"
  by (induction w) (auto simp: Let_def)

lemma connection_ops [simp]:
  assumes "plain w"
  shows "connection (w_update f w) = (connection w)\<lparr>c_header := f (c_header (connection w))\<rparr>"
    and "connection (w_WriteHeader s w) = conn_WriteHeader s (connection w)"
    and "connection (w_Write p w) = conn_Write p (connection w)"
    and "w_Header w = c_header (connection w)"
  using assms by (induction w) auto

text \<open>
  A handler that sets its headers before it writes: first calls that change headers, then calls
  that write.
\<close>

fun header_call :: "writer_call \<Rightarrow> bool" where
  "header_call (HeaderSet k v) = True"
| "header_call (HeaderAdd k v) = True"
| "header_call (HeaderDel k) = True"
| "header_call _ = False"

fun body_call :: "writer_call \<Rightarrow> bool" where
  "body_call (WriteHeader s) = (100 \<le> s \<and> s \<le> 999)"
| "body_call (Write p) = True"
| "body_call _ = False"

fun header_effect :: "writer_call \<Rightarrow> header \<Rightarrow> header" where
  "header_effect (HeaderSet k v) h = h_Set k v h"
| "header_effect (HeaderAdd k v) h = h_Add k v h"
| "header_effect (HeaderDel k) h = h_Del k h"
| "header_effect _ h = h"

fun written :: "writer_call list \<Rightarrow> gostring" where
  "written [] = []"
| "written (Write p # cs) = p @ written cs"
| "written (_ # cs) = written cs"

fun first_status :: "writer_call list \<Rightarrow> int" where
  "first_status (WriteHeader s # cs) = s"
| "first_status _ = StatusOK"

lemma perform_simps [simp]:
  "perform ord [] w = w"
  "perform ord (c # cs) w = perform ord cs (do_call ord c w)"
  "perform ord (cs @ ds) w = perform ord ds (perform ord cs w)"
  by (simp_all add: perform_def)

lemma perform_headers_plain:
  assumes "list_all header_call hs" "plain w"
  shows "plain (perform ord hs w)"
    and "connection (perform ord hs w) = (connection w)\<lparr>c_header := fold header_effect hs (c_header (connection w))\<rparr>"
proof -
  have "plain (perform ord hs w) \<and>
    connection (perform ord hs w) = (connection w)\<lparr>c_header := fold header_effect hs (c_header (connection w))\<rparr>"
    using assms
  proof (induction hs arbitrary: w)
    case (Cons c hs)
    then show ?case by (cases c) auto
  qed simp
  then show "plain (perform ord hs w)"
    "connection (perform ord hs w) = (connection w)\<lparr>c_header := fold header_effect hs (c_header (connection w))\<rparr>"
    by auto
qed

lemma perform_body_sent:
  assumes "list_all body_call bs" "plain w" "c_sent (connection w) = Some sent"
  shows "connection (perform ord bs w) = (connection w)\<lparr>c_body := c_body (connection w) @ written bs\<rparr>"
  using assms
proof (induction bs arbitrary: w)
  case (Cons c bs)
  then show ?case by (cases c) (auto simp: conn_Write_def conn_WriteHeader_def Let_def)
qed simp

lemma response_direct:
  assumes "list_all header_call hs" "list_all body_call bs" "plain w"
    and "c_sent (connection w) = None"
  shows "response (perform ord (hs @ bs) w) =
    (first_status bs, fold header_effect hs (c_header (connection w)), c_body (connection w) @ written bs)"
proof -
  let ?w = "perform ord hs w"
  note hdr = perform_headers_plain [OF assms(1,3), of ord]
  have "response (perform ord bs ?w) =
    (first_status bs, fold header_effect hs (c_header (connection w)), c_body (connection w) @ written bs)"
  proof (cases bs)
    case Nil
    then show ?thesis using hdr assms(4) by (simp add: response_def conn_WriteHeader_def)
  next
    case (Cons c bs')
    then show ?thesis
      using hdr assms(2,4) perform_body_sent [of bs' "do_call ord c ?w", OF _ _]
      by (cases c) (auto simp: response_def conn_Write_def conn_WriteHeader_def Let_def)
  qed
  then show ?thesis by simp
qed

lemma perform_buffered:
  assumes "list_all header_call hs" "list_all body_call bs"
  shows "\<exists>h. perform ord (hs @ bs) (Buffered \<lparr>bf_header = None, bf_body = [], bf_status = 0, bf_committed = False\<rparr> w) =
    Buffered \<lparr>bf_header = h, bf_body = written bs, bf_status = (if bs = [] then 0 else first_status bs), bf_committed = False\<rparr> w \<and>
    (case h of None \<Rightarrow> [] | Some h' \<Rightarrow> h') = fold header_effect hs []"
proof -
  have headers: "\<exists>h'. perform ord hs (Buffered b w) = Buffered (b\<lparr>bf_header := h'\<rparr>) w \<and>
      (case h' of None \<Rightarrow> [] | Some x \<Rightarrow> x) = fold header_effect hs (buffer_header b)"
    if "\<not> bf_committed b" for b
    using assms(1) that
  proof (induction hs arbitrary: b)
    case Nil
    then show ?case by (intro exI [of _ "bf_header b"]) (auto simp: buffer_header_def)
  next
    case (Cons c hs)
    then show ?case using Cons.IH [of "b\<lparr>bf_header := Some (header_effect c (buffer_header b))\<rparr>"]
      by (cases c) (auto simp: buffer_header_def)
  qed
  have rest: "perform ord cs (Buffered b w) = Buffered (b\<lparr>bf_body := bf_body b @ written cs\<rparr>) w"
    if "list_all body_call cs" "\<not> bf_committed b" "bf_status b \<noteq> 0" for b cs
    using that by (induction cs arbitrary: b rule: written.induct) auto
  have body: "perform ord bs (Buffered b w) =
      Buffered (b\<lparr>bf_body := bf_body b @ written bs, bf_status := (if bs = [] then 0 else first_status bs)\<rparr>) w"
    if "\<not> bf_committed b" "bf_status b = 0" for b
  proof (cases bs)
    case (Cons c bs')
    then show ?thesis using assms(2) that by (cases c) (auto simp: rest StatusOK_def)
  qed (use that in simp)
  let ?b = "\<lparr>bf_header = None, bf_body = [], bf_status = 0, bf_committed = False\<rparr>"
  obtain h where "perform ord hs (Buffered ?b w) = Buffered (?b\<lparr>bf_header := h\<rparr>) w"
    "(case h of None \<Rightarrow> [] | Some x \<Rightarrow> x) = fold header_effect hs []"
    using headers [of ?b] by (auto simp: buffer_header_def)
  then show ?thesis using body [of "?b\<lparr>bf_header := h\<rparr>"] by auto
qed

text \<open>Headers set through an empty map and copied are the headers set on the map itself.\<close>

fun replaced_key :: "writer_call \<Rightarrow> gostring option" where
  "replaced_key (HeaderSet k v) = Some (CanonicalHeaderKey k)"
| "replaced_key (HeaderDel k) = Some (CanonicalHeaderKey k)"
| "replaced_key _ = None"

lemma canonical_effects: "canonical_header h \<Longrightarrow> canonical_header (fold header_effect hs h)"
proof (induction hs arbitrary: h)
  case (Cons c hs)
  then show ?case by (cases c) auto
qed simp

lemma adj_of_effects:
  assumes "\<And>c. c \<in> set hs \<Longrightarrow> replaced_key c \<noteq> Some k \<or> adj_of h0 k = []"
    and "adj_of h k = adj_of h0 k @ adj_of h1 k"
  shows "adj_of (fold header_effect hs h) k = adj_of h0 k @ adj_of (fold header_effect hs h1) k"
  using assms
proof (induction hs arbitrary: h h1)
  case (Cons c hs)
  then have "adj_of (header_effect c h) k = adj_of h0 k @ adj_of (header_effect c h1) k"
    by (cases c) (force simp: adj_of_ops)+
  then show ?case using Cons.IH [of "header_effect c h" "header_effect c h1"] Cons.prems(1) by auto
qed simp

end
