(* ===== verification/Compression.thy ===== *)
theory Compression
  imports Http
begin

text \<open>
  Response compression of \<^verbatim>\<open>internal/api/middleware.go\<close>: which responses are compressed, and
  what the middleware does with the buffered response. The encoder \<^verbatim>\<open>compress/gzip\<close>, the media
  type parser of \<^verbatim>\<open>mime\<close> and the float parser of \<^verbatim>\<open>strconv\<close> are parameters: \<open>gz\<close>
  gives the compressed bytes, \<open>parse_media\<close> the media type or \<open>None\<close> for an error,
  \<open>q_nonpositive\<close> tells whether a text is a number at most zero or \<open>None\<close> for an error.
\<close>

definition EqualFold :: "gostring \<Rightarrow> gostring \<Rightarrow> bool" where
  "EqualFold a b \<longleftrightarrow> ToLower a = ToLower b"

section \<open>Paths and header values\<close>

definition isAnalyzeJSONPath :: "gostring \<Rightarrow> bool" where
  "isAnalyzeJSONPath path \<longleftrightarrow> path = ''/analyze'' \<or> path = ''/v1/analyze'' \<or> path = ''/v1/analyse''"

definition isAnalyzePath :: "gostring \<Rightarrow> bool" where
  "isAnalyzePath path \<longleftrightarrow> isAnalyzeJSONPath path \<or> path = ''/analyze/sarif'' \<or> path = ''/v1/analyze/sarif''"

definition isProtectedAnalyzePath :: "gostring \<Rightarrow> bool" where
  "isProtectedAnalyzePath path \<longleftrightarrow> isAnalyzeJSONPath path \<or>
     path = ''/analyze/raw'' \<or> path = ''/v1/analyze/raw'' \<or> path = ''/v1/analyse/raw'' \<or>
     path = ''/analyze/sarif'' \<or> path = ''/v1/analyze/sarif''"

fun q_param :: "(gostring \<Rightarrow> bool option) \<Rightarrow> gostring list \<Rightarrow> bool" where
  "q_param q_nonpositive [] = False"
| "q_param q_nonpositive (param # params) =
     (case Cut (TrimSpace param) CHR ''='' of
        (key, value, ok) \<Rightarrow>
          if \<not> ok \<or> \<not> EqualFold (TrimSpace key) ''q'' then q_param q_nonpositive params
          else (case q_nonpositive (TrimSpace value) of None \<Rightarrow> False | Some b \<Rightarrow> b))"

definition hasZeroOrNegativeQValue :: "(gostring \<Rightarrow> bool option) \<Rightarrow> gostring \<Rightarrow> bool" where
  "hasZeroOrNegativeQValue q_nonpositive encoding =
     (case Cut encoding CHR '';'' of
        (_, params, found) \<Rightarrow> if \<not> found then False else q_param q_nonpositive (Split params CHR '';''))"

definition gzip_token :: "(gostring \<Rightarrow> bool option) \<Rightarrow> gostring \<Rightarrow> bool" where
  "gzip_token q_nonpositive token =
     (let encoding = ToLower (TrimSpace token);
          name = (case Cut encoding CHR '';'' of (n, _, found) \<Rightarrow> if found then TrimSpace n else encoding)
      in encoding \<noteq> [] \<and> (name = ''gzip'' \<or> name = ''*'') \<and> \<not> hasZeroOrNegativeQValue q_nonpositive encoding)"

definition acceptsGzipEncoding :: "(gostring \<Rightarrow> bool option) \<Rightarrow> gostring \<Rightarrow> bool" where
  "acceptsGzipEncoding q_nonpositive acceptEncoding =
     list_ex (gzip_token q_nonpositive) (Split acceptEncoding CHR '','')"

definition isCompressibleResponseType :: "(gostring \<Rightarrow> gostring option) \<Rightarrow> gostring \<Rightarrow> bool" where
  "isCompressibleResponseType parse_media contentType =
     (let mediaType = (case parse_media contentType of None \<Rightarrow> TrimSpace (ToLower contentType) | Some m \<Rightarrow> m);
          mediaType = ToLower mediaType
      in mediaType = ''application/json'' \<or> mediaType = ''application/sarif+json'')"

definition vary_lists :: "gostring \<Rightarrow> header \<Rightarrow> bool" where
  "vary_lists value headers =
     list_ex (\<lambda>entry. list_ex (\<lambda>token. EqualFold (TrimSpace token) value) (Split entry CHR '','')) (h_Values ''Vary'' headers)"

definition appendVaryHeader :: "gostring \<Rightarrow> header \<Rightarrow> header" where
  "appendVaryHeader value headers =
     (if value = [] then headers
      else if vary_lists value headers then headers
      else h_Add ''Vary'' value headers)"

section \<open>The middleware\<close>

definition defaultAnalyzeCompressionThresholdBytes :: int where
  "defaultAnalyzeCompressionThresholdBytes = 1024"

record codec =
  cd_gzip :: "gostring \<Rightarrow> gostring"
  cd_media :: "gostring \<Rightarrow> gostring option"
  cd_q :: "gostring \<Rightarrow> bool option"

definition should_compress :: "codec \<Rightarrow> gostring \<Rightarrow> int \<Rightarrow> header \<Rightarrow> gostring \<Rightarrow> bool" where
  "should_compress cd acceptEncoding thresholdBytes h body \<longleftrightarrow>
     acceptsGzipEncoding (cd_q cd) acceptEncoding \<and>
     TrimSpace (h_Get ''Content-Encoding'' h) = [] \<and>
     isCompressibleResponseType (cd_media cd) (h_Get ''Content-Type'' h) \<and>
     thresholdBytes \<le> int (length body)"

text \<open>What the middleware does once the handler has returned.\<close>

definition finish_buffered ::
  "codec \<Rightarrow> (gostring list \<Rightarrow> gostring list) \<Rightarrow> gostring \<Rightarrow> int \<Rightarrow> buffer \<Rightarrow> writer \<Rightarrow> writer" where
  "finish_buffered cd ord acceptEncoding thresholdBytes b w =
     (if bf_committed b then w
      else let status = (if bf_status b = 0 then StatusOK else bf_status b);
               w = w_update (copy_header ord (buffer_header b)) w;
               w = w_update (appendVaryHeader ''Accept-Encoding'') w;
               compress = should_compress cd acceptEncoding thresholdBytes (w_Header w) (bf_body b);
               w = w_update (h_Del ''Content-Length'') w;
               w = (if compress then w_update (h_Set ''Content-Encoding'' ''gzip'') w else w);
               w = w_WriteHeader status w
           in w_Write (if compress then cd_gzip cd (bf_body b) else bf_body b) w)"

definition empty_buffer :: buffer where
  "empty_buffer = \<lparr>bf_header = None, bf_body = [], bf_status = 0, bf_committed = False\<rparr>"

text \<open>
  The middleware around a handler, a function of its writer. A handler keeps the writer it is given;
  the last case does not arise.
\<close>

definition compress_responses ::
  "codec \<Rightarrow> (gostring list \<Rightarrow> gostring list) \<Rightarrow> int \<Rightarrow> gostring \<Rightarrow> gostring \<Rightarrow> (writer \<Rightarrow> writer) \<Rightarrow> writer \<Rightarrow> writer" where
  "compress_responses cd ord thresholdBytes path acceptEncoding next w =
     (if \<not> isAnalyzePath path then next w
      else let thresholdBytes = (if thresholdBytes \<le> 0 then defaultAnalyzeCompressionThresholdBytes else thresholdBytes)
           in case next (Buffered empty_buffer w) of
                Buffered b w \<Rightarrow> finish_buffered cd ord acceptEncoding thresholdBytes b w
              | w \<Rightarrow> w)"

section \<open>Compression is transparent\<close>

lemma appendVary_other: "k \<noteq> CanonicalHeaderKey ''Vary'' \<Longrightarrow> adj_of (appendVaryHeader v h) k = adj_of h k"
  by (auto simp: appendVaryHeader_def adj_of_ops)

lemma response_finish:
  assumes "plain w" "c_sent (connection w) = None" "\<not> bf_committed b"
  shows "response (finish_buffered cd ord ae th b w) =
    (let h = appendVaryHeader ''Accept-Encoding'' (copy_header ord (buffer_header b) (c_header (connection w)));
         z = should_compress cd ae th h (bf_body b);
         h' = h_Del ''Content-Length'' h
     in (if bf_status b = 0 then StatusOK else bf_status b,
         if z then h_Set ''Content-Encoding'' ''gzip'' h' else h',
         c_body (connection w) @ (if z then cd_gzip cd (bf_body b) else bf_body b)))"
  using assms by (simp add: finish_buffered_def Let_def response_def conn_WriteHeader_def conn_Write_def)

lemma canonical_names:
  "CanonicalHeaderKey ''Vary'' = ''Vary''" "CanonicalHeaderKey ''Content-Length'' = ''Content-Length''"
  "CanonicalHeaderKey ''Content-Encoding'' = ''Content-Encoding''"
  by code_simp+

lemma vary_lists_append: "vary_lists ''Accept-Encoding'' (appendVaryHeader ''Accept-Encoding'' h)"
proof -
  have "list_ex (\<lambda>token. EqualFold (TrimSpace token) ''Accept-Encoding'') (Split ''Accept-Encoding'' CHR '','')"
    by code_simp
  then show ?thesis
    by (auto simp: appendVaryHeader_def) (auto simp: vary_lists_def h_Values_def adj_of_ops)
qed

lemma vary_lists_cong: "adj_of h ''Vary'' = adj_of h' ''Vary'' \<Longrightarrow> vary_lists v h = vary_lists v h'"
  by (simp add: vary_lists_def h_Values_def canonical_names)

lemma buffered_handler:
  assumes "list_all header_call hs" "list_all body_call bs"
  obtains b where "perform ord (hs @ bs) (Buffered empty_buffer w) = Buffered b w"
    "buffer_header b = fold header_effect hs []" "bf_body b = written bs" "\<not> bf_committed b"
    "(if bf_status b = 0 then StatusOK else bf_status b) = first_status bs"
proof -
  obtain h where h: "perform ord (hs @ bs) (Buffered empty_buffer w) =
      Buffered \<lparr>bf_header = h, bf_body = written bs, bf_status = (if bs = [] then 0 else first_status bs), bf_committed = False\<rparr> w"
    "(case h of None \<Rightarrow> [] | Some h' \<Rightarrow> h') = fold header_effect hs []"
    using perform_buffered [OF assms, of ord w] by (auto simp: empty_buffer_def)
  have "first_status bs \<noteq> 0" using assms(2) by (cases bs rule: first_status.cases) (auto simp: StatusOK_def)
  with h show thesis by (intro that [OF h(1)]) (auto simp: buffer_header_def)
qed

definition replaces_nothing :: "writer_call list \<Rightarrow> header \<Rightarrow> bool" where
  "replaces_nothing hs h = list_all (\<lambda>c. case replaced_key c of None \<Rightarrow> True | Some k \<Rightarrow> adj_of h k = []) hs"

lemma replaces_nothingD: "replaces_nothing hs h \<Longrightarrow> c \<in> set hs \<Longrightarrow> replaced_key c \<noteq> Some k \<or> adj_of h k = []"
  by (auto simp: replaces_nothing_def list_all_iff)

lemma compression_facts:
  assumes "list_all header_call hs" "list_all body_call bs"
    and "plain w" "c_sent (connection w) = None" "c_body (connection w) = []" "iteration_order ord"
    and "replaces_nothing hs (c_header (connection w))" "\<forall>b. gunzip (cd_gzip cd b) = b"
    and "response (perform ord (hs @ bs) w) = (s, h, b)"
    and "response (compress_responses cd ord th path ae (perform ord (hs @ bs)) w) = (s', h', b')"
  shows "s' = s"
    and "b' = b \<and> h_Values ''Content-Encoding'' h' = h_Values ''Content-Encoding'' h \<or>
      gunzip b' = b \<and> h_Values ''Content-Encoding'' h' = [''gzip''] \<and>
      TrimSpace (h_Get ''Content-Encoding'' h) = [] \<and> acceptsGzipEncoding (cd_q cd) ae"
    and "k \<notin> {''Vary'', ''Content-Length'', ''Content-Encoding''} \<Longrightarrow> adj_of h' k = adj_of h k"
    and "isAnalyzePath path \<Longrightarrow> vary_lists ''Accept-Encoding'' h'"
proof -
  have direct: "s = first_status bs" "h = fold header_effect hs (c_header (connection w))" "b = written bs"
    using response_direct [OF assms(1-4), of ord] assms(5,9) by auto
  obtain bf where bf: "perform ord (hs @ bs) (Buffered empty_buffer w) = Buffered bf w"
    "buffer_header bf = fold header_effect hs []" "bf_body bf = written bs" "\<not> bf_committed bf"
    "(if bf_status bf = 0 then StatusOK else bf_status bf) = first_status bs"
    using buffered_handler [OF assms(1,2)] .
  define copied where "copied = copy_header ord (fold header_effect hs []) (c_header (connection w))"
  have copied: "adj_of copied k = adj_of h k" for k
    using adj_of_effects [OF replaces_nothingD [OF assms(7)], where ?h1.0 = "[]"] assms(6)
    by (auto simp: copied_def direct canonical_effects)
  define hv where "hv = appendVaryHeader ''Accept-Encoding'' copied"
  define z where "z = should_compress cd ae (if th \<le> 0 then defaultAnalyzeCompressionThresholdBytes else th) hv (written bs)"
  have hv: "adj_of hv k = adj_of h k" if "k \<noteq> ''Vary''" for k
    using that copied by (simp add: hv_def appendVary_other canonical_names)
  have through: "(s', h', b') = (first_status bs,
      if z then h_Set ''Content-Encoding'' ''gzip'' (h_Del ''Content-Length'' hv) else h_Del ''Content-Length'' hv,
      if z then cd_gzip cd (written bs) else written bs)" if "isAnalyzePath path"
  proof -
    have "(s', h', b') = response (finish_buffered cd ord ae
        (if th \<le> 0 then defaultAnalyzeCompressionThresholdBytes else th) bf w)"
      using assms(10) that bf(1) by (simp add: compress_responses_def Let_def)
    then show ?thesis
      unfolding response_finish [OF assms(3,4) bf(4)] bf(2,3,5) assms(5) copied_def [symmetric]
        hv_def [symmetric] Let_def z_def [symmetric] by simp
  qed
  have direct_path: "(s', h', b') = (s, h, b)" if "\<not> isAnalyzePath path"
    using assms(9,10) that by (simp add: compress_responses_def)
  show "s' = s" using through direct_path direct by auto
  show "k \<notin> {''Vary'', ''Content-Length'', ''Content-Encoding''} \<Longrightarrow> adj_of h' k = adj_of h k"
    using through direct_path hv by (cases "isAnalyzePath path") (auto simp: adj_of_ops canonical_names)
  show "isAnalyzePath path \<Longrightarrow> vary_lists ''Accept-Encoding'' h'"
    using through vary_lists_append [of copied] vary_lists_cong [of h' hv]
    by (auto simp: adj_of_ops canonical_names hv_def)
  have "h_Values ''Content-Encoding'' hv = h_Values ''Content-Encoding'' h"
    using hv by (simp add: h_Values_def canonical_names)
  then show "b' = b \<and> h_Values ''Content-Encoding'' h' = h_Values ''Content-Encoding'' h \<or>
      gunzip b' = b \<and> h_Values ''Content-Encoding'' h' = [''gzip''] \<and>
      TrimSpace (h_Get ''Content-Encoding'' h) = [] \<and> acceptsGzipEncoding (cd_q cd) ae"
    using through direct_path direct assms(8)
    by (cases "isAnalyzePath path"; cases z)
      (auto simp: h_Values_def adj_of_ops canonical_names z_def should_compress_def h_Get_def)
qed


text \<open>A JSON response of two bytes with a threshold of one, compressed by a toy encoder.\<close>

definition toy_codec :: codec where
  "toy_codec = \<lparr>cd_gzip = (\<lambda>b. CHR ''z'' # b), cd_media = Some, cd_q = (\<lambda>_. None)\<rparr>"

definition toy_conn :: writer where
  "toy_conn = Recorder 200 (Conn \<lparr>c_header = [(''Vary'', [''Origin''])], c_sent = None, c_body = []\<rparr>)"


end
