(* ===== verification/Cors_Origins.thy ===== *)
theory Cors_Origins
  imports Prelude
begin

text \<open>
  The origin matcher of \<^verbatim>\<open>internal/api/middleware.go\<close>: the comma-separated list of allowed
  origins becomes a set of literal origins and a list of patterns with one star. A slice expression
  whose bounds cross panics, which is the value \<open>None\<close> of \<open>isAllowed\<close>.
\<close>

section \<open>The matcher\<close>

record wildcard_pattern =
  wp_prefix :: gostring
  wp_suffix :: gostring

record origin_matcher =
  om_exact :: "(gostring, bool) gomap"
  om_wildcards :: "wildcard_pattern list"

definition parseWildcardOrigin :: "gostring \<Rightarrow> wildcard_pattern option" where
  "parseWildcardOrigin origin =
     (if count_list origin CHR ''*'' \<noteq> 1 then None
      else case Split origin CHR ''*'' of
             [p, s] \<Rightarrow> if p = [] \<or> s = [] then None else Some \<lparr>wp_prefix = p, wp_suffix = s\<rparr>
           | _ \<Rightarrow> None)"

definition add_origin :: "gostring \<Rightarrow> origin_matcher \<Rightarrow> origin_matcher" where
  "add_origin origin m =
     (let origin = TrimSpace origin
      in if origin = [] then m
         else case parseWildcardOrigin origin of
                Some p \<Rightarrow> m\<lparr>om_wildcards := om_wildcards m @ [p]\<rparr>
              | None \<Rightarrow> m\<lparr>om_exact := AList.update origin True (om_exact m)\<rparr>)"

definition newCORSOriginMatcher :: "gostring \<Rightarrow> origin_matcher" where
  "newCORSOriginMatcher allowedOrigins =
     (let m = \<lparr>om_exact = [], om_wildcards = []\<rparr>
      in if TrimSpace allowedOrigins = [] then m
         else fold add_origin (Split allowedOrigins CHR '','') m)"

text \<open>\<open>s[a:b]\<close> for bounds in the string.\<close>

definition slice :: "gostring \<Rightarrow> int \<Rightarrow> int \<Rightarrow> gostring option" where
  "slice s a b = (if 0 \<le> a \<and> a \<le> b \<and> b \<le> int (length s) then Some (take (nat (b - a)) (drop (nat a) s)) else None)"

fun wildcard_allows :: "gostring \<Rightarrow> wildcard_pattern list \<Rightarrow> bool option" where
  "wildcard_allows origin [] = Some False"
| "wildcard_allows origin (p # ps) =
     (if \<not> HasPrefix origin (wp_prefix p) \<or> \<not> HasSuffix origin (wp_suffix p) then wildcard_allows origin ps
      else case slice origin (int (length (wp_prefix p))) (int (length origin) - int (length (wp_suffix p))) of
             None \<Rightarrow> None
           | Some middle \<Rightarrow> if middle \<noteq> [] then Some True else wildcard_allows origin ps)"

definition isAllowed :: "origin_matcher \<Rightarrow> gostring \<Rightarrow> bool option" where
  "isAllowed m origin =
     (if map_of (om_exact m) origin = Some True then Some True else wildcard_allows origin (om_wildcards m))"

definition allowlistSize :: "origin_matcher \<Rightarrow> int" where
  "allowlistSize m = int (length (om_exact m)) + int (length (om_wildcards m))"

section \<open>What it accepts\<close>

definition listed_origins :: "gostring \<Rightarrow> gostring list" where
  "listed_origins cfg = filter (\<lambda>e. e \<noteq> []) (map TrimSpace (Split cfg CHR '',''))"

lemma Split_no_sep: "c \<notin> set s \<Longrightarrow> Split s c = [s]"
  by (induction s) auto

lemma Split_append: "c \<notin> set p \<Longrightarrow> Split (p @ c # s) c = p # Split s c"
  by (induction p) auto

lemma count_list_one:
  assumes "count_list s c = 1"
  obtains p q where "s = p @ c # q" "c \<notin> set p" "c \<notin> set q"
proof -
  have "c \<in> set s" using assms by (metis count_list_0_iff zero_neq_one)
  then obtain p q where s: "s = p @ c # q" "c \<notin> set p" by (meson split_list_first)
  then have "count_list q c = 0" using assms by (simp add: count_notin)
  then show thesis using that s by (simp add: count_list_0_iff)
qed

lemma parseWildcardOrigin_Some:
  "parseWildcardOrigin e = Some p \<longleftrightarrow>
     e = wp_prefix p @ CHR ''*'' # wp_suffix p \<and> wp_prefix p \<noteq> [] \<and> wp_suffix p \<noteq> [] \<and>
     CHR ''*'' \<notin> set (wp_prefix p) \<and> CHR ''*'' \<notin> set (wp_suffix p)"
  (is "_ \<longleftrightarrow> ?R")
proof
  assume *: "parseWildcardOrigin e = Some p"
  then have one: "count_list e CHR ''*'' = 1" by (auto simp: parseWildcardOrigin_def split: if_splits)
  obtain a b where e: "e = a @ CHR ''*'' # b" "CHR ''*'' \<notin> set a" "CHR ''*'' \<notin> set b"
    using count_list_one [OF one] .
  then show ?R using * one by (auto simp: parseWildcardOrigin_def Split_append Split_no_sep split: if_splits)
next
  assume ?R
  then show "parseWildcardOrigin e = Some p"
    by (auto simp: parseWildcardOrigin_def Split_append Split_no_sep count_notin)
qed

lemma matcher_contents:
  "map_of (om_exact (fold add_origin es m)) e = Some True \<longleftrightarrow>
     map_of (om_exact m) e = Some True \<or>
     e \<noteq> [] \<and> e \<in> TrimSpace ` set es \<and> parseWildcardOrigin e = None"
  "set (om_wildcards (fold add_origin es m)) =
     set (om_wildcards m) \<union> {p. \<exists>e\<in>TrimSpace ` set es. e \<noteq> [] \<and> parseWildcardOrigin e = Some p}"
  by (induction es arbitrary: m)
    (auto simp: add_origin_def Let_def update_conv' split: option.splits if_splits)

lemma trim_left_set: "set s \<subseteq> set (trim_left s) \<union> \<Union> (set ` set space_encodings)"
proof (induction s rule: trim_left.induct)
  case (1 s)
  show ?case
  proof (cases "find (\<lambda>e. prefix e s) space_encodings")
    case (Some e)
    then have e: "e \<in> set space_encodings" "s = e @ drop (length e) s"
      by (auto dest!: find_SomeD simp: prefix_def)
    then have "set s = set e \<union> set (drop (length e) s)" by (metis set_append)
    then show ?thesis using 1 [OF Some] Some e(1) trim_left.simps [of s] by auto
  qed (simp add: trim_left.simps)
qed

lemma trim_right_set: "set s \<subseteq> set (trim_right s) \<union> \<Union> (set ` set space_encodings)"
proof (induction s rule: trim_right.induct)
  case (1 s)
  show ?case
  proof (cases "find (\<lambda>e. suffix e s) space_encodings")
    case (Some e)
    then have e: "e \<in> set space_encodings" "s = take (length s - length e) s @ e"
      by (auto dest!: find_SomeD simp: suffix_def)
    then have "set s = set (take (length s - length e) s) \<union> set e" by (metis set_append)
    then show ?thesis using 1 [OF Some] Some e(1) trim_right.simps [of s] by auto
  qed (simp add: trim_right.simps)
qed

lemma blank_list: "TrimSpace cfg = [] \<Longrightarrow> listed_origins cfg = []"
proof -
  assume blank: "TrimSpace cfg = []"
  then have "set cfg \<subseteq> \<Union> (set ` set space_encodings)"
    using trim_left_set [of cfg] trim_right_set [of "trim_left cfg"] by (auto simp: TrimSpace_def)
  moreover have "CHR '','' \<notin> \<Union> (set ` set space_encodings)" by (simp add: space_encodings_def)
  ultimately have "CHR '','' \<notin> set cfg" by blast
  then show ?thesis using blank by (simp add: listed_origins_def Split_no_sep)
qed

lemma newCORSOriginMatcher_contents:
  "map_of (om_exact (newCORSOriginMatcher cfg)) e = Some True \<longleftrightarrow>
     e \<in> set (listed_origins cfg) \<and> parseWildcardOrigin e = None"
  "set (om_wildcards (newCORSOriginMatcher cfg)) = {p. \<exists>e\<in>set (listed_origins cfg). parseWildcardOrigin e = Some p}"
proof -
  show "map_of (om_exact (newCORSOriginMatcher cfg)) e = Some True \<longleftrightarrow>
      e \<in> set (listed_origins cfg) \<and> parseWildcardOrigin e = None"
    using blank_list [of cfg] by (cases "TrimSpace cfg = []")
      (auto simp: newCORSOriginMatcher_def matcher_contents, auto simp: listed_origins_def)
  show "set (om_wildcards (newCORSOriginMatcher cfg)) = {p. \<exists>e\<in>set (listed_origins cfg). parseWildcardOrigin e = Some p}"
    using blank_list [of cfg] by (cases "TrimSpace cfg = []")
      (auto simp: newCORSOriginMatcher_def matcher_contents, auto simp: listed_origins_def)
qed

definition fits :: "gostring \<Rightarrow> wildcard_pattern \<Rightarrow> bool" where
  "fits origin p \<longleftrightarrow> (\<exists>m. m \<noteq> [] \<and> origin = wp_prefix p @ m @ wp_suffix p)"

definition overlaps :: "gostring \<Rightarrow> wildcard_pattern \<Rightarrow> bool" where
  "overlaps origin p \<longleftrightarrow> HasPrefix origin (wp_prefix p) \<and> HasSuffix origin (wp_suffix p) \<and>
     length origin < length (wp_prefix p) + length (wp_suffix p)"

lemma pattern_step:
  assumes "HasPrefix origin (wp_prefix p)" "HasSuffix origin (wp_suffix p)" "\<not> overlaps origin p"
  obtains middle where "origin = wp_prefix p @ middle @ wp_suffix p"
    "slice origin (int (length (wp_prefix p))) (int (length origin) - int (length (wp_suffix p))) = Some middle"
proof -
  let ?a = "length (wp_prefix p)" and ?b = "length origin - length (wp_suffix p)"
  have len: "?a + length (wp_suffix p) \<le> length origin" using assms by (simp add: overlaps_def)
  have "origin = take ?a origin @ take (?b - ?a) (drop ?a origin) @ drop ?b origin"
    using len by (metis append_assoc append_take_drop_id le_add_diff_inverse2 add_le_imp_le_diff take_add diff_add_inverse le_add_diff_inverse)
  moreover have "take ?a origin = wp_prefix p" "drop ?b origin = wp_suffix p"
    using assms by (auto simp: HasPrefix_def HasSuffix_def)
  ultimately have "origin = wp_prefix p @ take (?b - ?a) (drop ?a origin) @ wp_suffix p" by metis
  moreover have "slice origin (int ?a) (int (length origin) - int (length (wp_suffix p))) = Some (take (?b - ?a) (drop ?a origin))"
    using len by (auto simp: slice_def nat_diff_distrib' algebra_simps intro!: arg_cong2 [where f = take])
  ultimately show thesis by (rule that)
qed

lemma fits_affixes: "fits origin p \<Longrightarrow> HasPrefix origin (wp_prefix p) \<and> HasSuffix origin (wp_suffix p)"
  by (auto simp: fits_def HasPrefix_def HasSuffix_def)

lemma wildcard_allows_iff:
  assumes "\<forall>p\<in>set ps. \<not> overlaps origin p"
  shows "wildcard_allows origin ps = Some (\<exists>p\<in>set ps. fits origin p)"
  using assms
proof (induction ps)
  case (Cons p ps)
  show ?case
  proof (cases "HasPrefix origin (wp_prefix p) \<and> HasSuffix origin (wp_suffix p)")
    case True
    then obtain middle where m: "origin = wp_prefix p @ middle @ wp_suffix p"
      "slice origin (int (length (wp_prefix p))) (int (length origin) - int (length (wp_suffix p))) = Some middle"
      using pattern_step Cons.prems by (metis list.set_intros(1))
    have "fits origin p \<longleftrightarrow> middle \<noteq> []" using m(1) by (auto simp: fits_def)
    then show ?thesis using True m(2) Cons by auto
  next
    case False
    then show ?thesis using fits_affixes [of origin p] Cons by auto
  qed
qed simp

lemma parseWildcardOrigin_iff:
  "parseWildcardOrigin e \<noteq> None \<longleftrightarrow> count_list e CHR ''*'' = 1 \<and> hd e \<noteq> CHR ''*'' \<and> last e \<noteq> CHR ''*''"
  (is "_ \<longleftrightarrow> ?R")
proof
  assume *: ?R
  then obtain a b where e: "e = a @ CHR ''*'' # b" "CHR ''*'' \<notin> set a" "CHR ''*'' \<notin> set b"
    using count_list_one by metis
  then have "a \<noteq> []" "b \<noteq> []" using * by auto
  then show "parseWildcardOrigin e \<noteq> None"
    using e * by (simp add: parseWildcardOrigin_def Split_append Split_no_sep)
next
  assume "parseWildcardOrigin e \<noteq> None"
  then obtain p where "parseWildcardOrigin e = Some p" by blast
  then show ?R by (auto simp: parseWildcardOrigin_Some hd_append count_notin dest: hd_in_set last_in_set)
qed

lemma pattern_fits:
  assumes "parseWildcardOrigin e = Some q"
  shows "(\<exists>p m s. e = p @ CHR ''*'' # s \<and> m \<noteq> [] \<and> origin = p @ m @ s) \<longleftrightarrow> fits origin q"
proof -
  have q: "e = wp_prefix q @ CHR ''*'' # wp_suffix q" "CHR ''*'' \<notin> set (wp_prefix q)" "CHR ''*'' \<notin> set (wp_suffix q)"
    using assms by (simp_all add: parseWildcardOrigin_Some)
  have "p = wp_prefix q \<and> s = wp_suffix q" if "e = p @ CHR ''*'' # s" for p s
    using q that by (metis append_Cons_eq_iff)
  then show ?thesis unfolding fits_def using q(1) by metis
qed

text \<open>
  Which origins the list allows. Unless a pattern overlaps itself in the origin, the answer is
  yes exactly when the origin is literally listed, or the list has an entry with one star inside and
  the origin is that entry with the star replaced by a non-empty text.
\<close>

theorem isAllowed_iff:
  assumes "\<forall>p\<in>set (om_wildcards (newCORSOriginMatcher cfg)). \<not> overlaps origin p"
  shows "isAllowed (newCORSOriginMatcher cfg) origin =
    Some (\<exists>e\<in>set (listed_origins cfg).
      if count_list e CHR ''*'' = 1 \<and> hd e \<noteq> CHR ''*'' \<and> last e \<noteq> CHR ''*''
      then \<exists>p m s. e = p @ CHR ''*'' # s \<and> m \<noteq> [] \<and> origin = p @ m @ s
      else e = origin)"
proof -
  have "isAllowed (newCORSOriginMatcher cfg) origin =
      Some (origin \<in> set (listed_origins cfg) \<and> parseWildcardOrigin origin = None \<or>
        (\<exists>e\<in>set (listed_origins cfg). \<exists>q. parseWildcardOrigin e = Some q \<and> fits origin q))"
    using wildcard_allows_iff [OF assms]
    by (auto simp: isAllowed_def newCORSOriginMatcher_contents)
  also have "\<dots> = Some (\<exists>e\<in>set (listed_origins cfg).
      if parseWildcardOrigin e \<noteq> None then \<exists>p m s. e = p @ CHR ''*'' # s \<and> m \<noteq> [] \<and> origin = p @ m @ s else e = origin)"
  proof -
    have "(if parseWildcardOrigin e \<noteq> None then \<exists>p m s. e = p @ CHR ''*'' # s \<and> m \<noteq> [] \<and> origin = p @ m @ s else e = origin) \<longleftrightarrow>
        e = origin \<and> parseWildcardOrigin e = None \<or> (\<exists>q. parseWildcardOrigin e = Some q \<and> fits origin q)" for e
      by (cases "parseWildcardOrigin e") (simp_all add: pattern_fits)
    then show ?thesis by auto
  qed
  finally show ?thesis by (simp only: parseWildcardOrigin_iff)
qed

theorem isAllowed_iff_witness:
  "isAllowed (newCORSOriginMatcher ''https://a.app, https://*.b.app'') ''https://x.b.app'' =
    Some (\<exists>e\<in>set (listed_origins ''https://a.app, https://*.b.app'').
      if count_list e CHR ''*'' = 1 \<and> hd e \<noteq> CHR ''*'' \<and> last e \<noteq> CHR ''*''
      then \<exists>p m s. e = p @ CHR ''*'' # s \<and> m \<noteq> [] \<and> ''https://x.b.app'' = p @ m @ s
      else e = ''https://x.b.app'')"
proof (rule isAllowed_iff)
  show "\<forall>p\<in>set (om_wildcards (newCORSOriginMatcher ''https://a.app, https://*.b.app'')). \<not> overlaps ''https://x.b.app'' p"
    by code_simp
qed

text \<open>A request with a crafted origin makes a pattern overlap itself, and the matcher panics.\<close>

lemma isAllowed_panics:
  "isAllowed (newCORSOriginMatcher ''https://pr-*-preview.app'') ''https://pr-preview.app'' = None"
  by code_simp

end
