(* ===== verification/Client_Identity.thy ===== *)
theory Client_Identity
  imports Prelude
begin

text \<open>
  Who a request counts for: \<^verbatim>\<open>clientIdentifier\<close> of \<^verbatim>\<open>internal/api/middleware.go\<close>. The
  packages \<^verbatim>\<open>net\<close> and \<^verbatim>\<open>net/netip\<close> are a record of functions over a type of addresses.
\<close>

section \<open>Addresses\<close>

record 'ip netip =
  SplitHostPort :: "gostring \<Rightarrow> gostring option"
  ParseAddr :: "gostring \<Rightarrow> 'ip option"
  ParsePrefix :: "gostring \<Rightarrow> ('ip \<Rightarrow> bool) option"
  addr_String :: "'ip \<Rightarrow> gostring"
  zero_Addr :: 'ip
  IsValid :: "'ip \<Rightarrow> bool"
  IsPrivate :: "'ip \<Rightarrow> bool"
  IsLoopback :: "'ip \<Rightarrow> bool"
  IsLinkLocalUnicast :: "'ip \<Rightarrow> bool"
  IsLinkLocalMulticast :: "'ip \<Rightarrow> bool"
  IsMulticast :: "'ip \<Rightarrow> bool"
  IsInterfaceLocalMulticast :: "'ip \<Rightarrow> bool"
  IsUnspecified :: "'ip \<Rightarrow> bool"

definition isPublicClientIP :: "'ip netip \<Rightarrow> 'ip \<Rightarrow> bool" where
  "isPublicClientIP net ip \<longleftrightarrow>
     IsValid net ip \<and> \<not> IsPrivate net ip \<and> \<not> IsLoopback net ip \<and> \<not> IsLinkLocalUnicast net ip \<and>
     \<not> IsLinkLocalMulticast net ip \<and> \<not> IsMulticast net ip \<and> \<not> IsInterfaceLocalMulticast net ip \<and>
     \<not> IsUnspecified net ip"

definition remoteIPFromAddr :: "'ip netip \<Rightarrow> gostring \<Rightarrow> 'ip option" where
  "remoteIPFromAddr net addr =
     (let host = (case SplitHostPort net (TrimSpace addr) of None \<Rightarrow> TrimSpace addr | Some h \<Rightarrow> h)
      in ParseAddr net host)"

fun trusts :: "'ip netip \<Rightarrow> 'ip \<Rightarrow> gostring list \<Rightarrow> bool" where
  "trusts net ip [] = False"
| "trusts net ip (token # tokens) =
     (let token = TrimSpace token
      in if token = [] then trusts net ip tokens
         else if Contains token ''/''
         then (case ParsePrefix net token of
                 Some p \<Rightarrow> if p ip then True else trusts net ip tokens
               | None \<Rightarrow> trusts net ip tokens)
         else (case ParseAddr net token of
                 Some a \<Rightarrow> if a = ip then True else trusts net ip tokens
               | None \<Rightarrow> trusts net ip tokens))"

text \<open>The configured list is the environment variable \<^verbatim>\<open>ANALYZE_TRUSTED_PROXY_CIDRS\<close>.\<close>

definition isTrustedProxy :: "'ip netip \<Rightarrow> gostring \<Rightarrow> 'ip \<Rightarrow> bool" where
  "isTrustedProxy net env remoteIP =
     (let configured = TrimSpace env
      in if configured = [] then False else trusts net remoteIP (Split configured CHR '',''))"

section \<open>The forwarding chain\<close>

definition parseForwardedForChain :: "'ip netip \<Rightarrow> gostring \<Rightarrow> 'ip list" where
  "parseForwardedForChain net header =
     List.map_filter (\<lambda>part. let candidate = TrimSpace part
        in if candidate = [] then None else ParseAddr net candidate) (Split header CHR '','')"

fun walk_hops :: "'ip netip \<Rightarrow> gostring \<Rightarrow> 'ip \<Rightarrow> 'ip list \<Rightarrow> 'ip option \<times> 'ip" where
  "walk_hops net env firstUntrusted [] = (None, firstUntrusted)"
| "walk_hops net env firstUntrusted (hop # hops) =
     (if isTrustedProxy net env hop then walk_hops net env firstUntrusted hops
      else let firstUntrusted = (if firstUntrusted = zero_Addr net then hop else firstUntrusted)
           in if isPublicClientIP net hop then (Some hop, firstUntrusted)
              else walk_hops net env firstUntrusted hops)"

text \<open>The loop runs from the last hop to the first.\<close>

definition forwardedClientIP :: "'ip netip \<Rightarrow> gostring \<Rightarrow> gostring \<Rightarrow> 'ip option" where
  "forwardedClientIP net env header =
     (let hops = parseForwardedForChain net header
      in if hops = [] then None
         else case walk_hops net env (zero_Addr net) (rev hops) of
                (Some hop, _) \<Rightarrow> Some hop
              | (None, firstUntrusted) \<Rightarrow> if firstUntrusted \<noteq> zero_Addr net then Some firstUntrusted else None)"

definition clientIdentifier :: "'ip netip \<Rightarrow> gostring \<Rightarrow> gostring \<Rightarrow> gostring \<Rightarrow> gostring" where
  "clientIdentifier net env remoteAddr forwardedFor =
     (case remoteIPFromAddr net remoteAddr of
        Some remoteIP \<Rightarrow>
          (case (if isTrustedProxy net env remoteIP then forwardedClientIP net env forwardedFor else None) of
             Some forwardedIP \<Rightarrow> addr_String net forwardedIP
           | None \<Rightarrow> addr_String net remoteIP)
      | None \<Rightarrow>
          (case SplitHostPort net (TrimSpace remoteAddr) of
             Some host \<Rightarrow> if host \<noteq> [] then host
                          else if TrimSpace remoteAddr \<noteq> [] then TrimSpace remoteAddr else ''unknown''
           | None \<Rightarrow> if TrimSpace remoteAddr \<noteq> [] then TrimSpace remoteAddr else ''unknown''))"

section \<open>Whose address it is\<close>

text \<open>
  The reference: among the hops that are no trusted proxies, from the nearest on, the first public
  one, else the nearest.
\<close>

definition nearest_client :: "'ip netip \<Rightarrow> gostring \<Rightarrow> 'ip list \<Rightarrow> 'ip option" where
  "nearest_client net env hops =
     (let outside = filter (\<lambda>h. \<not> isTrustedProxy net env h) (rev hops)
      in case find (isPublicClientIP net) outside of
           Some h \<Rightarrow> Some h
         | None \<Rightarrow> (case outside of [] \<Rightarrow> None | h # _ \<Rightarrow> Some h))"

lemma walk_hops_spec:
  assumes "zero_Addr net \<notin> set hops"
  shows "fst (walk_hops net env u hops) = find (isPublicClientIP net) (filter (\<lambda>h. \<not> isTrustedProxy net env h) hops)"
    and "fst (walk_hops net env u hops) = None \<Longrightarrow>
      snd (walk_hops net env u hops) = (if u \<noteq> zero_Addr net then u
        else case filter (\<lambda>h. \<not> isTrustedProxy net env h) hops of [] \<Rightarrow> zero_Addr net | h # _ \<Rightarrow> h)"
  using assms by (induction net env u hops rule: walk_hops.induct) (auto simp: Let_def)

lemma chain_no_zero:
  assumes "\<And>s. ParseAddr net s \<noteq> Some (zero_Addr net)"
  shows "zero_Addr net \<notin> set (parseForwardedForChain net header)"
  using assms by (auto simp: parseForwardedForChain_def List.map_filter_def Let_def split: if_splits)

lemma forwardedClientIP_spec:
  assumes "\<And>s. ParseAddr net s \<noteq> Some (zero_Addr net)"
  shows "forwardedClientIP net env header = nearest_client net env (parseForwardedForChain net header)"
proof -
  let ?hops = "rev (parseForwardedForChain net header)"
  have zero: "zero_Addr net \<notin> set ?hops" using chain_no_zero [OF assms] by simp
  note walk = walk_hops_spec [OF zero, of env "zero_Addr net"]
  obtain r u where w: "walk_hops net env (zero_Addr net) ?hops = (r, u)" by fastforce
  show ?thesis
  proof (cases r)
    case None
    have "h \<noteq> zero_Addr net" if "filter (\<lambda>h. \<not> isTrustedProxy net env h) ?hops = h # hs" for h hs
      using that zero by (metis filter_is_subset list.set_intros(1) subsetD)
    then show ?thesis using walk w None
      by (auto simp: forwardedClientIP_def nearest_client_def Let_def split: list.splits)
  next
    case (Some h)
    then show ?thesis using walk w
      by (auto simp: forwardedClientIP_def nearest_client_def Let_def split: option.splits)
  qed
qed

text \<open>
  C24: who a request counts for. A peer that is not a configured proxy counts for itself, whatever it
  writes into \<^verbatim>\<open>X-Forwarded-For\<close>. Behind a configured proxy the request counts for the
  public hop nearest to the proxies, else for the nearest hop that is no proxy, else for the peer.
\<close>

theorem clientIdentifier_spec:
  assumes "\<And>s. ParseAddr net s \<noteq> Some (zero_Addr net)"
    and "remoteIPFromAddr net remoteAddr = Some ip"
  shows "clientIdentifier net env remoteAddr forwardedFor =
    addr_String net
      (if isTrustedProxy net env ip
       then (case nearest_client net env (parseForwardedForChain net forwardedFor) of Some h \<Rightarrow> h | None \<Rightarrow> ip)
       else ip)"
  using assms(2) forwardedClientIP_spec [OF assms(1)]
  by (auto simp: clientIdentifier_def split: option.splits)

text \<open>Addresses as their own texts, where the texts that begin with 10 are private.\<close>

definition toy_net :: "gostring netip" where
  "toy_net = \<lparr>SplitHostPort = (\<lambda>s. None), ParseAddr = (\<lambda>s. if s = [] then None else Some s),
     ParsePrefix = (\<lambda>s. None), addr_String = (\<lambda>s. s), zero_Addr = [], IsValid = (\<lambda>s. s \<noteq> []),
     IsPrivate = (\<lambda>s. HasPrefix s ''10''), IsLoopback = (\<lambda>s. False), IsLinkLocalUnicast = (\<lambda>s. False),
     IsLinkLocalMulticast = (\<lambda>s. False), IsMulticast = (\<lambda>s. False),
     IsInterfaceLocalMulticast = (\<lambda>s. False), IsUnspecified = (\<lambda>s. False)\<rparr>"

theorem clientIdentifier_spec_witness:
  "clientIdentifier toy_net ''10.0.0.9'' ''10.0.0.9'' ''6.6.6.6, 5.5.5.5, 10.0.0.7'' = ''5.5.5.5''"
proof -
  have "clientIdentifier toy_net ''10.0.0.9'' ''10.0.0.9'' ''6.6.6.6, 5.5.5.5, 10.0.0.7'' =
    addr_String toy_net
      (if isTrustedProxy toy_net ''10.0.0.9'' ''10.0.0.9''
       then (case nearest_client toy_net ''10.0.0.9'' (parseForwardedForChain toy_net ''6.6.6.6, 5.5.5.5, 10.0.0.7'')
             of Some h \<Rightarrow> h | None \<Rightarrow> ''10.0.0.9'') else ''10.0.0.9'')"
  proof (rule clientIdentifier_spec)
    show "ParseAddr toy_net s \<noteq> Some (zero_Addr toy_net)" for s by (simp add: toy_net_def)
    show "remoteIPFromAddr toy_net ''10.0.0.9'' = Some ''10.0.0.9''" by code_simp
  qed
  also have "\<dots> = ''5.5.5.5''" by code_simp
  finally show ?thesis .
qed

end
