(* ===== verification/Middleware.thy ===== *)
theory Middleware
  imports Rate_Limiter Compression Cors_Origins Client_Identity
begin

text \<open>
  The middleware of \<^verbatim>\<open>internal/api/middleware.go\<close> and \<^verbatim>\<open>internal/api/metrics.go\<close> as
  transformers of handlers. A handler maps a request and the state around it to the new state, or to
  \<open>None\<close> when it panics. The request carries what the runtime supplies while it is served: the
  clock, the order of map iterations, a fresh UUID. The context of a Go request is three fields of
  the record.
\<close>

section \<open>Requests, state, handlers\<close>

record http_request =
  rq_Method :: gostring
  rq_Path :: gostring
  rq_RemoteAddr :: gostring
  rq_Header :: header
  ctx_requestID :: "gostring option"
  ctx_version :: "gostring option"
  ctx_logFields :: bool
  rq_now :: int
  rq_ord :: "gostring list \<Rightarrow> gostring list"
  rq_uuid :: gostring

record analyze_log_fields =
  lf_requestID :: gostring
  lf_parserOutcome :: gostring
  lf_diagramType :: gostring

datatype web_event =
    AnalyzeCompleted gostring gostring gostring int gostring gostring
  | CorsRejected gostring gostring int
  | ObservedHTTPRequest gostring gostring int
  | ObservedCORSRejectedOrigin

text \<open>
  The limiter, the time of the last logged CORS rejection, the log fields object of the request,
  what was logged and counted so far, and the response writer. The context holds a pointer to the
  log fields, so a write through it is a write to the state.
\<close>

record exchange =
  ex_limiter :: "rate_limiter option"
  ex_lastLog :: "int option"
  ex_fields :: analyze_log_fields
  ex_events :: "web_event list"
  ex_writer :: writer

type_synonym handler = "http_request \<Rightarrow> exchange \<Rightarrow> exchange option"

definition req_Get :: "gostring \<Rightarrow> http_request \<Rightarrow> gostring" where
  "req_Get k r = h_Get k (rq_Header r)"

definition set_header :: "gostring \<Rightarrow> gostring \<Rightarrow> exchange \<Rightarrow> exchange" where
  "set_header k v ex = ex\<lparr>ex_writer := w_update (h_Set k v) (ex_writer ex)\<rparr>"

definition emit :: "web_event \<Rightarrow> exchange \<Rightarrow> exchange" where
  "emit e ex = ex\<lparr>ex_events := ex_events ex @ [e]\<rparr>"

text \<open>\<^verbatim>\<open>writeError\<close>: the JSON document of an error is a parameter.\<close>

definition writeJSON :: "int \<Rightarrow> gostring \<Rightarrow> exchange \<Rightarrow> exchange" where
  "writeJSON status doc ex =
     (let ex = set_header ''Content-Type'' ''application/json'' ex;
          ex = ex\<lparr>ex_writer := w_WriteHeader status (ex_writer ex)\<rparr>
      in ex\<lparr>ex_writer := w_Write doc (ex_writer ex)\<rparr>)"

definition writeError ::
  "(gostring \<Rightarrow> gostring \<Rightarrow> gostring) \<Rightarrow> int \<Rightarrow> gostring \<Rightarrow> gostring \<Rightarrow> exchange \<Rightarrow> exchange" where
  "writeError error_doc status ecode message ex = writeJSON status (error_doc ecode message) ex"

section \<open>Context and logging\<close>

definition CurrentAPIVersion :: gostring where "CurrentAPIVersion = ''1.0''"

definition SupportedAPIVersions :: "gostring list" where "SupportedAPIVersions = [''1.0'']"

definition RequestIDFromContext :: "http_request \<Rightarrow> gostring" where
  "RequestIDFromContext r = (case ctx_requestID r of None \<Rightarrow> [] | Some i \<Rightarrow> i)"

definition APIVersionFromContext :: "http_request \<Rightarrow> gostring" where
  "APIVersionFromContext r =
     (let version = (case ctx_version r of None \<Rightarrow> [] | Some v \<Rightarrow> v)
      in if version = [] then CurrentAPIVersion else version)"

definition setAnalyzeLogFields :: "http_request \<Rightarrow> gostring \<Rightarrow> gostring \<Rightarrow> gostring \<Rightarrow> exchange \<Rightarrow> exchange" where
  "setAnalyzeLogFields r requestID parserOutcome diagramType ex =
     (if \<not> ctx_logFields r then ex
      else let f = ex_fields ex;
               f = (if requestID \<noteq> [] then f\<lparr>lf_requestID := requestID\<rparr> else f);
               f = (if parserOutcome \<noteq> [] then f\<lparr>lf_parserOutcome := parserOutcome\<rparr> else f);
               f = (if diagramType \<noteq> [] then f\<lparr>lf_diagramType := diagramType\<rparr> else f)
           in ex\<lparr>ex_fields := f\<rparr>)"

text \<open>The bytes of \<^verbatim>\<open>crypto/rand\<close>, or the clock when it fails, give the identifier.\<close>

definition uuid_bytes :: "nat list \<Rightarrow> nat list" where
  "uuid_bytes b = (let b = b[6 := (b ! 6 mod 16) + 64] in b[8 := (b ! 8 mod 64) + 128])"

definition generateUUID :: "nat list option \<Rightarrow> int \<Rightarrow> gostring" where
  "generateUUID random unixNano =
     (case random of
        None \<Rightarrow> ''fallback-'' @ Itoa unixNano
      | Some bytes \<Rightarrow>
          let h = map hex_byte (uuid_bytes bytes)
          in concat (take 4 h) @ ''-'' @ concat (take 2 (drop 4 h)) @ ''-'' @ concat (take 2 (drop 6 h)) @ ''-'' @
             concat (take 2 (drop 8 h)) @ ''-'' @ concat (drop 10 h))"

definition RequestIDMiddleware :: "handler \<Rightarrow> handler" where
  "RequestIDMiddleware next r ex =
     (let requestID = TrimSpace (req_Get ''X-Request-Id'' r);
          requestID = (if requestID = [] then rq_uuid r else requestID);
          ex = set_header ''X-Request-Id'' requestID ex;
          r = r\<lparr>ctx_requestID := Some requestID\<rparr>;
          ex = setAnalyzeLogFields r requestID [] [] ex
      in next r ex)"

definition negotiate_version :: "gostring \<Rightarrow> gostring" where
  "negotiate_version requestedVersion =
     (if requestedVersion \<noteq> [] \<and> requestedVersion \<in> set SupportedAPIVersions then requestedVersion else CurrentAPIVersion)"

definition VersionNegotiationMiddleware :: "handler \<Rightarrow> handler" where
  "VersionNegotiationMiddleware next r ex =
     (let version = negotiate_version (TrimSpace (req_Get ''Accept-Version'' r));
          ex = set_header ''Content-Version'' version ex
      in next (r\<lparr>ctx_version := Some version\<rparr>) ex)"

text \<open>
  The recorder is taken off the writer again when the inner handler has returned, with the status it saw.
\<close>

definition with_recorder :: "handler \<Rightarrow> http_request \<Rightarrow> exchange \<Rightarrow> (int \<times> exchange) option" where
  "with_recorder next r ex =
     (case next r (ex\<lparr>ex_writer := Recorder StatusOK (ex_writer ex)\<rparr>) of
        None \<Rightarrow> None
      | Some ex \<Rightarrow> (case ex_writer ex of
            Recorder status w \<Rightarrow> Some (status, ex\<lparr>ex_writer := w\<rparr>)
          | _ \<Rightarrow> Some (StatusOK, ex)))"

definition or_unknown :: "gostring \<Rightarrow> gostring" where
  "or_unknown s = (if s = [] then ''unknown'' else s)"

definition AnalyzeLoggingMiddleware :: "handler \<Rightarrow> handler" where
  "AnalyzeLoggingMiddleware next r ex =
     (if \<not> isAnalyzePath (rq_Path r) then next r ex
      else let r = r\<lparr>ctx_logFields := True\<rparr>;
               ex = ex\<lparr>ex_fields := \<lparr>lf_requestID = [], lf_parserOutcome = [], lf_diagramType = []\<rparr>\<rparr>
           in case with_recorder next r ex of
                None \<Rightarrow> None
              | Some (status, ex) \<Rightarrow>
                  let f = ex_fields ex;
                      requestID = (if lf_requestID f = [] then RequestIDFromContext r else lf_requestID f)
                  in Some (emit (AnalyzeCompleted requestID (rq_Path r) (rq_Method r) status
                       (or_unknown (lf_parserOutcome f)) (or_unknown (lf_diagramType f))) ex))"

definition MetricsMiddleware :: "handler \<Rightarrow> (gostring, gostring) gomap \<Rightarrow> bool \<Rightarrow> handler" where
  "MetricsMiddleware next routePatterns metrics r ex =
     (let route = (case map_of routePatterns (rq_Method r @ '' '' @ rq_Path r) of None \<Rightarrow> [] | Some p \<Rightarrow> p);
          route = or_unknown route
      in case with_recorder next r ex of
           None \<Rightarrow> None
         | Some (status, ex) \<Rightarrow>
             Some (if metrics then emit (ObservedHTTPRequest route (rq_Method r) status) ex else ex))"

section \<open>Limits, authorization, compression, origins\<close>

definition AnalyzeRateLimitMiddleware ::
  "(gostring \<Rightarrow> gostring \<Rightarrow> gostring) \<Rightarrow> 'ip netip \<Rightarrow> gostring \<Rightarrow> handler \<Rightarrow> handler" where
  "AnalyzeRateLimitMiddleware error_doc net proxies next r ex =
     (if ex_limiter ex = None then next r ex
      else if rq_Method r = ''POST'' \<and> isProtectedAnalyzePath (rq_Path r)
      then let clientID = clientIdentifier net proxies (rq_RemoteAddr r) (req_Get ''X-Forwarded-For'' r);
               (d, limiter) = Check (rq_ord r) (rq_now r) clientID (ex_limiter ex);
               ex = ex\<lparr>ex_limiter := limiter\<rparr>;
               ex = set_header ''X-RateLimit-Limit'' (Itoa (dec_limit d)) ex;
               ex = set_header ''X-RateLimit-Remaining'' (Itoa (remaining d)) ex;
               ex = set_header ''X-RateLimit-Reset'' (Itoa (resetUnix d)) ex
           in if \<not> allowed d then Some (writeError error_doc 429 ''rate_limited'' ''rate limit exceeded'' ex)
              else next r ex
      else next r ex)"

definition bearer_rejected :: "gostring \<Rightarrow> gostring \<Rightarrow> bool" where
  "bearer_rejected token authorization =
     (case Cut (TrimSpace authorization) CHR '' '' of
        (scheme, providedToken, ok) \<Rightarrow>
          if \<not> ok \<or> \<not> EqualFold scheme ''Bearer'' then True
          else TrimSpace providedToken \<noteq> token)"

definition AnalyzeBearerAuthMiddleware ::
  "(gostring \<Rightarrow> gostring \<Rightarrow> gostring) \<Rightarrow> gostring \<Rightarrow> handler \<Rightarrow> handler" where
  "AnalyzeBearerAuthMiddleware error_doc token next r ex =
     (let token = TrimSpace token
      in if token = [] then next r ex
         else if rq_Method r = ''POST'' \<and> isProtectedAnalyzePath (rq_Path r) \<and>
                 bearer_rejected token (req_Get ''Authorization'' r)
         then let ex = set_header ''WWW-Authenticate'' (''Bearer realm='' @ [CHR 0x22] @ ''merm8-api'' @ [CHR 0x22]) ex
              in Some (writeError error_doc 401 ''unauthorized'' ''missing or invalid bearer token'' ex)
         else next r ex)"

definition AnalyzeResponseCompressionMiddleware :: "codec \<Rightarrow> int \<Rightarrow> handler \<Rightarrow> handler" where
  "AnalyzeResponseCompressionMiddleware cd thresholdBytes next r ex =
     (if \<not> isAnalyzePath (rq_Path r) then next r ex
      else let thresholdBytes = (if thresholdBytes \<le> 0 then defaultAnalyzeCompressionThresholdBytes else thresholdBytes)
           in case next r (ex\<lparr>ex_writer := Buffered empty_buffer (ex_writer ex)\<rparr>) of
                None \<Rightarrow> None
              | Some ex \<Rightarrow> Some (case ex_writer ex of
                    Buffered b w \<Rightarrow>
                      ex\<lparr>ex_writer := finish_buffered cd (rq_ord r) (req_Get ''Accept-Encoding'' r) thresholdBytes b w\<rparr>
                  | _ \<Rightarrow> ex))"

text \<open>\<^verbatim>\<open>corsRejectLogger.Log\<close>: at most one line in a minute.\<close>

definition corsRejectLogger_Log :: "int \<Rightarrow> gostring \<Rightarrow> gostring \<Rightarrow> int \<Rightarrow> exchange \<Rightarrow> exchange" where
  "corsRejectLogger_Log now origin path allowlist ex =
     (case ex_lastLog ex of
        Some t \<Rightarrow> if time_Sub now t < 60000000000 then ex
                  else emit (CorsRejected origin path allowlist) (ex\<lparr>ex_lastLog := Some now\<rparr>)
      | None \<Rightarrow> emit (CorsRejected origin path allowlist) (ex\<lparr>ex_lastLog := Some now\<rparr>))"

definition append_vary :: "gostring \<Rightarrow> exchange \<Rightarrow> exchange" where
  "append_vary v ex = ex\<lparr>ex_writer := w_update (appendVaryHeader v) (ex_writer ex)\<rparr>"

definition allow_origin :: "gostring \<Rightarrow> exchange \<Rightarrow> exchange" where
  "allow_origin origin ex =
     (let ex = set_header ''Access-Control-Allow-Origin'' origin ex;
          ex = set_header ''Access-Control-Allow-Methods'' ''GET, POST, OPTIONS'' ex;
          ex = set_header ''Access-Control-Allow-Headers'' ''Content-Type, Authorization, X-Request-Id'' ex;
          ex = set_header ''Access-Control-Expose-Headers''
            (''X-RateLimit-Limit, X-RateLimit-Remaining, X-RateLimit-Reset, '' @ ''Content-Version, X-Request-Id, Retry-After'') ex
      in set_header ''Access-Control-Max-Age'' ''300'' ex)"

definition CORSMiddleware :: "gostring \<Rightarrow> bool \<Rightarrow> handler \<Rightarrow> handler" where
  "CORSMiddleware allowedOrigins metrics next r ex =
     (let matcher = newCORSOriginMatcher allowedOrigins;
          origin = req_Get ''Origin'' r;
          ex = (if origin \<noteq> [] then append_vary ''Origin'' ex else ex);
          ex = (if origin \<noteq> [] \<and> rq_Method r = ''OPTIONS''
                then append_vary ''Access-Control-Request-Headers'' (append_vary ''Access-Control-Request-Method'' ex)
                else ex)
      in if origin = [] then next r ex
         else case isAllowed matcher origin of
                None \<Rightarrow> None
              | Some True \<Rightarrow>
                  let ex = allow_origin origin ex
                  in if rq_Method r = ''OPTIONS'' then Some (ex\<lparr>ex_writer := w_WriteHeader 204 (ex_writer ex)\<rparr>)
                     else next r ex
              | Some False \<Rightarrow>
                  let ex = corsRejectLogger_Log (rq_now r) origin (rq_Path r) (allowlistSize matcher) ex;
                      ex = (if metrics then emit ObservedCORSRejectedOrigin ex else ex)
                  in next r ex)"

section \<open>Refusals\<close>

text \<open>
  A handler answers a request with a status when, on a fresh response, it always sends that status
  and leaves the limiter alone.
\<close>

definition fresh :: "exchange \<Rightarrow> bool" where
  "fresh ex \<longleftrightarrow> plain (ex_writer ex) \<and> c_sent (connection (ex_writer ex)) = None"

definition sent_status :: "exchange \<Rightarrow> int option" where
  "sent_status ex = map_option fst (c_sent (connection (ex_writer ex)))"

definition answers :: "int \<Rightarrow> handler \<Rightarrow> http_request \<Rightarrow> bool" where
  "answers status h r \<longleftrightarrow> (\<forall>ex. fresh ex \<longrightarrow>
     (\<exists>ex'. h r ex = Some ex' \<and> plain (ex_writer ex') \<and> sent_status ex' = Some status \<and> ex_limiter ex' = ex_limiter ex))"

lemma fresh_ops [simp]:
  "fresh (set_header k v ex) = fresh ex" "fresh (emit e ex) = fresh ex" "fresh (append_vary v ex) = fresh ex"
  "fresh (ex\<lparr>ex_writer := Recorder s (ex_writer ex)\<rparr>) = fresh ex"
  "fresh (ex\<lparr>ex_fields := f\<rparr>) = fresh ex" "fresh (ex\<lparr>ex_lastLog := l\<rparr>) = fresh ex"
  by (auto simp: fresh_def set_header_def emit_def append_vary_def)

lemma limiter_ops [simp]:
  "ex_limiter (set_header k v ex) = ex_limiter ex" "ex_limiter (emit e ex) = ex_limiter ex"
  "ex_limiter (append_vary v ex) = ex_limiter ex" "ex_limiter (writeError ed s c m ex) = ex_limiter ex"
  by (simp_all add: set_header_def emit_def append_vary_def writeError_def writeJSON_def)

lemma writeError_sends:
  assumes "fresh ex"
  shows "plain (ex_writer (writeError ed s c m ex)) \<and> sent_status (writeError ed s c m ex) = Some s"
  using assms by (simp add: fresh_def sent_status_def writeError_def writeJSON_def set_header_def conn_Write_def
      conn_WriteHeader_def Let_def)

lemma with_recorder_answers:
  assumes "answers status h r" "fresh ex"
  obtains s ex' where "with_recorder h r ex = Some (s, ex')" "plain (ex_writer ex')"
    "sent_status ex' = Some status" "ex_limiter ex' = ex_limiter ex"
proof -
  obtain ex' where ex': "h r (ex\<lparr>ex_writer := Recorder StatusOK (ex_writer ex)\<rparr>) = Some ex'" "plain (ex_writer ex')"
    "sent_status ex' = Some status" "ex_limiter ex' = ex_limiter ex"
    using assms unfolding answers_def by (metis fresh_ops(4) exchange.select_convs(1) exchange.surjective exchange.update_convs(5))
  show thesis
  proof (cases "ex_writer ex'")
    case (Recorder s w)
    then show thesis using ex' that by (simp add: with_recorder_def sent_status_def)
  next
    case (Conn c)
    then show thesis using ex' that by (simp add: with_recorder_def sent_status_def)
  next
    case (Buffered b w)
    then show thesis using ex'(2) by simp
  qed
qed

lemma Logging_answers:
  assumes "answers status h r" "answers status h (r\<lparr>ctx_logFields := True\<rparr>)"
  shows "answers status (AnalyzeLoggingMiddleware h) r"
  unfolding answers_def
proof (intro allI impI)
  fix ex assume "fresh ex"
  then have f: "fresh (ex\<lparr>ex_fields := \<lparr>lf_requestID = [], lf_parserOutcome = [], lf_diagramType = []\<rparr>\<rparr>)" by simp
  obtain s ex' where "with_recorder h (r\<lparr>ctx_logFields := True\<rparr>)
      (ex\<lparr>ex_fields := \<lparr>lf_requestID = [], lf_parserOutcome = [], lf_diagramType = []\<rparr>\<rparr>) = Some (s, ex')"
    "plain (ex_writer ex')" "sent_status ex' = Some status" "ex_limiter ex' = ex_limiter ex"
    using with_recorder_answers [OF assms(2) f] by auto
  then show "\<exists>ex'. AnalyzeLoggingMiddleware h r ex = Some ex' \<and> plain (ex_writer ex') \<and>
      sent_status ex' = Some status \<and> ex_limiter ex' = ex_limiter ex"
    using assms(1) \<open>fresh ex\<close>
    by (auto simp: AnalyzeLoggingMiddleware_def answers_def Let_def) (auto simp: emit_def sent_status_def)
qed

lemma Metrics_answers:
  assumes "answers status h r"
  shows "answers status (MetricsMiddleware h routes m) r"
  unfolding answers_def
proof (intro allI impI)
  fix ex assume "fresh ex"
  then obtain s ex' where "with_recorder h r ex = Some (s, ex')"
    "plain (ex_writer ex')" "sent_status ex' = Some status" "ex_limiter ex' = ex_limiter ex"
    using with_recorder_answers [OF assms] by auto
  then show "\<exists>ex'. MetricsMiddleware h routes m r ex = Some ex' \<and> plain (ex_writer ex') \<and>
      sent_status ex' = Some status \<and> ex_limiter ex' = ex_limiter ex"
    by (auto simp: MetricsMiddleware_def Let_def) (auto simp: emit_def sent_status_def)
qed

text \<open>
  CORS panics on an origin that makes the matcher panic; otherwise a request other than a preflight
  goes on to the inner handler, with a state that does not depend on that handler.
\<close>

lemma corsRejectLogger_keeps [simp]:
  "fresh (corsRejectLogger_Log t org p n e) = fresh e" "ex_limiter (corsRejectLogger_Log t org p n e) = ex_limiter e"
  by (simp_all add: corsRejectLogger_Log_def split: option.split)

lemma allow_origin_keeps [simp]:
  "fresh (allow_origin org e) = fresh e" "ex_limiter (allow_origin org e) = ex_limiter e"
  by (simp_all add: allow_origin_def Let_def)

lemma CORS_passes_on:
  assumes "rq_Method r \<noteq> ''OPTIONS''"
  obtains ex1 where "fresh ex1 = fresh ex" "ex_limiter ex1 = ex_limiter ex"
    "\<forall>h. CORSMiddleware origins m h r ex =
      (if req_Get ''Origin'' r \<noteq> [] \<and> isAllowed (newCORSOriginMatcher origins) (req_Get ''Origin'' r) = None
       then None else h r ex1)"
proof -
  let ?o = "req_Get ''Origin'' r" and ?m = "newCORSOriginMatcher origins" and ?v = "append_vary ''Origin'' ex"
  let ?l = "corsRejectLogger_Log (rq_now r) (req_Get ''Origin'' r) (rq_Path r) (allowlistSize ?m) ?v"
  let ?ex1 = "if ?o = [] then ex else if isAllowed ?m ?o = Some True then allow_origin ?o ?v
     else if m then emit ObservedCORSRejectedOrigin ?l else ?l"
  have "CORSMiddleware origins m h r ex =
      (if ?o \<noteq> [] \<and> isAllowed ?m ?o = None then None else h r ?ex1)" for h
    using assms by (cases "isAllowed ?m ?o") (auto simp: CORSMiddleware_def Let_def split: bool.splits)
  moreover have "fresh ?ex1 = fresh ex" "ex_limiter ?ex1 = ex_limiter ex" by simp_all
  ultimately show thesis using that by blast
qed

text \<open>Who presents a bearer token.\<close>

definition presents_token :: "gostring \<Rightarrow> http_request \<Rightarrow> bool" where
  "presents_token token r \<longleftrightarrow>
     (\<exists>scheme credentials. TrimSpace (req_Get ''Authorization'' r) = scheme @ '' '' @ credentials \<and>
        ToLower scheme = ''bearer'' \<and> TrimSpace credentials = token)"

lemma Cut_eq: "c \<notin> set a \<Longrightarrow> Cut (a @ c # b) c = (a, b, True)"
  by (induction a) (auto simp: Cut_def)

lemma lower_char_space: "lower_char c = CHR '' '' \<Longrightarrow> c = CHR '' ''"
  by (auto simp: lower_char_def split: if_splits dest!: arg_cong [where f = "of_char :: char \<Rightarrow> nat"])

lemma bearer_no_space: "ToLower scheme = ''bearer'' \<Longrightarrow> CHR '' '' \<notin> set scheme"
proof
  assume *: "ToLower scheme = ''bearer''" "CHR '' '' \<in> set scheme"
  then have "lower_char CHR '' '' \<in> set ''bearer''" by (metis ToLower_def image_eqI list.set_map)
  then show False by (simp add: lower_char_def)
qed

lemma bearer_rejected_iff: "bearer_rejected token (req_Get ''Authorization'' r) \<longleftrightarrow> \<not> presents_token token r"
proof -
  let ?h = "TrimSpace (req_Get ''Authorization'' r)"
  have low: "ToLower ''Bearer'' = ''bearer''" by code_simp
  show ?thesis
  proof (cases "CHR '' '' \<in> set ?h")
    case True
    then obtain a b where h: "?h = a @ CHR '' '' # b" "CHR '' '' \<notin> set a" by (meson split_list_first)
    have "presents_token token r \<longleftrightarrow> ToLower a = ''bearer'' \<and> TrimSpace b = token"
    proof
      assume "presents_token token r"
      then obtain s c where sc: "?h = s @ CHR '' '' # c" "ToLower s = ''bearer''" "TrimSpace c = token"
        by (auto simp: presents_token_def)
      have "s = a \<and> c = b" using sc(1) h bearer_no_space [OF sc(2)] Cut_eq by (metis Pair_inject)
      then show "ToLower a = ''bearer'' \<and> TrimSpace b = token" using sc by simp
    next
      assume "ToLower a = ''bearer'' \<and> TrimSpace b = token"
      then show "presents_token token r" using h(1) unfolding presents_token_def by (intro exI [of _ a] exI [of _ b]) simp
    qed
    then show ?thesis using h by (simp add: bearer_rejected_def Cut_eq EqualFold_def low)
  next
    case False
    then show ?thesis by (auto simp: bearer_rejected_def Cut_def presents_token_def)
  qed
qed

lemma BearerAuth_refuses:
  assumes "rq_Method r = ''POST''" "isProtectedAnalyzePath (rq_Path r)" "TrimSpace token \<noteq> []"
    and "\<not> presents_token (TrimSpace token) r"
  shows "answers 401 (AnalyzeBearerAuthMiddleware ed token h) r"
    and "AnalyzeBearerAuthMiddleware ed token h r = AnalyzeBearerAuthMiddleware ed token h' r"
  using assms writeError_sends
  by (auto simp: answers_def AnalyzeBearerAuthMiddleware_def Let_def bearer_rejected_iff)

lemma BearerAuth_passes:
  "presents_token (TrimSpace token) r \<Longrightarrow> AnalyzeBearerAuthMiddleware ed token h r ex = h r ex"
  by (simp add: AnalyzeBearerAuthMiddleware_def Let_def bearer_rejected_iff)

end
