(* ===== verification/Expiration_Heap.thy ===== *)
theory Expiration_Heap
  imports Prelude "HOL-Library.Word"
begin

text \<open>
  The expiration queue of the parser cache, \<^verbatim>\<open>expirationHeap\<close> in
  \<^verbatim>\<open>internal/parser/cache.go\<close>, driven by the standard library's \<^verbatim>\<open>container/heap\<close>: a binary
  heap in a slice. The locale \<open>expiration_queue\<close> states what the cache relies on (push and pop
  on the multiset of records, and that the first record expires first); its interpretation shows
  that the sift-up and sift-down loops provide it.
\<close>

section \<open>Records and the slice\<close>

text \<open>Instants are nanoseconds; a generation is a \<^verbatim>\<open>uint64\<close>.\<close>

record expiration_record =
  rec_key :: gostring
  rec_expiresAt :: int
  rec_generation :: "64 word"

type_synonym expiration_heap = "expiration_record list"

definition heap_Less :: "expiration_heap \<Rightarrow> nat \<Rightarrow> nat \<Rightarrow> bool" where
  "heap_Less h i j \<longleftrightarrow> rec_expiresAt (h ! i) < rec_expiresAt (h ! j)"

definition heap_Swap :: "expiration_heap \<Rightarrow> nat \<Rightarrow> nat \<Rightarrow> expiration_heap" where
  "heap_Swap h i j = h[i := h ! j, j := h ! i]"

text \<open>\<^verbatim>\<open>container/heap\<close>: \<^verbatim>\<open>up\<close>, \<^verbatim>\<open>down\<close>, \<^verbatim>\<open>Push\<close> and \<^verbatim>\<open>Pop\<close>.\<close>

function heap_up :: "expiration_heap \<Rightarrow> nat \<Rightarrow> expiration_heap" where
  "heap_up h j =
     (let i = (j - 1) div 2
      in if i = j \<or> \<not> heap_Less h j i then h else heap_up (heap_Swap h i j) i)"
  by pat_completeness auto
termination by (relation "measure snd") auto

function heap_down :: "expiration_heap \<Rightarrow> nat \<Rightarrow> nat \<Rightarrow> expiration_heap" where
  "heap_down h i n =
     (let j1 = 2 * i + 1
      in if j1 \<ge> n then h
         else let j2 = j1 + 1; j = (if j2 < n \<and> heap_Less h j2 j1 then j2 else j1)
              in if \<not> heap_Less h j i then h else heap_down (heap_Swap h i j) j n)"
  by pat_completeness auto
termination by (relation "measure (\<lambda>(h, i, n). n - i)") (auto split: if_splits)

declare heap_up.simps [simp del] heap_down.simps [simp del]

definition heap_Push :: "expiration_record \<Rightarrow> expiration_heap \<Rightarrow> expiration_heap" where
  "heap_Push value h = heap_up (h @ [value]) (length h)"

definition heap_Pop :: "expiration_heap \<Rightarrow> expiration_record \<times> expiration_heap" where
  "heap_Pop h =
     (let n = length h - 1; h' = heap_down (heap_Swap h 0 n) 0 n
      in (last h', butlast h'))"

section \<open>The heap order\<close>

abbreviation due :: "expiration_heap \<Rightarrow> nat \<Rightarrow> int" where
  "due h i \<equiv> rec_expiresAt (h ! i)"

definition parent :: "nat \<Rightarrow> nat" where
  "parent i = (i - 1) div 2"

lemma parent_less: "0 < i \<Longrightarrow> parent i < i"
  by (simp add: parent_def)

lemma parent_child: "0 < k \<Longrightarrow> parent k = i \<longleftrightarrow> k = 2 * i + 1 \<or> k = 2 * i + 2"
  by (auto simp: parent_def)

definition heap_ok :: "expiration_heap \<Rightarrow> bool" where
  "heap_ok h \<longleftrightarrow> (\<forall>i. 0 < i \<longrightarrow> i < length h \<longrightarrow> due h (parent i) \<le> due h i)"

text \<open>The order with one possible violation: between a node and its parent, or below a node.\<close>

definition up_ok :: "expiration_heap \<Rightarrow> nat \<Rightarrow> bool" where
  "up_ok h j \<longleftrightarrow> j < length h \<and>
     (\<forall>i. 0 < i \<longrightarrow> i < length h \<longrightarrow> i \<noteq> j \<longrightarrow> due h (parent i) \<le> due h i) \<and>
     (\<forall>i. 0 < i \<longrightarrow> i < length h \<longrightarrow> parent i = j \<longrightarrow> 0 < j \<longrightarrow> due h (parent j) \<le> due h i)"

definition down_ok :: "expiration_heap \<Rightarrow> nat \<Rightarrow> nat \<Rightarrow> bool" where
  "down_ok h i n \<longleftrightarrow> i < length h \<and> n \<le> length h \<and>
     (\<forall>k. 0 < k \<longrightarrow> k < n \<longrightarrow> parent k \<noteq> i \<longrightarrow> due h (parent k) \<le> due h k) \<and>
     (\<forall>k. 0 < k \<longrightarrow> k < n \<longrightarrow> parent k = i \<longrightarrow> 0 < i \<longrightarrow> due h (parent i) \<le> due h k)"

lemma heap_Swap_length [simp]: "length (heap_Swap h i j) = length h"
  by (simp add: heap_Swap_def)

lemma heap_Swap_mset: "i < length h \<Longrightarrow> j < length h \<Longrightarrow> mset (heap_Swap h i j) = mset h"
  by (simp add: heap_Swap_def mset_swap)

lemma heap_Swap_due:
  assumes "i < length h" and "j < length h"
  shows "due (heap_Swap h i j) k = (if k = j then due h i else if k = i then due h j else due h k)"
  using assms by (simp add: heap_Swap_def nth_list_update)

lemma up_ok_step:
  assumes ok: "up_ok h j" and less: "due h j < due h (parent j)" and "0 < j"
  shows "up_ok (heap_Swap h (parent j) j) (parent j)"
proof -
  define p where "p = parent j"
  have j: "j < length h" and p: "p < length h" "p < j"
    using ok parent_less [OF \<open>0 < j\<close>] by (auto simp: up_ok_def p_def)
  note due = heap_Swap_due [OF p(1) j]
  have ord: "due h (parent i) \<le> due h i" if "0 < i" "i < length h" "i \<noteq> j" for i
    using ok that by (auto simp: up_ok_def)
  have below: "due h p \<le> due h i" if "0 < i" "i < length h" "parent i = j" for i
    using ok that \<open>0 < j\<close> by (auto simp: up_ok_def p_def)
  have less': "due h j < due h p" using less by (simp add: p_def)
  have "due (heap_Swap h p j) (parent i) \<le> due (heap_Swap h p j) i" if i: "0 < i" "i < length h" "i \<noteq> p" for i
    unfolding due using ord [OF i(1,2)] below [OF i(1,2)] less' i(3) p(2) p_def by auto
  moreover have "due (heap_Swap h p j) (parent p) \<le> due (heap_Swap h p j) i"
    if i: "0 < i" "i < length h" "parent i = p" "0 < p" for i
  proof -
    have up: "due h (parent p) \<le> due h p" using ord [of p] p i(4) by simp
    have "parent p \<noteq> p" "parent p \<noteq> j" "i \<noteq> p" using parent_less [OF i(4)] parent_less [OF i(1)] p(2) i(3) by auto
    then show ?thesis unfolding due using up ord [OF i(1,2)] i(3) by auto
  qed
  ultimately show ?thesis using p unfolding p_def [symmetric] by (simp add: up_ok_def)
qed

lemma heap_up_ok: "up_ok h j \<Longrightarrow> heap_ok (heap_up h j) \<and> mset (heap_up h j) = mset h"
proof (induction h j rule: heap_up.induct)
  case (1 h j)
  have step: "heap_up h j = (if parent j = j \<or> \<not> heap_Less h j (parent j) then h
      else heap_up (heap_Swap h (parent j) j) (parent j))"
    by (subst heap_up.simps) (simp add: Let_def parent_def)
  show ?case
  proof (cases "parent j = j \<or> \<not> heap_Less h j (parent j)")
    case True
    then have "j = 0 \<or> due h (parent j) \<le> due h j"
      using parent_less [of j] by (auto simp: heap_Less_def)
    with 1(2) True step show ?thesis by (auto simp: heap_ok_def up_ok_def)
  next
    case False
    then have *: "0 < j" "due h j < due h (parent j)"
      by (auto simp: heap_Less_def parent_def intro: gr0I)
    have "mset (heap_Swap h (parent j) j) = mset h"
      using 1(2) parent_less [OF *(1)] by (intro heap_Swap_mset) (auto simp: up_ok_def)
    with 1(1) [OF parent_def False up_ok_step [OF 1(2) *(2,1)]] False step show ?thesis by simp
  qed
qed

definition smaller_child :: "expiration_heap \<Rightarrow> nat \<Rightarrow> nat \<Rightarrow> nat" where
  "smaller_child h i n = (if 2 * i + 2 < n \<and> heap_Less h (2 * i + 2) (2 * i + 1) then 2 * i + 2 else 2 * i + 1)"

lemma smaller_child:
  assumes "2 * i + 1 < n"
  shows "smaller_child h i n < n" and "parent (smaller_child h i n) = i" and "i < smaller_child h i n"
    and "\<And>k. 0 < k \<Longrightarrow> k < n \<Longrightarrow> parent k = i \<Longrightarrow> due h (smaller_child h i n) \<le> due h k"
  using assms by (auto simp: smaller_child_def heap_Less_def parent_child)

lemma heap_down_step:
  "heap_down h i n = (if 2 * i + 1 \<ge> n \<or> \<not> heap_Less h (smaller_child h i n) i then h
     else heap_down (heap_Swap h i (smaller_child h i n)) (smaller_child h i n) n)"
  by (subst heap_down.simps) (simp add: Let_def smaller_child_def)

lemma down_ok_step:
  assumes ok: "down_ok h i n" and child: "2 * i + 1 < n" and less: "due h (smaller_child h i n) < due h i"
  shows "down_ok (heap_Swap h i (smaller_child h i n)) (smaller_child h i n) n"
proof -
  define j where "j = smaller_child h i n"
  note c = smaller_child [OF child, where h = h, folded j_def]
  have len: "i < length h" "n \<le> length h" "j < length h" using ok c(1) by (auto simp: down_ok_def)
  note due = heap_Swap_due [OF len(1,3)]
  have ord: "due h (parent k) \<le> due h k" if "0 < k" "k < n" "parent k \<noteq> i" for k
    using ok that by (auto simp: down_ok_def)
  have below: "due h (parent i) \<le> due h k" if "0 < k" "k < n" "parent k = i" "0 < i" for k
    using ok that by (auto simp: down_ok_def)
  have less': "due h j < due h i" using less by (simp add: j_def)
  have "due (heap_Swap h i j) (parent k) \<le> due (heap_Swap h i j) k" if k: "0 < k" "k < n" "parent k \<noteq> j" for k
  proof (cases "k = i")
    case True
    then show ?thesis unfolding due
      using parent_less [of k] below [of j] c(1,2,3) k by auto
  next
    case False
    show ?thesis unfolding due using False k ord [OF k(1,2)] c(4) [OF k(1,2)] less' c(2) by auto
  qed
  moreover have "due (heap_Swap h i j) (parent j) \<le> due (heap_Swap h i j) k"
    if k: "0 < k" "k < n" "parent k = j" for k
    unfolding due using c(2,3) k parent_less [OF k(1)] ord [OF k(1,2)] by auto
  ultimately show ?thesis using len unfolding j_def [symmetric] by (simp add: down_ok_def)
qed

lemma heap_down_ok:
  "down_ok h i n \<Longrightarrow> mset (heap_down h i n) = mset h \<and> length (heap_down h i n) = length h \<and>
     (\<forall>k\<ge>n. heap_down h i n ! k = h ! k) \<and>
     (\<forall>k. 0 < k \<longrightarrow> k < n \<longrightarrow> due (heap_down h i n) (parent k) \<le> due (heap_down h i n) k)"
proof (induction "n - i" arbitrary: h i rule: less_induct)
  case less
  define j where "j = smaller_child h i n"
  show ?case
  proof (cases "2 * i + 1 \<ge> n \<or> \<not> heap_Less h j i")
    case True
    have "due h (parent k) \<le> due h k" if k: "0 < k" "k < n" for k
    proof (cases "parent k = i")
      case p: True
      then have child: "2 * i + 1 < n" using k by (auto simp: parent_child)
      then have "due h i \<le> due h j" using True by (auto simp: heap_Less_def j_def)
      also have "\<dots> \<le> due h k" using smaller_child(4) [OF child k p] by (simp add: j_def)
      finally show ?thesis using p by simp
    qed (use less.prems k in \<open>auto simp: down_ok_def\<close>)
    with True show ?thesis by (subst (1 2 3 4 5) heap_down_step) (simp add: j_def)
  next
    case False
    then have child: "2 * i + 1 < n" and lt: "due h j < due h i" by (auto simp: heap_Less_def)
    note c = smaller_child [OF child, where h = h, folded j_def]
    have len: "i < length h" "j < length h" using less.prems c(1) by (auto simp: down_ok_def)
    have ok: "down_ok (heap_Swap h i j) j n" using down_ok_step [OF less.prems child] lt by (simp add: j_def)
    have "n - j < n - i" using c(1,3) by simp
    note IH = less.hyps [OF this ok]
    have "heap_Swap h i j ! k = h ! k" if "k \<ge> n" for k
      using that c(1,3) by (simp add: heap_Swap_def)
    moreover have "heap_down h i n = heap_down (heap_Swap h i j) j n"
      using False by (subst heap_down_step) (simp add: j_def)
    ultimately show ?thesis using IH heap_Swap_mset [OF len] by simp
  qed
qed

lemma heap_first_least:
  assumes "heap_ok h" and "i < length h"
  shows "due h 0 \<le> due h i"
  using assms(2)
proof (induction i rule: less_induct)
  case (less i)
  show ?case
  proof (cases "i = 0")
    case False
    then have "due h 0 \<le> due h (parent i)" using less parent_less [of i] by simp
    also have "\<dots> \<le> due h i" using assms(1) less.prems False by (simp add: heap_ok_def)
    finally show ?thesis .
  qed simp
qed

lemma heap_Push_ok:
  assumes "heap_ok h"
  shows "heap_ok (heap_Push r h) \<and> mset (heap_Push r h) = add_mset r (mset h)"
proof -
  have "due (h @ [r]) (parent i) \<le> due (h @ [r]) i" if "0 < i" "i < length h" for i
    using assms that parent_less [OF that(1)] by (simp add: heap_ok_def nth_append)
  moreover have "parent i \<noteq> length h" if "0 < i" "i < Suc (length h)" for i
    using parent_less [OF that(1)] that(2) by simp
  ultimately have "up_ok (h @ [r]) (length h)" by (auto simp: up_ok_def)
  from heap_up_ok [OF this] show ?thesis by (simp add: heap_Push_def)
qed

lemma heap_Pop_ok:
  assumes "heap_ok h" and "h \<noteq> []"
  obtains h' where "heap_Pop h = (h ! 0, h')" and "heap_ok h'" and "mset h = add_mset (h ! 0) (mset h')"
proof -
  define n where "n = length h - 1"
  define g where "g = heap_down (heap_Swap h 0 n) 0 n"
  have n: "n < length h" "0 < length h" "length h = Suc n" using assms(2) by (auto simp: n_def)
  have "due (heap_Swap h 0 n) (parent k) \<le> due (heap_Swap h 0 n) k" if "0 < k" "k < n" "parent k \<noteq> 0" for k
    unfolding heap_Swap_due [OF n(2,1)] using that assms(1) n parent_less [OF that(1)] by (simp add: heap_ok_def)
  then have "down_ok (heap_Swap h 0 n) 0 n" using n by (simp add: down_ok_def)
  from heap_down_ok [OF this] have g: "mset g = mset (heap_Swap h 0 n)" "length g = length h"
    "g ! n = heap_Swap h 0 n ! n" "\<forall>k. 0 < k \<longrightarrow> k < n \<longrightarrow> due g (parent k) \<le> due g k"
    by (simp_all add: g_def)
  have ne: "g \<noteq> []" using g(2) n by auto
  have last: "last g = h ! 0" using g(2,3) n by (simp add: last_conv_nth ne heap_Swap_def)
  have "heap_Pop h = (h ! 0, butlast g)" by (simp add: heap_Pop_def Let_def last [symmetric] g_def n_def)
  moreover have "due (butlast g) (parent k) \<le> due (butlast g) k" if "0 < k" "k < n" for k
    using g(2,4) n that parent_less [OF that(1)] by (simp add: nth_butlast)
  then have "heap_ok (butlast g)" using g(2) n by (simp add: heap_ok_def)
  moreover have "mset h = add_mset (h ! 0) (mset (butlast g))"
  proof -
    have "mset g = add_mset (last g) (mset (butlast g))"
      using ne by (metis append_butlast_last_id mset_append mset.simps union_mset_add_mset_right add_0_right)
    then show ?thesis using g(1) heap_Swap_mset [OF n(2,1)] last by simp
  qed
  ultimately show thesis by (rule that)
qed

section \<open>The interface the cache relies on\<close>

locale expiration_queue =
  fixes push :: "'r \<Rightarrow> 'q \<Rightarrow> 'q" and pop :: "'q \<Rightarrow> 'r \<times> 'q" and first :: "'q \<Rightarrow> 'r"
    and ok :: "'q \<Rightarrow> bool" and records :: "'q \<Rightarrow> 'r multiset" and expires :: "'r \<Rightarrow> int"
  assumes push_ok: "ok q \<Longrightarrow> ok (push r q)"
    and push_records: "ok q \<Longrightarrow> records (push r q) = add_mset r (records q)"
    and pop_first: "ok q \<Longrightarrow> records q \<noteq> {#} \<Longrightarrow> fst (pop q) = first q"
    and pop_ok: "ok q \<Longrightarrow> records q \<noteq> {#} \<Longrightarrow> ok (snd (pop q))"
    and pop_records: "ok q \<Longrightarrow> records q \<noteq> {#} \<Longrightarrow> records q = add_mset (first q) (records (snd (pop q)))"
    and first_least: "ok q \<Longrightarrow> r \<in># records q \<Longrightarrow> expires (first q) \<le> expires r"
begin

lemma nothing_due:
  "ok q \<Longrightarrow> now < expires (first q) \<Longrightarrow> r \<in># records q \<Longrightarrow> now < expires r"
  using first_least by fastforce

lemma pop_drops_first:
  "ok q \<Longrightarrow> records q \<noteq> {#} \<Longrightarrow> r \<in># records q \<Longrightarrow> r = fst (pop q) \<or> r \<in># records (snd (pop q))"
  using pop_records pop_first by (metis insert_iff set_mset_add_mset_insert)

lemma pop_size: "ok q \<Longrightarrow> records q \<noteq> {#} \<Longrightarrow> size (records q) = Suc (size (records (snd (pop q))))"
  using pop_records by (metis size_add_mset)

end

interpretation heap: expiration_queue heap_Push heap_Pop "\<lambda>h. h ! 0" heap_ok mset rec_expiresAt
proof (rule expiration_queue.intro)
  fix q :: expiration_heap and r
  show "heap_ok q \<Longrightarrow> heap_ok (heap_Push r q)" "heap_ok q \<Longrightarrow> mset (heap_Push r q) = add_mset r (mset q)"
    using heap_Push_ok by auto
  show "heap_ok q \<Longrightarrow> mset q \<noteq> {#} \<Longrightarrow> fst (heap_Pop q) = q ! 0"
    "heap_ok q \<Longrightarrow> mset q \<noteq> {#} \<Longrightarrow> heap_ok (snd (heap_Pop q))"
    "heap_ok q \<Longrightarrow> mset q \<noteq> {#} \<Longrightarrow> mset q = add_mset (q ! 0) (mset (snd (heap_Pop q)))"
    using heap_Pop_ok by (metis fst_conv snd_conv mset_zero_iff)+
  show "heap_ok q \<Longrightarrow> r \<in># mset q \<Longrightarrow> rec_expiresAt (q ! 0) \<le> rec_expiresAt r"
    using heap_first_least by (metis in_multiset_in_set in_set_conv_nth)
qed

end
