(* ===== verification/Ttl_Cache.thy ===== *)
theory Ttl_Cache
  imports Prelude
begin

text \<open>
  What the callers of a cache with expiry rely on, as locales: a lookup under a clock, and how
  reading and writing change it. A cache may forget a key at any time. The LRU cache and the
  two-sided parse cache never return a value other than the last one stored (\<open>expiring_cache\<close>).
  The analysis result cache of the API refuses a value that does not fit and keeps the one it had,
  so its contract is weaker (\<open>memo_cache\<close>): a hit was stored under the key recently enough.
\<close>

section \<open>The contract\<close>

locale ttl_cache =
  fixes get :: "int \<Rightarrow> gostring \<Rightarrow> 'c \<Rightarrow> 'v option \<times> 'c"
    and put :: "int \<Rightarrow> gostring \<Rightarrow> 'v \<Rightarrow> 'c \<Rightarrow> 'c"
    and lookup :: "int \<Rightarrow> 'c \<Rightarrow> gostring \<Rightarrow> 'v option"
    and ok :: "'c \<Rightarrow> bool"
  assumes get_ok: "ok c \<Longrightarrow> ok (snd (get now k c))"
    and put_ok: "ok c \<Longrightarrow> ok (put now k v c)"
    and get_result: "ok c \<Longrightarrow> fst (get now k c) = lookup now c k"
    and get_lookup: "ok c \<Longrightarrow> now \<le> t \<Longrightarrow> lookup t (snd (get now k c)) k' = lookup t c k'"
    and put_same: "ok c \<Longrightarrow> now \<le> t \<Longrightarrow> lookup t (put now k v c) k \<in> {None, Some v}"
    and put_other: "ok c \<Longrightarrow> now \<le> t \<Longrightarrow> k' \<noteq> k \<Longrightarrow> lookup t (put now k v c) k' \<in> {None, lookup t c k'}"

datatype 'v cache_op = CacheGet gostring | CachePut gostring 'v

text \<open>The value last stored under each key by a sequence of operations, and when.\<close>

fun last_stored :: "(int \<times> 'v cache_op) list \<Rightarrow> gostring \<Rightarrow> (int \<times> 'v) option" where
  "last_stored [] k = None"
| "last_stored ((t, CacheGet _) # ops) k = last_stored ops k"
| "last_stored ((t, CachePut k' v) # ops) k =
     (case last_stored ops k of Some w \<Rightarrow> Some w | None \<Rightarrow> if k' = k then Some (t, v) else None)"

fun run_ops ::
  "(int \<Rightarrow> gostring \<Rightarrow> 'c \<Rightarrow> 'v option \<times> 'c) \<Rightarrow> (int \<Rightarrow> gostring \<Rightarrow> 'v \<Rightarrow> 'c \<Rightarrow> 'c)
     \<Rightarrow> (int \<times> 'v cache_op) list \<Rightarrow> 'c \<Rightarrow> 'c" where
  "run_ops get put [] c = c"
| "run_ops get put ((t, CacheGet k) # ops) c = run_ops get put ops (snd (get t k c))"
| "run_ops get put ((t, CachePut k v) # ops) c = run_ops get put ops (put t k v c)"

context ttl_cache
begin

lemma run_ok: "ok c \<Longrightarrow> ok (run_ops get put ops c)"
proof (induction ops arbitrary: c)
  case (Cons op ops)
  then show ?case by (cases op; cases "snd op") (auto simp: get_ok put_ok)
qed simp

text \<open>A lookup after a run gives the last stored value, the old value, or nothing.\<close>

lemma run_lookup:
  assumes "ok c" and "\<forall>op\<in>set ops. fst op \<le> t"
  shows "lookup t (run_ops get put ops c) k \<in>
    {None, (case last_stored ops k of Some (s, v) \<Rightarrow> Some v | None \<Rightarrow> lookup t c k)}"
  using assms
proof (induction ops arbitrary: c)
  case (Cons op ops)
  obtain s o' where op: "op = (s, o')" by (cases op)
  then have s: "s \<le> t" using Cons.prems by simp
  show ?case
  proof (cases o')
    case (CacheGet k')
    with Cons.IH [OF get_ok [OF Cons.prems(1), of s k']] Cons.prems(2) op get_lookup [OF Cons.prems(1) s]
    show ?thesis by (auto split: option.splits)
  next
    case (CachePut k' v)
    note IH = Cons.IH [OF put_ok [OF Cons.prems(1), of s k' v]]
    show ?thesis
    proof (cases "last_stored ops k")
      case None
      have "lookup t (put s k' v c) k \<in> {None, (if k' = k then Some v else lookup t c k)}"
        using put_same [OF Cons.prems(1) s] put_other [OF Cons.prems(1) s] by auto
      with IH Cons.prems op CachePut None show ?thesis by auto
    qed (use IH Cons.prems op CachePut in auto)
  qed
qed simp

lemma hit_is_last_stored:
  assumes "ok c" and "\<And>t. lookup t c k = None" and "\<forall>op\<in>set ops. fst op \<le> t"
    and "fst (get t k (run_ops get put ops c)) = Some v"
  obtains s where "last_stored ops k = Some (s, v)"
  using run_lookup [OF assms(1,3), of k] assms(2,4) get_result [OF run_ok [OF assms(1)]] that
  by (auto split: option.splits)

end

text \<open>A cache that also keeps a value no longer than its life.\<close>

locale expiring_cache = ttl_cache get put lookup ok
  for get :: "int \<Rightarrow> gostring \<Rightarrow> 'c \<Rightarrow> 'v option \<times> 'c"
    and put :: "int \<Rightarrow> gostring \<Rightarrow> 'v \<Rightarrow> 'c \<Rightarrow> 'c"
    and lookup :: "int \<Rightarrow> 'c \<Rightarrow> gostring \<Rightarrow> 'v option"
    and ok :: "'c \<Rightarrow> bool" +
  fixes life :: "'v \<Rightarrow> int"
  assumes put_expires: "ok c \<Longrightarrow> now \<le> t \<Longrightarrow> now + life v \<le> t \<Longrightarrow> lookup t (put now k v c) k = None"
begin

lemma run_expired:
  assumes "ok c" and "\<forall>op\<in>set ops. fst op \<le> t" and "last_stored ops k = Some (s, v)" and "s + life v \<le> t"
  shows "lookup t (run_ops get put ops c) k = None"
  using assms
proof (induction ops arbitrary: c)
  case (Cons op ops)
  obtain r o' where op: "op = (r, o')" by (cases op)
  show ?case
  proof (cases o')
    case (CacheGet k')
    with Cons op show ?thesis by (auto simp: get_ok)
  next
    case (CachePut k' w)
    show ?thesis
    proof (cases "last_stored ops k")
      case None
      with Cons.prems op CachePut have "k' = k" "r = s" "w = v" by (auto split: if_splits)
      moreover from this have "lookup t (put s k v c) k = None" using put_expires Cons.prems op by simp
      ultimately show ?thesis
        using run_lookup [OF put_ok [OF Cons.prems(1)], of ops t s k v k] None Cons.prems(2) op CachePut by simp
    next
      case (Some a)
      with Cons op CachePut show ?thesis by (auto simp: put_ok)
    qed
  qed
qed simp

text \<open>A hit is the last stored value, and it is younger than its life.\<close>

lemma hit_is_fresh:
  assumes "ok c" and "\<And>t. lookup t c k = None" and "\<forall>op\<in>set ops. fst op \<le> t"
    and "fst (get t k (run_ops get put ops c)) = Some v"
  shows "\<exists>s. last_stored ops k = Some (s, v) \<and> t < s + life v"
proof -
  obtain s where s: "last_stored ops k = Some (s, v)" using hit_is_last_stored [OF assms] by blast
  have "lookup t (run_ops get put ops c) k = Some v" using assms(4) get_result [OF run_ok [OF assms(1)]] by simp
  then have "\<not> s + life v \<le> t" using run_expired [OF assms(1,3) s] by auto
  with s show ?thesis by auto
qed

end

section \<open>The weaker contract\<close>

locale memo_cache =
  fixes get :: "int \<Rightarrow> gostring \<Rightarrow> 'c \<Rightarrow> 'v option \<times> 'c"
    and put :: "int \<Rightarrow> gostring \<Rightarrow> 'v \<Rightarrow> 'c \<Rightarrow> 'c"
    and lookup :: "int \<Rightarrow> 'c \<Rightarrow> gostring \<Rightarrow> 'v option"
    and ok :: "'c \<Rightarrow> bool"
    and life :: "'v \<Rightarrow> int"
    and copy :: "'v \<Rightarrow> 'v \<Rightarrow> bool"
  assumes get_ok: "ok c \<Longrightarrow> ok (snd (get now k c))"
    and put_ok: "ok c \<Longrightarrow> ok (put now k v c)"
    and get_result: "ok c \<Longrightarrow> fst (get now k c) = lookup now c k"
    and get_lookup: "ok c \<Longrightarrow> now \<le> t \<Longrightarrow> lookup t (snd (get now k c)) k' = lookup t c k'"
    and put_lookup: "ok c \<Longrightarrow> now \<le> t \<Longrightarrow> lookup t (put now k v c) k' = Some w \<Longrightarrow>
      k' = k \<and> copy v w \<and> t < now + life v \<or> lookup t c k' = Some w"
begin

lemma run_ok: "ok c \<Longrightarrow> ok (run_ops get put ops c)"
proof (induction ops arbitrary: c)
  case (Cons op ops)
  then show ?case by (cases op; cases "snd op") (auto simp: get_ok put_ok)
qed simp

lemma run_lookup:
  assumes "ok c" and "\<forall>op\<in>set ops. fst op \<le> t" and "lookup t (run_ops get put ops c) k = Some w"
  shows "lookup t c k = Some w \<or> (\<exists>s v. (s, CachePut k v) \<in> set ops \<and> copy v w \<and> t < s + life v)"
  using assms
proof (induction ops arbitrary: c)
  case (Cons op ops)
  obtain s o' where op: "op = (s, o')" by (cases op)
  show ?case
  proof (cases o')
    case (CacheGet k')
    with Cons.IH [of "snd (get s k' c)"] Cons.prems op show ?thesis by (auto simp: get_ok get_lookup)
  next
    case (CachePut k' v)
    with Cons.IH [of "put s k' v c"] Cons.prems op put_lookup [OF Cons.prems(1), of s t k' v k w]
    show ?thesis by (auto simp: put_ok)
  qed
qed simp

text \<open>A hit is a copy of a value stored under the key less than its life ago.\<close>

lemma hit_was_stored:
  assumes "ok c" and "\<And>t. lookup t c k = None" and "\<forall>op\<in>set ops. fst op \<le> t"
    and "fst (get t k (run_ops get put ops c)) = Some w"
  shows "\<exists>s v. (s, CachePut k v) \<in> set ops \<and> copy v w \<and> t < s + life v"
  using run_lookup [OF assms(1,3), of k w] assms(2,4) get_result [OF run_ok [OF assms(1)]] by simp

end

sublocale expiring_cache \<subseteq> memo: memo_cache get put lookup ok life "\<lambda>v w. w = v"
proof (rule memo_cache.intro)
  fix c now t k v k' w
  assume ok: "ok c" and t: "now \<le> t" and hit: "lookup t (put now k v c) k' = Some w"
  show "k' = k \<and> w = v \<and> t < now + life v \<or> lookup t c k' = Some w"
  proof (cases "k' = k")
    case True
    have "lookup t (put now k v c) k \<in> {None, Some v}" using put_same [OF ok t] .
    moreover have "\<not> now + life v \<le> t" using put_expires [OF ok t, of v k] hit True by auto
    ultimately show ?thesis using True hit by auto
  next
    case False
    then show ?thesis using put_other [OF ok t False, of v] hit by auto
  qed
qed (auto simp: get_ok put_ok get_result get_lookup)

end
