(* ===== verification/Parser_Cache.thy ===== *)
theory Parser_Cache
  imports Expiration_Heap Ttl_Cache
begin

text \<open>
  The generic LRU cache with expiry of \<^verbatim>\<open>internal/parser/cache.go\<close>. An element of the
  \<^verbatim>\<open>container/list\<close> is named by the key of its entry, so \<open>lru_order\<close> is the list of keys from
  front to back and \<open>lru_entries\<close> holds the entries the elements point to. The clock is the
  argument \<open>now\<close> of the operations; the mutex makes each of them one step.
\<close>

section \<open>The cache\<close>

record 'v lru_entry =
  ent_value :: 'v
  ent_expiresAt :: int
  ent_generation :: "64 word"
  ent_weight :: int

record 'v lru_cache =
  lru_ttl :: int
  lru_maxSize :: int
  lru_maxBytes :: int
  lru_bytes :: int
  lru_entries :: "(gostring, 'v lru_entry) gomap"
  lru_order :: "gostring list"
  lru_expiry :: expiration_heap

definition newLRUTTLCache :: "int \<Rightarrow> int \<Rightarrow> int option \<Rightarrow> 'v lru_cache" where
  "newLRUTTLCache maxSize ttl maxBytes =
     \<lparr>lru_ttl = ttl, lru_maxSize = maxSize,
      lru_maxBytes = (case maxBytes of None \<Rightarrow> 0 | Some b \<Rightarrow> b),
      lru_bytes = 0, lru_entries = [], lru_order = [], lru_expiry = []\<rparr>"

definition removeElementLocked :: "gostring \<Rightarrow> 'v lru_cache \<Rightarrow> 'v lru_cache" where
  "removeElementLocked key c =
     (case map_of (lru_entries c) key of
        None \<Rightarrow> c
      | Some entry \<Rightarrow>
          c\<lparr>lru_entries := AList.delete key (lru_entries c),
            lru_bytes := lru_bytes c - ent_weight entry,
            lru_order := remove1 key (lru_order c)\<rparr>)"

definition record_live :: "expiration_record \<Rightarrow> 'v lru_cache \<Rightarrow> bool" where
  "record_live r c =
     (case map_of (lru_entries c) (rec_key r) of
        None \<Rightarrow> False
      | Some entry \<Rightarrow> ent_generation entry = rec_generation r \<and> ent_expiresAt entry = rec_expiresAt r)"

lemma heap_Pop_length: "length (snd (heap_Pop h)) = length h - 1"
proof -
  have "length (heap_down g i n) = length g" for g i n
    by (induction g i n rule: heap_down.induct) (subst heap_down.simps, simp add: Let_def)
  then show ?thesis by (simp add: heap_Pop_def Let_def)
qed

text \<open>The eviction loop; the count of evicted entries is returned with the cache.\<close>

function evictExpiredLocked :: "int \<Rightarrow> 'v lru_cache \<Rightarrow> int \<times> 'v lru_cache" where
  "evictExpiredLocked now c =
     (if length (lru_expiry c) > 0 \<and> \<not> now < rec_expiresAt (lru_expiry c ! 0)
      then let (r, expiry) = heap_Pop (lru_expiry c); c' = c\<lparr>lru_expiry := expiry\<rparr>
           in if \<not> record_live r c' then evictExpiredLocked now c'
              else let (evicted, c'') = evictExpiredLocked now (removeElementLocked (rec_key r) c')
                   in (evicted + 1, c'')
      else (0, c))"
  by pat_completeness auto

lemma removeElementLocked_frame [simp]:
  "lru_expiry (removeElementLocked k c) = lru_expiry c" "lru_ttl (removeElementLocked k c) = lru_ttl c"
  "lru_maxSize (removeElementLocked k c) = lru_maxSize c" "lru_maxBytes (removeElementLocked k c) = lru_maxBytes c"
  by (simp_all add: removeElementLocked_def split: option.split)

termination evictExpiredLocked
proof (relation "measure (\<lambda>(now, c). length (lru_expiry c))")
  fix now :: int and c c' :: "'v lru_cache" and x r expiry
  assume due: "length (lru_expiry c) > 0 \<and> \<not> now < rec_expiresAt (lru_expiry c ! 0)"
    and x: "x = heap_Pop (lru_expiry c)" and p: "(r, expiry) = x" and c': "c' = c\<lparr>lru_expiry := expiry\<rparr>"
  have "expiry = snd (heap_Pop (lru_expiry c))" using x p by (metis snd_conv)
  then have "length expiry < length (lru_expiry c)" using due heap_Pop_length by (metis diff_less zero_less_one)
  then show "((now, c'), now, c) \<in> measure (\<lambda>(now, c). length (lru_expiry c))"
    and "((now, removeElementLocked (rec_key r) c'), now, c) \<in> measure (\<lambda>(now, c). length (lru_expiry c))"
    by (simp_all add: c')
qed simp

declare evictExpiredLocked.simps [simp del]

definition lru_disabled :: "'v lru_cache \<Rightarrow> bool" where
  "lru_disabled c \<longleftrightarrow> lru_maxSize c \<le> 0 \<or> lru_ttl c \<le> 0"

definition MoveToFront :: "gostring \<Rightarrow> 'v lru_cache \<Rightarrow> 'v lru_cache" where
  "MoveToFront key c = c\<lparr>lru_order := key # remove1 key (lru_order c)\<rparr>"

definition lru_Get :: "int \<Rightarrow> gostring \<Rightarrow> 'v lru_cache \<Rightarrow> ('v option \<times> int) \<times> 'v lru_cache" where
  "lru_Get now key c =
     (if lru_disabled c then ((None, 0), c)
      else let (evicted, c) = evictExpiredLocked now c in
        case map_of (lru_entries c) key of
          None \<Rightarrow> ((None, evicted), c)
        | Some entry \<Rightarrow>
            if \<not> now < ent_expiresAt entry then ((None, evicted + 1), removeElementLocked key c)
            else ((Some (ent_value entry), evicted), MoveToFront key c))"

text \<open>
  The loop that drops the least recently used entries, from the back of the list. Every element
  of the list has its entry in the map (the invariant below), so the second test never stops it.
\<close>

function shrink :: "'v lru_cache \<Rightarrow> int \<times> 'v lru_cache" where
  "shrink c =
     (if int (length (lru_order c)) > lru_maxSize c \<or> (lru_maxBytes c > 0 \<and> lru_bytes c > lru_maxBytes c)
      then if lru_order c \<noteq> [] \<and> map_of (lru_entries c) (last (lru_order c)) \<noteq> None
           then let (removed, c') = shrink (removeElementLocked (last (lru_order c)) c) in (removed + 1, c')
           else (0, c)
      else (0, c))"
  by pat_completeness auto
termination
  by (relation "measure (\<lambda>c. length (lru_order c))")
    (auto simp: removeElementLocked_def length_remove1)

declare shrink.simps [simp del]

definition SetWeighted :: "int \<Rightarrow> gostring \<Rightarrow> 'v \<Rightarrow> int \<Rightarrow> 'v lru_cache \<Rightarrow> int \<times> 'v lru_cache" where
  "SetWeighted now key value weight c =
     (if lru_disabled c then (0, c)
      else let weight = (if weight < 0 then 0 else weight);
               (removed, c) = evictExpiredLocked now c
           in case map_of (lru_entries c) key of
                Some entry \<Rightarrow>
                  if lru_maxBytes c > 0 \<and> weight > lru_maxBytes c
                  then (removed + 1, removeElementLocked key c)
                  else let entry' = entry\<lparr>ent_value := value, ent_weight := weight,
                                     ent_expiresAt := now + lru_ttl c,
                                     ent_generation := ent_generation entry + 1\<rparr>
                       in (removed, MoveToFront key
                            (c\<lparr>lru_bytes := lru_bytes c - ent_weight entry + weight,
                               lru_entries := AList.update key entry' (lru_entries c),
                               lru_expiry := heap_Push \<lparr>rec_key = key, rec_expiresAt = ent_expiresAt entry',
                                               rec_generation = ent_generation entry'\<rparr> (lru_expiry c)\<rparr>))
              | None \<Rightarrow>
                  if lru_maxBytes c > 0 \<and> weight > lru_maxBytes c then (removed, c)
                  else let entry = \<lparr>ent_value = value, ent_expiresAt = now + lru_ttl c, ent_generation = 1,
                                    ent_weight = weight\<rparr>;
                           c = c\<lparr>lru_order := key # lru_order c,
                                 lru_entries := AList.update key entry (lru_entries c),
                                 lru_bytes := lru_bytes c + weight,
                                 lru_expiry := heap_Push \<lparr>rec_key = key, rec_expiresAt = ent_expiresAt entry,
                                                 rec_generation = 1\<rparr> (lru_expiry c)\<rparr>;
                           (dropped, c) = shrink c
                       in (removed + dropped, c))"

definition lru_Set :: "int \<Rightarrow> gostring \<Rightarrow> 'v \<Rightarrow> 'v lru_cache \<Rightarrow> int \<times> 'v lru_cache" where
  "lru_Set now key value c = SetWeighted now key value 1 c"

definition lru_Delete :: "gostring \<Rightarrow> 'v lru_cache \<Rightarrow> 'v lru_cache" where
  "lru_Delete key c = (if map_of (lru_entries c) key \<noteq> None then removeElementLocked key c else c)"

definition lru_ByteSize :: "'v lru_cache \<Rightarrow> int" where
  "lru_ByteSize c = lru_bytes c"

section \<open>The invariant\<close>

definition weight_of :: "'v lru_cache \<Rightarrow> gostring \<Rightarrow> int" where
  "weight_of c k = (case map_of (lru_entries c) k of None \<Rightarrow> 0 | Some e \<Rightarrow> ent_weight e)"

definition record_of :: "gostring \<Rightarrow> 'v lru_entry \<Rightarrow> expiration_record" where
  "record_of k e = \<lparr>rec_key = k, rec_expiresAt = ent_expiresAt e, rec_generation = ent_generation e\<rparr>"

text \<open>List, map, byte count and expiration queue agree.\<close>

definition lru_inv :: "'v lru_cache \<Rightarrow> bool" where
  "lru_inv c \<longleftrightarrow> distinct (lru_order c) \<and> set (lru_order c) = dom (map_of (lru_entries c))
     \<and> distinct (gm_keys (lru_entries c)) \<and> lru_bytes c = sum_list (map (weight_of c) (lru_order c))
     \<and> (\<forall>k e. map_of (lru_entries c) k = Some e \<longrightarrow> 0 \<le> ent_weight e)
     \<and> heap_ok (lru_expiry c)
     \<and> (\<forall>k e. map_of (lru_entries c) k = Some e \<longrightarrow> record_of k e \<in> set (lru_expiry c))"

definition lru_same_limits :: "'v lru_cache \<Rightarrow> 'v lru_cache \<Rightarrow> bool" where
  "lru_same_limits c c' \<longleftrightarrow> lru_ttl c' = lru_ttl c \<and> lru_maxSize c' = lru_maxSize c \<and> lru_maxBytes c' = lru_maxBytes c"

lemma map_of_delete: "map_of (AList.delete k m) = (map_of m)(k := None)"
  by (rule AList.delete_conv')

lemma removeElementLocked_entries:
  "map_of (lru_entries (removeElementLocked k c)) = (map_of (lru_entries c))(k := None)"
  by (auto simp: removeElementLocked_def map_of_delete split: option.split)

lemma removeElementLocked_order:
  "lru_inv c \<Longrightarrow> lru_order (removeElementLocked k c) = filter (\<lambda>x. x \<noteq> k) (lru_order c)"
  by (auto simp: removeElementLocked_def lru_inv_def distinct_remove1_removeAll removeAll_filter_not_eq eq_commute
      split: option.split intro!: filter_True [symmetric])

lemma removeElementLocked_inv:
  assumes "lru_inv c"
  shows "lru_inv (removeElementLocked k c)"
proof (cases "map_of (lru_entries c) k")
  case None
  then show ?thesis using assms by (simp add: removeElementLocked_def)
next
  case (Some e)
  let ?c = "removeElementLocked k c"
  have k: "k \<in> set (lru_order c)" using assms Some by (auto simp: lru_inv_def)
  have dis: "distinct (lru_order c)" using assms by (simp add: lru_inv_def)
  have order: "lru_order ?c = remove1 k (lru_order c)" using Some by (simp add: removeElementLocked_def)
  have same: "map (weight_of ?c) (remove1 k (lru_order c)) = map (weight_of c) (remove1 k (lru_order c))"
    using dis by (intro map_cong) (auto simp: weight_of_def removeElementLocked_entries)
  have "lru_bytes ?c = lru_bytes c - weight_of c k" by (simp add: removeElementLocked_def weight_of_def Some)
  moreover have "lru_bytes c = sum_list (map (weight_of c) (lru_order c))" using assms by (simp add: lru_inv_def)
  ultimately have "lru_bytes ?c = sum_list (map (weight_of ?c) (lru_order ?c))"
    unfolding order same using sum_list_map_remove1 [OF k, of "weight_of c"] by linarith
  moreover have "distinct (gm_keys (lru_entries ?c))"
    using assms Some by (simp add: removeElementLocked_def lru_inv_def gm_keys_def distinct_delete)
  ultimately show ?thesis using assms dis order
    by (auto simp: lru_inv_def removeElementLocked_entries)
qed

section \<open>Eviction of expired entries\<close>

text \<open>The cache without the entries that have expired at an instant.\<close>

definition pruned :: "int \<Rightarrow> 'v lru_cache \<Rightarrow> 'v lru_cache \<Rightarrow> bool" where
  "pruned now c c' \<longleftrightarrow> lru_inv c' \<and> lru_same_limits c c'
     \<and> (\<forall>k. map_of (lru_entries c') k =
           (case map_of (lru_entries c) k of
              Some e \<Rightarrow> if now < ent_expiresAt e then Some e else None | None \<Rightarrow> None))
     \<and> lru_order c' = filter (\<lambda>k. map_of (lru_entries c') k \<noteq> None) (lru_order c)"

lemma lru_inv_pop:
  assumes "lru_inv c" and "lru_expiry c \<noteq> []" and "heap_Pop (lru_expiry c) = (r, expiry)"
    and "\<not> record_live r c"
  shows "lru_inv (c\<lparr>lru_expiry := expiry\<rparr>)"
proof -
  have h: "heap_ok (lru_expiry c)" "mset (lru_expiry c) \<noteq> {#}" using assms(1,2) by (auto simp: lru_inv_def)
  have "record_of k e \<in> set expiry" if "map_of (lru_entries c) k = Some e" for k e
  proof -
    have "record_of k e \<in># mset (lru_expiry c)" using assms(1) that by (simp add: lru_inv_def)
    moreover have "record_of k e \<noteq> r" using assms(4) that by (auto simp: record_live_def record_of_def)
    ultimately show ?thesis using heap.pop_drops_first [OF h] assms(3) by auto
  qed
  moreover have "heap_ok expiry" using heap.pop_ok [OF h] assms(3) by simp
  moreover have "weight_of (c\<lparr>lru_expiry := expiry\<rparr>) = weight_of c" by (simp add: weight_of_def fun_eq_iff)
  ultimately show ?thesis using assms(1) by (simp add: lru_inv_def)
qed

lemma pruned_refl:
  assumes "lru_inv c" and "\<And>k e. map_of (lru_entries c) k = Some e \<Longrightarrow> now < ent_expiresAt e"
  shows "pruned now c c"
proof -
  have "filter (\<lambda>k. map_of (lru_entries c) k \<noteq> None) (lru_order c) = lru_order c"
    using assms(1) by (intro filter_True) (auto simp: lru_inv_def)
  then show ?thesis using assms by (auto simp: pruned_def lru_same_limits_def split: option.split)
qed

lemma pruned_expiry:
  assumes "pruned now (c\<lparr>lru_expiry := h\<rparr>) c'"
  shows "pruned now c c'"
  using assms by (simp add: pruned_def lru_same_limits_def)

lemma pruned_remove:
  assumes "lru_inv c" and "map_of (lru_entries c) k = Some e" and "\<not> now < ent_expiresAt e"
    and "pruned now (removeElementLocked k c) c'"
  shows "pruned now c c'"
proof -
  have entries: "map_of (lru_entries c') x =
      (case map_of (lru_entries c) x of Some e \<Rightarrow> if now < ent_expiresAt e then Some e else None | None \<Rightarrow> None)" for x
    using assms by (auto simp: pruned_def removeElementLocked_entries)
  have "lru_order c' = filter (\<lambda>x. map_of (lru_entries c') x \<noteq> None) (filter (\<lambda>x. x \<noteq> k) (lru_order c))"
    using assms(4) removeElementLocked_order [OF assms(1)] by (simp add: pruned_def)
  also have "\<dots> = filter (\<lambda>x. map_of (lru_entries c') x \<noteq> None) (lru_order c)"
    using assms(2,3) entries [of k] by (auto intro!: filter_cong)
  finally show ?thesis using assms(4) entries by (simp add: pruned_def lru_same_limits_def)
qed

lemma evict_pruned: "lru_inv c \<Longrightarrow> pruned now c (snd (evictExpiredLocked now c))"
proof (induction now c rule: evictExpiredLocked.induct)
  case (1 now c)
  show ?case
  proof (cases "length (lru_expiry c) > 0 \<and> \<not> now < rec_expiresAt (lru_expiry c ! 0)")
    case False
    have "pruned now c c"
    proof (rule pruned_refl [OF 1(3)])
      fix k e assume e: "map_of (lru_entries c) k = Some e"
      then have r: "record_of k e \<in># mset (lru_expiry c)" using 1(3) by (simp add: lru_inv_def)
      then have "lru_expiry c \<noteq> []" by auto
      with False have "now < rec_expiresAt (lru_expiry c ! 0)" by simp
      moreover have "heap_ok (lru_expiry c)" using 1(3) by (simp add: lru_inv_def)
      ultimately have "now < rec_expiresAt (record_of k e)" using heap.nothing_due r by blast
      then show "now < ent_expiresAt e" by (simp add: record_of_def)
    qed
    with False show ?thesis by (subst evictExpiredLocked.simps) (simp add: if_not_P)
  next
    case due: True
    obtain r expiry where pop: "heap_Pop (lru_expiry c) = (r, expiry)" by (meson surj_pair)
    let ?c = "c\<lparr>lru_expiry := expiry\<rparr>"
    have "r = lru_expiry c ! 0" using heap.pop_first [of "lru_expiry c"] 1(3) due pop by (auto simp: lru_inv_def)
    with due have past: "\<not> now < rec_expiresAt r" by simp
    show ?thesis
    proof (cases "record_live r ?c")
      case False
      have live: "\<not> record_live r c" using False by (simp add: record_live_def)
      have "lru_inv ?c" using lru_inv_pop [OF 1(3) _ pop live] due by auto
      from pruned_expiry [OF 1(1) [OF due refl pop [symmetric] refl False this]] due pop False show ?thesis
        by (subst evictExpiredLocked.simps) (simp add: Let_def)
    next
      case True
      then obtain e where e: "map_of (lru_entries c) (rec_key r) = Some e" "ent_expiresAt e = rec_expiresAt r"
        by (auto simp: record_live_def split: option.splits)
      let ?rem = "removeElementLocked (rec_key r) c"
      have rem: "removeElementLocked (rec_key r) ?c = ?rem\<lparr>lru_expiry := expiry\<rparr>"
        by (simp add: removeElementLocked_def split: option.split)
      have "\<not> record_live r ?rem" by (simp add: record_live_def removeElementLocked_entries)
      then have "lru_inv (?rem\<lparr>lru_expiry := expiry\<rparr>)"
        using lru_inv_pop [OF removeElementLocked_inv [OF 1(3)]] pop due by auto
      from 1(2) [OF due refl pop [symmetric] refl] True this rem
      have "pruned now (?rem\<lparr>lru_expiry := expiry\<rparr>) (snd (evictExpiredLocked now (?rem\<lparr>lru_expiry := expiry\<rparr>)))" by simp
      from pruned_remove [OF 1(3) e(1) _ pruned_expiry [OF this]] past e(2) due pop True rem show ?thesis
        by (subst evictExpiredLocked.simps) (simp add: Let_def case_prod_beta)
    qed
  qed
qed

section \<open>Reading\<close>

text \<open>The value a cache holds for a key at an instant; a disabled cache holds nothing.\<close>

definition lru_lookup :: "int \<Rightarrow> 'v lru_cache \<Rightarrow> gostring \<Rightarrow> 'v option" where
  "lru_lookup now c k =
     (if lru_disabled c then None
      else case map_of (lru_entries c) k of
             None \<Rightarrow> None
           | Some e \<Rightarrow> if now < ent_expiresAt e then Some (ent_value e) else None)"

lemma MoveToFront_sel [simp]:
  "lru_entries (MoveToFront k c) = lru_entries c" "lru_expiry (MoveToFront k c) = lru_expiry c"
  "lru_order (MoveToFront k c) = k # remove1 k (lru_order c)" "lru_bytes (MoveToFront k c) = lru_bytes c"
  "lru_ttl (MoveToFront k c) = lru_ttl c" "lru_maxSize (MoveToFront k c) = lru_maxSize c"
  "lru_maxBytes (MoveToFront k c) = lru_maxBytes c"
  by (simp_all add: MoveToFront_def)

lemma MoveToFront_inv:
  assumes "lru_inv c" and "map_of (lru_entries c) k \<noteq> None"
  shows "lru_inv (MoveToFront k c)"
proof -
  have k: "k \<in> set (lru_order c)" using assms by (auto simp: lru_inv_def)
  have "weight_of (MoveToFront k c) = weight_of c" by (simp add: weight_of_def fun_eq_iff)
  moreover have "sum_list (map (weight_of c) (k # remove1 k (lru_order c))) = sum_list (map (weight_of c) (lru_order c))"
    using sum_list_map_remove1 [OF k, of "weight_of c"] by simp
  ultimately show ?thesis using assms k by (auto simp: lru_inv_def)
qed

lemma lru_disabled_limits: "lru_same_limits c c' \<Longrightarrow> lru_disabled c' = lru_disabled c"
  by (simp add: lru_disabled_def lru_same_limits_def)

lemma pruned_lookup:
  assumes "pruned now c c'" and "now \<le> t"
  shows "lru_lookup t c' k = lru_lookup t c k"
  using assms lru_disabled_limits [of c c']
  by (auto simp: lru_lookup_def pruned_def split: option.split)

lemma pruned_order_length: "pruned now c c' \<Longrightarrow> length (lru_order c') \<le> length (lru_order c)"
  by (simp add: pruned_def)

text \<open>A read that finds an entry never finds an expired one: the eviction has removed those.\<close>

lemma lru_Get_cases:
  assumes "lru_inv c"
  obtains "lru_disabled c" "lru_Get now k c = ((None, 0), c)"
  | n c' where "\<not> lru_disabled c" "pruned now c c'" "map_of (lru_entries c') k = None" "lru_Get now k c = ((None, n), c')"
  | n c' e where "\<not> lru_disabled c" "pruned now c c'" "map_of (lru_entries c') k = Some e" "now < ent_expiresAt e"
      "lru_Get now k c = ((Some (ent_value e), n), MoveToFront k c')"
proof (cases "lru_disabled c")
  case False
  obtain n c' where ev: "evictExpiredLocked now c = (n, c')" by (meson surj_pair)
  then have p: "pruned now c c'" using evict_pruned [OF assms, of now] by simp
  show thesis
  proof (cases "map_of (lru_entries c') k")
    case (Some e)
    then have "now < ent_expiresAt e" using p by (auto simp: pruned_def split: option.splits if_splits)
    with Some False ev p show thesis by (intro that(3)) (simp_all add: lru_Get_def)
  qed (use False ev p in \<open>auto intro!: that(2) simp: lru_Get_def\<close>)
qed (auto intro!: that(1) simp: lru_Get_def)

lemma lru_Get_inv:
  assumes "lru_inv c"
  shows "lru_inv (snd (lru_Get now k c))"
  using assms by (cases rule: lru_Get_cases [OF assms, of now k]) (auto simp: pruned_def MoveToFront_inv)

lemma lru_lookup_front [simp]: "lru_lookup t (MoveToFront k c) = lru_lookup t c"
  by (simp add: lru_lookup_def lru_disabled_def fun_eq_iff)

lemma lru_Get_result:
  assumes "lru_inv c"
  shows "fst (fst (lru_Get now k c)) = lru_lookup now c k"
proof (cases rule: lru_Get_cases [OF assms, of now k])
  case (2 n c')
  then have "lru_lookup now c' k = None" by (simp add: lru_lookup_def)
  with 2 pruned_lookup [OF 2(2) order_refl] show ?thesis by simp
next
  case (3 n c' e)
  then have "lru_lookup now c' k = Some (ent_value e)"
    using lru_disabled_limits [of c c'] by (simp add: lru_lookup_def pruned_def)
  with 3 pruned_lookup [OF 3(2) order_refl] show ?thesis by simp
qed (simp add: lru_lookup_def)

lemma lru_Get_lookup:
  assumes "lru_inv c" and "now \<le> t"
  shows "lru_lookup t (snd (lru_Get now k c)) k' = lru_lookup t c k'"
  using assms(2) by (cases rule: lru_Get_cases [OF assms(1), of now k]) (auto simp: pruned_lookup)

section \<open>Writing\<close>

lemma shrink_post:
  "lru_inv c \<Longrightarrow> lru_maxSize c \<ge> 0 \<Longrightarrow>
   lru_inv (snd (shrink c)) \<and> lru_same_limits c (snd (shrink c)) \<and>
   (\<forall>k. map_of (lru_entries (snd (shrink c))) k \<in> {None, map_of (lru_entries c) k}) \<and>
   int (length (lru_order (snd (shrink c)))) \<le> lru_maxSize c \<and>
   (lru_maxBytes c > 0 \<longrightarrow> lru_bytes (snd (shrink c)) \<le> lru_maxBytes c)"
proof (induction c rule: shrink.induct)
  case (1 c)
  let ?over = "int (length (lru_order c)) > lru_maxSize c \<or> (lru_maxBytes c > 0 \<and> lru_bytes c > lru_maxBytes c)"
  show ?case
  proof (cases "?over")
    case False
    then have "snd (shrink c) = c" by (subst shrink.simps) (simp add: if_not_P)
    with 1 False show ?thesis by (auto simp: lru_same_limits_def)
  next
    case over: True
    have ne: "lru_order c \<noteq> []"
    proof
      assume "lru_order c = []"
      with over 1(2,3) show False by (simp add: lru_inv_def)
    qed
    then have "last (lru_order c) \<in> dom (map_of (lru_entries c))" using 1(2) by (metis last_in_set lru_inv_def)
    with ne have g: "lru_order c \<noteq> [] \<and> map_of (lru_entries c) (last (lru_order c)) \<noteq> None" by auto
    let ?c = "removeElementLocked (last (lru_order c)) c"
    have step: "snd (shrink c) = snd (shrink ?c)" using over g by (subst shrink.simps) (simp add: case_prod_beta Let_def)
    have IH: "lru_inv (snd (shrink ?c))" "lru_same_limits ?c (snd (shrink ?c))"
        "\<And>k. map_of (lru_entries (snd (shrink ?c))) k \<in> {None, map_of (lru_entries ?c) k}"
        "int (length (lru_order (snd (shrink ?c)))) \<le> lru_maxSize ?c"
        "lru_maxBytes ?c > 0 \<longrightarrow> lru_bytes (snd (shrink ?c)) \<le> lru_maxBytes ?c"
      using 1(1) [OF over g removeElementLocked_inv [OF 1(2)]] 1(3) by simp_all
    have "map_of (lru_entries (snd (shrink ?c))) k \<in> {None, map_of (lru_entries c) k}" for k
      using IH(3) [of k] by (auto simp: removeElementLocked_entries split: if_splits)
    then show ?thesis unfolding step using IH(1,2,4,5) by (simp add: lru_same_limits_def)
  qed
qed

lemma put_entry_inv:
  assumes inv: "lru_inv c" and weight: "0 \<le> ent_weight e"
    and order: "lru_order c' = k # remove1 k (lru_order c)"
    and entries: "lru_entries c' = AList.update k e (lru_entries c)"
    and bytes: "lru_bytes c' = lru_bytes c - weight_of c k + ent_weight e"
    and expiry: "lru_expiry c' = heap_Push (record_of k e) (lru_expiry c)"
  shows "lru_inv c'"
proof -
  have dis: "distinct (lru_order c)" and dom: "set (lru_order c) = dom (map_of (lru_entries c))"
    and heap: "heap_ok (lru_expiry c)" using inv by (simp_all add: lru_inv_def)
  have same: "map (weight_of c') (remove1 k (lru_order c)) = map (weight_of c) (remove1 k (lru_order c))"
    using dis by (intro map_cong) (auto simp: weight_of_def entries update_conv')
  have wk: "weight_of c' k = ent_weight e" by (simp add: weight_of_def entries update_conv')
  have "sum_list (map (weight_of c) (lru_order c)) = weight_of c k + sum_list (map (weight_of c) (remove1 k (lru_order c)))"
  proof (cases "k \<in> set (lru_order c)")
    case False
    then have "weight_of c k = 0" using dom by (auto simp: weight_of_def domIff)
    with False show ?thesis by (simp add: remove1_idem)
  qed (simp add: sum_list_map_remove1)
  then have "lru_bytes c' = sum_list (map (weight_of c') (lru_order c'))"
    using inv by (simp add: order same wk bytes lru_inv_def)
  moreover have "set (lru_expiry c') = insert (record_of k e) (set (lru_expiry c))" "heap_ok (lru_expiry c')"
    using heap.push_records [OF heap, of "record_of k e"] heap.push_ok [OF heap, of "record_of k e"] expiry
    by (metis set_mset_add_mset_insert set_mset_mset, simp)
  moreover have "set (lru_order c') = dom (map_of (lru_entries c'))"
    using dis dom by (auto simp: order entries update_conv' split: if_splits)
  ultimately show ?thesis
    using inv dis weight by (auto simp: lru_inv_def order entries update_conv' distinct_gm_keys_update split: if_splits)
qed

text \<open>What a write leaves: the old entries at most, and under the key at most the new one.\<close>

definition written :: "int \<Rightarrow> gostring \<Rightarrow> 'v \<Rightarrow> 'v lru_cache \<Rightarrow> 'v lru_cache \<Rightarrow> bool" where
  "written now key value c c' \<longleftrightarrow> lru_inv c' \<and> lru_same_limits c c'
     \<and> (\<forall>k. k \<noteq> key \<longrightarrow> map_of (lru_entries c') k \<in> {None, map_of (lru_entries c) k})
     \<and> (case map_of (lru_entries c') key of None \<Rightarrow> True
        | Some e \<Rightarrow> ent_value e = value \<and> ent_expiresAt e = now + lru_ttl c)
     \<and> int (length (lru_order c')) \<le> max (int (length (lru_order c))) (lru_maxSize c)
     \<and> (int (length (lru_order c)) \<le> lru_maxSize c \<longrightarrow> int (length (lru_order c')) \<le> lru_maxSize c)"

lemma written_remove:
  assumes "lru_inv c"
  shows "written now k v c (removeElementLocked k c)"
proof -
  have "length (lru_order (removeElementLocked k c)) \<le> length (lru_order c)"
    using removeElementLocked_order [OF assms] by simp
  then show ?thesis using removeElementLocked_inv [OF assms]
    by (auto simp: written_def lru_same_limits_def removeElementLocked_entries)
qed

lemma written_shrink:
  assumes "lru_inv c1" and lim: "lru_same_limits c c1" and size: "0 < lru_maxSize c"
    and ent: "\<And>x. map_of (lru_entries c1) x = (if x = k then Some e else map_of (lru_entries c) x)"
    and "ent_value e = v" and "ent_expiresAt e = now + lru_ttl c"
  shows "written now k v c (snd (shrink c1))"
proof -
  define c2 where "c2 = snd (shrink c1)"
  have sh: "lru_inv c2" "lru_same_limits c1 c2" "int (length (lru_order c2)) \<le> lru_maxSize c"
      "\<And>x. map_of (lru_entries c2) x \<in> {None, map_of (lru_entries c1) x}"
    using shrink_post [OF assms(1)] size lim by (simp_all add: c2_def lru_same_limits_def)
  have "map_of (lru_entries c2) x \<in> {None, map_of (lru_entries c) x}" if "x \<noteq> k" for x
    using sh(4) [of x] that by (simp add: ent)
  moreover have "map_of (lru_entries c2) k \<in> {None, Some e}" using sh(4) [of k] by (simp add: ent)
  ultimately show ?thesis
    using sh(1-3) lim assms(5,6) unfolding c2_def [symmetric]
    by (auto simp: written_def lru_same_limits_def split: option.splits)
qed

lemma SetWeighted_written:
  assumes inv: "lru_inv c" and enabled: "\<not> lru_disabled c"
  obtains c' where "pruned now c c'" and "written now k v c' (snd (SetWeighted now k v w c))"
proof -
  obtain n c' where ev: "evictExpiredLocked now c = (n, c')" by (meson surj_pair)
  then have p: "pruned now c c'" using evict_pruned [OF inv, of now] by simp
  then have inv': "lru_inv c'" and size: "0 < lru_maxSize c'" and "\<not> lru_disabled c'"
    using enabled lru_disabled_limits [of c c'] by (auto simp: pruned_def lru_disabled_def lru_same_limits_def)
  define weight where "weight = (if w < 0 then 0 else w)"
  define heavy where "heavy \<longleftrightarrow> lru_maxBytes c' > 0 \<and> weight > lru_maxBytes c'"
  have "written now k v c' (snd (SetWeighted now k v w c))"
  proof (cases "map_of (lru_entries c') k")
    case None
    let ?e = "\<lparr>ent_value = v, ent_expiresAt = now + lru_ttl c', ent_generation = 1, ent_weight = weight\<rparr>"
    let ?c = "c'\<lparr>lru_order := k # lru_order c', lru_entries := AList.update k ?e (lru_entries c'),
                lru_bytes := lru_bytes c' + weight, lru_expiry := heap_Push (record_of k ?e) (lru_expiry c')\<rparr>"
    have "k \<notin> set (lru_order c')" using inv' None by (auto simp: lru_inv_def)
    then have ci: "lru_inv ?c"
      by (intro put_entry_inv [OF inv', of ?e _ k]) (simp_all add: weight_def remove1_idem weight_of_def None)
    have "snd (SetWeighted now k v w c) = (if heavy then c' else snd (shrink ?c))"
      using enabled ev None by (simp add: SetWeighted_def Let_def weight_def heavy_def case_prod_beta record_of_def)
    moreover have "written now k v c' c'" using inv' None by (simp add: written_def lru_same_limits_def)
    moreover have "written now k v c' (snd (shrink ?c))"
      by (rule written_shrink [OF ci, of c' k ?e]) (simp_all add: lru_same_limits_def size update_conv')
    ultimately show ?thesis by simp
  next
    case (Some e)
    let ?e = "e\<lparr>ent_value := v, ent_weight := weight, ent_expiresAt := now + lru_ttl c', ent_generation := ent_generation e + 1\<rparr>"
    let ?c = "MoveToFront k (c'\<lparr>lru_bytes := lru_bytes c' - ent_weight e + weight,
                lru_entries := AList.update k ?e (lru_entries c'), lru_expiry := heap_Push (record_of k ?e) (lru_expiry c')\<rparr>)"
    have ci: "lru_inv ?c"
      by (intro put_entry_inv [OF inv', of ?e _ k]) (simp_all add: weight_def weight_of_def Some)
    have "k \<in> set (lru_order c')" using inv' Some by (auto simp: lru_inv_def)
    then have len: "length (k # remove1 k (lru_order c')) = length (lru_order c')"
      by (simp add: length_remove1) (metis Suc_pred length_pos_if_in_set)
    have "snd (SetWeighted now k v w c) = (if heavy then removeElementLocked k c' else ?c)"
      using enabled ev Some by (simp add: SetWeighted_def Let_def weight_def heavy_def record_of_def)
    moreover have "written now k v c' ?c"
      using ci len by (simp add: written_def lru_same_limits_def update_conv')
    ultimately show ?thesis using written_remove [OF inv'] by simp
  qed
  with p show thesis by (rule that)
qed

lemma SetWeighted_inv: "lru_inv c \<Longrightarrow> lru_inv (snd (SetWeighted now k v w c))"
  by (cases "lru_disabled c") (auto simp: SetWeighted_def elim: SetWeighted_written [of c now k v w] simp: written_def)

lemma SetWeighted_lookup:
  assumes "lru_inv c" and "now \<le> t"
  shows "lru_lookup t (snd (SetWeighted now k v w c)) k' \<in> {None, (if k' = k then Some v else lru_lookup t c k')}"
proof (cases "lru_disabled c")
  case False
  from SetWeighted_written [OF assms(1) False] obtain c' where p: "pruned now c c'"
    and wr: "written now k v c' (snd (SetWeighted now k v w c))" .
  have "lru_lookup t (snd (SetWeighted now k v w c)) k' \<in> {None, (if k' = k then Some v else lru_lookup t c' k')}"
    using wr lru_disabled_limits [of c' "snd (SetWeighted now k v w c)"]
    by (auto simp: written_def lru_lookup_def split: option.splits)
  with pruned_lookup [OF p assms(2), of k'] show ?thesis by (auto split: if_splits)
qed (simp add: SetWeighted_def lru_lookup_def)

section \<open>The contract of the cache\<close>

definition lru_read :: "int \<Rightarrow> gostring \<Rightarrow> 'v lru_cache \<Rightarrow> 'v option \<times> 'v lru_cache" where
  "lru_read now k c = (fst (fst (lru_Get now k c)), snd (lru_Get now k c))"

definition lru_write :: "('v \<Rightarrow> int) \<Rightarrow> int \<Rightarrow> gostring \<Rightarrow> 'v \<Rightarrow> 'v lru_cache \<Rightarrow> 'v lru_cache" where
  "lru_write weigh now k v c = snd (SetWeighted now k v (weigh v) c)"

text \<open>The limits never change; \<open>life\<close> is the time to live the cache was made with.\<close>

definition lru_ok :: "int \<Rightarrow> 'v lru_cache \<Rightarrow> bool" where
  "lru_ok life c \<longleftrightarrow> lru_inv c \<and> lru_ttl c = life"

lemma lru_Get_ttl:
  assumes "lru_inv c"
  shows "lru_ttl (snd (lru_Get now k c)) = lru_ttl c"
  by (cases rule: lru_Get_cases [OF assms, of now k]) (auto simp: pruned_def lru_same_limits_def)

lemma SetWeighted_ttl:
  assumes "lru_inv c"
  shows "lru_ttl (snd (SetWeighted now k v w c)) = lru_ttl c"
proof (cases "lru_disabled c")
  case False
  from SetWeighted_written [OF assms False] obtain c' where "pruned now c c'"
    and "written now k v c' (snd (SetWeighted now k v w c))" .
  then show ?thesis by (simp add: written_def pruned_def lru_same_limits_def)
qed (simp add: SetWeighted_def)

lemma SetWeighted_expires:
  assumes "lru_inv c" and "now + lru_ttl c \<le> t"
  shows "lru_lookup t (snd (SetWeighted now k v w c)) k = None"
proof (cases "lru_disabled c")
  case False
  from SetWeighted_written [OF assms(1) False] obtain c' where "pruned now c c'"
    and "written now k v c' (snd (SetWeighted now k v w c))" .
  then show ?thesis using assms(2)
    by (auto simp: written_def pruned_def lru_same_limits_def lru_lookup_def split: option.splits)
qed (simp add: SetWeighted_def lru_lookup_def)

interpretation lru: expiring_cache lru_read "lru_write weigh" lru_lookup "lru_ok life" "\<lambda>_. life"
  for weigh :: "'v \<Rightarrow> int" and life
proof (rule expiring_cache.intro [OF ttl_cache.intro expiring_cache_axioms.intro])
  fix c :: "'v lru_cache" and now t :: int and k k' v
  assume ok: "lru_ok life c"
  then have inv: "lru_inv c" by (simp add: lru_ok_def)
  show "lru_ok life (snd (lru_read now k c))" "lru_ok life (lru_write weigh now k v c)"
    "fst (lru_read now k c) = lru_lookup now c k"
    using ok by (simp_all add: lru_ok_def lru_read_def lru_write_def lru_Get_inv SetWeighted_inv lru_Get_result
        lru_Get_ttl SetWeighted_ttl)
  assume "now \<le> t"
  then show "lru_lookup t (snd (lru_read now k c)) k' = lru_lookup t c k'"
    "lru_lookup t (lru_write weigh now k v c) k \<in> {None, Some v}"
    "k' \<noteq> k \<Longrightarrow> lru_lookup t (lru_write weigh now k v c) k' \<in> {None, lru_lookup t c k'}"
    "now + life \<le> t \<Longrightarrow> lru_lookup t (lru_write weigh now k v c) k = None"
    using ok SetWeighted_lookup [OF inv, of now t k v "weigh v" k] SetWeighted_lookup [OF inv, of now t k v "weigh v" k']
    by (auto simp: lru_ok_def lru_read_def lru_write_def lru_Get_lookup SetWeighted_expires)
qed

section \<open>What is stored is found\<close>

lemma newLRUTTLCache_inv [simp]: "lru_inv (newLRUTTLCache n ttl bytes)"
  by (simp add: newLRUTTLCache_def lru_inv_def heap_ok_def)

lemma newLRUTTLCache_lookup [simp]: "lru_lookup t (newLRUTTLCache n ttl bytes) k = None"
  by (simp add: newLRUTTLCache_def lru_lookup_def)

lemma lru_inv_weight: "lru_inv c \<Longrightarrow> 0 \<le> weight_of c k"
  by (auto simp: lru_inv_def weight_of_def split: option.split)

text \<open>Dropping from the back never reaches an entry that fits on its own.\<close>

lemma shrink_keeps_front:
  assumes "lru_inv c" and "lru_order c = k # ks" and "0 < lru_maxSize c"
    and "lru_maxBytes c > 0 \<longrightarrow> weight_of c k \<le> lru_maxBytes c"
  shows "map_of (lru_entries (snd (shrink c))) k = map_of (lru_entries c) k"
  using assms
proof (induction ks arbitrary: c rule: rev_induct)
  case Nil
  then have "lru_bytes c = weight_of c k" by (simp add: lru_inv_def)
  with Nil have "\<not> (int (length (lru_order c)) > lru_maxSize c \<or> (lru_maxBytes c > 0 \<and> lru_bytes c > lru_maxBytes c))"
    by auto
  then show ?case by (subst shrink.simps) (simp only: if_False snd_conv)
next
  case (snoc x ks)
  have x: "x \<noteq> k" "x \<notin> set ks" "map_of (lru_entries c) x \<noteq> None" and last: "last (lru_order c) = x"
    using snoc.prems(1,2) by (auto simp: lru_inv_def domIff)
  let ?c = "removeElementLocked x c"
  have same: "weight_of ?c k = weight_of c k" "map_of (lru_entries ?c) k = map_of (lru_entries c) k"
    using x(1) by (simp_all add: weight_of_def removeElementLocked_entries)
  have "lru_order ?c = k # ks"
    using removeElementLocked_order [OF snoc.prems(1), of x] snoc.prems(2) x by (auto intro!: filter_True)
  then have "map_of (lru_entries (snd (shrink ?c))) k = map_of (lru_entries c) k"
    using snoc.IH [OF removeElementLocked_inv [OF snoc.prems(1)]] snoc.prems(3,4) same by simp
  then show ?case using x(3) last snoc.prems(2)
    by (subst shrink.simps) (simp add: Let_def case_prod_beta)
qed

lemma SetWeighted_get:
  assumes "lru_inv c" and "\<not> lru_disabled c" and "lru_maxBytes c > 0 \<longrightarrow> w \<le> lru_maxBytes c"
    and "now \<le> t" and "t < now + lru_ttl c"
  shows "fst (fst (lru_Get t k (snd (SetWeighted now k v w c)))) = Some v"
proof -
  let ?weight = "if w < 0 then 0 else w"
  obtain n c' where ev: "evictExpiredLocked now c = (n, c')" by (meson surj_pair)
  then have p: "pruned now c c'" using evict_pruned [OF assms(1), of now] by simp
  then have inv': "lru_inv c'" and lim: "lru_ttl c' = lru_ttl c" "lru_maxSize c' = lru_maxSize c" "lru_maxBytes c' = lru_maxBytes c"
    by (auto simp: pruned_def lru_same_limits_def)
  have light: "\<not> (lru_maxBytes c' > 0 \<and> ?weight > lru_maxBytes c')" using assms(3) lim by auto
  have "\<exists>e. map_of (lru_entries (snd (SetWeighted now k v w c))) k = Some e \<and> ent_value e = v
      \<and> ent_expiresAt e = now + lru_ttl c"
  proof (cases "map_of (lru_entries c') k")
    case None
    let ?e = "\<lparr>ent_value = v, ent_expiresAt = now + lru_ttl c', ent_generation = 1, ent_weight = ?weight\<rparr>"
    let ?c = "c'\<lparr>lru_order := k # lru_order c', lru_entries := AList.update k ?e (lru_entries c'),
                lru_bytes := lru_bytes c' + ?weight, lru_expiry := heap_Push (record_of k ?e) (lru_expiry c')\<rparr>"
    have "k \<notin> set (lru_order c')" using inv' None by (auto simp: lru_inv_def)
    then have "lru_inv ?c"
      by (intro put_entry_inv [OF inv', of ?e _ k]) (simp_all add: remove1_idem weight_of_def None)
    then have "map_of (lru_entries (snd (shrink ?c))) k = map_of (lru_entries ?c) k"
      by (rule shrink_keeps_front) (use light lim assms(2) in \<open>auto simp: lru_disabled_def weight_of_def update_conv'\<close>)
    moreover have "snd (SetWeighted now k v w c) = snd (shrink ?c)"
      using assms(2) ev None by (simp only: SetWeighted_def Let_def case_prod_beta record_of_def light if_False
          if_not_P [OF light] option.case prod.sel snd_conv fst_conv lru_entry.simps)
    ultimately show ?thesis using lim by (simp add: update_conv')
  next
    case (Some e)
    let ?e = "e\<lparr>ent_value := v, ent_weight := ?weight, ent_expiresAt := now + lru_ttl c', ent_generation := ent_generation e + 1\<rparr>"
    have "map_of (lru_entries (snd (SetWeighted now k v w c))) k = Some ?e"
      using assms(2) ev Some by (simp only: SetWeighted_def Let_def if_not_P [OF light] if_False option.case prod.case
          snd_conv MoveToFront_sel) (simp add: update_conv')
    then show ?thesis using lim by simp
  qed
  moreover have "\<not> lru_disabled (snd (SetWeighted now k v w c))"
    using SetWeighted_written [OF assms(1,2), of now k v w] lru_disabled_limits assms(2) p
    by (metis pruned_def written_def)
  ultimately show ?thesis
    using lru_Get_result [OF SetWeighted_inv [OF assms(1)]] assms(5) by (auto simp: lru_lookup_def)
qed

text \<open>
  A value whose weight fits the byte limit is found again until its time to live has passed,
  whatever the cache held before: the write evicts other entries, never the new one.
\<close>

theorem SetWeighted_then_Get:
  assumes "lru_inv c" and "\<not> lru_disabled c" and "lru_maxBytes c > 0 \<longrightarrow> w \<le> lru_maxBytes c"
    and "now \<le> t" and "t < now + lru_ttl c"
  shows "fst (fst (lru_Get t k (snd (SetWeighted now k v w c)))) = Some v"
  by (rule SetWeighted_get [OF assms])

section \<open>Every operation keeps the invariant and the capacity\<close>

lemma lru_Get_limits:
  assumes "lru_inv c"
  shows "lru_same_limits c (snd (lru_Get now k c))" "length (lru_order (snd (lru_Get now k c))) \<le> length (lru_order c)"
proof -
  have len: "length (k # remove1 k (lru_order c')) = length (lru_order c')" if "lru_inv c'" "map_of (lru_entries c') k = Some e" for c' e
    using that by (auto simp: lru_inv_def length_remove1) (metis Suc_pred domI length_pos_if_in_set)+
  show "lru_same_limits c (snd (lru_Get now k c))"
    by (cases rule: lru_Get_cases [OF assms, of now k]) (auto simp: pruned_def lru_same_limits_def)
  show "length (lru_order (snd (lru_Get now k c))) \<le> length (lru_order c)"
  proof (cases rule: lru_Get_cases [OF assms, of now k])
    case (3 n c' e)
    then show ?thesis using len [of c' e] pruned_order_length [OF 3(2)] by (simp add: pruned_def)
  qed (use pruned_order_length in auto)
qed

lemma SetWeighted_limits:
  assumes "lru_inv c" and "int (length (lru_order c)) \<le> max 0 (lru_maxSize c)"
  shows "lru_same_limits c (snd (SetWeighted now k v w c))"
    "int (length (lru_order (snd (SetWeighted now k v w c)))) \<le> max 0 (lru_maxSize c)"
proof (atomize (full), cases "lru_disabled c")
  case True
  then show "lru_same_limits c (snd (SetWeighted now k v w c)) \<and>
      int (length (lru_order (snd (SetWeighted now k v w c)))) \<le> max 0 (lru_maxSize c)"
    using assms(2) by (simp add: SetWeighted_def lru_same_limits_def)
next
  case False
  from SetWeighted_written [OF assms(1) False] obtain c' where p: "pruned now c c'"
    and wr: "written now k v c' (snd (SetWeighted now k v w c))" .
  have "int (length (lru_order c')) \<le> lru_maxSize c" "lru_maxSize c' = lru_maxSize c"
    using p pruned_order_length [OF p] assms(2) False
    unfolding pruned_def lru_same_limits_def lru_disabled_def by linarith+
  then show "lru_same_limits c (snd (SetWeighted now k v w c)) \<and>
      int (length (lru_order (snd (SetWeighted now k v w c)))) \<le> max 0 (lru_maxSize c)"
    using p wr by (simp add: pruned_def written_def lru_same_limits_def)
qed

lemma lru_Delete_facts:
  assumes "lru_inv c"
  shows "lru_inv (lru_Delete k c)" "lru_same_limits c (lru_Delete k c)"
    "length (lru_order (lru_Delete k c)) \<le> length (lru_order c)"
    "map_of (lru_entries (lru_Delete k c)) = (map_of (lru_entries c))(k := None)"
  using assms removeElementLocked_inv [OF assms, of k] removeElementLocked_order [OF assms, of k]
  by (auto simp: lru_Delete_def lru_same_limits_def removeElementLocked_entries)

text \<open>The operations as steps of the cache; each holds the mutex, so steps do not interleave.\<close>

inductive lru_step :: "'v lru_cache \<Rightarrow> 'v lru_cache \<Rightarrow> bool" where
  get: "lru_step c (snd (lru_Get now k c))"
| set: "lru_step c (snd (SetWeighted now k v w c))"
| del: "lru_step c (lru_Delete k c)"

definition lru_bounded :: "'v lru_cache \<Rightarrow> bool" where
  "lru_bounded c \<longleftrightarrow> lru_inv c \<and> int (length (lru_order c)) \<le> max 0 (lru_maxSize c)"

lemma lru_step_bounded:
  assumes "lru_step c c'" and "lru_bounded c"
  shows "lru_bounded c' \<and> lru_same_limits c c'"
  using assms(1)
proof (cases rule: lru_step.cases)
  case (get now k)
  then show ?thesis using assms(2) lru_Get_inv [of c now k] lru_Get_limits [of c now k]
    by (auto simp: lru_bounded_def lru_same_limits_def)
next
  case (set now k v w)
  then show ?thesis using assms(2) SetWeighted_inv [of c now k v w] SetWeighted_limits [of c now k v w]
    by (auto simp: lru_bounded_def lru_same_limits_def)
next
  case (del k)
  then show ?thesis using assms(2) lru_Delete_facts [of c k]
    by (auto simp: lru_bounded_def lru_same_limits_def)
qed

lemma lru_steps_bounded:
  "lru_step\<^sup>*\<^sup>* c c' \<Longrightarrow> lru_bounded c \<Longrightarrow> lru_bounded c' \<and> lru_same_limits c c'"
proof (induction rule: rtranclp_induct)
  case (step c1 c2)
  then show ?case using lru_step_bounded [of c1 c2] by (auto simp: lru_same_limits_def)
qed (simp add: lru_same_limits_def)

text \<open>
  In every state a new cache can reach, the list, the map, the byte count and the expiration
  queue agree, and the cache holds at most as many entries as its capacity.
\<close>

theorem lru_reachable_bounded:
  assumes "lru_step\<^sup>*\<^sup>* (newLRUTTLCache n ttl bytes) c"
  shows "lru_inv c \<and> int (length (lru_order c)) \<le> max 0 n"
proof -
  have "lru_bounded (newLRUTTLCache n ttl bytes)" by (simp add: lru_bounded_def) (simp add: newLRUTTLCache_def)
  from lru_steps_bounded [OF assms this] show ?thesis
    by (auto simp: lru_bounded_def lru_same_limits_def newLRUTTLCache_def)
qed

definition example_cache :: "nat lru_cache" where
  "example_cache = snd (SetWeighted 5 ''b'' 2 60 (snd (SetWeighted 0 ''a'' 7 60 (newLRUTTLCache 2 10 (Some 100)))))"

text \<open>The second write needs the room of the first.\<close>

theorem lru_reachable_bounded_witness:
  "lru_inv example_cache \<and> lru_order example_cache = [''b''] \<and> int (length (lru_order example_cache)) \<le> max 0 2"
proof -
  have "lru_step\<^sup>*\<^sup>* (newLRUTTLCache 2 10 (Some 100)) example_cache" unfolding example_cache_def
    by (rule rtranclp.rtrancl_into_rtrancl, rule r_into_rtranclp, rule lru_step.set, rule lru_step.set)
  from lru_reachable_bounded [OF this] have "lru_inv example_cache \<and> int (length (lru_order example_cache)) \<le> max 0 2" .
  moreover have "lru_order example_cache = [''b'']" by code_simp
  ultimately show ?thesis by simp
qed

theorem SetWeighted_then_Get_witness:
  "fst (fst (lru_Get 14 ''b'' example_cache)) = Some 2"
proof -
  let ?c = "snd (SetWeighted 0 ''a'' (7::nat) 60 (newLRUTTLCache 2 10 (Some 100)))"
  have lim: "\<not> lru_disabled ?c" "lru_maxBytes ?c = 100" "lru_ttl ?c = 10" by code_simp+
  show ?thesis unfolding example_cache_def
    by (rule SetWeighted_then_Get) (simp_all add: SetWeighted_inv lim)
qed

text \<open>
  The byte limit holds after a fresh insertion, where the loop at the end of the write runs, but
  not after an update: the branch for a key already present returns before the loop.
\<close>

lemma SetWeighted_update_exceeds_bytes:
  "let c = snd (SetWeighted 2 ''a'' 3 90 (snd (SetWeighted 1 ''b'' 2 50 (snd (SetWeighted 0 ''a'' (1::nat) 10
             (newLRUTTLCache 2 10 (Some 100)))))))
   in lru_ByteSize c = 140 \<and> lru_maxBytes c = 100"
  by code_simp

end
