(* ===== verification/Cache_Config.thy ===== *)
theory Cache_Config
  imports Strconv
begin

text \<open>
  The policy of the parser's caches, \<^verbatim>\<open>internal/parser/cache_config.go\<close>. The process
  environment is a function from names to values; \<^verbatim>\<open>os.Getenv\<close> of an unset name is empty.
  Durations are in nanoseconds.
\<close>

type_synonym environment = "gostring \<Rightarrow> gostring"

abbreviation "defaultParseSuccessCacheTTL \<equiv> 30 * Second"
abbreviation "defaultParseSyntaxCacheTTL \<equiv> 15 * Second"
abbreviation "defaultParseSuccessCacheSize \<equiv> 256 :: int"
abbreviation "defaultParseSyntaxCacheSize \<equiv> 256 :: int"
abbreviation "defaultParseSuccessCacheBytes \<equiv> 16777216 :: int"
abbreviation "defaultParseSyntaxCacheBytes \<equiv> 2097152 :: int"
abbreviation "maxParseCacheCapacity \<equiv> 10000 :: int"
abbreviation "maxParseCacheTTL \<equiv> 24 * Hour"
abbreviation "maxParseCacheBytes \<equiv> 268435456 :: int"

record cache_config =
  SuccessCapacity :: int
  SuccessTTL :: int
  SyntaxCapacity :: int
  SyntaxTTL :: int
  SuccessMaxBytes :: int
  SyntaxMaxBytes :: int

definition DefaultCacheConfig :: cache_config where
  "DefaultCacheConfig =
     \<lparr>SuccessCapacity = defaultParseSuccessCacheSize, SuccessTTL = defaultParseSuccessCacheTTL,
      SyntaxCapacity = defaultParseSyntaxCacheSize, SyntaxTTL = defaultParseSyntaxCacheTTL,
      SuccessMaxBytes = defaultParseSuccessCacheBytes, SyntaxMaxBytes = defaultParseSyntaxCacheBytes\<rparr>"

text \<open>One of the six clamping statements of \<^verbatim>\<open>EffectiveConfig\<close>.\<close>

definition clamp_setting :: "int \<Rightarrow> int \<Rightarrow> int \<Rightarrow> int" where
  "clamp_setting fallback maximum v = (if v < 0 then fallback else if v > maximum then maximum else v)"

definition cache_EffectiveConfig :: "cache_config \<Rightarrow> cache_config" where
  "cache_EffectiveConfig c =
     (let defaults = DefaultCacheConfig in
      c\<lparr>SuccessCapacity := clamp_setting (SuccessCapacity defaults) maxParseCacheCapacity (SuccessCapacity c),
        SyntaxCapacity := clamp_setting (SyntaxCapacity defaults) maxParseCacheCapacity (SyntaxCapacity c),
        SuccessTTL := clamp_setting (SuccessTTL defaults) maxParseCacheTTL (SuccessTTL c),
        SyntaxTTL := clamp_setting (SyntaxTTL defaults) maxParseCacheTTL (SyntaxTTL c),
        SuccessMaxBytes := clamp_setting (SuccessMaxBytes defaults) maxParseCacheBytes (SuccessMaxBytes c),
        SyntaxMaxBytes := clamp_setting (SyntaxMaxBytes defaults) maxParseCacheBytes (SyntaxMaxBytes c)\<rparr>)"

definition cacheBytesFromEnv :: "environment \<Rightarrow> gostring \<Rightarrow> int \<Rightarrow> int" where
  "cacheBytesFromEnv env name fallback =
     (let raw = TrimSpace (env name) in
      case Atoi raw of
        None \<Rightarrow> fallback
      | Some value \<Rightarrow> if raw = [] \<or> value < 0 \<or> value > maxParseCacheBytes then fallback else value)"

definition cacheCapacityFromEnv :: "environment \<Rightarrow> gostring \<Rightarrow> int \<Rightarrow> int" where
  "cacheCapacityFromEnv env name fallback =
     (let raw = TrimSpace (env name) in
      case Atoi raw of
        None \<Rightarrow> fallback
      | Some value \<Rightarrow> if raw = [] \<or> value < 0 \<or> value > maxParseCacheCapacity then fallback else value)"

definition cacheTTLFromEnv :: "environment \<Rightarrow> gostring \<Rightarrow> int \<Rightarrow> int" where
  "cacheTTLFromEnv env name fallback =
     (let raw = TrimSpace (env name) in
      case ParseInt raw of
        None \<Rightarrow> fallback
      | Some value \<Rightarrow>
          if raw = [] \<or> value < 0 \<or> value > maxParseCacheTTL div Second then fallback
          else wrap64 (value * Second))"

definition CacheConfigFromEnv :: "environment \<Rightarrow> cache_config" where
  "CacheConfigFromEnv env =
     (let cfg = DefaultCacheConfig in
      cfg\<lparr>SuccessCapacity := cacheCapacityFromEnv env ''PARSER_CACHE_SUCCESS_CAPACITY'' (SuccessCapacity cfg),
          SuccessTTL := cacheTTLFromEnv env ''PARSER_CACHE_SUCCESS_TTL_SECONDS'' (SuccessTTL cfg),
          SyntaxCapacity := cacheCapacityFromEnv env ''PARSER_CACHE_SYNTAX_CAPACITY'' (SyntaxCapacity cfg),
          SyntaxTTL := cacheTTLFromEnv env ''PARSER_CACHE_SYNTAX_TTL_SECONDS'' (SyntaxTTL cfg),
          SuccessMaxBytes := cacheBytesFromEnv env ''PARSER_CACHE_SUCCESS_MAX_BYTES'' (SuccessMaxBytes cfg),
          SyntaxMaxBytes := cacheBytesFromEnv env ''PARSER_CACHE_SYNTAX_MAX_BYTES'' (SyntaxMaxBytes cfg)\<rparr>)"

section \<open>Bounds\<close>

definition cache_config_bounded :: "cache_config \<Rightarrow> bool" where
  "cache_config_bounded c \<longleftrightarrow>
     SuccessCapacity c \<in> {0..maxParseCacheCapacity} \<and> SyntaxCapacity c \<in> {0..maxParseCacheCapacity}
     \<and> SuccessTTL c \<in> {0..maxParseCacheTTL} \<and> SyntaxTTL c \<in> {0..maxParseCacheTTL}
     \<and> SuccessMaxBytes c \<in> {0..maxParseCacheBytes} \<and> SyntaxMaxBytes c \<in> {0..maxParseCacheBytes}"

lemma clamp_setting_bounded: "0 \<le> d \<Longrightarrow> d \<le> m \<Longrightarrow> clamp_setting d m v \<in> {0..m}"
  by (simp add: clamp_setting_def)

lemma clamp_setting_id: "v \<in> {0..m} \<Longrightarrow> clamp_setting d m v = v"
  by (simp add: clamp_setting_def)

lemma cache_EffectiveConfig_bounded: "cache_config_bounded (cache_EffectiveConfig c)"
  by (simp add: cache_EffectiveConfig_def cache_config_bounded_def DefaultCacheConfig_def Let_def clamp_setting_def)

lemma cache_EffectiveConfig_id: "cache_config_bounded c \<Longrightarrow> cache_EffectiveConfig c = c"
  by (simp add: cache_EffectiveConfig_def cache_config_bounded_def Let_def clamp_setting_id)

lemma cacheTTLFromEnv_bounded:
  assumes "fallback \<in> {0..maxParseCacheTTL}"
  shows "cacheTTLFromEnv env name fallback \<in> {0..maxParseCacheTTL}"
proof -
  have "wrap64 (v * Second) = v * Second" if "0 \<le> v" "v \<le> 86400" for v
    using that by (intro wrap64_id) (simp add: int64_def)
  then show ?thesis using assms by (auto simp: cacheTTLFromEnv_def Let_def split: option.split)
qed

text \<open>
  Whatever the environment holds, the policy read from it lies within the hard limits, so no
  multiplication wraps and the later normalisation changes nothing. Normalising twice is
  normalising once.
\<close>

theorem CacheConfigFromEnv_bounded:
  "cache_config_bounded (CacheConfigFromEnv env)
   \<and> cache_EffectiveConfig (CacheConfigFromEnv env) = CacheConfigFromEnv env
   \<and> cache_EffectiveConfig (cache_EffectiveConfig c) = cache_EffectiveConfig c"
proof -
  have "cacheBytesFromEnv env n f \<in> {0..maxParseCacheBytes}" if "f \<in> {0..maxParseCacheBytes}" for n f
    using that by (auto simp: cacheBytesFromEnv_def Let_def split: option.split)
  moreover have "cacheCapacityFromEnv env n f \<in> {0..maxParseCacheCapacity}" if "f \<in> {0..maxParseCacheCapacity}" for n f
    using that by (auto simp: cacheCapacityFromEnv_def Let_def split: option.split)
  ultimately have "cache_config_bounded (CacheConfigFromEnv env)"
    using cacheTTLFromEnv_bounded
    by (simp add: CacheConfigFromEnv_def cache_config_bounded_def Let_def DefaultCacheConfig_def)
  then show ?thesis by (simp add: cache_EffectiveConfig_id cache_EffectiveConfig_bounded)
qed

end
