(* ===== verification/Parse_Cache.thy ===== *)
theory Parse_Cache
  imports Parser_Cache Cache_Config Model
begin

text \<open>
  The two-sided parse cache of \<^verbatim>\<open>internal/parser/cache.go\<close>: successful parses and syntax
  errors, each in its own LRU cache, and the telemetry events the operations emit. An operation
  reads the clock once and is one step. The size of an entry rests on \<^verbatim>\<open>encoding/json\<close>,
  the parameter \<open>marshal\<close>, whose failure is \<open>None\<close>.
\<close>

record syntax_error =
  se_Message :: gostring
  se_Line :: int
  se_Column :: int

text \<open>The observer: none, one for events, or one for events and memory sizes.\<close>

datatype cache_observer = NoObserver | EventObserver | MemoryObserver

datatype cache_event =
  ObserveParserCacheEvent (event_result: gostring) (event_type: gostring)
| ObserveParserCacheBytes (bytes_type: gostring) (bytes_size: int)

record parse_cache =
  pc_success :: "diagram lru_cache"
  pc_syntax :: "syntax_error lru_cache"
  pc_metrics :: cache_observer

definition newParseCache :: "cache_config \<Rightarrow> parse_cache" where
  "newParseCache cfg =
     (let cfg = cache_EffectiveConfig cfg;
          successCapacity = (if SuccessMaxBytes cfg = 0 then 0 else SuccessCapacity cfg);
          syntaxCapacity = (if SyntaxMaxBytes cfg = 0 then 0 else SyntaxCapacity cfg)
      in \<lparr>pc_success = newLRUTTLCache successCapacity (SuccessTTL cfg) (Some (SuccessMaxBytes cfg)),
          pc_syntax = newLRUTTLCache syntaxCapacity (SyntaxTTL cfg) (Some (SyntaxMaxBytes cfg)),
          pc_metrics = NoObserver\<rparr>)"

definition setMetrics :: "cache_observer \<Rightarrow> parse_cache \<Rightarrow> parse_cache" where
  "setMetrics metrics c = c\<lparr>pc_metrics := metrics\<rparr>"

definition observe :: "parse_cache \<Rightarrow> gostring \<Rightarrow> gostring \<Rightarrow> cache_event list" where
  "observe c result entryType =
     (if pc_metrics c = NoObserver then [] else [ObserveParserCacheEvent result entryType])"

definition observeRemovals :: "parse_cache \<Rightarrow> int \<Rightarrow> gostring \<Rightarrow> cache_event list" where
  "observeRemovals c removed entryType = concat (replicate (nat removed) (observe c ''eviction'' entryType))"

definition observeMemory :: "parse_cache \<Rightarrow> cache_event list" where
  "observeMemory c =
     (if pc_metrics c = MemoryObserver
      then [ObserveParserCacheBytes ''success'' (lru_ByteSize (pc_success c)),
            ObserveParserCacheBytes ''syntax'' (lru_ByteSize (pc_syntax c))]
      else [])"

definition estimatedEntryBytes :: "('a \<Rightarrow> gostring option) \<Rightarrow> 'a \<Rightarrow> int" where
  "estimatedEntryBytes marshal value =
     (case marshal value of None \<Rightarrow> 0 | Some serialized \<Rightarrow> int (length serialized) * 2 + 128)"

text \<open>Copies are equal values: the fields of the new structs are the fields of the old.\<close>

definition cloneDiagram :: "diagram \<Rightarrow> diagram" where
  "cloneDiagram d =
     d\<lparr>diag_Nodes := map (\<lambda>n. n\<lparr>node_Line := node_Line n, node_Column := node_Column n\<rparr>) (diag_Nodes d),
       diag_Edges := map (\<lambda>e. e\<lparr>edge_Line := edge_Line e, edge_Column := edge_Column e\<rparr>) (diag_Edges d),
       diag_Subgraphs := map (\<lambda>s. s\<lparr>sub_Nodes := sub_Nodes s\<rparr>) (diag_Subgraphs d),
       diag_Suppressions := diag_Suppressions d, diag_SourceNodeIDs := diag_SourceNodeIDs d,
       diag_StartStates := diag_StartStates d, diag_DisconnectedNodeIDs := diag_DisconnectedNodeIDs d,
       diag_DuplicateNodeIDs := diag_DuplicateNodeIDs d\<rparr>"

definition cloneSyntaxError :: "syntax_error \<Rightarrow> syntax_error" where
  "cloneSyntaxError e = e\<lparr>se_Message := se_Message e, se_Line := se_Line e, se_Column := se_Column e\<rparr>"

lemma cloneDiagram_same [simp]: "cloneDiagram d = d"
  by (simp add: cloneDiagram_def)

lemma cloneSyntaxError_same [simp]: "cloneSyntaxError e = e"
  by (simp add: cloneSyntaxError_def)

definition cache_get ::
  "int \<Rightarrow> gostring \<Rightarrow> parse_cache \<Rightarrow> (diagram + syntax_error) option \<times> parse_cache \<times> cache_event list" where
  "cache_get now key c =
     (let ((v, successRemoved), success) = lru_Get now key (pc_success c);
          c = c\<lparr>pc_success := success\<rparr>
      in case v of
           Some v \<Rightarrow>
             (Some (Inl (cloneDiagram v)), c,
              (if successRemoved > 0 then observeMemory c else [])
              @ observeRemovals c successRemoved ''success'' @ observe c ''hit'' ''success'')
         | None \<Rightarrow>
             let ((syntaxErr, syntaxRemoved), syntax) = lru_Get now key (pc_syntax c);
                 c = c\<lparr>pc_syntax := syntax\<rparr>;
                 events = (if successRemoved + syntaxRemoved > 0 then observeMemory c else [])
                   @ observeRemovals c successRemoved ''success'' @ observeRemovals c syntaxRemoved ''syntax''
             in case syntaxErr of
                  Some syntaxErr \<Rightarrow>
                    (Some (Inr (cloneSyntaxError syntaxErr)), c, events @ observe c ''hit'' ''syntax'')
                | None \<Rightarrow> (None, c, events @ observe c ''miss'' ''any''))"

definition putSuccess ::
  "(diagram \<Rightarrow> gostring option) \<Rightarrow> int \<Rightarrow> gostring \<Rightarrow> diagram \<Rightarrow> parse_cache \<Rightarrow> parse_cache \<times> cache_event list" where
  "putSuccess marshal now key diagram c =
     (let c = c\<lparr>pc_syntax := lru_Delete key (pc_syntax c)\<rparr>;
          (removed, success) = SetWeighted now key (cloneDiagram diagram) (estimatedEntryBytes marshal diagram) (pc_success c);
          c = c\<lparr>pc_success := success\<rparr>
      in (c, observeMemory c @ observeRemovals c removed ''success''))"

definition putSyntax ::
  "(syntax_error \<Rightarrow> gostring option) \<Rightarrow> int \<Rightarrow> gostring \<Rightarrow> syntax_error \<Rightarrow> parse_cache \<Rightarrow> parse_cache \<times> cache_event list" where
  "putSyntax marshal now key syntaxErr c =
     (let c = c\<lparr>pc_success := lru_Delete key (pc_success c)\<rparr>;
          (removed, syntax) = SetWeighted now key (cloneSyntaxError syntaxErr) (estimatedEntryBytes marshal syntaxErr) (pc_syntax c);
          c = c\<lparr>pc_syntax := syntax\<rparr>
      in (c, observeMemory c @ observeRemovals c removed ''syntax''))"

section \<open>The cache as a map from keys to parse outcomes\<close>

definition parse_lookup :: "int \<Rightarrow> parse_cache \<Rightarrow> gostring \<Rightarrow> (diagram + syntax_error) option" where
  "parse_lookup t c k =
     (case lru_lookup t (pc_success c) k of
        Some d \<Rightarrow> Some (Inl d) | None \<Rightarrow> map_option Inr (lru_lookup t (pc_syntax c) k))"

text \<open>No key is in both caches.\<close>

definition parse_inv :: "parse_cache \<Rightarrow> bool" where
  "parse_inv c \<longleftrightarrow> lru_inv (pc_success c) \<and> lru_inv (pc_syntax c)
     \<and> dom (map_of (lru_entries (pc_success c))) \<inter> dom (map_of (lru_entries (pc_syntax c))) = {}"

lemma lru_Get_dom:
  assumes "lru_inv c"
  shows "dom (map_of (lru_entries (snd (lru_Get now k c)))) \<subseteq> dom (map_of (lru_entries c))"
  by (cases rule: lru_Get_cases [OF assms, of now k]) (auto simp: pruned_def split: option.splits if_splits)

lemma SetWeighted_dom:
  assumes "lru_inv c"
  shows "dom (map_of (lru_entries (snd (SetWeighted now k v w c)))) \<subseteq> insert k (dom (map_of (lru_entries c)))"
proof (cases "lru_disabled c")
  case False
  from SetWeighted_written [OF assms False] obtain c' where p: "pruned now c c'"
    and w: "written now k v c' (snd (SetWeighted now k v w c))" .
  have "map_of (lru_entries c) x \<noteq> None" if "map_of (lru_entries (snd (SetWeighted now k v w c))) x \<noteq> None" "x \<noteq> k" for x
  proof -
    have "map_of (lru_entries c') x \<noteq> None" using w that unfolding written_def by (metis empty_iff insert_iff)
    then show ?thesis using p by (auto simp: pruned_def split: option.splits)
  qed
  then show ?thesis by (auto simp: dom_def)
qed (auto simp: SetWeighted_def)

lemma cache_get_cases:
  assumes "parse_inv c"
  shows "fst (cache_get now k c) = parse_lookup now c k"
    and "fst (snd (cache_get now k c)) = c\<lparr>pc_success := snd (lru_Get now k (pc_success c))\<rparr> \<or>
      fst (snd (cache_get now k c)) = c\<lparr>pc_success := snd (lru_Get now k (pc_success c)),
                                        pc_syntax := snd (lru_Get now k (pc_syntax c))\<rparr>"
  using assms lru_Get_result [of "pc_success c" now k] lru_Get_result [of "pc_syntax c" now k]
  by (auto simp: cache_get_def parse_lookup_def parse_inv_def Let_def case_prod_beta split: option.split)

lemma parse_inv_sub:
  assumes "parse_inv c" and "lru_inv s" and "lru_inv y"
    and "dom (map_of (lru_entries s)) \<subseteq> dom (map_of (lru_entries (pc_success c)))"
    and "dom (map_of (lru_entries y)) \<subseteq> dom (map_of (lru_entries (pc_syntax c)))"
  shows "parse_inv (c\<lparr>pc_success := s, pc_syntax := y\<rparr>)"
  using assms unfolding parse_inv_def by (simp del: dom_eq_empty_conv) blast

lemma cache_get_facts:
  assumes "parse_inv c" and "now \<le> t"
  shows "parse_inv (fst (snd (cache_get now k c)))"
    and "parse_lookup t (fst (snd (cache_get now k c))) k' = parse_lookup t c k'"
    and "lru_ttl (pc_success (fst (snd (cache_get now k c)))) = lru_ttl (pc_success c)"
    and "lru_ttl (pc_syntax (fst (snd (cache_get now k c)))) = lru_ttl (pc_syntax c)"
proof -
  have inv: "lru_inv (pc_success c)" "lru_inv (pc_syntax c)" using assms(1) by (simp_all add: parse_inv_def)
  note facts = cache_get_cases(2) [OF assms(1), of now k] lru_Get_inv [OF inv(1), of now k] lru_Get_inv [OF inv(2), of now k]
    lru_Get_dom [OF inv(1), of now k] lru_Get_dom [OF inv(2), of now k]
  show "parse_inv (fst (snd (cache_get now k c)))"
    using facts(1)
  proof
    assume "fst (snd (cache_get now k c)) = c\<lparr>pc_success := snd (lru_Get now k (pc_success c))\<rparr>"
    then show ?thesis using parse_inv_sub [OF assms(1) facts(2) inv(2) facts(4) subset_refl] by simp
  next
    assume "fst (snd (cache_get now k c)) = c\<lparr>pc_success := snd (lru_Get now k (pc_success c)),
                                        pc_syntax := snd (lru_Get now k (pc_syntax c))\<rparr>"
    then show ?thesis using parse_inv_sub [OF assms(1) facts(2-5)] by simp
  qed
  have "lru_lookup t (pc_success (fst (snd (cache_get now k c)))) k' = lru_lookup t (pc_success c) k'"
    "lru_lookup t (pc_syntax (fst (snd (cache_get now k c)))) k' = lru_lookup t (pc_syntax c) k'"
    using facts(1) lru_Get_lookup [OF inv(1) assms(2)] lru_Get_lookup [OF inv(2) assms(2)] by auto
  then show "parse_lookup t (fst (snd (cache_get now k c))) k' = parse_lookup t c k'"
    by (simp add: parse_lookup_def split: option.split)
  show "lru_ttl (pc_success (fst (snd (cache_get now k c)))) = lru_ttl (pc_success c)"
    "lru_ttl (pc_syntax (fst (snd (cache_get now k c)))) = lru_ttl (pc_syntax c)"
    using facts(1) lru_Get_ttl [OF inv(1)] lru_Get_ttl [OF inv(2)] by auto
qed

lemma put_inv:
  assumes "lru_inv c1" and "lru_inv c2" and "dom (map_of (lru_entries c1)) \<inter> dom (map_of (lru_entries c2)) = {}"
  shows "dom (map_of (lru_entries (snd (SetWeighted now k v w c1)))) \<inter> dom (map_of (lru_entries (lru_Delete k c2))) = {}"
  using SetWeighted_dom [OF assms(1), of now k v w] lru_Delete_facts(4) [OF assms(2), of k] assms(3) by auto

lemma lru_Delete_lookup:
  "lru_inv c \<Longrightarrow> lru_lookup t (lru_Delete k c) k' = (if k' = k then None else lru_lookup t c k')"
  using lru_Delete_facts(2,4) [of c k] lru_disabled_limits [of c "lru_Delete k c"] by (auto simp: lru_lookup_def)

lemma lookup_entry: "lru_lookup t c k \<noteq> None \<Longrightarrow> k \<in> dom (map_of (lru_entries c))"
  by (auto simp: lru_lookup_def split: if_splits option.splits)

definition cache_put :: "(diagram \<Rightarrow> gostring option) \<Rightarrow> (syntax_error \<Rightarrow> gostring option)
    \<Rightarrow> int \<Rightarrow> gostring \<Rightarrow> diagram + syntax_error \<Rightarrow> parse_cache \<Rightarrow> parse_cache" where
  "cache_put md ms now k v c =
     (case v of Inl d \<Rightarrow> fst (putSuccess md now k d c) | Inr e \<Rightarrow> fst (putSyntax ms now k e c))"

lemma cache_put_simps:
  "cache_put md ms now k (Inl d) c = c\<lparr>pc_syntax := lru_Delete k (pc_syntax c),
     pc_success := snd (SetWeighted now k d (estimatedEntryBytes md d) (pc_success c))\<rparr>"
  "cache_put md ms now k (Inr e) c = c\<lparr>pc_success := lru_Delete k (pc_success c),
     pc_syntax := snd (SetWeighted now k e (estimatedEntryBytes ms e) (pc_syntax c))\<rparr>"
  by (simp_all add: cache_put_def putSuccess_def putSyntax_def Let_def case_prod_beta)

lemma cache_put_inv:
  assumes "parse_inv c"
  shows "parse_inv (cache_put md ms now k v c)"
proof -
  have inv: "lru_inv (pc_success c)" "lru_inv (pc_syntax c)"
    and dis: "dom (map_of (lru_entries (pc_success c))) \<inter> dom (map_of (lru_entries (pc_syntax c))) = {}"
    using assms by (simp_all add: parse_inv_def)
  have dis': "dom (map_of (lru_entries (pc_syntax c))) \<inter> dom (map_of (lru_entries (pc_success c))) = {}"
    using dis by (simp add: Int_commute)
  show ?thesis
  proof (cases v)
    case (Inl d)
    then show ?thesis using put_inv [OF inv dis] inv
      by (simp add: parse_inv_def cache_put_simps SetWeighted_inv lru_Delete_facts(1))
  next
    case (Inr e)
    then show ?thesis using put_inv [OF inv(2,1) dis'] inv
      by (simp add: parse_inv_def cache_put_simps SetWeighted_inv lru_Delete_facts(1) Int_commute)
  qed
qed

lemma cache_put_lookup:
  assumes "parse_inv c" and "now \<le> t"
  shows "parse_lookup t (cache_put md ms now k v c) k' \<in> {None, (if k' = k then Some v else parse_lookup t c k')}"
proof -
  have inv: "lru_inv (pc_success c)" "lru_inv (pc_syntax c)"
    and dis: "lru_lookup t (pc_success c) k' = None \<or> lru_lookup t (pc_syntax c) k' = None"
    using assms(1) lookup_entry [of t "pc_success c" k'] lookup_entry [of t "pc_syntax c" k'] unfolding parse_inv_def by blast+
  show ?thesis
  proof (cases v)
    case (Inl d)
    show ?thesis
      using SetWeighted_lookup [OF inv(1) assms(2), of k d "estimatedEntryBytes md d" k'] lru_Delete_lookup [OF inv(2), of t k k'] dis
      by (auto simp: Inl parse_lookup_def cache_put_simps split: if_splits option.splits)
  next
    case (Inr e)
    show ?thesis
      using SetWeighted_lookup [OF inv(2) assms(2), of k e "estimatedEntryBytes ms e" k'] lru_Delete_lookup [OF inv(1), of t k k'] dis
      by (auto simp: Inr parse_lookup_def cache_put_simps split: if_splits option.splits)
  qed
qed

text \<open>Each side keeps its own time to live.\<close>

definition parse_ok :: "int \<Rightarrow> int \<Rightarrow> parse_cache \<Rightarrow> bool" where
  "parse_ok ttl1 ttl2 c \<longleftrightarrow> parse_inv c \<and> lru_ttl (pc_success c) = ttl1 \<and> lru_ttl (pc_syntax c) = ttl2"

definition outcome_life :: "int \<Rightarrow> int \<Rightarrow> diagram + syntax_error \<Rightarrow> int" where
  "outcome_life ttl1 ttl2 v = (case v of Inl _ \<Rightarrow> ttl1 | Inr _ \<Rightarrow> ttl2)"

definition cache_read :: "int \<Rightarrow> gostring \<Rightarrow> parse_cache \<Rightarrow> (diagram + syntax_error) option \<times> parse_cache" where
  "cache_read now k c = (fst (cache_get now k c), fst (snd (cache_get now k c)))"

lemma cache_put_ok:
  assumes "parse_ok ttl1 ttl2 c"
  shows "parse_ok ttl1 ttl2 (cache_put md ms now k v c)"
  using assms cache_put_inv [of c md ms now k v]
  by (cases v) (auto simp: parse_ok_def parse_inv_def cache_put_simps SetWeighted_ttl lru_Delete_def)

lemma cache_put_expires:
  assumes "parse_ok ttl1 ttl2 c" and "now + outcome_life ttl1 ttl2 v \<le> t"
  shows "parse_lookup t (cache_put md ms now k v c) k = None"
  using assms
  by (cases v) (auto simp: parse_ok_def parse_inv_def parse_lookup_def cache_put_simps outcome_life_def
      SetWeighted_expires lru_Delete_lookup)

interpretation parses: expiring_cache cache_read "cache_put md ms" parse_lookup "parse_ok ttl1 ttl2" "outcome_life ttl1 ttl2"
  for md ms ttl1 ttl2
proof (rule expiring_cache.intro [OF ttl_cache.intro expiring_cache_axioms.intro])
  fix c :: parse_cache and now t :: int and k k' v
  assume ok: "parse_ok ttl1 ttl2 c"
  then have inv: "parse_inv c" by (simp add: parse_ok_def)
  show "parse_ok ttl1 ttl2 (snd (cache_read now k c))" "fst (cache_read now k c) = parse_lookup now c k"
    using ok cache_get_facts(1,3,4) [OF inv order_refl] cache_get_cases(1) [OF inv]
    by (simp_all add: cache_read_def parse_ok_def)
  show "parse_ok ttl1 ttl2 (cache_put md ms now k v c)" using ok by (rule cache_put_ok)
  assume t: "now \<le> t"
  show "parse_lookup t (snd (cache_read now k c)) k' = parse_lookup t c k'"
    using cache_get_facts(2) [OF inv t] by (simp add: cache_read_def)
  show "parse_lookup t (cache_put md ms now k v c) k \<in> {None, Some v}"
    "k' \<noteq> k \<Longrightarrow> parse_lookup t (cache_put md ms now k v c) k' \<in> {None, parse_lookup t c k'}"
    using cache_put_lookup [OF inv t, of md ms k v k] cache_put_lookup [OF inv t, of md ms k v k'] by auto
  show "now + outcome_life ttl1 ttl2 v \<le> t \<Longrightarrow> parse_lookup t (cache_put md ms now k v c) k = None"
    using ok by (rule cache_put_expires)
qed

lemma newParseCache_ok:
  "parse_ok (SuccessTTL (cache_EffectiveConfig cfg)) (SyntaxTTL (cache_EffectiveConfig cfg)) (newParseCache cfg)"
  "parse_lookup t (newParseCache cfg) k = None"
  by (simp_all add: parse_ok_def parse_inv_def parse_lookup_def newParseCache_def Let_def)
    (simp_all add: newLRUTTLCache_def)

text \<open>
  C15: after any sequence of reads and writes on a new parse cache, a hit returns the outcome last
  stored under the key, of either side, and that outcome was stored less than its side's time to
  live ago. The two LRU caches together refine one map with expiry.
\<close>

theorem parse_cache_hit_is_fresh:
  assumes "list_all (\<lambda>op. fst op \<le> t) ops"
    and "fst (cache_get t k (run_ops cache_read (cache_put md ms) ops (newParseCache cfg))) = Some v"
  shows "\<exists>s. last_stored ops k = Some (s, v) \<and>
    t < s + outcome_life (SuccessTTL (cache_EffectiveConfig cfg)) (SyntaxTTL (cache_EffectiveConfig cfg)) v"
  by (rule parses.hit_is_fresh [OF newParseCache_ok])
    (use assms in \<open>simp_all add: list_all_iff cache_read_def\<close>)

definition example_outcomes :: "(int \<times> (diagram + syntax_error) cache_op) list" where
  "example_outcomes =
     [(1, CachePut ''k'' (Inl empty_diagram)), (2, CacheGet ''k''),
      (3, CachePut ''k'' (Inr \<lparr>se_Message = ''bad'', se_Line = 1, se_Column = 2\<rparr>))]"

theorem parse_cache_hit_is_fresh_witness:
  "let c = run_ops cache_read (cache_put (\<lambda>_. Some ''ab'') (\<lambda>_. None)) example_outcomes (newParseCache DefaultCacheConfig);
       v = Inr \<lparr>se_Message = ''bad'', se_Line = 1, se_Column = 2\<rparr>
   in fst (cache_get 9 ''k'' c) = Some v \<and>
      (\<exists>s. last_stored example_outcomes ''k'' = Some (s, v) \<and> 9 < s + outcome_life (30 * Second) (15 * Second) v)"
proof -
  let ?c = "run_ops cache_read (cache_put (\<lambda>_. Some ''ab'') (\<lambda>_. None)) example_outcomes (newParseCache DefaultCacheConfig)"
  let ?v = "Inr \<lparr>se_Message = ''bad'', se_Line = 1, se_Column = 2\<rparr>"
  have hit: "fst (cache_get 9 ''k'' ?c) = Some ?v" by code_simp
  have ttl: "SuccessTTL (cache_EffectiveConfig DefaultCacheConfig) = 30 * Second"
    "SyntaxTTL (cache_EffectiveConfig DefaultCacheConfig) = 15 * Second" by code_simp+
  have "list_all (\<lambda>op. fst op \<le> 9) example_outcomes" by (simp add: example_outcomes_def)
  from parse_cache_hit_is_fresh [OF this hit] hit show ?thesis unfolding Let_def ttl by simp
qed

end
