(* ===== verification/Parser_Settings.thy ===== *)
theory Parser_Settings
  imports Cache_Config
begin

text \<open>
  The execution limits of the parser and how they are read from the environment,
  \<^verbatim>\<open>internal/parser/parser.go\<close>. Durations are in nanoseconds, of type \<^verbatim>\<open>int64\<close>.
\<close>

abbreviation "defaultTimeout \<equiv> 5 * Second"
abbreviation "minTimeout \<equiv> 1 * Second"
abbreviation "maxTimeout \<equiv> 60 * Second"
abbreviation "defaultNodeMaxOldSpaceSizeMB \<equiv> 512 :: int"
abbreviation "minNodeMaxOldSpaceSizeMB \<equiv> 128 :: int"
abbreviation "maxNodeMaxOldSpaceSizeMB \<equiv> 4096 :: int"
abbreviation "parserModeAuto \<equiv> ''auto''"
abbreviation "parserModePool \<equiv> ''pool''"
abbreviation "parserModeSubprocess \<equiv> ''subprocess''"
abbreviation "defaultParserMode \<equiv> ''pool''"
abbreviation "defaultWorkerPoolSize \<equiv> 4 :: int"
abbreviation "minWorkerPoolSize \<equiv> 1 :: int"
abbreviation "maxWorkerPoolSize \<equiv> 64 :: int"

definition defaultParserSourceEnhancementEnabled :: bool where
  [simp]: "defaultParserSourceEnhancementEnabled = True"

record parser_config =
  cfg_Timeout :: int
  cfg_NodeMaxOldSpaceMB :: int
  cfg_SourceEnhancement :: "bool option"
  cfg_NeedSourceEnhancement :: bool

definition EffectiveConfig :: "parser_config \<Rightarrow> parser_config" where
  "EffectiveConfig c =
     \<lparr>cfg_Timeout =
        (if cfg_Timeout c > 0
         then let t = cfg_Timeout c; t = (if t < minTimeout then minTimeout else t)
              in (if t > maxTimeout then maxTimeout else t)
         else defaultTimeout),
      cfg_NodeMaxOldSpaceMB =
        (if cfg_NodeMaxOldSpaceMB c > 0
         then let m = cfg_NodeMaxOldSpaceMB c; m = (if m < minNodeMaxOldSpaceSizeMB then minNodeMaxOldSpaceSizeMB else m)
              in (if m > maxNodeMaxOldSpaceSizeMB then maxNodeMaxOldSpaceSizeMB else m)
         else defaultNodeMaxOldSpaceSizeMB),
      cfg_SourceEnhancement =
        (case cfg_SourceEnhancement c of
           None \<Rightarrow> Some defaultParserSourceEnhancementEnabled | Some b \<Rightarrow> Some b),
      cfg_NeedSourceEnhancement = cfg_NeedSourceEnhancement c\<rparr>"

definition DefaultConfig :: parser_config where
  "DefaultConfig =
     \<lparr>cfg_Timeout = defaultTimeout, cfg_NodeMaxOldSpaceMB = defaultNodeMaxOldSpaceSizeMB,
      cfg_SourceEnhancement = Some defaultParserSourceEnhancementEnabled, cfg_NeedSourceEnhancement = False\<rparr>"

definition LimitBounds :: "int \<times> int \<times> int \<times> int" where
  "LimitBounds = (minTimeout, maxTimeout, minNodeMaxOldSpaceSizeMB, maxNodeMaxOldSpaceSizeMB)"

section \<open>The environment\<close>

definition readTimeoutSeconds :: "environment \<Rightarrow> int" where
  "readTimeoutSeconds env =
     (let raw = TrimSpace (env ''PARSER_TIMEOUT_SECONDS'') in
      if raw = [] then defaultTimeout
      else case Atoi raw of
        None \<Rightarrow> defaultTimeout
      | Some value \<Rightarrow>
          if value \<le> 0 then defaultTimeout
          else let timeout = wrap64 (value * Second)
               in if timeout < minTimeout \<or> timeout > maxTimeout then defaultTimeout else timeout)"

definition readMaxOldSpaceMB :: "environment \<Rightarrow> int" where
  "readMaxOldSpaceMB env =
     (let raw = TrimSpace (env ''PARSER_MAX_OLD_SPACE_MB'') in
      if raw = [] then defaultNodeMaxOldSpaceSizeMB
      else case Atoi raw of
        None \<Rightarrow> defaultNodeMaxOldSpaceSizeMB
      | Some value \<Rightarrow>
          if value \<le> 0 then defaultNodeMaxOldSpaceSizeMB
          else if value < minNodeMaxOldSpaceSizeMB \<or> value > maxNodeMaxOldSpaceSizeMB
          then defaultNodeMaxOldSpaceSizeMB
          else value)"

definition readSourceEnhancementEnabled :: "environment \<Rightarrow> bool option" where
  "readSourceEnhancementEnabled env =
     (let raw = TrimSpace (env ''PARSER_SOURCE_ENHANCEMENT'') in
      if raw = [] then Some defaultParserSourceEnhancementEnabled
      else case ParseBool raw of
        None \<Rightarrow> Some defaultParserSourceEnhancementEnabled
      | Some value \<Rightarrow> Some value)"

definition ConfigFromEnv :: "environment \<Rightarrow> parser_config" where
  "ConfigFromEnv env =
     \<lparr>cfg_Timeout = readTimeoutSeconds env, cfg_NodeMaxOldSpaceMB = readMaxOldSpaceMB env,
      cfg_SourceEnhancement = readSourceEnhancementEnabled env, cfg_NeedSourceEnhancement = False\<rparr>"

definition readParserMode :: "environment \<Rightarrow> gostring" where
  "readParserMode env =
     (let mode = ToLower (TrimSpace (env ''PARSER_MODE'')) in
      if mode = parserModePool \<or> mode = parserModeAuto \<or> mode = [] then parserModePool
      else if mode = parserModeSubprocess then parserModeSubprocess
      else defaultParserMode)"

definition ModeFromEnv :: "environment \<Rightarrow> gostring" where
  "ModeFromEnv env = readParserMode env"

definition readWorkerPoolSize :: "environment \<Rightarrow> int" where
  "readWorkerPoolSize env =
     (let raw = TrimSpace (env ''PARSER_WORKER_POOL_SIZE'') in
      if raw = [] then defaultWorkerPoolSize
      else case Atoi raw of
        None \<Rightarrow> defaultWorkerPoolSize
      | Some value \<Rightarrow>
          if value < minWorkerPoolSize then minWorkerPoolSize
          else if value > maxWorkerPoolSize then maxWorkerPoolSize
          else value)"

definition WorkerPoolSizeFromEnv :: "environment \<Rightarrow> int" where
  "WorkerPoolSizeFromEnv env = readWorkerPoolSize env"

section \<open>Bounds\<close>

definition config_bounded :: "parser_config \<Rightarrow> bool" where
  "config_bounded c \<longleftrightarrow> cfg_Timeout c \<in> {minTimeout..maxTimeout}
     \<and> cfg_NodeMaxOldSpaceMB c \<in> {minNodeMaxOldSpaceSizeMB..maxNodeMaxOldSpaceSizeMB}
     \<and> cfg_SourceEnhancement c \<noteq> None"

lemma EffectiveConfig_bounded: "config_bounded (EffectiveConfig c)"
  by (auto simp: config_bounded_def EffectiveConfig_def Let_def split: option.split)

lemma EffectiveConfig_id: "config_bounded c \<Longrightarrow> EffectiveConfig c = c"
  by (auto simp: config_bounded_def EffectiveConfig_def)

lemma readTimeoutSeconds_bounded: "readTimeoutSeconds env \<in> {minTimeout..maxTimeout}"
  by (auto simp: readTimeoutSeconds_def Let_def split: option.split)

lemma readMaxOldSpaceMB_bounded: "readMaxOldSpaceMB env \<in> {minNodeMaxOldSpaceSizeMB..maxNodeMaxOldSpaceSizeMB}"
  by (auto simp: readMaxOldSpaceMB_def Let_def split: option.split)

lemma ConfigFromEnv_bounded_lemma: "config_bounded (ConfigFromEnv env)"
  using readTimeoutSeconds_bounded [of env] readMaxOldSpaceMB_bounded [of env]
  by (auto simp: config_bounded_def ConfigFromEnv_def readSourceEnhancementEnabled_def Let_def split: option.split)

text \<open>
  Every configuration, whether a request asks for it or the environment sets it, runs within
  the limits on time and memory that \<open>LimitBounds\<close> announces; a configuration within the limits
  is not changed; and the environment cannot give fewer than one or more than sixty-four workers.
\<close>

theorem parser_limits_respected:
  "case LimitBounds of (tmin, tmax, mmin, mmax) \<Rightarrow>
     cfg_Timeout (EffectiveConfig c) \<in> {tmin..tmax} \<and> cfg_NodeMaxOldSpaceMB (EffectiveConfig c) \<in> {mmin..mmax}
     \<and> EffectiveConfig (EffectiveConfig c) = EffectiveConfig c
     \<and> EffectiveConfig (ConfigFromEnv env) = ConfigFromEnv env
     \<and> readWorkerPoolSize env \<in> {1..64}"
proof -
  have "readWorkerPoolSize env \<in> {1..64}"
    by (auto simp: readWorkerPoolSize_def Let_def split: option.split)
  moreover have "EffectiveConfig (ConfigFromEnv env) = ConfigFromEnv env"
    by (rule EffectiveConfig_id [OF ConfigFromEnv_bounded_lemma])
  moreover have "EffectiveConfig (EffectiveConfig c) = EffectiveConfig c"
    by (rule EffectiveConfig_id [OF EffectiveConfig_bounded])
  ultimately show ?thesis using EffectiveConfig_bounded [of c] by (simp add: LimitBounds_def config_bounded_def)
qed

lemma readTimeoutSeconds_Itoa:
  assumes "env ''PARSER_TIMEOUT_SECONDS'' = Itoa s" and "0 < s" and "int64 s"
  shows "readTimeoutSeconds env =
    (if wrap64 (s * Second) \<in> {minTimeout..maxTimeout} then wrap64 (s * Second) else defaultTimeout)"
  using assms by (auto simp: readTimeoutSeconds_def Atoi_def ParseInt_Itoa Let_def)

text \<open>
  The multiplication by a second wraps around before the bounds are checked, so a huge number of
  seconds can pass for a small one.
\<close>

lemma readTimeoutSeconds_wraps:
  "readTimeoutSeconds (env(''PARSER_TIMEOUT_SECONDS'' := Itoa 36028797018963978)) = 10 * Second"
  using readTimeoutSeconds_Itoa [of "env(''PARSER_TIMEOUT_SECONDS'' := Itoa 36028797018963978)" 36028797018963978]
  by (simp add: int64_def wrap64_def)

text \<open>
  A number of seconds printed in decimal into \<^verbatim>\<open>PARSER_TIMEOUT_SECONDS\<close> is read back as
  that timeout when it is between one and sixty, and gives the default otherwise, as long as it is
  small enough not to wrap around as a duration.
\<close>

theorem readTimeoutSeconds_round_trip:
  assumes "\<bar>s\<bar> < 2 ^ 33"
  shows "readTimeoutSeconds (env(''PARSER_TIMEOUT_SECONDS'' := Itoa s)) =
    (if 1 \<le> s \<and> s \<le> 60 then s * Second else defaultTimeout)"
proof (cases "0 < s")
  case True
  have "- (2 ^ 33) < s" "s < 2 ^ 33" using assms by linarith+
  then have "int64 (s * Second)" unfolding int64_def by simp
  then have "wrap64 (s * Second) = s * Second" by (rule wrap64_id)
  with True assms show ?thesis
    using readTimeoutSeconds_Itoa [of "env(''PARSER_TIMEOUT_SECONDS'' := Itoa s)" s] by (auto simp: int64_def)
next
  case False
  with assms show ?thesis by (simp add: readTimeoutSeconds_def Atoi_def ParseInt_Itoa int64_def)
qed

theorem readTimeoutSeconds_round_trip_witness:
  "\<bar>45 :: int\<bar> < 2 ^ 33 \<and> readTimeoutSeconds ((\<lambda>_. [])(''PARSER_TIMEOUT_SECONDS'' := Itoa 45)) = 45 * Second"
  using readTimeoutSeconds_round_trip [of 45 "\<lambda>_. []"] by simp

end
