(* ===== verification/Script_Path.thy ===== *)
theory Script_Path
  imports Strconv
begin

text \<open>
  Where the parser script may live, \<^verbatim>\<open>validateScriptPath\<close> and \<^verbatim>\<open>findRepoRoot\<close> of
  \<^verbatim>\<open>internal/parser/parser.go\<close>, over slash-separated paths. The lexical functions of
  \<^verbatim>\<open>path/filepath\<close> are modelled here; the file system is a record of functions for the calls
  that ask the operating system, which can fail with a text.
\<close>

section \<open>Lexical paths\<close>

text \<open>
  A path as its slash-separated elements. \<^verbatim>\<open>Clean\<close> drops empty and dot elements and lets a
  double dot cancel the element before it; at the root a double dot is dropped.
\<close>

definition elements :: "gostring \<Rightarrow> gostring list" where
  "elements p = filter (\<lambda>e. e \<noteq> [] \<and> e \<noteq> ''.'') (Split p (CHR ''/''))"

definition IsAbs :: "gostring \<Rightarrow> bool" where
  "IsAbs p \<longleftrightarrow> HasPrefix p ''/''"

fun clean_step :: "bool \<Rightarrow> gostring list \<Rightarrow> gostring list \<Rightarrow> gostring list" where
  "clean_step rooted out [] = rev out"
| "clean_step rooted out (e # es) =
     (if e \<noteq> ''..'' then clean_step rooted (e # out) es
      else case out of
             o' # out' \<Rightarrow> if o' = ''..'' then clean_step rooted (''..'' # out) es else clean_step rooted out' es
           | [] \<Rightarrow> if rooted then clean_step rooted [] es else clean_step rooted [''..''] es)"

definition clean_elements :: "gostring \<Rightarrow> gostring list" where
  "clean_elements p = clean_step (IsAbs p) [] (elements p)"

definition path_string :: "bool \<Rightarrow> gostring list \<Rightarrow> gostring" where
  "path_string rooted es =
     (if rooted then CHR ''/'' # Join es ''/'' else if es = [] then ''.'' else Join es ''/'')"

definition Clean :: "gostring \<Rightarrow> gostring" where
  "Clean p = path_string (IsAbs p) (clean_elements p)"

text \<open>\<^verbatim>\<open>filepath.Rel\<close> between two absolute paths: climb to the common prefix, then descend.\<close>

fun strip_common :: "gostring list \<Rightarrow> gostring list \<Rightarrow> gostring list \<times> gostring list" where
  "strip_common (x # xs) (y # ys) = (if x = y then strip_common xs ys else (x # xs, y # ys))"
| "strip_common xs ys = (xs, ys)"

definition rel_elements :: "gostring list \<Rightarrow> gostring list \<Rightarrow> gostring list" where
  "rel_elements base targ =
     (let (up, down) = strip_common base targ in replicate (length up) ''..'' @ down)"

definition Rel :: "gostring \<Rightarrow> gostring \<Rightarrow> gostring option" where
  "Rel base targ =
     (if IsAbs base \<noteq> IsAbs targ then None
      else Some (path_string False (rel_elements (clean_elements base) (clean_elements targ))))"

section \<open>The file system\<close>

record file_system =
  fs_Getwd :: "gostring + gostring"
  fs_EvalSymlinks :: "gostring \<Rightarrow> gostring + gostring"
  fs_Stat :: "gostring \<Rightarrow> gostring + bool"

text \<open>A failure is \<open>Inl\<close> of its text; \<^verbatim>\<open>Stat\<close> tells whether the path is a directory.\<close>

definition fs_Abs :: "file_system \<Rightarrow> gostring \<Rightarrow> gostring + gostring" where
  "fs_Abs fs p =
     (if IsAbs p then Inr (Clean p)
      else case fs_Getwd fs of Inl err \<Rightarrow> Inl err | Inr cwd \<Rightarrow> Inr (Clean (cwd @ ''/'' @ p)))"

section \<open>The checks\<close>

definition outside :: "gostring \<Rightarrow> bool" where
  "outside rel \<longleftrightarrow> rel = ''..'' \<or> HasPrefix rel ''../''"

definition validateScriptPath :: "file_system \<Rightarrow> gostring \<Rightarrow> gostring \<Rightarrow> gostring + gostring" where
  "validateScriptPath fs scriptPath repoRoot =
     (if scriptPath = [] then Inl ''parser script path is empty''
      else case fs_Abs fs (Clean scriptPath) of
        Inl err \<Rightarrow> Inl (''failed to resolve parser script path: '' @ err)
      | Inr absPath \<Rightarrow>
     case Rel repoRoot absPath of
        None \<Rightarrow> Inl ''failed to validate parser script path''
      | Some rel \<Rightarrow>
     if outside rel then Inl ''parser script path is outside allowed repository root''
     else case fs_EvalSymlinks fs absPath of
        Inl err \<Rightarrow> Inl (''failed to resolve symlinks in parser script path: '' @ err)
      | Inr absPath \<Rightarrow>
     case Rel repoRoot absPath of
        None \<Rightarrow> Inl ''failed to validate parser script path after symlink resolution''
      | Some rel \<Rightarrow>
     if outside rel then Inl ''parser script path is outside allowed repository root''
     else case fs_Stat fs absPath of
        Inl err \<Rightarrow> Inl (''parser script path is not accessible: '' @ err)
      | Inr is_dir \<Rightarrow> if is_dir then Inl ''parser script path points to a directory'' else Inr absPath)"

text \<open>
  \<^verbatim>\<open>findRepoRoot\<close> climbs from the working directory, an absolute clean path here held as its
  elements, until a directory has a \<^verbatim>\<open>go.mod\<close>; \<^verbatim>\<open>filepath.Dir\<close> drops the last element
  and stays at the root.
\<close>

function climb :: "file_system \<Rightarrow> gostring list \<Rightarrow> gostring + gostring" where
  "climb fs cwd =
     (case fs_Stat fs (path_string True (cwd @ [''go.mod''])) of
        Inr _ \<Rightarrow> Inr (path_string True cwd)
      | Inl _ \<Rightarrow> if cwd = [] then Inl ''failed to locate repository root'' else climb fs (butlast cwd))"
  by pat_completeness auto
termination
  by (relation "measure (\<lambda>(fs, cwd). length cwd)") auto

declare climb.simps [simp del]

definition findRepoRoot :: "file_system \<Rightarrow> gostring + gostring" where
  "findRepoRoot fs =
     (case fs_Getwd fs of
        Inl err \<Rightarrow> Inl (''failed to resolve working directory: '' @ err)
      | Inr cwd \<Rightarrow> climb fs (clean_elements cwd))"

section \<open>Containment\<close>

lemma strip_common_prefix: "strip_common xs ys = ([], zs) \<Longrightarrow> ys = xs @ zs"
  by (induction xs ys rule: strip_common.induct) (auto split: if_splits)

lemma Rel_inside:
  assumes "Rel base targ = Some rel" and "\<not> outside rel"
  shows "prefix (clean_elements base) (clean_elements targ) \<and> IsAbs base = IsAbs targ"
proof -
  obtain up down where sc: "strip_common (clean_elements base) (clean_elements targ) = (up, down)" by (meson surj_pair)
  have rel: "rel = path_string False (replicate (length up) ''..'' @ down)" and abs: "IsAbs base = IsAbs targ"
    using assms(1) by (auto simp: Rel_def rel_elements_def sc split: if_splits)
  have "up = []"
  proof (rule ccontr)
    assume "up \<noteq> []"
    then obtain u us where "up = u # us" by (cases up) auto
    then have rel': "rel = Join (''..'' # (replicate (length us) ''..'' @ down)) ''/''" using rel by (simp add: path_string_def)
    have "outside rel"
    proof (cases "replicate (length us) ''..'' @ down")
      case Nil
      then show ?thesis using rel' by (simp add: outside_def)
    next
      case (Cons y ys)
      then show ?thesis using rel' by (simp add: outside_def HasPrefix_def)
    qed
    with assms(2) show False by simp
  qed
  then show ?thesis using strip_common_prefix [of "clean_elements base"] sc abs by (auto simp: prefix_def)
qed

text \<open>
  C19: whatever the file system answers, a script path that passes the check is the resolved target
  of every symbolic link, lies under the repository root element by element, and is an existing
  file and no directory; an attempt to climb out, directly or through a link, is refused.
\<close>

theorem validateScriptPath_contained:
  assumes "validateScriptPath fs scriptPath repoRoot = Inr p"
  shows "prefix (clean_elements repoRoot) (clean_elements p) \<and> IsAbs p = IsAbs repoRoot \<and> fs_Stat fs p = Inr False
    \<and> (\<exists>q. fs_EvalSymlinks fs q = Inr p \<and> prefix (clean_elements repoRoot) (clean_elements q))"
proof -
  from assms obtain q r1 r2 where "Rel repoRoot q = Some r1" "\<not> outside r1" "fs_EvalSymlinks fs q = Inr p"
    "Rel repoRoot p = Some r2" "\<not> outside r2" "fs_Stat fs p = Inr False"
    by (auto simp: validateScriptPath_def split: if_splits sum.splits option.splits)
  then show ?thesis using Rel_inside by metis
qed

text \<open>A file system without links, whose only files are those of a list.\<close>

definition plain_fs :: "gostring \<Rightarrow> gostring list \<Rightarrow> file_system" where
  "plain_fs cwd files =
     \<lparr>fs_Getwd = Inr cwd, fs_EvalSymlinks = Inr,
      fs_Stat = (\<lambda>p. if p \<in> set files then Inr False else Inl ''no such file'')\<rparr>"

theorem validateScriptPath_contained_witness:
  "let fs = plain_fs ''/srv/app'' [''/srv/app/parser-node/parse.ts'', ''/srv/secret.ts''] in
   validateScriptPath fs ''./x/../parser-node//parse.ts'' ''/srv/app'' = Inr ''/srv/app/parser-node/parse.ts''
   \<and> prefix (clean_elements ''/srv/app'') (clean_elements ''/srv/app/parser-node/parse.ts'')
   \<and> validateScriptPath fs ''parser-node/../../secret.ts'' ''/srv/app'' = Inl ''parser script path is outside allowed repository root''"
proof -
  let ?fs = "plain_fs ''/srv/app'' [''/srv/app/parser-node/parse.ts'', ''/srv/secret.ts'']"
  have ok: "validateScriptPath ?fs ''./x/../parser-node//parse.ts'' ''/srv/app'' = Inr ''/srv/app/parser-node/parse.ts''"
    by code_simp
  moreover have "validateScriptPath ?fs ''parser-node/../../secret.ts'' ''/srv/app'' = Inl ''parser script path is outside allowed repository root''"
    by code_simp
  ultimately show ?thesis using validateScriptPath_contained [OF ok] unfolding Let_def by blast
qed

section \<open>The search for the root\<close>

definition has_gomod :: "file_system \<Rightarrow> gostring list \<Rightarrow> bool" where
  "has_gomod fs d = (case fs_Stat fs (path_string True (d @ [''go.mod''])) of Inr _ \<Rightarrow> True | Inl _ \<Rightarrow> False)"

lemma climb_nearest:
  "(case climb fs cwd of
      Inr r \<Rightarrow> \<exists>d. prefix d cwd \<and> r = path_string True d \<and> has_gomod fs d \<and>
               (\<forall>e. prefix e cwd \<and> length d < length e \<longrightarrow> \<not> has_gomod fs e)
    | Inl err \<Rightarrow> \<forall>e. prefix e cwd \<longrightarrow> \<not> has_gomod fs e)"
proof (induction fs cwd rule: climb.induct)
  case (1 fs cwd)
  show ?case
  proof (cases "fs_Stat fs (path_string True (cwd @ [''go.mod'']))")
    case (Inr x)
    then have "climb fs cwd = Inr (path_string True cwd)" "has_gomod fs cwd" by (simp_all add: climb.simps has_gomod_def)
    then show ?thesis by (auto intro!: exI [of _ cwd] dest: prefix_length_le)
  next
    case (Inl err)
    then have no: "\<not> has_gomod fs cwd" by (simp add: has_gomod_def)
    show ?thesis
    proof (cases "cwd = []")
      case True
      then show ?thesis using Inl no by (simp add: climb.simps)
    next
      case False
      have pre: "prefix e cwd \<longleftrightarrow> e = cwd \<or> prefix e (butlast cwd)" for e
        using False by (metis append_butlast_last_id prefix_snoc)
      have step: "climb fs cwd = climb fs (butlast cwd)" using Inl False by (subst climb.simps) simp
      show ?thesis using 1 [OF Inl False] no unfolding step pre
        by (auto split: sum.splits)
    qed
  qed
qed

text \<open>
  The search for the repository root always ends. It returns the nearest directory at or above
  the working directory that holds a \<^verbatim>\<open>go.mod\<close>, and fails exactly when there is none.
\<close>

theorem findRepoRoot_nearest:
  assumes "fs_Getwd fs = Inr cwd"
  shows "case findRepoRoot fs of
      Inr r \<Rightarrow> \<exists>d. prefix d (clean_elements cwd) \<and> r = path_string True d \<and> has_gomod fs d
               \<and> (\<forall>e. prefix e (clean_elements cwd) \<and> length d < length e \<longrightarrow> \<not> has_gomod fs e)
    | Inl err \<Rightarrow> \<forall>e. prefix e (clean_elements cwd) \<longrightarrow> \<not> has_gomod fs e"
  using climb_nearest [where fs = fs and cwd = "clean_elements cwd"] by (simp add: findRepoRoot_def assms)

theorem findRepoRoot_nearest_witness:
  "let fs = plain_fs ''/srv/app/internal/api'' [''/srv/app/go.mod'', ''/srv/go.mod''] in
   findRepoRoot fs = Inr ''/srv/app'' \<and> (\<exists>d. prefix d (clean_elements ''/srv/app/internal/api'') \<and> ''/srv/app'' = path_string True d)"
proof -
  let ?fs = "plain_fs ''/srv/app/internal/api'' [''/srv/app/go.mod'', ''/srv/go.mod'']"
  have "findRepoRoot ?fs = Inr ''/srv/app''" by code_simp
  moreover have "fs_Getwd ?fs = Inr ''/srv/app/internal/api''" by (simp add: plain_fs_def)
  ultimately show ?thesis using findRepoRoot_nearest [of ?fs "''/srv/app/internal/api''"] unfolding Let_def by auto
qed

end
