(* ===== verification/Source_Nodes.thy ===== *)
theory Source_Nodes
  imports Model
begin

text \<open>
  The source-level analysis of flowcharts, \<^verbatim>\<open>internal/parser/ast_enhancer.go\<close>: a scanner over
  the bytes of each line finds explicit node definitions and the nodes on both sides of edge
  operators. Positions are byte offsets; a span holds its start and its end.
\<close>

section \<open>Characters and tokens\<close>

abbreviation code :: "char \<Rightarrow> nat" where "code c \<equiv> of_char c"

definition mermaidKeywords :: "gostring list" where
  "mermaidKeywords =
     [''graph'', ''subgraph'', ''end'', ''direction'', ''td'', ''lr'', ''du'', ''bt'', ''tb'', ''rl'',
      ''sequencediagram'', ''participant'', ''classdiagram'', ''class'', ''erdiagram'', ''statediagram'',
      ''state'', ''entity'', ''rel'']"

definition isKeyword :: "gostring \<Rightarrow> bool" where
  "isKeyword s \<longleftrightarrow> ToLower s \<in> set mermaidKeywords"

definition isIdentifierStart :: "char \<Rightarrow> bool" where
  "isIdentifierStart c \<longleftrightarrow>
     65 \<le> code c \<and> code c \<le> 90 \<or> 97 \<le> code c \<and> code c \<le> 122 \<or> c = CHR ''_''"

definition isASCIIDigit :: "char \<Rightarrow> bool" where
  "isASCIIDigit c \<longleftrightarrow> 48 \<le> code c \<and> code c \<le> 57"

definition isIdentifierCore :: "char \<Rightarrow> bool" where
  "isIdentifierCore c \<longleftrightarrow> isIdentifierStart c \<or> isASCIIDigit c"

definition isValidNodeIDToken :: "gostring \<Rightarrow> bool" where
  "isValidNodeIDToken token \<longleftrightarrow>
     \<not> (token = [] \<or> \<not> isIdentifierStart (token ! 0) \<or> HasSuffix token ''-'')
     \<and> list_all (\<lambda>i. \<not> (token ! i = CHR ''-'' \<and>
          (token ! (i - 1) = CHR ''-'' \<or> i + 1 = length token \<or> \<not> isIdentifierCore (token ! (i + 1)))))
        [1..<length token]"

function scan_end :: "gostring \<Rightarrow> nat \<Rightarrow> nat" where
  "scan_end line i =
     (if i < length line \<and>
         (isIdentifierCore (line ! i) \<or>
          line ! i = CHR ''-'' \<and> i > 0 \<and> i + 1 < length line \<and> isIdentifierCore (line ! (i - 1)) \<and> isIdentifierCore (line ! (i + 1)))
      then scan_end line (i + 1)
      else i)"
  by pat_completeness auto
termination
  by (relation "measure (\<lambda>(line, i). length line - i)") auto

declare scan_end.simps [simp del]

definition scanNodeIDEnd :: "gostring \<Rightarrow> nat \<Rightarrow> nat" where
  "scanNodeIDEnd line start = scan_end line (start + 1)"

definition isEdgeOperatorChar :: "char \<Rightarrow> bool" where
  "isEdgeOperatorChar c \<longleftrightarrow> c \<in> {CHR ''-'', CHR ''='', CHR ''.'', CHR ''o'', CHR ''x'', CHR ''<'', CHR ''>''}"

text \<open>The loop counts the connectors and notes an arrow head.\<close>

definition connector :: "char \<Rightarrow> bool" where
  "connector c \<longleftrightarrow> c \<in> {CHR ''-'', CHR ''='', CHR ''.''}"

definition operator_scan :: "gostring \<Rightarrow> bool \<times> nat \<times> bool" where
  "operator_scan token =
     fold (\<lambda>c (hasConnector, connectorCount, hasRight).
             if connector c then (True, connectorCount + 1, hasRight)
             else if c = CHR ''>'' then (hasConnector, connectorCount, True)
             else (hasConnector, connectorCount, hasRight))
       token (False, 0, False)"

definition isEdgeOperatorToken :: "gostring \<Rightarrow> bool" where
  "isEdgeOperatorToken token =
     (let (hasConnector, connectorCount, hasRight) = operator_scan token
      in if \<not> hasConnector then False else hasRight \<or> connectorCount \<ge> 2)"

section \<open>Spans\<close>

type_synonym span = "nat \<times> nat"

definition substring :: "gostring \<Rightarrow> nat \<Rightarrow> nat \<Rightarrow> gostring" where
  "substring s i j = take (j - i) (drop i s)"

definition is_opening :: "char \<Rightarrow> bool" where
  "is_opening c \<longleftrightarrow> c \<in> {CHR ''['', CHR ''('', CHR ''{''}"

definition is_closing :: "char \<Rightarrow> bool" where
  "is_closing c \<longleftrightarrow> c \<in> {CHR '']'', CHR '')'', CHR ''}''}"

lemma scan_end_bounds: "i \<le> scan_end line i \<and> (i \<le> length line \<longrightarrow> scan_end line i \<le> length line)"
proof (induction line i rule: scan_end.induct)
  case (1 line i)
  then show ?case by (subst (1 2) scan_end.simps) auto
qed

text \<open>The scanner of node identifiers; \<open>stack\<close> holds the open brackets, the last one first.\<close>

function node_spans :: "gostring \<Rightarrow> nat \<Rightarrow> gostring \<Rightarrow> span list" where
  "node_spans line i stack =
     (if i < length line
      then let c = line ! i in
        if is_opening c then node_spans line (i + 1) (c # stack)
        else if is_closing c then node_spans line (i + 1) (if stack \<noteq> [] then tl stack else stack)
        else if stack \<noteq> [] then node_spans line (i + 1) stack
        else if \<not> isIdentifierStart c then node_spans line (i + 1) stack
        else let e = scanNodeIDEnd line i; token = substring line i e
             in if isKeyword token \<or> \<not> isValidNodeIDToken token then node_spans line e stack
                else (i, e) # node_spans line e stack
      else [])"
  by pat_completeness auto
termination
proof (relation "measure (\<lambda>(line, i, stack). length line - i)")
  fix line i c e assume "i < length line" "e = scanNodeIDEnd line i"
  moreover from this have "i < e" using scan_end_bounds [of "i + 1" line] by (simp add: scanNodeIDEnd_def)
  ultimately show "\<And>stack. ((line, e, stack), line, i, stack) \<in> measure (\<lambda>(line, i, stack). length line - i)"
    "\<And>stack. ((line, e, stack), line, i, stack) \<in> measure (\<lambda>(line, i, stack). length line - i)" by simp_all
qed auto

declare node_spans.simps [simp del]

definition extractNodeIDSpans :: "gostring \<Rightarrow> span list" where
  "extractNodeIDSpans line = node_spans line 0 []"

text \<open>Before each opening bracket: blanks, then the longest run of identifier bytes.\<close>

definition skip_blanks_left :: "gostring \<Rightarrow> gostring" where
  "skip_blanks_left s = dropWhile (\<lambda>c. c = CHR '' '' \<or> c = CHR 0x09) (rev s)"

definition token_before :: "gostring \<Rightarrow> nat \<Rightarrow> gostring" where
  "token_before line i =
     rev (takeWhile (\<lambda>c. isIdentifierStart c \<or> isASCIIDigit c \<or> c = CHR ''-'') (skip_blanks_left (take i line)))"

definition extractExplicitNodeDefinitions :: "gostring \<Rightarrow> gostring list" where
  "extractExplicitNodeDefinitions line =
     List.map_filter
       (\<lambda>i. if \<not> is_opening (line ! i) then None
            else let token = token_before line i
                 in if token = [] \<or> isKeyword token \<or> \<not> isValidNodeIDToken token then None else Some token)
       [0..<length line]"

function operator_end :: "gostring \<Rightarrow> nat \<Rightarrow> nat" where
  "operator_end line i =
     (if i < length line \<and> isEdgeOperatorChar (line ! i) then operator_end line (i + 1) else i)"
  by pat_completeness auto
termination
  by (relation "measure (\<lambda>(line, i). length line - i)") auto

declare operator_end.simps [simp del]

lemma operator_end_bounds: "i \<le> operator_end line i \<and> (i \<le> length line \<longrightarrow> operator_end line i \<le> length line)"
proof (induction line i rule: operator_end.induct)
  case (1 line i)
  then show ?case by (subst (1 2) operator_end.simps) auto
qed

function edge_operators :: "gostring \<Rightarrow> nat \<Rightarrow> span list" where
  "edge_operators line i =
     (if i < length line
      then if \<not> isEdgeOperatorChar (line ! i) then edge_operators line (i + 1)
           else let e = operator_end line (i + 1)
                in if isEdgeOperatorToken (substring line i e) then (i, e) # edge_operators line e
                   else edge_operators line e
      else [])"
  by pat_completeness auto
termination
proof (relation "measure (\<lambda>(line, i). length line - i)")
  fix line i e assume "i < length line" "e = operator_end line (i + 1)"
  moreover from this have "i < e" using operator_end_bounds [of "i + 1" line] by simp
  ultimately show "((line, e), line, i) \<in> measure (\<lambda>(line, i). length line - i)"
    "((line, e), line, i) \<in> measure (\<lambda>(line, i). length line - i)" by simp_all
qed auto

declare edge_operators.simps [simp del]

definition extractEdgeOperators :: "gostring \<Rightarrow> span list" where
  "extractEdgeOperators line = edge_operators line 0"

definition nearestNodeBefore :: "span list \<Rightarrow> nat \<Rightarrow> span option" where
  "nearestNodeBefore indices pos = find (\<lambda>s. snd s \<le> pos) (rev indices)"

definition nearestNodeAfter :: "span list \<Rightarrow> nat \<Rightarrow> span option" where
  "nearestNodeAfter indices pos = find (\<lambda>s. fst s \<ge> pos) indices"

definition extractEdgeNodeIDs :: "gostring \<Rightarrow> gostring list" where
  "extractEdgeNodeIDs source =
     (let idMatches = extractNodeIDSpans source in
      if length idMatches < 2 then []
      else concat (map (\<lambda>(s, e).
             case (nearestNodeBefore idMatches s, nearestNodeAfter idMatches e) of
               (Some left, Some right) \<Rightarrow> [substring source (fst left) (snd left), substring source (fst right) (snd right)]
             | _ \<Rightarrow> [])
           (extractEdgeOperators source)))"

section \<open>The analysis\<close>

text \<open>\<^verbatim>\<open>strings.Index(line, "%%")\<close> and the cut at that index.\<close>

fun strip_comment :: "gostring \<Rightarrow> gostring" where
  "strip_comment [] = []"
| "strip_comment (c # cs) = (if HasPrefix (c # cs) ''%%'' then [] else c # strip_comment cs)"

text \<open>Append an identifier unless it has been seen.\<close>

definition add_unseen :: "gostring \<Rightarrow> gostring list \<times> (gostring, unit) gomap \<Rightarrow> gostring list \<times> (gostring, unit) gomap" where
  "add_unseen x st = (if map_of (snd st) x = None then (fst st @ [x], set_add x (snd st)) else st)"

definition analyzeSourceNodes :: "(gostring list \<Rightarrow> gostring list) \<Rightarrow> gostring \<Rightarrow> gostring list \<times> gostring list" where
  "analyzeSourceNodes ord source =
     (let lines = map strip_comment (Split source (CHR 0x0A));
          defs = concat (map extractExplicitNodeDefinitions lines);
          edgeNodeIDs = concat (map extractEdgeNodeIDs lines);
          counts = count_by (\<lambda>x. x) defs;
          (nodeIDs, seen) = fold add_unseen edgeNodeIDs (fold add_unseen defs ([], []));
          duplicates = map fst (filter (\<lambda>(k, n). n > 1) (range_map ord counts))
      in (nodeIDs, sort duplicates))"

definition extractAllNodeIDsFromSource :: "(gostring list \<Rightarrow> gostring list) \<Rightarrow> gostring \<Rightarrow> gostring list" where
  "extractAllNodeIDsFromSource ord source = fst (analyzeSourceNodes ord source)"

definition findDuplicateNodeIDs :: "(gostring list \<Rightarrow> gostring list) \<Rightarrow> gostring \<Rightarrow> gostring list" where
  "findDuplicateNodeIDs ord source = snd (analyzeSourceNodes ord source)"

definition EnhanceASTWithSourceAnalysis :: "(gostring list \<Rightarrow> gostring list) \<Rightarrow> diagram \<Rightarrow> gostring \<Rightarrow> diagram" where
  "EnhanceASTWithSourceAnalysis ord diagram sourceCode =
     (if sourceCode = [] then diagram
      else let (allNodeIDs, duplicates) = analyzeSourceNodes ord sourceCode;
               edgeNodes = fold (\<lambda>n. set_add (node_ID n)) (diag_Nodes diagram)
                 (fold (\<lambda>e s. set_add (edge_To e) (set_add (edge_From e) s)) (diag_Edges diagram) []);
               disconnected = filter (\<lambda>nodeID. map_of edgeNodes nodeID = None) allNodeIDs
           in diagram\<lparr>diag_SourceNodeIDs := allNodeIDs, diag_DisconnectedNodeIDs := disconnected,
                      diag_DuplicateNodeIDs := duplicates\<rparr>)"

section \<open>What the scanner returns\<close>

definition node_token :: "gostring \<Rightarrow> bool" where
  "node_token t \<longleftrightarrow> isValidNodeIDToken t \<and> \<not> isKeyword t"

lemma scanNodeIDEnd_greater [simp]: "i < scanNodeIDEnd line i"
  using scan_end_bounds [of "i + 1" line] by (simp add: scanNodeIDEnd_def)

lemma node_spans_tokens: "list_all (\<lambda>x. node_token (substring line (fst x) (snd x))) (node_spans line i stack)"
proof (induction "length line - i" arbitrary: i stack rule: less_induct)
  case less
  have IH: "list_all (\<lambda>x. node_token (substring line (fst x) (snd x))) (node_spans line j st)" if "i < j" "i < length line" for j st
    using less that by (simp add: diff_less_mono2)
  have token: "isKeyword t \<or> \<not> isValidNodeIDToken t \<longleftrightarrow> \<not> node_token t" for t by (auto simp: node_token_def)
  show ?case by (subst node_spans.simps) (simp add: IH Let_def token)
qed

lemma explicit_tokens: "t \<in> set (extractExplicitNodeDefinitions line) \<Longrightarrow> node_token t"
  by (auto simp: extractExplicitNodeDefinitions_def List.map_filter_def node_token_def Let_def split: if_splits)

lemma nearest_spans:
  "nearestNodeBefore spans p = Some x \<Longrightarrow> x \<in> set spans" "nearestNodeAfter spans p = Some x \<Longrightarrow> x \<in> set spans"
  by (auto simp: nearestNodeBefore_def nearestNodeAfter_def dest: find_SomeD)

lemma edge_tokens:
  assumes "t \<in> set (extractEdgeNodeIDs line)"
  shows "node_token t"
proof -
  let ?spans = "extractNodeIDSpans line"
  obtain x left right where "nearestNodeBefore ?spans (fst x) = Some left" "nearestNodeAfter ?spans (snd x) = Some right"
    and t: "t = substring line (fst left) (snd left) \<or> t = substring line (fst right) (snd right)"
    using assms by (auto simp: extractEdgeNodeIDs_def Let_def split: if_splits option.splits) (metis+)
  then have "left \<in> set ?spans" "right \<in> set ?spans" by (auto dest: nearest_spans)
  with t show ?thesis using node_spans_tokens [of line 0 "[]"] by (auto simp: extractNodeIDSpans_def list_all_iff)
qed

lemma add_unseen_facts:
  assumes "set (gm_keys (snd st)) = set (fst st)" and "distinct (fst st)"
  shows "set (gm_keys (snd (fold add_unseen xs st))) = set (fst (fold add_unseen xs st)) \<and>
    distinct (fst (fold add_unseen xs st)) \<and> set (fst (fold add_unseen xs st)) = set (fst st) \<union> set xs"
  using assms
proof (induction xs arbitrary: st)
  case (Cons x xs)
  let ?st = "add_unseen x st"
  have dom: "dom (map_of (snd st)) = set (fst st)" using Cons.prems(1) by (simp add: set_gm_keys)
  have "set (gm_keys (snd ?st)) = set (fst ?st)" "distinct (fst ?st)" "set (fst ?st) = insert x (set (fst st))"
    using Cons.prems dom by (auto simp: add_unseen_def set_add_def set_gm_keys_update)
  with Cons.IH [of ?st] show ?case by auto
qed simp

definition source_lines :: "gostring \<Rightarrow> gostring list" where
  "source_lines source = map strip_comment (Split source (CHR 0x0A))"

definition definitions_in :: "gostring \<Rightarrow> gostring list" where
  "definitions_in source = concat (map extractExplicitNodeDefinitions (source_lines source))"

definition references_in :: "gostring \<Rightarrow> gostring list" where
  "references_in source = concat (map extractEdgeNodeIDs (source_lines source))"

lemma analyzeSourceNodes_fst:
  "fst (analyzeSourceNodes ord source) = fst (fold add_unseen (references_in source) (fold add_unseen (definitions_in source) ([], [])))"
  by (simp add: analyzeSourceNodes_def Let_def case_prod_beta definitions_in_def references_in_def source_lines_def)

lemma analyzeSourceNodes_ids:
  "distinct (fst (analyzeSourceNodes ord source))"
  "set (fst (analyzeSourceNodes ord source)) = set (definitions_in source) \<union> set (references_in source)"
proof -
  have defs: "set (gm_keys (snd (fold add_unseen (definitions_in source) ([], [])))) = set (fst (fold add_unseen (definitions_in source) ([], [])))"
    "distinct (fst (fold add_unseen (definitions_in source) ([], [])))"
    "set (fst (fold add_unseen (definitions_in source) ([], []))) = set (definitions_in source)"
    using add_unseen_facts [of "([], [])" "definitions_in source"] by simp_all
  show "distinct (fst (analyzeSourceNodes ord source))"
    "set (fst (analyzeSourceNodes ord source)) = set (definitions_in source) \<union> set (references_in source)"
    using add_unseen_facts [OF defs(1,2), of "references_in source"] defs(3) by (simp_all add: analyzeSourceNodes_fst)
qed

lemma analyzeSourceNodes_duplicates:
  assumes "iteration_order ord"
  shows "snd (analyzeSourceNodes ord source) = sorted_list_of_set {x. length (filter (\<lambda>y. y = x) (definitions_in source)) > 1}"
proof -
  define counts where "counts = count_by (\<lambda>x. x) (definitions_in source)"
  define dups where "dups = map fst (filter (\<lambda>(k, n). n > 1) (range_map ord counts))"
  have set: "set (range_map ord counts) = set counts" using assms by (simp add: set_range_map counts_def)
  have "set dups = {x. length (filter (\<lambda>y. y = x) (definitions_in source)) > 1}"
    unfolding dups_def set_map set_filter set by (auto simp: counts_def set_count_by image_iff)
  moreover have "distinct dups"
    unfolding dups_def by (rule distinct_zero_keys [OF assms]) (simp add: counts_def)
  ultimately have "sort dups = sorted_list_of_set {x. length (filter (\<lambda>y. y = x) (definitions_in source)) > 1}"
    by (metis sorted_list_of_set_sort_remdups distinct_remdups_id)
  moreover have "snd (analyzeSourceNodes ord source) = sort dups"
    by (simp add: analyzeSourceNodes_def Let_def case_prod_beta dups_def counts_def definitions_in_def source_lines_def)
  ultimately show ?thesis by simp
qed

definition known_ids :: "diagram \<Rightarrow> gostring set" where
  "known_ids d = edge_From ` set (diag_Edges d) \<union> edge_To ` set (diag_Edges d) \<union> node_ID ` set (diag_Nodes d)"

lemma edge_nodes_keys:
  "dom (map_of (fold (\<lambda>n. set_add (node_ID n)) ns (fold (\<lambda>e s. set_add (edge_To e) (set_add (edge_From e) s)) es m))) =
     dom (map_of m) \<union> edge_From ` set es \<union> edge_To ` set es \<union> node_ID ` set ns"
proof -
  have "dom (map_of (fold (\<lambda>e s. set_add (edge_To e) (set_add (edge_From e) s)) es m)) =
      dom (map_of m) \<union> edge_From ` set es \<union> edge_To ` set es"
    by (induction es arbitrary: m) (auto simp: set_add_def dom_map_of_update)
  moreover have "dom (map_of (fold (\<lambda>n. set_add (node_ID n)) ns m)) = dom (map_of m) \<union> node_ID ` set ns" for m
    by (induction ns arbitrary: m) (auto simp: set_add_def dom_map_of_update)
  ultimately show ?thesis by simp
qed

lemma edge_nodes_unknown:
  "map_of (fold (\<lambda>n. set_add (node_ID n)) (diag_Nodes d)
     (fold (\<lambda>e s. set_add (edge_To e) (set_add (edge_From e) s)) (diag_Edges d) [])) x = None \<longleftrightarrow> x \<notin> known_ids d"
    (is "map_of ?m x = None \<longleftrightarrow> _")
proof -
  have "x \<notin> dom (map_of ?m) \<longleftrightarrow> x \<notin> known_ids d" by (subst edge_nodes_keys) (simp add: known_ids_def)
  then show ?thesis by (simp only: domIff not_not)
qed

text \<open>
  C20: the analysis of a flowchart's source, whatever order its map of counts is iterated in:
  the source nodes are the distinct identifiers defined or referenced in the text, every one a
  valid token and no keyword; the disconnected ones are those the parsed diagram does not know,
  in source order; the duplicates are the identifiers defined more than once, sorted. The rest
  of the diagram is untouched.
\<close>

theorem EnhanceASTWithSourceAnalysis_correct:
  assumes "iteration_order ord" and "source \<noteq> []"
  shows "let d' = EnhanceASTWithSourceAnalysis ord d source in
    distinct (diag_SourceNodeIDs d') \<and> set (diag_SourceNodeIDs d') = set (definitions_in source) \<union> set (references_in source)
    \<and> list_all (\<lambda>t. isValidNodeIDToken t \<and> \<not> isKeyword t) (diag_SourceNodeIDs d')
    \<and> diag_DisconnectedNodeIDs d' = filter (\<lambda>x. x \<notin> known_ids d) (diag_SourceNodeIDs d')
    \<and> diag_DuplicateNodeIDs d' = sorted_list_of_set {x. length (filter (\<lambda>y. y = x) (definitions_in source)) > 1}
    \<and> d' = d\<lparr>diag_SourceNodeIDs := diag_SourceNodeIDs d', diag_DisconnectedNodeIDs := diag_DisconnectedNodeIDs d',
            diag_DuplicateNodeIDs := diag_DuplicateNodeIDs d'\<rparr>"
proof -
  obtain ids dups where an: "analyzeSourceNodes ord source = (ids, dups)" by (meson surj_pair)
  have ids: "distinct ids" "set ids = set (definitions_in source) \<union> set (references_in source)"
    using analyzeSourceNodes_ids [of ord source] by (simp_all add: an)
  have "list_all (\<lambda>t. isValidNodeIDToken t \<and> \<not> isKeyword t) ids"
    using explicit_tokens edge_tokens
    by (auto simp: list_all_iff ids(2) definitions_in_def references_in_def node_token_def)
  moreover have "dups = sorted_list_of_set {x. length (filter (\<lambda>y. y = x) (definitions_in source)) > 1}"
    using analyzeSourceNodes_duplicates [OF assms(1), of source] by (simp add: an)
  ultimately show ?thesis using ids assms(2) by (simp add: EnhanceASTWithSourceAnalysis_def an Let_def edge_nodes_unknown)
qed

text \<open>A node on its own, one defined twice, and a comment.\<close>

definition example_source :: gostring where
  "example_source = ''A[x] --> B'' @ [CHR 0x0A] @ ''C[y] %% D[z]'' @ [CHR 0x0A] @ ''A[again]''"

theorem EnhanceASTWithSourceAnalysis_correct_witness:
  "let d' = EnhanceASTWithSourceAnalysis rev (empty_diagram\<lparr>diag_Edges := [arrow ''A'' ''B'']\<rparr>) example_source in
   diag_SourceNodeIDs d' = [''A'', ''C'', ''B''] \<and> diag_DisconnectedNodeIDs d' = [''C''] \<and> diag_DuplicateNodeIDs d' = [''A'']
   \<and> distinct (diag_SourceNodeIDs d')"
proof -
  let ?d = "EnhanceASTWithSourceAnalysis rev (empty_diagram\<lparr>diag_Edges := [arrow ''A'' ''B'']\<rparr>) example_source"
  have "example_source \<noteq> []" by (simp add: example_source_def)
  from EnhanceASTWithSourceAnalysis_correct [OF iteration_order_rev this, of "empty_diagram\<lparr>diag_Edges := [arrow ''A'' ''B'']\<rparr>"]
  have "distinct (diag_SourceNodeIDs ?d)" unfolding Let_def by blast
  moreover have "diag_SourceNodeIDs ?d = [''A'', ''C'', ''B'']" "diag_DisconnectedNodeIDs ?d = [''C'']" "diag_DuplicateNodeIDs ?d = [''A'']"
    by code_simp+
  ultimately show ?thesis unfolding Let_def by blast
qed

text \<open>The text on an edge is taken for a node: it then counts as disconnected.\<close>

lemma edge_text_is_a_node:
  "diag_DisconnectedNodeIDs (EnhanceASTWithSourceAnalysis (\<lambda>ks. ks)
     (empty_diagram\<lparr>diag_Edges := [arrow ''A'' ''B'']\<rparr>) ''A -- yes --> B'') = [''yes'']"
  by code_simp

section \<open>Reading back a printed edge\<close>

definition plain_id :: "gostring \<Rightarrow> bool" where
  "plain_id a \<longleftrightarrow> a \<noteq> [] \<and> isIdentifierStart (hd a) \<and> list_all isIdentifierCore a \<and> \<not> isKeyword a"

lemma core_not_special:
  assumes "isIdentifierCore c"
  shows "c \<noteq> CHR ''-''" "\<not> is_opening c" "\<not> is_closing c" "\<not> connector c" "c \<noteq> CHR ''>''" "c \<noteq> CHR '' ''"
  using assms
  by (auto simp: isIdentifierCore_def isIdentifierStart_def isASCIIDigit_def is_opening_def is_closing_def connector_def)

lemma plain_id_token: "plain_id a \<Longrightarrow> node_token a"
proof -
  assume a: "plain_id a"
  then have core: "isIdentifierCore (a ! i)" if "i < length a" for i using that by (simp add: plain_id_def list_all_length)
  then have dash: "a ! i \<noteq> CHR ''-''" if "i < length a" for i using that core_not_special(1) by blast
  have "\<not> HasSuffix a ''-''"
  proof
    assume "HasSuffix a ''-''"
    then have "a ! (length a - 1) = CHR ''-''" using a
      by (auto simp: HasSuffix_def plain_id_def) (metis One_nat_def append_take_drop_id last_conv_nth last_snoc)
    then show False using dash [of "length a - 1"] a by (simp add: plain_id_def)
  qed
  then show ?thesis using a dash by (auto simp: node_token_def isValidNodeIDToken_def plain_id_def hd_conv_nth list_all_iff)
qed

lemma scan_end_run:
  assumes "i \<le> j" and "j \<le> length line" and "\<forall>k. i \<le> k \<and> k < j \<longrightarrow> isIdentifierCore (line ! k)"
    and "j < length line \<Longrightarrow> \<not> isIdentifierCore (line ! j) \<and> line ! j \<noteq> CHR ''-''"
  shows "scan_end line i = j"
  using assms
proof (induction "j - i" arbitrary: i)
  case 0
  then show ?case by (subst scan_end.simps) auto
next
  case (Suc n)
  then have "i < j" by linarith
  moreover from this have "scan_end line (i + 1) = j" using Suc by (intro Suc(1)) auto
  ultimately show ?case using Suc.prems by (subst scan_end.simps) auto
qed

text \<open>A run of bytes without a connector holds no operator.\<close>

lemma operator_scan_none:
  assumes "list_all (\<lambda>c. \<not> connector c) t"
  shows "\<not> isEdgeOperatorToken t"
proof -
  have "fst (fold (\<lambda>c (hasConnector, connectorCount, hasRight).
             if connector c then (True, connectorCount + 1, hasRight)
             else if c = CHR ''>'' then (hasConnector, connectorCount, True)
             else (hasConnector, connectorCount, hasRight)) t (False, n, r)) = False" for n :: nat and r
    using assms by (induction t arbitrary: n r) auto
  then show ?thesis by (simp add: isEdgeOperatorToken_def operator_scan_def case_prod_beta)
qed

lemma operator_end_run:
  assumes "i \<le> j" and "j \<le> length line" and "j < length line \<Longrightarrow> \<not> isEdgeOperatorChar (line ! j)"
  shows "operator_end line i \<le> j"
  using assms
proof (induction "j - i" arbitrary: i)
  case 0
  then show ?case by (subst operator_end.simps) auto
next
  case (Suc n)
  then have "i < j" by linarith
  then have "operator_end line (i + 1) \<le> j" using Suc by (intro Suc(1)) auto
  then show ?case using \<open>i < j\<close> by (subst operator_end.simps) auto
qed

lemma edge_operators_skip:
  assumes "i \<le> j" and "j \<le> length line" and "\<forall>k. i \<le> k \<and> k < j \<longrightarrow> \<not> connector (line ! k)"
    and "j < length line \<Longrightarrow> \<not> isEdgeOperatorChar (line ! j)"
  shows "edge_operators line i = edge_operators line j"
  using assms(1,3)
proof (induction "j - i" arbitrary: i rule: less_induct)
  case less
  show ?case
  proof (cases "i = j")
    case False
    then have "i < j" "i < length line" using less.prems assms(2) by simp_all
    let ?e = "operator_end line (i + 1)"
    have e: "i < ?e" "?e \<le> j"
      using operator_end_bounds [of "i + 1" line] operator_end_run [of "i + 1" j line] \<open>i < j\<close> assms(2,4) by auto
    have step: "edge_operators line (i + 1) = edge_operators line j" "edge_operators line ?e = edge_operators line j"
      using less.prems \<open>i < j\<close> e by (intro less.hyps; simp)+
    have "list_all (\<lambda>c. \<not> connector c) (substring line i ?e)"
      using less.prems(2) e assms(2) by (auto simp: list_all_length substring_def)
    then have "\<not> isEdgeOperatorToken (substring line i ?e)" by (rule operator_scan_none)
    then show ?thesis using step \<open>i < length line\<close> by (subst edge_operators.simps) (simp add: Let_def)
  qed simp
qed

text \<open>A plain identifier at a position, followed by the end or a byte that cannot continue it.\<close>

lemma node_spans_id:
  assumes "plain_id a" and line: "line = xs @ a @ ys" and stop: "ys = [] \<or> \<not> isIdentifierCore (hd ys) \<and> hd ys \<noteq> CHR ''-''"
  shows "node_spans line (length xs) [] =
    (length xs, length xs + length a) # node_spans line (length xs + length a) []"
proof -
  let ?i = "length xs" and ?e = "length xs + length a"
  have a: "a \<noteq> []" "isIdentifierStart (hd a)" "list_all isIdentifierCore a" using assms(1) by (simp_all add: plain_id_def)
  have hd: "line ! ?i = hd a" using a(1) by (simp add: line nth_append hd_conv_nth)
  have core: "isIdentifierCore (hd a)" using a by (cases a) auto
  have len: "?i < length line" using a(1) by (simp add: line)
  have "scan_end line (?i + 1) = ?e"
  proof (rule scan_end_run)
    show "?i + 1 \<le> ?e" using a(1) by (cases a) auto
    show "?e \<le> length line" by (simp add: line)
    show "\<forall>k. ?i + 1 \<le> k \<and> k < ?e \<longrightarrow> isIdentifierCore (line ! k)"
      using a(3) by (auto simp: line nth_append list_all_length)
    show "?e < length line \<Longrightarrow> \<not> isIdentifierCore (line ! ?e) \<and> line ! ?e \<noteq> CHR ''-''"
      using stop by (auto simp: line nth_append hd_conv_nth)
  qed
  then have "scanNodeIDEnd line ?i = ?e" by (simp add: scanNodeIDEnd_def)
  moreover have "substring line ?i ?e = a" by (simp add: substring_def line)
  ultimately show ?thesis
    using len a(2) core core_not_special(2,3) [OF core] plain_id_token [OF assms(1)]
    by (subst node_spans.simps) (simp add: Let_def hd node_token_def)
qed

lemma node_spans_plain:
  assumes "i < length line" and "line ! i \<in> {CHR '' '', CHR ''-'', CHR ''>''}"
  shows "node_spans line i [] = node_spans line (i + 1) []"
  using assms by (subst node_spans.simps) (auto simp: Let_def is_opening_def is_closing_def isIdentifierStart_def)

definition edge_line :: "gostring \<Rightarrow> gostring \<Rightarrow> gostring" where
  "edge_line a b = a @ '' --> '' @ b"

lemma edge_line_spans:
  assumes "plain_id a" and "plain_id b"
  shows "extractNodeIDSpans (edge_line a b) = [(0, length a), (length a + 5, length a + 5 + length b)]"
proof -
  let ?line = "edge_line a b" and ?n = "length a"
  have stop: "\<not> isIdentifierCore CHR '' ''" using core_not_special(6) by blast
  have "node_spans ?line 0 [] = (0, ?n) # node_spans ?line ?n []"
    using node_spans_id [OF assms(1), of ?line "[]" "'' --> '' @ b"] stop by (simp add: edge_line_def)
  moreover have "node_spans ?line ?n [] = node_spans ?line (?n + 5) []"
  proof -
    have "node_spans ?line (?n + i) [] = node_spans ?line (?n + i + 1) []" if "i < 5" for i
    proof (rule node_spans_plain)
      show "?n + i < length ?line" using that by (simp add: edge_line_def)
      show "?line ! (?n + i) \<in> {CHR '' '', CHR ''-'', CHR ''>''}"
        using that by (auto simp: edge_line_def nth_append less_Suc_eq numeral_eq_Suc)
    qed
    from this [of 0] this [of 1] this [of 2] this [of 3] this [of 4] show ?thesis by (simp add: numeral_eq_Suc)
  qed
  moreover have "node_spans ?line (?n + 5) [] = (?n + 5, ?n + 5 + length b) # node_spans ?line (?n + 5 + length b) []"
    using node_spans_id [OF assms(2), of ?line "a @ '' --> ''" "[]"] by (simp add: edge_line_def eval_nat_numeral)
  moreover have "node_spans ?line (?n + 5 + length b) [] = []" by (subst node_spans.simps) (simp add: edge_line_def)
  ultimately show ?thesis by (simp add: extractNodeIDSpans_def)
qed

lemma edge_line_operators:
  assumes "plain_id a" and "plain_id b"
  shows "extractEdgeOperators (edge_line a b) = [(length a + 1, length a + 4)]"
proof -
  let ?line = "edge_line a b" and ?n = "length a"
  have none: "\<not> connector (c ! k)" if "plain_id c" "k < length c" for c k
    using that core_not_special(4) by (simp add: plain_id_def list_all_length)
  have at: "?line ! Suc ?n = CHR ''-''" "?line ! Suc (Suc ?n) = CHR ''-''" "?line ! Suc (Suc (Suc ?n)) = CHR ''>''"
    "?line ! Suc (Suc (Suc (Suc ?n))) = CHR '' ''" "?line ! ?n = CHR '' ''"
    by (simp_all add: edge_line_def nth_append)
  have len: "length ?line = ?n + 5 + length b" by (simp add: edge_line_def)
  have op: "operator_end ?line i = operator_end ?line (Suc i)" if "i < length ?line" "?line ! i = CHR ''-'' \<or> ?line ! i = CHR ''>''" for i
    using that by (subst operator_end.simps) (auto simp: isEdgeOperatorChar_def)
  have blank: "edge_operators ?line i = edge_operators ?line (Suc i)" if "i < length ?line" "?line ! i = CHR '' ''" for i
    using that by (subst edge_operators.simps) (auto simp: isEdgeOperatorChar_def)
  have "edge_operators ?line 0 = edge_operators ?line ?n"
    using none [OF assms(1)] by (intro edge_operators_skip)
      (auto simp: len at isEdgeOperatorChar_def, simp add: edge_line_def nth_append)
  also have "\<dots> = edge_operators ?line (Suc ?n)" by (rule blank) (simp_all add: len at)
  also have "\<dots> = (?n + 1, ?n + 4) # edge_operators ?line (?n + 4)"
  proof -
    have "operator_end ?line (?n + 4) = ?n + 4"
      by (subst operator_end.simps) (simp add: at isEdgeOperatorChar_def eval_nat_numeral)
    then have "operator_end ?line (Suc (Suc ?n)) = ?n + 4"
      using op [of "Suc (Suc ?n)"] op [of "Suc (Suc (Suc ?n))"] by (simp add: at len eval_nat_numeral)
    moreover have "substring ?line (Suc ?n) (?n + 4) = ''-->''" by (simp add: substring_def edge_line_def)
    moreover have "isEdgeOperatorToken ''-->''" by code_simp
    ultimately show ?thesis by (subst edge_operators.simps) (simp add: len at isEdgeOperatorChar_def Let_def)
  qed
  also have "edge_operators ?line (?n + 4) = edge_operators ?line (?n + 5)"
    using blank [of "?n + 4"] by (simp add: len at eval_nat_numeral)
  also have "\<dots> = edge_operators ?line (length ?line)"
    using none [OF assms(2)] by (intro edge_operators_skip) (auto simp: len, auto simp: edge_line_def nth_append)
  also have "\<dots> = []" by (subst edge_operators.simps) simp
  finally show ?thesis by (simp add: extractEdgeOperators_def)
qed

text \<open>
  The scanner reads back an edge between two plain identifiers: it finds exactly the two nodes
  around the arrow, whatever letters and digits they are made of.
\<close>

theorem extractEdgeNodeIDs_round_trip:
  assumes "plain_id a" and "plain_id b"
  shows "extractEdgeNodeIDs (a @ '' --> '' @ b) = [a, b]"
proof -
  have "substring (edge_line a b) 0 (length a) = a" "substring (edge_line a b) (length a + 5) (length a + 5 + length b) = b"
    by (simp_all add: substring_def edge_line_def)
  then have "extractEdgeNodeIDs (edge_line a b) = [a, b]"
    by (simp add: extractEdgeNodeIDs_def edge_line_spans [OF assms] edge_line_operators [OF assms]
        nearestNodeBefore_def nearestNodeAfter_def)
  then show ?thesis by (simp add: edge_line_def)
qed

theorem extractEdgeNodeIDs_round_trip_witness:
  "extractEdgeNodeIDs ''box_1 --> Ox'' = [''box_1'', ''Ox'']"
proof -
  have "plain_id ''box_1''" "plain_id ''Ox''" by code_simp+
  from extractEdgeNodeIDs_round_trip [OF this] show ?thesis by simp
qed

end
