(* ===== verification/Parser_Results.thy ===== *)
theory Parser_Results
  imports Parse_Cache Parser_Settings Script_Path Source_Nodes Sha256
begin

text \<open>
  From what the Node process returns to a diagram, a syntax error or a failure:
  \<^verbatim>\<open>internal/parser/parser.go\<close> and \<^verbatim>\<open>worker.go\<close>. The Node program, the operating system
  and \<^verbatim>\<open>encoding/json\<close> are outside the model: a finished run is a record of what they gave,
  and \<open>decode\<close> is the JSON decoder.
\<close>

section \<open>Errors\<close>

datatype sentinel = ErrTimeout | ErrSubprocess | ErrDecode | ErrContract | ErrMemoryLimit

fun sentinel_text :: "sentinel \<Rightarrow> gostring" where
  "sentinel_text ErrTimeout = ''parser timeout''"
| "sentinel_text ErrSubprocess = ''parser subprocess error''"
| "sentinel_text ErrDecode = ''parser decode error''"
| "sentinel_text ErrContract = ''parser contract violation''"
| "sentinel_text ErrMemoryLimit = ''parser memory limit exceeded''"

record error_metadata =
  em_Suggestion :: gostring
  em_Limit :: gostring
  em_ObservedSizeByte :: int

text \<open>An error: the sentinels \<^verbatim>\<open>errors.Is\<close> finds in its chain, its text, its metadata.\<close>

record parse_error =
  pe_is :: "sentinel list"
  pe_text :: gostring
  pe_metadata :: "error_metadata option"

definition plain_error :: "gostring \<Rightarrow> parse_error" where
  "plain_error text = \<lparr>pe_is = [], pe_text = text, pe_metadata = None\<rparr>"

definition sentinel_error :: "sentinel \<Rightarrow> gostring \<Rightarrow> parse_error" where
  "sentinel_error s detail = \<lparr>pe_is = [s], pe_text = sentinel_text s @ '': '' @ detail, pe_metadata = None\<rparr>"

text \<open>\<^verbatim>\<open>fmt.Errorf("%w: %w", s, err)\<close>\<close>

definition wrap_error :: "sentinel \<Rightarrow> parse_error \<Rightarrow> parse_error" where
  "wrap_error s err = \<lparr>pe_is = s # pe_is err, pe_text = sentinel_text s @ '': '' @ pe_text err, pe_metadata = None\<rparr>"

definition execution_error :: "parse_error \<Rightarrow> error_metadata \<Rightarrow> parse_error" where
  "execution_error err metadata = err\<lparr>pe_metadata := Some metadata\<rparr>"

definition MetadataFromError :: "parse_error \<Rightarrow> error_metadata \<times> bool" where
  "MetadataFromError err =
     (case pe_metadata err of
        None \<Rightarrow> (\<lparr>em_Suggestion = [], em_Limit = [], em_ObservedSizeByte = 0\<rparr>, False)
      | Some m \<Rightarrow> (m, True))"

definition timeout_error :: "parser_config \<Rightarrow> parse_error" where
  "timeout_error cfg =
     execution_error (sentinel_error ErrTimeout (''after '' @ Duration_String (cfg_Timeout cfg)))
       \<lparr>em_Suggestion = ''reduce diagram size or increase PARSER_TIMEOUT_SECONDS'',
        em_Limit = Duration_String (cfg_Timeout cfg), em_ObservedSizeByte = 0\<rparr>"

definition memory_metadata :: "parser_config \<Rightarrow> gostring \<Rightarrow> error_metadata" where
  "memory_metadata cfg mermaidCode =
     \<lparr>em_Suggestion = ''reduce diagram size, batch requests, or increase PARSER_MAX_OLD_SPACE_MB'',
      em_Limit = Itoa (cfg_NodeMaxOldSpaceMB cfg) @ '' MiB'', em_ObservedSizeByte = int (length mermaidCode)\<rparr>"

definition with_stderr :: "sentinel \<Rightarrow> gostring \<Rightarrow> gostring \<Rightarrow> parse_error" where
  "with_stderr s runErr stderr = sentinel_error s (runErr @ '' (stderr: '' @ stderr @ '')'')"

definition isLikelyNodeMemoryLimit :: "gostring \<Rightarrow> bool" where
  "isLikelyNodeMemoryLimit stderr =
     (let msg = ToLower stderr in
      Contains msg ''heap out of memory'' \<or> Contains msg ''allocation failed'' \<or> Contains msg ''javascript heap out of memory'')"

section \<open>The parse result\<close>

record parsed_ast =
  ast_Type :: gostring
  ast_Direction :: gostring
  ast_Nodes :: "node list"
  ast_Edges :: "edge list"
  ast_Subgraphs :: "subgraph list"
  ast_Suppressions :: "suppression list"
  ast_StartStates :: "gostring list"

text \<open>
  The parsed nodes, edges, subgraphs and suppressions have the fields of the model's records, so
  those records stand for them; \<^verbatim>\<open>toDiagram\<close> copies field by field.
\<close>

record parse_result =
  pr_Valid :: bool
  pr_DiagramType :: gostring
  pr_AST :: "parsed_ast option"
  pr_Error :: "syntax_error option"

definition normalizeDiagramType :: "gostring \<Rightarrow> diagram_type" where
  "normalizeDiagramType rawType =
     (let t = ToLower (TrimSpace rawType) in
      if t = DiagramTypeFlowchart then DiagramTypeFlowchart
      else if t = DiagramTypeSequence then DiagramTypeSequence
      else if t = DiagramTypeClass then DiagramTypeClass
      else if t = DiagramTypeER then DiagramTypeER
      else if t = DiagramTypeState then DiagramTypeState
      else DiagramTypeUnknown)"

definition toDiagram :: "parse_result \<Rightarrow> diagram" where
  "toDiagram result =
     (case pr_AST result of
        None \<Rightarrow> empty_diagram
      | Some ast \<Rightarrow>
          let t = normalizeDiagramType (pr_DiagramType result);
              diagramType = (if t = DiagramTypeUnknown then normalizeDiagramType (ast_Type ast) else t)
          in \<lparr>diag_Type = diagramType, diag_Direction = ast_Direction ast,
              diag_Nodes = map (\<lambda>n. \<lparr>node_ID = node_ID n, node_Label = node_Label n, node_Line = node_Line n,
                                     node_Column = node_Column n\<rparr>) (ast_Nodes ast),
              diag_Edges = map (\<lambda>e. \<lparr>edge_From = edge_From e, edge_To = edge_To e, edge_Type = edge_Type e,
                                     edge_Line = edge_Line e, edge_Column = edge_Column e\<rparr>) (ast_Edges ast),
              diag_Subgraphs = map (\<lambda>s. \<lparr>sub_ID = sub_ID s, sub_Label = sub_Label s, sub_Nodes = sub_Nodes s\<rparr>)
                                 (ast_Subgraphs ast),
              diag_Suppressions = map (\<lambda>s. \<lparr>sup_RuleID = sup_RuleID s, sup_Scope = sup_Scope s, sup_Line = sup_Line s,
                                           sup_TargetLine = sup_TargetLine s, sup_SubgraphID = sup_SubgraphID s\<rparr>)
                                    (ast_Suppressions ast),
              diag_SourceNodeIDs = [], diag_DisconnectedNodeIDs = [], diag_DuplicateNodeIDs = [],
              diag_StartStates = ast_StartStates ast\<rparr>)"

definition shouldEnhanceSourceAnalysis :: "diagram \<Rightarrow> parser_config \<Rightarrow> bool" where
  "shouldEnhanceSourceAnalysis diagram cfg =
     (if cfg_SourceEnhancement cfg \<noteq> Some True \<or> \<not> cfg_NeedSourceEnhancement cfg then False
      else Family (diag_Type diagram) = DiagramFamilyFlowchart)"

text \<open>The outcome of a parse: a failure, or a diagram, or a syntax error.\<close>

type_synonym parse_outcome = "parse_error + (diagram + syntax_error)"

definition mapParseResult ::
  "(gostring list \<Rightarrow> gostring list) \<Rightarrow> parse_result \<Rightarrow> gostring \<Rightarrow> parser_config \<Rightarrow> parse_outcome" where
  "mapParseResult ord result mermaidCode cfg =
     (if \<not> pr_Valid result
      then case pr_Error result of
             Some err \<Rightarrow>
               if HasPrefix (se_Message err) ''parser_memory_limit:''
               then Inl (execution_error (sentinel_error ErrMemoryLimit ''reported by parser-node'') (memory_metadata cfg mermaidCode))
               else Inr (Inr err)
           | None \<Rightarrow> Inl (sentinel_error ErrContract ''invalid result missing error for valid=false'')
      else case pr_AST result of
             None \<Rightarrow> Inl (sentinel_error ErrContract ''valid result missing AST'')
           | Some _ \<Rightarrow>
               let diagram = toDiagram result
               in Inr (Inl (if shouldEnhanceSourceAnalysis diagram cfg
                            then EnhanceASTWithSourceAnalysis ord diagram mermaidCode else diagram)))"

section \<open>One-shot subprocesses\<close>

record run_outcome =
  run_err :: "gostring option"
  run_deadline :: bool
  run_stdout :: gostring
  run_stderr :: gostring

definition internal_error_prefix :: gostring where
  "internal_error_prefix = ''internal parser error:''"

text \<open>What \<^verbatim>\<open>parseWithSubprocess\<close> makes of a finished run.\<close>

definition subprocess_outcome ::
  "(gostring list \<Rightarrow> gostring list) \<Rightarrow> (gostring \<Rightarrow> gostring + parse_result) \<Rightarrow> run_outcome
     \<Rightarrow> gostring \<Rightarrow> parser_config \<Rightarrow> parse_outcome" where
  "subprocess_outcome ord decode run mermaidCode cfg =
     (if run_err run \<noteq> None \<and> run_deadline run then Inl (timeout_error cfg)
      else case decode (run_stdout run) of
        Inl decodeErr \<Rightarrow>
          (case run_err run of
             Some runErr \<Rightarrow> Inl (with_stderr ErrSubprocess runErr (run_stderr run))
           | None \<Rightarrow> Inl (sentinel_error ErrDecode (''failed to decode parser output: '' @ decodeErr)))
      | Inr result \<Rightarrow>
          (case run_err run of
             None \<Rightarrow> mapParseResult ord result mermaidCode cfg
           | Some runErr \<Rightarrow>
               if (case pr_Error result of None \<Rightarrow> True
                   | Some err \<Rightarrow> HasPrefix (ToLower (TrimSpace (se_Message err))) internal_error_prefix)
               then if isLikelyNodeMemoryLimit (run_stderr run)
                    then Inl (execution_error (with_stderr ErrMemoryLimit runErr (run_stderr run)) (memory_metadata cfg mermaidCode))
                    else Inl (with_stderr ErrSubprocess runErr (run_stderr run))
               else mapParseResult ord result mermaidCode cfg))"

text \<open>The checks before the process is started; \<open>run\<close> is what the process gives.\<close>

definition parseWithSubprocess ::
  "(gostring list \<Rightarrow> gostring list) \<Rightarrow> (gostring \<Rightarrow> gostring + parse_result) \<Rightarrow> file_system \<Rightarrow> gostring \<Rightarrow> gostring
     \<Rightarrow> bool \<Rightarrow> (gostring \<Rightarrow> run_outcome) \<Rightarrow> gostring \<Rightarrow> parser_config \<Rightarrow> parse_outcome" where
  "parseWithSubprocess ord decode fs repoRoot scriptPath isClosed run mermaidCode cfg =
     (if repoRoot = [] then Inl (plain_error ''failed to locate repository root'')
      else case validateScriptPath fs scriptPath repoRoot of
        Inl err \<Rightarrow> Inl (plain_error err)
      | Inr script \<Rightarrow>
          if isClosed then Inl (sentinel_error ErrSubprocess ''parser is closed'')
          else subprocess_outcome ord decode (run script) mermaidCode cfg)"

section \<open>Workers\<close>

record worker_response =
  wr_ID :: gostring
  wr_Result :: parse_result
  wr_Error :: gostring

text \<open>
  What the select statement of \<^verbatim>\<open>parseWithWorkerPool\<close> receives first: the timer, an error from
  the request, or a response. The flag tells the pool whether the worker is still healthy.
\<close>

datatype worker_event = TimerFired | RequestFailed parse_error | Responded worker_response

definition worker_outcome ::
  "(gostring list \<Rightarrow> gostring list) \<Rightarrow> worker_event \<Rightarrow> gostring \<Rightarrow> parser_config \<Rightarrow> bool \<times> parse_outcome" where
  "worker_outcome ord event mermaidCode cfg =
     (case event of
        TimerFired \<Rightarrow> (False, Inl (timeout_error cfg))
      | RequestFailed reqErr \<Rightarrow>
          (False, Inl (if ErrDecode \<in> set (pe_is reqErr) \<or> ErrContract \<in> set (pe_is reqErr) then reqErr
                       else if isLikelyNodeMemoryLimit (pe_text reqErr)
                       then execution_error (wrap_error ErrMemoryLimit reqErr) (memory_metadata cfg mermaidCode)
                       else wrap_error ErrSubprocess reqErr))
      | Responded resp \<Rightarrow>
          (True, if TrimSpace (wr_Error resp) \<noteq> []
                 then if HasPrefix (TrimSpace (wr_Error resp)) ''parser_timeout:'' then Inl (timeout_error cfg)
                      else if isLikelyNodeMemoryLimit (wr_Error resp)
                      then Inl (execution_error (sentinel_error ErrMemoryLimit (wr_Error resp)) (memory_metadata cfg mermaidCode))
                      else Inl (sentinel_error ErrSubprocess (wr_Error resp))
                 else mapParseResult ord (wr_Result resp) mermaidCode cfg))"

text \<open>
  \<^verbatim>\<open>parserWorker.do\<close>: whether the worker is closed before the request, and what each of its four
  fallible calls gives; \<open>closed_later\<close> is the flag as the error paths read it again.
\<close>

record worker_io =
  io_closed :: bool
  io_marshal :: "gostring option"
  io_write :: "gostring option"
  io_read :: "gostring + gostring"
  io_closed_later :: bool
  io_stderr :: gostring

definition worker_do ::
  "(gostring \<Rightarrow> gostring + worker_response) \<Rightarrow> gostring \<Rightarrow> worker_io \<Rightarrow> parse_error + worker_response" where
  "worker_do decode reqID io =
     (if io_closed io then Inl (sentinel_error ErrSubprocess ''worker is closed'')
      else case io_marshal io of
        Some err \<Rightarrow> Inl (sentinel_error ErrDecode (''failed to encode parser request: '' @ err))
      | None \<Rightarrow>
     case io_write io of
        Some err \<Rightarrow>
          if io_closed_later io then Inl (sentinel_error ErrSubprocess ''worker is closed'')
          else Inl (with_stderr ErrSubprocess err (io_stderr io))
      | None \<Rightarrow>
     case io_read io of
        Inl err \<Rightarrow>
          if io_closed_later io then Inl (sentinel_error ErrSubprocess ''worker is closed'')
          else Inl (with_stderr ErrSubprocess err (io_stderr io))
      | Inr line \<Rightarrow>
     case decode (TrimSpace line) of
        Inl err \<Rightarrow> Inl (sentinel_error ErrDecode (''failed to decode parser output: '' @ err))
      | Inr resp \<Rightarrow>
          if wr_ID resp \<noteq> reqID then Inl (sentinel_error ErrContract ''mismatched worker response id'')
          else Inr resp)"

definition parserNodeArgs :: "gostring \<Rightarrow> gostring list \<Rightarrow> gostring list" where
  "parserNodeArgs scriptPath args =
     (if HasSuffix scriptPath ''.ts'' then ''--experimental-strip-types'' # args else args)"

abbreviation "maxWorkerStderrBytes \<equiv> 65536 :: nat"

definition stderr_Write :: "gostring \<Rightarrow> gostring \<Rightarrow> gostring" where
  "stderr_Write stderr p =
     (let remaining = int maxWorkerStderrBytes - int (length stderr) in
      if remaining \<le> 0 then stderr
      else stderr @ (if int (length p) > remaining then drop (length p - nat remaining) p else p))"

section \<open>Cache keys\<close>

definition nul :: char where
  "nul = CHR 0x00"

definition cache_payload :: "gostring \<Rightarrow> parser_config \<Rightarrow> gostring \<Rightarrow> gostring" where
  "cache_payload src cfg version =
     (let sourceEnhancement = (case cfg_SourceEnhancement cfg of
            None \<Rightarrow> defaultParserSourceEnhancementEnabled | Some b \<Rightarrow> b)
      in Join [src, Duration_String (cfg_Timeout cfg), Itoa (cfg_NodeMaxOldSpaceMB cfg), FormatBool sourceEnhancement,
               FormatBool (cfg_NeedSourceEnhancement cfg), version] [nul])"

definition version_key :: "gostring \<Rightarrow> gostring \<Rightarrow> gostring" where
  "version_key parserVersion mermaidVersion = parserVersion @ [nul] @ mermaidVersion"

definition cacheKeyForVersion :: "gostring \<Rightarrow> parser_config \<Rightarrow> gostring \<Rightarrow> gostring" where
  "cacheKeyForVersion src cfg version = EncodeToString (Sum256 (cache_payload src cfg version))"

text \<open>The last field of a text joined by a separator it does not contain.\<close>

lemma split_last_field:
  assumes "xs @ c # ys = xs' @ c # ys'" and "c \<notin> set ys" and "c \<notin> set ys'"
  shows "xs = xs' \<and> ys = ys'"
proof -
  have drop: "takeWhile (\<lambda>x. x \<noteq> c) (rev (us @ c # vs)) = rev vs" if "c \<notin> set vs" for us vs
    using that by (simp, subst takeWhile_append2) auto
  have "rev ys = rev ys'" using drop [OF assms(2), of xs] drop [OF assms(3), of xs'] assms(1) by simp
  then show ?thesis using assms(1) by simp
qed

lemma digit_not_nul: "digit_value nul = None"
  by (simp add: nul_def digit_value_def)

lemma Itoa_no_nul: "nul \<notin> set (Itoa i)"
  using nat_string_digits [of nul] digit_not_nul by (auto simp: Itoa_def nul_def)

lemma FormatBool_no_nul: "nul \<notin> set (FormatBool b)"
  by (simp add: FormatBool_def nul_def)

lemma fmtFrac_loop_digits:
  "c \<in> set (fst (snd (fmtFrac_loop i v print buf))) \<Longrightarrow> c \<in> set buf \<or> digit_value c \<noteq> None"
proof (induction i arbitrary: v print buf)
  case (Suc i)
  then show ?case by (fastforce simp: Let_def split: if_splits)
qed simp

lemma Duration_String_no_nul:
  assumes "Second \<le> d"
  shows "nul \<notin> set (Duration_String d)"
proof -
  have frac: "nul \<notin> set (fst (fmtFrac (nat d) 9 ''s''))"
    using fmtFrac_loop_digits [of nul 9 "nat d" False "''s''"] digit_not_nul
    by (auto simp: fmtFrac_def case_prod_beta nul_def split: if_splits)
  have num: "nul \<notin> set (nat_string n)" for n using nat_string_digits digit_not_nul by blast
  show ?thesis using assms frac num by (simp add: Duration_String_seconds seconds_string_def) (simp add: nul_def)
qed

lemma cache_payload_inject:
  assumes cfg: "config_bounded cfg" "config_bounded cfg'" and v: "nul \<notin> set pv" "nul \<notin> set mv" "nul \<notin> set pv'" "nul \<notin> set mv'"
    and eq: "cache_payload src cfg (version_key pv mv) = cache_payload src' cfg' (version_key pv' mv')"
  shows "src = src' \<and> cfg = cfg' \<and> pv = pv' \<and> mv = mv'"
proof -
  obtain b where b: "cfg_SourceEnhancement cfg = Some b" using cfg(1) by (auto simp: config_bounded_def)
  obtain b' where b': "cfg_SourceEnhancement cfg' = Some b'" using cfg(2) by (auto simp: config_bounded_def)
  let ?d = "Duration_String (cfg_Timeout cfg)" and ?d' = "Duration_String (cfg_Timeout cfg')"
  let ?m = "Itoa (cfg_NodeMaxOldSpaceMB cfg)" and ?m' = "Itoa (cfg_NodeMaxOldSpaceMB cfg')"
  let ?f = "FormatBool b" and ?f' = "FormatBool b'"
  let ?g = "FormatBool (cfg_NeedSourceEnhancement cfg)" and ?g' = "FormatBool (cfg_NeedSourceEnhancement cfg')"
  have sec: "Second \<le> cfg_Timeout cfg" "Second \<le> cfg_Timeout cfg'" using cfg by (simp_all add: config_bounded_def)
  have "(((((src @ nul # ?d) @ nul # ?m) @ nul # ?f) @ nul # ?g) @ nul # pv) @ nul # mv =
        (((((src' @ nul # ?d') @ nul # ?m') @ nul # ?f') @ nul # ?g') @ nul # pv') @ nul # mv'"
    using eq by (simp add: cache_payload_def version_key_def b b')
  note s1 = split_last_field [OF this v(2,4)]
  note s2 = split_last_field [OF conjunct1 [OF s1] v(1,3)]
  note s3 = split_last_field [OF conjunct1 [OF s2] FormatBool_no_nul FormatBool_no_nul]
  note s4 = split_last_field [OF conjunct1 [OF s3] FormatBool_no_nul FormatBool_no_nul]
  note s5 = split_last_field [OF conjunct1 [OF s4] Itoa_no_nul Itoa_no_nul]
  note s6 = split_last_field [OF conjunct1 [OF s5] Duration_String_no_nul [OF sec(1)] Duration_String_no_nul [OF sec(2)]]
  have "cfg = cfg'"
    using s3 s4 s5 Duration_String_inject [OF sec conjunct2 [OF s6]] b b'
    by (simp add: FormatBool_inject Itoa_inject parser_config.equality)
  with s1 s2 s6 show ?thesis by simp
qed

text \<open>
  The text hashed into a cache key determines the source, every setting that can change the
  result and both version strings, even for sources that contain the separator: two requests share
  a key only when they are the same request, unless SHA-256 collides on their two texts.
\<close>

theorem cache_payload_injective:
  assumes "config_bounded cfg" and "config_bounded cfg'"
    and "nul \<notin> set pv" and "nul \<notin> set mv" and "nul \<notin> set pv'" and "nul \<notin> set mv'"
  shows "cache_payload src cfg (version_key pv mv) = cache_payload src' cfg' (version_key pv' mv')
    \<longleftrightarrow> src = src' \<and> cfg = cfg' \<and> pv = pv' \<and> mv = mv'"
  using cache_payload_inject [OF assms] by blast

theorem cache_payload_injective_witness:
  "let cfg = EffectiveConfig DefaultConfig in
   cache_payload (''A'' @ [nul] @ ''5s'') cfg (version_key ''1'' ''11'') \<noteq> cache_payload ''A'' cfg (version_key ''1'' ''11'')"
proof -
  have "nul \<notin> set ''1''" "nul \<notin> set ''11''" by (simp_all add: nul_def)
  then show ?thesis unfolding Let_def
    by (subst cache_payload_injective [OF EffectiveConfig_bounded EffectiveConfig_bounded]) (simp_all add: nul_def)
qed

section \<open>What comes out\<close>

lemmas error_defs = sentinel_error_def execution_error_def wrap_error_def with_stderr_def timeout_error_def

definition classified :: "parse_error \<Rightarrow> bool" where
  "classified e \<longleftrightarrow> pe_is e \<noteq> [] \<and> (pe_metadata e \<noteq> None \<longleftrightarrow> ErrTimeout \<in> set (pe_is e) \<or> ErrMemoryLimit \<in> set (pe_is e))"

lemma mapParseResult_classified: "mapParseResult ord result src cfg = Inl e \<Longrightarrow> classified e"
  by (auto simp: mapParseResult_def Let_def classified_def error_defs split: if_splits option.splits)

lemma subprocess_classified: "subprocess_outcome ord decode run src cfg = Inl e \<Longrightarrow> classified e"
  by (auto simp: subprocess_outcome_def split: if_splits option.splits sum.splits dest!: mapParseResult_classified)
    (auto simp: classified_def error_defs)

lemma worker_do_error: "worker_do decode reqID io = Inl e \<Longrightarrow> pe_is e \<in> {[ErrSubprocess], [ErrDecode], [ErrContract]} \<and> pe_metadata e = None"
  by (auto simp: worker_do_def error_defs split: if_splits option.splits sum.splits)

text \<open>
  Every failure of the parser, on either execution path, can be told by \<^verbatim>\<open>errors.Is\<close> from at
  least one sentinel, and it carries metadata exactly when it is a timeout or a memory limit. A
  worker's answer is only accepted under the identifier of the request.
\<close>

theorem parser_failures_classified:
  assumes "subprocess_outcome ord decode run src cfg = Inl e
    \<or> (\<exists>err. worker_do decodeW reqID io = Inl err \<and> snd (worker_outcome ord (RequestFailed err) src cfg) = Inl e)
    \<or> (\<exists>resp. worker_do decodeW reqID io = Inr resp \<and> snd (worker_outcome ord (Responded resp) src cfg) = Inl e)
    \<or> snd (worker_outcome ord TimerFired src cfg) = Inl e"
  shows "pe_is e \<noteq> [] \<and> (snd (MetadataFromError e) \<longleftrightarrow> ErrTimeout \<in> set (pe_is e) \<or> ErrMemoryLimit \<in> set (pe_is e))"
proof -
  have "classified e"
    using assms
  proof (elim disjE exE conjE)
    fix err assume "worker_do decodeW reqID io = Inl err" "snd (worker_outcome ord (RequestFailed err) src cfg) = Inl e"
    then show ?thesis using worker_do_error [of decodeW reqID io err]
      by (auto simp: worker_outcome_def classified_def error_defs split: if_splits)
  next
    fix resp assume "snd (worker_outcome ord (Responded resp) src cfg) = Inl e"
    then show ?thesis
      by (auto simp: worker_outcome_def split: if_splits dest!: mapParseResult_classified) (auto simp: classified_def error_defs)
  next
    assume "snd (worker_outcome ord TimerFired src cfg) = Inl e"
    then show ?thesis by (auto simp: worker_outcome_def classified_def error_defs)
  qed (rule subprocess_classified)
  then show ?thesis by (auto simp: classified_def MetadataFromError_def split: option.split)
qed

definition example_run :: run_outcome where
  "example_run = \<lparr>run_err = Some ''exit status 134'', run_deadline = False, run_stdout = ''{}'',
                  run_stderr = ''FATAL ERROR: JavaScript heap out of memory''\<rparr>"

definition empty_result :: parse_result where
  "empty_result = \<lparr>pr_Valid = False, pr_DiagramType = [], pr_AST = None, pr_Error = None\<rparr>"

theorem parser_failures_classified_witness:
  "\<exists>e. subprocess_outcome (\<lambda>ks. ks) (\<lambda>_. Inr empty_result) example_run ''graph TD'' DefaultConfig = Inl e
     \<and> pe_is e = [ErrMemoryLimit] \<and> snd (MetadataFromError e)"
proof -
  let ?out = "subprocess_outcome (\<lambda>ks. ks) (\<lambda>_. Inr empty_result) example_run ''graph TD'' DefaultConfig"
  have "case ?out of Inl e \<Rightarrow> pe_is e = [ErrMemoryLimit] | Inr _ \<Rightarrow> False" by code_simp
  then obtain e where e: "?out = Inl e" "pe_is e = [ErrMemoryLimit]" by (auto split: sum.splits)
  have "snd (MetadataFromError e)" using parser_failures_classified [OF disjI1 [OF e(1)]] e(2) by simp
  with e show ?thesis by blast
qed

lemma mapParseResult_diagram:
  "(\<exists>d. mapParseResult ord result src cfg = Inr (Inl d)) \<longleftrightarrow> pr_Valid result \<and> pr_AST result \<noteq> None"
  by (auto simp: mapParseResult_def Let_def split: if_splits option.splits)

text \<open>
  A subprocess yields a diagram exactly when its output decodes to a valid result with a syntax
  tree, the run did not hit the deadline, and a non-zero exit is explained by a reported error that
  is not an internal one.
\<close>

theorem subprocess_yields_diagram_iff:
  "(\<exists>d. subprocess_outcome ord decode run src cfg = Inr (Inl d)) \<longleftrightarrow>
     \<not> (run_err run \<noteq> None \<and> run_deadline run) \<and>
     (\<exists>result. decode (run_stdout run) = Inr result \<and> pr_Valid result \<and> pr_AST result \<noteq> None \<and>
        (run_err run = None \<or>
         (\<exists>err. pr_Error result = Some err \<and> \<not> HasPrefix (ToLower (TrimSpace (se_Message err))) internal_error_prefix)))"
  using mapParseResult_diagram [of ord _ src cfg]
  by (auto simp: subprocess_outcome_def split: if_splits option.splits sum.splits)

text \<open>
  The captured standard error never exceeds its limit. A chunk that does not fit loses its start and
  keeps its end; every later chunk is dropped.
\<close>

lemma stderr_Write_bound: "length stderr \<le> maxWorkerStderrBytes \<Longrightarrow> length (stderr_Write stderr p) \<le> maxWorkerStderrBytes"
  by (auto simp: stderr_Write_def Let_def)

lemma worker_stderr_bounded: "length (foldl stderr_Write [] chunks) \<le> maxWorkerStderrBytes"
  by (induction chunks rule: rev_induct) (simp_all add: stderr_Write_bound)

end
