(* ===== verification/Single_Flight.thy ===== *)
theory Single_Flight
  imports Parser_Results
begin

text \<open>
  \<^verbatim>\<open>Parser.parseWithConfig\<close>: concurrent requests for the same cache key share one run of the
  parser. The sections under \<^verbatim>\<open>inflightMu\<close> and the operations of the cache are steps;
  goroutines are anonymous, as in the worker pool. A flight is named by a number; what it
  publishes when its channel is closed is kept under that name. What the parser makes of the
  request behind a key is a relation, since a run can time out or fail: \<open>backend k o\<close> says that
  the outcome \<open>o\<close> is possible for the key \<open>k\<close>.
\<close>

section \<open>The parser's state\<close>

record parser_state =
  ps_closed :: bool
  ps_cache :: parse_cache
  ps_inflight :: "(gostring, nat) gomap"
  ps_done :: "(nat, parse_outcome) gomap"
  ps_next :: nat

definition closed_error :: parse_error where
  "closed_error = sentinel_error ErrSubprocess ''parser is closed''"

text \<open>Under the lock: join the flight of the key, or start one.\<close>

definition claim :: "gostring \<Rightarrow> parser_state \<Rightarrow> (nat + nat) \<times> parser_state" where
  "claim k s =
     (case map_of (ps_inflight s) k of
        Some f \<Rightarrow> (Inl f, s)
      | None \<Rightarrow> (Inr (ps_next s), s\<lparr>ps_inflight := AList.update k (ps_next s) (ps_inflight s), ps_next := Suc (ps_next s)\<rparr>))"

text \<open>A diagram and a syntax error are stored, a failure is not.\<close>

definition store_outcome ::
  "(diagram \<Rightarrow> gostring option) \<Rightarrow> (syntax_error \<Rightarrow> gostring option) \<Rightarrow> int \<Rightarrow> gostring \<Rightarrow> parse_outcome
     \<Rightarrow> parser_state \<Rightarrow> parser_state" where
  "store_outcome md ms now k out s =
     (case out of
        Inl _ \<Rightarrow> s
      | Inr (Inl diagram) \<Rightarrow> s\<lparr>ps_cache := fst (putSuccess md now k diagram (ps_cache s))\<rparr>
      | Inr (Inr syntaxErr) \<Rightarrow> s\<lparr>ps_cache := fst (putSyntax ms now k syntaxErr (ps_cache s))\<rparr>)"

definition publish :: "gostring \<Rightarrow> nat \<Rightarrow> parse_outcome \<Rightarrow> parser_state \<Rightarrow> parser_state" where
  "publish k f out s =
     s\<lparr>ps_done := AList.update f out (ps_done s), ps_inflight := AList.delete k (ps_inflight s)\<rparr>"

text \<open>
  The whole function as one goroutine runs it, with the outcome of the parser as an argument;
  without a cache key neither the cache nor the flights are used. A goroutine that joins a flight
  whose outcome is not yet published blocks, which is \<open>None\<close>.
\<close>

definition parseWithConfig ::
  "(diagram \<Rightarrow> gostring option) \<Rightarrow> (syntax_error \<Rightarrow> gostring option) \<Rightarrow> int \<Rightarrow> int \<Rightarrow> gostring option
     \<Rightarrow> parse_outcome \<Rightarrow> parser_state \<Rightarrow> parse_outcome option \<times> parser_state" where
  "parseWithConfig md ms now later cacheKey run s =
     (if ps_closed s then (Some (Inl closed_error), s)
      else case cacheKey of
        None \<Rightarrow> (Some run, s)
      | Some k \<Rightarrow>
          let (hit, cache, events) = cache_get now k (ps_cache s); s = s\<lparr>ps_cache := cache\<rparr> in
          case hit of
            Some v \<Rightarrow> (Some (Inr v), s)
          | None \<Rightarrow>
              (case claim k s of
                 (Inl f, s) \<Rightarrow> (map_of (ps_done s) f, s)
               | (Inr f, s) \<Rightarrow> (Some run, publish k f run (store_outcome md ms later k run s))))"

definition new_parser_state :: "cache_config \<Rightarrow> parser_state" where
  "new_parser_state cfg =
     \<lparr>ps_closed = False, ps_cache = newParseCache cfg, ps_inflight = [], ps_done = [], ps_next = 0\<rparr>"

section \<open>Concurrent requests\<close>

text \<open>
  Before the cache is asked, after a miss, waiting for a flight, running the parser, with an outcome
  that is stored but not yet published, and back at the caller.
\<close>

datatype request =
  Asking gostring | Missed gostring | Joined gostring nat | Running gostring nat
| Finished gostring nat parse_outcome | Answered gostring parse_outcome

inductive flight_step ::
  "(gostring \<Rightarrow> parse_outcome \<Rightarrow> bool) \<Rightarrow> (diagram \<Rightarrow> gostring option) \<Rightarrow> (syntax_error \<Rightarrow> gostring option)
     \<Rightarrow> parser_state \<times> request multiset \<Rightarrow> parser_state \<times> request multiset \<Rightarrow> bool"
  for backend md ms where
  request: "\<not> ps_closed s \<Longrightarrow> flight_step backend md ms (s, M) (s, add_mset (Asking k) M)"
| refuse: "ps_closed s \<Longrightarrow> flight_step backend md ms (s, M) (s, add_mset (Answered k (Inl closed_error)) M)"
| hit: "cache_get now k (ps_cache s) = (Some v, c, ev) \<Longrightarrow>
    flight_step backend md ms (s, add_mset (Asking k) M) (s\<lparr>ps_cache := c\<rparr>, add_mset (Answered k (Inr v)) M)"
| miss: "cache_get now k (ps_cache s) = (None, c, ev) \<Longrightarrow>
    flight_step backend md ms (s, add_mset (Asking k) M) (s\<lparr>ps_cache := c\<rparr>, add_mset (Missed k) M)"
| join: "claim k s = (Inl f, s') \<Longrightarrow>
    flight_step backend md ms (s, add_mset (Missed k) M) (s', add_mset (Joined k f) M)"
| lead: "claim k s = (Inr f, s') \<Longrightarrow>
    flight_step backend md ms (s, add_mset (Missed k) M) (s', add_mset (Running k f) M)"
| finish: "backend k out \<Longrightarrow>
    flight_step backend md ms (s, add_mset (Running k f) M) (store_outcome md ms now k out s, add_mset (Finished k f out) M)"
| publish: "flight_step backend md ms (s, add_mset (Finished k f out) M) (publish k f out s, add_mset (Answered k out) M)"
| wake: "map_of (ps_done s) f = Some out \<Longrightarrow>
    flight_step backend md ms (s, add_mset (Joined k f) M) (s, add_mset (Answered k out) M)"
| shut: "flight_step backend md ms (s, M) (s\<lparr>ps_closed := True\<rparr>, M)"

section \<open>The invariant\<close>

definition leads :: "request \<Rightarrow> (gostring \<times> nat) multiset" where
  "leads r = (case r of Running k f \<Rightarrow> {#(k, f)#} | Finished k f out \<Rightarrow> {#(k, f)#} | _ \<Rightarrow> {#})"

definition leaders :: "request multiset \<Rightarrow> (gostring \<times> nat) multiset" where
  "leaders M = \<Sum>\<^sub># (image_mset leads M)"

text \<open>Every flight has one leader, and flights have names of their own, not yet published.\<close>

definition flights_inv :: "parser_state \<Rightarrow> request multiset \<Rightarrow> bool" where
  "flights_inv s M \<longleftrightarrow> leaders M = mset (ps_inflight s) \<and> distinct (gm_keys (ps_inflight s))
     \<and> distinct (map snd (ps_inflight s))
     \<and> (\<forall>k f. (k, f) \<in> set (ps_inflight s) \<longrightarrow> f < ps_next s \<and> map_of (ps_done s) f = None)
     \<and> (\<forall>f. map_of (ps_done s) f \<noteq> None \<longrightarrow> f < ps_next s)"

definition cache_sound :: "(gostring \<Rightarrow> parse_outcome \<Rightarrow> bool) \<Rightarrow> parse_cache \<Rightarrow> bool" where
  "cache_sound backend c \<longleftrightarrow> parse_inv c
     \<and> (\<forall>k e. map_of (lru_entries (pc_success c)) k = Some e \<longrightarrow> backend k (Inr (Inl (ent_value e))))
     \<and> (\<forall>k e. map_of (lru_entries (pc_syntax c)) k = Some e \<longrightarrow> backend k (Inr (Inr (ent_value e))))"

definition request_ok :: "(gostring \<Rightarrow> parse_outcome \<Rightarrow> bool) \<Rightarrow> parser_state \<Rightarrow> request \<Rightarrow> bool" where
  "request_ok backend s r =
     (case r of
        Joined k f \<Rightarrow> (k, f) \<in> set (ps_inflight s) \<or> (\<exists>out. map_of (ps_done s) f = Some out \<and> backend k out)
      | Finished k f out \<Rightarrow> backend k out
      | Answered k out \<Rightarrow> backend k out \<or> out = Inl closed_error
      | _ \<Rightarrow> True)"

definition flight_inv :: "(gostring \<Rightarrow> parse_outcome \<Rightarrow> bool) \<Rightarrow> parser_state \<times> request multiset \<Rightarrow> bool" where
  "flight_inv backend sm \<longleftrightarrow> flights_inv (fst sm) (snd sm) \<and> cache_sound backend (ps_cache (fst sm))
     \<and> (\<forall>r\<in>#snd sm. request_ok backend (fst sm) r)"

lemma leaders_simps [simp]:
  "leaders {#} = {#}" "leaders (add_mset r M) = leads r + leaders M"
  by (simp_all add: leaders_def)

lemma leads_simps [simp]:
  "leads (Asking k) = {#}" "leads (Missed k) = {#}" "leads (Joined k f) = {#}" "leads (Running k f) = {#(k, f)#}"
  "leads (Finished k f out) = {#(k, f)#}" "leads (Answered k out) = {#}"
  by (simp_all add: leads_def)

lemma request_ok_simps [simp]:
  "request_ok backend s (Asking k)" "request_ok backend s (Missed k)" "request_ok backend s (Running k f)"
  "request_ok backend s (Joined k f) \<longleftrightarrow> (k, f) \<in> set (ps_inflight s) \<or> (\<exists>out. map_of (ps_done s) f = Some out \<and> backend k out)"
  "request_ok backend s (Finished k f out) \<longleftrightarrow> backend k out"
  "request_ok backend s (Answered k out) \<longleftrightarrow> backend k out \<or> out = Inl closed_error"
  by (simp_all add: request_ok_def)

lemma lru_Get_entries:
  assumes "lru_inv c" and "map_of (lru_entries (snd (lru_Get now k c))) x = Some e"
  shows "map_of (lru_entries c) x = Some e"
  using assms(2) by (cases rule: lru_Get_cases [OF assms(1), of now k])
    (auto simp: pruned_def split: option.splits if_splits)

lemma SetWeighted_entries:
  assumes "lru_inv c" and "map_of (lru_entries (snd (SetWeighted now k v w c))) x = Some e"
  shows "x = k \<and> ent_value e = v \<or> map_of (lru_entries c) x = Some e"
proof (cases "lru_disabled c")
  case False
  from SetWeighted_written [OF assms(1) False] obtain c' where p: "pruned now c c'"
    and wr: "written now k v c' (snd (SetWeighted now k v w c))" .
  show ?thesis
  proof (cases "x = k")
    case True
    then show ?thesis using wr assms(2) by (simp add: written_def)
  next
    case False
    then have "map_of (lru_entries c') x = Some e"
      using wr assms(2) unfolding written_def by (metis empty_iff insert_iff option.distinct(1))
    then show ?thesis using p by (auto simp: pruned_def split: option.splits if_splits)
  qed
qed (use assms in \<open>simp add: SetWeighted_def\<close>)

lemma cache_sound_get:
  assumes "cache_sound backend c" and "cache_get now k c = (hit, c', ev)"
  shows "cache_sound backend c'" and "hit = Some v \<Longrightarrow> backend k (Inr v)"
proof -
  have inv: "parse_inv c" "lru_inv (pc_success c)" "lru_inv (pc_syntax c)"
    using assms(1) by (simp_all add: cache_sound_def parse_inv_def)
  have c': "c' = c\<lparr>pc_success := snd (lru_Get now k (pc_success c))\<rparr> \<or>
      c' = c\<lparr>pc_success := snd (lru_Get now k (pc_success c)), pc_syntax := snd (lru_Get now k (pc_syntax c))\<rparr>"
    and hit: "hit = parse_lookup now c k"
    using cache_get_cases [OF inv(1), of now k] assms(2) by simp_all
  have "parse_inv c'" using cache_get_facts(1) [OF inv(1) order_refl, of now k] assms(2) by simp
  then show "cache_sound backend c'"
    using c' assms(1) lru_Get_entries [OF inv(2)] lru_Get_entries [OF inv(3)] by (auto simp: cache_sound_def)
  assume "hit = Some v"
  with hit assms(1) show "backend k (Inr v)"
    by (auto simp: parse_lookup_def lru_lookup_def cache_sound_def split: option.splits if_splits)
qed

lemma cache_sound_put:
  assumes "cache_sound backend c" and "backend k (Inr v)"
  shows "cache_sound backend (cache_put md ms now k v c)"
proof -
  have inv: "parse_inv c" "lru_inv (pc_success c)" "lru_inv (pc_syntax c)"
    using assms(1) by (simp_all add: cache_sound_def parse_inv_def)
  show ?thesis
  proof (cases v)
    case (Inl d)
    show ?thesis using assms cache_put_inv [OF inv(1), of md ms now k v] lru_Delete_facts(4) [OF inv(3), of k]
      by (auto simp: Inl cache_sound_def cache_put_simps split: if_splits dest!: SetWeighted_entries [OF inv(2)])
  next
    case (Inr e)
    show ?thesis using assms cache_put_inv [OF inv(1), of md ms now k v] lru_Delete_facts(4) [OF inv(2), of k]
      by (auto simp: Inr cache_sound_def cache_put_simps split: if_splits dest!: SetWeighted_entries [OF inv(3)])
  qed
qed

text \<open>How the parts of the state change the parts of the invariant.\<close>

lemma update_absent: "map_of m k = None \<Longrightarrow> AList.update k v m = m @ [(k, v)]"
  by (induction m) auto

lemma delete_present:
  assumes "distinct (gm_keys m)" and "(k, v) \<in> set m"
  shows "AList.delete k m = remove1 (k, v) m"
  using assms
proof (induction m)
  case (Cons a m)
  show ?case
  proof (cases "a = (k, v)")
    case True
    then have "k \<notin> fst ` set m" using Cons.prems by (simp add: gm_keys_def)
    then show ?thesis using True by (simp add: delete_id)
  next
    case False
    then have m: "(k, v) \<in> set m" using Cons.prems(2) by simp
    then have "k \<in> fst ` set m" by (metis fst_conv image_eqI)
    then have "fst a \<noteq> k" using Cons.prems(1) by (auto simp: gm_keys_def)
    with m show ?thesis using Cons False by (cases a) (simp add: gm_keys_def)
  qed
qed simp

lemma claim_lead_inv:
  assumes "flights_inv s M" and "claim k s = (Inr f, s')"
  shows "flights_inv s' (add_mset (Running k f) M)" "f = ps_next s"
    "set (ps_inflight s') = insert (k, f) (set (ps_inflight s))" "ps_done s' = ps_done s" "ps_cache s' = ps_cache s"
proof -
  have none: "map_of (ps_inflight s) k = None" and f: "f = ps_next s"
    and s': "s' = s\<lparr>ps_inflight := ps_inflight s @ [(k, f)], ps_next := Suc f\<rparr>"
    using assms(2) by (auto simp: claim_def update_absent split: option.splits)
  have fresh: "k \<notin> set (gm_keys (ps_inflight s))" "f \<notin> snd ` set (ps_inflight s)"
    using none assms(1) by (force simp: set_gm_keys flights_inv_def f domIff)+
  show "flights_inv s' (add_mset (Running k f) M)"
    using assms(1) fresh f by (auto simp: flights_inv_def s' gm_keys_def less_SucI)
  show "f = ps_next s" "set (ps_inflight s') = insert (k, f) (set (ps_inflight s))" "ps_done s' = ps_done s" "ps_cache s' = ps_cache s"
    by (simp_all add: f s')
qed

lemma publish_inv:
  assumes inv: "flights_inv s (add_mset (Finished k f out) M)"
  shows "flights_inv (publish k f out s) M" "(k, f) \<in> set (ps_inflight s)"
    "set (ps_inflight (publish k f out s)) = set (ps_inflight s) - {(k, f)}"
    "map_of (ps_done (publish k f out s)) = (map_of (ps_done s))(f \<mapsto> out)"
proof -
  have lead: "add_mset (k, f) (leaders M) = mset (ps_inflight s)" and dis: "distinct (gm_keys (ps_inflight s))"
    "distinct (map snd (ps_inflight s))"
    using inv by (simp_all add: flights_inv_def)
  show kf: "(k, f) \<in> set (ps_inflight s)" using lead by (metis set_mset_mset union_single_eq_member)
  have del: "mset (AList.delete k (ps_inflight s)) = leaders M" 
    using delete_present [OF dis(1) kf] lead by (metis add_mset_remove_trivial mset_remove1)
  have "distinct (ps_inflight s)" using dis(1) by (simp add: gm_keys_def distinct_map)
  then have set: "set (AList.delete k (ps_inflight s)) = set (ps_inflight s) - {(k, f)}"
    using delete_present [OF dis(1) kf] by simp
  show "set (ps_inflight (publish k f out s)) = set (ps_inflight s) - {(k, f)}"
    "map_of (ps_done (publish k f out s)) = (map_of (ps_done s))(f \<mapsto> out)"
    by (simp_all add: publish_def set update_conv')
  have other: "f' \<noteq> f" if "(k', f') \<in> set (ps_inflight s) - {(k, f)}" for k' f'
    using that dis(2) kf unfolding distinct_map inj_on_def by (metis DiffD1 DiffD2 singletonI snd_conv)
  have "distinct (gm_keys (AList.delete k (ps_inflight s)))" using dis(1) by (simp add: gm_keys_def distinct_delete)
  moreover have "distinct (map snd (AList.delete k (ps_inflight s)))"
    using dis(2) by (simp add: AList.delete_eq distinct_map_filter)
  moreover have "f < ps_next s" using inv kf by (auto simp: flights_inv_def)
  moreover have "f' < ps_next s \<and> map_of (ps_done s) f' = None" if "(k', f') \<in> set (ps_inflight s)" for k' f'
    using inv that by (auto simp: flights_inv_def)
  moreover have "\<forall>f. map_of (ps_done s) f \<noteq> None \<longrightarrow> f < ps_next s" using inv by (simp add: flights_inv_def)
  moreover have "\<forall>k'. (k', f) \<in> set (ps_inflight s) \<longrightarrow> k' = k" using other by blast
  ultimately show "flights_inv (publish k f out s) M"
    unfolding flights_inv_def publish_def by (simp add: set update_conv' del)
qed

lemma store_outcome_frame [simp]:
  "ps_inflight (store_outcome md ms now k out s) = ps_inflight s" "ps_done (store_outcome md ms now k out s) = ps_done s"
  "ps_next (store_outcome md ms now k out s) = ps_next s"
  by (auto simp: store_outcome_def split: sum.split)

lemma store_outcome_cache:
  "ps_cache (store_outcome md ms now k out s) =
     (case out of Inl _ \<Rightarrow> ps_cache s | Inr v \<Rightarrow> cache_put md ms now k v (ps_cache s))"
  by (auto simp: store_outcome_def cache_put_def split: sum.split)

lemma request_ok_frame:
  "ps_inflight s' = ps_inflight s \<Longrightarrow> ps_done s' = ps_done s \<Longrightarrow> request_ok backend s' r = request_ok backend s r"
  by (cases r) simp_all

lemma flights_inv_frame:
  "flights_inv s M \<Longrightarrow> ps_inflight s' = ps_inflight s \<Longrightarrow> ps_done s' = ps_done s \<Longrightarrow> ps_next s' = ps_next s \<Longrightarrow>
   leaders M' = leaders M \<Longrightarrow> flights_inv s' M'"
  by (simp add: flights_inv_def)

lemma flight_step_inv:
  assumes "flight_step backend md ms sm sm'" and "flight_inv backend sm"
  shows "flight_inv backend sm'"
  using assms
proof (cases rule: flight_step.cases)
  case (request s M k)
  then show ?thesis using assms(2) by (simp add: flight_inv_def flights_inv_def)
next
  case (refuse s M k)
  then show ?thesis using assms(2) by (simp add: flight_inv_def flights_inv_def)
next
  case (hit now k s v c ev M)
  then show ?thesis using assms(2) cache_sound_get(1) [of backend "ps_cache s" now k "Some v" c ev] cache_sound_get(2) [of backend "ps_cache s" now k "Some v" c ev v]
    by (auto simp: flight_inv_def flights_inv_def request_ok_frame [of "s\<lparr>ps_cache := c\<rparr>" s])
next
  case (miss now k s c ev M)
  then show ?thesis using assms(2) cache_sound_get(1) [of backend "ps_cache s" now k None c ev]
    by (auto simp: flight_inv_def flights_inv_def request_ok_frame [of "s\<lparr>ps_cache := c\<rparr>" s])
next
  case (join k s f s' M)
  then have "s' = s" "(k, f) \<in> set (ps_inflight s)" by (auto simp: claim_def map_of_SomeD split: option.splits)
  then show ?thesis using assms(2) join by (simp add: flight_inv_def flights_inv_def)
next
  case (lead k s f s' M)
  have inv: "flights_inv s M" using assms(2) lead by (simp add: flight_inv_def flights_inv_def)
  note c = claim_lead_inv [OF inv lead(3)]
  have "request_ok backend s' r" if "request_ok backend s r" for r using that c(3,4) by (cases r) auto
  then show ?thesis using assms(2) lead c(1,5) by (simp add: flight_inv_def)
next
  case (finish k out s f M now)
  let ?s = "store_outcome md ms now k out s"
  have "cache_sound backend (ps_cache ?s)"
    using assms(2) finish cache_sound_put [of backend "ps_cache s" k _ md ms now]
    by (auto simp: flight_inv_def store_outcome_cache split: sum.split)
  then show ?thesis using assms(2) finish by (simp add: flight_inv_def flights_inv_def request_ok_frame [of ?s s])
next
  case (publish s k f out M)
  have inv: "flights_inv s (add_mset (Finished k f out) M)" and out: "backend k out"
    using assms(2) publish by (simp_all add: flight_inv_def)
  note p = publish_inv [OF inv]
  have "request_ok backend (publish k f out s) r" if ok: "request_ok backend s r" for r
  proof (cases r)
    case (Joined k' f')
    show ?thesis
    proof (cases "(k', f') \<in> set (ps_inflight s)")
      case True
      moreover have "k' = k" if "f' = f"
        using True p(2) that inv unfolding flights_inv_def distinct_map inj_on_def by (metis fst_conv snd_conv)
      ultimately show ?thesis using Joined p(3,4) out by auto
    next
      case False
      then obtain out' where o': "map_of (ps_done s) f' = Some out'" "backend k' out'" using ok Joined by auto
      then have "f' \<noteq> f" using p(2) inv by (auto simp: flights_inv_def)
      with o' Joined p(4) show ?thesis by simp
    qed
  qed (use ok in simp_all)
  moreover have "flights_inv (publish k f out s) (add_mset (Answered k out) M)" using p(1) by (simp add: flights_inv_def)
  moreover have "ps_cache (publish k f out s) = ps_cache s" by (simp add: publish_def)
  ultimately show ?thesis using assms(2) publish out by (simp add: flight_inv_def)
next
  case (wake s f out k M)
  have "request_ok backend s (Joined k f)" using assms(2) wake by (simp add: flight_inv_def)
  moreover have "(k, f) \<notin> set (ps_inflight s)" using assms(2) wake by (auto simp: flight_inv_def flights_inv_def)
  ultimately have "backend k out" using wake by simp
  then show ?thesis using assms(2) wake by (simp add: flight_inv_def flights_inv_def)
next
  case (shut s M)
  then show ?thesis using assms(2)
    by (simp add: flight_inv_def flights_inv_def request_ok_frame [of "s\<lparr>ps_closed := True\<rparr>" s])
qed

lemma flight_reachable_inv:
  "(flight_step backend md ms)\<^sup>*\<^sup>* (new_parser_state cfg, {#}) sm \<Longrightarrow> flight_inv backend sm"
proof (induction rule: rtranclp_induct)
  case base
  have "parse_inv (newParseCache cfg)" using newParseCache_ok(1) [of cfg] by (simp add: parse_ok_def)
  then show ?case
    by (simp add: flight_inv_def flights_inv_def new_parser_state_def cache_sound_def)
      (simp add: newParseCache_def newLRUTTLCache_def Let_def)
next
  case (step sm sm')
  then show ?case using flight_step_inv by blast
qed

definition leads_key :: "gostring \<Rightarrow> request \<Rightarrow> bool" where
  "leads_key k r = (case r of Running k' f \<Rightarrow> k' = k | Finished k' f out \<Rightarrow> k' = k | _ \<Rightarrow> False)"

lemma leaders_of_key: "size (filter_mset (leads_key k) M) = size (filter_mset (\<lambda>x. fst x = k) (leaders M))"
proof (induction M)
  case (add r M)
  then show ?case by (cases r) (auto simp: leads_key_def)
qed simp

lemma distinct_keys_once: "distinct (gm_keys m) \<Longrightarrow> length (filter (\<lambda>x. fst x = k) m) \<le> 1"
proof (induction m)
  case (Cons a m)
  then have IH: "length (filter (\<lambda>x. fst x = k) m) \<le> 1" by (simp add: gm_keys_def)
  have "filter (\<lambda>x. fst x = fst a) m = []" using Cons.prems by (auto simp: gm_keys_def filter_empty_conv image_iff)
  with IH show ?case by (cases "fst a = k") auto
qed simp

text \<open>
  C16: for each key at most one goroutine runs the parser, however requests interleave; and everyone
  who is answered gets an outcome the parser gave for the key of the request, through the cache,
  from the flight, or directly, unless the parser was already closed.
\<close>

theorem single_flight_safe:
  assumes "(flight_step backend md ms)\<^sup>*\<^sup>* (new_parser_state cfg, {#}) (s, M)"
  shows "size (filter_mset (leads_key k) M) \<le> 1
    \<and> (Answered k out \<in># M \<longrightarrow> backend k out \<or> out = Inl closed_error)"
proof -
  have inv: "flight_inv backend (s, M)" by (rule flight_reachable_inv [OF assms])
  have lead: "leaders M = mset (ps_inflight s)" and dis: "distinct (gm_keys (ps_inflight s))"
    using inv by (simp_all add: flight_inv_def flights_inv_def)
  have "size (filter_mset (leads_key k) M) = length (filter (\<lambda>x. fst x = k) (ps_inflight s))"
    by (simp add: leaders_of_key lead flip: mset_filter size_mset)
  moreover have "\<dots> \<le> 1" by (rule distinct_keys_once [OF dis])
  moreover have "backend k out \<or> out = Inl closed_error" if "Answered k out \<in># M"
    using inv that by (auto simp: flight_inv_def dest!: bspec)
  ultimately show ?thesis by simp
qed

text \<open>
  Nobody waits for a flight that has no pilot. A goroutine that joined a flight either finds its
  outcome published, one the parser gave for the same key, or another goroutine is still running the
  parser for that very flight and will publish.
\<close>

theorem single_flight_no_stranded_waiter:
  assumes "(flight_step backend md ms)\<^sup>*\<^sup>* (new_parser_state cfg, {#}) (s, M)" and "Joined k f \<in># M"
  shows "(\<exists>out. map_of (ps_done s) f = Some out \<and> backend k out)
    \<or> Running k f \<in># M \<or> (\<exists>out. Finished k f out \<in># M)"
proof -
  have inv: "flight_inv backend (s, M)" by (rule flight_reachable_inv [OF assms(1)])
  have "request_ok backend s (Joined k f)" using inv assms(2) by (metis flight_inv_def fst_conv snd_conv)
  moreover have "Running k f \<in># M \<or> (\<exists>out. Finished k f out \<in># M)" if "(k, f) \<in> set (ps_inflight s)"
  proof -
    have "leaders M = mset (ps_inflight s)" using inv by (simp add: flight_inv_def flights_inv_def)
    with that have "(k, f) \<in># leaders M" by simp
    then obtain r where "r \<in># M" "(k, f) \<in># leads r" by (auto simp: leaders_def)
    then show ?thesis by (cases r) auto
  qed
  ultimately show ?thesis by auto
qed

section \<open>One request after another\<close>

lemma store_outcome_closed [simp]: "ps_closed (store_outcome md ms now k out s) = ps_closed s"
  by (auto simp: store_outcome_def split: sum.split)

lemma publish_frame [simp]: "ps_closed (publish k f out s) = ps_closed s" "ps_cache (publish k f out s) = ps_cache s"
  by (simp_all add: publish_def)

lemma lookup_stays_absent: "parse_lookup now c k = None \<Longrightarrow> now \<le> t \<Longrightarrow> parse_lookup t c k = None"
  by (auto simp: parse_lookup_def lru_lookup_def split: option.splits if_splits)

text \<open>A request that misses: it leads a flight of its own and returns what the parser gave.\<close>

lemma parseWithConfig_miss:
  assumes "\<not> ps_closed s" and "parse_inv (ps_cache s)" and "parse_lookup now (ps_cache s) k = None"
    and "map_of (ps_inflight s) k = None"
  obtains c f s1 where "parseWithConfig md ms now later (Some k) out s = (Some out, publish k f out (store_outcome md ms later k out s1))"
    and "ps_cache s1 = c" and "\<not> ps_closed s1" and "ps_inflight s1 = ps_inflight s @ [(k, f)]"
    and "c = fst (snd (cache_get now k (ps_cache s)))"
proof -
  obtain c ev where get: "cache_get now k (ps_cache s) = (None, c, ev)"
    using cache_get_cases(1) [OF assms(2), of now k] assms(3) by (metis prod_cases3 fst_conv)
  define f where "f = ps_next s"
  define s1 where "s1 = s\<lparr>ps_cache := c, ps_inflight := ps_inflight s @ [(k, f)], ps_next := Suc f\<rparr>"
  have claim: "claim k (s\<lparr>ps_cache := c\<rparr>) = (Inr f, s1)" using assms(4) by (simp add: claim_def s1_def f_def update_absent)
  show thesis using assms(1) get claim by (intro that [of f s1 c]) (simp_all add: parseWithConfig_def s1_def)
qed

lemma flight_over:
  assumes "map_of (ps_inflight s) k = None" and "ps_inflight s1 = ps_inflight s @ [(k, f)]"
  shows "map_of (ps_inflight (publish k f out (store_outcome md ms later k out s1))) k = None"
  using assms by (simp add: publish_def AList.delete_conv')

text \<open>
  A failure is never remembered: after a request whose run failed, the next request for the key
  runs the parser again and returns what that run gives.
\<close>

theorem parseWithConfig_forgets_failures:
  assumes "\<not> ps_closed s" and "parse_inv (ps_cache s)" and "parse_lookup now (ps_cache s) k = None"
    and "map_of (ps_inflight s) k = None" and "now \<le> t"
  shows "fst (parseWithConfig md ms now later (Some k) (Inl e) s) = Some (Inl e)
    \<and> fst (parseWithConfig md ms t t' (Some k) run (snd (parseWithConfig md ms now later (Some k) (Inl e) s))) = Some run"
proof -
  from parseWithConfig_miss [OF assms(1-4), of md ms later "Inl e"] obtain c f s1 where
    first: "parseWithConfig md ms now later (Some k) (Inl e) s = (Some (Inl e), publish k f (Inl e) (store_outcome md ms later k (Inl e) s1))"
    and s1: "ps_cache s1 = c" "\<not> ps_closed s1" "ps_inflight s1 = ps_inflight s @ [(k, f)]"
    and c: "c = fst (snd (cache_get now k (ps_cache s)))" .
  define s2 where "s2 = publish k f (Inl e) (store_outcome md ms later k (Inl e) s1)"
  have cache: "ps_cache s2 = c" using s1(1) by (simp add: s2_def store_outcome_def)
  have "parse_inv c" "parse_lookup t c k = parse_lookup t (ps_cache s) k"
    using cache_get_facts(1,2) [OF assms(2,5)] c by simp_all
  moreover have "parse_lookup t (ps_cache s) k = None" by (rule lookup_stays_absent [OF assms(3,5)])
  moreover have "\<not> ps_closed s2" using s1(2) by (simp add: s2_def)
  ultimately obtain c' f' s1' where "parseWithConfig md ms t t' (Some k) run s2 =
      (Some run, publish k f' run (store_outcome md ms t' k run s1'))"
    using parseWithConfig_miss [of s2 t k md ms t' run] flight_over [OF assms(4) s1(3)] cache unfolding s2_def by metis
  then show ?thesis using first by (simp add: s2_def)
qed

text \<open>
  A diagram that fits the cache is remembered: until its time to live is over, the next request
  for the key returns it whatever a new run of the parser would give.
\<close>

theorem parseWithConfig_remembers_diagrams:
  assumes "\<not> ps_closed s" and "parse_inv (ps_cache s)" and "parse_lookup now (ps_cache s) k = None"
    and "map_of (ps_inflight s) k = None" and "now \<le> later" and "later \<le> t"
    and "\<not> lru_disabled (pc_success (ps_cache s))"
    and "lru_maxBytes (pc_success (ps_cache s)) > 0 \<longrightarrow> estimatedEntryBytes md d \<le> lru_maxBytes (pc_success (ps_cache s))"
    and "t < later + lru_ttl (pc_success (ps_cache s))"
  shows "fst (parseWithConfig md ms now later (Some k) (Inr (Inl d)) s) = Some (Inr (Inl d))
    \<and> fst (parseWithConfig md ms t t' (Some k) run (snd (parseWithConfig md ms now later (Some k) (Inr (Inl d)) s)))
        = Some (Inr (Inl d))"
proof -
  from parseWithConfig_miss [OF assms(1-4), of md ms later "Inr (Inl d)"] obtain c f s1 where
    first: "parseWithConfig md ms now later (Some k) (Inr (Inl d)) s =
      (Some (Inr (Inl d)), publish k f (Inr (Inl d)) (store_outcome md ms later k (Inr (Inl d)) s1))"
    and s1: "ps_cache s1 = c" "\<not> ps_closed s1"
    and c: "c = fst (snd (cache_get now k (ps_cache s)))" .
  define s2 where "s2 = publish k f (Inr (Inl d)) (store_outcome md ms later k (Inr (Inl d)) s1)"
  have inv: "parse_inv c" using cache_get_facts(1) [OF assms(2) order_refl] c by simp
  have success: "pc_success c = snd (lru_Get now k (pc_success (ps_cache s)))"
    using cache_get_cases(2) [OF assms(2), of now k] c by auto
  have "lru_inv (pc_success (ps_cache s))" using assms(2) by (simp add: parse_inv_def)
  then have lim: "lru_same_limits (pc_success (ps_cache s)) (pc_success c)" unfolding success by (rule lru_Get_limits(1))
  have put: "ps_cache s2 = cache_put md ms later k (Inl d) c" using s1(1) by (simp add: s2_def store_outcome_cache)
  have "fst (fst (lru_Get t k (snd (SetWeighted later k d (estimatedEntryBytes md d) (pc_success c))))) = Some d"
    using inv lim lru_disabled_limits [OF lim] assms(6-9)
    by (intro SetWeighted_get) (simp_all add: parse_inv_def lru_same_limits_def)
  then have "fst (cache_get t k (ps_cache s2)) = Some (Inl d)"
    by (simp add: put cache_put_simps cache_get_def case_prod_beta Let_def)
  then show ?thesis using first s1(2) by (simp add: parseWithConfig_def s2_def [symmetric] case_prod_beta)
      (simp add: s2_def)
qed

section \<open>Two requests for one diagram\<close>

definition example_state :: parser_state where
  "example_state = (new_parser_state DefaultCacheConfig)\<lparr>ps_inflight := [(''k'', 0)], ps_next := 1\<rparr>"

definition gives_empty :: "gostring \<Rightarrow> parse_outcome \<Rightarrow> bool" where
  "gives_empty k out \<longleftrightarrow> out = Inr (Inl empty_diagram)"

abbreviation no_json :: "'a \<Rightarrow> gostring option" where "no_json \<equiv> \<lambda>_. None"

lemma example_flight:
  "(flight_step gives_empty no_json no_json)\<^sup>*\<^sup>* (new_parser_state DefaultCacheConfig, {#})
     (example_state, {#Joined ''k'' 0, Running ''k'' 0#})"
proof -
  let ?s = "new_parser_state DefaultCacheConfig" and ?step = "flight_step gives_empty no_json no_json"
  have ask: "?step (?s, M) (?s, add_mset (Asking ''k'') M)" for M
    by (rule flight_step.request) (simp add: new_parser_state_def)
  have "cache_get 0 ''k'' (newParseCache DefaultCacheConfig) = (None, newParseCache DefaultCacheConfig, [])" by code_simp
  then have "cache_get 0 ''k'' (ps_cache ?s) = (None, ps_cache ?s, [])" by (simp add: new_parser_state_def)
  from flight_step.miss [OF this] have miss: "?step (?s, add_mset (Asking ''k'') M) (?s, add_mset (Missed ''k'') M)" for M by simp
  have "claim ''k'' ?s = (Inr 0, example_state)" by (simp add: claim_def new_parser_state_def example_state_def)
  from flight_step.lead [OF this] have lead: "?step (?s, {#Missed ''k'', Missed ''k''#}) (example_state, {#Running ''k'' 0, Missed ''k''#})" .
  have "claim ''k'' example_state = (Inl 0, example_state)" by (simp add: claim_def example_state_def)
  from flight_step.join [OF this]
  have join: "?step (example_state, {#Missed ''k'', Running ''k'' 0#}) (example_state, {#Joined ''k'' 0, Running ''k'' 0#})" .
  define R a b c where "R = ?step" and "a = (example_state, {#Missed ''k'', Running ''k'' 0#})"
    and "b = (example_state, {#Joined ''k'' 0, Running ''k'' 0#})" and "c = (?s, {#Missed ''k'', Missed ''k''#})"
  have one: "R\<^sup>*\<^sup>* (?s, M) (?s, add_mset (Missed ''k'') M)" for M
    using ask [of M] miss [of M] unfolding R_def [symmetric] by (rule converse_rtranclp_into_rtranclp [OF _ r_into_rtranclp])
  have "R\<^sup>*\<^sup>* (?s, {#}) c" unfolding c_def by (rule rtranclp_trans [OF one one])
  moreover have "R c a" using lead by (simp add: R_def c_def a_def add_mset_commute)
  moreover have "R a b" using join by (simp add: R_def a_def b_def)
  ultimately have "R\<^sup>*\<^sup>* (?s, {#}) b" by (meson rtranclp.rtrancl_into_rtrancl)
  then show ?thesis by (simp add: R_def b_def)
qed

theorem single_flight_safe_witness:
  "size (filter_mset (leads_key ''k'') {#Joined ''k'' 0, Running ''k'' 0#}) \<le> 1"
  using single_flight_safe [OF example_flight] by blast

theorem single_flight_no_stranded_waiter_witness:
  "Joined ''k'' 0 \<in># {#Joined ''k'' 0, Running ''k'' 0#} \<and>
   ((\<exists>out. map_of (ps_done example_state) 0 = Some out \<and> gives_empty ''k'' out)
    \<or> Running ''k'' 0 \<in># {#Joined ''k'' 0, Running ''k'' 0#} \<or> (\<exists>out. Finished ''k'' 0 out \<in># {#Joined ''k'' 0, Running ''k'' 0#}))"
  using single_flight_no_stranded_waiter [OF example_flight, of "''k''" 0] by simp

section \<open>The sequential theorems on a new parser\<close>

lemma new_parser_state_facts:
  "\<not> ps_closed (new_parser_state cfg)" "parse_inv (ps_cache (new_parser_state cfg))"
  "parse_lookup t (ps_cache (new_parser_state cfg)) k = None" "map_of (ps_inflight (new_parser_state cfg)) k = None"
  using newParseCache_ok(1) [of cfg] by (simp_all add: new_parser_state_def newParseCache_ok(2) parse_ok_def)

theorem parseWithConfig_forgets_failures_witness:
  "fst (parseWithConfig no_json no_json 5 5 (Some ''k'') (Inr (Inl empty_diagram))
     (snd (parseWithConfig no_json no_json 0 1 (Some ''k'') (Inl closed_error) (new_parser_state DefaultCacheConfig))))
   = Some (Inr (Inl empty_diagram))"
  by (rule conjunct2 [OF parseWithConfig_forgets_failures]) (simp_all add: new_parser_state_facts)

theorem parseWithConfig_remembers_diagrams_witness:
  "fst (parseWithConfig no_json no_json 5 5 (Some ''k'') (Inl closed_error)
     (snd (parseWithConfig no_json no_json 0 1 (Some ''k'') (Inr (Inl empty_diagram)) (new_parser_state DefaultCacheConfig))))
   = Some (Inr (Inl empty_diagram))"
proof -
  let ?c = "pc_success (ps_cache (new_parser_state DefaultCacheConfig))"
  have "\<not> lru_disabled ?c" "lru_maxBytes ?c = 16777216" "lru_ttl ?c = 30 * Second" by code_simp+
  then show ?thesis
    by (intro conjunct2 [OF parseWithConfig_remembers_diagrams]) (simp_all add: new_parser_state_facts estimatedEntryBytes_def)
qed

end
