(* ===== verification/Worker_Pool.thy ===== *)
theory Worker_Pool
  imports Prelude
begin

text \<open>
  The pool of parser workers, \<^verbatim>\<open>internal/parser/worker_pool.go\<close>, as a transition system. Each
  section of the code between \<^verbatim>\<open>mu.Lock\<close> and the next \<^verbatim>\<open>mu.Unlock\<close> or
  \<^verbatim>\<open>cond.Wait\<close> is one step. Goroutines are anonymous: the state holds the multiset of the
  places they have reached. \<^verbatim>\<open>cond.Signal\<close> moves one waiting goroutine back to the top of the
  borrow loop, \<^verbatim>\<open>cond.Broadcast\<close> moves all of them. Workers are named by numbers; starting one
  (\<^verbatim>\<open>newFn\<close>) can fail.
\<close>

section \<open>The pool\<close>

type_synonym worker = nat

record pool =
  pl_maxSize :: int
  pl_idle :: "worker list"
  pl_total :: int
  pl_closing :: bool

definition newWorkerPool :: "int \<Rightarrow> pool" where
  "newWorkerPool maxSize =
     \<lparr>pl_maxSize = (if maxSize < 1 then 1 else maxSize), pl_idle = [], pl_total = 0, pl_closing = False\<rparr>"

text \<open>One turn of the loop in \<^verbatim>\<open>borrow\<close>, up to the unlock or the wait.\<close>

datatype borrow_result = PoolClosing | Reuse worker | StartNew | Block

definition borrow_turn :: "pool \<Rightarrow> borrow_result \<times> pool" where
  "borrow_turn p =
     (if pl_closing p then (PoolClosing, p)
      else if pl_idle p \<noteq> [] then (Reuse (last (pl_idle p)), p\<lparr>pl_idle := butlast (pl_idle p)\<rparr>)
      else if pl_total p < pl_maxSize p then (StartNew, p\<lparr>pl_total := pl_total p + 1\<rparr>)
      else (Block, p))"

definition give_up_slot :: "pool \<Rightarrow> pool" where
  "give_up_slot p = p\<lparr>pl_total := pl_total p - 1\<rparr>"

text \<open>\<^verbatim>\<open>close\<close>: the idle workers are taken out to be closed.\<close>

definition pool_close :: "pool \<Rightarrow> worker list \<times> pool" where
  "pool_close p =
     (if pl_closing p then ([], p)
      else (pl_idle p, p\<lparr>pl_closing := True, pl_idle := [], pl_total := pl_total p - int (length (pl_idle p))\<rparr>))"

section \<open>The goroutines\<close>

text \<open>
  At the top of the borrow loop, waiting on the condition, starting a worker, with a started
  worker to be admitted, holding a worker, and aborting a worker on its way out.
\<close>

datatype place = Trying | Waiting | Starting | Started worker | Holding worker | Retiring worker

record pool_system =
  sys_pool :: pool
  sys_threads :: "place multiset"

definition signal :: "place multiset \<Rightarrow> place multiset" where
  "signal M = (if Waiting \<in># M then add_mset Trying (M - {#Waiting#}) else M)"

definition broadcast :: "place multiset \<Rightarrow> place multiset" where
  "broadcast M = image_mset (\<lambda>x. if x = Waiting then Trying else x) M"

definition holds :: "place \<Rightarrow> worker multiset" where
  "holds x = (case x of Started w \<Rightarrow> {#w#} | Holding w \<Rightarrow> {#w#} | Retiring w \<Rightarrow> {#w#} | _ \<Rightarrow> {#})"

text \<open>The workers that exist: idle ones and those in the hands of a goroutine.\<close>

definition live_workers :: "pool_system \<Rightarrow> worker multiset" where
  "live_workers s = mset (pl_idle (sys_pool s)) + \<Sum>\<^sub># (image_mset holds (sys_threads s))"

definition after_turn :: "borrow_result \<Rightarrow> place multiset" where
  "after_turn r =
     (case r of PoolClosing \<Rightarrow> {#} | Reuse w \<Rightarrow> {#Holding w#} | StartNew \<Rightarrow> {#Starting#} | Block \<Rightarrow> {#Waiting#})"

inductive pool_step :: "pool_system \<Rightarrow> pool_system \<Rightarrow> bool" where
  arrive: "pool_step s (s\<lparr>sys_threads := add_mset Trying (sys_threads s)\<rparr>)"
| turn: "sys_threads s = add_mset Trying M \<Longrightarrow> borrow_turn (sys_pool s) = (r, p) \<Longrightarrow>
    pool_step s \<lparr>sys_pool = p, sys_threads = after_turn r + M\<rparr>"
| start_failed: "sys_threads s = add_mset Starting M \<Longrightarrow>
    pool_step s \<lparr>sys_pool = give_up_slot (sys_pool s), sys_threads = signal M\<rparr>"
| started: "sys_threads s = add_mset Starting M \<Longrightarrow> w \<notin># live_workers s \<Longrightarrow>
    pool_step s (s\<lparr>sys_threads := add_mset (Started w) M\<rparr>)"
| admitted: "sys_threads s = add_mset (Started w) M \<Longrightarrow> \<not> pl_closing (sys_pool s) \<Longrightarrow>
    pool_step s (s\<lparr>sys_threads := add_mset (Holding w) M\<rparr>)"
| rejected: "sys_threads s = add_mset (Started w) M \<Longrightarrow> pl_closing (sys_pool s) \<Longrightarrow>
    pool_step s \<lparr>sys_pool = give_up_slot (sys_pool s), sys_threads = signal M\<rparr>"
| release_idle: "sys_threads s = add_mset (Holding w) M \<Longrightarrow> \<not> pl_closing (sys_pool s) \<Longrightarrow>
    pool_step s \<lparr>sys_pool = (sys_pool s)\<lparr>pl_idle := pl_idle (sys_pool s) @ [w]\<rparr>, sys_threads = signal M\<rparr>"
| release_retire: "sys_threads s = add_mset (Holding w) M \<Longrightarrow>
    pool_step s (s\<lparr>sys_threads := add_mset (Retiring w) M\<rparr>)"
| retired: "sys_threads s = add_mset (Retiring w) M \<Longrightarrow>
    pool_step s \<lparr>sys_pool = give_up_slot (sys_pool s), sys_threads = signal M\<rparr>"
| close: "pool_close (sys_pool s) = (ws, p) \<Longrightarrow> \<not> pl_closing (sys_pool s) \<Longrightarrow>
    pool_step s \<lparr>sys_pool = p, sys_threads = broadcast (sys_threads s)\<rparr>"

section \<open>The invariant\<close>

definition uses_slot :: "place \<Rightarrow> bool" where
  "uses_slot x \<longleftrightarrow> x \<noteq> Trying \<and> x \<noteq> Waiting"

definition slots :: "place multiset \<Rightarrow> int" where
  "slots M = int (size (filter_mset uses_slot M))"

definition capacity :: "pool \<Rightarrow> int" where
  "capacity p = int (length (pl_idle p)) + (pl_maxSize p - pl_total p)"

text \<open>No worker twice.\<close>

definition unshared :: "worker multiset \<Rightarrow> bool" where
  "unshared M \<longleftrightarrow> (\<forall>w. count M w \<le> 1)"

definition pool_inv :: "pool_system \<Rightarrow> bool" where
  "pool_inv s \<longleftrightarrow>
     pl_total (sys_pool s) = int (length (pl_idle (sys_pool s))) + slots (sys_threads s)
     \<and> pl_total (sys_pool s) \<le> pl_maxSize (sys_pool s)
     \<and> unshared (live_workers s)
     \<and> (pl_closing (sys_pool s) \<longrightarrow> Waiting \<notin># sys_threads s \<and> pl_idle (sys_pool s) = [])
     \<and> (Waiting \<in># sys_threads s \<longrightarrow> capacity (sys_pool s) \<le> int (count (sys_threads s) Trying))"

lemma unshared_mono: "unshared N \<Longrightarrow> M \<subseteq># N \<Longrightarrow> unshared M"
  by (meson mset_subset_eq_count order_trans unshared_def)

lemma unshared_add: "unshared (add_mset w M) \<longleftrightarrow> unshared M \<and> w \<notin># M"
proof
  assume u: "unshared (add_mset w M)"
  then have "Suc (count M w) \<le> 1" unfolding unshared_def by (metis count_add_mset)
  moreover have "unshared M" using u by (rule unshared_mono) simp
  ultimately show "unshared M \<and> w \<notin># M" by (simp add: not_in_iff)
next
  assume u: "unshared M \<and> w \<notin># M"
  show "unshared (add_mset w M)" unfolding unshared_def
  proof
    fix x show "count (add_mset w M) x \<le> 1" using u by (cases "x = w") (simp_all add: unshared_def not_in_iff)
  qed
qed

lemma slots_simps [simp]:
  "slots {#} = 0" "slots (add_mset x M) = (if uses_slot x then 1 else 0) + slots M" "slots (M + N) = slots M + slots N"
  by (simp_all add: slots_def)

lemma uses_slot_simps [simp]:
  "\<not> uses_slot Trying" "\<not> uses_slot Waiting" "uses_slot Starting" "uses_slot (Started w)" "uses_slot (Holding w)" "uses_slot (Retiring w)"
  by (simp_all add: uses_slot_def)

lemma holds_simps [simp]:
  "holds Trying = {#}" "holds Waiting = {#}" "holds Starting = {#}" "holds (Started w) = {#w#}" "holds (Holding w) = {#w#}"
  "holds (Retiring w) = {#w#}"
  by (simp_all add: holds_def)

lemma signal_facts:
  "slots (signal M) = slots M" "\<Sum>\<^sub># (image_mset holds (signal M)) = \<Sum>\<^sub># (image_mset holds M)"
  "Waiting \<in># signal M \<Longrightarrow> Waiting \<in># M" "Waiting \<in># M \<Longrightarrow> count (signal M) Trying = Suc (count M Trying)"
proof -
  have "slots (add_mset Waiting N) = slots (add_mset Trying N)" for N by simp
  then show "slots (signal M) = slots M" by (metis signal_def insert_DiffM)
  have "\<Sum>\<^sub># (image_mset holds (add_mset Waiting N)) = \<Sum>\<^sub># (image_mset holds (add_mset Trying N))" for N by simp
  then show "\<Sum>\<^sub># (image_mset holds (signal M)) = \<Sum>\<^sub># (image_mset holds M)" by (metis signal_def insert_DiffM)
  show "Waiting \<in># signal M \<Longrightarrow> Waiting \<in># M" by (auto simp: signal_def dest: in_diffD split: if_splits)
  show "Waiting \<in># M \<Longrightarrow> count (signal M) Trying = Suc (count M Trying)" by (simp add: signal_def)
qed

lemma broadcast_facts:
  "slots (broadcast M) = slots M" "\<Sum>\<^sub># (image_mset holds (broadcast M)) = \<Sum>\<^sub># (image_mset holds M)" "Waiting \<notin># broadcast M"
  by (induction M) (auto simp: broadcast_def)

text \<open>A slot given up and signalled: one more place, one more goroutine that tries.\<close>

lemma give_up_inv:
  assumes inv: "pool_inv s" and M: "sys_threads s = add_mset x M" "uses_slot x"
  shows "pool_inv \<lparr>sys_pool = give_up_slot (sys_pool s), sys_threads = signal M\<rparr>"
proof -
  have "x \<noteq> Trying" "x \<noteq> Waiting" using M(2) by (auto simp: uses_slot_def)
  moreover have "unshared (mset (pl_idle (sys_pool s)) + \<Sum>\<^sub># (image_mset holds M))"
    using inv by (auto intro: unshared_mono simp: pool_inv_def live_workers_def M(1))
  ultimately show ?thesis using inv M signal_facts [of M]
    by (auto simp: pool_inv_def give_up_slot_def live_workers_def capacity_def)
qed

lemma turn_inv:
  assumes inv: "pool_inv s" and M: "sys_threads s = add_mset Trying M" and turn: "borrow_turn (sys_pool s) = (r, p)"
  shows "pool_inv \<lparr>sys_pool = p, sys_threads = after_turn r + M\<rparr>"
proof (cases r)
  case PoolClosing
  then have "p = sys_pool s" "pl_closing p" using turn by (auto simp: borrow_turn_def split: if_splits)
  then show ?thesis using inv PoolClosing by (auto simp: pool_inv_def live_workers_def M after_turn_def)
next
  case (Reuse w)
  then obtain ws where ws: "pl_idle (sys_pool s) = ws @ [w]" and p: "p = (sys_pool s)\<lparr>pl_idle := ws\<rparr>" and "\<not> pl_closing p"
    using turn by (auto simp: borrow_turn_def split: if_splits) (metis append_butlast_last_id)
  then show ?thesis using inv Reuse by (auto simp: pool_inv_def live_workers_def M after_turn_def capacity_def)
next
  case StartNew
  then have "p = (sys_pool s)\<lparr>pl_total := pl_total (sys_pool s) + 1\<rparr>" "pl_idle (sys_pool s) = []" "\<not> pl_closing (sys_pool s)"
    "pl_total (sys_pool s) < pl_maxSize (sys_pool s)"
    using turn by (auto simp: borrow_turn_def split: if_splits)
  then show ?thesis using inv StartNew by (auto simp: pool_inv_def live_workers_def M after_turn_def capacity_def)
next
  case Block
  then have "p = sys_pool s" "pl_idle (sys_pool s) = []" "\<not> pl_closing (sys_pool s)" "\<not> pl_total (sys_pool s) < pl_maxSize (sys_pool s)"
    using turn by (auto simp: borrow_turn_def split: if_splits)
  then show ?thesis using inv Block by (auto simp: pool_inv_def live_workers_def M after_turn_def capacity_def)
qed

lemma pool_step_inv:
  assumes "pool_step s s'" and inv: "pool_inv s"
  shows "pool_inv s'"
  using assms(1)
proof (cases rule: pool_step.cases)
  case arrive
  then show ?thesis using inv by (auto simp: pool_inv_def live_workers_def)
next
  case (turn M r p)
  then show ?thesis using turn_inv [OF inv] by simp
next
  case (start_failed M)
  then show ?thesis using give_up_inv [OF inv] by simp
next
  case (started M w)
  then show ?thesis using inv by (auto simp: pool_inv_def live_workers_def unshared_add)
next
  case (admitted w M)
  then show ?thesis using inv by (auto simp: pool_inv_def live_workers_def)
next
  case (rejected w M)
  then show ?thesis using give_up_inv [OF inv] by simp
next
  case (release_idle w M)
  then show ?thesis using inv signal_facts [of M]
    by (auto simp: pool_inv_def live_workers_def capacity_def)
next
  case (release_retire w M)
  then show ?thesis using inv by (auto simp: pool_inv_def live_workers_def)
next
  case (retired w M)
  then show ?thesis using give_up_inv [OF inv] by simp
next
  case (close ws p)
  then show ?thesis using inv broadcast_facts [of "sys_threads s"]
    by (auto simp: pool_inv_def live_workers_def pool_close_def intro: unshared_mono)
qed

definition pool_start :: "int \<Rightarrow> pool_system" where
  "pool_start maxSize = \<lparr>sys_pool = newWorkerPool maxSize, sys_threads = {#}\<rparr>"

lemma pool_step_limits: "pool_step s s' \<Longrightarrow> pl_maxSize (sys_pool s') = pl_maxSize (sys_pool s)"
  by (cases rule: pool_step.cases)
    (auto simp: borrow_turn_def give_up_slot_def pool_close_def split: if_splits)

lemma pool_reachable_inv:
  "pool_step\<^sup>*\<^sup>* (pool_start maxSize) s \<Longrightarrow> pool_inv s \<and> pl_maxSize (sys_pool s) = (if maxSize < 1 then 1 else maxSize)"
proof (induction rule: rtranclp_induct)
  case base
  show ?case by (simp add: pool_start_def newWorkerPool_def pool_inv_def live_workers_def unshared_def)
next
  case (step s s')
  then show ?case using pool_step_inv pool_step_limits by simp
qed

text \<open>
  C18: in every state the goroutines of a pool can reach, at most \<open>maxSize\<close> workers exist (one, when
  the configured size is less than one), the counter is the number of workers idle, in use, starting
  or retiring, and no worker is in two hands.
\<close>

theorem pool_never_overcommits:
  assumes "pool_step\<^sup>*\<^sup>* (pool_start maxSize) s"
  shows "pl_total (sys_pool s) \<le> max 1 maxSize
    \<and> pl_total (sys_pool s) = int (length (pl_idle (sys_pool s))) + slots (sys_threads s)
    \<and> unshared (live_workers s)"
  using pool_reachable_inv [OF assms] by (auto simp: pool_inv_def max_def)

text \<open>
  C17: no wakeup is lost. While a goroutine waits for a worker, every worker that is idle or could
  still be started has a goroutine awake that is about to take it; so when nobody is awake, nothing
  is idle and all slots are in use. Nobody waits on a pool that is closing, and a closing pool whose
  goroutines are gone has no worker left.
\<close>

theorem pool_no_lost_wakeup:
  assumes "pool_step\<^sup>*\<^sup>* (pool_start maxSize) s"
  shows "(Waiting \<in># sys_threads s \<longrightarrow> \<not> pl_closing (sys_pool s) \<and> capacity (sys_pool s) \<le> int (count (sys_threads s) Trying))
    \<and> (Waiting \<in># sys_threads s \<and> Trying \<notin># sys_threads s \<longrightarrow>
         pl_idle (sys_pool s) = [] \<and> pl_total (sys_pool s) = pl_maxSize (sys_pool s))
    \<and> (pl_closing (sys_pool s) \<and> sys_threads s = {#} \<longrightarrow> pl_total (sys_pool s) = 0)"
proof -
  have inv: "pool_inv s" using pool_reachable_inv [OF assms] by simp
  have "pl_idle (sys_pool s) = [] \<and> pl_total (sys_pool s) = pl_maxSize (sys_pool s)"
    if "Waiting \<in># sys_threads s" "Trying \<notin># sys_threads s"
  proof -
    have "capacity (sys_pool s) \<le> 0" "pl_total (sys_pool s) \<le> pl_maxSize (sys_pool s)"
      using inv that by (auto simp: pool_inv_def not_in_iff)
    then have "length (pl_idle (sys_pool s)) = 0" "pl_total (sys_pool s) = pl_maxSize (sys_pool s)"
      unfolding capacity_def by linarith+
    then show ?thesis by simp
  qed
  with inv show ?thesis by (auto simp: pool_inv_def)
qed

text \<open>One slot, two goroutines: the second waits while the first starts its worker.\<close>

definition example_contention :: pool_system where
  "example_contention = \<lparr>sys_pool = (newWorkerPool 1)\<lparr>pl_total := 1\<rparr>, sys_threads = {#Starting, Waiting#}\<rparr>"

lemma example_contention_reachable: "pool_step\<^sup>*\<^sup>* (pool_start 1) example_contention"
proof -
  let ?p = "newWorkerPool 1" and ?q = "(newWorkerPool 1)\<lparr>pl_total := 1\<rparr>"
  have "pool_step (pool_start 1) \<lparr>sys_pool = ?p, sys_threads = {#Trying#}\<rparr>"
    using pool_step.arrive [of "pool_start 1"] by (simp add: pool_start_def)
  moreover have "pool_step \<lparr>sys_pool = ?p, sys_threads = {#Trying#}\<rparr> \<lparr>sys_pool = ?q, sys_threads = {#Starting#}\<rparr>"
    using pool_step.turn [of "\<lparr>sys_pool = ?p, sys_threads = {#Trying#}\<rparr>" "{#}" StartNew ?q]
    by (simp add: borrow_turn_def newWorkerPool_def after_turn_def)
  moreover have "pool_step \<lparr>sys_pool = ?q, sys_threads = {#Starting#}\<rparr> \<lparr>sys_pool = ?q, sys_threads = {#Trying, Starting#}\<rparr>"
    using pool_step.arrive [of "\<lparr>sys_pool = ?q, sys_threads = {#Starting#}\<rparr>"] by simp
  moreover have "pool_step \<lparr>sys_pool = ?q, sys_threads = {#Trying, Starting#}\<rparr> example_contention"
    using pool_step.turn [of "\<lparr>sys_pool = ?q, sys_threads = {#Trying, Starting#}\<rparr>" "{#Starting#}" Block ?q]
    by (simp add: borrow_turn_def newWorkerPool_def after_turn_def example_contention_def add_mset_commute)
  ultimately show ?thesis by (meson rtranclp.rtrancl_into_rtrancl rtranclp.rtrancl_refl)
qed

theorem pool_never_overcommits_witness: "pl_total (sys_pool example_contention) \<le> max 1 1 \<and> slots (sys_threads example_contention) = 1"
  using pool_never_overcommits [OF example_contention_reachable] by (simp add: example_contention_def newWorkerPool_def)

theorem pool_no_lost_wakeup_witness:
  "Waiting \<in># sys_threads example_contention \<and> Trying \<notin># sys_threads example_contention
   \<and> pl_idle (sys_pool example_contention) = [] \<and> pl_total (sys_pool example_contention) = pl_maxSize (sys_pool example_contention)"
proof -
  have "Waiting \<in># sys_threads example_contention" "Trying \<notin># sys_threads example_contention"
    by (simp_all add: example_contention_def)
  then show ?thesis using pool_no_lost_wakeup [OF example_contention_reachable] by blast
qed

end
