(* ===== verification/Parser_Lifecycle.thy ===== *)
theory Parser_Lifecycle
  imports Single_Flight Worker_Pool Cache_Config
begin

text \<open>
  Construction and shutdown of a parser, its worker pools, the choice between pool and subprocess,
  and the lookup of the parser's version, from \<^verbatim>\<open>internal/parser/parser.go\<close>. Only one version
  lookup runs at a time; it is a transition system over anonymous goroutines, like the shared
  flights of parses.
\<close>

section \<open>Construction\<close>

record version_info =
  vi_ParserVersion :: gostring
  vi_MermaidVersion :: gostring

record parser =
  pa_scriptPath :: gostring
  pa_timeout :: int
  pa_repoRoot :: gostring
  pa_nodeMaxOldSpaceMB :: int
  pa_mode :: gostring
  pa_workerPoolSize :: int
  pa_workerPools :: "(int, pool) gomap"
  pa_state :: parser_state

definition newWithConfigAndCacheAndRepoRootResolver ::
  "environment \<Rightarrow> gostring \<Rightarrow> parser_config \<Rightarrow> cache_config \<Rightarrow> (gostring + gostring) option \<Rightarrow> gostring + parser" where
  "newWithConfigAndCacheAndRepoRootResolver env scriptPath cfg cacheCfg resolveRepoRoot =
     (case resolveRepoRoot of
        None \<Rightarrow> Inl ''failed to initialize parser: repo root resolver is nil''
      | Some (Inl err) \<Rightarrow> Inl (''failed to initialize parser: '' @ err)
      | Some (Inr repoRoot) \<Rightarrow>
          let effective = EffectiveConfig cfg
          in Inr \<lparr>pa_scriptPath = scriptPath, pa_timeout = cfg_Timeout effective, pa_repoRoot = repoRoot,
                  pa_nodeMaxOldSpaceMB = cfg_NodeMaxOldSpaceMB effective, pa_mode = readParserMode env,
                  pa_workerPoolSize = readWorkerPoolSize env, pa_workerPools = [],
                  pa_state = new_parser_state cacheCfg\<rparr>)"

definition NewWithConfigAndRepoRootResolver ::
  "environment \<Rightarrow> gostring \<Rightarrow> parser_config \<Rightarrow> (gostring + gostring) option \<Rightarrow> gostring + parser" where
  "NewWithConfigAndRepoRootResolver env scriptPath cfg resolveRepoRoot =
     newWithConfigAndCacheAndRepoRootResolver env scriptPath cfg DefaultCacheConfig resolveRepoRoot"

definition NewWithConfig :: "environment \<Rightarrow> file_system \<Rightarrow> gostring \<Rightarrow> parser_config \<Rightarrow> gostring + parser" where
  "NewWithConfig env fs scriptPath cfg = NewWithConfigAndRepoRootResolver env scriptPath cfg (Some (findRepoRoot fs))"

definition NewWithConfigAndCache ::
  "environment \<Rightarrow> file_system \<Rightarrow> gostring \<Rightarrow> parser_config \<Rightarrow> cache_config \<Rightarrow> gostring + parser" where
  "NewWithConfigAndCache env fs scriptPath cfg cacheCfg =
     newWithConfigAndCacheAndRepoRootResolver env scriptPath cfg cacheCfg (Some (findRepoRoot fs))"

definition NewParser :: "environment \<Rightarrow> file_system \<Rightarrow> gostring \<Rightarrow> gostring + parser" where
  "NewParser env fs scriptPath =
     newWithConfigAndCacheAndRepoRootResolver env scriptPath (ConfigFromEnv env) (CacheConfigFromEnv env) (Some (findRepoRoot fs))"

definition ParserConfig :: "parser \<Rightarrow> parser_config" where
  "ParserConfig p =
     \<lparr>cfg_Timeout = pa_timeout p, cfg_NodeMaxOldSpaceMB = pa_nodeMaxOldSpaceMB p,
      cfg_SourceEnhancement = None, cfg_NeedSourceEnhancement = False\<rparr>"

definition parser_SetCacheMetrics :: "cache_observer \<Rightarrow> parser \<Rightarrow> parser" where
  "parser_SetCacheMetrics metrics p =
     p\<lparr>pa_state := (pa_state p)\<lparr>ps_cache := setMetrics metrics (ps_cache (pa_state p))\<rparr>\<rparr>"

definition getRepoRoot :: "parser \<Rightarrow> gostring + gostring" where
  "getRepoRoot p = (if pa_repoRoot p = [] then Inl ''failed to locate repository root'' else Inr (pa_repoRoot p))"

definition nodeArgs :: "parser \<Rightarrow> gostring list" where
  "nodeArgs p = [''--max-old-space-size='' @ Itoa (pa_nodeMaxOldSpaceMB p)]"

definition script_of :: "file_system \<Rightarrow> parser \<Rightarrow> gostring + gostring" where
  "script_of fs p = (case getRepoRoot p of Inl err \<Rightarrow> Inl err | Inr r \<Rightarrow> validateScriptPath fs (pa_scriptPath p) r)"

text \<open>
  \<^verbatim>\<open>Ready\<close>: what \<^verbatim>\<open>exec.LookPath\<close> and the check run of the script give are arguments.
\<close>

definition Ready ::
  "file_system \<Rightarrow> gostring option \<Rightarrow> (gostring list \<Rightarrow> (gostring \<times> gostring) option) \<Rightarrow> parser \<Rightarrow> gostring option" where
  "Ready fs lookPathErr run p =
     (case script_of fs p of
        Inl err \<Rightarrow> Some err
      | Inr scriptPath \<Rightarrow>
          (case lookPathErr of
             Some err \<Rightarrow> Some (''node runtime not found: '' @ err)
           | None \<Rightarrow>
               (case run (parserNodeArgs scriptPath (nodeArgs p @ [''--check'', scriptPath])) of
                  Some (err, out) \<Rightarrow> Some (''parser script check failed: '' @ err @ '' ('' @ TrimSpace out @ '')'')
                | None \<Rightarrow> None)))"

section \<open>Worker pools\<close>

definition poolForMemory :: "int \<Rightarrow> parser \<Rightarrow> (gostring + pool) \<times> parser" where
  "poolForMemory memoryMB p =
     (if ps_closed (pa_state p) then (Inl ''parser is closed'', p)
      else case map_of (pa_workerPools p) memoryMB of
             Some pl \<Rightarrow> (Inr pl, p)
           | None \<Rightarrow>
               let pl = newWorkerPool (pa_workerPoolSize p)
               in (Inr pl, p\<lparr>pa_workerPools := AList.update memoryMB pl (pa_workerPools p)\<rparr>))"

text \<open>
  \<^verbatim>\<open>parseWithWorkerPool\<close> up to the outcome: what borrowing gives and what the select statement
  receives are arguments. The first result tells whether the borrowed worker goes back healthy.
\<close>

definition parseWithWorkerPool ::
  "(gostring list \<Rightarrow> gostring list) \<Rightarrow> file_system \<Rightarrow> (pool \<Rightarrow> gostring + worker) \<Rightarrow> (worker \<Rightarrow> worker_event)
     \<Rightarrow> gostring \<Rightarrow> parser_config \<Rightarrow> parser \<Rightarrow> (bool option \<times> parse_outcome) \<times> parser" where
  "parseWithWorkerPool ord fs borrow serve mermaidCode cfg p =
     (case script_of fs p of
        Inl err \<Rightarrow> ((None, Inl (plain_error err)), p)
      | Inr scriptPath \<Rightarrow>
          (case poolForMemory (cfg_NodeMaxOldSpaceMB cfg) p of
             (Inl err, p) \<Rightarrow> ((None, Inl (sentinel_error ErrSubprocess err)), p)
           | (Inr pl, p) \<Rightarrow>
               (case borrow pl of
                  Inl err \<Rightarrow> ((None, Inl (sentinel_error ErrSubprocess err)), p)
                | Inr w \<Rightarrow> (case worker_outcome ord (serve w) mermaidCode cfg of
                              (healthy, out) \<Rightarrow> ((Some healthy, out), p)))))"

text \<open>
  The choice in \<^verbatim>\<open>parseWithConfig\<close>: only requests with the configured memory limit use the
  pool, the others a process of their own.
\<close>

definition run_parser ::
  "(gostring list \<Rightarrow> gostring list) \<Rightarrow> (gostring \<Rightarrow> gostring + parse_result) \<Rightarrow> file_system
     \<Rightarrow> (pool \<Rightarrow> gostring + worker) \<Rightarrow> (worker \<Rightarrow> worker_event) \<Rightarrow> (gostring \<Rightarrow> run_outcome)
     \<Rightarrow> gostring \<Rightarrow> parser_config \<Rightarrow> parser \<Rightarrow> parse_outcome \<times> parser" where
  "run_parser ord decode fs borrow serve run mermaidCode cfg p =
     (if pa_mode p = parserModePool \<and> cfg_NodeMaxOldSpaceMB cfg = pa_nodeMaxOldSpaceMB p
      then case parseWithWorkerPool ord fs borrow serve mermaidCode cfg p of ((_, out), p) \<Rightarrow> (out, p)
      else (parseWithSubprocess ord decode fs (pa_repoRoot p) (pa_scriptPath p) (ps_closed (pa_state p)) run mermaidCode cfg, p))"

text \<open>\<^verbatim>\<open>Close\<close>: every pool is closed; the workers to be closed are returned.\<close>

definition parser_Close :: "(int list \<Rightarrow> int list) \<Rightarrow> parser \<Rightarrow> worker list \<times> parser" where
  "parser_Close ord p =
     (if ps_closed (pa_state p) then ([], p)
      else (concat (map (\<lambda>(m, pl). fst (pool_close pl)) (range_map ord (pa_workerPools p))),
            p\<lparr>pa_state := (pa_state p)\<lparr>ps_closed := True\<rparr>,
              pa_workerPools := map (\<lambda>(m, pl). (m, snd (pool_close pl))) (pa_workerPools p)\<rparr>))"

text \<open>\<^verbatim>\<open>newWorkerRequestID\<close>: the random bytes, or \<open>None\<close> when the system has none.\<close>

definition newWorkerRequestID :: "nat list option \<Rightarrow> int \<Rightarrow> gostring" where
  "newWorkerRequestID random unixNano =
     (case random of
        None \<Rightarrow> ''req-'' @ Itoa unixNano
      | Some bytes \<Rightarrow> ''req-'' @ Itoa unixNano @ ''-'' @ concat (map hex_byte bytes))"

section \<open>Version lookup\<close>

text \<open>What \<^verbatim>\<open>discoverVersionInfo\<close> makes of a run of the script.\<close>

definition discoverVersionInfo ::
  "(gostring \<Rightarrow> gostring + version_info) \<Rightarrow> file_system \<Rightarrow> (gostring list \<Rightarrow> run_outcome) \<Rightarrow> parser
     \<Rightarrow> parse_error + version_info" where
  "discoverVersionInfo decode fs run p =
     (case script_of fs p of
        Inl err \<Rightarrow> Inl (plain_error err)
      | Inr scriptPath \<Rightarrow>
          let out = run (parserNodeArgs scriptPath (nodeArgs p @ [scriptPath, ''--version-info'']))
          in case run_err out of
               Some runErr \<Rightarrow>
                 if run_deadline out then Inl (sentinel_error ErrTimeout (''after '' @ Duration_String (pa_timeout p)))
                 else Inl (with_stderr ErrSubprocess runErr (run_stderr out))
             | None \<Rightarrow>
                 (case decode (run_stdout out) of
                    Inl err \<Rightarrow> Inl (sentinel_error ErrDecode (''failed to decode parser version output: '' @ err))
                  | Inr info \<Rightarrow>
                      if TrimSpace (vi_ParserVersion info) = [] \<or> TrimSpace (vi_MermaidVersion info) = []
                      then Inl (sentinel_error ErrContract ''version info missing parser_version or mermaid_version'')
                      else Inr \<lparr>vi_ParserVersion = TrimSpace (vi_ParserVersion info),
                                vi_MermaidVersion = TrimSpace (vi_MermaidVersion info)\<rparr>))"

text \<open>
  The state of \<^verbatim>\<open>resolveVersionInfo\<close>: the stored version, the flight in progress, the outcomes
  of the flights that have landed. Goroutines ask, wait for a flight, look the version up, or have
  their answer.
\<close>

type_synonym version_outcome = "parse_error + version_info"

record version_state =
  vs_info :: "version_info option"
  vs_flight :: "nat option"
  vs_landed :: "(nat, version_outcome) gomap"
  vs_next :: nat

datatype version_request = VAsking | VWaiting nat | VLooking nat | VAnswered version_outcome

text \<open>The first section under the lock.\<close>

definition version_claim :: "version_state \<Rightarrow> version_request \<times> version_state" where
  "version_claim s =
     (case vs_info s of
        Some info \<Rightarrow> (VAnswered (Inr info), s)
      | None \<Rightarrow>
          (case vs_flight s of
             Some f \<Rightarrow> (VWaiting f, s)
           | None \<Rightarrow> (VLooking (vs_next s), s\<lparr>vs_flight := Some (vs_next s), vs_next := Suc (vs_next s)\<rparr>)))"

text \<open>The second one, with the outcome of the lookup.\<close>

definition version_land :: "nat \<Rightarrow> version_outcome \<Rightarrow> version_state \<Rightarrow> version_state" where
  "version_land f out s =
     s\<lparr>vs_info := (case out of Inr info \<Rightarrow> Some info | Inl _ \<Rightarrow> vs_info s),
       vs_landed := AList.update f out (vs_landed s), vs_flight := None\<rparr>"

definition new_version_state :: version_state where
  "new_version_state = \<lparr>vs_info = None, vs_flight = None, vs_landed = [], vs_next = 0\<rparr>"

inductive version_step :: "version_state \<times> version_request multiset \<Rightarrow> version_state \<times> version_request multiset \<Rightarrow> bool" where
  v_arrive: "version_step (s, M) (s, add_mset VAsking M)"
| v_claim: "version_claim s = (r, s') \<Longrightarrow> version_step (s, add_mset VAsking M) (s', add_mset r M)"
| v_land: "version_step (s, add_mset (VLooking f) M) (version_land f out s, add_mset (VAnswered out) M)"
| v_wake: "map_of (vs_landed s) f = Some out \<Longrightarrow>
    version_step (s, add_mset (VWaiting f) M) (s, add_mset (VAnswered out) M)"

inductive_cases version_stepE: "version_step (s, M) (s', M')"

subsection \<open>The invariant of the lookup\<close>

definition looking :: "version_request multiset \<Rightarrow> version_request multiset" where
  "looking M = filter_mset (\<lambda>r. \<exists>f. r = VLooking f) M"

definition version_request_ok :: "version_state \<Rightarrow> version_request \<Rightarrow> bool" where
  "version_request_ok s r =
     (case r of
        VWaiting f \<Rightarrow> vs_flight s = Some f \<or> map_of (vs_landed s) f \<noteq> None
      | VAnswered (Inr v) \<Rightarrow> vs_info s = Some v
      | _ \<Rightarrow> True)"

definition version_inv :: "version_state \<times> version_request multiset \<Rightarrow> bool" where
  "version_inv sm \<longleftrightarrow>
     looking (snd sm) = (case vs_flight (fst sm) of None \<Rightarrow> {#} | Some f \<Rightarrow> {#VLooking f#}) \<and>
     (vs_flight (fst sm) \<noteq> None \<longrightarrow> vs_info (fst sm) = None) \<and>
     (\<forall>f v. map_of (vs_landed (fst sm)) f = Some (Inr v) \<longrightarrow> vs_info (fst sm) = Some v) \<and>
     (\<forall>r\<in>#snd sm. version_request_ok (fst sm) r)"

lemma looking_add [simp]:
  "looking (add_mset VAsking M) = looking M" "looking (add_mset (VWaiting f) M) = looking M"
  "looking (add_mset (VAnswered out) M) = looking M"
  "looking (add_mset (VLooking f) M) = add_mset (VLooking f) (looking M)"
  by (simp_all add: looking_def)

lemma version_request_ok_mono:
  assumes "version_request_ok s r" "vs_info s' = vs_info s \<or> vs_info s = None"
    "\<And>f. vs_flight s = Some f \<or> map_of (vs_landed s) f \<noteq> None \<Longrightarrow> vs_flight s' = Some f \<or> map_of (vs_landed s') f \<noteq> None"
  shows "version_request_ok s' r"
  using assms by (cases r) (auto simp: version_request_ok_def split: sum.splits)

lemma version_claim_inv:
  assumes "version_inv (s, add_mset VAsking M)" "version_claim s = (r, s')"
  shows "version_inv (s', add_mset r M)"
  using assms
  by (auto simp: version_inv_def version_claim_def version_request_ok_def split: option.splits version_request.splits sum.splits)

lemma version_land_inv:
  assumes "version_inv (s, add_mset (VLooking f) M)"
  shows "version_inv (version_land f out s, add_mset (VAnswered out) M)"
proof -
  have fl: "vs_flight s = Some f" "looking M = {#}" "vs_info s = None"
    using assms by (auto simp: version_inv_def split: option.splits)
  have landed: "map_of (vs_landed s) g \<noteq> Some (Inr v)" for g v using assms fl by (auto simp: version_inv_def)
  have ok: "version_request_ok (version_land f out s) r" if "r \<in># M" for r
    by (rule version_request_ok_mono [of s])
      (use assms that fl in \<open>auto simp: version_inv_def version_land_def update_conv'\<close>)
  show ?thesis using fl landed ok
    by (auto simp: version_inv_def version_land_def version_request_ok_def update_conv' split: sum.splits)
qed

lemma version_step_inv: "version_step sm sm' \<Longrightarrow> version_inv sm \<Longrightarrow> version_inv sm'"
proof (induction rule: version_step.induct)
  case (v_arrive s M)
  then show ?case by (simp add: version_inv_def version_request_ok_def)
next
  case (v_wake s f out M)
  then show ?case by (auto simp: version_inv_def version_request_ok_def split: sum.splits)
qed (simp_all add: version_claim_inv version_land_inv)

lemma version_reachable_inv: "version_step\<^sup>*\<^sup>* (new_version_state, {#}) sm \<Longrightarrow> version_inv sm"
  by (induction rule: rtranclp_induct)
    (auto simp: version_step_inv, simp add: version_inv_def new_version_state_def looking_def)

text \<open>
  One version for the life of a parser. In every reachable state at most one goroutine looks the
  version up, all goroutines that got a version got the same one, also the one kept for later
  callers, and a goroutine that waits for a lookup finds it in progress or landed.
\<close>

theorem version_lookup_stable:
  assumes "version_step\<^sup>*\<^sup>* (new_version_state, {#}) (s, M)"
  shows "size (looking M) \<le> 1 \<and>
    (\<forall>v v'. VAnswered (Inr v) \<in># M \<and> VAnswered (Inr v') \<in># M \<longrightarrow> v = v' \<and> vs_info s = Some v) \<and>
    (\<forall>f. VWaiting f \<in># M \<longrightarrow> VLooking f \<in># M \<or> map_of (vs_landed s) f \<noteq> None)"
proof -
  note inv = version_reachable_inv [OF assms, unfolded version_inv_def fst_conv snd_conv]
  have ans: "vs_info s = Some v" if "VAnswered (Inr v) \<in># M" for v
    using inv that by (fastforce simp: version_request_ok_def)
  have look: "VLooking f \<in># M" if "vs_flight s = Some f" for f
  proof -
    have "VLooking f \<in># looking M" using inv that by simp
    then show ?thesis by (simp add: looking_def)
  qed
  have wait: "vs_flight s = Some f \<or> map_of (vs_landed s) f \<noteq> None" if "VWaiting f \<in># M" for f
    using inv that by (fastforce simp: version_request_ok_def)
  have "size (looking M) \<le> 1" using inv by (auto split: option.splits)
  moreover have "v = v' \<and> vs_info s = Some v" if "VAnswered (Inr v) \<in># M \<and> VAnswered (Inr v') \<in># M" for v v'
    using that ans [of v] ans [of v'] by simp
  moreover have "VLooking f \<in># M \<or> map_of (vs_landed s) f \<noteq> None" if "VWaiting f \<in># M" for f
    using wait [OF that] look by blast
  ultimately show ?thesis by blast
qed

theorem version_lookup_stable_witness:
  "\<exists>s v. version_step\<^sup>*\<^sup>* (new_version_state, {#}) (s, {#VAnswered (Inr v)#}) \<and> vs_info s = Some v"
proof -
  let ?v = "\<lparr>vi_ParserVersion = ''1'', vi_MermaidVersion = ''11''\<rparr>"
  let ?s = "new_version_state\<lparr>vs_flight := Some 0, vs_next := 1\<rparr>"
  have "version_step (new_version_state, {#}) (new_version_state, {#VAsking#})" by (rule v_arrive)
  moreover have "version_step (new_version_state, {#VAsking#}) (?s, {#VLooking 0#})"
    by (rule v_claim) (simp add: version_claim_def new_version_state_def)
  moreover have "version_step (?s, {#VLooking 0#}) (version_land 0 (Inr ?v) ?s, {#VAnswered (Inr ?v)#})"
    by (rule v_land)
  ultimately have r: "version_step\<^sup>*\<^sup>* (new_version_state, {#}) (version_land 0 (Inr ?v) ?s, {#VAnswered (Inr ?v)#})"
    by (metis (no_types, lifting) converse_rtranclp_into_rtranclp rtranclp.rtrancl_refl)
  then have "vs_info (version_land 0 (Inr ?v) ?s) = Some ?v" using version_lookup_stable [OF r] by auto
  with r show ?thesis by blast
qed

section \<open>The number of worker processes is bounded\<close>

inductive parser_reach :: "parser \<Rightarrow> bool" where
  created: "newWithConfigAndCacheAndRepoRootResolver env scriptPath cfg cacheCfg r = Inr p \<Longrightarrow> parser_reach p"
| parsed: "parser_reach p \<Longrightarrow> run_parser ord decode fs borrow serve run src cfg p = (out, p') \<Longrightarrow> parser_reach p'"
| observed: "parser_reach p \<Longrightarrow> parser_reach (parser_SetCacheMetrics m p)"
| shut_down: "parser_reach p \<Longrightarrow> parser_Close pord p = (ws, p') \<Longrightarrow> parser_reach p'"

definition pools_inv :: "parser \<Rightarrow> bool" where
  "pools_inv p \<longleftrightarrow>
     distinct (gm_keys (pa_workerPools p)) \<and> set (gm_keys (pa_workerPools p)) \<subseteq> {pa_nodeMaxOldSpaceMB p} \<and>
     1 \<le> pa_workerPoolSize p \<and> pa_workerPoolSize p \<le> 64 \<and>
     (\<forall>m pl. (m, pl) \<in> set (pa_workerPools p) \<longrightarrow>
        pl_maxSize pl = pa_workerPoolSize p \<and> (ps_closed (pa_state p) \<longrightarrow> pl_closing pl))"

lemma poolForMemory_inv:
  assumes "pools_inv p" "m = pa_nodeMaxOldSpaceMB p" "poolForMemory m p = (r, p')"
  shows "pools_inv p'"
proof (cases "\<not> ps_closed (pa_state p) \<and> map_of (pa_workerPools p) m = None")
  case True
  then have "m \<notin> set (gm_keys (pa_workerPools p))" by (simp add: gm_keys_def map_of_eq_None_iff)
  then have "pa_workerPools p = []" using assms(1,2) by (cases "pa_workerPools p") (auto simp: pools_inv_def gm_keys_def)
  then show ?thesis using assms True by (auto simp: poolForMemory_def pools_inv_def newWorkerPool_def gm_keys_def Let_def)
next
  case False
  then have "p' = p" using assms(3) by (auto simp: poolForMemory_def split: option.splits if_splits)
  then show ?thesis using assms(1) by simp
qed

lemma run_parser_inv:
  assumes "pools_inv p" "run_parser ord decode fs borrow serve run src cfg p = (out, p')"
  shows "pools_inv p'"
  using assms poolForMemory_inv [OF assms(1)]
  by (auto simp: run_parser_def parseWithWorkerPool_def split: if_splits sum.splits prod.splits)

lemma parser_Close_inv: "pools_inv p \<Longrightarrow> parser_Close ord p = (ws, p') \<Longrightarrow> pools_inv p'"
  by (auto simp: parser_Close_def pools_inv_def gm_keys_def pool_close_def comp_def case_prod_beta split: if_splits)
    force+

lemma parser_reach_inv: "parser_reach p \<Longrightarrow> pools_inv p"
proof (induction rule: parser_reach.induct)
  case (created env scriptPath cfg cacheCfg r p)
  have "readWorkerPoolSize env \<in> {1..64}"
    by (auto simp: readWorkerPoolSize_def Let_def split: option.split)
  with created show ?case
    by (auto simp: newWithConfigAndCacheAndRepoRootResolver_def pools_inv_def Let_def split: option.splits sum.splits)
next
  case (parsed p ord decode fs borrow serve run src cfg out p')
  then show ?case using run_parser_inv by blast
next
  case (observed p m)
  then show ?case by (simp add: parser_SetCacheMetrics_def pools_inv_def)
next
  case (shut_down p pord ws p')
  then show ?case using parser_Close_inv by blast
qed

text \<open>
  Requests cannot multiply worker processes. Whatever memory limits the requests of a parser's
  life ask for, at most one worker pool exists, with room for at most 64 workers, and after shutdown
  it is closing.
\<close>

theorem worker_pools_bounded:
  assumes "parser_reach p"
  shows "length (pa_workerPools p) \<le> 1 \<and>
    (\<forall>m pl. (m, pl) \<in> set (pa_workerPools p) \<longrightarrow>
       m = pa_nodeMaxOldSpaceMB p \<and> pl_maxSize pl \<le> 64 \<and> (ps_closed (pa_state p) \<longrightarrow> pl_closing pl))"
proof -
  note inv = parser_reach_inv [OF assms, unfolded pools_inv_def]
  have "card (set (gm_keys (pa_workerPools p))) \<le> card {pa_nodeMaxOldSpaceMB p}" using inv by (intro card_mono) auto
  moreover have "card (set (gm_keys (pa_workerPools p))) = length (pa_workerPools p)"
    using inv by (simp add: distinct_card) (simp add: gm_keys_def)
  ultimately have "length (pa_workerPools p) \<le> 1" by simp
  moreover have "m = pa_nodeMaxOldSpaceMB p" if "(m, pl) \<in> set (pa_workerPools p)" for m pl
    using inv that by (force simp: gm_keys_def)
  ultimately show ?thesis using inv by fastforce
qed

theorem worker_pools_bounded_witness:
  "case newWithConfigAndCacheAndRepoRootResolver (\<lambda>_. []) ''/srv/parse.ts'' DefaultConfig DefaultCacheConfig (Some (Inr ''/srv'')) of
     Inr p \<Rightarrow> length (pa_workerPools (snd (poolForMemory (pa_nodeMaxOldSpaceMB p) p))) = 1 \<and> length (pa_workerPools p) \<le> 1
   | Inl _ \<Rightarrow> False"
proof -
  let ?n = "newWithConfigAndCacheAndRepoRootResolver (\<lambda>_. []) ''/srv/parse.ts'' DefaultConfig DefaultCacheConfig (Some (Inr ''/srv''))"
  obtain p where p: "?n = Inr p" "pa_workerPools p = []" "\<not> ps_closed (pa_state p)"
    by (simp add: newWithConfigAndCacheAndRepoRootResolver_def new_parser_state_def Let_def)
  then show ?thesis using worker_pools_bounded [OF created [OF p(1)]] by (simp add: poolForMemory_def Let_def)
qed

end
