(* ===== verification/Server.thy ===== *)
theory Server
  imports Middleware Parser_Lifecycle
begin

text \<open>
  Start-up of the server, \<^verbatim>\<open>cmd/server/main.go\<close>: the settings it takes from the environment,
  the order in which it wraps the middleware around the routes, and the table of routes of
  \<^verbatim>\<open>Handler.RegisterRoutes\<close>. A panic at start-up is \<open>Inl\<close> of its message. Listening,
  signals and shutdown are input and output and left out.
\<close>

section \<open>Settings\<close>

definition defaultParserConcurrencyLimit :: int where "defaultParserConcurrencyLimit = 8"
definition defaultRateLimitPerMinute :: int where "defaultRateLimitPerMinute = 120"
definition defaultAllowedOrigins :: gostring where "defaultAllowedOrigins = ''https://merm8-splash.vercel.app''"
definition dockerAllowedOriginsPlaceholder :: gostring where "dockerAllowedOriginsPlaceholder = ''https://merm8.example.app''"

definition envInt :: "environment \<Rightarrow> gostring \<Rightarrow> int \<Rightarrow> int" where
  "envInt env key fallback =
     (let raw = TrimSpace (env key) in
      if raw = [] then fallback else case Atoi raw of None \<Rightarrow> fallback | Some v \<Rightarrow> v)"

definition resolveAllowedOrigins :: "gostring \<Rightarrow> gostring \<Rightarrow> gostring \<times> bool" where
  "resolveAllowedOrigins deploymentMode rawAllowedOrigins =
     (let configured = TrimSpace rawAllowedOrigins;
          warn = EqualFold (TrimSpace deploymentMode) ''production'' \<and>
                 (configured = [] \<or> configured = dockerAllowedOriginsPlaceholder)
      in if configured = [] then (defaultAllowedOrigins, warn) else (configured, warn))"

definition validateStartupAuthToken :: "gostring \<Rightarrow> gostring \<Rightarrow> gostring option" where
  "validateStartupAuthToken deploymentMode authToken =
     (if EqualFold (TrimSpace deploymentMode) ''production'' \<and> TrimSpace authToken = []
      then Some ''ANALYZE_AUTH_TOKEN is required when DEPLOYMENT_MODE=production'' else None)"

record server =
  sv_mode :: gostring
  sv_authToken :: gostring
  sv_limiter :: "rate_limiter option"
  sv_allowedOrigins :: gostring
  sv_concurrency :: int
  sv_strictConfigSchema :: bool
  sv_parser :: parser
  sv_addr :: gostring

definition deployment_mode :: "environment \<Rightarrow> gostring" where
  "deployment_mode env =
     (let mode = ToLower (TrimSpace (env ''DEPLOYMENT_MODE'')) in if mode = [] then ''development'' else mode)"

definition rate_limit_per_minute :: "environment \<Rightarrow> int" where
  "rate_limit_per_minute env =
     (let n = envInt env ''ANALYZE_RATE_LIMIT_PER_MINUTE'' 0
      in if deployment_mode env = ''production'' \<and> n \<le> 0 then defaultRateLimitPerMinute else n)"

definition startup :: "environment \<Rightarrow> file_system \<Rightarrow> gostring + server" where
  "startup env fs =
     (let scriptPath = (if env ''PARSER_SCRIPT'' = [] then ''/app/parser-node/parse.ts'' else env ''PARSER_SCRIPT'');
          port = (if env ''PORT'' = [] then ''8080'' else env ''PORT'')
      in case NewParser env fs scriptPath of
           Inl err \<Rightarrow> Inl (''failed to initialize parser: '' @ err)
         | Inr p \<Rightarrow>
             let strictSchema = ToLower (TrimSpace (env ''STRICT_CONFIG_SCHEMA''));
                 authToken = TrimSpace (env ''ANALYZE_AUTH_TOKEN'')
             in case validateStartupAuthToken (deployment_mode env) authToken of
                  Some err \<Rightarrow> Inl err
                | None \<Rightarrow>
                    Inr \<lparr>sv_mode = deployment_mode env, sv_authToken = authToken,
                         sv_limiter = (if rate_limit_per_minute env > 0
                                       then Some (NewRateLimiter (rate_limit_per_minute env) 60000000000) else None),
                         sv_allowedOrigins = fst (resolveAllowedOrigins (deployment_mode env) (env ''ALLOWED_ORIGINS'')),
                         sv_concurrency = envInt env ''PARSER_CONCURRENCY_LIMIT'' defaultParserConcurrencyLimit,
                         sv_strictConfigSchema = (strictSchema = ''true'' \<or> strictSchema = ''1''),
                         sv_parser = p, sv_addr = '':'' @ port\<rparr>)"

section \<open>Routes and the chain\<close>

definition registered_routes :: "(gostring \<times> gostring) list" where
  "registered_routes =
     map (Pair ''GET'')
       [''/v1/healthz'', ''/v1/health'', ''/v1/health/metrics'', ''/v1/ready'', ''/v1/info'', ''/v1/metrics'',
        ''/v1/internal/metrics'', ''/v1/rules'', ''/v1/rules/schema'', ''/v1/diagram-types'', ''/v1/analyze/help''] @
     map (Pair ''POST'')
       [''/v1/analyze'', ''/v1/analyse'', ''/v1/analyze/raw'', ''/v1/analyse/raw'', ''/v1/analyze/sarif''] @
     map (Pair ''GET'') [''/v1/spec'', ''/v1/docs'', ''/v1/benchmark.html'', ''/v1/config-versions'', ''/v1/version'']"

definition routePatterns :: "(gostring, gostring) gomap" where
  "routePatterns = map (\<lambda>(m, p). (m @ '' '' @ p, p)) registered_routes"

record 'ip outside_world =
  ow_codec :: codec
  ow_net :: "'ip netip"
  ow_proxies :: gostring
  ow_error_doc :: "gostring \<Rightarrow> gostring \<Rightarrow> gostring"

text \<open>The limiter is part of the state; without one its middleware passes everything on.\<close>

definition root_handler :: "'ip outside_world \<Rightarrow> server \<Rightarrow> handler \<Rightarrow> handler" where
  "root_handler ow sv mux =
     (let h = RequestIDMiddleware mux;
          h = VersionNegotiationMiddleware h;
          h = AnalyzeResponseCompressionMiddleware (ow_codec ow) 0 h;
          h = AnalyzeRateLimitMiddleware (ow_error_doc ow) (ow_net ow) (ow_proxies ow) h;
          h = (if sv_mode sv = ''production'' then AnalyzeBearerAuthMiddleware (ow_error_doc ow) (sv_authToken sv) h else h);
          h = MetricsMiddleware h routePatterns True;
          h = AnalyzeLoggingMiddleware h
      in CORSMiddleware (sv_allowedOrigins sv) True h)"

section \<open>What a production server guarantees\<close>

lemma routes_protected: "(''POST'', path) \<in> set registered_routes \<Longrightarrow> isProtectedAnalyzePath path"
  by (auto simp: registered_routes_def isProtectedAnalyzePath_def isAnalyzeJSONPath_def)

lemma production_token: "startup env fs = Inr sv \<Longrightarrow> sv_mode sv = ''production'' \<Longrightarrow> TrimSpace (sv_authToken sv) \<noteq> []"
proof -
  have "EqualFold (TrimSpace ''production'') ''production''" by code_simp
  then show "startup env fs = Inr sv \<Longrightarrow> sv_mode sv = ''production'' \<Longrightarrow> TrimSpace (sv_authToken sv) \<noteq> []"
    by (auto simp: startup_def validateStartupAuthToken_def Let_def split: sum.splits option.splits if_splits)
qed

lemma Metrics_cong: "(\<And>ex. h r ex = h' r ex) \<Longrightarrow> MetricsMiddleware h rp m r ex = MetricsMiddleware h' rp m r ex"
  by (simp add: MetricsMiddleware_def with_recorder_def)

lemma Logging_cong:
  "(\<And>ex. h r ex = h' r ex) \<Longrightarrow> (\<And>ex. h (r\<lparr>ctx_logFields := True\<rparr>) ex = h' (r\<lparr>ctx_logFields := True\<rparr>) ex) \<Longrightarrow>
   AnalyzeLoggingMiddleware h r ex = AnalyzeLoggingMiddleware h' r ex"
  by (simp add: AnalyzeLoggingMiddleware_def with_recorder_def)

lemma presents_token_ctx [simp]: "presents_token tok (r\<lparr>ctx_logFields := b\<rparr>) = presents_token tok r"
  by (simp add: presents_token_def req_Get_def)

text \<open>
  C25: in production nothing is analysed without the token. A server that starts in production mode
  has a token, every registered POST route asks for it, and a POST request to such a route that does not present it
  gets status 401 (or dies in the CORS check): the routes behind the middleware are not consulted,
  so the answer does not depend on them, and the request does not count against the rate limit.
\<close>

theorem production_requires_token:
  assumes "startup env fs = Inr sv" "sv_mode sv = ''production''"
    and "rq_Method r = ''POST''" "(''POST'', rq_Path r) \<in> set registered_routes"
    and "\<not> presents_token (TrimSpace (sv_authToken sv)) r" "fresh ex"
  shows "TrimSpace (sv_authToken sv) \<noteq> [] \<and>
    (\<forall>mux'. root_handler ow sv mux' r ex = root_handler ow sv mux r ex) \<and>
    (case root_handler ow sv mux r ex of
       None \<Rightarrow> req_Get ''Origin'' r \<noteq> [] \<and>
         isAllowed (newCORSOriginMatcher (sv_allowedOrigins sv)) (req_Get ''Origin'' r) = None
     | Some ex' \<Rightarrow> sent_status ex' = Some 401 \<and> ex_limiter ex' = ex_limiter ex)"
proof -
  note tok = production_token [OF assms(1,2)] and prot = routes_protected [OF assms(4)]
  define inner where "inner mux = AnalyzeRateLimitMiddleware (ow_error_doc ow) (ow_net ow) (ow_proxies ow)
    (AnalyzeResponseCompressionMiddleware (ow_codec ow) 0 (VersionNegotiationMiddleware (RequestIDMiddleware mux)))" for mux
  define auth where "auth mux = AnalyzeBearerAuthMiddleware (ow_error_doc ow) (sv_authToken sv) (inner mux)" for mux
  define logged where "logged mux = AnalyzeLoggingMiddleware (MetricsMiddleware (auth mux) routePatterns True)" for mux
  have rh: "root_handler ow sv mux = CORSMiddleware (sv_allowedOrigins sv) True (logged mux)" for mux
    using assms(2) by (simp add: root_handler_def logged_def auth_def inner_def Let_def)
  have a: "answers 401 (auth mux) r'" "auth mux' r' = auth mux r'" if "r' \<in> {r, r\<lparr>ctx_logFields := True\<rparr>}" for r' mux mux'
    unfolding auth_def using BearerAuth_refuses [of r' "sv_authToken sv"] that assms(3,5) tok prot by auto
  have "logged mux' r e = logged mux r e" for mux mux' e
    unfolding logged_def using a(2) by (intro Logging_cong Metrics_cong) (auto dest: fun_cong)
  then have l: "logged mux' r e = logged mux r e" for mux mux' e by blast
  have ans: "answers 401 (logged mux) r" for mux
    unfolding logged_def using a(1) by (intro Logging_answers Metrics_answers) auto
  have post: "rq_Method r \<noteq> ''OPTIONS''" using assms(3) by simp
  obtain ex1 where ex1: "fresh ex1 = fresh ex" "ex_limiter ex1 = ex_limiter ex"
    "\<forall>h. CORSMiddleware (sv_allowedOrigins sv) True h r ex =
      (if req_Get ''Origin'' r \<noteq> [] \<and> isAllowed (newCORSOriginMatcher (sv_allowedOrigins sv)) (req_Get ''Origin'' r) = None
       then None else h r ex1)"
    by (rule CORS_passes_on [OF post, where ex = ex and origins = "sv_allowedOrigins sv" and m = True])
  obtain ex2 where ex2: "logged mux r ex1 = Some ex2" "sent_status ex2 = Some 401" "ex_limiter ex2 = ex_limiter ex1"
    using ans [of mux] ex1(1) assms(6) by (auto simp: answers_def)
  have "root_handler ow sv mux' r ex = root_handler ow sv mux r ex" for mux'
    unfolding rh ex1(3) [rule_format] by (simp only: l [of mux' ex1 mux])
  then show ?thesis using tok ex1(2) ex2 by (simp add: rh ex1(3) [rule_format])
qed

text \<open>A production environment, and a request without the header.\<close>

definition production_env :: environment where
  "production_env key =
     (if key = ''DEPLOYMENT_MODE'' then ''production'' else if key = ''ANALYZE_AUTH_TOKEN'' then ''s3cret'' else [])"

definition example_request :: http_request where
  "example_request = \<lparr>rq_Method = ''POST'', rq_Path = ''/v1/analyze'', rq_RemoteAddr = ''9.9.9.9'', rq_Header = [],
     ctx_requestID = None, ctx_version = None, ctx_logFields = False, rq_now = 0, rq_ord = (\<lambda>ks. ks), rq_uuid = ''u''\<rparr>"

definition example_world :: "gostring outside_world" where
  "example_world = \<lparr>ow_codec = toy_codec, ow_net = toy_net, ow_proxies = [], ow_error_doc = (\<lambda>c m. c @ m)\<rparr>"

definition example_exchange :: exchange where
  "example_exchange = \<lparr>ex_limiter = Some (NewRateLimiter 120 60000000000), ex_lastLog = None,
     ex_fields = \<lparr>lf_requestID = [], lf_parserOutcome = [], lf_diagramType = []\<rparr>, ex_events = [],
     ex_writer = Conn \<lparr>c_header = [], c_sent = None, c_body = []\<rparr>\<rparr>"

theorem production_requires_token_witness:
  "\<exists>sv ex'. startup production_env (plain_fs ''/srv'' [''/srv/go.mod'']) = Inr sv \<and>
     root_handler example_world sv (\<lambda>r ex. Some ex) example_request example_exchange = Some ex' \<and> sent_status ex' = Some 401"
proof -
  let ?fs = "plain_fs ''/srv'' [''/srv/go.mod'']"
  have root: "findRepoRoot ?fs = Inr ''/srv''" by code_simp
  have val: "validateStartupAuthToken ''production'' (TrimSpace (production_env ''ANALYZE_AUTH_TOKEN'')) = None"
    "deployment_mode production_env = ''production''" by code_simp+
  obtain sv where sv: "startup production_env ?fs = Inr sv" "sv_mode sv = ''production''"
    by (simp add: startup_def NewParser_def newWithConfigAndCacheAndRepoRootResolver_def root val Let_def)
  have org: "req_Get ''Origin'' example_request = []" "req_Get ''Authorization'' example_request = []"
    by (simp_all add: req_Get_def example_request_def h_Get_def h_Values_def)
  have bare: "\<not> presents_token (TrimSpace (sv_authToken sv)) example_request"
    using org(2) trim_left.simps [of "[]"] trim_right.simps [of "[]"]
    by (simp add: presents_token_def TrimSpace_def space_encodings_def)
  show ?thesis
    using production_requires_token [OF sv _ _ bare, of example_exchange example_world "\<lambda>r ex. Some ex"] sv(1) org(1)
    by (auto simp: example_request_def example_exchange_def registered_routes_def fresh_def split: option.splits)
qed

end
