(* ===== verification/Telemetry.thy ===== *)
theory Telemetry
  imports Strconv Engine Http "HOL-Library.Word"
begin

text \<open>
  The metrics of \<^verbatim>\<open>internal/telemetry\<close>: outcomes, labelled counters, gauges and histograms,
  their text form, and the metrics object that the rest of the program reports to. Every operation on
  a metric runs under its mutex. A call with the wrong number of label values panics: \<open>None\<close>.
  A \<^verbatim>\<open>uint64\<close> is a 64-bit word. A \<^verbatim>\<open>float64\<close> is the rational it denotes and every
  operation rounds its result to the nearest double (\<open>round64\<close>); the values here are sums of
  durations and never overflow. The decimal text of a \<^verbatim>\<open>float64\<close> is a parameter \<open>FormatFloat\<close>.
\<close>

section \<open>Doubles\<close>

fun bits :: "nat \<Rightarrow> nat" where
  "bits n = (if n = 0 then 0 else Suc (bits (n div 2)))"

declare bits.simps [simp del]

definition binary_exponent :: "rat \<Rightarrow> int" where
  "binary_exponent x =
     (let (n, d) = quotient_of x; e = int (bits (nat n)) - int (bits (nat d))
      in if 2 powi e \<le> x then e else e - 1)"

definition half_even :: "rat \<Rightarrow> int" where
  "half_even q =
     (let f = \<lfloor>q\<rfloor>; r = q - of_int f in if r < 1 / 2 \<or> (r = 1 / 2 \<and> even f) then f else f + 1)"

definition round64 :: "rat \<Rightarrow> rat" where
  "round64 x =
     (if x = 0 then 0
      else let u = 2 powi (max (binary_exponent \<bar>x\<bar> - 52) (- 1074)) in of_int (half_even (x / u)) * u)"

text \<open>\<^verbatim>\<open>Duration.Seconds\<close>: whole seconds plus the fraction, in doubles.\<close>

definition Seconds :: "int \<Rightarrow> rat" where
  "Seconds d =
     (let sec = sgn d * (\<bar>d\<bar> div Second); nsec = sgn d * (\<bar>d\<bar> mod Second)
      in round64 (round64 (of_int sec) + round64 (round64 (of_int nsec) / 1000000000)))"

section \<open>Outcomes\<close>

datatype outcome =
    OutcomeSyntaxErrorType | OutcomeLintSuccessType | OutcomeParserTimeoutType | OutcomeParserSubprocessErrType
  | OutcomeParserDecodeErrType | OutcomeParserContractErrType | OutcomeInternalErrorType | OutcomeOtherType

fun outcome_String :: "outcome \<Rightarrow> gostring" where
  "outcome_String OutcomeSyntaxErrorType = ''syntax_error''"
| "outcome_String OutcomeLintSuccessType = ''lint_success''"
| "outcome_String OutcomeParserTimeoutType = ''parser_timeout''"
| "outcome_String OutcomeParserSubprocessErrType = ''parser_subprocess_error''"
| "outcome_String OutcomeParserDecodeErrType = ''parser_decode_error''"
| "outcome_String OutcomeParserContractErrType = ''parser_contract_violation''"
| "outcome_String OutcomeInternalErrorType = ''internal_error''"
| "outcome_String OutcomeOtherType = ''other''"

definition ValidOutcome :: "gostring \<Rightarrow> bool" where
  "ValidOutcome s \<longleftrightarrow> s \<in> set [''syntax_error'', ''lint_success'', ''parser_timeout'', ''parser_subprocess_error'',
     ''parser_decode_error'', ''parser_contract_violation'', ''internal_error'', ''other'']"

definition CanonicalOutcome :: "gostring \<Rightarrow> gostring" where
  "CanonicalOutcome s = (if ValidOutcome s then s else ''other'')"

definition OutcomeFromString :: "gostring \<Rightarrow> outcome option" where
  "OutcomeFromString s =
     (if s = ''syntax_error'' then Some OutcomeSyntaxErrorType
      else if s = ''lint_success'' then Some OutcomeLintSuccessType
      else if s = ''parser_timeout'' then Some OutcomeParserTimeoutType
      else if s = ''parser_subprocess_error'' then Some OutcomeParserSubprocessErrType
      else if s = ''parser_decode_error'' then Some OutcomeParserDecodeErrType
      else if s = ''parser_contract_violation'' then Some OutcomeParserContractErrType
      else if s = ''internal_error'' then Some OutcomeInternalErrorType
      else if s = ''other'' then Some OutcomeOtherType
      else None)"

lemma OutcomeFromString_String: "OutcomeFromString (outcome_String o') = Some o'"
  by (cases o') (simp_all add: OutcomeFromString_def)

lemma OutcomeFromString_Some: "OutcomeFromString s = Some o' \<longleftrightarrow> s = outcome_String o'"
proof
  assume "OutcomeFromString s = Some o'"
  then show "s = outcome_String o'" by (auto simp: OutcomeFromString_def split: if_splits)
qed (simp add: OutcomeFromString_String)

lemma ValidOutcome_iff: "ValidOutcome s \<longleftrightarrow> (\<exists>o'. s = outcome_String o')"
proof
  assume "ValidOutcome s"
  then have "OutcomeFromString s \<noteq> None" by (auto simp: ValidOutcome_def OutcomeFromString_def)
  then show "\<exists>o'. s = outcome_String o'" using OutcomeFromString_Some by blast
next
  assume "\<exists>o'. s = outcome_String o'"
  then obtain o' where "s = outcome_String o'" by blast
  then show "ValidOutcome s" by (cases o') (simp_all add: ValidOutcome_def)
qed

section \<open>Labelled series\<close>

text \<open>\<^verbatim>\<open>labelValuesKey\<close>: each value with its length in front.\<close>

definition labelValuesKey :: "gostring list \<Rightarrow> gostring" where
  "labelValuesKey labelValues = concat (map (\<lambda>v. Itoa (int (length v)) @ '':'' @ v) labelValues)"

record counter_series =
  cs_labels :: "gostring list"
  cs_value :: "64 word"

record counter_vec =
  cv_name :: gostring
  cv_help :: gostring
  cv_labelNames :: "gostring list"
  cv_series :: "(gostring, counter_series) gomap"

definition newCounterVec :: "gostring \<Rightarrow> gostring \<Rightarrow> gostring list \<Rightarrow> counter_vec" where
  "newCounterVec name help labelNames = \<lparr>cv_name = name, cv_help = help, cv_labelNames = labelNames, cv_series = []\<rparr>"

definition validateLabelValues :: "gostring list \<Rightarrow> gostring list \<Rightarrow> bool" where
  "validateLabelValues labelNames labelValues \<longleftrightarrow> length labelNames = length labelValues"

definition counter_inc :: "gostring list \<Rightarrow> counter_vec \<Rightarrow> counter_vec option" where
  "counter_inc labelValues cv =
     (if \<not> validateLabelValues (cv_labelNames cv) labelValues then None
      else let key = labelValuesKey labelValues;
               series = (case map_of (cv_series cv) key of
                 None \<Rightarrow> \<lparr>cs_labels = labelValues, cs_value = 0\<rparr> | Some s \<Rightarrow> s);
               series = series\<lparr>cs_value := cs_value series + 1\<rparr>
           in Some (cv\<lparr>cv_series := AList.update key series (cv_series cv)\<rparr>))"

text \<open>A gauge has the same shape; setting it replaces the series.\<close>

definition newGaugeVec :: "gostring \<Rightarrow> gostring \<Rightarrow> gostring list \<Rightarrow> counter_vec" where
  "newGaugeVec name help labelNames = \<lparr>cv_name = name, cv_help = help, cv_labelNames = labelNames, cv_series = []\<rparr>"

definition gauge_set :: "64 word \<Rightarrow> gostring list \<Rightarrow> counter_vec \<Rightarrow> counter_vec option" where
  "gauge_set value labelValues gv =
     (if \<not> validateLabelValues (cv_labelNames gv) labelValues then None
      else Some (gv\<lparr>cv_series := AList.update (labelValuesKey labelValues)
             \<lparr>cs_labels = labelValues, cs_value = value\<rparr> (cv_series gv)\<rparr>))"

definition defaultHistogramBuckets :: "rat list" where
  "defaultHistogramBuckets =
     map round64 [5 / 1000, 1 / 100, 25 / 1000, 5 / 100, 1 / 10, 25 / 100, 5 / 10, 1, 25 / 10, 5, 10]"

record histogram_series =
  hs_labels :: "gostring list"
  hs_buckets :: "64 word list"
  hs_count :: "64 word"
  hs_sum :: rat

record histogram_vec =
  hv_name :: gostring
  hv_help :: gostring
  hv_labelNames :: "gostring list"
  hv_buckets :: "rat list"
  hv_series :: "(gostring, histogram_series) gomap"

definition newHistogramVec :: "gostring \<Rightarrow> gostring \<Rightarrow> gostring list \<Rightarrow> histogram_vec" where
  "newHistogramVec name help labelNames =
     \<lparr>hv_name = name, hv_help = help, hv_labelNames = labelNames, hv_buckets = defaultHistogramBuckets, hv_series = []\<rparr>"

definition new_histogram_series :: "gostring list \<Rightarrow> histogram_vec \<Rightarrow> histogram_series" where
  "new_histogram_series labelValues hv =
     \<lparr>hs_labels = labelValues, hs_buckets = map (\<lambda>_. 0) (hv_buckets hv), hs_count = 0, hs_sum = 0\<rparr>"

definition histogram_add :: "rat list \<Rightarrow> rat \<Rightarrow> histogram_series \<Rightarrow> histogram_series" where
  "histogram_add bounds value series =
     series\<lparr>hs_count := hs_count series + 1, hs_sum := round64 (hs_sum series + value),
       hs_buckets := map2 (\<lambda>upperBound n. if value \<le> upperBound then n + 1 else n) bounds (hs_buckets series)\<rparr>"

definition histogram_observe :: "rat \<Rightarrow> gostring list \<Rightarrow> histogram_vec \<Rightarrow> histogram_vec option" where
  "histogram_observe value labelValues hv =
     (if \<not> validateLabelValues (hv_labelNames hv) labelValues then None
      else let key = labelValuesKey labelValues;
               series = (case map_of (hv_series hv) key of None \<Rightarrow> new_histogram_series labelValues hv | Some s \<Rightarrow> s)
           in Some (hv\<lparr>hv_series := AList.update key (histogram_add (hv_buckets hv) value series) (hv_series hv)\<rparr>))"

section \<open>Text form\<close>

definition escape_with :: "char list \<Rightarrow> gostring \<Rightarrow> gostring" where
  "escape_with special s =
     concat (map (\<lambda>c. if c = CHR 0x0A then [CHR 0x5C, CHR ''n''] else if c \<in> set special then [CHR 0x5C, c] else [c]) s)"

definition labelEscaper :: "gostring \<Rightarrow> gostring" where
  "labelEscaper = escape_with [CHR 0x5C, CHR 0x22]"

definition helpEscaper :: "gostring \<Rightarrow> gostring" where
  "helpEscaper = escape_with [CHR 0x5C]"

definition label_pair :: "gostring \<Rightarrow> gostring \<Rightarrow> gostring" where
  "label_pair name value = name @ ''='' @ [CHR 0x22] @ labelEscaper value @ [CHR 0x22]"

definition formatPrometheusLabels :: "gostring list \<Rightarrow> gostring list \<Rightarrow> gostring option" where
  "formatPrometheusLabels labelNames labelValues =
     (if labelNames = [] then Some []
      else if \<not> validateLabelValues labelNames labelValues then None
      else Some (''{'' @ Join (map2 label_pair labelNames labelValues) '','' @ ''}''))"

definition nl :: gostring where "nl = [CHR 0x0A]"

definition appendMetricHeader :: "gostring \<Rightarrow> gostring \<Rightarrow> gostring \<Rightarrow> gostring" where
  "appendMetricHeader name help kind =
     ''# HELP '' @ name @ '' '' @ helpEscaper help @ nl @ ''# TYPE '' @ name @ '' '' @ kind @ nl"

definition word_string :: "64 word \<Rightarrow> gostring" where
  "word_string w = Itoa (uint w)"

definition series_line :: "gostring \<Rightarrow> gostring list \<Rightarrow> gostring list \<Rightarrow> gostring \<Rightarrow> gostring option" where
  "series_line name labelNames labels value =
     map_option (\<lambda>l. name @ l @ '' '' @ value @ nl) (formatPrometheusLabels labelNames labels)"

text \<open>The text of a list of lines, if none of them panics.\<close>

fun text_of :: "gostring option list \<Rightarrow> gostring option" where
  "text_of [] = Some []"
| "text_of (None # ls) = None"
| "text_of (Some l # ls) = map_option (\<lambda>t. l @ t) (text_of ls)"

definition sorted_series :: "(gostring, 's) gomap \<Rightarrow> 's list" where
  "sorted_series m = map (\<lambda>k. the (map_of m k)) (sort (gm_keys m))"

definition counter_lines :: "counter_vec \<Rightarrow> gostring option list" where
  "counter_lines cv =
     map (\<lambda>s. series_line (cv_name cv) (cv_labelNames cv) (cs_labels s) (word_string (cs_value s))) (sorted_series (cv_series cv))"

definition counter_appendPrometheus :: "gostring \<Rightarrow> counter_vec \<Rightarrow> gostring option" where
  "counter_appendPrometheus kind cv =
     map_option (\<lambda>t. appendMetricHeader (cv_name cv) (cv_help cv) kind @ t) (text_of (counter_lines cv))"

definition histogram_lines :: "(char \<Rightarrow> rat \<Rightarrow> gostring) \<Rightarrow> histogram_vec \<Rightarrow> gostring option list" where
  "histogram_lines FormatFloat hv =
     concat (map (\<lambda>s.
       map2 (\<lambda>upperBound n. series_line (hv_name hv @ ''_bucket'') (hv_labelNames hv @ [''le''])
               (hs_labels s @ [FormatFloat (CHR ''f'') upperBound]) (word_string n)) (hv_buckets hv) (hs_buckets s) @
       [series_line (hv_name hv @ ''_bucket'') (hv_labelNames hv @ [''le'']) (hs_labels s @ [''+Inf'']) (word_string (hs_count s)),
        series_line (hv_name hv @ ''_sum'') (hv_labelNames hv) (hs_labels s) (FormatFloat (CHR ''g'') (hs_sum s)),
        series_line (hv_name hv @ ''_count'') (hv_labelNames hv) (hs_labels s) (word_string (hs_count s))])
       (sorted_series (hv_series hv)))"

definition histogram_appendPrometheus :: "(char \<Rightarrow> rat \<Rightarrow> gostring) \<Rightarrow> histogram_vec \<Rightarrow> gostring option" where
  "histogram_appendPrometheus FormatFloat hv =
     map_option (\<lambda>t. appendMetricHeader (hv_name hv) (hv_help hv) ''histogram'' @ t) (text_of (histogram_lines FormatFloat hv))"

section \<open>The metrics object\<close>

record metrics =
  requestTotal :: counter_vec
  requestDuration :: histogram_vec
  analyzeRequests :: counter_vec
  parserDuration :: histogram_vec
  parserLatency :: histogram_vec
  ruleExecutionTime :: histogram_vec
  ruleIssuesEmitted :: counter_vec
  ruleViolationsBySev :: counter_vec
  ruleSuppressions :: counter_vec
  analysisLatency :: histogram_vec
  diagramTypeAnalyzed :: counter_vec
  lintSupportCheckCount :: counter_vec
  corsRejectedTotal :: counter_vec
  parserCacheEvents :: counter_vec
  analysisCacheEvents :: counter_vec
  parserCacheBytes :: counter_vec

definition NewMetrics :: metrics where
  "NewMetrics = \<lparr>
     requestTotal = newCounterVec ''request_total'' ''Total number of HTTP requests by route, method, and status.'' [''route'', ''method'', ''status''],
     requestDuration = newHistogramVec ''request_duration_seconds'' ''Duration of HTTP requests in seconds by route and method.'' [''route'', ''method''],
     analyzeRequests = newCounterVec ''analyze_requests_total'' ''Total analyze requests by outcome.'' [''outcome''],
     parserDuration = newHistogramVec ''parser_duration_seconds'' ''Duration of parser invocations in seconds by outcome.'' [''outcome''],
     parserLatency = newHistogramVec ''parser_latency_seconds'' ''Parser request latency in seconds by outcome.'' [''outcome''],
     ruleExecutionTime = newHistogramVec ''rule_execution_duration_seconds'' ''Duration of individual rule executions in seconds.'' [''rule_id''],
     ruleIssuesEmitted = newCounterVec ''rule_issues_emitted_total'' ''Total number of issues emitted by each linting rule.'' [''rule_id''],
     ruleViolationsBySev = newCounterVec ''rule_violations_by_severity_total'' ''Total violations by rule ID and severity (error, warning, info).'' [''rule_id'', ''severity''],
     ruleSuppressions = newCounterVec ''rule_suppressions_total'' ''Total suppressions applied by rule ID.'' [''rule_id''],
     analysisLatency = newHistogramVec ''analysis_latency_seconds'' ''End-to-end analysis latency in seconds (from parse to linting complete).'' [''diagram_type''],
     diagramTypeAnalyzed = newCounterVec ''diagram_type_analyzed_total'' ''Total diagrams analyzed by type.'' [''diagram_type''],
     lintSupportCheckCount = newCounterVec ''lint_support_check_total'' ''Total lint-support checks by result (supported or unsupported).'' [''diagram_type'', ''result''],
     corsRejectedTotal = newCounterVec ''cors_rejected_total'' ''Total CORS requests rejected because origin is not in the allowlist.'' [],
     parserCacheEvents = newCounterVec ''parser_cache_events_total'' ''Parser cache events grouped by result (hit/miss/eviction) and entry type.'' [''result'', ''entry_type''],
     analysisCacheEvents = newCounterVec ''analysis_cache_events_total'' ''Analysis result cache events grouped by result (hit/miss/eviction).'' [''result''],
     parserCacheBytes = newGaugeVec ''parser_cache_estimated_bytes'' ''Estimated bytes retained by parser result caches.'' [''entry_type'']\<rparr>"

definition ObserveParserCacheBytes :: "gostring \<Rightarrow> int \<Rightarrow> metrics \<Rightarrow> metrics option" where
  "ObserveParserCacheBytes entryType bytes m =
     (let entryType = (if entryType \<noteq> ''success'' \<and> entryType \<noteq> ''syntax'' then ''any'' else entryType);
          bytes = (if bytes < 0 then 0 else bytes)
      in map_option (\<lambda>g. m\<lparr>parserCacheBytes := g\<rparr>) (gauge_set (word_of_int bytes) [entryType] (parserCacheBytes m)))"

definition cache_event_result :: "gostring \<Rightarrow> gostring" where
  "cache_event_result result = (if result \<in> set [''hit'', ''miss'', ''eviction''] then result else ''miss'')"

definition ObserveAnalysisCacheEvent :: "gostring \<Rightarrow> metrics \<Rightarrow> metrics option" where
  "ObserveAnalysisCacheEvent result m =
     map_option (\<lambda>c. m\<lparr>analysisCacheEvents := c\<rparr>) (counter_inc [cache_event_result result] (analysisCacheEvents m))"

definition ObserveHTTPRequest :: "gostring \<Rightarrow> gostring \<Rightarrow> int \<Rightarrow> int \<Rightarrow> metrics \<Rightarrow> metrics option" where
  "ObserveHTTPRequest route method status duration m =
     (case counter_inc [route, method, Itoa status] (requestTotal m) of
        None \<Rightarrow> None
      | Some c \<Rightarrow> map_option (\<lambda>h. m\<lparr>requestTotal := c, requestDuration := h\<rparr>)
                   (histogram_observe (Seconds duration) [route, method] (requestDuration m)))"

definition ObserveAnalyzeOutcome :: "gostring \<Rightarrow> metrics \<Rightarrow> metrics option" where
  "ObserveAnalyzeOutcome outcome m =
     map_option (\<lambda>c. m\<lparr>analyzeRequests := c\<rparr>) (counter_inc [CanonicalOutcome outcome] (analyzeRequests m))"

definition ObserveParserDuration :: "gostring \<Rightarrow> int \<Rightarrow> metrics \<Rightarrow> metrics option" where
  "ObserveParserDuration outcome duration m =
     map_option (\<lambda>h. m\<lparr>parserDuration := h\<rparr>)
       (histogram_observe (Seconds duration) [CanonicalOutcome outcome] (parserDuration m))"

definition ObserveParserLatency :: "gostring \<Rightarrow> int \<Rightarrow> metrics \<Rightarrow> metrics option" where
  "ObserveParserLatency outcome duration m =
     map_option (\<lambda>h. m\<lparr>parserLatency := h\<rparr>)
       (histogram_observe (Seconds duration) [CanonicalOutcome outcome] (parserLatency m))"

definition ObserveRuleExecutionDuration :: "gostring \<Rightarrow> int \<Rightarrow> metrics \<Rightarrow> metrics option" where
  "ObserveRuleExecutionDuration ruleID duration m =
     map_option (\<lambda>h. m\<lparr>ruleExecutionTime := h\<rparr>) (histogram_observe (Seconds duration) [ruleID] (ruleExecutionTime m))"

fun inc_times :: "nat \<Rightarrow> gostring list \<Rightarrow> counter_vec \<Rightarrow> counter_vec option" where
  "inc_times 0 labelValues cv = Some cv"
| "inc_times (Suc n) labelValues cv =
     (case counter_inc labelValues cv of None \<Rightarrow> None | Some cv \<Rightarrow> inc_times n labelValues cv)"

definition ObserveRuleIssuesEmitted :: "gostring \<Rightarrow> int \<Rightarrow> metrics \<Rightarrow> metrics option" where
  "ObserveRuleIssuesEmitted ruleID n m =
     map_option (\<lambda>c. m\<lparr>ruleIssuesEmitted := c\<rparr>) (inc_times (nat n) [ruleID] (ruleIssuesEmitted m))"

definition RecordRuleMetrics :: "rule_metrics \<Rightarrow> metrics \<Rightarrow> metrics option" where
  "RecordRuleMetrics rm m =
     (case ObserveRuleExecutionDuration (met_RuleID rm) (met_TotalDurationNS rm) m of
        None \<Rightarrow> None
      | Some m \<Rightarrow> ObserveRuleIssuesEmitted (met_RuleID rm) (met_IssuesEmitted rm) m)"

definition ObserveRuleViolationBySeverity :: "gostring \<Rightarrow> gostring \<Rightarrow> metrics \<Rightarrow> metrics option" where
  "ObserveRuleViolationBySeverity ruleID severity m =
     (if severity \<in> set [''error'', ''warning'', ''info'']
      then map_option (\<lambda>c. m\<lparr>ruleViolationsBySev := c\<rparr>) (counter_inc [ruleID, severity] (ruleViolationsBySev m))
      else Some m)"

definition ObserveRuleSuppression :: "gostring \<Rightarrow> metrics \<Rightarrow> metrics option" where
  "ObserveRuleSuppression ruleID m =
     map_option (\<lambda>c. m\<lparr>ruleSuppressions := c\<rparr>) (counter_inc [ruleID] (ruleSuppressions m))"

definition ObserveAnalysisLatency :: "gostring \<Rightarrow> int \<Rightarrow> metrics \<Rightarrow> metrics option" where
  "ObserveAnalysisLatency diagramType duration m =
     map_option (\<lambda>h. m\<lparr>analysisLatency := h\<rparr>) (histogram_observe (Seconds duration) [diagramType] (analysisLatency m))"

definition ObserveDiagramTypeAnalyzed :: "gostring \<Rightarrow> metrics \<Rightarrow> metrics option" where
  "ObserveDiagramTypeAnalyzed diagramType m =
     map_option (\<lambda>c. m\<lparr>diagramTypeAnalyzed := c\<rparr>) (counter_inc [diagramType] (diagramTypeAnalyzed m))"

definition ObserveLintSupportCheck :: "gostring \<Rightarrow> bool \<Rightarrow> metrics \<Rightarrow> metrics option" where
  "ObserveLintSupportCheck diagramType supported m =
     map_option (\<lambda>c. m\<lparr>lintSupportCheckCount := c\<rparr>)
       (counter_inc [diagramType, if supported then ''supported'' else ''unsupported''] (lintSupportCheckCount m))"

definition ObserveCORSRejectedOrigin :: "metrics \<Rightarrow> metrics option" where
  "ObserveCORSRejectedOrigin m = map_option (\<lambda>c. m\<lparr>corsRejectedTotal := c\<rparr>) (counter_inc [] (corsRejectedTotal m))"

definition ObserveParserCacheEvent :: "gostring \<Rightarrow> gostring \<Rightarrow> metrics \<Rightarrow> metrics option" where
  "ObserveParserCacheEvent result entryType m =
     (let entryType = (if entryType \<in> set [''success'', ''syntax'', ''any''] then entryType else ''any'')
      in map_option (\<lambda>c. m\<lparr>parserCacheEvents := c\<rparr>) (counter_inc [cache_event_result result, entryType] (parserCacheEvents m)))"

text \<open>The text of all collectors, in their order: the body \<^verbatim>\<open>Handler\<close> writes.\<close>

definition collector_texts :: "(char \<Rightarrow> rat \<Rightarrow> gostring) \<Rightarrow> metrics \<Rightarrow> gostring option list" where
  "collector_texts FormatFloat m =
     (let cnt = counter_appendPrometheus ''counter''; his = histogram_appendPrometheus FormatFloat
      in [cnt (requestTotal m), his (requestDuration m), cnt (analyzeRequests m), his (parserDuration m), his (parserLatency m),
          his (ruleExecutionTime m), cnt (ruleIssuesEmitted m), cnt (ruleViolationsBySev m), cnt (ruleSuppressions m),
          his (analysisLatency m), cnt (diagramTypeAnalyzed m), cnt (lintSupportCheckCount m), cnt (corsRejectedTotal m),
          cnt (parserCacheEvents m), cnt (analysisCacheEvents m), counter_appendPrometheus ''gauge'' (parserCacheBytes m)])"

definition metrics_payload :: "(char \<Rightarrow> rat \<Rightarrow> gostring) \<Rightarrow> metrics \<Rightarrow> gostring option" where
  "metrics_payload FormatFloat m = text_of (collector_texts FormatFloat m)"

text \<open>
  The calls the program makes on its metrics object, which may be nil: every method does nothing then,
  and the handler answers that there is no such page.
\<close>

datatype metrics_call =
    MParserCacheBytes gostring int
  | MAnalysisCacheEvent gostring
  | MHTTPRequest gostring gostring int int
  | MAnalyzeOutcome gostring
  | MParserDuration gostring int
  | MParserLatency gostring int
  | MRuleExecutionDuration gostring int
  | MRuleIssuesEmitted gostring int
  | MRuleMetrics rule_metrics
  | MRuleViolation gostring gostring
  | MRuleSuppression gostring
  | MAnalysisLatency gostring int
  | MDiagramTypeAnalyzed gostring
  | MLintSupportCheck gostring bool
  | MCORSRejectedOrigin
  | MParserCacheEvent gostring gostring

fun run_calls :: "('c \<Rightarrow> 's \<Rightarrow> 's option) \<Rightarrow> 'c list \<Rightarrow> 's \<Rightarrow> 's option" where
  "run_calls step [] s = Some s"
| "run_calls step (c # cs) s = (case step c s of None \<Rightarrow> None | Some s \<Rightarrow> run_calls step cs s)"

fun metrics_do :: "metrics_call \<Rightarrow> metrics \<Rightarrow> metrics option" where
  "metrics_do (MParserCacheBytes t n) = ObserveParserCacheBytes t n"
| "metrics_do (MAnalysisCacheEvent r) = ObserveAnalysisCacheEvent r"
| "metrics_do (MHTTPRequest r mt s d) = ObserveHTTPRequest r mt s d"
| "metrics_do (MAnalyzeOutcome oc) = ObserveAnalyzeOutcome oc"
| "metrics_do (MParserDuration oc d) = ObserveParserDuration oc d"
| "metrics_do (MParserLatency oc d) = ObserveParserLatency oc d"
| "metrics_do (MRuleExecutionDuration r d) = ObserveRuleExecutionDuration r d"
| "metrics_do (MRuleIssuesEmitted r n) = ObserveRuleIssuesEmitted r n"
| "metrics_do (MRuleMetrics rm) = RecordRuleMetrics rm"
| "metrics_do (MRuleViolation r s) = ObserveRuleViolationBySeverity r s"
| "metrics_do (MRuleSuppression r) = ObserveRuleSuppression r"
| "metrics_do (MAnalysisLatency t d) = ObserveAnalysisLatency t d"
| "metrics_do (MDiagramTypeAnalyzed t) = ObserveDiagramTypeAnalyzed t"
| "metrics_do (MLintSupportCheck t s) = ObserveLintSupportCheck t s"
| "metrics_do MCORSRejectedOrigin = ObserveCORSRejectedOrigin"
| "metrics_do (MParserCacheEvent r t) = ObserveParserCacheEvent r t"

definition metrics_method :: "metrics_call \<Rightarrow> metrics option \<Rightarrow> metrics option option" where
  "metrics_method c receiver = (case receiver of None \<Rightarrow> Some None | Some m \<Rightarrow> map_option Some (metrics_do c m))"

definition NotFound :: "writer \<Rightarrow> writer" where
  "NotFound w =
     w_Write (''404 page not found'' @ nl) (w_WriteHeader 404 (w_update (\<lambda>h.
       h_Set ''X-Content-Type-Options'' ''nosniff'' (h_Set ''Content-Type'' ''text/plain; charset=utf-8'' (h_Del ''Content-Length'' h))) w))"

definition metrics_Handler :: "(char \<Rightarrow> rat \<Rightarrow> gostring) \<Rightarrow> metrics option \<Rightarrow> writer \<Rightarrow> writer option" where
  "metrics_Handler FormatFloat receiver w =
     (case receiver of
        None \<Rightarrow> Some (NotFound w)
      | Some m \<Rightarrow>
          (let w = w_update (h_Set ''Content-Type'' ''text/plain; version=0.0.4; charset=utf-8'') w
           in map_option (\<lambda>page. w_Write page w) (metrics_payload FormatFloat m)))"

definition metrics_run :: "metrics_call list \<Rightarrow> metrics \<Rightarrow> metrics option" where
  "metrics_run = run_calls metrics_do"

section \<open>Keys of series\<close>

lemma labelValuesKey_simps [simp]:
  "labelValuesKey [] = []"
  "labelValuesKey (v # vs) = Itoa (int (length v)) @ CHR '':'' # v @ labelValuesKey vs"
  by (simp_all add: labelValuesKey_def)

lemma colon_not_in_Itoa: "CHR '':'' \<notin> set (Itoa (int n))"
  using nat_string_digits [of "CHR '':''" n] by (auto simp: Itoa_def digit_value_def)

lemma length_prefix_inject:
  assumes "Itoa (int n) @ CHR '':'' # xs = Itoa (int m) @ CHR '':'' # ys"
  shows "n = m \<and> xs = ys"
proof -
  have field: "takeWhile (\<lambda>c. c \<noteq> CHR '':'') (Itoa (int k) @ CHR '':'' # zs) = Itoa (int k)" for k zs
    using colon_not_in_Itoa [of k] by (subst takeWhile_append2) auto
  have "Itoa (int n) = Itoa (int m)" using field [of n xs] field [of m ys] assms by simp
  with assms show ?thesis by (simp add: Itoa_inject)
qed

text \<open>Different label values never share a series.\<close>

lemma labelValuesKey_inject: "labelValuesKey vs = labelValuesKey ws \<longleftrightarrow> vs = ws"
proof
  show "labelValuesKey vs = labelValuesKey ws \<Longrightarrow> vs = ws"
  proof (induction vs arbitrary: ws)
    case Nil
    then show ?case by (cases ws) simp_all
  next
    case (Cons v vs)
    then obtain w ws' where ws: "ws = w # ws'" by (cases ws) simp_all
    note parts = length_prefix_inject [OF Cons.prems [unfolded ws labelValuesKey_simps]]
    then have "v = w \<and> labelValuesKey vs = labelValuesKey ws'" using append_eq_append_conv by blast
    with Cons.IH show ?case by (simp add: ws)
  qed
qed simp

section \<open>Typed series\<close>

text \<open>Every series is filed under the key of its own labels, one value for every label name.\<close>

definition counter_wf :: "counter_vec \<Rightarrow> bool" where
  "counter_wf cv \<longleftrightarrow> distinct (gm_keys (cv_series cv)) \<and>
     list_all (\<lambda>(k, s). k = labelValuesKey (cs_labels s) \<and> length (cs_labels s) = length (cv_labelNames cv)) (cv_series cv)"

definition histogram_wf :: "histogram_vec \<Rightarrow> bool" where
  "histogram_wf hv \<longleftrightarrow> distinct (gm_keys (hv_series hv)) \<and>
     list_all (\<lambda>(k, s). k = labelValuesKey (hs_labels s) \<and> length (hs_labels s) = length (hv_labelNames hv) \<and>
       length (hs_buckets s) = length (hv_buckets hv)) (hv_series hv)"

lemma list_all_update:
  "list_all P m \<Longrightarrow> P (k, v) \<Longrightarrow> list_all P (AList.update k v m)"
  by (induction m) auto

lemma list_all_lookup: "list_all P m \<Longrightarrow> map_of m k = Some v \<Longrightarrow> P (k, v)"
  by (auto simp: list_all_iff dest: map_of_SomeD)

definition counter_value :: "counter_vec \<Rightarrow> gostring list \<Rightarrow> 64 word" where
  "counter_value cv ls = (case map_of (cv_series cv) (labelValuesKey ls) of None \<Rightarrow> 0 | Some s \<Rightarrow> cs_value s)"

definition bucket_value :: "histogram_vec \<Rightarrow> nat \<Rightarrow> gostring list \<Rightarrow> 64 word" where
  "bucket_value hv i ls = (case map_of (hv_series hv) (labelValuesKey ls) of None \<Rightarrow> 0 | Some s \<Rightarrow> hs_buckets s ! i)"

lemma counter_inc_ok:
  assumes "counter_wf cv" and "length ls = length (cv_labelNames cv)"
  shows "\<exists>cv'. counter_inc ls cv = Some cv' \<and> counter_wf cv' \<and> cv_labelNames cv' = cv_labelNames cv \<and>
    (\<forall>ls'. counter_value cv' ls' = counter_value cv ls' + (if ls' = ls then 1 else 0))"
proof (cases "map_of (cv_series cv) (labelValuesKey ls)")
  case None
  then show ?thesis using assms
    by (simp add: counter_inc_def validateLabelValues_def counter_wf_def distinct_gm_keys_update list_all_update
        counter_value_def update_conv' labelValuesKey_inject)
next
  case (Some s)
  then have "cs_labels s = ls"
    using assms list_all_lookup [OF _ Some] by (fastforce simp: counter_wf_def labelValuesKey_inject)
  then show ?thesis using assms Some
    by (simp add: counter_inc_def validateLabelValues_def counter_wf_def distinct_gm_keys_update list_all_update
        counter_value_def update_conv' labelValuesKey_inject)
qed

lemma gauge_set_ok:
  assumes "counter_wf cv" and "length ls = length (cv_labelNames cv)"
  shows "\<exists>cv'. gauge_set w ls cv = Some cv' \<and> counter_wf cv' \<and> cv_labelNames cv' = cv_labelNames cv \<and>
    (\<forall>ls'. counter_value cv' ls' = (if ls' = ls then w else counter_value cv ls'))"
  using assms by (simp add: gauge_set_def validateLabelValues_def counter_wf_def distinct_gm_keys_update list_all_update
        counter_value_def update_conv' labelValuesKey_inject)

lemma nth_histogram_add:
  "i < length bounds \<Longrightarrow> length (hs_buckets s) = length bounds \<Longrightarrow>
   hs_buckets (histogram_add bounds v s) ! i = hs_buckets s ! i + (if v \<le> bounds ! i then 1 else 0)"
  by (simp add: histogram_add_def)

lemma histogram_observe_ok:
  assumes "histogram_wf hv" and "length ls = length (hv_labelNames hv)"
  shows "\<exists>hv'. histogram_observe v ls hv = Some hv' \<and> histogram_wf hv' \<and> hv_labelNames hv' = hv_labelNames hv \<and>
    hv_buckets hv' = hv_buckets hv \<and>
    (\<forall>i ls'. i < length (hv_buckets hv) \<longrightarrow>
       bucket_value hv' i ls' = bucket_value hv i ls' + (if ls' = ls \<and> v \<le> hv_buckets hv ! i then 1 else 0))"
proof (cases "map_of (hv_series hv) (labelValuesKey ls)")
  case None
  then show ?thesis using assms
    by (simp add: histogram_observe_def validateLabelValues_def histogram_wf_def distinct_gm_keys_update list_all_update
        bucket_value_def update_conv' labelValuesKey_inject new_histogram_series_def histogram_add_def)
next
  case (Some s)
  then have "hs_labels s = ls \<and> length (hs_buckets s) = length (hv_buckets hv)"
    using assms list_all_lookup [OF _ Some] by (fastforce simp: histogram_wf_def labelValuesKey_inject)
  then show ?thesis using assms Some
    by (simp add: histogram_observe_def validateLabelValues_def histogram_wf_def distinct_gm_keys_update list_all_update
        bucket_value_def update_conv' labelValuesKey_inject histogram_add_def)
qed

section \<open>The metrics object is well-typed and exact\<close>

definition counter_shape :: "gostring list \<Rightarrow> counter_vec \<Rightarrow> bool" where
  "counter_shape names cv \<longleftrightarrow> counter_wf cv \<and> cv_labelNames cv = names"

definition histogram_shape :: "gostring list \<Rightarrow> histogram_vec \<Rightarrow> bool" where
  "histogram_shape names hv \<longleftrightarrow> histogram_wf hv \<and> hv_labelNames hv = names \<and> hv_buckets hv = defaultHistogramBuckets"

definition metrics_wf :: "metrics \<Rightarrow> bool" where
  "metrics_wf m \<longleftrightarrow>
     counter_shape [''route'', ''method'', ''status''] (requestTotal m) \<and>
     histogram_shape [''route'', ''method''] (requestDuration m) \<and>
     counter_shape [''outcome''] (analyzeRequests m) \<and> histogram_shape [''outcome''] (parserDuration m) \<and>
     histogram_shape [''outcome''] (parserLatency m) \<and> histogram_shape [''rule_id''] (ruleExecutionTime m) \<and>
     counter_shape [''rule_id''] (ruleIssuesEmitted m) \<and> counter_shape [''rule_id'', ''severity''] (ruleViolationsBySev m) \<and>
     counter_shape [''rule_id''] (ruleSuppressions m) \<and> histogram_shape [''diagram_type''] (analysisLatency m) \<and>
     counter_shape [''diagram_type''] (diagramTypeAnalyzed m) \<and>
     counter_shape [''diagram_type'', ''result''] (lintSupportCheckCount m) \<and> counter_shape [] (corsRejectedTotal m) \<and>
     counter_shape [''result'', ''entry_type''] (parserCacheEvents m) \<and> counter_shape [''result''] (analysisCacheEvents m) \<and>
     counter_shape [''entry_type''] (parserCacheBytes m)"

text \<open>Results that are there and satisfy a predicate, and how the operations establish it.\<close>

definition yields :: "'a option \<Rightarrow> ('a \<Rightarrow> bool) \<Rightarrow> bool" where
  "yields x P \<longleftrightarrow> (\<exists>y. x = Some y \<and> P y)"

named_theorems yields_intro "how the operations on a metric yield a result"

lemma yields_Some [yields_intro]: "P y \<Longrightarrow> yields (Some y) P"
  by (simp add: yields_def)

lemma yields_map [yields_intro]: "yields x (\<lambda>y. P (f y)) \<Longrightarrow> yields (map_option f x) P"
  by (auto simp: yields_def)

lemma yields_case [yields_intro]: "yields x (\<lambda>y. yields (f y) P) \<Longrightarrow> yields (case x of None \<Rightarrow> None | Some y \<Rightarrow> f y) P"
  by (auto simp: yields_def)

lemma yields_inc [yields_intro]:
  assumes "counter_shape names cv" and "length ls = length names"
    and "\<And>cv'. counter_shape names cv' \<Longrightarrow>
      (\<And>ls'. counter_value cv' ls' = counter_value cv ls' + (if ls' = ls then 1 else 0)) \<Longrightarrow> P cv'"
  shows "yields (counter_inc ls cv) P"
  using counter_inc_ok [of cv ls] assms by (auto simp: yields_def counter_shape_def)

lemma yields_set [yields_intro]:
  assumes "counter_shape names cv" and "length ls = length names" and "\<And>cv'. counter_shape names cv' \<Longrightarrow> P cv'"
  shows "yields (gauge_set w ls cv) P"
  using gauge_set_ok [of cv ls w] assms by (auto simp: yields_def counter_shape_def)

lemma yields_observe [yields_intro]:
  assumes "histogram_shape names hv" and "length ls = length names"
    and "\<And>hv'. histogram_shape names hv' \<Longrightarrow>
      (\<And>i ls'. i < length defaultHistogramBuckets \<Longrightarrow> bucket_value hv' i ls' = bucket_value hv i ls' +
         (if ls' = ls \<and> v \<le> defaultHistogramBuckets ! i then 1 else 0)) \<Longrightarrow> P hv'"
  shows "yields (histogram_observe v ls hv) P"
  using histogram_observe_ok [of hv ls v] assms by (auto simp: yields_def histogram_shape_def)

lemma yields_inc_times [yields_intro]:
  assumes "counter_shape names cv" and "length ls = length names"
    and "\<And>cv'. counter_shape names cv' \<Longrightarrow>
      (\<And>ls'. counter_value cv' ls' = counter_value cv ls' + (if ls' = ls then of_nat n else 0)) \<Longrightarrow> P cv'"
  shows "yields (inc_times n ls cv) P"
  using assms
proof (induction n arbitrary: cv)
  case (Suc n)
  show ?case unfolding inc_times.simps
    by (intro yields_case yields_inc [OF Suc.prems(1,2)] Suc.IH Suc.prems(2,3)) (simp_all add: algebra_simps)
qed (simp add: yields_def)

text \<open>How often a call counts for a series.\<close>

definition outcome_hits :: "gostring \<Rightarrow> metrics_call \<Rightarrow> nat" where
  "outcome_hits oc c = (case c of MAnalyzeOutcome s \<Rightarrow> if CanonicalOutcome s = oc then 1 else 0 | _ \<Rightarrow> 0)"

definition request_hits :: "gostring \<times> gostring \<times> int \<Rightarrow> metrics_call \<Rightarrow> nat" where
  "request_hits l c = (case c of MHTTPRequest route method status d \<Rightarrow> if l = (route, method, status) then 1 else 0 | _ \<Rightarrow> 0)"

definition issue_hits :: "gostring \<Rightarrow> metrics_call \<Rightarrow> nat" where
  "issue_hits r c = (case c of
     MRuleIssuesEmitted r' n \<Rightarrow> if r' = r then nat n else 0
   | MRuleMetrics rm \<Rightarrow> if met_RuleID rm = r then nat (met_IssuesEmitted rm) else 0
   | _ \<Rightarrow> 0)"

definition latency_hits :: "gostring \<times> nat \<Rightarrow> metrics_call \<Rightarrow> nat" where
  "latency_hits l c = (case c of
     MAnalysisLatency t d \<Rightarrow> if t = fst l \<and> Seconds d \<le> defaultHistogramBuckets ! snd l then 1 else 0
   | _ \<Rightarrow> 0)"

definition latency_bucket :: "metrics \<Rightarrow> gostring \<times> nat \<Rightarrow> 64 word" where
  "latency_bucket m l = (if snd l < length defaultHistogramBuckets then bucket_value (analysisLatency m) (snd l) [fst l] else 0)"

lemmas observe_defs = ObserveParserCacheBytes_def ObserveAnalysisCacheEvent_def ObserveHTTPRequest_def ObserveAnalyzeOutcome_def
  ObserveParserDuration_def ObserveParserLatency_def ObserveRuleExecutionDuration_def ObserveRuleIssuesEmitted_def
  RecordRuleMetrics_def ObserveRuleViolationBySeverity_def ObserveRuleSuppression_def ObserveAnalysisLatency_def
  ObserveDiagramTypeAnalyzed_def ObserveLintSupportCheck_def ObserveCORSRejectedOrigin_def ObserveParserCacheEvent_def

definition request_count :: "metrics \<Rightarrow> gostring \<times> gostring \<times> int \<Rightarrow> 64 word" where
  "request_count m l = counter_value (requestTotal m) [fst l, fst (snd l), Itoa (snd (snd l))]"

lemmas hits_defs = outcome_hits_def request_hits_def issue_hits_def latency_hits_def request_count_def latency_bucket_def

lemma metrics_do_yields:
  assumes "metrics_wf m"
  shows "yields (metrics_do c m) (\<lambda>m'. metrics_wf m' \<and>
    (\<forall>oc. counter_value (analyzeRequests m') [oc] = counter_value (analyzeRequests m) [oc] + of_nat (outcome_hits oc c)) \<and>
    (\<forall>l. request_count m' l = request_count m l + of_nat (request_hits l c)) \<and>
    (\<forall>r. counter_value (ruleIssuesEmitted m') [r] = counter_value (ruleIssuesEmitted m) [r] + of_nat (issue_hits r c)) \<and>
    (\<forall>l. latency_bucket m' l = latency_bucket m l + (if snd l < length defaultHistogramBuckets then of_nat (latency_hits l c) else 0)))"
proof -
  note shapes = assms [unfolded metrics_wf_def]
  show ?thesis
    by (cases c; use shapes in \<open>simp only: metrics_do.simps observe_defs Let_def\<close>;
        (intro yields_intro)?; (use shapes in \<open>auto simp: metrics_wf_def hits_defs Itoa_inject intro!: yields_intro\<close>)?)
qed

lemma NewMetrics_wf: "metrics_wf NewMetrics"
  by (simp add: metrics_wf_def NewMetrics_def counter_shape_def histogram_shape_def newCounterVec_def newHistogramVec_def
      newGaugeVec_def counter_wf_def histogram_wf_def)

text \<open>
  What a client can rely on when every call keeps an invariant and adds a known amount to each
  reading: no call in a sequence panics, and every reading is the sum of what the calls added.
\<close>

locale metered =
  fixes step :: "'c \<Rightarrow> 's \<Rightarrow> 's option"
    and good :: "'s \<Rightarrow> bool"
    and reading :: "'s \<Rightarrow> 'l \<Rightarrow> 64 word"
    and hits :: "'l \<Rightarrow> 'c \<Rightarrow> nat"
  assumes counted: "good s \<Longrightarrow> yields (step c s) (\<lambda>s'. good s' \<and> (\<forall>l. reading s' l = reading s l + of_nat (hits l c)))"
begin

lemma run_counts:
  assumes "good s"
  shows "yields (run_calls step cs s)
    (\<lambda>s'. good s' \<and> (\<forall>l. reading s' l = reading s l + of_nat (sum_list (map (hits l) cs))))"
  using assms
proof (induction cs arbitrary: s)
  case (Cons c cs)
  from counted [OF Cons.prems, of c] obtain s1 where s1: "step c s = Some s1" "good s1"
    "reading s1 l = reading s l + of_nat (hits l c)" for l by (auto simp: yields_def)
  show ?case using Cons.IH [OF s1(2)] by (auto simp: s1 yields_def algebra_simps)
qed (simp add: yields_def)

end

interpretation outcomes: metered metrics_do metrics_wf "\<lambda>m oc. counter_value (analyzeRequests m) [oc]" outcome_hits
  by (rule metered.intro) (use metrics_do_yields in \<open>fastforce simp: yields_def\<close>)

interpretation requests: metered metrics_do metrics_wf request_count request_hits
  by (rule metered.intro) (use metrics_do_yields in \<open>fastforce simp: yields_def\<close>)

interpretation issues: metered metrics_do metrics_wf "\<lambda>m r. counter_value (ruleIssuesEmitted m) [r]" issue_hits
  by (rule metered.intro) (use metrics_do_yields in \<open>fastforce simp: yields_def\<close>)

interpretation latencies: metered metrics_do metrics_wf latency_bucket
  "\<lambda>l c. if snd l < length defaultHistogramBuckets then latency_hits l c else 0"
  by (rule metered.intro) (use metrics_do_yields in \<open>fastforce simp: yields_def\<close>)

lemma text_of_Some: "None \<notin> set ls \<Longrightarrow> \<exists>t. text_of ls = Some t"
  by (induction ls rule: text_of.induct) auto

lemma series_line_None: "None = series_line n names labels v \<Longrightarrow> length labels \<noteq> length names"
  by (auto simp: series_line_def formatPrometheusLabels_def validateLabelValues_def split: if_splits)

lemma sorted_series_in: "s \<in> set (sorted_series m) \<Longrightarrow> \<exists>k. (k, s) \<in> set m"
  by (auto simp: sorted_series_def set_gm_keys) (blast dest: map_of_SomeD)

lemma counter_text_Some:
  assumes "counter_wf cv"
  shows "counter_appendPrometheus kind cv \<noteq> None"
proof -
  have "length (cs_labels s) = length (cv_labelNames cv)" if "s \<in> set (sorted_series (cv_series cv))" for s
    using assms sorted_series_in [OF that] by (fastforce simp: counter_shape_def counter_wf_def list_all_iff)
  then have "None \<notin> set (counter_lines cv)"
    by (auto simp: counter_lines_def dest!: series_line_None)
  from text_of_Some [OF this] show ?thesis by (auto simp: counter_appendPrometheus_def)
qed

lemma histogram_text_Some:
  assumes "histogram_wf hv"
  shows "histogram_appendPrometheus FormatFloat hv \<noteq> None"
proof -
  have "length (hs_labels s) = length (hv_labelNames hv)" if "s \<in> set (sorted_series (hv_series hv))" for s
    using assms sorted_series_in [OF that] by (fastforce simp: histogram_shape_def histogram_wf_def list_all_iff)
  then have "None \<notin> set (histogram_lines FormatFloat hv)"
    by (auto simp: histogram_lines_def dest!: series_line_None)
  from text_of_Some [OF this] show ?thesis by (auto simp: histogram_appendPrometheus_def)
qed

lemma metrics_payload_Some: "metrics_wf m \<Longrightarrow> \<exists>t. metrics_payload FormatFloat m = Some t"
  unfolding metrics_payload_def
proof (rule text_of_Some)
  assume m: "metrics_wf m"
  show "None \<notin> set (collector_texts FormatFloat m)"
    unfolding collector_texts_def Let_def using m [unfolded metrics_wf_def counter_shape_def histogram_shape_def]
    by (simp add: counter_text_Some [THEN not_sym] histogram_text_Some [THEN not_sym])
qed

text \<open>
  C28: whatever the program reports to a new metrics object, in whatever order, no call panics over its
  label values, the object stays well-typed (every series is filed under the key of its own labels,
  with one value for each label name and one bucket for each bound, and no labels have two series),
  and the handler of the metrics page answers.
\<close>
theorem metrics_well_typed:
  "\<exists>m w'. metrics_run cs NewMetrics = Some m \<and> metrics_wf m \<and> metrics_Handler FormatFloat (Some m) w = Some w'"
  using outcomes.run_counts [OF NewMetrics_wf, of cs] metrics_payload_Some
  by (fastforce simp: yields_def metrics_run_def metrics_Handler_def)

lemma NewMetrics_zero:
  "counter_value (analyzeRequests NewMetrics) ls = 0" "request_count NewMetrics l = 0"
  "counter_value (ruleIssuesEmitted NewMetrics) ls = 0" "latency_bucket NewMetrics l' = 0"
  by (simp_all add: counter_value_def bucket_value_def request_count_def latency_bucket_def NewMetrics_def newCounterVec_def newHistogramVec_def)

lemma sum_list_hits: "sum_list (map (\<lambda>c. if P c then 1 else 0) cs) = length (filter P cs)"
  by (induction cs) auto

text \<open>
  C27: the numbers on the metrics page are exact (modulo the width of a counter): after any sequence of
  calls, the requests counted for an outcome are the calls that report this outcome, where an
  outcome that is not one of the known ones counts as \<^verbatim>\<open>other\<close>; the requests counted for a
  route, method and status are the requests reported with them; the issues counted for a rule are the
  sum of what was reported for it; and a bucket of the latency histogram of a diagram type holds
  the number of analyses of that type that took at most its bound, in seconds.
\<close>
theorem metrics_exact:
  "\<exists>m. metrics_run cs NewMetrics = Some m \<and>
     (\<forall>oc. counter_value (analyzeRequests m) [oc] =
        of_nat (length (filter (\<lambda>c. \<exists>s. c = MAnalyzeOutcome s \<and> CanonicalOutcome s = oc) cs))) \<and>
     (\<forall>route method status. counter_value (requestTotal m) [route, method, Itoa status] =
        of_nat (length (filter (\<lambda>c. \<exists>d. c = MHTTPRequest route method status d) cs))) \<and>
     (\<forall>r. counter_value (ruleIssuesEmitted m) [r] = of_nat (sum_list (map (issue_hits r) cs))) \<and>
     (\<forall>t. map (\<lambda>i. bucket_value (analysisLatency m) i [t]) [0..<length defaultHistogramBuckets] =
        map (\<lambda>bound. of_nat (length (filter (\<lambda>c. \<exists>d. c = MAnalysisLatency t d \<and> Seconds d \<le> bound) cs)))
          defaultHistogramBuckets)"
proof -
  obtain m where m: "metrics_run cs NewMetrics = Some m"
    and oc: "counter_value (analyzeRequests m) [oc] = of_nat (sum_list (map (outcome_hits oc) cs))" for oc
    using outcomes.run_counts [OF NewMetrics_wf, of cs] by (auto simp: yields_def metrics_run_def NewMetrics_zero)
  have rq: "request_count m l = of_nat (sum_list (map (request_hits l) cs))" for l
    using requests.run_counts [OF NewMetrics_wf, of cs] m by (cases l) (auto simp: yields_def metrics_run_def NewMetrics_zero)
  have iss: "counter_value (ruleIssuesEmitted m) [r] = of_nat (sum_list (map (issue_hits r) cs))" for r
    using issues.run_counts [OF NewMetrics_wf, of cs] m by (auto simp: yields_def metrics_run_def NewMetrics_zero)
  have lat: "latency_bucket m l =
      of_nat (sum_list (map (\<lambda>c. if snd l < length defaultHistogramBuckets then latency_hits l c else 0) cs))" for l
    using latencies.run_counts [OF NewMetrics_wf, of cs] m by (cases l) (auto simp: yields_def metrics_run_def NewMetrics_zero)
  have "outcome_hits oc = (\<lambda>c. if \<exists>s. c = MAnalyzeOutcome s \<and> CanonicalOutcome s = oc then 1 else 0)" for oc
    by (auto simp: outcome_hits_def fun_eq_iff split: metrics_call.splits)
  note oc = oc [unfolded this sum_list_hits]
  have "request_hits (rt, mt, st) = (\<lambda>c. if \<exists>d. c = MHTTPRequest rt mt st d then 1 else 0)" for rt mt st
    by (auto simp: request_hits_def fun_eq_iff split: metrics_call.splits)
  note rq = rq [of "(_, _, _)", unfolded this sum_list_hits request_count_def fst_conv snd_conv]
  have "latency_hits (t, i) =
      (\<lambda>c. if \<exists>d. c = MAnalysisLatency t d \<and> Seconds d \<le> defaultHistogramBuckets ! i then 1 else 0)" for t i
    by (auto simp: latency_hits_def fun_eq_iff split: metrics_call.splits)
  note lat = lat [of "(_, _)", unfolded this latency_bucket_def fst_conv snd_conv]
  have lat: "map (\<lambda>i. bucket_value (analysisLatency m) i [t]) [0..<length defaultHistogramBuckets] =
        map (\<lambda>bound. of_nat (length (filter (\<lambda>c. \<exists>d. c = MAnalysisLatency t d \<and> Seconds d \<le> bound) cs)))
          defaultHistogramBuckets" for t
  proof (rule nth_equalityI)
    fix i
    assume "i < length (map (\<lambda>i. bucket_value (analysisLatency m) i [t]) [0..<length defaultHistogramBuckets])"
    then have "i < length defaultHistogramBuckets" by simp
    with lat [of i t] show "map (\<lambda>i. bucket_value (analysisLatency m) i [t]) [0..<length defaultHistogramBuckets] ! i =
        map (\<lambda>bound. of_nat (length (filter (\<lambda>c. \<exists>d. c = MAnalysisLatency t d \<and> Seconds d \<le> bound) cs)))
          defaultHistogramBuckets ! i"
      by (simp add: sum_list_hits)
  qed simp
  show ?thesis by (intro exI [of _ m] conjI allI m oc rq iss lat)
qed

end
