(* ===== verification/Request_State.thy ===== *)
theory Request_State
  imports Parser_Results Engine Telemetry
begin

text \<open>
  The state the analyze handlers share and the small operations around a parse, from
  \<^verbatim>\<open>internal/api/handler.go\<close>: the limiter of concurrent parser runs, the outcome counters, the sink
  for rule metrics, the parser settings of a request, and the classification of failures.
\<close>

section \<open>Concurrent parser runs\<close>

record parser_limiter =
  pl_limit :: int
  pl_inFlight :: int

definition newParserConcurrencyLimiter :: parser_limiter where
  "newParserConcurrencyLimiter = \<lparr>pl_limit = 0, pl_inFlight = 0\<rparr>"

definition SetLimit :: "int \<Rightarrow> parser_limiter \<Rightarrow> parser_limiter" where
  "SetLimit limit l = l\<lparr>pl_limit := (if limit < 0 then 0 else limit)\<rparr>"

definition TryAcquire :: "parser_limiter \<Rightarrow> bool \<times> parser_limiter" where
  "TryAcquire l =
     (if pl_limit l > 0 \<and> pl_inFlight l \<ge> pl_limit l then (False, l)
      else (True, l\<lparr>pl_inFlight := pl_inFlight l + 1\<rparr>))"

definition Release :: "parser_limiter \<Rightarrow> parser_limiter" where
  "Release l = (if pl_inFlight l = 0 then l else l\<lparr>pl_inFlight := pl_inFlight l - 1\<rparr>)"

text \<open>
  Requests that ask for a slot, hold it while they parse and give it back once; each operation is
  one step under the mutex. A state is the limiter and the requests that hold a slot.
\<close>

inductive slot_step :: "parser_limiter \<times> nat set \<Rightarrow> parser_limiter \<times> nat set \<Rightarrow> bool" where
  slot_enter: "r \<notin> holders \<Longrightarrow> TryAcquire l = (True, l') \<Longrightarrow> slot_step (l, holders) (l', insert r holders)"
| slot_busy: "TryAcquire l = (False, l') \<Longrightarrow> slot_step (l, holders) (l', holders)"
| slot_leave: "r \<in> holders \<Longrightarrow> slot_step (l, holders) (Release l, holders - {r})"

inductive slot_reach :: "int \<Rightarrow> parser_limiter \<times> nat set \<Rightarrow> bool" for limit where
  slot_start: "slot_reach limit (SetLimit limit newParserConcurrencyLimiter, {})"
| slot_next: "slot_reach limit s \<Longrightarrow> slot_step s s' \<Longrightarrow> slot_reach limit s'"

inductive_cases slot_stepE: "slot_step (l, holders) s'"

definition slot_inv :: "int \<Rightarrow> parser_limiter \<times> nat set \<Rightarrow> bool" where
  "slot_inv limit s \<longleftrightarrow> finite (snd s) \<and> pl_inFlight (fst s) = int (card (snd s)) \<and> pl_limit (fst s) = max 0 limit \<and>
     (0 < limit \<longrightarrow> int (card (snd s)) \<le> limit)"

lemma slot_step_inv: "slot_step s s' \<Longrightarrow> slot_inv limit s \<Longrightarrow> slot_inv limit s'"
proof (induction rule: slot_step.induct)
  case (slot_enter r holders l l')
  then show ?case by (auto simp: slot_inv_def TryAcquire_def split: if_splits)
next
  case (slot_busy l l' holders)
  then show ?case by (auto simp: slot_inv_def TryAcquire_def split: if_splits)
next
  case (slot_leave r holders l)
  then have "card holders > 0" by (auto simp: slot_inv_def card_gt_0_iff)
  with slot_leave show ?case by (auto simp: slot_inv_def Release_def)
qed

lemma slot_reach_inv: "slot_reach limit s \<Longrightarrow> slot_inv limit s"
proof (induction rule: slot_reach.induct)
  case slot_start
  then show ?case by (simp add: slot_inv_def SetLimit_def newParserConcurrencyLimiter_def)
next
  case (slot_next s s')
  then show ?case using slot_step_inv by blast
qed

text \<open>
  C32: with a positive limit at most that many requests parse at the same time; a request is turned
  away only when exactly that many do; and the counter of the limiter is always the number of
  requests that hold a slot, so that none is lost or given back twice.
\<close>
theorem parser_slots_bounded:
  assumes "slot_reach limit (l, holders)"
  shows "pl_inFlight l = int (card holders) \<and> (limit \<le> 0 \<or> int (card holders) \<le> limit) \<and>
    (fst (TryAcquire l) \<or> int (card holders) = limit)"
  using slot_reach_inv [OF assms] by (auto simp: slot_inv_def TryAcquire_def split: if_splits)

theorem parser_slots_bounded_witness:
  "slot_reach 1 (\<lparr>pl_limit = 1, pl_inFlight = 1\<rparr>, {7}) \<and> \<not> fst (TryAcquire \<lparr>pl_limit = 1, pl_inFlight = 1\<rparr>) \<and> int (card {7 :: nat}) = 1"
proof -
  have "slot_step (SetLimit 1 newParserConcurrencyLimiter, {}) (\<lparr>pl_limit = 1, pl_inFlight = 1\<rparr>, insert 7 {})"
    by (rule slot_enter) (simp_all add: SetLimit_def newParserConcurrencyLimiter_def TryAcquire_def)
  then have "slot_reach 1 (\<lparr>pl_limit = 1, pl_inFlight = 1\<rparr>, {7})" by (rule slot_next [OF slot_start])
  then show ?thesis using parser_slots_bounded [of 1 "\<lparr>pl_limit = 1, pl_inFlight = 1\<rparr>" "{7}"] by (simp add: TryAcquire_def)
qed

section \<open>Outcome counters\<close>

record outcome_counters =
  oc_validSuccess :: "64 word"
  oc_syntaxError :: "64 word"
  oc_other :: "64 word"
  oc_parserTimeout :: "64 word"
  oc_parserSubprocess :: "64 word"
  oc_parserDecode :: "64 word"
  oc_parserContract :: "64 word"
  oc_parserInternalError :: "64 word"

definition zero_counters :: outcome_counters where
  "zero_counters = \<lparr>oc_validSuccess = 0, oc_syntaxError = 0, oc_other = 0, oc_parserTimeout = 0, oc_parserSubprocess = 0,
     oc_parserDecode = 0, oc_parserContract = 0, oc_parserInternalError = 0\<rparr>"

definition Increment :: "gostring \<Rightarrow> outcome_counters \<Rightarrow> outcome_counters" where
  "Increment outcome c =
     (if outcome = ''lint_success'' then c\<lparr>oc_validSuccess := oc_validSuccess c + 1\<rparr>
      else if outcome = ''syntax_error'' then c\<lparr>oc_syntaxError := oc_syntaxError c + 1\<rparr>
      else if outcome = ''parser_timeout'' then c\<lparr>oc_parserTimeout := oc_parserTimeout c + 1\<rparr>
      else if outcome = ''parser_subprocess_error'' then c\<lparr>oc_parserSubprocess := oc_parserSubprocess c + 1\<rparr>
      else if outcome = ''parser_decode_error'' then c\<lparr>oc_parserDecode := oc_parserDecode c + 1\<rparr>
      else if outcome = ''parser_contract_violation'' then c\<lparr>oc_parserContract := oc_parserContract c + 1\<rparr>
      else if outcome = ''internal_error'' then c\<lparr>oc_parserInternalError := oc_parserInternalError c + 1\<rparr>
      else if outcome = ''other'' then c\<lparr>oc_other := oc_other c + 1\<rparr>
      else c)"

text \<open>The sums \<^verbatim>\<open>HealthMetrics\<close> reports.\<close>

definition failed_total :: "outcome_counters \<Rightarrow> 64 word" where
  "failed_total c = oc_syntaxError c + oc_other c + oc_parserTimeout c + oc_parserSubprocess c + oc_parserDecode c +
     oc_parserContract c + oc_parserInternalError c"

definition total_requests :: "outcome_counters \<Rightarrow> 64 word" where
  "total_requests c = oc_validSuccess c + oc_syntaxError c + oc_other c + oc_parserTimeout c + oc_parserSubprocess c +
     oc_parserDecode c + oc_parserContract c + oc_parserInternalError c"

lemma total_Increment: "ValidOutcome oc \<Longrightarrow> total_requests (Increment oc c) = total_requests c + 1"
  by (auto simp: ValidOutcome_def Increment_def total_requests_def)

lemma CanonicalOutcome_valid [simp]: "ValidOutcome (CanonicalOutcome s)"
  by (simp add: CanonicalOutcome_def ValidOutcome_def)

lemma CanonicalOutcome_id [simp]: "CanonicalOutcome (CanonicalOutcome s) = CanonicalOutcome s"
  by (simp add: CanonicalOutcome_def ValidOutcome_def)

section \<open>Rule metrics of a request\<close>

definition sink_RecordRuleMetrics :: "rule_metrics \<Rightarrow> (gostring, rule_metrics) gomap \<Rightarrow> (gostring, rule_metrics) gomap" where
  "sink_RecordRuleMetrics m byRule =
     (let aggregated = (case map_of byRule (met_RuleID m) of
            None \<Rightarrow> \<lparr>met_RuleID = [], met_Executions = 0, met_IssuesEmitted = 0, met_TotalDurationNS = 0\<rparr> | Some a \<Rightarrow> a)
      in AList.update (met_RuleID m)
           \<lparr>met_RuleID = met_RuleID m, met_Executions = met_Executions aggregated + met_Executions m,
            met_IssuesEmitted = met_IssuesEmitted aggregated + met_IssuesEmitted m,
            met_TotalDurationNS = met_TotalDurationNS aggregated + met_TotalDurationNS m\<rparr> byRule)"

definition sink_Snapshot :: "(gostring list \<Rightarrow> gostring list) \<Rightarrow> (gostring, rule_metrics) gomap \<Rightarrow> rule_metrics list" where
  "sink_Snapshot ord byRule = sort_key met_RuleID (map snd (range_map ord byRule))"

section \<open>Failures\<close>

datatype request_error = InvalidRequest gostring | ParserUnavailable | DeadlineExceeded | ParserFailed parse_error

definition errors_Is :: "request_error \<Rightarrow> sentinel \<Rightarrow> bool" where
  "errors_Is err s = (case err of ParserFailed e \<Rightarrow> s \<in> set (pe_is e) | _ \<Rightarrow> False)"

definition parserFailureOutcome :: "request_error \<Rightarrow> gostring" where
  "parserFailureOutcome err =
     (if errors_Is err ErrTimeout \<or> err = DeadlineExceeded then ''parser_timeout''
      else if errors_Is err ErrSubprocess \<or> errors_Is err ErrMemoryLimit then ''parser_subprocess_error''
      else if errors_Is err ErrDecode then ''parser_decode_error''
      else if errors_Is err ErrContract then ''parser_contract_violation''
      else ''internal_error'')"

record failure_detail =
  fd_statusCode :: int
  fd_code :: gostring
  fd_message :: gostring
  fd_details :: rule_config

definition failure_info :: "error_metadata \<Rightarrow> rule_config" where
  "failure_info meta =
     (if em_Suggestion meta \<noteq> [] then [(''suggestion'', VString (em_Suggestion meta))] else []) @
     (if em_Limit meta \<noteq> [] then [(''limit'', VString (em_Limit meta))] else []) @
     (if em_ObservedSizeByte meta > 0 then [(''observed_size'', VInt (em_ObservedSizeByte meta))] else [])"

definition parserErrorDetails :: "request_error \<Rightarrow> failure_detail" where
  "parserErrorDetails err =
     (let failure =
        (if errors_Is err ErrTimeout \<or> err = DeadlineExceeded then
           \<lparr>fd_statusCode = 504, fd_code = ''parser_timeout'', fd_message = ''parser timed out while validating Mermaid code'', fd_details = []\<rparr>
         else if errors_Is err ErrMemoryLimit then
           \<lparr>fd_statusCode = 500, fd_code = ''parser_memory_limit'', fd_message = ''parser exceeded memory limit while validating Mermaid code'', fd_details = []\<rparr>
         else if errors_Is err ErrSubprocess then
           \<lparr>fd_statusCode = 500, fd_code = ''parser_subprocess_error'', fd_message = ''parser subprocess failed'', fd_details = []\<rparr>
         else if errors_Is err ErrDecode then
           \<lparr>fd_statusCode = 500, fd_code = ''parser_decode_error'', fd_message = ''parser returned malformed output'', fd_details = []\<rparr>
         else if errors_Is err ErrContract then
           \<lparr>fd_statusCode = 500, fd_code = ''parser_contract_violation'', fd_message = ''parser response violated service contract'', fd_details = []\<rparr>
         else if err = ParserUnavailable then
           \<lparr>fd_statusCode = 500, fd_code = ''internal_error'', fd_message = ''parser dependency unavailable'',
            fd_details = [(''dependency'', VString ''parser'')]\<rparr>
         else
           \<lparr>fd_statusCode = 500, fd_code = ''internal_error'', fd_message = ''internal server error'', fd_details = []\<rparr>)
      in case err of
           ParserFailed e \<Rightarrow>
             (let (meta, ok) = MetadataFromError e; info = failure_info meta
              in if ok \<and> info \<noteq> [] then failure\<lparr>fd_details := info\<rparr> else failure)
         | _ \<Rightarrow> failure)"

section \<open>The parser settings of a request\<close>

record analyze_request =
  areq_Code :: gostring
  areq_Config :: gostring
  areq_Parser :: "(int option \<times> int option) option"

type_synonym handler_outcome = "request_error + (diagram option + syntax_error)"

text \<open>What the handler's parser can do: the optional methods are those of optional interfaces.\<close>

record parser_iface =
  pi_Parse :: "gostring \<Rightarrow> handler_outcome"
  pi_ParseWithConfig :: "(gostring \<Rightarrow> parser_config \<Rightarrow> handler_outcome) option"
  pi_ParserConfig :: "parser_config option"

definition noopParser :: parser_iface where
  "noopParser = \<lparr>pi_Parse = (\<lambda>_. Inl ParserUnavailable), pi_ParseWithConfig = None, pi_ParserConfig = None\<rparr>"

definition requiresSourceEnhancement :: "config \<Rightarrow> bool" where
  "requiresSourceEnhancement cfg = list_ex (\<lambda>ruleID. RuleEnabled ruleID cfg) [''no-disconnected-nodes'', ''no-duplicate-node-ids'']"

definition out_of_range :: "gostring \<Rightarrow> gostring \<Rightarrow> int \<Rightarrow> int \<Rightarrow> int \<Rightarrow> request_error" where
  "out_of_range name unit lo hi got =
     InvalidRequest (''parser.'' @ name @ '' must be an integer between '' @ Itoa lo @ '' and '' @ Itoa hi @ unit @ ''; got '' @ Itoa got)"

definition override_config :: "(int option \<times> int option) option \<Rightarrow> parser_config \<Rightarrow> request_error + parser_config" where
  "override_config settings cfg =
     (case settings of
        None \<Rightarrow> Inr cfg
      | Some (timeoutSeconds, maxOldSpaceMB) \<Rightarrow>
          (let (minT, maxT, minMem, maxMem) = LimitBounds in
           case (case timeoutSeconds of
                   None \<Rightarrow> Inr cfg
                 | Some t \<Rightarrow>
                     if t < minT div Second \<or> t > maxT div Second
                     then Inl (out_of_range ''timeout_seconds'' '' seconds'' (minT div Second) (maxT div Second) t)
                     else Inr (cfg\<lparr>cfg_Timeout := wrap64 (t * Second)\<rparr>)) of
             Inl e \<Rightarrow> Inl e
           | Inr cfg \<Rightarrow>
               (case maxOldSpaceMB of
                  None \<Rightarrow> Inr cfg
                | Some m \<Rightarrow>
                    if m < minMem \<or> m > maxMem then Inl (out_of_range ''max_old_space_mb'' '' MiB'' minMem maxMem m)
                    else Inr (cfg\<lparr>cfg_NodeMaxOldSpaceMB := m\<rparr>))))"

definition has_override :: "(int option \<times> int option) option \<Rightarrow> bool" where
  "has_override settings = (case settings of None \<Rightarrow> False | Some (t, m) \<Rightarrow> t \<noteq> None \<or> m \<noteq> None)"

definition parseWithRequestSettings :: "parser_iface \<Rightarrow> analyze_request \<Rightarrow> config \<Rightarrow> handler_outcome" where
  "parseWithRequestSettings p req normalizedCfg =
     (if has_override (areq_Parser req) \<and> pi_ParseWithConfig p = None then
        Inl (InvalidRequest ''per-request parser settings are unsupported by the configured parser'')
      else
        let cfg = (case pi_ParserConfig p of Some c \<Rightarrow> EffectiveConfig c | None \<Rightarrow> EffectiveConfig DefaultConfig) in
        case override_config (areq_Parser req) cfg of
          Inl e \<Rightarrow> Inl e
        | Inr cfg \<Rightarrow>
            (let cfg = cfg\<lparr>cfg_NeedSourceEnhancement := requiresSourceEnhancement normalizedCfg\<rparr> in
             case pi_ParseWithConfig p of
               Some parse \<Rightarrow> parse (areq_Code req) cfg
             | None \<Rightarrow> pi_Parse p (areq_Code req)))"

text \<open>What a request may ask for.\<close>

definition settings_in_range :: "(int option \<times> int option) option \<Rightarrow> bool" where
  "settings_in_range settings =
     (case settings of None \<Rightarrow> True
      | Some (t, m) \<Rightarrow> (case t of None \<Rightarrow> True | Some t \<Rightarrow> 1 \<le> t \<and> t \<le> 60) \<and> (case m of None \<Rightarrow> True | Some m \<Rightarrow> 128 \<le> m \<and> m \<le> 4096))"

definition requested :: "(int option \<times> int option) option \<Rightarrow> parser_config \<Rightarrow> bool" where
  "requested settings cfg =
     (case settings of None \<Rightarrow> True
      | Some (t, m) \<Rightarrow> (case t of None \<Rightarrow> True | Some t \<Rightarrow> cfg_Timeout cfg = t * Second) \<and>
          (case m of None \<Rightarrow> True | Some m \<Rightarrow> cfg_NodeMaxOldSpaceMB cfg = m))"

lemma override_config_cases:
  assumes "config_bounded cfg"
  shows "(if settings_in_range settings
     then \<exists>cfg'. override_config settings cfg = Inr cfg' \<and> config_bounded cfg' \<and> requested settings cfg'
     else \<exists>msg. override_config settings cfg = Inl (InvalidRequest msg))"
proof (cases settings)
  case None
  then show ?thesis using assms by (simp add: override_config_def settings_in_range_def requested_def)
next
  case (Some tm)
  obtain t m where tm: "tm = (t, m)" by (cases tm)
  have wrap: "wrap64 (s * Second) = s * Second" if "1 \<le> s" "s \<le> 60" for s
    using that by (simp add: wrap64_def)
  show ?thesis
    using assms wrap
    by (cases t; cases m)
      (auto simp: Some tm override_config_def settings_in_range_def requested_def LimitBounds_def out_of_range_def config_bounded_def)
qed

text \<open>
  C31: no request can make the parser run outside the announced limits: settings that are out of
  range are refused before the parser is called; otherwise the parser gets the source of the
  request with exactly the time and memory asked for, the remaining settings within the limits, and source
  analysis requested exactly when a rule that needs it is enabled.
\<close>
theorem request_settings_enforced:
  assumes "pi_ParseWithConfig p = Some parse"
  shows "(if settings_in_range (areq_Parser req)
     then \<exists>cfg. parseWithRequestSettings p req ncfg = parse (areq_Code req) cfg \<and> config_bounded cfg \<and>
            requested (areq_Parser req) cfg \<and>
            cfg_NeedSourceEnhancement cfg = (RuleEnabled ''no-disconnected-nodes'' ncfg \<or> RuleEnabled ''no-duplicate-node-ids'' ncfg)
     else \<exists>msg. parseWithRequestSettings p req ncfg = Inl (InvalidRequest msg))"
proof -
  let ?base = "case pi_ParserConfig p of Some c \<Rightarrow> EffectiveConfig c | None \<Rightarrow> EffectiveConfig DefaultConfig"
  have "config_bounded ?base" by (simp add: EffectiveConfig_bounded split: option.split)
  note cases = override_config_cases [OF this, of "areq_Parser req"]
  have keeps: "config_bounded (c\<lparr>cfg_NeedSourceEnhancement := b\<rparr>) = config_bounded c"
    "requested s (c\<lparr>cfg_NeedSourceEnhancement := b\<rparr>) = requested s c" for c b s
    by (simp_all add: config_bounded_def requested_def split: option.splits)
  show ?thesis
  proof (cases "settings_in_range (areq_Parser req)")
    case True
    then obtain cfg where cfg: "override_config (areq_Parser req) ?base = Inr cfg" "config_bounded cfg" "requested (areq_Parser req) cfg"
      using cases by auto
    let ?cfg = "cfg\<lparr>cfg_NeedSourceEnhancement := requiresSourceEnhancement ncfg\<rparr>"
    have "parseWithRequestSettings p req ncfg = parse (areq_Code req) ?cfg"
      by (simp add: parseWithRequestSettings_def assms cfg(1))
    then show ?thesis using cfg True
      by (intro if_P [THEN iffD2] exI [of _ ?cfg]) (simp_all add: keeps requiresSourceEnhancement_def)
  next
    case False
    then obtain msg where "override_config (areq_Parser req) ?base = Inl (InvalidRequest msg)" using cases by auto
    then show ?thesis using False by (simp add: parseWithRequestSettings_def assms)
  qed
qed

text \<open>A parser that echoes its configuration, asked for a timeout of nine seconds.\<close>

theorem request_settings_enforced_witness:
  "settings_in_range (Some (Some 9, None)) \<and>
   parseWithRequestSettings (noopParser\<lparr>pi_ParseWithConfig := Some (\<lambda>_ c. Inl (InvalidRequest (Itoa (cfg_Timeout c))))\<rparr>)
     \<lparr>areq_Code = ''graph'', areq_Config = [], areq_Parser = Some (Some 9, None)\<rparr> [] = Inl (InvalidRequest (Itoa (9 * Second)))"
  using request_settings_enforced [of "noopParser\<lparr>pi_ParseWithConfig := Some (\<lambda>_ c. Inl (InvalidRequest (Itoa (cfg_Timeout c))))\<rparr>"
      "\<lambda>_ c. Inl (InvalidRequest (Itoa (cfg_Timeout c)))" "\<lparr>areq_Code = ''graph'', areq_Config = [], areq_Parser = Some (Some 9, None)\<rparr>" "[]"]
  by (auto simp: settings_in_range_def requested_def)

end
