(* ===== verification/Config_Payload.thy ===== *)
theory Config_Payload
  imports Rule_Config
begin

text \<open>
  The configuration a request carries: \<^verbatim>\<open>extractAllowUnknownRulesFlag\<close>, \<^verbatim>\<open>parseConfig\<close> and
  the helpers around them in \<^verbatim>\<open>internal/api/handler.go\<close>.

  The JSON decoder is a parameter \<open>Unmarshal\<close>: \<open>None\<close> for text it rejects, otherwise
  the value it decodes to. Encoding a decoded object and decoding it again, as the code does at the
  end of \<^verbatim>\<open>parseConfig\<close>, gives the same object, so the model keeps it. Each loop over a map visits its
  keys in an order of its own, given by the parameter \<open>ord\<close> for the site of the loop.
\<close>

record validation_error =
  ve_Code :: gostring
  ve_Path :: gostring
  ve_Message :: gostring
  ve_Supported :: "gostring list"
  ve_Hint :: gostring

definition verr :: "gostring \<Rightarrow> gostring \<Rightarrow> gostring \<Rightarrow> validation_error" where
  "verr ec path message = \<lparr>ve_Code = ec, ve_Path = path, ve_Message = message, ve_Supported = [], ve_Hint = []\<rparr>"

datatype loop_site = TopLevelKeys | RuleKeys | OptionKeys gostring | ConfiguredRules

type_synonym orders = "loop_site \<Rightarrow> gostring list \<Rightarrow> gostring list"

definition orders_ok :: "orders \<Rightarrow> bool" where
  "orders_ok ord \<longleftrightarrow> (\<forall>site. iteration_order (ord site))"

lemma orders_okD: "orders_ok ord \<Longrightarrow> iteration_order (ord site)"
  by (simp add: orders_ok_def)

definition legacySchemaVersionWarningMessage :: gostring where
  "legacySchemaVersionWarningMessage =
     ''legacy key config.schema_version is deprecated; use config.schema-version. Example: '' @
     ''{\"config\":{\"schema-version\":\"v1\",\"rules\":{\"max-fanout\":{\"limit\":3}}}}''"

definition legacyUnversionedRulesWarning :: gostring where
  "legacyUnversionedRulesWarning =
     ''legacy unversioned config shape is deprecated; add config.schema-version and keep rules under config.rules. Example: '' @
     ''{\"config\":{\"schema-version\":\"v1\",\"rules\":{\"max-fanout\":{\"limit\":3}}}}''"

definition legacyFlatConfigWarning :: gostring where
  "legacyFlatConfigWarning =
     ''legacy flat config shape is deprecated; move rule settings under config.rules and add config.schema-version. Example: '' @
     ''{\"config\":{\"schema-version\":\"v1\",\"rules\":{\"max-fanout\":{\"limit\":3}}}}''"

definition legacyOptionKeyWarning :: "gostring \<Rightarrow> gostring \<Rightarrow> gostring \<Rightarrow> gostring" where
  "legacyOptionKeyWarning ruleID optionKey canonicalKey =
     ''legacy key config.'' @ ruleID @ ''.'' @ optionKey @ '' is deprecated; use config.'' @ ruleID @ ''.'' @ canonicalKey @
     ''. Example: {\"'' @ canonicalKey @ ''\": [\"node:A\"]}''"

definition unrecognizedRuleWarning :: "gostring \<Rightarrow> gostring" where
  "unrecognizedRuleWarning ruleID =
     [CHR ''r'', CHR ''u'', CHR ''l'', CHR ''e'', CHR '' '', CHR 0x27] @ ruleID @ [CHR 0x27] @
     '' is not recognized and will be ignored; ensure it is a valid rule ID or applies to the diagram type being analyzed''"

definition extractAllowUnknownRulesFlag :: "(gostring \<Rightarrow> go_value option) \<Rightarrow> gostring \<Rightarrow> bool" where
  "extractAllowUnknownRulesFlag Unmarshal raw =
     (if raw = [] then True
      else case Unmarshal raw of
        Some (VMap cfg) \<Rightarrow> (case map_of cfg ''allow-unknown-rules'' of Some (VBool b) \<Rightarrow> b | _ \<Rightarrow> True)
      | _ \<Rightarrow> True)"

definition sortedRuleIDs :: "gostring list \<Rightarrow> gostring list" where
  "sortedRuleIDs knownRuleIDs = sort knownRuleIDs"

section \<open>The shape of the payload\<close>

definition deprecated_shape :: validation_error where
  "deprecated_shape = verr ''deprecated_config_format'' ''config''
     ''legacy unversioned config shape is deprecated; use config.schema-version and config.rules''"

text \<open>A payload with a schema version.\<close>

definition unknown_top_key :: "bool \<Rightarrow> gostring \<Rightarrow> bool" where
  "unknown_top_key strict k \<longleftrightarrow> k \<noteq> ''schema-version'' \<and> k \<noteq> ''rules'' \<and> \<not> (k = ''schema_version'' \<and> \<not> strict)"

definition versioned_shape ::
  "orders \<Rightarrow> bool \<Rightarrow> rule_config \<Rightarrow> go_value \<Rightarrow> gostring list
     \<Rightarrow> validation_error + (gostring, go_value) gomap \<times> gostring \<times> gostring list" where
  "versioned_shape ord strict asMap schemaVersionValue deprecations =
     (case schemaVersionValue of
        VString schemaVersion \<Rightarrow>
          if schemaVersion \<noteq> CurrentConfigSchemaVersion then
            Inl ((verr ''unsupported_schema_version'' ''config.schema-version''
                    (''unsupported config schema-version: '' @ schemaVersion))
                 \<lparr>ve_Supported := [CurrentConfigSchemaVersion]\<rparr>)
          else
            (case (case map_of asMap ''rules'' of None \<Rightarrow> Some [] | Some (VMap rulesMap) \<Rightarrow> Some rulesMap | Some _ \<Rightarrow> None) of
               None \<Rightarrow> Inl (verr ''invalid_option'' ''config.rules'' ''config.rules must be object'')
             | Some rulesMap \<Rightarrow>
                 (case find (unknown_top_key strict) (ord TopLevelKeys (gm_keys asMap)) of
                    Some k \<Rightarrow> Inl ((verr ''unknown_option'' (''config.'' @ k) (''unknown option: '' @ k))
                                \<lparr>ve_Supported := [''schema-version'', ''rules'', ''allow-unknown-rules'']\<rparr>)
                  | None \<Rightarrow> Inr (rulesMap, ''config.rules'', deprecations)))
      | _ \<Rightarrow> Inl (verr ''invalid_option'' ''config.schema-version'' ''config.schema-version must be string''))"

text \<open>
  The first part of \<^verbatim>\<open>parseConfig\<close>, up to the loop over the rules: the map of rules, the path
  that leads to it, and the warnings so far.
\<close>

definition config_shape ::
  "orders \<Rightarrow> bool \<Rightarrow> rule_config \<Rightarrow> validation_error + (gostring, go_value) gomap \<times> gostring \<times> gostring list" where
  "config_shape ord strict asMap0 =
     (let asMap = AList.delete ''allow-unknown-rules'' asMap0;
          legacy = map_of asMap ''schema_version'';
          version = (case legacy of Some v \<Rightarrow> Some v | None \<Rightarrow> map_of asMap ''schema-version'');
          deprecations = (if legacy \<noteq> None then [legacySchemaVersionWarningMessage] else [])
      in if legacy \<noteq> None \<and> strict then
           Inl (verr ''deprecated_config_format'' ''config.schema_version''
                  ''config.schema_version is deprecated; use config.schema-version'')
         else if strict \<and> version = None then Inl deprecated_shape
         else case version of
           Some schemaVersionValue \<Rightarrow> versioned_shape ord strict asMap schemaVersionValue deprecations
         | None \<Rightarrow>
             (case map_of asMap ''rules'' of
                Some v \<Rightarrow>
                  if strict then Inl deprecated_shape
                  else (case v of
                          VMap rulesMap \<Rightarrow> Inr (rulesMap, ''config.rules'', deprecations @ [legacyUnversionedRulesWarning])
                        | _ \<Rightarrow> Inl (verr ''invalid_option'' ''config.rules'' ''config.rules must be object''))
              | None \<Rightarrow>
                  if strict then Inl deprecated_shape
                  else Inr (asMap, ''config'', deprecations @ [legacyFlatConfigWarning])))"

section \<open>The rules of the payload\<close>

fun check_options ::
  "gostring \<Rightarrow> gostring \<Rightarrow> gostring list \<Rightarrow> (gostring \<times> go_value) list \<Rightarrow> gostring list \<Rightarrow> validation_error + gostring list" where
  "check_options path canonicalRuleID allowed [] deprecations = Inr deprecations"
| "check_options path canonicalRuleID allowed ((optionKey, optionValue) # rest) deprecations =
     (let canonicalOptionKey = NormalizeOptionKey optionKey;
          deprecations = (if optionKey \<noteq> canonicalOptionKey
            then deprecations @ [legacyOptionKeyWarning canonicalRuleID optionKey canonicalOptionKey] else deprecations)
      in if canonicalOptionKey \<notin> set allowed then
           Inl ((verr ''unknown_option'' (path @ ''.'' @ optionKey) (''unknown option: '' @ optionKey))\<lparr>ve_Supported := allowed\<rparr>)
         else if ValidateOption canonicalRuleID optionKey optionValue \<noteq> None then
           Inl (verr ''invalid_option'' (path @ ''.'' @ optionKey) (''invalid option value for '' @ optionKey))
         else check_options path canonicalRuleID allowed rest deprecations)"

definition unknown_rule :: "gostring \<Rightarrow> gostring \<Rightarrow> gostring list \<Rightarrow> validation_error" where
  "unknown_rule rulePathPrefix ruleID knownRuleIDs =
     (verr ''unknown_rule'' (rulePathPrefix @ ''.'' @ ruleID) (''unknown rule: '' @ ruleID))\<lparr>ve_Supported := sortedRuleIDs knownRuleIDs\<rparr>"

text \<open>The registered rule a key of the payload names, with its option keys.\<close>

definition resolve_rule :: "gostring list \<Rightarrow> gostring \<Rightarrow> (gostring \<times> gostring list) option" where
  "resolve_rule knownRuleIDs ruleID =
     (case NormalizeConfigRuleID ruleID knownRuleIDs of
        Inl _ \<Rightarrow> None
      | Inr (canonicalRuleID, _) \<Rightarrow>
          (case map_of (ConfigRegistryForRuleIDs knownRuleIDs) canonicalRuleID of
             None \<Rightarrow> None
           | Some registry \<Rightarrow> Some (canonicalRuleID, meta_AllowedOptionKeys registry)))"

fun normalize_rules_map ::
  "orders \<Rightarrow> gostring list \<Rightarrow> bool \<Rightarrow> gostring \<Rightarrow> (gostring \<times> go_value) list \<Rightarrow> config \<Rightarrow> gostring list
     \<Rightarrow> validation_error + config \<times> gostring list" where
  "normalize_rules_map ord knownRuleIDs lenient rulePathPrefix [] acc deprecations = Inr (acc, deprecations)"
| "normalize_rules_map ord knownRuleIDs lenient rulePathPrefix ((ruleID, ruleConfig) # rest) acc deprecations =
     (case ruleConfig of
        VMap ruleConfigMap \<Rightarrow>
          (case resolve_rule knownRuleIDs ruleID of
             None \<Rightarrow>
               if lenient
               then normalize_rules_map ord knownRuleIDs lenient rulePathPrefix rest acc (deprecations @ [unrecognizedRuleWarning ruleID])
               else Inl (unknown_rule rulePathPrefix ruleID knownRuleIDs)
           | Some (canonicalRuleID, allowed) \<Rightarrow>
               (case check_options (rulePathPrefix @ ''.'' @ ruleID) canonicalRuleID allowed
                       (range_map (ord (OptionKeys ruleID)) ruleConfigMap) deprecations of
                  Inl e \<Rightarrow> Inl e
                | Inr deprecations \<Rightarrow>
                    normalize_rules_map ord knownRuleIDs lenient rulePathPrefix rest (AList.update canonicalRuleID ruleConfigMap acc) deprecations))
      | _ \<Rightarrow> Inl (verr ''invalid_option'' (rulePathPrefix @ ''.'' @ ruleID) (rulePathPrefix @ ''.'' @ ruleID @ '' must be object'')))"

section \<open>Suppression selectors of the payload\<close>

definition selector_strings :: "go_value list \<Rightarrow> gostring list" where
  "selector_strings vs = List.map_filter (\<lambda>v. case v of VString s \<Rightarrow> Some s | _ \<Rightarrow> None) vs"

fun check_selectors ::
  "gostring \<Rightarrow> gostring list \<Rightarrow> gostring list \<Rightarrow> gostring list \<Rightarrow> validation_error + gostring list" where
  "check_selectors path knownRuleIDs [] deprecations = Inr deprecations"
| "check_selectors path knownRuleIDs (selector # rest) deprecations =
     (case ParseSuppressionSelector selector of
        None \<Rightarrow> Inl ((verr ''invalid_suppression_selector'' (path @ ''.suppression-selectors'')
                  (''invalid suppression selector format: '' @ selector))
                \<lparr>ve_Hint := ''valid formats: rule:*, node:ID, subgraph:NAME, file:*.js, or negation with ! prefix''\<rparr>)
      | Some parsed \<Rightarrow>
          check_selectors path knownRuleIDs rest
            (if sel_Prefix parsed = ''rule'' \<and> sel_Value parsed \<noteq> ''*'' \<and> sel_Value parsed \<notin> set knownRuleIDs
             then deprecations @ [''suppression selector references unknown rule: '' @ sel_Value parsed] else deprecations))"

fun check_config_selectors ::
  "gostring \<Rightarrow> gostring list \<Rightarrow> (gostring \<times> rule_config) list \<Rightarrow> gostring list \<Rightarrow> validation_error + gostring list" where
  "check_config_selectors rulePathPrefix knownRuleIDs [] deprecations = Inr deprecations"
| "check_config_selectors rulePathPrefix knownRuleIDs ((ruleID, ruleConfig) # rest) deprecations =
     (case (case map_of ruleConfig ''suppression-selectors'' of
              Some (VList vs) \<Rightarrow> check_selectors (rulePathPrefix @ ''.'' @ ruleID) knownRuleIDs (selector_strings vs) deprecations
            | _ \<Rightarrow> Inr deprecations) of
        Inl e \<Rightarrow> Inl e
      | Inr deprecations \<Rightarrow> check_config_selectors rulePathPrefix knownRuleIDs rest deprecations)"

section \<open>The whole function\<close>

definition parseConfig ::
  "orders \<Rightarrow> (gostring \<Rightarrow> go_value option) \<Rightarrow> gostring \<Rightarrow> gostring list \<Rightarrow> bool \<Rightarrow> bool
     \<Rightarrow> validation_error + config \<times> gostring list" where
  "parseConfig ord Unmarshal raw knownRuleIDs strict lenient =
     (if raw = [] then Inr ([], [])
      else case Unmarshal raw of
        None \<Rightarrow> Inl (verr ''invalid_option'' ''config'' ''invalid config object'')
      | Some (VMap asMap) \<Rightarrow>
          (case config_shape ord strict asMap of
             Inl e \<Rightarrow> Inl e
           | Inr (rulesMap, rulePathPrefix, deprecations) \<Rightarrow>
               (case normalize_rules_map ord knownRuleIDs lenient rulePathPrefix (range_map (ord RuleKeys) rulesMap) [] deprecations of
                  Inl e \<Rightarrow> Inl e
                | Inr (cfg, deprecations) \<Rightarrow>
                    (case check_config_selectors rulePathPrefix knownRuleIDs (range_map (ord ConfiguredRules) cfg) deprecations of
                       Inl e \<Rightarrow> Inl e
                     | Inr deprecations \<Rightarrow> Inr (cfg, deprecations))))
      | Some _ \<Rightarrow> Inl (verr ''invalid_option'' ''config'' ''config must be object''))"

section \<open>What is accepted\<close>

text \<open>A loop over a map visits the pairs of the map, whatever its order.\<close>

lemma set_range_map_lookup:
  "iteration_order ord \<Longrightarrow> set (range_map ord m) = {(k, v). map_of m k = Some v}"
  by (force simp: range_map_def map_filter_def iteration_order_set set_gm_keys image_iff)

text \<open>The map of rules a payload contributes, if its shape is accepted: no order of keys matters.\<close>

definition rules_or :: "(gostring, go_value) gomap \<Rightarrow> rule_config \<Rightarrow> (gostring, go_value) gomap option" where
  "rules_or absent m = (case map_of m ''rules'' of None \<Rightarrow> Some absent | Some (VMap r) \<Rightarrow> Some r | Some _ \<Rightarrow> None)"

definition versioned_rules :: "gostring list \<Rightarrow> go_value \<Rightarrow> rule_config \<Rightarrow> (gostring, go_value) gomap option" where
  "versioned_rules names v m =
     (if v = VString ''v1'' \<and> set (gm_keys m) \<subseteq> set names then rules_or [] m else None)"

definition payload_rules :: "bool \<Rightarrow> rule_config \<Rightarrow> (gostring, go_value) gomap option" where
  "payload_rules strict m0 =
     (let m = AList.delete ''allow-unknown-rules'' m0
      in case map_of m ''schema_version'' of
           Some v \<Rightarrow> if strict then None else versioned_rules [''schema-version'', ''schema_version'', ''rules''] v m
         | None \<Rightarrow>
             (case map_of m ''schema-version'' of
                Some v \<Rightarrow> versioned_rules [''schema-version'', ''rules''] v m
              | None \<Rightarrow> if strict then None else rules_or m m))"

definition options_ok :: "gostring \<Rightarrow> gostring list \<Rightarrow> rule_config \<Rightarrow> bool" where
  "options_ok ruleID allowed opts \<longleftrightarrow>
     (\<forall>(k, v)\<in>set (range_map (\<lambda>ks. ks) opts). NormalizeOptionKey k \<in> set allowed \<and> ValidateOption ruleID k v = None)"

definition entry_ok :: "gostring list \<Rightarrow> bool \<Rightarrow> gostring \<times> go_value \<Rightarrow> bool" where
  "entry_ok known lenient e =
     (case e of (ruleID, v) \<Rightarrow>
        (case v of
           VMap opts \<Rightarrow> (case resolve_rule known ruleID of None \<Rightarrow> lenient | Some (r, allowed) \<Rightarrow> options_ok r allowed opts)
         | _ \<Rightarrow> False))"

definition payload_ok :: "gostring list \<Rightarrow> bool \<Rightarrow> bool \<Rightarrow> go_value \<Rightarrow> bool" where
  "payload_ok known strict lenient v =
     (case v of
        VMap m \<Rightarrow> (case payload_rules strict m of None \<Rightarrow> False | Some rules \<Rightarrow> list_all (entry_ok known lenient) (range_map (\<lambda>ks. ks) rules))
      | _ \<Rightarrow> False)"

lemma check_options_Inr:
  "(\<exists>w. check_options path r allowed kvs d = Inr w) \<longleftrightarrow>
     list_all (\<lambda>(k, v). NormalizeOptionKey k \<in> set allowed \<and> ValidateOption r k v = None) kvs"
  by (induction path r allowed kvs d rule: check_options.induct) (auto simp: Let_def)

lemma check_options_ok:
  "iteration_order ord \<Longrightarrow>
   (\<exists>w. check_options path r allowed (range_map ord opts) d = Inr w) \<longleftrightarrow> options_ok r allowed opts"
  by (simp add: check_options_Inr options_ok_def list_all_iff set_range_map_lookup)

lemma check_options_cases:
  assumes "iteration_order ord"
  obtains (bad) e where "check_options path r allowed (range_map ord opts) d = Inl e" "\<not> options_ok r allowed opts"
  | (good) w where "check_options path r allowed (range_map ord opts) d = Inr w" "options_ok r allowed opts"
  using check_options_ok [OF assms, of path r allowed opts d]
  by (cases "check_options path r allowed (range_map ord opts) d") auto

text \<open>The configuration the accepted entries build up.\<close>

definition add_entry :: "gostring list \<Rightarrow> gostring \<times> go_value \<Rightarrow> config \<Rightarrow> config" where
  "add_entry known e acc =
     (case (resolve_rule known (fst e), snd e) of (Some (r, _), VMap opts) \<Rightarrow> AList.update r opts acc | _ \<Rightarrow> acc)"

lemma entry_ok_Pair:
  "entry_ok known lenient (k, VMap opts) =
     (case resolve_rule known k of None \<Rightarrow> lenient | Some (r, allowed) \<Rightarrow> options_ok r allowed opts)"
  "\<nexists>opts. v = VMap opts \<Longrightarrow> \<not> entry_ok known lenient (k, v)"
  by (auto simp: entry_ok_def split: go_value.split)

lemma add_entry_Pair:
  "add_entry known (k, VMap opts) acc = (case resolve_rule known k of None \<Rightarrow> acc | Some (r, _) \<Rightarrow> AList.update r opts acc)"
  by (simp add: add_entry_def split: option.split)

lemma normalize_rules_map_spec:
  assumes "orders_ok ord"
  shows "(if list_all (entry_ok known lenient) kvs
          then \<exists>w. normalize_rules_map ord known lenient pre kvs acc d = Inr (fold (add_entry known) kvs acc, w)
          else \<exists>e. normalize_rules_map ord known lenient pre kvs acc d = Inl e)"
proof (induction kvs arbitrary: acc d)
  case (Cons kv kvs)
  obtain k v where kv: "kv = (k, v)" by (cases kv)
  show ?case
  proof (cases v)
    case (VMap opts)
    show ?thesis
    proof (cases "resolve_rule known k")
      case None
      show ?thesis
        using Cons.IH [of acc "d @ [unrecognizedRuleWarning k]"]
        by (cases lenient) (auto simp: kv VMap None entry_ok_Pair add_entry_Pair split: if_splits)
    next
      case (Some ra)
      obtain r allowed where ra: "ra = (r, allowed)" by (cases ra)
      show ?thesis
      proof (rule check_options_cases [OF orders_okD [OF assms, of "OptionKeys k"], of "pre @ ''.'' @ k" r allowed opts d])
        fix w
        assume "check_options (pre @ ''.'' @ k) r allowed (range_map (ord (OptionKeys k)) opts) d = Inr w" "options_ok r allowed opts"
        with Cons.IH [of "AList.update r opts acc" w] show ?thesis
          by (simp add: kv VMap Some ra entry_ok_Pair add_entry_Pair)
      qed (simp add: kv VMap Some ra entry_ok_Pair)
    qed
  qed (simp_all add: kv entry_ok_Pair)
qed simp

lemma find_order: "iteration_order ord \<Longrightarrow> find P (ord ks) = None \<longleftrightarrow> (\<forall>k\<in>set ks. \<not> P k)"
  by (auto simp: find_None_iff iteration_order_set)

text \<open>The two outcomes of a check, compared with the value it should accept.\<close>

definition accepts :: "'e + 'a \<times> 'b \<Rightarrow> 'a option \<Rightarrow> bool" where
  "accepts res x = (case res of Inl _ \<Rightarrow> x = None | Inr (y, _) \<Rightarrow> x = Some y)"

lemma versioned_shape_spec:
  assumes "orders_ok ord"
  shows "accepts (versioned_shape ord strict m v d)
    (versioned_rules (if strict then [''schema-version'', ''rules''] else [''schema-version'', ''schema_version'', ''rules'']) v m)"
proof -
  let ?names = "if strict then [''schema-version'', ''rules''] else [''schema-version'', ''schema_version'', ''rules'']"
  have keys: "find (unknown_top_key strict) (ord TopLevelKeys (gm_keys m)) = None \<longleftrightarrow> set (gm_keys m) \<subseteq> set ?names"
    by (cases strict) (auto simp: find_order [OF orders_okD [OF assms]] unknown_top_key_def)
  consider (other) "v \<noteq> VString ''v1''" | (v1) "v = VString ''v1''" by blast
  then show ?thesis
  proof cases
    case other
    then show ?thesis
      by (simp add: accepts_def versioned_shape_def versioned_rules_def CurrentConfigSchemaVersion_def split: go_value.split)
  next
    case v1
    show ?thesis
      using keys
      by (cases "rules_or [] m"; cases "find (unknown_top_key strict) (ord TopLevelKeys (gm_keys m))")
        (simp_all add: v1 accepts_def versioned_shape_def versioned_rules_def CurrentConfigSchemaVersion_def rules_or_def [symmetric])
  qed
qed

lemma config_shape_spec:
  assumes "orders_ok ord"
  shows "accepts (config_shape ord strict m) (payload_rules strict m)"
proof -
  let ?m = "AList.delete ''allow-unknown-rules'' m"
  note versioned = versioned_shape_spec [OF assms, of strict ?m]
  show ?thesis
  proof (cases "map_of ?m ''schema_version''")
    case (Some v)
    then show ?thesis using versioned [of v "[legacySchemaVersionWarningMessage]"]
      by (cases strict) (simp_all add: config_shape_def payload_rules_def accepts_def)
  next
    case None
    note legacy = this
    show ?thesis
    proof (cases "map_of ?m ''schema-version''")
      case (Some v)
      have "''schema_version'' \<notin> set (gm_keys ?m)" using legacy by (simp add: set_gm_keys domIff)
      then have "versioned_rules [''schema-version'', ''schema_version'', ''rules''] v ?m = versioned_rules [''schema-version'', ''rules''] v ?m"
        by (auto simp: versioned_rules_def)
      with Some show ?thesis using legacy versioned [of v "[]"]
        by (cases strict) (simp_all add: config_shape_def payload_rules_def)
    next
      case None
      with legacy show ?thesis
        by (simp add: config_shape_def payload_rules_def accepts_def rules_or_def Let_def split: option.split go_value.split)
    qed
  qed
qed

section \<open>Selectors are validated with the options\<close>

lemma selector_strings_all: "all_strings vs = Some ss \<Longrightarrow> selector_strings vs = ss"
  by (induction vs arbitrary: ss rule: all_strings.induct) (auto simp: selector_strings_def map_filter_simps)

lemma normalized_selectors_key: "NormalizeOptionKey ''suppression-selectors'' = ''suppression-selectors''"
  by code_simp

lemma options_ok_selectors:
  assumes "options_ok r allowed opts" and "map_of opts ''suppression-selectors'' = Some (VList vs)"
  shows "list_all (\<lambda>s. ParseSuppressionSelector s \<noteq> None) (selector_strings vs)"
proof -
  have "ValidateOption r ''suppression-selectors'' (VList vs) = None"
    using assms by (auto simp: options_ok_def set_range_map_lookup)
  then have "validate_selectors (VList vs)"
    by (simp add: ValidateOption_def normalized_selectors_key sharedOptionConstraints_def split: if_splits)
  then show ?thesis
    by (auto simp: validate_selectors_def string_slice_def selector_strings_all split: option.splits)
qed

lemma check_selectors_ok:
  "list_all (\<lambda>s. ParseSuppressionSelector s \<noteq> None) ss \<Longrightarrow> \<exists>w. check_selectors path known ss d = Inr w"
  by (induction path known ss d rule: check_selectors.induct) auto

lemma check_config_selectors_ok:
  "\<forall>(r, opts)\<in>set kvs. \<exists>allowed. options_ok r allowed opts \<Longrightarrow> \<exists>w. check_config_selectors pre known kvs d = Inr w"
proof (induction pre known kvs d rule: check_config_selectors.induct)
  case (2 pre known r opts rest d)
  obtain allowed where ok: "options_ok r allowed opts" using "2.prems" by auto
  have "\<exists>w. (case map_of opts ''suppression-selectors'' of
      Some (VList vs) \<Rightarrow> check_selectors (pre @ ''.'' @ r) known (selector_strings vs) d | _ \<Rightarrow> Inr d) = Inr w"
    using check_selectors_ok [OF options_ok_selectors [OF ok]] by (auto split: option.split go_value.split)
  then show ?case using "2.IH" "2.prems" by auto
qed simp

section \<open>The accepted configuration\<close>

lemma map_of_add_entries:
  "map_of (fold (add_entry known) kvs acc) r = Some opts \<Longrightarrow>
   map_of acc r = Some opts \<or> (\<exists>k allowed. (k, VMap opts) \<in> set kvs \<and> resolve_rule known k = Some (r, allowed))"
proof (induction kvs arbitrary: acc)
  case (Cons e kvs)
  obtain k v where e: "e = (k, v)" by (cases e)
  have "map_of (add_entry known e acc) r = Some opts \<Longrightarrow> map_of acc r = Some opts \<or>
      (v = VMap opts \<and> (\<exists>allowed. resolve_rule known k = Some (r, allowed)))"
    by (auto simp: e add_entry_def update_conv' split: option.splits go_value.splits if_splits prod.splits)
  with Cons show ?case by (fastforce simp: e)
qed simp

lemma dom_add_entries:
  "dom (map_of (fold (add_entry known) kvs acc)) =
     dom (map_of acc) \<union> {r. \<exists>k opts allowed. (k, VMap opts) \<in> set kvs \<and> resolve_rule known k = Some (r, allowed)}"
proof (induction kvs arbitrary: acc)
  case (Cons e kvs)
  obtain k v where e: "e = (k, v)" by (cases e)
  have "dom (map_of (add_entry known e acc)) =
      dom (map_of acc) \<union> {r. \<exists>opts allowed. v = VMap opts \<and> resolve_rule known k = Some (r, allowed)}"
    by (auto simp: e add_entry_def dom_map_of_update split: option.splits go_value.splits prod.splits)
  with Cons show ?case by (auto simp: e)
qed simp

lemma entries_options_ok:
  assumes "list_all (entry_ok known lenient) kvs" and "map_of (fold (add_entry known) kvs []) r = Some opts"
  shows "\<exists>k allowed. (k, VMap opts) \<in> set kvs \<and> resolve_rule known k = Some (r, allowed) \<and> options_ok r allowed opts"
proof -
  obtain k allowed where k: "(k, VMap opts) \<in> set kvs" "resolve_rule known k = Some (r, allowed)"
    using map_of_add_entries [OF assms(2)] by auto
  then have "entry_ok known lenient (k, VMap opts)" using assms(1) by (auto simp: list_all_iff)
  with k show ?thesis by (auto simp: entry_ok_Pair)
qed

lemma selectors_accepted:
  assumes ord: "orders_ok ord" and norm: "normalize_rules_map ord known lenient pre kvs [] d = Inr (cfg, w)"
  shows "\<exists>w'. check_config_selectors pre known (range_map (ord ConfiguredRules) cfg) w = Inr w'"
proof -
  have ok: "list_all (entry_ok known lenient) kvs" and cfg: "cfg = fold (add_entry known) kvs []"
    using normalize_rules_map_spec [OF ord, of known lenient kvs pre "[]" d] norm by (auto split: if_splits)
  have "\<forall>(r, opts)\<in>set (range_map (ord ConfiguredRules) cfg). \<exists>allowed. options_ok r allowed opts"
    using entries_options_ok [OF ok] by (fastforce simp: cfg set_range_map_lookup orders_okD [OF ord])
  then show ?thesis by (rule check_config_selectors_ok)
qed

lemma parseConfig_object:
  assumes ord: "orders_ok ord" and raw: "raw \<noteq> []" "Unmarshal raw = Some (VMap m)"
  shows "(case payload_rules strict m of
     None \<Rightarrow> \<exists>e. parseConfig ord Unmarshal raw known strict lenient = Inl e
   | Some rules \<Rightarrow>
       (if list_all (entry_ok known lenient) (range_map (\<lambda>ks. ks) rules)
        then \<exists>w. parseConfig ord Unmarshal raw known strict lenient =
               Inr (fold (add_entry known) (range_map (ord RuleKeys) rules) [], w)
        else \<exists>e. parseConfig ord Unmarshal raw known strict lenient = Inl e))"
proof (cases "config_shape ord strict m")
  case (Inl e)
  then show ?thesis using config_shape_spec [OF ord, of strict m] raw by (simp add: accepts_def parseConfig_def)
next
  case (Inr res)
  obtain rules pre d where res: "res = (rules, pre, d)" by (cases res)
  have rules: "payload_rules strict m = Some rules"
    using config_shape_spec [OF ord, of strict m] Inr res by (simp add: accepts_def)
  let ?kvs = "range_map (ord RuleKeys) rules"
  have same: "list_all P ?kvs = list_all P (range_map (\<lambda>ks. ks) rules)" for P
    by (simp add: list_all_iff set_range_map_lookup orders_okD [OF ord])
  show ?thesis
  proof (cases "list_all (entry_ok known lenient) ?kvs")
    case True
    then obtain w where w: "normalize_rules_map ord known lenient pre ?kvs [] d = Inr (fold (add_entry known) ?kvs [], w)"
      using normalize_rules_map_spec [OF ord, of known lenient ?kvs pre "[]" d] by auto
    from selectors_accepted [OF ord w] True show ?thesis
      by (auto simp: rules same parseConfig_def raw Inr res w)
  next
    case False
    then show ?thesis
      using normalize_rules_map_spec [OF ord, of known lenient ?kvs pre "[]" d]
      by (auto simp: rules same parseConfig_def raw Inr res)
  qed
qed


lemma add_entry_keys: "distinct (gm_keys acc) \<Longrightarrow> distinct (gm_keys (fold (add_entry known) kvs acc))"
  by (induction kvs arbitrary: acc)
    (auto simp: add_entry_def distinct_gm_keys_update split: option.splits go_value.splits prod.splits)

lemma parseConfig_result:
  assumes "orders_ok ord" and "raw \<noteq> []" and "parseConfig ord Unmarshal raw known strict lenient = Inr (cfg, w)"
  shows "\<exists>m rules. Unmarshal raw = Some (VMap m) \<and> payload_rules strict m = Some rules \<and> distinct (gm_keys cfg) \<and>
     dom (map_of cfg) = {r. \<exists>k opts allowed. map_of rules k = Some (VMap opts) \<and> resolve_rule known k = Some (r, allowed)} \<and>
     (\<forall>r opts. map_of cfg r = Some opts \<longrightarrow> r \<in> set known \<and>
        (\<exists>k allowed. map_of rules k = Some (VMap opts) \<and> resolve_rule known k = Some (r, allowed) \<and> options_ok r allowed opts))"
proof -
  obtain m where m: "Unmarshal raw = Some (VMap m)"
    using assms(2,3) by (auto simp: parseConfig_def split: option.splits go_value.splits)
  from parseConfig_object [where Unmarshal = Unmarshal and strict = strict and known = known and lenient = lenient, OF assms(1,2) m] assms(3)
  obtain rules where rules: "payload_rules strict m = Some rules" "list_all (entry_ok known lenient) (range_map (\<lambda>ks. ks) rules)"
    and cfg: "cfg = fold (add_entry known) (range_map (ord RuleKeys) rules) []"
    by (auto split: option.splits if_splits)
  note lookup = set_range_map_lookup [OF orders_okD [OF assms(1)]]
  have ok: "list_all (entry_ok known lenient) (range_map (ord RuleKeys) rules)"
    using rules(2) by (simp add: list_all_iff lookup set_range_map_lookup)
  have known: "r \<in> set known" if "resolve_rule known k = Some (r, allowed)" for k r allowed
    using that NormalizeConfigRuleID_known by (fastforce simp: resolve_rule_def split: sum.splits option.splits prod.splits)
  have dom: "dom (map_of cfg) =
      {r. \<exists>k opts allowed. map_of rules k = Some (VMap opts) \<and> resolve_rule known k = Some (r, allowed)}"
    using dom_add_entries [of known "range_map (ord RuleKeys) rules" "[]"] by (simp add: cfg lookup)
  have entry: "\<exists>k allowed. map_of rules k = Some (VMap opts) \<and> resolve_rule known k = Some (r, allowed) \<and> options_ok r allowed opts"
    if "map_of cfg r = Some opts" for r opts
    using entries_options_ok [OF ok, of r opts] that by (simp add: cfg lookup)
  have keys: "distinct (gm_keys cfg)" by (simp add: cfg add_entry_keys)
  show ?thesis
    by (intro exI [of _ m] exI [of _ rules] conjI allI impI m rules(1) keys dom entry) (use entry known in blast)
qed

text \<open>
  An accepted configuration holds validated settings only: its rules are exactly the known rules
  the payload names (directly or by their \<^verbatim>\<open>core/\<close> alias), the options of each are those of an entry
  of the payload that names it, and each option key is one of the rule's, with an allowed
  value.
\<close>
theorem parseConfig_validated:
  assumes "orders_ok ord" and "raw \<noteq> []" and "parseConfig ord Unmarshal raw known strict lenient = Inr (cfg, w)"
  shows "\<exists>m rules. Unmarshal raw = Some (VMap m) \<and> payload_rules strict m = Some rules \<and>
     dom (map_of cfg) = {r. \<exists>k opts allowed. map_of rules k = Some (VMap opts) \<and> resolve_rule known k = Some (r, allowed)} \<and>
     (\<forall>r opts. map_of cfg r = Some opts \<longrightarrow> r \<in> set known \<and>
        (\<exists>k allowed. map_of rules k = Some (VMap opts) \<and> resolve_rule known k = Some (r, allowed) \<and> options_ok r allowed opts))"
  using parseConfig_result [OF assms] by blast

text \<open>Two payloads at work: the versioned shape, and the order that decides between a rule and its alias.\<close>

definition example_payload :: go_value where
  "example_payload = VMap [(''schema-version'', VString ''v1''),
     (''rules'', VMap [(''core/max-fanout'', VMap [(''limit'', VFloat 3), (''severity'', VString ''error'')])])]"

lemma example_payload_ok: "payload_ok [''max-fanout''] True False example_payload"
  by code_simp


lemma example_config:
  "parseConfig (\<lambda>_ ks. ks) (\<lambda>_. Some example_payload) ''{}'' [''max-fanout''] True False =
     Inr ([(''max-fanout'', [(''limit'', VFloat 3), (''severity'', VString ''error'')])], [])"
  by code_simp

theorem parseConfig_validated_witness:
  "orders_ok (\<lambda>_ ks. ks) \<and> ''{}'' \<noteq> [] \<and> ''max-fanout'' \<in> set [''max-fanout''] \<and>
   (\<exists>allowed. options_ok ''max-fanout'' allowed [(''limit'', VFloat 3), (''severity'', VString ''error'')])"
proof -
  have ord: "orders_ok (\<lambda>_ ks. ks)" by (simp add: orders_ok_def)
  have raw: "''{}'' \<noteq> []" by simp
  obtain rules where "\<forall>r opts. map_of [(''max-fanout'', [(''limit'', VFloat 3), (''severity'', VString ''error'')])] r = Some opts \<longrightarrow>
      r \<in> set [''max-fanout''] \<and> (\<exists>k allowed. map_of rules k = Some (VMap opts) \<and>
        resolve_rule [''max-fanout''] k = Some (r, allowed) \<and> options_ok r allowed opts)"
    using parseConfig_validated [OF ord raw example_config] by blast
  from this [rule_format, of "''max-fanout''"] ord show ?thesis by auto
qed

definition aliased_payload :: go_value where
  "aliased_payload = VMap [(''schema-version'', VString ''v1''),
     (''rules'', VMap [(''max-fanout'', VMap [(''limit'', VFloat 3)]), (''core/max-fanout'', VMap [(''limit'', VFloat 5)])])]"

lemma alias_order_decides:
  "parseConfig (\<lambda>_ ks. ks) (\<lambda>_. Some aliased_payload) ''{}'' [''max-fanout''] True False =
     Inr ([(''max-fanout'', [(''limit'', VFloat 5)])], []) \<and>
   parseConfig (\<lambda>_. rev) (\<lambda>_. Some aliased_payload) ''{}'' [''max-fanout''] True False =
     Inr ([(''max-fanout'', [(''limit'', VFloat 3)])], [])"
  by code_simp

section \<open>Error codes\<close>

definition payload_error_codes :: "gostring list" where
  "payload_error_codes = [''invalid_option'', ''unknown_option'', ''unknown_rule'', ''unsupported_schema_version'', ''deprecated_config_format'']"

lemma check_options_code: "check_options path r allowed kvs d = Inl e \<Longrightarrow> ve_Code e \<in> set payload_error_codes"
  by (induction path r allowed kvs d rule: check_options.induct) (auto simp: payload_error_codes_def verr_def Let_def split: if_splits)

lemma normalize_rules_map_code:
  "normalize_rules_map ord known lenient pre kvs acc d = Inl e \<Longrightarrow> ve_Code e \<in> set payload_error_codes"
  by (induction ord known lenient pre kvs acc d rule: normalize_rules_map.induct)
    (auto simp: unknown_rule_def verr_def payload_error_codes_def [THEN arg_cong [of _ _ set]] dest: check_options_code
      split: go_value.splits option.splits sum.splits if_splits prod.splits)

lemma config_shape_code: "config_shape ord strict m = Inl e \<Longrightarrow> ve_Code e \<in> set payload_error_codes"
  by (auto simp: config_shape_def versioned_shape_def deprecated_shape_def verr_def payload_error_codes_def Let_def
      split: go_value.splits option.splits if_splits)

text \<open>
  A payload is never rejected with the code \<^verbatim>\<open>invalid_suppression_selector\<close>: the options are validated
  first, and a malformed selector is an invalid option there.
\<close>

lemma parseConfig_error_codes:
  assumes "orders_ok ord" and "parseConfig ord Unmarshal raw known strict lenient = Inl e"
  shows "ve_Code e \<in> set payload_error_codes"
proof -
  have other: "ve_Code (verr ''invalid_option'' path msg) \<in> set payload_error_codes" for path msg
    by (simp add: verr_def payload_error_codes_def)
  show ?thesis
  proof (cases "raw \<noteq> [] \<and> (\<exists>m. Unmarshal raw = Some (VMap m))")
    case False
    then show ?thesis using assms(2) other by (auto simp: parseConfig_def split: option.splits go_value.splits if_splits)
  next
    case True
    then obtain m where m: "raw \<noteq> []" "Unmarshal raw = Some (VMap m)" by auto
    show ?thesis
    proof (cases "config_shape ord strict m")
      case (Inl e')
      then show ?thesis using assms(2) m config_shape_code [OF Inl] by (simp add: parseConfig_def)
    next
      case (Inr res)
      obtain rules pre d where res: "res = (rules, pre, d)" by (cases res)
      show ?thesis
      proof (cases "normalize_rules_map ord known lenient pre (range_map (ord RuleKeys) rules) [] d")
        case Inl': (Inl e')
        then show ?thesis using assms(2) m Inr res normalize_rules_map_code [OF Inl'] by (simp add: parseConfig_def)
      next
        case Inr': (Inr cw)
        obtain cfg w where cw: "cw = (cfg, w)" by (cases cw)
        show ?thesis using assms(2) m Inr res Inr' cw selectors_accepted [OF assms(1) Inr' [unfolded cw]]
          by (auto simp: parseConfig_def)
      qed
    qed
  qed
qed

section \<open>An accepted configuration is one the engine accepts\<close>

lemma trim_left_done: "find (\<lambda>e. prefix e (trim_left s)) space_encodings = None"
proof (induction s rule: trim_left.induct)
  case (1 s)
  then show ?case
    by (cases "find (\<lambda>e. prefix e s) space_encodings") (simp_all add: trim_left.simps [of s])
qed

lemma trim_right_done: "find (\<lambda>e. suffix e (trim_right s)) space_encodings = None \<and> prefix (trim_right s) s"
proof (induction s rule: trim_right.induct)
  case (1 s)
  show ?case
  proof (cases "find (\<lambda>e. suffix e s) space_encodings")
    case None
    then show ?thesis by (simp add: trim_right.simps [of s])
  next
    case (Some e)
    then show ?thesis using 1 [OF Some] take_is_prefix prefix_order.trans by (fastforce simp: trim_right.simps [of s])
  qed
qed

lemma TrimSpace_idem: "TrimSpace (TrimSpace s) = TrimSpace s"
proof -
  let ?t = "TrimSpace s"
  have "\<not> prefix e ?t" if "e \<in> set space_encodings" for e
    using that trim_left_done [of s] trim_right_done [of "trim_left s"] prefix_order.trans
    unfolding TrimSpace_def find_None_iff by blast
  then have "find (\<lambda>e. prefix e ?t) space_encodings = None" by (simp add: find_None_iff)
  then have "trim_left ?t = ?t" by (simp add: trim_left.simps [of ?t])
  moreover have "trim_right ?t = ?t"
    using trim_right_done [of "trim_left s"] by (simp add: TrimSpace_def trim_right.simps [of "trim_right (trim_left s)"])
  ultimately show ?thesis by (simp add: TrimSpace_def [of ?t])
qed

lemma built_in_ids_plain: "r \<in> set builtInRuleIDSet \<Longrightarrow> TrimSpace r = r \<and> r \<noteq> [] \<and> \<not> HasPrefix r ''core/''"
proof -
  have "list_all (\<lambda>r. TrimSpace r = r \<and> r \<noteq> [] \<and> \<not> HasPrefix r ''core/'') builtInRuleIDSet"
    unfolding builtInRuleIDSet_eq by code_simp
  then show "r \<in> set builtInRuleIDSet \<Longrightarrow> TrimSpace r = r \<and> r \<noteq> [] \<and> \<not> HasPrefix r ''core/''" by (simp add: list_all_iff)
qed

lemma resolved_id_resolves:
  assumes "NormalizeConfigRuleID raw known = Inr (r, w)"
  shows "\<exists>w'. NormalizeConfigRuleID r known = Inr (r, w')"
proof -
  have r: "r \<in> set known \<and> TrimSpace r = r \<and> r \<noteq> [] \<and> \<not> HasPrefix r ''core/''"
  proof (cases "HasPrefix (TrimSpace raw) ''core/''")
    case True
    then show ?thesis using assms built_in_ids_plain [of r] by (auto simp: NormalizeConfigRuleID_def Let_def split: if_splits)
  next
    case False
    then show ?thesis using assms by (auto simp: NormalizeConfigRuleID_def Let_def TrimSpace_idem split: if_splits)
  qed
  then show ?thesis by (simp add: NormalizeConfigRuleID_def)
qed

text \<open>Decoding gives maps with distinct keys.\<close>

fun map_keys_distinct :: "go_value \<Rightarrow> bool" where
  "map_keys_distinct (VMap m) = (distinct (map fst m) \<and> list_all map_keys_distinct (map snd m))"
| "map_keys_distinct (VList vs) = list_all map_keys_distinct vs"
| "map_keys_distinct _ = True"

lemma map_of_normalize_options:
  "map_of (normalize_options opts) key = Some v \<Longrightarrow> \<exists>k. (k, v) \<in> set opts \<and> NormalizeOptionKey k = key"
proof -
  have "map_of (fold (\<lambda>(k, v). AList.update (normalizeMetaKey k) v) opts acc) key = Some v \<Longrightarrow>
      map_of acc key = Some v \<or> (\<exists>k. (k, v) \<in> set opts \<and> NormalizeOptionKey k = key)" for acc
  proof (induction opts arbitrary: acc)
    case (Cons kv opts)
    obtain k x where kv: "kv = (k, x)" by (cases kv)
    show ?case using Cons.IH [of "AList.update (normalizeMetaKey k) x acc"] Cons.prems
      by (auto simp: kv update_conv' NormalizeOptionKey_def split: if_splits)
  qed simp
  from this [of "[]"] show "map_of (normalize_options opts) key = Some v \<Longrightarrow> ?thesis" by (simp add: normalize_options_def)
qed

lemma shared_option_valid:
  assumes "ValidateOption r k v = None" and "map_of sharedOptionConstraints (NormalizeOptionKey k) = Some f"
  shows "f v"
  using assms by (simp add: ValidateOption_def Let_def split: if_splits)

lemma normalized_options_valid:
  assumes ok: "options_ok r allowed opts" and dist: "distinct (map fst opts)"
    and lookup: "map_of cfg r = Some (normalize_options opts)"
  shows "validate_rule_config r cfg = None"
proof -
  have valid: "f v" if "map_of (normalize_options opts) key = Some v" "map_of sharedOptionConstraints key = Some f" for key v f
  proof -
    from map_of_normalize_options [OF that(1)] obtain k where k: "(k, v) \<in> set opts" "NormalizeOptionKey k = key" by blast
    then have "map_of opts k = Some v" using dist by simp
    then have "ValidateOption r k v = None" using ok by (auto simp: options_ok_def set_range_map_lookup)
    then show ?thesis using shared_option_valid that(2) k(2) by blast
  qed
  note sev = valid [of "''severity''" _ validate_severity] and en = valid [of "''enabled''" _ validate_bool]
    and sel = valid [of "''suppression-selectors''" _ validate_selectors]
  have severity: "\<exists>s. resolveSeverity r cfg ''warning'' = Inr s"
    using sev by (auto simp: resolveSeverity_def lookup sharedOptionConstraints_def validate_severity_def Let_def
        split: option.splits go_value.splits)
  have enabled: "\<not> (case map_of (normalize_options opts) ''enabled'' of None \<Rightarrow> False | Some (VBool _) \<Rightarrow> False | Some _ \<Rightarrow> True)"
    using en by (auto simp: sharedOptionConstraints_def validate_bool_def split: option.splits go_value.splits)
  have selectors: "(case map_of (normalize_options opts) ''suppression-selectors'' of None \<Rightarrow> None
      | Some raw \<Rightarrow> (case string_slice raw of None \<Rightarrow> Some (SelectorsNotStrings r)
          | Some ss \<Rightarrow> map_option (BadSelector r) (find (\<lambda>s. ParseSuppressionSelector s = None) ss))) = None"
    using sel by (auto simp: sharedOptionConstraints_def validate_selectors_def list_all_iff find_None_iff split: option.splits)
  show ?thesis
    using severity enabled selectors by (auto simp: validate_rule_config_def lookup Let_def)
qed

lemma normalize_rules_self:
  assumes "list_all (\<lambda>(r, _). \<exists>w. NormalizeConfigRuleID r known = Inr (r, w)) rcs" and "distinct (map fst rcs)"
    and "\<And>r. r \<in> fst ` set rcs \<Longrightarrow> map_of acc r = None"
  shows "\<exists>out. normalize_rules known rcs acc = Inr out \<and>
    (\<forall>r. map_of out r = (if map_of rcs r = None then map_of acc r else map_option normalize_options (map_of rcs r)))"
  using assms
proof (induction rcs arbitrary: acc)
  case (Cons e rcs)
  obtain r opts where e: "e = (r, opts)" by (cases e)
  obtain w where w: "NormalizeConfigRuleID r known = Inr (r, w)" using Cons.prems(1) by (auto simp: e)
  have new: "map_of acc r = None" using Cons.prems(3) by (simp add: e)
  let ?acc = "AList.update r (normalize_options opts) acc"
  have "\<exists>out. normalize_rules known rcs ?acc = Inr out \<and>
      (\<forall>x. map_of out x = (if map_of rcs x = None then map_of ?acc x else map_option normalize_options (map_of rcs x)))"
    by (rule Cons.IH) (use Cons.prems in \<open>auto simp: e update_conv'\<close>)
  then obtain out where out: "normalize_rules known rcs ?acc = Inr out"
    "map_of out x = (if map_of rcs x = None then map_of ?acc x else map_option normalize_options (map_of rcs x))" for x by blast
  have "map_of rcs r = None" using Cons.prems(2) by (simp add: e map_of_eq_None_iff)
  then have "map_of out x = (if map_of (e # rcs) x = None then map_of acc x else map_option normalize_options (map_of (e # rcs) x))" for x
    using out(2) [of x] by (cases "x = r") (simp_all add: e update_conv')
  then show ?case using out(1) by (auto simp: e w new Let_def)
qed simp

lemma payload_rules_keys:
  assumes "map_keys_distinct (VMap m)" and "payload_rules strict m = Some rules" and "map_of rules k = Some (VMap opts)"
  shows "distinct (map fst opts)"
proof -
  let ?m = "AList.delete ''allow-unknown-rules'' m"
  have sub: "(k, v) \<in> set m" if "map_of ?m k = Some v" for k v
    using map_of_SomeD [OF that] by (auto simp: AList.delete_eq)
  have inner: "map_keys_distinct v" if "(k, v) \<in> set m" for k v
    using that assms(1) by (force simp: list_all_iff)
  have "rules = [] \<or> rules = ?m \<or> map_of ?m ''rules'' = Some (VMap rules)"
    using assms(2) by (auto simp: payload_rules_def versioned_rules_def rules_or_def Let_def split: option.splits go_value.splits if_splits)
  then have "map_keys_distinct (VMap opts)"
  proof (elim disjE)
    assume "rules = ?m"
    then show ?thesis using assms(3) inner [OF sub] by blast
  next
    assume "map_of ?m ''rules'' = Some (VMap rules)"
    then have "map_keys_distinct (VMap rules)" using inner [OF sub] by blast
    then show ?thesis using map_of_SomeD [OF assms(3)] by (force simp: list_all_iff)
  qed (use assms(3) in simp)
  then show ?thesis by simp
qed

text \<open>
  C30: the two validations fit together: whatever configuration the request check accepts, the engine's
  own normalisation accepts too, for every map order, and keeps each rule with its options
  under their canonical keys; so an accepted request is never answered with \<^verbatim>\<open>invalid_config\<close>.
\<close>
theorem accepted_config_normalizes:
  assumes "orders_ok ord" and "iteration_order ord'" and "Unmarshal raw = Some v" and "map_keys_distinct v"
    and "parseConfig ord Unmarshal raw known strict lenient = Inr (cfg, w)"
  shows "\<exists>out. NormalizeConfig ord' cfg known = Inr out \<and>
     (\<forall>r. map_of out r = map_option normalize_options (map_of cfg r))"
proof (cases "raw = []")
  case True
  then have "cfg = []" using assms(5) by (simp add: parseConfig_def)
  moreover have "ord' [] = []" using iteration_order_mset [OF assms(2), of "[]"] by simp
  ultimately show ?thesis by (simp add: NormalizeConfig_def ValidateConfig_def)
next
  case False
  obtain m rules where m: "v = VMap m" "payload_rules strict m = Some rules" "distinct (gm_keys cfg)"
    and entry: "\<And>r opts. map_of cfg r = Some opts \<Longrightarrow> \<exists>k allowed. map_of rules k = Some (VMap opts) \<and>
      resolve_rule known k = Some (r, allowed) \<and> options_ok r allowed opts"
    using parseConfig_result [OF assms(1) False assms(5)] assms(3) by auto
  have self: "list_all (\<lambda>(r, _). \<exists>w. NormalizeConfigRuleID r known = Inr (r, w)) cfg"
  proof (clarsimp simp: list_all_iff)
    fix r opts
    assume "(r, opts) \<in> set cfg"
    then obtain k allowed where "resolve_rule known k = Some (r, allowed)" using entry m(3) by (fastforce simp: in_set_map_of)
    then show "\<exists>w. NormalizeConfigRuleID r known = Inr (r, w)"
      using resolved_id_resolves by (fastforce simp: resolve_rule_def split: sum.splits option.splits prod.splits)
  qed
  obtain out where out: "normalize_rules known cfg [] = Inr out"
    "\<And>r. map_of out r = map_option normalize_options (map_of cfg r)"
    using normalize_rules_self [OF self, of "[]"] m(3) by (auto simp: gm_keys_def)
  have "validate_rule_config r out = None" if "r \<in> set (gm_keys out)" for r
  proof -
    from that have "map_of out r \<noteq> None" by (auto simp: set_gm_keys)
    then obtain opts where r: "map_of cfg r = Some opts" "map_of out r = Some (normalize_options opts)"
      using out(2) [of r] by auto
    then show ?thesis
      using entry [OF r(1)] payload_rules_keys [OF assms(4) [unfolded m(1)] m(2)] normalized_options_valid r(2) by blast
  qed
  with out show ?thesis unfolding NormalizeConfig_Inr [OF assms(2)] by blast
qed

lemma example_payload_distinct: "map_keys_distinct example_payload"
  by code_simp

theorem accepted_config_normalizes_witness:
  "orders_ok (\<lambda>_ ks. ks) \<and> iteration_order rev \<and> map_keys_distinct example_payload \<and>
   (\<exists>out. NormalizeConfig rev [(''max-fanout'', [(''limit'', VFloat 3), (''severity'', VString ''error'')])] [''max-fanout''] = Inr out)"
proof -
  have ord: "orders_ok (\<lambda>_ ks. ks)" by (simp add: orders_ok_def)
  show ?thesis
    using ord example_payload_distinct accepted_config_normalizes [OF ord iteration_order_rev _ example_payload_distinct example_config]
    by auto
qed

end
