(* ===== verification/Response_Metrics.thy ===== *)
theory Response_Metrics
  imports Rules_Flowchart
begin

text \<open>
  The aggregate numbers in a response, \<^verbatim>\<open>computeMetrics\<close>, \<^verbatim>\<open>zeroMetrics\<close> and
  \<^verbatim>\<open>defaultMetrics\<close> of \<^verbatim>\<open>internal/api/handler.go\<close>. The loops that take a maximum range over a
  map; \<open>ord\<close> is their order.
\<close>

record issue_counts_response =
  ic_BySeverity :: "(gostring, nat) gomap"
  ic_ByRule :: "(gostring, nat) gomap"

record metrics_response =
  mr_NodeCount :: nat
  mr_EdgeCount :: nat
  mr_DisconnectedNodeCount :: nat
  mr_DuplicateNodeCount :: nat
  mr_MaxFanin :: nat
  mr_MaxFanout :: nat
  mr_DiagramType :: diagram_type
  mr_Direction :: gostring
  mr_IssueCounts :: "issue_counts_response option"

definition max_count :: "(gostring list \<Rightarrow> gostring list) \<Rightarrow> (gostring, nat) gomap \<Rightarrow> nat" where
  "max_count ord m = fold (\<lambda>(_, v) mx. if v > mx then v else mx) (range_map ord m) 0"

definition duplicateNodeIDs :: "diagram \<Rightarrow> (gostring, unit) gomap" where
  "duplicateNodeIDs d =
     (let (occurrences, dups) =
        fold (\<lambda>n (occurrences, dups).
                let occurrences = incr (node_ID n) occurrences
                in (occurrences, if count_of occurrences (node_ID n) > 1 then set_add (node_ID n) dups else dups))
          (diag_Nodes d) ([], [])
      in fold set_add (diag_DuplicateNodeIDs d) dups)"

definition connected :: "diagram \<Rightarrow> (gostring, unit) gomap" where
  "connected d = fold (\<lambda>e m. set_add (edge_To e) (set_add (edge_From e) m)) (diag_Edges d) []"

definition disconnectedNodeIDs :: "diagram \<Rightarrow> (gostring, unit) gomap" where
  "disconnectedNodeIDs d =
     (let conn = connected d;
          m = fold (\<lambda>n m. if map_of conn (node_ID n) = None then set_add (node_ID n) m else m) (diag_Nodes d) []
      in fold (\<lambda>nodeID m. if map_of conn nodeID \<noteq> None then m else set_add nodeID m) (diag_DisconnectedNodeIDs d) m)"

definition computeMetrics :: "(gostring list \<Rightarrow> gostring list) \<Rightarrow> diagram \<Rightarrow> issue list \<Rightarrow> metrics_response" where
  "computeMetrics ord d issues =
     \<lparr>mr_NodeCount = length (diag_Nodes d), mr_EdgeCount = length (diag_Edges d),
      mr_DisconnectedNodeCount = length (disconnectedNodeIDs d),
      mr_DuplicateNodeCount = length (duplicateNodeIDs d),
      mr_MaxFanin = max_count ord (count_by edge_To (diag_Edges d)),
      mr_MaxFanout = max_count ord (count_by edge_From (diag_Edges d)),
      mr_DiagramType = diag_Type d, mr_Direction = diag_Direction d,
      mr_IssueCounts = Some \<lparr>ic_BySeverity = count_by iss_Severity issues, ic_ByRule = count_by iss_RuleID issues\<rparr>\<rparr>"

definition zeroMetrics :: "diagram_type \<Rightarrow> metrics_response" where
  "zeroMetrics diagramType =
     \<lparr>mr_NodeCount = 0, mr_EdgeCount = 0, mr_DisconnectedNodeCount = 0, mr_DuplicateNodeCount = 0, mr_MaxFanin = 0,
      mr_MaxFanout = 0, mr_DiagramType = diagramType, mr_Direction = [],
      mr_IssueCounts = Some \<lparr>ic_BySeverity = [], ic_ByRule = []\<rparr>\<rparr>"

definition defaultMetrics :: "diagram_type \<Rightarrow> metrics_response" where
  "defaultMetrics diagramType =
     \<lparr>mr_NodeCount = 0, mr_EdgeCount = 0, mr_DisconnectedNodeCount = 0, mr_DuplicateNodeCount = 0, mr_MaxFanin = 0,
      mr_MaxFanout = 0, mr_DiagramType = diagramType, mr_Direction = [],
      mr_IssueCounts = Some \<lparr>ic_BySeverity = [], ic_ByRule = []\<rparr>\<rparr>"

section \<open>What the numbers count\<close>

lemma fold_max:
  "fold (\<lambda>(_, v) mx. if v > mx then v else mx) kvs (mx :: nat) \<le> b \<longleftrightarrow> mx \<le> b \<and> (\<forall>(k, v)\<in>set kvs. v \<le> b)"
  by (induction kvs arbitrary: mx) (auto split: if_splits)

lemma max_count_le:
  assumes "iteration_order ord"
  shows "max_count ord (count_by f xs) \<le> b \<longleftrightarrow> (\<forall>x. length (filter (\<lambda>y. f y = x) xs) \<le> b)"
proof -
  have "(\<forall>(k, v)\<in>set (count_by f xs). v \<le> b) \<longleftrightarrow> (\<forall>x. length (filter (\<lambda>y. f y = x) xs) \<le> b)"
  proof -
    have "length (filter (\<lambda>y. f y = x) xs) = 0" if "x \<notin> f ` set xs" for x
      using that by (auto simp: filter_empty_conv)
    then show ?thesis by (fastforce simp: set_count_by)
  qed
  then show ?thesis using assms by (simp add: max_count_def fold_max set_range_map)
qed

lemma duplicates_fold:
  "fold (\<lambda>n (occurrences, dups).
      let occurrences = incr (node_ID n) occurrences
      in (occurrences, if count_of occurrences (node_ID n) > 1 then set_add (node_ID n) dups else dups)) ns (occ, dups) = (occ', dups') \<Longrightarrow>
   distinct (gm_keys dups) \<Longrightarrow>
   distinct (gm_keys dups') \<and>
   set (gm_keys dups') = set (gm_keys dups) \<union>
     {x \<in> node_ID ` set ns. 1 < count_of occ x + length (filter (\<lambda>n. node_ID n = x) ns)}"
proof (induction ns arbitrary: occ dups)
  case (Cons n ns)
  let ?occ = "incr (node_ID n) occ"
  let ?dups = "if count_of ?occ (node_ID n) > 1 then set_add (node_ID n) dups else dups"
  have d: "distinct (gm_keys ?dups)" using Cons.prems(2) by (simp add: set_add_def distinct_gm_keys_update)
  have k: "set (gm_keys ?dups) = set (gm_keys dups) \<union> {x. x = node_ID n \<and> 1 < count_of ?occ x}"
    by (auto simp: set_add_def set_gm_keys_update)
  have "distinct (gm_keys dups') \<and> set (gm_keys dups') = set (gm_keys ?dups) \<union>
      {x \<in> node_ID ` set ns. 1 < count_of ?occ x + length (filter (\<lambda>n. node_ID n = x) ns)}"
    by (rule Cons.IH [OF _ d]) (use Cons.prems(1) in \<open>simp add: Let_def\<close>)
  moreover have "{x. x = node_ID n \<and> 1 < count_of ?occ x} \<union>
      {x \<in> node_ID ` set ns. 1 < count_of ?occ x + length (filter (\<lambda>n. node_ID n = x) ns)} =
      {x \<in> node_ID ` set (n # ns). 1 < count_of occ x + length (filter (\<lambda>n. node_ID n = x) (n # ns))}"
  proof -
    have "0 < length (filter (\<lambda>n. node_ID n = x) ns) \<longleftrightarrow> x \<in> node_ID ` set ns" for x
      by (auto simp: filter_empty_conv)
    then show ?thesis by (auto simp: count_of_incr)
  qed
  ultimately show ?case by (simp only: k Un_assoc simp_thms)
qed auto

lemma duplicateNodeIDs_keys:
  "distinct (gm_keys (duplicateNodeIDs d))"
  "set (gm_keys (duplicateNodeIDs d)) =
     {x. 1 < length (filter (\<lambda>n. node_ID n = x) (diag_Nodes d))} \<union> set (diag_DuplicateNodeIDs d)"
proof -
  obtain occ dups where f: "fold (\<lambda>n (occurrences, dups).
      let occurrences = incr (node_ID n) occurrences
      in (occurrences, if count_of occurrences (node_ID n) > 1 then set_add (node_ID n) dups else dups)) (diag_Nodes d) ([], [])
      = (occ, dups)" by (meson surj_pair)
  have eq: "duplicateNodeIDs d = fold set_add (diag_DuplicateNodeIDs d) dups"
    unfolding duplicateNodeIDs_def Let_def [of "fold _ _ _"] f by simp
  have dups: "distinct (gm_keys dups)"
    "set (gm_keys dups) = {x \<in> node_ID ` set (diag_Nodes d). 1 < length (filter (\<lambda>n. node_ID n = x) (diag_Nodes d))}"
    using duplicates_fold [OF f] by simp_all
  have "x \<in> node_ID ` set (diag_Nodes d)" if "1 < length (filter (\<lambda>n. node_ID n = x) (diag_Nodes d))" for x
  proof -
    have "filter (\<lambda>n. node_ID n = x) (diag_Nodes d) \<noteq> []" using that by auto
    then show ?thesis by (auto simp: filter_empty_conv)
  qed
  then show "distinct (gm_keys (duplicateNodeIDs d))"
    "set (gm_keys (duplicateNodeIDs d)) =
     {x. 1 < length (filter (\<lambda>n. node_ID n = x) (diag_Nodes d))} \<union> set (diag_DuplicateNodeIDs d)"
    using dups by (auto simp: eq set_gm_keys_fold_add distinct_gm_keys_fold_add)
qed

lemma set_gm_keys_add_unless:
  "set (gm_keys (fold (\<lambda>x m. if P x then set_add (f x) m else m) xs m)) = set (gm_keys m) \<union> f ` {x \<in> set xs. P x}"
  "distinct (gm_keys m) \<Longrightarrow> distinct (gm_keys (fold (\<lambda>x m. if P x then set_add (f x) m else m) xs m))"
  by (induction xs arbitrary: m) (auto simp: set_add_def set_gm_keys_update distinct_gm_keys_update)

lemma disconnectedNodeIDs_keys:
  "distinct (gm_keys (disconnectedNodeIDs d))"
  "set (gm_keys (disconnectedNodeIDs d)) =
     {x \<in> node_ID ` set (diag_Nodes d) \<union> set (diag_DisconnectedNodeIDs d). \<not> touches d x}"
proof -
  have conn: "map_of (connected d) x = None \<longleftrightarrow> \<not> touches d x" for x
    by (auto simp: connected_def node_in_edges_None touches_def)
  have eq: "disconnectedNodeIDs d =
      fold (\<lambda>x m. if \<not> touches d x then set_add x m else m) (diag_DisconnectedNodeIDs d)
        (fold (\<lambda>n m. if \<not> touches d (node_ID n) then set_add (node_ID n) m else m) (diag_Nodes d) [])"
  proof -
    have "(if map_of (connected d) x \<noteq> None then m else set_add x m) = (if \<not> touches d x then set_add x m else m)" for x m
      using conn [of x] by auto
    then show ?thesis by (simp only: disconnectedNodeIDs_def Let_def conn)
  qed
  show "distinct (gm_keys (disconnectedNodeIDs d))"
    unfolding eq by (intro set_gm_keys_add_unless(2)) simp
  show "set (gm_keys (disconnectedNodeIDs d)) =
     {x \<in> node_ID ` set (diag_Nodes d) \<union> set (diag_DisconnectedNodeIDs d). \<not> touches d x}"
    unfolding eq set_gm_keys_add_unless(1) by auto
qed

lemma length_keys: "distinct (gm_keys m) \<Longrightarrow> length m = card (set (gm_keys m))"
  using distinct_card [of "gm_keys m"] by (simp add: gm_keys_def)

lemma length_ordered_keys: "iteration_order ord \<Longrightarrow> length (ord (gm_keys m)) = length m"
  by (metis gm_keys_def iteration_order_mset length_map size_mset)

text \<open>
  C33: the numbers of a response agree with the diagram and with the rules: the numbers of nodes and
  edges, of findings per severity and per rule; the number of duplicate identifiers is the number of
  findings of no-duplicate-node-ids; the largest fan-out exceeds the configured limit exactly when
  max-fanout has a finding; and the number of disconnected nodes counts the nodes no edge touches, which is
  the number of findings of no-disconnected-nodes unless the diagram is a single node, which the
  rule exempts, or the source analysis lists a node that an edge touches.
\<close>
theorem computeMetrics_agrees:
  assumes "iteration_order ord" and "iteration_order ord'" and "0 \<le> limit_option cfg ''max-fanout'' defaultMaxFanout"
  shows "let m = computeMetrics ord d issues; counts = the (mr_IssueCounts m)
     in mr_NodeCount m = length (diag_Nodes d) \<and> mr_EdgeCount m = length (diag_Edges d) \<and>
        count_of (ic_BySeverity counts) sev = length (filter (\<lambda>i. iss_Severity i = sev) issues) \<and>
        count_of (ic_ByRule counts) ruleID = length (filter (\<lambda>i. iss_RuleID i = ruleID) issues) \<and>
        mr_DuplicateNodeCount m = length (NoDuplicateNodeIDs_Run ord' d cfg) \<and>
        (int (mr_MaxFanout m) \<le> limit_option cfg ''max-fanout'' defaultMaxFanout \<longleftrightarrow> MaxFanout_Run ord' d cfg = []) \<and>
        mr_DisconnectedNodeCount m =
          card {x \<in> node_ID ` set (diag_Nodes d) \<union> set (diag_DisconnectedNodeIDs d). \<not> touches d x} \<and>
        (length (diag_Nodes d) = 1 \<and> diag_Edges d = [] \<or> (\<exists>x\<in>set (diag_DisconnectedNodeIDs d). touches d x) \<or>
         mr_DisconnectedNodeCount m = length (NoDisconnectedNodes_Run ord' d cfg))"
proof -
  have dup: "length (duplicateNodeIDs d) = length (NoDuplicateNodeIDs_Run ord' d cfg)"
    using length_keys [OF duplicateNodeIDs_keys(1), of d] length_keys [OF distinct_duplicate_ids, of ord' d] assms(2)
    by (simp add: NoDuplicateNodeIDs_Run_def Let_def length_ordered_keys duplicateNodeIDs_keys(2) set_duplicate_ids)
  have dis: "length (disconnectedNodeIDs d) =
      card {x \<in> node_ID ` set (diag_Nodes d) \<union> set (diag_DisconnectedNodeIDs d). \<not> touches d x}"
    using length_keys [OF disconnectedNodeIDs_keys(1), of d] by (simp add: disconnectedNodeIDs_keys(2))
  have run: "length (NoDisconnectedNodes_Run ord' d cfg) = length (disconnected_ids d)"
    using assms(2) by (simp add: NoDisconnectedNodes_Run_def Let_def length_ordered_keys)
  have agree: "length (diag_Nodes d) = 1 \<and> diag_Edges d = [] \<or> (\<exists>x\<in>set (diag_DisconnectedNodeIDs d). touches d x) \<or>
      length (disconnectedNodeIDs d) = length (NoDisconnectedNodes_Run ord' d cfg)"
  proof -
    have "set (gm_keys (disconnectedNodeIDs d)) = set (gm_keys (disconnected_ids d))"
      if "\<not> (length (diag_Nodes d) = 1 \<and> diag_Edges d = [])" "\<not> (\<exists>x\<in>set (diag_DisconnectedNodeIDs d). touches d x)"
      using that unfolding disconnectedNodeIDs_keys(2) set_disconnected_ids by auto
    then show ?thesis
      using length_keys [OF disconnectedNodeIDs_keys(1), of d] length_keys [OF distinct_disconnected_ids, of d] run by metis
  qed
  let ?lim = "limit_option cfg ''max-fanout'' defaultMaxFanout"
  have fan: "int (max_count ord (count_by edge_From (diag_Edges d))) \<le> ?lim \<longleftrightarrow> MaxFanout_Run ord' d cfg = []"
  proof -
    have "int (max_count ord (count_by edge_From (diag_Edges d))) \<le> ?lim \<longleftrightarrow>
        (\<forall>x. length (filter (\<lambda>e. edge_From e = x) (diag_Edges d)) \<le> nat ?lim)"
      using max_count_le [OF assms(1), of edge_From "diag_Edges d" "nat ?lim"] assms(3) by (simp add: le_nat_iff)
    also have "\<dots> \<longleftrightarrow> max_count ord' (count_by edge_From (diag_Edges d)) \<le> nat ?lim"
      using max_count_le [OF assms(2), of edge_From "diag_Edges d" "nat ?lim"] by simp
    also have "\<dots> \<longleftrightarrow> MaxFanout_Run ord' d cfg = []"
      using assms(3) by (auto simp: max_count_def fold_max MaxFanout_Run_def Let_def filter_empty_conv le_nat_iff not_less)
    finally show ?thesis .
  qed
  show ?thesis
    using dup dis agree fan by (simp add: computeMetrics_def gomap_simps Let_def)
qed

definition example_diagram :: diagram where
  "example_diagram = empty_diagram\<lparr>diag_Type := ''flowchart'',
     diag_Nodes := [zero_node\<lparr>node_ID := ''A''\<rparr>, zero_node\<lparr>node_ID := ''B''\<rparr>, zero_node\<lparr>node_ID := ''A''\<rparr>, zero_node\<lparr>node_ID := ''C''\<rparr>],
     diag_Edges := [arrow ''A'' ''B'']\<rparr>"

theorem computeMetrics_agrees_witness:
  "iteration_order (\<lambda>ks. ks) \<and> 0 \<le> limit_option [] ''max-fanout'' defaultMaxFanout \<and>
   mr_DuplicateNodeCount (computeMetrics (\<lambda>ks. ks) example_diagram []) = length (NoDuplicateNodeIDs_Run (\<lambda>ks. ks) example_diagram [])"
  using computeMetrics_agrees [of "\<lambda>ks. ks" "\<lambda>ks. ks" "[]" example_diagram "[]"]
  by (simp add: limit_option_def defaultMaxFanout_def Let_def)

end
