(* ===== verification/Analysis_Cache.thy ===== *)
theory Analysis_Cache
  imports Ttl_Cache Strconv
begin

text \<open>
  The cache of lint results, \<^verbatim>\<open>internal/api/analysis_cache.go\<close>: serialised results with an
  expiry, evicted from the back of a list when they are too many or too large. As in the parser's
  cache an element of the list is named by its key. The encoder and the decoder of
  \<^verbatim>\<open>encoding/json\<close> are the parameters \<open>marshal\<close> and \<open>unmarshal\<close>, each of which can fail.
  An operation reads the clock once.
\<close>

abbreviation "defaultAnalysisCacheEntries \<equiv> 256 :: int"
abbreviation "defaultAnalysisCacheTTL \<equiv> 30 * Second"
abbreviation "defaultAnalysisCacheBytes \<equiv> 8388608 :: int"

record analysis_entry =
  ae_value :: gostring
  ae_expiresAt :: int

record analysis_cache =
  ac_maxEntries :: int
  ac_maxBytes :: int
  ac_ttl :: int
  ac_bytes :: int
  ac_entries :: "(gostring, analysis_entry) gomap"
  ac_order :: "gostring list"

definition newAnalysisResultCache :: "int \<Rightarrow> int \<Rightarrow> int \<Rightarrow> analysis_cache" where
  "newAnalysisResultCache maxEntries ttl maxBytes =
     \<lparr>ac_maxEntries = maxEntries, ac_maxBytes = maxBytes, ac_ttl = ttl, ac_bytes = 0, ac_entries = [], ac_order = []\<rparr>"

definition entry_weight :: "gostring \<Rightarrow> analysis_entry \<Rightarrow> int" where
  "entry_weight key e = int (length key) + int (length (ae_value e))"

definition removeLocked :: "gostring \<Rightarrow> analysis_cache \<Rightarrow> analysis_cache" where
  "removeLocked key c =
     (case map_of (ac_entries c) key of
        None \<Rightarrow> c
      | Some e \<Rightarrow> c\<lparr>ac_entries := AList.delete key (ac_entries c), ac_bytes := ac_bytes c - entry_weight key e,
                    ac_order := remove1 key (ac_order c)\<rparr>)"

definition prune_step :: "int \<Rightarrow> gostring \<Rightarrow> int \<times> analysis_cache \<Rightarrow> int \<times> analysis_cache" where
  "prune_step now key rc =
     (case map_of (ac_entries (snd rc)) key of
        None \<Rightarrow> rc
      | Some e \<Rightarrow> if \<not> now < ae_expiresAt e then (fst rc + 1, removeLocked key (snd rc)) else rc)"

definition pruneLocked :: "int \<Rightarrow> analysis_cache \<Rightarrow> int \<times> analysis_cache" where
  "pruneLocked now c = fold (prune_step now) (rev (ac_order c)) (0, c)"

function drop_oldest :: "analysis_cache \<Rightarrow> int \<times> analysis_cache" where
  "drop_oldest c =
     (if int (length (ac_order c)) > ac_maxEntries c \<or> ac_bytes c > ac_maxBytes c
      then if ac_order c = [] \<or> map_of (ac_entries c) (last (ac_order c)) = None then (0, c)
           else let (removed, c') = drop_oldest (removeLocked (last (ac_order c)) c) in (removed + 1, c')
      else (0, c))"
  by pat_completeness auto
termination
  by (relation "measure (\<lambda>c. length (ac_order c))")
    (auto simp: removeLocked_def length_remove1 split: option.split)

declare drop_oldest.simps [simp del]

definition analysis_Get ::
  "(gostring \<Rightarrow> 'r option) \<Rightarrow> int \<Rightarrow> gostring \<Rightarrow> analysis_cache \<Rightarrow> ('r option \<times> int) \<times> analysis_cache" where
  "analysis_Get unmarshal now key c =
     (let (removed, c) = pruneLocked now c in
      case map_of (ac_entries c) key of
        None \<Rightarrow> ((None, removed), c)
      | Some e \<Rightarrow>
          let c = c\<lparr>ac_order := key # remove1 key (ac_order c)\<rparr> in
          (case unmarshal (ae_value e) of
             None \<Rightarrow> ((None, removed + 1), removeLocked key c)
           | Some result \<Rightarrow> ((Some result, removed), c)))"

definition analysis_Set ::
  "('r \<Rightarrow> gostring option) \<Rightarrow> int \<Rightarrow> gostring \<Rightarrow> 'r \<Rightarrow> analysis_cache \<Rightarrow> int \<times> analysis_cache" where
  "analysis_Set marshal now key result c =
     (if ac_maxEntries c \<le> 0 \<or> ac_ttl c \<le> 0 \<or> ac_maxBytes c \<le> 0 then (0, c)
      else case marshal result of
        None \<Rightarrow> (0, c)
      | Some value \<Rightarrow>
          let weight = int (length key) + int (length value) in
          if weight > ac_maxBytes c then (0, c)
          else let (removed, c) = pruneLocked now c;
                   c = removeLocked key c;
                   c = c\<lparr>ac_order := key # ac_order c,
                         ac_entries := AList.update key \<lparr>ae_value = value, ae_expiresAt = now + ac_ttl c\<rparr> (ac_entries c),
                         ac_bytes := ac_bytes c + weight\<rparr>;
                   (dropped, c) = drop_oldest c
               in (removed + dropped, c))"

section \<open>The invariant\<close>

definition ac_weight :: "analysis_cache \<Rightarrow> gostring \<Rightarrow> int" where
  "ac_weight c k = (case map_of (ac_entries c) k of None \<Rightarrow> 0 | Some e \<Rightarrow> entry_weight k e)"

definition ac_inv :: "analysis_cache \<Rightarrow> bool" where
  "ac_inv c \<longleftrightarrow> distinct (ac_order c) \<and> set (ac_order c) = dom (map_of (ac_entries c))
     \<and> distinct (gm_keys (ac_entries c)) \<and> ac_bytes c = sum_list (map (ac_weight c) (ac_order c))"

definition ac_same_limits :: "analysis_cache \<Rightarrow> analysis_cache \<Rightarrow> bool" where
  "ac_same_limits c c' \<longleftrightarrow> ac_maxEntries c' = ac_maxEntries c \<and> ac_maxBytes c' = ac_maxBytes c \<and> ac_ttl c' = ac_ttl c"

lemma removeLocked_limits [simp]:
  "ac_maxEntries (removeLocked k c) = ac_maxEntries c" "ac_maxBytes (removeLocked k c) = ac_maxBytes c"
  "ac_ttl (removeLocked k c) = ac_ttl c"
  by (simp_all add: removeLocked_def split: option.split)

lemma removeLocked_entries: "map_of (ac_entries (removeLocked k c)) = (map_of (ac_entries c))(k := None)"
  by (auto simp: removeLocked_def AList.delete_conv' split: option.split)

lemma removeLocked_order: "ac_inv c \<Longrightarrow> ac_order (removeLocked k c) = remove1 k (ac_order c)"
  by (auto simp: removeLocked_def ac_inv_def remove1_idem domIff split: option.split)

lemma removeLocked_inv:
  assumes "ac_inv c"
  shows "ac_inv (removeLocked k c)"
proof (cases "map_of (ac_entries c) k")
  case None
  then show ?thesis using assms by (simp add: removeLocked_def)
next
  case (Some e)
  let ?c = "removeLocked k c"
  have k: "k \<in> set (ac_order c)" and dis: "distinct (ac_order c)" using assms Some by (auto simp: ac_inv_def)
  have same: "map (ac_weight ?c) (remove1 k (ac_order c)) = map (ac_weight c) (remove1 k (ac_order c))"
    using dis by (intro map_cong) (auto simp: ac_weight_def removeLocked_entries)
  have "ac_bytes ?c = ac_bytes c - ac_weight c k" by (simp add: removeLocked_def ac_weight_def Some)
  moreover have "ac_bytes c = sum_list (map (ac_weight c) (ac_order c))" using assms by (simp add: ac_inv_def)
  ultimately have "ac_bytes ?c = sum_list (map (ac_weight ?c) (ac_order ?c))"
    unfolding removeLocked_order [OF assms] same using sum_list_map_remove1 [OF k, of "ac_weight c"] by linarith
  moreover have "distinct (gm_keys (ac_entries ?c))"
    using assms Some by (simp add: removeLocked_def ac_inv_def gm_keys_def distinct_delete)
  ultimately show ?thesis using assms dis
    by (auto simp: ac_inv_def removeLocked_entries removeLocked_order [OF assms])
qed

section \<open>The loops\<close>

definition expired :: "int \<Rightarrow> analysis_entry option \<Rightarrow> bool" where
  "expired now e = (case e of None \<Rightarrow> False | Some e \<Rightarrow> \<not> now < ae_expiresAt e)"

lemma prune_step_facts:
  assumes "ac_inv c"
  shows "ac_inv (snd (prune_step now k (n, c)))" "ac_same_limits c (snd (prune_step now k (n, c)))"
    "length (ac_order (snd (prune_step now k (n, c)))) \<le> length (ac_order c)"
    "map_of (ac_entries (snd (prune_step now k (n, c)))) x =
       (if x = k \<and> expired now (map_of (ac_entries c) x) then None else map_of (ac_entries c) x)"
  using assms removeLocked_inv [OF assms, of k]
  by (auto simp: prune_step_def ac_same_limits_def removeLocked_entries removeLocked_order expired_def length_remove1
      split: option.splits)

lemma prune_fold:
  assumes "ac_inv c"
  shows "ac_inv (snd (fold (prune_step now) ks (n, c))) \<and> ac_same_limits c (snd (fold (prune_step now) ks (n, c)))
    \<and> length (ac_order (snd (fold (prune_step now) ks (n, c)))) \<le> length (ac_order c)
    \<and> (\<forall>x. map_of (ac_entries (snd (fold (prune_step now) ks (n, c)))) x =
         (if x \<in> set ks \<and> expired now (map_of (ac_entries c) x) then None else map_of (ac_entries c) x))"
  using assms
proof (induction ks arbitrary: n c)
  case (Cons k ks)
  obtain n' c' where st: "prune_step now k (n, c) = (n', c')" by (meson surj_pair)
  note step = prune_step_facts [OF Cons.prems, of now k n, unfolded st, simplified]
  note IH = Cons.IH [OF step(1), of n']
  have "map_of (ac_entries (snd (fold (prune_step now) ks (n', c')))) x =
      (if x \<in> set (k # ks) \<and> expired now (map_of (ac_entries c) x) then None else map_of (ac_entries c) x)" for x
    using IH step(4) [of x] by (auto simp: expired_def)
  then show ?case using IH step(2,3) by (auto simp: st ac_same_limits_def)
qed (simp add: ac_same_limits_def)

lemma pruneLocked_facts:
  assumes "ac_inv c"
  shows "ac_inv (snd (pruneLocked now c))" "ac_same_limits c (snd (pruneLocked now c))"
    "length (ac_order (snd (pruneLocked now c))) \<le> length (ac_order c)"
    "map_of (ac_entries (snd (pruneLocked now c))) k =
       (if expired now (map_of (ac_entries c) k) then None else map_of (ac_entries c) k)"
proof -
  note facts = prune_fold [OF assms, of now "rev (ac_order c)" 0, folded pruneLocked_def]
  show "ac_inv (snd (pruneLocked now c))" "ac_same_limits c (snd (pruneLocked now c))"
    "length (ac_order (snd (pruneLocked now c))) \<le> length (ac_order c)" using facts by blast+
  have "k \<in> set (rev (ac_order c))" if "expired now (map_of (ac_entries c) k)"
    using that assms by (auto simp: expired_def ac_inv_def split: option.splits)
  then show "map_of (ac_entries (snd (pruneLocked now c))) k =
       (if expired now (map_of (ac_entries c) k) then None else map_of (ac_entries c) k)" using facts by auto
qed

lemma drop_oldest_facts:
  assumes "ac_inv c" and "0 \<le> ac_maxEntries c" and "0 \<le> ac_maxBytes c"
  shows "ac_inv (snd (drop_oldest c)) \<and> ac_same_limits c (snd (drop_oldest c))
    \<and> (\<forall>k. map_of (ac_entries (snd (drop_oldest c))) k \<in> {None, map_of (ac_entries c) k})
    \<and> int (length (ac_order (snd (drop_oldest c)))) \<le> ac_maxEntries c
    \<and> ac_bytes (snd (drop_oldest c)) \<le> ac_maxBytes c"
  using assms
proof (induction c rule: drop_oldest.induct)
  case (1 c)
  show ?case
  proof (cases "int (length (ac_order c)) > ac_maxEntries c \<or> ac_bytes c > ac_maxBytes c")
    case False
    then show ?thesis using 1(2) by (subst (1 2 3 4 5) drop_oldest.simps) (auto simp: ac_same_limits_def)
  next
    case over: True
    then have ne: "ac_order c \<noteq> []" using 1(2-4) by (auto simp: ac_inv_def)
    then have "map_of (ac_entries c) (last (ac_order c)) \<noteq> None"
      using 1(2) last_in_set [OF ne] by (auto simp: ac_inv_def)
    with ne have g: "\<not> (ac_order c = [] \<or> map_of (ac_entries c) (last (ac_order c)) = None)" by simp
    let ?c = "removeLocked (last (ac_order c)) c"
    have step: "snd (drop_oldest c) = snd (drop_oldest ?c)"
      using over g by (subst drop_oldest.simps) (auto simp: case_prod_beta Let_def)
    have IH: "ac_inv (snd (drop_oldest ?c)) \<and> ac_same_limits ?c (snd (drop_oldest ?c))
        \<and> (\<forall>k. map_of (ac_entries (snd (drop_oldest ?c))) k \<in> {None, map_of (ac_entries ?c) k})
        \<and> int (length (ac_order (snd (drop_oldest ?c)))) \<le> ac_maxEntries c \<and> ac_bytes (snd (drop_oldest ?c)) \<le> ac_maxBytes c"
      using 1(1) [OF over g removeLocked_inv [OF 1(2)]] 1(3,4) by simp
    have "map_of (ac_entries (snd (drop_oldest ?c))) k \<in> {None, map_of (ac_entries c) k}" for k
      using IH by (auto simp: removeLocked_entries split: if_splits)
    with IH show ?thesis unfolding step by (simp add: ac_same_limits_def)
  qed
qed

section \<open>The contract\<close>

definition analysis_lookup :: "(gostring \<Rightarrow> 'r option) \<Rightarrow> int \<Rightarrow> analysis_cache \<Rightarrow> gostring \<Rightarrow> 'r option" where
  "analysis_lookup unmarshal t c k =
     (case map_of (ac_entries c) k of
        None \<Rightarrow> None | Some e \<Rightarrow> if t < ae_expiresAt e then unmarshal (ae_value e) else None)"

lemma pruneLocked_lookup:
  "ac_inv c \<Longrightarrow> now \<le> t \<Longrightarrow> analysis_lookup u t (snd (pruneLocked now c)) k = analysis_lookup u t c k"
  by (auto simp: analysis_lookup_def pruneLocked_facts(4) expired_def split: option.splits)

lemma to_front_inv:
  assumes "ac_inv c" and "map_of (ac_entries c) k \<noteq> None"
  shows "ac_inv (c\<lparr>ac_order := k # remove1 k (ac_order c)\<rparr>)"
proof -
  have k: "k \<in> set (ac_order c)" using assms by (auto simp: ac_inv_def)
  have "ac_weight (c\<lparr>ac_order := k # remove1 k (ac_order c)\<rparr>) = ac_weight c" by (simp add: ac_weight_def fun_eq_iff)
  then show ?thesis using assms k sum_list_map_remove1 [OF k, of "ac_weight c"] by (auto simp: ac_inv_def)
qed

lemma analysis_Get_cases:
  assumes "ac_inv c"
  obtains n c' where "snd (pruneLocked now c) = c'" "map_of (ac_entries c') k = None" "analysis_Get u now k c = ((None, n), c')"
  | n c' e where "snd (pruneLocked now c) = c'" "map_of (ac_entries c') k = Some e" "now < ae_expiresAt e"
      "u (ae_value e) = None" "analysis_Get u now k c = ((None, n), removeLocked k (c'\<lparr>ac_order := k # remove1 k (ac_order c')\<rparr>))"
  | n c' e r where "snd (pruneLocked now c) = c'" "map_of (ac_entries c') k = Some e" "now < ae_expiresAt e"
      "u (ae_value e) = Some r" "analysis_Get u now k c = ((Some r, n), c'\<lparr>ac_order := k # remove1 k (ac_order c')\<rparr>)"
proof -
  obtain n c' where p: "pruneLocked now c = (n, c')" by (meson surj_pair)
  show thesis
  proof (cases "map_of (ac_entries c') k")
    case None
    with p show thesis by (intro that(1)) (simp_all add: analysis_Get_def)
  next
    case (Some e)
    then have "now < ae_expiresAt e" using pruneLocked_facts(4) [OF assms, of now k] p
      by (auto simp: expired_def split: if_splits option.splits)
    with Some p show thesis
      by (cases "u (ae_value e)") (auto simp: analysis_Get_def Let_def intro: that)
  qed
qed

lemma analysis_Get_facts:
  assumes "ac_inv c"
  shows "ac_inv (snd (analysis_Get u now k c))" "ac_same_limits c (snd (analysis_Get u now k c))"
    "fst (fst (analysis_Get u now k c)) = analysis_lookup u now c k"
    "now \<le> t \<Longrightarrow> analysis_lookup u t (snd (analysis_Get u now k c)) k' = analysis_lookup u t c k'"
proof -
  have p: "ac_inv (snd (pruneLocked now c))" "ac_same_limits c (snd (pruneLocked now c))"
    using pruneLocked_facts [OF assms] by blast+
  have "ac_inv (snd (analysis_Get u now k c)) \<and> ac_same_limits c (snd (analysis_Get u now k c))
      \<and> fst (fst (analysis_Get u now k c)) = analysis_lookup u now (snd (pruneLocked now c)) k
      \<and> (now \<le> t \<longrightarrow> analysis_lookup u t (snd (analysis_Get u now k c)) k' = analysis_lookup u t (snd (pruneLocked now c)) k')"
  proof (cases rule: analysis_Get_cases [OF assms, of now k u])
    case (1 n c')
    then show ?thesis using p by (simp add: analysis_lookup_def)
  next
    case (2 n c' e)
    then show ?thesis using p to_front_inv [of c' k] removeLocked_inv
      by (auto simp: ac_same_limits_def analysis_lookup_def removeLocked_entries)
  next
    case (3 n c' e r)
    then show ?thesis using p to_front_inv [of c' k] by (auto simp: ac_same_limits_def analysis_lookup_def)
  qed
  then show "ac_inv (snd (analysis_Get u now k c))" "ac_same_limits c (snd (analysis_Get u now k c))"
    "fst (fst (analysis_Get u now k c)) = analysis_lookup u now c k"
    "now \<le> t \<Longrightarrow> analysis_lookup u t (snd (analysis_Get u now k c)) k' = analysis_lookup u t c k'"
    using pruneLocked_lookup [OF assms] by auto
qed

lemma insert_inv:
  assumes "ac_inv c" and "map_of (ac_entries c) k = None"
  shows "ac_inv (c\<lparr>ac_order := k # ac_order c, ac_entries := AList.update k e (ac_entries c), ac_bytes := ac_bytes c + entry_weight k e\<rparr>)"
    (is "ac_inv ?c")
proof -
  have k: "k \<notin> set (ac_order c)" using assms by (auto simp: ac_inv_def)
  then have "map (ac_weight ?c) (ac_order c) = map (ac_weight c) (ac_order c)"
    by (intro map_cong) (auto simp: ac_weight_def update_conv')
  moreover have "ac_weight ?c k = entry_weight k e" by (simp add: ac_weight_def update_conv')
  moreover have "ac_bytes c = sum_list (map (ac_weight c) (ac_order c))" using assms(1) by (simp add: ac_inv_def)
  ultimately have "ac_bytes ?c = sum_list (map (ac_weight ?c) (ac_order ?c))"
    by (simp del: map_eq_conv)
  then show ?thesis using assms(1) k unfolding ac_inv_def by (simp add: dom_map_of_update distinct_gm_keys_update)
qed

lemma analysis_Set_cases:
  assumes "ac_inv c"
  obtains "analysis_Set m now k r c = (0, c)"
  | s c1 e where "0 < ac_maxEntries c" "0 < ac_ttl c" "m r = Some s" "e = \<lparr>ae_value = s, ae_expiresAt = now + ac_ttl c\<rparr>"
      "ac_inv c1" "ac_same_limits c c1"
      "\<And>x. map_of (ac_entries c1) x = (if x = k then Some e else if expired now (map_of (ac_entries c) x) then None else map_of (ac_entries c) x)"
      "snd (analysis_Set m now k r c) = snd (drop_oldest c1)" "0 \<le> ac_maxBytes c"
proof (cases "ac_maxEntries c \<le> 0 \<or> ac_ttl c \<le> 0 \<or> ac_maxBytes c \<le> 0 \<or> m r = None \<or> int (length k) + int (length (the (m r))) > ac_maxBytes c")
  case True
  then show thesis by (intro that(1)) (auto simp: analysis_Set_def split: option.split)
next
  case False
  then obtain s where s: "m r = Some s" by auto
  obtain n c' where p: "pruneLocked now c = (n, c')" by (meson surj_pair)
  note pr = pruneLocked_facts [OF assms, of now, unfolded p snd_conv]
  let ?e = "\<lparr>ae_value = s, ae_expiresAt = now + ac_ttl c\<rparr>" and ?d = "removeLocked k c'"
  let ?c = "?d\<lparr>ac_order := k # ac_order ?d, ac_entries := AList.update k ?e (ac_entries ?d), ac_bytes := ac_bytes ?d + entry_weight k ?e\<rparr>"
  have "ac_ttl c' = ac_ttl c" using pr(2) by (simp add: ac_same_limits_def)
  then have "snd (analysis_Set m now k r c) = snd (drop_oldest ?c)"
    using False s p by (simp add: analysis_Set_def Let_def case_prod_beta entry_weight_def)
  moreover have "ac_inv ?c"
    by (rule insert_inv [OF removeLocked_inv [OF pr(1)]]) (simp add: removeLocked_entries)
  moreover have "ac_same_limits c ?c" using pr(2) by (simp add: ac_same_limits_def)
  ultimately show thesis using False s pr(4)
    by (intro that(2) [of s ?e ?c]) (auto simp: update_conv' removeLocked_entries)
qed

definition ac_bounded :: "int \<Rightarrow> int \<Rightarrow> int \<Rightarrow> analysis_cache \<Rightarrow> bool" where
  "ac_bounded entries life bytes c \<longleftrightarrow> ac_inv c \<and> ac_ttl c = life \<and> ac_maxEntries c = entries \<and> ac_maxBytes c = bytes
     \<and> int (length (ac_order c)) \<le> max 0 entries \<and> ac_bytes c \<le> max 0 bytes"

text \<open>Fewer entries weigh less.\<close>

lemma ac_sub_bounds:
  assumes "ac_inv c" and "ac_inv c'" and sub: "\<And>k. map_of (ac_entries c') k \<in> {None, map_of (ac_entries c) k}"
  shows "length (ac_order c') \<le> length (ac_order c)" "ac_bytes c' \<le> ac_bytes c"
proof -
  have le: "set (ac_order c') \<subseteq> set (ac_order c)"
  proof
    fix k assume "k \<in> set (ac_order c')"
    then show "k \<in> set (ac_order c)" using sub [of k] assms(1,2) by (auto simp: ac_inv_def)
  qed
  then have "card (set (ac_order c')) \<le> card (set (ac_order c))" by (simp add: card_mono)
  then show "length (ac_order c') \<le> length (ac_order c)" 
    by (metis ac_inv_def assms(1,2) distinct_card)
  have bytes: "ac_bytes d = (\<Sum>k\<in>set (ac_order d). ac_weight d k)" if "ac_inv d" for d
    using that by (simp add: ac_inv_def sum_list_distinct_conv_sum_set del: set_map)
  have "(\<Sum>k\<in>set (ac_order c'). ac_weight c' k) \<le> (\<Sum>k\<in>set (ac_order c'). ac_weight c k)"
  proof (rule sum_mono)
    fix k show "ac_weight c' k \<le> ac_weight c k"
      using sub [of k] by (auto simp: ac_weight_def entry_weight_def split: option.split)
  qed
  also have "\<dots> \<le> (\<Sum>k\<in>set (ac_order c). ac_weight c k)"
    using le by (intro sum_mono2) (auto simp: ac_weight_def entry_weight_def split: option.split)
  finally show "ac_bytes c' \<le> ac_bytes c" using bytes assms(1,2) by simp
qed

lemma analysis_Get_sub:
  assumes "ac_inv c"
  shows "map_of (ac_entries (snd (analysis_Get u now k c))) x \<in> {None, map_of (ac_entries c) x}"
  by (cases rule: analysis_Get_cases [OF assms, of now k u])
    (auto simp: removeLocked_entries pruneLocked_facts(4) [OF assms] split: if_splits)

lemma analysis_Get_bounded:
  assumes "ac_bounded entries life bytes c"
  shows "ac_bounded entries life bytes (snd (analysis_Get u now k c))"
proof -
  have inv: "ac_inv c" using assms by (simp add: ac_bounded_def)
  show ?thesis
    using assms analysis_Get_facts(1,2) [OF inv, of u now k]
      ac_sub_bounds [OF inv analysis_Get_facts(1) [OF inv] analysis_Get_sub [OF inv], of u now k]
    by (auto simp: ac_bounded_def ac_same_limits_def)
qed

lemma analysis_Set_bounded:
  assumes "ac_bounded entries life bytes c"
  shows "ac_bounded entries life bytes (snd (analysis_Set m now k r c))"
proof -
  have inv: "ac_inv c" using assms by (simp add: ac_bounded_def)
  show ?thesis
  proof (cases rule: analysis_Set_cases [OF inv, of m now k r])
    case 1
    then show ?thesis using assms by simp
  next
    case (2 s c1 e)
    then show ?thesis using assms drop_oldest_facts [of c1] by (auto simp: ac_bounded_def ac_same_limits_def)
  qed
qed

lemma analysis_Set_lookup:
  assumes "ac_bounded entries life bytes c" and "now \<le> t" and "analysis_lookup u t (snd (analysis_Set m now k r c)) k' = Some w"
  shows "k' = k \<and> (\<exists>s. m r = Some s \<and> u s = Some w) \<and> t < now + life \<or> analysis_lookup u t c k' = Some w"
proof -
  have inv: "ac_inv c" using assms by (simp add: ac_bounded_def)
  show ?thesis
  proof (cases rule: analysis_Set_cases [OF inv, of m now k r])
    case 1
    then show ?thesis using assms(3) by simp
  next
    case (2 s c1 e)
    have "map_of (ac_entries (snd (drop_oldest c1))) k' \<in> {None, map_of (ac_entries c1) k'}"
      using drop_oldest_facts [of c1] 2 by (simp add: ac_same_limits_def)
    then have "map_of (ac_entries (snd (analysis_Set m now k r c))) k' = map_of (ac_entries c1) k'"
      using assms(3) 2 by (auto simp: analysis_lookup_def)
    moreover have "ac_ttl c = life" using assms(1) by (simp add: ac_bounded_def)
    ultimately show ?thesis using assms(3) 2(3,4) 2(7) [of k']
      by (auto simp: analysis_lookup_def split: if_splits option.splits)
  qed
qed

definition analysis_read :: "(gostring \<Rightarrow> 'r option) \<Rightarrow> int \<Rightarrow> gostring \<Rightarrow> analysis_cache \<Rightarrow> 'r option \<times> analysis_cache" where
  "analysis_read u now k c = (fst (fst (analysis_Get u now k c)), snd (analysis_Get u now k c))"

definition analysis_write :: "('r \<Rightarrow> gostring option) \<Rightarrow> int \<Rightarrow> gostring \<Rightarrow> 'r \<Rightarrow> analysis_cache \<Rightarrow> analysis_cache" where
  "analysis_write m now k r c = snd (analysis_Set m now k r c)"

interpretation analyses: memo_cache "analysis_read u" "analysis_write m" "analysis_lookup u" "ac_bounded entries life bytes"
    "\<lambda>_. life" "\<lambda>v w. \<exists>s. m v = Some s \<and> u s = Some w"
  for u :: "gostring \<Rightarrow> 'r option" and m and entries life bytes
proof (rule memo_cache.intro)
  fix c :: analysis_cache and now t :: int and k k' and v w :: 'r
  assume ok: "ac_bounded entries life bytes c"
  then have inv: "ac_inv c" by (simp add: ac_bounded_def)
  show "ac_bounded entries life bytes (snd (analysis_read u now k c))" "ac_bounded entries life bytes (analysis_write m now k v c)"
    "fst (analysis_read u now k c) = analysis_lookup u now c k"
    using ok inv by (simp_all add: analysis_read_def analysis_write_def analysis_Get_bounded analysis_Set_bounded analysis_Get_facts(3))
  assume t: "now \<le> t"
  show "analysis_lookup u t (snd (analysis_read u now k c)) k' = analysis_lookup u t c k'"
    using analysis_Get_facts(4) [OF inv t] by (simp add: analysis_read_def)
  show "analysis_lookup u t (analysis_write m now k v c) k' = Some w \<Longrightarrow>
      k' = k \<and> (\<exists>s. m v = Some s \<and> u s = Some w) \<and> t < now + life \<or> analysis_lookup u t c k' = Some w"
    using analysis_Set_lookup [OF ok t] by (simp add: analysis_write_def)
qed

lemma newAnalysisResultCache_ok [simp]:
  "ac_bounded n ttl b (newAnalysisResultCache n ttl b)" "analysis_lookup u t (newAnalysisResultCache n ttl b) k = None"
  by (simp_all add: newAnalysisResultCache_def ac_bounded_def ac_inv_def analysis_lookup_def)

text \<open>
  When decoding an encoded result gives the result back, a hit of the analysis cache is a
  result stored under the key less than the time to live ago, and the cache never exceeds its
  limits on entries and bytes.
\<close>

theorem analysis_cache_correct:
  assumes round_trip: "\<And>r s. marshal r = Some s \<Longrightarrow> unmarshal s = Some r"
    and times: "list_all (\<lambda>op. fst op \<le> t) ops"
  shows "let c = run_ops (analysis_read unmarshal) (analysis_write marshal) ops (newAnalysisResultCache n ttl b)
    in (fst (fst (analysis_Get unmarshal t k c)) = Some r \<longrightarrow> (\<exists>s. (s, CachePut k r) \<in> set ops \<and> t < s + ttl))
      \<and> int (length (ac_order c)) \<le> max 0 n \<and> ac_bytes c \<le> max 0 b"
proof -
  define c where "c = run_ops (analysis_read unmarshal) (analysis_write marshal) ops (newAnalysisResultCache n ttl b)"
  have "ac_bounded n ttl b c" unfolding c_def by (rule analyses.run_ok) simp
  moreover have "\<exists>s. (s, CachePut k r) \<in> set ops \<and> t < s + ttl" if "fst (fst (analysis_Get unmarshal t k c)) = Some r"
  proof -
    have "\<exists>s v. (s, CachePut k v) \<in> set ops \<and> (\<exists>x. marshal v = Some x \<and> unmarshal x = Some r) \<and> t < s + ttl"
      by (rule analyses.hit_was_stored [of n ttl b "newAnalysisResultCache n ttl b" unmarshal])
        (use times that in \<open>simp_all add: list_all_iff c_def analysis_read_def\<close>)
    then show ?thesis using round_trip by fastforce
  qed
  ultimately show ?thesis unfolding c_def [symmetric] Let_def by (simp add: ac_bounded_def)
qed

text \<open>A result too large for the cache leaves the entry of its key in place.\<close>

theorem analysis_cache_correct_witness:
  "let c = run_ops (analysis_read Some) (analysis_write Some) [(0 :: int, CachePut ''k'' ''r''), (1, CachePut ''k'' ''longer'')]
             (newAnalysisResultCache 4 10 5)
   in fst (fst (analysis_Get Some 3 ''k'' c)) = Some ''r'' \<and> ac_bytes c \<le> max 0 5
      \<and> (\<exists>s. (s, CachePut ''k'' ''r'') \<in> set [(0 :: int, CachePut ''k'' ''r''), (1, CachePut ''k'' ''longer'')] \<and> 3 < s + 10)"
proof -
  let ?ops = "[(0 :: int, CachePut ''k'' ''r''), (1, CachePut ''k'' ''longer'')]"
  let ?c = "run_ops (analysis_read Some) (analysis_write Some) ?ops (newAnalysisResultCache 4 10 5)"
  have hit: "fst (fst (analysis_Get Some 3 ''k'' ?c)) = Some ''r''" by code_simp
  have "list_all (\<lambda>op. fst op \<le> 3) ?ops" by simp
  from analysis_cache_correct [of Some Some, OF _ this, of 4 10 5 "''k''" "''r''"] hit
  show ?thesis unfolding Let_def by simp
qed

end
