(* ===== verification/Analysis_Store.thy ===== *)
theory Analysis_Store
  imports Analysis_Cache
begin

text \<open>
  How the analyze handler stores a result, \<^verbatim>\<open>internal/api/handler.go\<close>: the bound of its loop over
  evictions is the call that stores the result, so the result is stored again before every comparison.
  The loop ends, and what it reports and leaves behind.
\<close>

text \<open>
  The value is the number of evictions reported and the cache; \<open>None\<close> if the loop
  \<^verbatim>\<open>for i := 0; i < h.analysisCache.Set(cacheKey, core); i++\<close> does not end. The calls read the same time.
\<close>

partial_function (option) store_loop ::
  "('r \<Rightarrow> gostring option) \<Rightarrow> int \<Rightarrow> gostring \<Rightarrow> 'r \<Rightarrow> int \<Rightarrow> analysis_cache \<Rightarrow> (int \<times> analysis_cache) option" where
  "store_loop marshal now key core i c =
     (let (removed, c') = analysis_Set marshal now key core c
      in if i < removed then store_loop marshal now key core (i + 1) c' else Some (i, c'))"

lemma prune_nothing:
  assumes "\<And>k. \<not> expired now (map_of (ac_entries c) k)"
  shows "pruneLocked now c = (0, c)"
proof -
  have "prune_step now k (n, c) = (n, c)" for k n
    using assms [of k] by (auto simp: prune_step_def expired_def split: option.splits)
  then have "fold (prune_step now) ks (n, c) = (n, c)" for ks n by (induction ks) auto
  then show ?thesis by (simp add: pruneLocked_def)
qed

lemma drop_nothing:
  "int (length (ac_order c)) \<le> ac_maxEntries c \<Longrightarrow> ac_bytes c \<le> ac_maxBytes c \<Longrightarrow> drop_oldest c = (0, c)"
  by (simp add: drop_oldest.simps)

text \<open>The front of the list is not dropped when it fits alone.\<close>

lemma drop_oldest_keeps_front:
  assumes "ac_inv c" and "ac_order c = k # ks" and "ac_weight c k \<le> ac_maxBytes c" and "0 < ac_maxEntries c"
  shows "map_of (ac_entries (snd (drop_oldest c))) k = map_of (ac_entries c) k"
  using assms
proof (induction c arbitrary: ks rule: drop_oldest.induct)
  case (1 c)
  show ?case
  proof (cases "int (length (ac_order c)) > ac_maxEntries c \<or> ac_bytes c > ac_maxBytes c")
    case False
    then show ?thesis by (simp add: drop_oldest.simps [of c])
  next
    case over: True
    have bytes: "ac_bytes c = ac_weight c k + sum_list (map (ac_weight c) ks)" using 1(2,3) by (simp add: ac_inv_def)
    have ks: "ks \<noteq> []"
    proof
      assume "ks = []"
      then have "int (length (ac_order c)) = 1" "ac_bytes c = ac_weight c k" using 1(3) bytes by simp_all
      then show False using over 1(4,5) by linarith
    qed
    let ?l = "last (ac_order c)"
    have l: "?l \<noteq> k" "?l \<in> set (ac_order c)" using 1(2,3) ks by (auto simp: ac_inv_def)
    then have "map_of (ac_entries c) ?l \<noteq> None" using 1(2) by (auto simp: ac_inv_def)
    then have g: "\<not> (ac_order c = [] \<or> map_of (ac_entries c) ?l = None)" using 1(3) by simp
    let ?c = "removeLocked ?l c"
    have step: "snd (drop_oldest c) = snd (drop_oldest ?c)"
      using over g by (subst drop_oldest.simps) (auto simp: case_prod_beta Let_def)
    have "ac_order ?c = k # remove1 ?l ks" using 1(3) l(1) removeLocked_order [OF 1(2), of ?l] by simp
    moreover have "ac_weight ?c k = ac_weight c k" using l(1) by (simp add: ac_weight_def removeLocked_entries)
    ultimately have "map_of (ac_entries (snd (drop_oldest ?c))) k = map_of (ac_entries ?c) k"
      using 1(1) [OF over g removeLocked_inv [OF 1(2)]] 1(4,5) by simp
    then show ?thesis using l(1) by (simp add: step removeLocked_entries)
  qed
qed

definition with_entry :: "gostring \<Rightarrow> analysis_entry \<Rightarrow> analysis_cache \<Rightarrow> analysis_cache" where
  "with_entry k e c = c\<lparr>ac_order := k # ac_order c, ac_entries := AList.update k e (ac_entries c), ac_bytes := ac_bytes c + entry_weight k e\<rparr>"

lemma analysis_Set_stores:
  assumes "0 < ac_maxEntries c" "0 < ac_ttl c" "0 < ac_maxBytes c" "m r = Some s" "int (length k) + int (length s) \<le> ac_maxBytes c"
    and "ac_inv c"
  shows "analysis_Set m now k r c =
    (let c1 = with_entry k \<lparr>ae_value = s, ae_expiresAt = now + ac_ttl c\<rparr> (removeLocked k (snd (pruneLocked now c)))
     in (fst (pruneLocked now c) + fst (drop_oldest c1), snd (drop_oldest c1)))"
proof -
  have "ac_ttl (snd (pruneLocked now c)) = ac_ttl c" using pruneLocked_facts(2) [OF assms(6), of now] by (simp add: ac_same_limits_def)
  then show ?thesis using assms by (simp add: analysis_Set_def Let_def case_prod_beta with_entry_def entry_weight_def)
qed

lemma with_entry_again:
  assumes "ac_inv c" and "map_of (ac_entries c) k = Some e'" and "ae_value e' = ae_value e"
    and "int (length (ac_order c)) \<le> ac_maxEntries c" "ac_bytes c \<le> ac_maxBytes c"
  shows "fst (drop_oldest (with_entry k e (removeLocked k c))) = 0"
proof -
  have "k \<in> set (ac_order c)" using assms(1,2) by (auto simp: ac_inv_def)
  then have "0 < length (ac_order c)" "k \<in> set (ac_order c)" by auto
  then have "length (ac_order (with_entry k e (removeLocked k c))) = length (ac_order c)"
    using removeLocked_order [OF assms(1), of k] by (simp add: with_entry_def length_remove1)
  moreover have "ac_bytes (with_entry k e (removeLocked k c)) = ac_bytes c"
    using assms(2,3) by (simp add: with_entry_def removeLocked_def entry_weight_def)
  ultimately have "drop_oldest (with_entry k e (removeLocked k c)) = (0, with_entry k e (removeLocked k c))"
    using assms(4,5) by (intro drop_nothing) (simp_all add: with_entry_def)
  then show ?thesis by simp
qed

text \<open>Storing a result a second time, at the same moment, evicts nothing.\<close>

lemma analysis_Set_again:
  assumes "ac_bounded entries life bytes c"
  shows "fst (analysis_Set m now k r (snd (analysis_Set m now k r c))) = 0"
proof -
  let ?c = "snd (analysis_Set m now k r c)"
  have inv: "ac_inv c" using assms by (simp add: ac_bounded_def)
  have bounded: "ac_bounded entries life bytes ?c" by (rule analysis_Set_bounded [OF assms])
  show ?thesis
  proof (cases "0 < ac_maxEntries c \<and> 0 < ac_ttl c \<and> 0 < ac_maxBytes c \<and> (\<exists>s. m r = Some s \<and> int (length k) + int (length s) \<le> ac_maxBytes c)")
    case False
    then have "analysis_Set m now k r c = (0, c)" by (auto simp: analysis_Set_def split: option.split)
    then show ?thesis by simp
  next
    case True
    then obtain s where s: "m r = Some s" "int (length k) + int (length s) \<le> ac_maxBytes c"
      and pos: "0 < ac_maxEntries c" "0 < ac_ttl c" "0 < ac_maxBytes c" by blast
    let ?e = "\<lparr>ae_value = s, ae_expiresAt = now + ac_ttl c\<rparr>"
    let ?d = "removeLocked k (snd (pruneLocked now c))"
    let ?c1 = "with_entry k ?e ?d"
    note pr = pruneLocked_facts [OF inv, of now]
    have c: "?c = snd (drop_oldest ?c1)" using analysis_Set_stores [where m = m and r = r, OF pos s inv] by (simp add: Let_def)
    have inv1: "ac_inv ?c1"
      unfolding with_entry_def by (rule insert_inv [OF removeLocked_inv [OF pr(1)]]) (simp add: removeLocked_entries)
    have limits: "ac_maxEntries ?c1 = ac_maxEntries c" "ac_maxBytes ?c1 = ac_maxBytes c"
      using pr(2) by (simp_all add: with_entry_def ac_same_limits_def)
    have look1: "map_of (ac_entries ?c1) x = (if x = k then Some ?e else
        if expired now (map_of (ac_entries c) x) then None else map_of (ac_entries c) x)" for x
      by (simp add: with_entry_def update_conv' removeLocked_entries pr(4))
    have sub: "map_of (ac_entries ?c) x \<in> {None, map_of (ac_entries ?c1) x}" for x
      using drop_oldest_facts [OF inv1] pos limits c by simp
    have fresh: "\<not> expired now (map_of (ac_entries ?c) x)" for x
    proof -
      have none: "\<not> expired now None" and new: "\<not> expired now (Some ?e)" using pos(2) by (simp_all add: expired_def)
      have "\<not> expired now (map_of (ac_entries ?c1) x)" by (simp add: look1 none new)
      then show ?thesis using sub [of x] none by fastforce
    qed
    have "ac_weight ?c1 k \<le> ac_maxBytes ?c1" using s(2) limits by (simp add: ac_weight_def look1 entry_weight_def)
    then have kept: "map_of (ac_entries ?c) k = Some ?e"
      using drop_oldest_keeps_front [OF inv1, of k "ac_order ?d"] pos(1) limits look1 [of k] c by (simp add: with_entry_def)
    have same: "ac_maxEntries ?c = ac_maxEntries c" "ac_ttl ?c = ac_ttl c" "ac_maxBytes ?c = ac_maxBytes c"
      using bounded assms by (simp_all add: ac_bounded_def)
    have invc: "ac_inv ?c" "int (length (ac_order ?c)) \<le> ac_maxEntries ?c" "ac_bytes ?c \<le> ac_maxBytes ?c"
      using bounded pos assms by (auto simp: ac_bounded_def)
    have "fst (analysis_Set m now k r ?c) = fst (drop_oldest (with_entry k ?e (removeLocked k ?c)))"
      using analysis_Set_stores [of ?c m r s k now] pos s same invc prune_nothing [of now ?c, OF fresh] by (simp add: Let_def)
    also have "\<dots> = 0" by (rule with_entry_again [OF invc(1) kept _ invc(2,3)]) simp
    finally show ?thesis .
  qed
qed

lemma store_loop_result:
  assumes "ac_bounded entries life bytes c"
  shows "\<exists>c'. store_loop marshal now key core 0 c =
      Some (if 0 < fst (analysis_Set marshal now key core c) then 1 else 0, c') \<and>
    c' \<in> {snd (analysis_Set marshal now key core c),
          snd (analysis_Set marshal now key core (snd (analysis_Set marshal now key core c)))} \<and>
    ac_bounded entries life bytes c'"
proof -
  let ?c = "snd (analysis_Set marshal now key core c)"
  have two: "store_loop marshal now key core 1 ?c = Some (1, snd (analysis_Set marshal now key core ?c))"
    using analysis_Set_again [OF assms, of marshal now key core]
    by (subst store_loop.simps) (simp add: case_prod_beta Let_def)
  have one: "store_loop marshal now key core 0 c =
      (if 0 < fst (analysis_Set marshal now key core c) then store_loop marshal now key core 1 ?c else Some (0, ?c))"
    by (subst store_loop.simps) (simp add: case_prod_beta Let_def)
  show ?thesis
    using analysis_Set_bounded [OF assms, of marshal now key core]
      analysis_Set_bounded [OF analysis_Set_bounded [OF assms, of marshal now key core], of marshal now key core]
    by (simp add: one two)
qed


text \<open>Two results that expired are evicted by the first store; one eviction is reported.\<close>

definition expired_pair :: analysis_cache where
  "expired_pair = snd (analysis_Set Some 0 ''b'' ''y'' (snd (analysis_Set Some 0 ''a'' ''x'' (newAnalysisResultCache 8 10 100))))"


lemma two_evicted: "fst (analysis_Set Some 20 ''c'' ''z'' expired_pair) = 2"
  by code_simp

lemma store_loop_undercounts:
  "fst (analysis_Set Some 20 ''c'' ''z'' expired_pair) = 2 \<and> (\<exists>c'. store_loop Some 20 ''c'' ''z'' 0 expired_pair = Some (1, c'))"
proof -
  have "fst (analysis_Set Some 20 ''c'' ''z'' (snd (analysis_Set Some 20 ''c'' ''z'' expired_pair))) = 0"
    by (rule analysis_Set_again [of 8 10 100]) (unfold expired_pair_def, intro analysis_Set_bounded, simp)
  then show ?thesis
    using two_evicted by (simp add: store_loop.simps [of Some 20 "''c''" "''z''" 0] store_loop.simps [of Some 20 "''c''" "''z''" 1] case_prod_beta Let_def)
qed

end
