(* ===== verification/Sarif.thy ===== *)
theory Sarif
  imports Model
begin

text \<open>
  The SARIF reports of \<^verbatim>\<open>internal/output/sarif\<close>: severities, the report of a run and the report
  of an error. A report is the value handed to the JSON encoder; an empty slice or map that the
  encoder omits is the empty list.
\<close>

section \<open>Severities\<close>

definition SeverityMappings :: "(gostring, gostring) gomap" where
  "SeverityMappings = [(''error'', ''error''), (''warning'', ''warning''), (''warn'', ''warning''), (''info'', ''note'')]"

definition MapSeverityToLevel :: "gostring \<Rightarrow> gostring" where
  "MapSeverityToLevel severity =
     (case map_of SeverityMappings (ToLower (TrimSpace severity)) of Some level \<Rightarrow> level | None \<Rightarrow> ''warning'')"

section \<open>Reports\<close>

record request_metadata =
  sm_RequestURI :: gostring
  sm_ArtifactURI :: gostring

record sarif_rule =
  sr_ID :: gostring
  sr_Name :: gostring

record sarif_region =
  reg_StartLine :: int
  reg_StartColumn :: int

record sarif_location =
  loc_URI :: gostring
  loc_Region :: "sarif_region option"

record sarif_result =
  res_RuleID :: gostring
  res_Level :: gostring
  res_Message :: gostring
  res_Locations :: "sarif_location list"
  res_PartialFingerprints :: "(gostring, gostring) gomap"

record sarif_invocation =
  inv_ExecutionSuccessful :: bool
  inv_Properties :: "(gostring, gostring) gomap"

record sarif_run =
  run_DriverName :: gostring
  run_InformationURI :: gostring
  run_Rules :: "sarif_rule list"
  run_Artifacts :: "gostring list"
  run_Invocations :: "sarif_invocation list"
  run_Results :: "sarif_result list"

record sarif_report =
  rep_Version :: gostring
  rep_Schema :: gostring
  rep_Runs :: "sarif_run list"

definition report_of :: "sarif_run \<Rightarrow> sarif_report" where
  "report_of run = \<lparr>rep_Version = ''2.1.0'', rep_Schema = ''https://json.schemastore.org/sarif-2.1.0.json'', rep_Runs = [run]\<rparr>"

definition artifact_uri :: "request_metadata \<Rightarrow> gostring" where
  "artifact_uri meta = (if sm_ArtifactURI meta = [] then ''request://mermaid'' else sm_ArtifactURI meta)"

record error_info =
  ei_Code :: gostring
  ei_Message :: gostring

definition error_level :: "gostring \<Rightarrow> gostring" where
  "error_level ec =
     (if ec \<in> set [''parser_timeout'', ''parser_memory_limit'', ''parser_subprocess_error'', ''parser_contract_violation'',
                     ''parser_decode_error'']
      then ''error'' else ''warning'')"

definition TransformError :: "error_info \<Rightarrow> request_metadata \<Rightarrow> sarif_report" where
  "TransformError errInfo meta =
     report_of \<lparr>run_DriverName = ''merm8'', run_InformationURI = ''https://github.com/CyanAutomation/merm8'',
       run_Rules = [], run_Artifacts = [],
       run_Invocations =
         (if sm_RequestURI meta \<noteq> [] then
            [\<lparr>inv_ExecutionSuccessful = False,
              inv_Properties = [(''request-uri'', sm_RequestURI meta), (''error-code'', ei_Code errInfo)]\<rparr>]
          else []),
       run_Results = [\<lparr>res_RuleID = ''merm8-api'', res_Level = error_level (ei_Code errInfo), res_Message = ei_Message errInfo,
         res_Locations = [], res_PartialFingerprints = []\<rparr>]\<rparr>"

definition issue_region :: "issue \<Rightarrow> sarif_region" where
  "issue_region issue =
     (let region = \<lparr>reg_StartLine = 0, reg_StartColumn = 0\<rparr>;
          region = (case iss_Line issue of None \<Rightarrow> region | Some l \<Rightarrow> region\<lparr>reg_StartLine := l\<rparr>)
      in case iss_Column issue of None \<Rightarrow> region | Some c \<Rightarrow> region\<lparr>reg_StartColumn := c\<rparr>)"

definition issue_result :: "gostring \<Rightarrow> issue \<Rightarrow> sarif_result" where
  "issue_result artifactURI issue =
     (let result = \<lparr>res_RuleID = iss_RuleID issue, res_Level = MapSeverityToLevel (iss_Severity issue),
            res_Message = iss_Message issue, res_Locations = [], res_PartialFingerprints = []\<rparr>;
          result = (if iss_Fingerprint issue \<noteq> []
            then result\<lparr>res_PartialFingerprints := [(''issueFingerprint'', iss_Fingerprint issue)]\<rparr> else result)
      in if iss_Line issue \<noteq> None \<or> iss_Column issue \<noteq> None
         then result\<lparr>res_Locations := [\<lparr>loc_URI = artifactURI, loc_Region = Some (issue_region issue)\<rparr>]\<rparr>
         else result)"

text \<open>The loop over the issues, with the rules seen so far.\<close>

fun transform_loop ::
  "gostring \<Rightarrow> issue list \<Rightarrow> sarif_rule list \<Rightarrow> (gostring, unit) gomap \<Rightarrow> sarif_result list \<Rightarrow> sarif_rule list \<times> sarif_result list" where
  "transform_loop artifactURI [] rules ruleSeen results = (rules, results)"
| "transform_loop artifactURI (issue # issues) rules ruleSeen results =
     (let ruleID = iss_RuleID issue;
          (rules, ruleSeen) = (if map_of ruleSeen ruleID = None
            then (rules @ [\<lparr>sr_ID = ruleID, sr_Name = ruleID\<rparr>], set_add ruleID ruleSeen) else (rules, ruleSeen))
      in transform_loop artifactURI issues rules ruleSeen (results @ [issue_result artifactURI issue]))"

definition Transform :: "issue list \<Rightarrow> request_metadata \<Rightarrow> sarif_report" where
  "Transform issues meta =
     (let uri = artifact_uri meta; (rules, results) = transform_loop uri issues [] [] []
      in report_of \<lparr>run_DriverName = ''merm8'', run_InformationURI = ''https://github.com/CyanAutomation/merm8'',
           run_Rules = rules,
           run_Artifacts = (if results \<noteq> [] then [uri] else []),
           run_Invocations =
             (if sm_RequestURI meta \<noteq> []
              then [\<lparr>inv_ExecutionSuccessful = True, inv_Properties = [(''request-uri'', sm_RequestURI meta)]\<rparr>] else []),
           run_Results = results\<rparr>)"

section \<open>The report of a run\<close>

text \<open>The different elements of a list, each where it first occurs.\<close>

fun first_occurrences :: "'a list \<Rightarrow> 'a list" where
  "first_occurrences [] = []"
| "first_occurrences (x # xs) = x # filter (\<lambda>y. y \<noteq> x) (first_occurrences xs)"

lemma first_occurrences_facts [simp]: "set (first_occurrences xs) = set xs" "distinct (first_occurrences xs)"
  by (induction xs) auto

lemma transform_loop_eq:
  "transform_loop uri is rules seen results =
     (rules @ map (\<lambda>r. \<lparr>sr_ID = r, sr_Name = r\<rparr>)
        (filter (\<lambda>r. map_of seen r = None) (first_occurrences (map iss_RuleID is))),
      results @ map (issue_result uri) is)"
proof (induction "is" arbitrary: rules seen results)
  case (Cons i "is")
  have "filter (\<lambda>r. map_of (set_add (iss_RuleID i) seen) r = None) rs =
        filter (\<lambda>r. map_of seen r = None \<and> r \<noteq> iss_RuleID i) rs" for rs
    by (rule filter_cong) (auto simp: set_add_def update_conv')
  moreover have "filter (\<lambda>r. map_of seen r = None) rs = filter (\<lambda>r. map_of seen r = None \<and> r \<noteq> iss_RuleID i) rs"
    if "map_of seen (iss_RuleID i) \<noteq> None" for rs
    using that by (intro filter_cong) auto
  ultimately show ?case by (cases "map_of seen (iss_RuleID i)") (simp_all add: Cons.IH conj_commute Let_def)
qed simp

text \<open>The finding a result reports: everything but the spelling of its severity and its context.\<close>

definition issue_of_result :: "sarif_result \<Rightarrow> gostring \<times> gostring \<times> gostring \<times> (int \<times> int) option" where
  "issue_of_result r =
     (res_RuleID r, res_Message r,
      (case map_of (res_PartialFingerprints r) ''issueFingerprint'' of None \<Rightarrow> [] | Some f \<Rightarrow> f),
      (case res_Locations r of
         [] \<Rightarrow> None
       | l # _ \<Rightarrow> map_option (\<lambda>g. (reg_StartLine g, reg_StartColumn g)) (loc_Region l)))"

lemma issue_of_issue_result:
  "issue_of_result (issue_result uri i) =
     (iss_RuleID i, iss_Message i, iss_Fingerprint i,
      if iss_Line i = None \<and> iss_Column i = None then None
      else Some (case_option 0 (\<lambda>n. n) (iss_Line i), case_option 0 (\<lambda>n. n) (iss_Column i)))"
  by (cases "iss_Line i"; cases "iss_Column i")
    (simp_all add: issue_of_result_def issue_result_def issue_region_def Let_def)

text \<open>
  C26: the report of a run loses no finding and invents none: its results are, in order, one for every
  finding, and rule, message, fingerprint and position of the finding can be read off its result;
  the rules of the report are the rules of the findings, each once and in the order they first occur;
  and the artifact is listed exactly when there is a result.
\<close>
theorem Transform_faithful:
  "\<exists>run. rep_Runs (Transform issues meta) = [run] \<and>
     map issue_of_result (run_Results run) =
       map (\<lambda>i. (iss_RuleID i, iss_Message i, iss_Fingerprint i,
         if iss_Line i = None \<and> iss_Column i = None then None
         else Some (case_option 0 (\<lambda>n. n) (iss_Line i), case_option 0 (\<lambda>n. n) (iss_Column i)))) issues \<and>
     map res_Level (run_Results run) = map (MapSeverityToLevel \<circ> iss_Severity) issues \<and>
     map sr_ID (run_Rules run) = first_occurrences (map iss_RuleID issues) \<and>
     set (map sr_ID (run_Rules run)) = iss_RuleID ` set issues \<and> distinct (map sr_ID (run_Rules run)) \<and>
     run_Artifacts run = (if issues = [] then [] else [artifact_uri meta])"
proof -
  have level: "res_Level (issue_result uri i) = MapSeverityToLevel (iss_Severity i)" for uri i
    by (simp add: issue_result_def Let_def)
  show ?thesis
    by (simp add: Transform_def report_of_def transform_loop_eq comp_def issue_of_issue_result level Let_def image_image)
qed

end
