(* ===== verification/Source_Signals.thy ===== *)
theory Source_Signals
  imports Compression Model
begin

text \<open>
  What the handlers look for in a source the parser refused, \<^verbatim>\<open>internal/api/handler.go\<close>: tabs,
  typographic punctuation, unfinished labels, markup in labels, prose or another language around the
  diagram. A position is a line and a byte column, both counted from one; \<open>None\<close> stands for
  the result without a finding.
\<close>

section \<open>Strings\<close>

text \<open>The first rune of a string as \<^verbatim>\<open>range\<close> decodes it: its width and whether it is valid UTF-8.\<close>

definition between :: "nat \<Rightarrow> nat \<Rightarrow> char \<Rightarrow> bool" where
  "between lo hi c \<longleftrightarrow> lo \<le> (of_char c :: nat) \<and> (of_char c :: nat) \<le> hi"

abbreviation continues :: "char \<Rightarrow> bool" where
  "continues \<equiv> between 0x80 0xBF"

fun rune_width :: "gostring \<Rightarrow> nat option" where
  "rune_width (b0 # b1 # b2 # b3 # s) =
     (if between 0 0x7F b0 then Some 1
      else if between 0xC2 0xDF b0 \<and> continues b1 then Some 2
      else if (between 0xE0 0xE0 b0 \<and> between 0xA0 0xBF b1 \<or> between 0xED 0xED b0 \<and> between 0x80 0x9F b1 \<or>
               (between 0xE1 0xEC b0 \<or> between 0xEE 0xEF b0) \<and> continues b1) \<and> continues b2 then Some 3
      else if (between 0xF0 0xF0 b0 \<and> between 0x90 0xBF b1 \<or> between 0xF4 0xF4 b0 \<and> between 0x80 0x8F b1 \<or>
               between 0xF1 0xF3 b0 \<and> continues b1) \<and> continues b2 \<and> continues b3 then Some 4
      else None)"
| "rune_width [b0, b1, b2] =
     (if between 0 0x7F b0 then Some 1
      else if between 0xC2 0xDF b0 \<and> continues b1 then Some 2
      else if (between 0xE0 0xE0 b0 \<and> between 0xA0 0xBF b1 \<or> between 0xED 0xED b0 \<and> between 0x80 0x9F b1 \<or>
               (between 0xE1 0xEC b0 \<or> between 0xEE 0xEF b0) \<and> continues b1) \<and> continues b2 then Some 3
      else None)"
| "rune_width [b0, b1] =
     (if between 0 0x7F b0 then Some 1 else if between 0xC2 0xDF b0 \<and> continues b1 then Some 2 else None)"
| "rune_width [b0] = (if between 0 0x7F b0 then Some 1 else None)"
| "rune_width [] = None"

lemma rune_width_bounds: "rune_width s = Some n \<Longrightarrow> 0 < n \<and> n \<le> length s"
  by (induction s rule: rune_width.induct) (auto split: if_splits)

text \<open>
  \<^verbatim>\<open>for off, r := range s\<close>: the byte offsets and the runes, each as its encoding; a byte that is
  not valid is the replacement character.
\<close>

function range_string :: "nat \<Rightarrow> gostring \<Rightarrow> (nat \<times> gostring) list" where
  "range_string off s =
     (if s = [] then []
      else case rune_width s of
        Some n \<Rightarrow> (off, take n s) # range_string (off + n) (drop n s)
      | None \<Rightarrow> (off, [CHR 0xEF, CHR 0xBF, CHR 0xBD]) # range_string (off + 1) (drop 1 s))"
  by pat_completeness auto
termination
  by (relation "measure (\<lambda>(_, s). length s)") (auto dest: rune_width_bounds)

declare range_string.simps [simp del]

definition runes :: "gostring \<Rightarrow> gostring list" where
  "runes s = map snd (range_string 0 s)"

text \<open>\<^verbatim>\<open>strings.Index\<close>, \<^verbatim>\<open>IndexAny\<close>, \<^verbatim>\<open>Count\<close> for a non-empty text, \<^verbatim>\<open>Fields\<close>, \<^verbatim>\<open>ReplaceAll\<close>.\<close>

fun Index :: "gostring \<Rightarrow> gostring \<Rightarrow> nat option" where
  "Index [] p = (if p = [] then Some 0 else None)"
| "Index (x # xs) p = (if HasPrefix (x # xs) p then Some 0 else map_option Suc (Index xs p))"

fun IndexAny :: "gostring \<Rightarrow> gostring \<Rightarrow> nat option" where
  "IndexAny [] chars = None"
| "IndexAny (x # xs) chars = (if x \<in> set chars then Some 0 else map_option Suc (IndexAny xs chars))"

function Count :: "gostring \<Rightarrow> gostring \<Rightarrow> nat" where
  "Count s p =
     (if s = [] \<or> p = [] then 0
      else if HasPrefix s p then Suc (Count (drop (length p) s) p)
      else Count (tl s) p)"
  by pat_completeness auto
termination
  by (relation "measure (\<lambda>(s, _). length s)") auto

declare Count.simps [simp del]

function ReplaceAll :: "gostring \<Rightarrow> gostring \<Rightarrow> gostring \<Rightarrow> gostring" where
  "ReplaceAll s old new =
     (if s = [] \<or> old = [] then s
      else if HasPrefix s old then new @ ReplaceAll (drop (length old) s) old new
      else hd s # ReplaceAll (tl s) old new)"
  by pat_completeness auto
termination
  by (relation "measure (\<lambda>(s, _, _). length s)") auto

declare ReplaceAll.simps [simp del]

fun fields_from :: "gostring \<Rightarrow> gostring list \<Rightarrow> gostring list" where
  "fields_from word [] = (if word = [] then [] else [word])"
| "fields_from word (r # rs) =
     (if r \<in> set space_encodings then (if word = [] then fields_from [] rs else word # fields_from [] rs)
      else fields_from (word @ r) rs)"

definition Fields :: "gostring \<Rightarrow> gostring list" where
  "Fields s = fields_from [] (runes s)"

section \<open>Headers\<close>

definition lines_of :: "gostring \<Rightarrow> gostring list" where
  "lines_of src = Split src (CHR 0x0A)"

definition isDiagramTypeKeyword :: "gostring \<Rightarrow> bool" where
  "isDiagramTypeKeyword line = list_ex (\<lambda>kw. HasPrefix (TrimSpace line) kw)
     [''flowchart'', ''graph'', ''sequenceDiagram'', ''classDiagram'', ''erDiagram'', ''stateDiagram'']"

text \<open>The number of the first line that satisfies a test, with what the test finds there; lines count from \<open>n\<close>.\<close>

fun first_line_with :: "nat \<Rightarrow> (gostring \<Rightarrow> 'a option) \<Rightarrow> gostring list \<Rightarrow> (nat \<times> 'a) option" where
  "first_line_with n f [] = None"
| "first_line_with n f (line # rest) =
     (case f line of Some x \<Rightarrow> Some (n, x) | None \<Rightarrow> first_line_with (Suc n) f rest)"

definition firstRecognizedDiagramLine :: "gostring list \<Rightarrow> nat" where
  "firstRecognizedDiagramLine ls =
     (case first_line_with 1 (\<lambda>line. if isDiagramTypeKeyword (TrimSpace line) then Some () else None) ls of
        None \<Rightarrow> 0 | Some (n, _) \<Rightarrow> n)"

definition looksLikeProsePreambleLine :: "gostring \<Rightarrow> bool" where
  "looksLikeProsePreambleLine line =
     (let trimmed = TrimSpace line; lower = ToLower trimmed in
      if trimmed = [] then False
      else if HasPrefix lower ''- '' \<or> HasPrefix lower ''* '' \<or> HasPrefix lower ''+ '' then True
      else if length lower > 2 \<and> between 48 57 (lower ! 0) \<and> (case Index lower ''. '' of None \<Rightarrow> False | Some dotIdx \<Rightarrow> dotIdx > 0) then True
      else length (Fields trimmed) \<ge> 3 \<and>
        (IndexAny trimmed ''.:;!?'' \<noteq> None \<or>
         list_ex (Contains lower) [''this diagram'', ''diagram shows'', ''overview'', ''summary'', ''notes:'']))"

definition hasProseBeforeFirstDiagramHeader :: "gostring list \<Rightarrow> nat \<Rightarrow> bool" where
  "hasProseBeforeFirstDiagramHeader ls headerLine =
     (if headerLine \<le> 1 then False else list_ex looksLikeProsePreambleLine (take (headerLine - 1) ls))"

definition normalizeDiagramTypeHeaderToken :: "gostring \<Rightarrow> gostring" where
  "normalizeDiagramTypeHeaderToken header =
     concat (filter (\<lambda>r. length r = 1 \<and> (between 97 122 (hd r) \<or> between 48 57 (hd r))) (runes (ToLower (TrimSpace header))))"

definition canonicalByNormalized :: "(gostring, gostring) gomap" where
  "canonicalByNormalized =
     [(''flowchart'', ''flowchart''), (''graph'', ''graph''), (''sequence'', ''sequenceDiagram''),
      (''sequencediagram'', ''sequenceDiagram''), (''class'', ''classDiagram''), (''classdiagram'', ''classDiagram''),
      (''erdiagram'', ''erDiagram''), (''statediagram'', ''stateDiagram''), (''statediagramv2'', ''stateDiagram-v2'')]"

text \<open>The part of a token before the first of some characters.\<close>

definition up_to_any :: "gostring \<Rightarrow> gostring \<Rightarrow> gostring" where
  "up_to_any s chars = (case IndexAny s chars of None \<Rightarrow> s | Some splitAt \<Rightarrow> take splitAt s)"

definition detectDiagramTypeHeaderTypo :: "gostring \<Rightarrow> (gostring \<times> gostring) option" where
  "detectDiagramTypeHeaderTypo firstLine =
     (if TrimSpace firstLine = [] then None
      else let firstToken = up_to_any (TrimSpace firstLine) ([CHR 0x20, CHR 0x09, CHR 0x0D]);
               normalizedToken = normalizeDiagramTypeHeaderToken firstToken
        in if normalizedToken = [] then None
           else case map_of canonicalByNormalized normalizedToken of
             None \<Rightarrow> None
           | Some canonical \<Rightarrow> if firstToken = canonical then None else Some (firstToken, canonical))"

definition trim_colons :: "gostring \<Rightarrow> gostring" where
  "trim_colons s = rev (dropWhile ((=) CHR '':'') (rev (dropWhile ((=) CHR '':'') s)))"

definition unsupportedDiagramKeywordFromFirstLine :: "gostring \<Rightarrow> gostring" where
  "unsupportedDiagramKeywordFromFirstLine firstLine =
     (let firstToken = TrimSpace (ToLower firstLine) in
      if firstToken = [] then []
      else let firstToken = trim_colons (up_to_any firstToken ([CHR 0x20, CHR 0x09, CHR 0x0D]))
        in if firstToken = ''gantt'' \<or> firstToken = ''pie'' then firstToken else [])"

section \<open>Labels\<close>

definition edgeOperators :: "gostring list" where
  "edgeOperators = [''-->'', ''---'', ''-.-'', ''==>'', ''==='', ''<--'', ''<->'', ''<-->'']"

definition edge_label_column :: "gostring \<Rightarrow> nat option" where
  "edge_label_column line =
     (let pipeCount = Count line ''|'' in
      if pipeCount = 0 then None
      else if list_ex (Contains line) edgeOperators \<and> pipeCount mod 2 \<noteq> 0
      then (case Index line ''|'' of None \<Rightarrow> Some 1 | Some i \<Rightarrow> Some (i + 1))
      else None)"

definition hasFlowchartUnterminatedEdgeLabel :: "gostring \<Rightarrow> (nat \<times> nat) option" where
  "hasFlowchartUnterminatedEdgeLabel src = first_line_with 1 edge_label_column (lines_of src)"

text \<open>The quotes of a line that no backslash escapes.\<close>

definition count_quotes :: "gostring list \<Rightarrow> nat" where
  "count_quotes rs =
     fst (fold (\<lambda>r (n, escaped).
            if escaped then (n, False) else if r = [CHR 0x5C] then (n, True)
            else if r = [CHR 0x22] then (Suc n, False) else (n, False)) rs (0, False))"

definition lineHasUnterminatedQuotedLabel :: "gostring \<Rightarrow> nat option" where
  "lineHasUnterminatedQuotedLabel line =
     (if \<not> Contains line [CHR 0x22] then None
      else if count_quotes (runes line) mod 2 = 0 then None
      else if Contains line ''['' \<or> Contains line ''|''
      then (case Index line [CHR 0x22] of None \<Rightarrow> Some 1 | Some i \<Rightarrow> Some (i + 1))
      else None)"

definition hasUnterminatedQuotedLabel :: "gostring \<Rightarrow> (nat \<times> nat) option" where
  "hasUnterminatedQuotedLabel src = first_line_with 1 lineHasUnterminatedQuotedLabel (lines_of src)"

definition isWrappedInMatchingQuotes :: "gostring \<Rightarrow> bool" where
  "isWrappedInMatchingQuotes v =
     (let trimmed = TrimSpace v in
      if length trimmed < 2 then False
      else hd trimmed = CHR 0x22 \<and> last trimmed = CHR 0x22 \<or> hd trimmed = CHR 0x27 \<and> last trimmed = CHR 0x27)"

fun angle_tag :: "nat \<Rightarrow> gostring \<Rightarrow> nat option" where
  "angle_tag i [] = None"
| "angle_tag i (c # cs) =
     (if c \<noteq> CHR ''<'' then angle_tag (Suc i) cs
      else case Index cs ''>'' of
        None \<Rightarrow> angle_tag (Suc i) cs
      | Some close \<Rightarrow>
          (case TrimSpace (take close cs) of
             [] \<Rightarrow> angle_tag (Suc i) cs
           | first # _ \<Rightarrow>
               if between 97 122 first \<or> between 65 90 first \<or> first = CHR ''/'' then Some i else angle_tag (Suc i) cs))"

definition angleMarkupIndex :: "gostring \<Rightarrow> nat option" where
  "angleMarkupIndex v =
     (case Index (ToLower v) ''<br>'' of
        Some idx \<Rightarrow> Some idx
      | None \<Rightarrow> (case Index (ToLower v) ''<br/>'' of Some idx \<Rightarrow> Some idx | None \<Rightarrow> angle_tag 0 v))"

text \<open>The offset of the delimiter that closes a label, from its text on.\<close>

fun closing_at :: "char \<Rightarrow> char \<Rightarrow> nat \<Rightarrow> nat \<Rightarrow> gostring \<Rightarrow> nat option" where
  "closing_at op cl depth j [] = None"
| "closing_at op cl depth j (c # cs) =
     (let depth = (if c = op then depth + 1 else depth) in
      if c = cl then (if depth = 1 then Some j else closing_at op cl (depth - 1) (Suc j) cs)
      else closing_at op cl depth (Suc j) cs)"

lemma closing_at_bounds: "closing_at op cl depth j cs = Some k \<Longrightarrow> j \<le> k \<and> k < j + length cs"
  by (induction op cl depth j cs rule: closing_at.induct) (fastforce simp: Let_def split: if_splits)+

text \<open>The loop over the positions of a line; after a label it goes on behind it.\<close>

function label_markup :: "char \<Rightarrow> char \<Rightarrow> gostring \<Rightarrow> nat \<Rightarrow> nat option" where
  "label_markup op cl line i =
     (if i \<ge> length line then None
      else if line ! i \<noteq> op then label_markup op cl line (i + 1)
      else case closing_at op cl 1 (i + 1) (drop (i + 1) line) of
        None \<Rightarrow> label_markup op cl line (i + 1)
      | Some fin \<Rightarrow>
          if fin \<le> i + 1 then label_markup op cl line (i + 1)
          else let label = TrimSpace (take (fin - (i + 1)) (drop (i + 1) line)) in
            if isWrappedInMatchingQuotes label then label_markup op cl line (fin + 1)
            else (case angleMarkupIndex label of
                    Some rel \<Rightarrow> Some (i + 1 + rel + 1)
                  | None \<Rightarrow> label_markup op cl line (fin + 1)))"
  by pat_completeness auto
termination
  by (relation "measure (\<lambda>(_, _, line, i). length line - i)") (auto dest: closing_at_bounds)

declare label_markup.simps [simp del]

definition line_markup :: "gostring \<Rightarrow> nat option" where
  "line_markup line =
     (case label_markup (CHR ''['') (CHR '']'') line 0 of
        Some col \<Rightarrow> Some col
      | None \<Rightarrow> label_markup (CHR ''{'') (CHR ''}'') line 0)"

definition detectFlowchartUnquotedHTMLLabelMarkup :: "gostring \<Rightarrow> (nat \<times> nat) option" where
  "detectFlowchartUnquotedHTMLLabelMarkup src =
     (let ls = lines_of src; firstLine = TrimSpace (ToLower (hd ls)) in
      if \<not> (HasPrefix firstLine ''flowchart'' \<or> HasPrefix firstLine ''graph'') then None
      else first_line_with 1 line_markup ls)"

section \<open>Characters\<close>

definition smart_quotes :: "gostring list" where
  "smart_quotes = [[CHR 0xE2, CHR 0x80, CHR 0x9C], [CHR 0xE2, CHR 0x80, CHR 0x9D], [CHR 0xE2, CHR 0x80, CHR 0x98], [CHR 0xE2, CHR 0x80, CHR 0x99]]"

definition em_dash :: gostring where "em_dash = [CHR 0xE2, CHR 0x80, CHR 0x94]"

definition en_dash :: gostring where "en_dash = [CHR 0xE2, CHR 0x80, CHR 0x93]"

text \<open>The column and whether it is a quote; otherwise it is a dash that begins an arrow.\<close>

fun smart_column :: "gostring \<Rightarrow> (nat \<times> gostring) list \<Rightarrow> (nat \<times> bool) option" where
  "smart_column line [] = None"
| "smart_column line ((col, r) # rest) =
     (if r \<in> set smart_quotes then Some (col + 1, True)
      else if (r = em_dash \<or> r = en_dash) \<and>
        list_ex (HasPrefix (drop col line)) [em_dash @ ''>'', en_dash @ ''>'', em_dash @ ''->'', en_dash @ ''->'']
      then Some (col + 1, False)
      else smart_column line rest)"

definition scanSmartPunctuation :: "gostring \<Rightarrow> (nat \<times> nat \<times> bool) option" where
  "scanSmartPunctuation src = first_line_with 1 (\<lambda>line. smart_column line (range_string 0 line)) (lines_of src)"

definition findFirstTab :: "gostring \<Rightarrow> (nat \<times> nat) option" where
  "findFirstTab src = first_line_with 1 (\<lambda>line. map_option Suc (Index line [CHR 0x09])) (lines_of src)"

record quote_state =
  qs_single :: bool
  qs_double :: bool
  qs_escaped :: bool
  qs_out :: gostring

definition strip_step :: "gostring \<Rightarrow> quote_state \<Rightarrow> quote_state" where
  "strip_step r q =
     (if qs_escaped q then q\<lparr>qs_escaped := False\<rparr>
      else if r = [CHR 0x5C] \<and> (qs_single q \<or> qs_double q) then q\<lparr>qs_escaped := True\<rparr>
      else if \<not> qs_double q \<and> r = [CHR 0x27] then q\<lparr>qs_single := \<not> qs_single q\<rparr>
      else if \<not> qs_single q \<and> r = [CHR 0x22] then q\<lparr>qs_double := \<not> qs_double q\<rparr>
      else if \<not> qs_single q \<and> \<not> qs_double q then q\<lparr>qs_out := qs_out q @ r\<rparr>
      else q)"

definition stripQuotedText :: "gostring \<Rightarrow> gostring" where
  "stripQuotedText line =
     qs_out (fold strip_step (runes line) \<lparr>qs_single = False, qs_double = False, qs_escaped = False, qs_out = []\<rparr>)"

definition graphviz_line :: "gostring \<Rightarrow> bool" where
  "graphviz_line rawLine =
     (let line = TrimSpace (stripQuotedText rawLine) in
      if line = [] then False
      else let token = up_to_any (ToLower line) ([CHR 0x20, CHR 0x09, CHR 0x0D] @ ''{[=(;,'')
        in token = ''digraph'' \<or> token = ''rankdir'')"

definition detectGraphvizHeader :: "gostring list \<Rightarrow> bool" where
  "detectGraphvizHeader ls = list_ex graphviz_line ls"

definition detectReservedEndToken :: "gostring list \<Rightarrow> bool" where
  "detectReservedEndToken ls = list_ex (\<lambda>line. EqualFold (TrimSpace (stripQuotedText line)) ''end'') (drop 1 ls)"

text \<open>The lines around the reported one, or all of them; the first and the last index.\<close>

definition bracket_window :: "gostring list \<Rightarrow> int \<Rightarrow> nat \<times> nat" where
  "bracket_window ls errLine =
     (let final = length ls - 1 in
      if errLine > 0 then
        let center = min (nat (errLine - 1)) final in (center - 2, min (center + 2) final)
      else (0, final))"

definition detectBracketMismatchNearError :: "gostring list \<Rightarrow> int \<Rightarrow> bool" where
  "detectBracketMismatchNearError ls errLine =
     (if ls = [] then False
      else let (first, final) = bracket_window ls errLine;
               window = map stripQuotedText (take (final + 1 - first) (drop first ls));
               openBrackets = sum_list (map (\<lambda>line. Count line ''['') window);
               closeBrackets = sum_list (map (\<lambda>line. Count line '']'') window)
        in list_ex (\<lambda>line. Contains line ''[['' \<and> Count line '']]'' < Count line ''[['') window \<or>
           (openBrackets + closeBrackets > 0 \<and> openBrackets \<noteq> closeBrackets))"

section \<open>Positions\<close>

text \<open>A reported position lies in the source, and what is there satisfies a predicate on the line and the offset.\<close>

definition points :: "gostring \<Rightarrow> (gostring \<Rightarrow> nat \<Rightarrow> bool) \<Rightarrow> (nat \<times> nat) option \<Rightarrow> bool" where
  "points src P r =
     (case r of
        None \<Rightarrow> True
      | Some (l, c) \<Rightarrow>
          1 \<le> l \<and> l \<le> length (lines_of src) \<and>
          (let line = lines_of src ! (l - 1) in 1 \<le> c \<and> c \<le> length line \<and> P line (c - 1)))"

lemma first_line_with_Some:
  "first_line_with n f ls = Some (l, x) \<longleftrightarrow> (\<exists>i < length ls. l = n + i \<and> f (ls ! i) = Some x \<and> (\<forall>j < i. f (ls ! j) = None))"
proof (induction n f ls rule: first_line_with.induct)
  case (1 n f)
  then show ?case by simp
next
  case (2 n f line rest)
  show ?case
  proof (cases "f line")
    case None
    have "(\<exists>i < length (line # rest). l = n + i \<and> f ((line # rest) ! i) = Some x \<and> (\<forall>j < i. f ((line # rest) ! j) = None)) \<longleftrightarrow>
        (\<exists>i < length rest. l = Suc n + i \<and> f (rest ! i) = Some x \<and> (\<forall>j < i. f (rest ! j) = None))" (is "?L \<longleftrightarrow> ?R")
    proof
      assume ?L
      then obtain i where i: "i < length (line # rest)" "l = n + i" "f ((line # rest) ! i) = Some x" "\<forall>j < i. f ((line # rest) ! j) = None" by blast
      then obtain k where "i = Suc k" using None by (cases i) auto
      then show ?R using i by (intro exI [of _ k]) fastforce
    next
      assume ?R
      then obtain i where i: "i < length rest" "l = Suc n + i" "f (rest ! i) = Some x" "\<forall>j < i. f (rest ! j) = None" by blast
      then show ?L using None by (intro exI [of _ "Suc i"]) (auto simp: less_Suc_eq_0_disj)
    qed
    then show ?thesis using 2 None by simp
  next
    case (Some y)
    have zero: "i = 0" if "\<forall>j < i. f ((line # rest) ! j) = None" for i using that Some by (cases i) auto
    have "(\<exists>i < length (line # rest). l = n + i \<and> f ((line # rest) ! i) = Some x \<and> (\<forall>j < i. f ((line # rest) ! j) = None)) \<longleftrightarrow>
        l = n \<and> f line = Some x" (is "?L \<longleftrightarrow> ?R")
    proof
      assume ?L
      then obtain i where "l = n + i" "f ((line # rest) ! i) = Some x" "i = 0" using zero by blast
      then show ?R by simp
    qed (intro exI [of _ 0]; simp)
    then show ?thesis using Some by auto
  qed
qed

lemma first_line_with_None: "first_line_with n f ls = None \<longleftrightarrow> list_all (\<lambda>line. f line = None) ls"
  by (induction n f ls rule: first_line_with.induct) (auto split: option.split)

text \<open>What a detector finds in a line carries over to the source.\<close>

locale line_detector =
  fixes detect :: "gostring \<Rightarrow> nat option" and marks :: "gostring \<Rightarrow> nat \<Rightarrow> bool"
  assumes detects: "detect line = Some c \<Longrightarrow> 1 \<le> c \<and> c \<le> length line \<and> marks line (c - 1)"
begin

lemma points_there: "points src marks (first_line_with 1 detect (lines_of src))"
proof (cases "first_line_with 1 detect (lines_of src)")
  case (Some lc)
  then obtain l c where "first_line_with 1 detect (lines_of src) = Some (l, c)" "lc = (l, c)" by (cases lc) auto
  then obtain i where "i < length (lines_of src)" "l = 1 + i" "detect (lines_of src ! i) = Some c" "lc = (l, c)"
    unfolding first_line_with_Some by blast
  then show ?thesis using detects Some by (simp add: points_def)
qed (simp add: points_def)

end

lemma HasPrefix_single: "HasPrefix s [c] \<longleftrightarrow> s \<noteq> [] \<and> hd s = c"
  by (cases s) (auto simp: HasPrefix_def)

lemma Index_single: "Index s [c] = (if c \<in> set s then Some (length (takeWhile (\<lambda>x. x \<noteq> c) s)) else None)"
  by (induction s) (auto simp: HasPrefix_single)

lemma Index_single_at: "Index s [c] = Some i \<Longrightarrow> i < length s \<and> s ! i = c"
  by (induction s arbitrary: i) (auto simp: HasPrefix_single split: if_splits)

lemma Contains_single: "Contains s [c] \<longleftrightarrow> c \<in> set s"
  by (induction s) (auto simp: HasPrefix_single)

lemma Count_single: "Count s [c] = length (filter ((=) c) s)"
proof (induction s)
  case Nil
  then show ?case by (simp add: Count.simps)
next
  case (Cons x xs)
  then show ?case by (subst Count.simps) (auto simp: HasPrefix_single)
qed

interpretation tabs: line_detector "\<lambda>line. map_option Suc (Index line [CHR 0x09])" "\<lambda>line i. line ! i = CHR 0x09"
  by (rule line_detector.intro) (auto dest: Index_single_at)

definition odd_pipe :: "gostring \<Rightarrow> nat \<Rightarrow> bool" where
  "odd_pipe line i \<longleftrightarrow> line ! i = CHR ''|'' \<and> odd (length (filter ((=) CHR ''|'') line))"

interpretation edge_labels: line_detector edge_label_column odd_pipe
proof (rule line_detector.intro)
  fix line c assume e: "edge_label_column line = Some c"
  then have odd: "odd (length (filter ((=) CHR ''|'') line))" and "Count line ''|'' \<noteq> 0"
    by (auto simp: edge_label_column_def Let_def Count_single odd_iff_mod_2_eq_one split: if_splits)
  then have "filter ((=) CHR ''|'') line \<noteq> []" by (simp add: Count_single)
  then have "CHR ''|'' \<in> set line" by (auto simp: filter_empty_conv)
  then obtain i where i: "Index line ''|'' = Some i" by (simp add: Index_single)
  then have "c = i + 1" using e by (auto simp: edge_label_column_def Let_def split: if_splits)
  then show "1 \<le> c \<and> c \<le> length line \<and> odd_pipe line (c - 1)"
    using Index_single_at [OF i] odd by (simp add: odd_pipe_def)
qed

definition odd_quote :: "gostring \<Rightarrow> nat \<Rightarrow> bool" where
  "odd_quote line i \<longleftrightarrow> line ! i = CHR 0x22 \<and> odd (count_quotes (runes line))"

interpretation quoted_labels: line_detector lineHasUnterminatedQuotedLabel odd_quote
proof (rule line_detector.intro)
  fix line c assume e: "lineHasUnterminatedQuotedLabel line = Some c"
  then have "CHR 0x22 \<in> set line" and odd: "odd (count_quotes (runes line))"
    by (auto simp: lineHasUnterminatedQuotedLabel_def Contains_single odd_iff_mod_2_eq_one split: if_splits)
  then obtain i where i: "Index line [CHR 0x22] = Some i" by (simp add: Index_single)
  then have "c = i + 1" using e by (auto simp: lineHasUnterminatedQuotedLabel_def split: if_splits)
  then show "1 \<le> c \<and> c \<le> length line \<and> odd_quote line (c - 1)"
    using Index_single_at [OF i] odd by (simp add: odd_quote_def)
qed

text \<open>Valid runes stand at their offsets.\<close>

lemma range_string_at:
  assumes "(k, r) \<in> set (range_string off s)" and "r \<noteq> [CHR 0xEF, CHR 0xBF, CHR 0xBD]"
  shows "off \<le> k \<and> HasPrefix (drop (k - off) s) r \<and> r \<noteq> []"
  using assms(1)
proof (induction off s rule: range_string.induct)
  case (1 off s)
  show ?case
  proof (cases "s = []")
    case True
    then show ?thesis using 1(3) by (simp add: range_string.simps)
  next
    case False
    show ?thesis
    proof (cases "rune_width s")
      case None
      then have "(k, r) \<in> set (range_string (off + 1) (drop 1 s))"
        using 1(3) False assms(2) by (subst (asm) range_string.simps) auto
      then have "off + 1 \<le> k \<and> HasPrefix (drop (k - (off + 1)) (drop 1 s)) r \<and> r \<noteq> []" by (rule 1(1) [OF False None])
      then show ?thesis by (auto simp: Suc_diff_Suc)
    next
      case (Some n)
      note n = rune_width_bounds [OF Some]
      consider "k = off" "r = take n s" | "(k, r) \<in> set (range_string (off + n) (drop n s))"
        using 1(3) False Some by (subst (asm) range_string.simps) auto
      then show ?thesis
      proof cases
        case 1
        then show ?thesis using n False by (auto simp: HasPrefix_def)
      next
        case 2
        then have "off + n \<le> k \<and> HasPrefix (drop (k - (off + n)) (drop n s)) r \<and> r \<noteq> []" by (rule 1(2) [OF False Some])
        then show ?thesis by auto
      qed
    qed
  qed
qed

lemma smart_column_Some:
  "smart_column line rs = Some (c, q) \<Longrightarrow> \<exists>k r. (k, r) \<in> set rs \<and> c = k + 1 \<and> r \<in> set (em_dash # en_dash # smart_quotes)"
  by (induction line rs rule: smart_column.induct) (auto split: if_splits)

definition smart_at :: "gostring \<Rightarrow> nat \<Rightarrow> bool" where
  "smart_at line i \<longleftrightarrow> list_ex (HasPrefix (drop i line)) (em_dash # en_dash # smart_quotes)"

interpretation smart: line_detector "\<lambda>line. map_option fst (smart_column line (range_string 0 line))" smart_at
proof (rule line_detector.intro)
  fix line c assume "map_option fst (smart_column line (range_string 0 line)) = Some c"
  then obtain q where "smart_column line (range_string 0 line) = Some (c, q)" by auto
  from smart_column_Some [OF this] obtain k r
    where r: "(k, r) \<in> set (range_string 0 line)" "c = k + 1" "r \<in> set (em_dash # en_dash # smart_quotes)" by blast
  then have "r \<noteq> [CHR 0xEF, CHR 0xBF, CHR 0xBD]" by (auto simp: em_dash_def en_dash_def smart_quotes_def)
  from range_string_at [OF r(1) this] have at: "HasPrefix (drop k line) r" "r \<noteq> []" by simp_all
  then have "drop k line \<noteq> []" by (auto simp: HasPrefix_def)
  then have "k < length line" by simp
  then show "1 \<le> c \<and> c \<le> length line \<and> smart_at line (c - 1)" using at(1) r(2,3) by (auto simp: smart_at_def list_ex_iff)
qed

lemma first_line_with_map:
  "first_line_with n (\<lambda>x. map_option g (f x)) ls = map_option (\<lambda>(l, x). (l, g x)) (first_line_with n f ls)"
  by (induction n f ls rule: first_line_with.induct) (auto split: option.split)

lemma set_lines_of: "CHR 0x0A \<noteq> c \<Longrightarrow> (\<exists>line \<in> set (lines_of src). c \<in> set line) \<longleftrightarrow> c \<in> set src"
proof -
  assume c: "CHR 0x0A \<noteq> c"
  have "(\<exists>line \<in> set (Split s d). c \<in> set line) \<longleftrightarrow> c \<in> set s" if "d \<noteq> c" for s d
  proof (induction s)
    case (Cons x xs)
    then show ?case using that by (cases "Split xs d") auto
  qed simp
  from this [OF c] show ?thesis by (simp add: lines_of_def)
qed


text \<open>
  The column of markup in a label is counted from the trimmed label: with a blank before the markup it
  names the blank.
\<close>

lemma markup_column_off:
  "let src = ''graph TD'' @ [CHR 0x0A] @ ''A[ <b>x]''
   in detectFlowchartUnquotedHTMLLabelMarkup src = Some (2, 3) \<and> lines_of src ! 1 ! 2 = CHR '' ''"
  by code_simp

end
