(* ===== verification/Syntax_Hints.thy ===== *)
theory Syntax_Hints
  imports Source_Signals Parser_Results Config_Payload "HOL-Library.Product_Lexorder"
begin

text \<open>
  The hints, suggestions and help of a response, \<^verbatim>\<open>internal/api/handler.go\<close>: what the handlers say about
  a source with a syntax error, about a refused configuration and about a type without rules. The functions
  are called with an error only, which is an argument and not a pointer here.
\<close>

section \<open>Hints and help\<close>

record hint_applies_to =
  ha_Line :: int
  ha_Column :: int
  ha_DiagramType :: diagram_type

record response_hint =
  hint_Code :: gostring
  hint_Message :: gostring
  hint_Severity :: gostring
  hint_Confidence :: rat
  hint_AppliesTo :: "hint_applies_to option"
  hint_FixExample :: gostring

record help_suggestion =
  help_Title :: gostring
  help_Explanation :: gostring
  help_WrongExample :: gostring
  help_CorrectExample :: gostring
  help_DocLink :: gostring
  help_FixAction :: gostring

definition applies :: "int \<Rightarrow> int \<Rightarrow> diagram_type \<Rightarrow> hint_applies_to" where
  "applies line column t = \<lparr>ha_Line = line, ha_Column = column, ha_DiagramType = t\<rparr>"

definition appliesToFirstLineWithDiagram :: "diagram_type \<Rightarrow> hint_applies_to" where
  "appliesToFirstLineWithDiagram t = (if t \<noteq> DiagramTypeUnknown \<and> t \<noteq> [] then applies 1 0 t else applies 1 0 [])"

definition appliesToFromLocation :: "int \<Rightarrow> int \<Rightarrow> syntax_error \<Rightarrow> diagram_type \<Rightarrow> hint_applies_to" where
  "appliesToFromLocation line column err t =
     applies (if line \<le> 0 then se_Line err else line) (if column \<le> 0 then se_Column err else column) t"

section \<open>Signals\<close>

record input_signals =
  sig_firstLine :: gostring
  sig_typo :: "gostring \<times> gostring"
  sig_type :: diagram_type
  sig_unsupported :: gostring
  sig_graphviz :: bool
  sig_yaml :: bool
  sig_tab :: "(nat \<times> nat) option"
  sig_singleArrow :: bool
  sig_missingType :: bool
  sig_fence :: bool
  sig_stateKeyword :: bool
  sig_stateError :: bool
  sig_smart :: "(nat \<times> nat \<times> bool) option"
  sig_reservedEnd :: bool
  sig_brackets :: bool
  sig_edgeLabel :: "(nat \<times> nat) option"
  sig_quotedLabel :: "(nat \<times> nat) option"
  sig_markup :: "(nat \<times> nat) option"
  sig_preamble :: bool

definition line_of :: "(nat \<times> nat) option \<Rightarrow> int" where
  "line_of p = (case p of None \<Rightarrow> 0 | Some (l, c) \<Rightarrow> int l)"

definition column_of :: "(nat \<times> nat) option \<Rightarrow> int" where
  "column_of p = (case p of None \<Rightarrow> 0 | Some (l, c) \<Rightarrow> int c)"

definition defaultDiagramTypeForSyntaxError :: "gostring \<Rightarrow> diagram_type" where
  "defaultDiagramTypeForSyntaxError src =
     (let firstLine = TrimSpace (hd (Split src (CHR 0x0A))) in
      if HasPrefix firstLine ''graph'' \<or> HasPrefix firstLine ''flowchart'' then DiagramTypeFlowchart
      else if HasPrefix firstLine ''sequenceDiagram'' then DiagramTypeSequence
      else if HasPrefix firstLine ''classDiagram'' then DiagramTypeClass
      else if HasPrefix firstLine ''erDiagram'' then DiagramTypeER
      else if HasPrefix firstLine ''stateDiagram'' then DiagramTypeState
      else DiagramTypeUnknown)"

definition analyzeInputSignals :: "gostring \<Rightarrow> syntax_error \<Rightarrow> input_signals" where
  "analyzeInputSignals src err =
     (let trimmed = TrimSpace src; ls = lines_of src; firstLine = TrimSpace (hd ls);
          firstDiagramLine = firstRecognizedDiagramLine ls;
          lowerErr = ToLower (se_Message err);
          unsupported = unsupportedDiagramKeywordFromFirstLine firstLine;
          typo = detectDiagramTypeHeaderTypo firstLine;
          flowchart = (HasPrefix firstLine ''flowchart'' \<or> HasPrefix firstLine ''graph'')
      in \<lparr>sig_firstLine = firstLine,
          sig_typo = (case typo of None \<Rightarrow> ([], []) | Some t \<Rightarrow> t),
          sig_type = defaultDiagramTypeForSyntaxError src,
          sig_unsupported = unsupported,
          sig_graphviz = detectGraphvizHeader ls,
          sig_yaml = HasPrefix trimmed ''---'',
          sig_tab = findFirstTab src,
          sig_singleArrow = (flowchart \<and> Contains (ReplaceAll src ''-->'' []) ''->''),
          sig_missingType =
            ((Contains (se_Message err) ''No diagram type'' \<or> Contains (se_Message err) ''Unexpected'') \<and>
             \<not> isDiagramTypeKeyword firstLine \<and> unsupported = [] \<and> typo = None),
          sig_fence = (HasPrefix trimmed [CHR 0x60, CHR 0x60, CHR 0x60] \<or> HasPrefix trimmed ([CHR 0x60, CHR 0x60, CHR 0x60] @ ''mermaid'')),
          sig_stateKeyword = Contains (ToLower src) ''statediagram'',
          sig_stateError =
            (Contains lowerErr ''state'' \<and> (Contains lowerErr ''syntax'' \<or> Contains lowerErr ''parse'' \<or> Contains lowerErr ''expect'')),
          sig_smart = scanSmartPunctuation src,
          sig_reservedEnd = (flowchart \<and> detectReservedEndToken ls),
          sig_brackets = detectBracketMismatchNearError ls (se_Line err),
          sig_edgeLabel = hasFlowchartUnterminatedEdgeLabel src,
          sig_quotedLabel = hasUnterminatedQuotedLabel src,
          sig_markup = detectFlowchartUnquotedHTMLLabelMarkup src,
          sig_preamble = hasProseBeforeFirstDiagramHeader ls firstDiagramLine\<rparr>)"

section \<open>The reported line\<close>

record syntax_context =
  ctx_line :: gostring
  ctx_excerpt :: gostring
  ctx_lineNumber :: int
  ctx_column :: int
  ctx_parserMessage :: gostring

definition reported_line :: "gostring list \<Rightarrow> syntax_error \<Rightarrow> gostring" where
  "reported_line ls err = ls ! nat (se_Line err - 1)"

definition ellipsis :: gostring where "ellipsis = [CHR 0xE2, CHR 0x80, CHR 0xA6]"

text \<open>The runes around a position of a long line.\<close>

definition excerpt_around :: "gostring list \<Rightarrow> nat \<Rightarrow> gostring" where
  "excerpt_around rs pointerIndex =
     (let first = pointerIndex - 30; final = min (pointerIndex + 30) (length rs)
      in (if first > 0 then ellipsis else []) @ concat (take (final - first) (drop first rs)) @
         (if final < length rs then ellipsis else []))"

definition syntaxErrorLineContext :: "gostring \<Rightarrow> syntax_error \<Rightarrow> syntax_context" where
  "syntaxErrorLineContext src err =
     (let ctx = \<lparr>ctx_line = [], ctx_excerpt = [], ctx_lineNumber = se_Line err, ctx_column = 0, ctx_parserMessage = se_Message err\<rparr>;
          ls = lines_of src
      in if se_Line err \<le> 0 \<or> se_Line err > int (length ls) then ctx
         else let line = reported_line ls err; ctx = ctx\<lparr>ctx_line := line\<rparr>; rs = runes line;
                  col = (if se_Column err \<le> 0 then 1 else se_Column err)
           in if rs = [] then ctx
              else let col = (if col > int (length rs) then int (length rs) else col); ctx = ctx\<lparr>ctx_column := col\<rparr>
                in if length rs \<le> 80 then ctx\<lparr>ctx_excerpt := line\<rparr>
                   else ctx\<lparr>ctx_excerpt := excerpt_around rs (nat (col - 1))\<rparr>)"

definition classifySyntaxErrorMessageFallback :: "gostring \<Rightarrow> gostring" where
  "classifySyntaxErrorMessageFallback message =
     (let msg = ToLower message in
      if msg = [] then []
      else if list_ex (Contains msg) [''brkt'', ''bracket'', ''unexpected ]'', ''unexpected [''] then
        ''The parser token suggests a bracket mismatch; verify [] and () pairs in labels and shapes.''
      else if list_ex (Contains msg) [''unexpected <'', ''unexpected '' @ [CHR 0x27] @ ''<'' @ [CHR 0x27], ''expecting '' @ [CHR 0x27] @ ''<'' @ [CHR 0x27], ''unexpected token '' @ [CHR 0x27] @ ''<'' @ [CHR 0x27]] then
        ''The parser flagged '' @ [CHR 0x27] @ ''<'' @ [CHR 0x27] @ ''; wrap HTML-like label text (for example <br/>) in quotes or remove raw markup.''
      else if list_ex (Contains msg) [''unexpected >'', ''unexpected '' @ [CHR 0x27] @ ''>'' @ [CHR 0x27], ''expecting '' @ [CHR 0x27] @ ''>'' @ [CHR 0x27], ''unexpected token '' @ [CHR 0x27] @ ''>'' @ [CHR 0x27]] then
        ''The parser flagged '' @ [CHR 0x27] @ ''>'' @ [CHR 0x27] @ ''; verify arrow operators ('' @ [CHR 0x60] @ ''-->'' @ [CHR 0x60] @ '', '' @ [CHR 0x60] @ ''==>'' @ [CHR 0x60] @ '') and close any angle-bracket markup.''
      else if list_ex (Contains msg) [''unexpected {'', ''unexpected }'', ''expecting '' @ [CHR 0x27] @ ''{'' @ [CHR 0x27], ''expecting '' @ [CHR 0x27] @ ''}'' @ [CHR 0x27]] then
        ''The parser token suggests unmatched braces; ensure each '' @ [CHR 0x27] @ ''{'' @ [CHR 0x27] @ '' and '' @ [CHR 0x27] @ ''}'' @ [CHR 0x27] @ '' pair is balanced around decision nodes/blocks.''
      else if list_ex (Contains msg) [''unexpected )'', ''unexpected ('', ''expecting '' @ [CHR 0x27] @ '')'' @ [CHR 0x27], ''expecting '' @ [CHR 0x27] @ ''('' @ [CHR 0x27]] then
        ''The parser token suggests parenthesis imbalance; confirm shape delimiters are complete.''
      else if list_ex (Contains msg) [''unexpected |'', ''expecting '' @ [CHR 0x27] @ ''|'' @ [CHR 0x27]] then
        ''The parser token suggests edge-label pipe imbalance; each edge label should use both pipes ('' @ [CHR 0x60] @ ''|label|'' @ [CHR 0x60] @ '').''
      else [])"

definition with_fallback :: "gostring \<Rightarrow> syntax_context \<Rightarrow> gostring" where
  "with_fallback message ctx =
     (let tokenAware = classifySyntaxErrorMessageFallback (ctx_parserMessage ctx)
      in if tokenAware \<noteq> [] then message @ '' '' @ tokenAware else message)"

definition genericSyntaxHintMessage :: "syntax_context \<Rightarrow> gostring" where
  "genericSyntaxHintMessage ctx =
     (let message = with_fallback (''Check for incomplete edge definitions, unclosed |label|, and unmatched brackets.'') ctx in
      if ctx_lineNumber ctx \<le> 0 \<or> ctx_column ctx \<le> 0 then message
      else message @ '' Reported location: line '' @ Itoa (ctx_lineNumber ctx) @ '', column '' @ Itoa (ctx_column ctx) @
        (if ctx_excerpt ctx \<noteq> [] then '' near '' @ [CHR 0x60] @ ctx_excerpt ctx @ [CHR 0x60] @ ''.'' else ''.''))"

definition genericSyntaxFixAction :: "syntax_context \<Rightarrow> gostring" where
  "genericSyntaxFixAction ctx =
     (let message = with_fallback (''Review the line near the reported syntax-error and correct edge operators, delimiters, and required diagram keywords.'') ctx in
      if ctx_lineNumber ctx \<le> 0 \<or> ctx_column ctx \<le> 0 then message
      else message @ '' Check near column '' @ Itoa (ctx_column ctx) @ '' on line '' @ Itoa (ctx_lineNumber ctx) @
        (if ctx_excerpt ctx \<noteq> [] then '' ('' @ [CHR 0x60] @ ctx_excerpt ctx @ [CHR 0x60] @ '').'' else ''.''))"

section \<open>Hints for a syntax error\<close>

text \<open>The hints in the order of the code, each with its condition.\<close>

definition hint_table :: "input_signals \<Rightarrow> syntax_error \<Rightarrow> (bool \<times> response_hint) list" where
  "hint_table sg err =
    [(sig_graphviz sg, \<lparr>hint_Code = ''graphviz_syntax_detected'',
       hint_Message = ''This looks like Graphviz syntax. Use Mermaid syntax instead: '' @ [CHR 0x27] @ ''flowchart TD'' @ [CHR 0x27] @ '' for directed graphs.'',
       hint_Severity = ''warning'', hint_Confidence = 99 / 100,
       hint_AppliesTo = Some (applies 0 0 (sig_type sg)),
       hint_FixExample = ''flowchart TD'' @ [CHR 0x0A] @ ''  A --> B''\<rparr>),
     (sig_yaml sg, \<lparr>hint_Code = ''yaml_frontmatter_detected'',
       hint_Message = ''Remove YAML frontmatter (---); Mermaid code should start directly with the diagram type.'',
       hint_Severity = ''warning'', hint_Confidence = 95 / 100,
       hint_AppliesTo = Some (applies 1 0 (sig_type sg)),
       hint_FixExample = ''flowchart TD'' @ [CHR 0x0A] @ ''  A --> B''\<rparr>),
     (sig_tab sg \<noteq> None, \<lparr>hint_Code = ''tab_indentation_detected'',
       hint_Message = ''Replace tabs with spaces (Mermaid uses space indentation).'',
       hint_Severity = ''info'', hint_Confidence = 98 / 100,
       hint_AppliesTo = Some (appliesToFromLocation (line_of (sig_tab sg)) (column_of (sig_tab sg)) err (sig_type sg)),
       hint_FixExample = ''    A --> B''\<rparr>),
     (sig_singleArrow sg, \<lparr>hint_Code = ''flowchart_arrow_operator_detected'',
       hint_Message = ''Use '' @ [CHR 0x27] @ ''-->'' @ [CHR 0x27] @ '' for flowchart connections, not '' @ [CHR 0x27] @ ''->'' @ [CHR 0x27] @ ''.'',
       hint_Severity = ''warning'', hint_Confidence = 97 / 100,
       hint_AppliesTo = Some (applies (se_Line err) (se_Column err) (sig_type sg)),
       hint_FixExample = ''A --> B''\<rparr>),
     (sig_fence sg, \<lparr>hint_Code = ''markdown_fence_detected'',
       hint_Message = ''Remove Markdown code fences ('' @ [CHR 0x60, CHR 0x60, CHR 0x60] @ '' or '' @ [CHR 0x60, CHR 0x60, CHR 0x60] @ ''mermaid); send raw Mermaid text only.'',
       hint_Severity = ''warning'', hint_Confidence = 99 / 100,
       hint_AppliesTo = Some (applies 1 0 (sig_type sg)),
       hint_FixExample = ''flowchart TD'' @ [CHR 0x0A] @ ''  A --> B''\<rparr>),
     (sig_preamble sg, \<lparr>hint_Code = ''non_mermaid_preamble_detected'',
       hint_Message = ''Remove descriptive prose/markdown before the diagram. Start line 1 with a Mermaid diagram type keyword.'',
       hint_Severity = ''warning'', hint_Confidence = 96 / 100,
       hint_AppliesTo = Some (applies 1 0 (sig_type sg)),
       hint_FixExample = ''flowchart TD'' @ [CHR 0x0A] @ ''  A --> B''\<rparr>),
     (sig_stateKeyword sg \<and> sig_stateError sg, \<lparr>hint_Code = ''state_diagram_variant_migration'',
       hint_Message = ''State diagram syntax mismatch detected. Try '' @ [CHR 0x60] @ ''stateDiagram-v2'' @ [CHR 0x60] @ '' and Mermaid state transitions like '' @ [CHR 0x60] @ ''[*] --> Idle'' @ [CHR 0x60] @ ''.'',
       hint_Severity = ''warning'', hint_Confidence = 96 / 100,
       hint_AppliesTo = Some (applies 0 0 DiagramTypeState),
       hint_FixExample = ''stateDiagram-v2'' @ [CHR 0x0A] @ ''  [*] --> Idle''\<rparr>),
     (sig_smart sg \<noteq> None, \<lparr>hint_Code = ''smart_punctuation_detected'',
       hint_Message = ''Replace smart quotes/dashes with plain ASCII characters ('' @ [CHR 0x22, CHR 0x27] @ '', -, -->).'',
       hint_Severity = ''warning'', hint_Confidence = 98 / 100,
       hint_AppliesTo = Some (appliesToFromLocation (line_of (map_option (\<lambda>(l, c, _). (l, c)) (sig_smart sg))) (column_of (map_option (\<lambda>(l, c, _). (l, c)) (sig_smart sg))) err (sig_type sg)),
       hint_FixExample = ''A --> B'' @ [CHR 0x0A] @ ''C['' @ [CHR 0x22] @ ''Quoted label'' @ [CHR 0x22] @ '']''\<rparr>),
     (sig_reservedEnd sg, \<lparr>hint_Code = ''flowchart_reserved_end_keyword'',
       hint_Message = [CHR 0x60] @ ''end'' @ [CHR 0x60] @ '' is reserved in flowcharts. If used as a node label/id, rename it (for example '' @ [CHR 0x60] @ ''EndNode'' @ [CHR 0x60] @ '').'',
       hint_Severity = ''warning'', hint_Confidence = 92 / 100,
       hint_AppliesTo = Some (applies 0 0 DiagramTypeFlowchart),
       hint_FixExample = ''flowchart TD'' @ [CHR 0x0A] @ ''  Start --> EndNode''\<rparr>),
     (sig_brackets sg, \<lparr>hint_Code = ''malformed_label_brackets'',
       hint_Message = ''Unbalanced label delimiters detected. Check that every '' @ [CHR 0x27] @ ''['' @ [CHR 0x27] @ '' has a matching '' @ [CHR 0x27] @ '']'' @ [CHR 0x27] @ ''.'',
       hint_Severity = ''warning'', hint_Confidence = 91 / 100,
       hint_AppliesTo = Some (applies (se_Line err) (se_Column err) (sig_type sg)),
       hint_FixExample = ''A[Start] --> B[End]''\<rparr>),
     (sig_edgeLabel sg \<noteq> None, \<lparr>hint_Code = ''unterminated_edge_label'',
       hint_Message = ''Edge labels must be wrapped with both pipes, e.g. '' @ [CHR 0x60] @ ''A -->|No| B'' @ [CHR 0x60] @ ''.'',
       hint_Severity = ''warning'', hint_Confidence = 96 / 100,
       hint_AppliesTo = Some (appliesToFromLocation (line_of (sig_edgeLabel sg)) (column_of (sig_edgeLabel sg)) err (sig_type sg)),
       hint_FixExample = ''Decision -->|No| Retry''\<rparr>),
     (sig_quotedLabel sg \<noteq> None, \<lparr>hint_Code = ''unterminated_quoted_label'',
       hint_Message = ''Quoted labels must close with a matching quote on the same line (escaped quotes like '' @ [CHR 0x5C, CHR 0x22] @ '' are ignored).'',
       hint_Severity = ''warning'', hint_Confidence = 95 / 100,
       hint_AppliesTo = Some (appliesToFromLocation (line_of (sig_quotedLabel sg)) (column_of (sig_quotedLabel sg)) err (sig_type sg)),
       hint_FixExample = ''A['' @ [CHR 0x22] @ ''Start'' @ [CHR 0x22] @ ''] --> B'' @ [CHR 0x0A] @ ''A -->|'' @ [CHR 0x22] @ ''Yes'' @ [CHR 0x22] @ ''| B''\<rparr>),
     (sig_markup sg \<noteq> None, \<lparr>hint_Code = ''html_label_markup_detected'',
       hint_Message = ''Node labels with HTML-like markup (for example <br/> or <tag>) should be wrapped in quotes.'',
       hint_Severity = ''warning'', hint_Confidence = 97 / 100,
       hint_AppliesTo = Some (appliesToFromLocation (line_of (sig_markup sg)) (column_of (sig_markup sg)) err (sig_type sg)),
       hint_FixExample = ''flowchart TD'' @ [CHR 0x0A] @ ''  C2{'' @ [CHR 0x22] @ ''Has it been<br/>~15 days?'' @ [CHR 0x22] @ ''}''\<rparr>),
     (sig_unsupported sg = ''gantt'', \<lparr>hint_Code = ''unsupported_diagram_type_gantt'',
       hint_Message = [CHR 0x60] @ ''gantt'' @ [CHR 0x60] @ '' diagram parsing is currently unavailable in merm8. Consider using '' @ [CHR 0x60] @ ''flowchart'' @ [CHR 0x60] @ '' for task dependencies or '' @ [CHR 0x60] @ ''sequenceDiagram'' @ [CHR 0x60] @ '' for timeline-style interactions.'',
       hint_Severity = ''warning'', hint_Confidence = 99 / 100,
       hint_AppliesTo = Some (appliesToFirstLineWithDiagram (sig_type sg)),
       hint_FixExample = ''flowchart TD'' @ [CHR 0x0A] @ ''  Plan --> Build'' @ [CHR 0x0A] @ ''  Build --> Launch''\<rparr>),
     (sig_unsupported sg = ''pie'', \<lparr>hint_Code = ''unsupported_diagram_type_pie'',
       hint_Message = [CHR 0x60] @ ''pie'' @ [CHR 0x60] @ '' diagram parsing is currently unavailable in merm8. Consider a '' @ [CHR 0x60] @ ''flowchart'' @ [CHR 0x60] @ '' (or '' @ [CHR 0x60] @ ''sequenceDiagram'' @ [CHR 0x60] @ '' when describing interactions) as a supported substitute.'',
       hint_Severity = ''warning'', hint_Confidence = 99 / 100,
       hint_AppliesTo = Some (appliesToFirstLineWithDiagram (sig_type sg)),
       hint_FixExample = ''flowchart TD'' @ [CHR 0x0A] @ ''  Total --> SegmentA'' @ [CHR 0x0A] @ ''  Total --> SegmentB''\<rparr>),
     (snd (sig_typo sg) \<noteq> [], \<lparr>hint_Code = ''diagram_type_header_typo'',
       hint_Message = ''Line 1 diagram type header looks malformed: '' @ [CHR 0x60] @ fst (sig_typo sg) @ [CHR 0x60] @ '' -> '' @ [CHR 0x60] @ snd (sig_typo sg) @ [CHR 0x60] @ ''.'',
       hint_Severity = ''warning'', hint_Confidence = 99 / 100,
       hint_AppliesTo = Some (applies 1 0 []),
       hint_FixExample = snd (sig_typo sg) @ [CHR 0x0A] @ ''  A --> B''\<rparr>),
     (sig_missingType sg, \<lparr>hint_Code = ''missing_diagram_type_keyword'',
       hint_Message = ''Start your diagram with a type keyword: '' @ [CHR 0x27] @ ''flowchart TD'' @ [CHR 0x27] @ '', '' @ [CHR 0x27] @ ''sequenceDiagram'' @ [CHR 0x27] @ '', '' @ [CHR 0x27] @ ''classDiagram'' @ [CHR 0x27] @ '', '' @ [CHR 0x27] @ ''erDiagram'' @ [CHR 0x27] @ '', or '' @ [CHR 0x27] @ ''stateDiagram-v2'' @ [CHR 0x27] @ ''.'',
       hint_Severity = ''warning'', hint_Confidence = 90 / 100,
       hint_AppliesTo = Some (applies 1 0 []),
       hint_FixExample = ''flowchart TD'' @ [CHR 0x0A] @ ''  A --> B''\<rparr>)]"

definition dedupe_hints :: "response_hint list \<Rightarrow> response_hint list" where
  "dedupe_hints hints =
     snd (fold (\<lambda>hint (seenCodes, deduped).
            if map_of seenCodes (hint_Code hint) \<noteq> None then (seenCodes, deduped)
            else (set_add (hint_Code hint) seenCodes, deduped @ [hint])) hints ([], []))"

definition generic_hint :: "gostring \<Rightarrow> syntax_error \<Rightarrow> diagram_type \<Rightarrow> response_hint" where
  "generic_hint src err t =
     \<lparr>hint_Code = ''generic_syntax_error'', hint_Message = genericSyntaxHintMessage (syntaxErrorLineContext src err),
      hint_Severity = ''warning'', hint_Confidence = 70 / 100,
      hint_AppliesTo = Some (applies (se_Line err) (se_Column err) t),
      hint_FixExample = ''flowchart TD'' @ [CHR 0x0A] @ ''  A --> B''\<rparr>"

text \<open>The stable sort by falling confidence, then by code.\<close>

definition hint_rank :: "response_hint \<Rightarrow> rat \<times> gostring" where
  "hint_rank h = (- hint_Confidence h, hint_Code h)"

definition hintsForSyntaxError :: "syntax_error \<Rightarrow> gostring \<Rightarrow> response_hint list" where
  "hintsForSyntaxError err src =
     (let signals = analyzeInputSignals src err;
          hints = map snd (filter fst (hint_table signals err));
          deduped = dedupe_hints (sort_key hint_rank hints)
      in if deduped = [] then [generic_hint src err (sig_type signals)] else deduped)"

definition suggestionsFromHints :: "response_hint list \<Rightarrow> gostring list" where
  "suggestionsFromHints hints = map hint_Message hints"

section \<open>Help\<close>

definition help_for :: "input_signals \<Rightarrow> syntax_context \<Rightarrow> gostring list \<Rightarrow> syntax_error \<Rightarrow> help_suggestion" where
  "help_for sg ctx ls err =
    (     if sig_graphviz sg then
      \<lparr>help_Title = ''Graphviz syntax detected'',
       help_Explanation = ''This looks like Graphviz (GraphQL visualization) syntax. merm8 uses Mermaid diagrams, which have different syntax.'',
       help_WrongExample = ''digraph G {'' @ [CHR 0x0A] @ ''  A -> B -> C'' @ [CHR 0x0A] @ ''}'',
       help_CorrectExample = ''flowchart TD'' @ [CHR 0x0A] @ ''  A --> B --> C'',
       help_DocLink = ''#common-mistakes'',
       help_FixAction = ''Replace Graphviz syntax (digraph, rankdir, etc.) with Mermaid diagram type keywords (flowchart, sequenceDiagram, etc.)''\<rparr>
     else if sig_yaml sg then
      \<lparr>help_Title = ''YAML frontmatter not supported'',
       help_Explanation = ''Mermaid code should not include YAML frontmatter. Remove the --- lines and start directly with the diagram type.'',
       help_WrongExample = ''---'' @ [CHR 0x0A] @ ''title: My Diagram'' @ [CHR 0x0A] @ ''---'' @ [CHR 0x0A] @ ''flowchart TD'' @ [CHR 0x0A] @ ''  A --> B'',
       help_CorrectExample = ''flowchart TD'' @ [CHR 0x0A] @ ''  A --> B'',
       help_DocLink = ''#yaml-frontmatter'',
       help_FixAction = ''Remove the YAML frontmatter (--- lines) from the start of your diagram''\<rparr>
     else if sig_fence sg then
      \<lparr>help_Title = ''Markdown code fence detected'',
       help_Explanation = ''The analyzer expects Mermaid source only, not Markdown fences. Remove surrounding '' @ [CHR 0x60, CHR 0x60, CHR 0x60] @ '' or '' @ [CHR 0x60, CHR 0x60, CHR 0x60] @ ''mermaid lines.'',
       help_WrongExample = [CHR 0x60, CHR 0x60, CHR 0x60] @ ''mermaid'' @ [CHR 0x0A] @ ''flowchart TD'' @ [CHR 0x0A] @ ''  A --> B'' @ [CHR 0x0A, CHR 0x60, CHR 0x60, CHR 0x60],
       help_CorrectExample = ''flowchart TD'' @ [CHR 0x0A] @ ''  A --> B'',
       help_DocLink = ''#common-mistakes'',
       help_FixAction = ''Remove Markdown fences before sending Mermaid to /v1/analyze or /v1/analyze/raw''\<rparr>
     else if sig_preamble sg then
      \<lparr>help_Title = ''Non-Mermaid preamble detected'',
       help_Explanation = ''Remove prose or Markdown list text before the diagram. Mermaid input should start with a diagram type keyword on line 1.'',
       help_WrongExample = ''This diagram shows approval routing.'' @ [CHR 0x0A] @ ''- Start at Intake'' @ [CHR 0x0A] @ ''flowchart TD'' @ [CHR 0x0A] @ ''  A --> B'',
       help_CorrectExample = ''flowchart TD'' @ [CHR 0x0A] @ ''  A --> B'',
       help_DocLink = ''#diagram-types'',
       help_FixAction = ''Delete descriptive preamble lines and put the Mermaid diagram type ('' @ [CHR 0x60] @ ''flowchart'' @ [CHR 0x60] @ '', '' @ [CHR 0x60] @ ''sequenceDiagram'' @ [CHR 0x60] @ '', etc.) on line 1''\<rparr>
     else if sig_smart sg \<noteq> None then
      \<lparr>help_Title = ''Smart punctuation detected'',
       help_Explanation = ''Copied text can replace ASCII quotes/dashes with typographic characters that Mermaid cannot parse in operators or labels.'',
       help_WrongExample = ''flowchart TD'' @ [CHR 0x0A] @ ''  A '' @ [CHR 0xE2, CHR 0x80, CHR 0x94] @ ''> B'' @ [CHR 0x0A] @ ''  B['' @ [CHR 0xE2, CHR 0x80, CHR 0x9C] @ ''Quoted'' @ [CHR 0xE2, CHR 0x80, CHR 0x9D] @ '']'',
       help_CorrectExample = ''flowchart TD'' @ [CHR 0x0A] @ ''  A --> B'' @ [CHR 0x0A] @ ''  B['' @ [CHR 0x22] @ ''Quoted'' @ [CHR 0x22] @ '']'',
       help_DocLink = ''#arrow-syntax'',
       help_FixAction = ''Replace typographic quotes/dashes with plain ASCII characters''\<rparr>
     else if sig_quotedLabel sg \<noteq> None then
      \<lparr>help_Title = ''Unterminated quoted label'',
       help_Explanation = ''A label opened with a double quote but did not close on the same line. Mermaid labels and edge text require balanced quotes.'',
       help_WrongExample = ''flowchart TD'' @ [CHR 0x0A] @ ''  A['' @ [CHR 0x22] @ ''Start] --> B'' @ [CHR 0x0A] @ ''  A -->|'' @ [CHR 0x22] @ ''Yes| B'',
       help_CorrectExample = ''flowchart TD'' @ [CHR 0x0A] @ ''  A['' @ [CHR 0x22] @ ''Start'' @ [CHR 0x22] @ ''] --> B'' @ [CHR 0x0A] @ ''  A -->|'' @ [CHR 0x22] @ ''Yes'' @ [CHR 0x22] @ ''| B'',
       help_DocLink = ''#common-mistakes'',
       help_FixAction = ''Close each opening double quote in node labels and edge text, keeping escaped quotes as '' @ [CHR 0x5C, CHR 0x22] @ '' when needed''\<rparr>
     else if sig_markup sg \<noteq> None then
      \<lparr>help_Title = ''Quote labels containing HTML-like markup'',
       help_Explanation = ''Flowchart node labels that include markup such as <br> or <br/> should be wrapped in quotes inside brackets/braces.'',
       help_WrongExample = ''flowchart TD'' @ [CHR 0x0A] @ ''  C2{Has it been<br/>~15 days?}'',
       help_CorrectExample = ''flowchart TD'' @ [CHR 0x0A] @ ''  C2{'' @ [CHR 0x22] @ ''Has it been<br/>~15 days?'' @ [CHR 0x22] @ ''}'',
       help_DocLink = ''#common-mistakes'',
       help_FixAction = ''Wrap the full label text containing <...> in quotes (for example C2{'' @ [CHR 0x22] @ ''Has it been<br/>~15 days?'' @ [CHR 0x22] @ ''})''\<rparr>
     else if sig_stateKeyword sg \<and> sig_stateError sg then
      \<lparr>help_Title = ''State diagram variant mismatch'',
       help_Explanation = ''Your parser error points to state syntax. Migrate to '' @ [CHR 0x60] @ ''stateDiagram-v2'' @ [CHR 0x60] @ '' and standard Mermaid state transitions.'',
       help_WrongExample = ''stateDiagram'' @ [CHR 0x0A] @ ''  state idle'',
       help_CorrectExample = ''stateDiagram-v2'' @ [CHR 0x0A] @ ''  [*] --> Idle'',
       help_DocLink = ''#diagram-types'',
       help_FixAction = ''Switch to '' @ [CHR 0x60] @ ''stateDiagram-v2'' @ [CHR 0x60] @ '' style syntax for state diagrams''\<rparr>
     else if snd (sig_typo sg) \<noteq> [] then
      \<lparr>help_Title = ''Diagram type header typo on line 1'',
       help_Explanation = ''The first-line Mermaid diagram type is malformed. Use the canonical keyword '' @ [CHR 0x60] @ snd (sig_typo sg) @ [CHR 0x60] @ ''.'',
       help_WrongExample = fst (sig_typo sg) @ [CHR 0x0A] @ ''  A --> B'',
       help_CorrectExample = snd (sig_typo sg) @ [CHR 0x0A] @ ''  A --> B'',
       help_DocLink = ''#diagram-types'',
       help_FixAction = ''On line 1, replace '' @ [CHR 0x60] @ fst (sig_typo sg) @ [CHR 0x60] @ '' with '' @ [CHR 0x60] @ snd (sig_typo sg) @ [CHR 0x60] @ ''.''\<rparr>
     else if sig_unsupported sg = ''gantt'' then
      \<lparr>help_Title = ''Unsupported Mermaid diagram type: gantt'',
       help_Explanation = ''The parser currently does not support Mermaid '' @ [CHR 0x60] @ ''gantt'' @ [CHR 0x60] @ '' diagrams in merm8. Convert this into a supported type such as '' @ [CHR 0x60] @ ''flowchart'' @ [CHR 0x60] @ '' (for dependencies) or '' @ [CHR 0x60] @ ''sequenceDiagram'' @ [CHR 0x60] @ '' (for timeline interactions).'',
       help_WrongExample = ''gantt'' @ [CHR 0x0A] @ ''  title Release Plan'' @ [CHR 0x0A] @ ''  section Build'' @ [CHR 0x0A] @ ''  Ship :done, 2026-01-01, 7d'',
       help_CorrectExample = ''flowchart TD'' @ [CHR 0x0A] @ ''  Plan --> Build'' @ [CHR 0x0A] @ ''  Build --> Ship'',
       help_DocLink = ''#diagram-types'',
       help_FixAction = ''Replace the first-line '' @ [CHR 0x60] @ ''gantt'' @ [CHR 0x60] @ '' keyword with a supported Mermaid type ('' @ [CHR 0x60] @ ''flowchart'' @ [CHR 0x60] @ '' or '' @ [CHR 0x60] @ ''sequenceDiagram'' @ [CHR 0x60] @ '') and rewrite the body accordingly''\<rparr>
     else if sig_unsupported sg = ''pie'' then
      \<lparr>help_Title = ''Unsupported Mermaid diagram type: pie'',
       help_Explanation = ''The parser currently does not support Mermaid '' @ [CHR 0x60] @ ''pie'' @ [CHR 0x60] @ '' diagrams in merm8. Use a supported substitute such as '' @ [CHR 0x60] @ ''flowchart'' @ [CHR 0x60] @ '' (or '' @ [CHR 0x60] @ ''sequenceDiagram'' @ [CHR 0x60] @ '' for interaction-focused narratives).'',
       help_WrongExample = ''pie'' @ [CHR 0x0A] @ ''  title Revenue'' @ [CHR 0x0A] @ ''  '' @ [CHR 0x22] @ ''Product A'' @ [CHR 0x22] @ '' : 60'' @ [CHR 0x0A] @ ''  '' @ [CHR 0x22] @ ''Product B'' @ [CHR 0x22] @ '' : 40'',
       help_CorrectExample = ''flowchart TD'' @ [CHR 0x0A] @ ''  Revenue --> ProductA'' @ [CHR 0x0A] @ ''  Revenue --> ProductB'',
       help_DocLink = ''#diagram-types'',
       help_FixAction = ''Replace the first-line '' @ [CHR 0x60] @ ''pie'' @ [CHR 0x60] @ '' keyword with a supported Mermaid type and model the same information with supported syntax''\<rparr>
     else if sig_tab sg \<noteq> None then
      (let probableLine = (if 0 < se_Line err \<and> se_Line err \<le> int (length ls) then reported_line ls err else ''    A --> B'') in
      \<lparr>help_Title = ''Indent with spaces, not tabs'',
       help_Explanation = ''Mermaid requires space indentation. Tabs in diagram syntax cause parse errors.'',
       help_WrongExample = probableLine,
       help_CorrectExample = ReplaceAll probableLine [CHR 0x09] ''    '',
       help_DocLink = ''#indentation'',
       help_FixAction = ''Replace all tab characters with 4 spaces for indentation''\<rparr>)
     else if 0 < se_Line err \<and> se_Line err \<le> int (length ls) \<and> Contains (reported_line ls err) ''->'' \<and> \<not> Contains (reported_line ls err) ''-->'' then
      \<lparr>help_Title = ''Arrow operator syntax'',
       help_Explanation = ''Mermaid requires '' @ [CHR 0x27] @ ''-->'' @ [CHR 0x27] @ '' (double dash) for flowchart connections. Single '' @ [CHR 0x27] @ ''->'' @ [CHR 0x27] @ '' is not valid.'',
       help_WrongExample = ''Process -> Decision'',
       help_CorrectExample = ''Process --> Decision'',
       help_DocLink = ''#arrow-syntax'',
       help_FixAction = ''Replace '' @ [CHR 0x27] @ ''->'' @ [CHR 0x27] @ '' with '' @ [CHR 0x27] @ ''-->'' @ [CHR 0x27] @ '' on line '' @ Itoa (se_Line err)\<rparr>
     else if sig_missingType sg \<and> sig_firstLine sg \<noteq> [] then
      \<lparr>help_Title = ''Missing diagram type keyword'',
       help_Explanation = ''Every Mermaid diagram must start with a type keyword (flowchart, sequenceDiagram, etc.) on the first line.'',
       help_WrongExample = ''A --> B'' @ [CHR 0x0A] @ ''B --> C'',
       help_CorrectExample = ''flowchart TD'' @ [CHR 0x0A] @ ''  A --> B'' @ [CHR 0x0A] @ ''  B --> C'',
       help_DocLink = ''#diagram-types'',
       help_FixAction = ''Add a diagram type keyword to the first line: '' @ [CHR 0x27] @ ''flowchart TD'' @ [CHR 0x27] @ '', '' @ [CHR 0x27] @ ''sequenceDiagram'' @ [CHR 0x27] @ '', '' @ [CHR 0x27] @ ''classDiagram'' @ [CHR 0x27] @ '', '' @ [CHR 0x27] @ ''erDiagram'' @ [CHR 0x27] @ '', or '' @ [CHR 0x27] @ ''stateDiagram-v2'' @ [CHR 0x27]\<rparr>
     else
      \<lparr>help_Title = ''Invalid Mermaid syntax detected'',
       help_Explanation = genericSyntaxHintMessage ctx,
       help_WrongExample = ''A -->|No Retry'' @ [CHR 0x0A] @ ''B[Start'',
       help_CorrectExample = ''flowchart TD'' @ [CHR 0x0A] @ ''  A -->|No| Retry'' @ [CHR 0x0A] @ ''  B[Start]'',
       help_DocLink = ''#common-mistakes'',
       help_FixAction = genericSyntaxFixAction ctx\<rparr>)"

definition helpForSyntaxError :: "syntax_error \<Rightarrow> gostring \<Rightarrow> help_suggestion" where
  "helpForSyntaxError err src = help_for (analyzeInputSignals src err) (syntaxErrorLineContext src err) (lines_of src) err"

section \<open>Hints for a configuration and a type\<close>

definition hintForUnsupportedDiagramType :: "diagram_type \<Rightarrow> response_hint" where
  "hintForUnsupportedDiagramType diagramType =
     \<lparr>hint_Code = ''unsupported_diagram_type'', hint_Message = ''diagram parsed successfully but linting is not available for this Mermaid type yet'',
      hint_Severity = ''info'', hint_Confidence = 1, hint_AppliesTo = Some (applies 0 0 diagramType),
      hint_FixExample = ''Use a lint-supported Mermaid type (for example: flowchart, classDiagram, or stateDiagram-v2) when lint checks are required.''\<rparr>"

definition hintsForConfigValidationError :: "validation_error \<Rightarrow> response_hint list" where
  "hintsForConfigValidationError validErr =
     (      if ve_Code validErr = ''invalid_option'' then
       [\<lparr>hint_Code = ''config_invalid_option_value'',
       hint_Message = ''configuration contains an invalid option value'',
       hint_Severity = ''error'', hint_Confidence = 1,
       hint_AppliesTo = None,
       hint_FixExample = ''Update the value at error.details.path to a documented type/range; for example, set '' @ [CHR 0x22] @ ''limit'' @ [CHR 0x22] @ '': 3 and '' @ [CHR 0x22] @ ''severity'' @ [CHR 0x22] @ '': '' @ [CHR 0x22] @ ''warning'' @ [CHR 0x22] @ ''.''\<rparr>]
      else if ve_Code validErr = ''unknown_option'' then
       [\<lparr>hint_Code = ''config_unknown_option'',
       hint_Message = ''configuration contains an unknown option key'',
       hint_Severity = ''error'', hint_Confidence = 1,
       hint_AppliesTo = None,
       hint_FixExample = ''Remove the unknown key at error.details.path and use one of error.details.supported option names.''\<rparr>]
      else if ve_Code validErr = ''unknown_rule'' then
       [\<lparr>hint_Code = ''config_unknown_rule'',
       hint_Message = ''configuration contains an unknown rule ID'',
       hint_Severity = ''error'', hint_Confidence = 1,
       hint_AppliesTo = None,
       hint_FixExample = ''Use one of the supported rule names listed in error.details.supported. See docs/examples/rule-suppressions.md for rule reference.''\<rparr>]
      else if ve_Code validErr = ''invalid_suppression_selector'' then
       [\<lparr>hint_Code = ''config_invalid_suppression_selector'',
       hint_Message = ''configuration contains an invalid suppression selector format'',
       hint_Severity = ''error'', hint_Confidence = 1,
       hint_AppliesTo = None,
       hint_FixExample = ''Correct the selector to one of the valid formats shown in error.details.hint. Example: node:MyNodeID or rule:max-fanout.''\<rparr>]
      else if ve_Code validErr = ''unsupported_schema_version'' then
       [\<lparr>hint_Code = ''config_unsupported_schema_version'',
       hint_Message = ''configuration schema-version is not supported'',
       hint_Severity = ''error'', hint_Confidence = 1,
       hint_AppliesTo = None,
       hint_FixExample = ''Set '' @ [CHR 0x22] @ ''schema-version'' @ [CHR 0x22] @ '' to a value listed in error.details.supported (for example, '' @ [CHR 0x22] @ ''v1'' @ [CHR 0x22] @ '').''\<rparr>]
      else if ve_Code validErr = ''deprecated_config_format'' then
       [\<lparr>hint_Code = ''config_deprecated_format'',
       hint_Message = ''configuration uses a deprecated format'',
       hint_Severity = ''warning'', hint_Confidence = 1,
       hint_AppliesTo = None,
       hint_FixExample = ''Migrate to the versioned shape: {'' @ [CHR 0x22] @ ''schema-version'' @ [CHR 0x22] @ '':'' @ [CHR 0x22] @ ''v1'' @ [CHR 0x22] @ '','' @ [CHR 0x22] @ ''rules'' @ [CHR 0x22] @ '':{...}}.''\<rparr>]
      else [])"

definition helpForConfigError :: "validation_error \<Rightarrow> help_suggestion option" where
  "helpForConfigError validErr =
     (if ve_Code validErr = ''unknown_rule'' then
        Some \<lparr>help_Title = ''Unknown rule in config'',
       help_Explanation = ''The rule name you specified is not recognized. Each rule requires a valid rule ID. Built-in rules can be referenced as bare IDs (e.g. max-fanout) or with the core/ namespace (e.g. core/max-fanout).'',
       help_WrongExample = [CHR 0x22] @ ''rules'' @ [CHR 0x22] @ '': {'' @ [CHR 0x22] @ ''max-fanout'' @ [CHR 0x22] @ '': {}}'',
       help_CorrectExample = [CHR 0x22] @ ''rules'' @ [CHR 0x22] @ '': {'' @ [CHR 0x22] @ ''core/max-fanout'' @ [CHR 0x22] @ '': {'' @ [CHR 0x22] @ ''limit'' @ [CHR 0x22] @ '': 3}}'',
       help_DocLink = [],
       help_FixAction = ''Use GET /v1/rules to discover available rule IDs''\<rparr>
      else if ve_Code validErr = ''invalid_option'' \<and> Contains (ve_Message validErr) ''config must be object'' then
        Some \<lparr>help_Title = ''Config must be an object'',
       help_Explanation = ''The config parameter should be a JSON object, not a string, array, or primitive value.'',
       help_WrongExample = [CHR 0x22] @ ''config'' @ [CHR 0x22] @ '': '' @ [CHR 0x22] @ ''invalid'' @ [CHR 0x22],
       help_CorrectExample = [CHR 0x22] @ ''config'' @ [CHR 0x22] @ '': {'' @ [CHR 0x22] @ ''schema-version'' @ [CHR 0x22] @ '': '' @ [CHR 0x22] @ ''v1'' @ [CHR 0x22] @ '', '' @ [CHR 0x22] @ ''rules'' @ [CHR 0x22] @ '': {'' @ [CHR 0x22] @ ''max-fanout'' @ [CHR 0x22] @ '': {'' @ [CHR 0x22] @ ''limit'' @ [CHR 0x22] @ '': 3}}}'',
       help_DocLink = [],
       help_FixAction = ''Ensure config is a JSON object (wrapped in {}) and contains schema-version and rules properties''\<rparr>
      else None)"

text \<open>The hint for a body that claims to be JSON and is not, on the endpoint for raw text.\<close>

definition fallback_hint :: response_hint where
  "fallback_hint =
     \<lparr>hint_Code = ''raw_json_decode_failed_fallback_to_text'', hint_Message = ''request Content-Type is JSON but body failed JSON decoding; falling back to treating body as raw mermaid text'',
      hint_Severity = ''info'', hint_Confidence = 1, hint_AppliesTo = None, hint_FixExample = []\<rparr>"

section \<open>What the hints promise\<close>

lemma dedupe_distinct:
  assumes "distinct (map hint_Code hs)"
  shows "dedupe_hints hs = hs"
proof -
  let ?f = "\<lambda>hint (seenCodes, deduped). if map_of seenCodes (hint_Code hint) \<noteq> None then (seenCodes, deduped)
      else (set_add (hint_Code hint) seenCodes, deduped @ [hint])"
  have "snd (fold ?f hs (seen, out)) = out @ hs" if "distinct (map hint_Code hs)" "\<And>h. h \<in> set hs \<Longrightarrow> map_of seen (hint_Code h) = None" for seen out
    using that
  proof (induction hs arbitrary: seen out)
    case (Cons h hs)
    have "map_of (set_add (hint_Code h) seen) (hint_Code h') = None" if "h' \<in> set hs" for h'
    proof -
      have "hint_Code h' \<noteq> hint_Code h" using Cons.prems(1) imageI [OF that, of hint_Code] by (auto simp del: imageI)
      then show ?thesis using Cons.prems(2) [of h'] that by (simp add: set_add_def update_conv')
    qed
    moreover have "map_of seen (hint_Code h) = None" using Cons.prems(2) by simp
    ultimately show ?case using Cons.IH [of "set_add (hint_Code h) seen" "out @ [h]"] Cons.prems(1) by simp
  qed simp
  from this [OF assms, of "[]" "[]"] show ?thesis by (simp add: dedupe_hints_def)
qed

lemma hint_table_codes: "distinct (map (\<lambda>row. hint_Code (snd row)) (hint_table sg err))"
  by (simp add: hint_table_def)

text \<open>
  C35: a source with a syntax error always gets a hint; the hints are exactly those whose sign is in the
  source or the message, and the generic one only when there is none; no code occurs twice; and they come in
  the order of falling confidence, then of their codes.
\<close>
theorem hints_complete_and_ranked:
  "let hs = hintsForSyntaxError err src; signals = analyzeInputSignals src err; table = set (hint_table signals err)
   in hs \<noteq> [] \<and> sorted_wrt (<) (map hint_rank hs) \<and> distinct (map hint_Code hs) \<and>
      set hs = (if \<exists>h. (True, h) \<in> table then {h. (True, h) \<in> table} else {generic_hint src err (sig_type signals)})"
proof -
  define table where "table = hint_table (analyzeInputSignals src err) err"
  define hints where "hints = map snd (filter fst table)"
  define ranked where "ranked = sort_key hint_rank hints"
  have "distinct (map hint_Code hints)"
    using distinct_map_filter [OF hint_table_codes, of fst "analyzeInputSignals src err" err]
    by (simp add: hints_def table_def comp_def)
  moreover have "mset (map hint_Code ranked) = mset (map hint_Code hints)" by (simp add: ranked_def)
  ultimately have codes: "distinct (map hint_Code ranked)" by (metis mset_eq_imp_distinct_iff)
  have "map hint_Code ranked = map snd (map hint_rank ranked)" by (simp add: hint_rank_def)
  then have "distinct (map hint_rank ranked)" using codes by (metis distinct_map)
  then have sorted: "sorted_wrt (<) (map hint_rank ranked)" by (simp add: strict_sorted_iff ranked_def)
  have set: "set ranked = {h. (True, h) \<in> set table}" by (auto simp: ranked_def hints_def image_iff)
  have hs: "hintsForSyntaxError err src = (if ranked = [] then [generic_hint src err (sig_type (analyzeInputSignals src err))] else ranked)"
    by (simp add: hintsForSyntaxError_def Let_def dedupe_distinct [OF codes, unfolded ranked_def hints_def table_def] ranked_def hints_def table_def)
  show ?thesis
  proof (cases "ranked = []")
    case True
    then have "\<not> (\<exists>h. (True, h) \<in> set table)" using set by auto
    then show ?thesis using True by (simp add: hs Let_def table_def)
  next
    case False
    then have "\<exists>h. (True, h) \<in> set table" using set by (metis Collect_empty_eq set_empty)
    then show ?thesis using False codes sorted set by (simp add: hs Let_def table_def)
  qed
qed

text \<open>An excerpt of a long line has at most sixty runes and two ellipses; a reported column lies in the line.\<close>

lemma excerpt_short: "\<exists>rs'. length rs' \<le> 62 \<and> excerpt_around rs i = concat rs'"
proof -
  let ?first = "i - 30" and ?final = "min (i + 30) (length rs)"
  let ?pre = "if ?first > 0 then [ellipsis] else []" and ?suf = "if ?final < length rs then [ellipsis] else []"
  have "length (?pre @ take (?final - ?first) (drop ?first rs) @ ?suf) \<le> 62" by auto
  moreover have "excerpt_around rs i = concat (?pre @ take (?final - ?first) (drop ?first rs) @ ?suf)"
    by (simp add: excerpt_around_def Let_def)
  ultimately show ?thesis by blast
qed

lemma context_column: "0 \<le> ctx_column (syntaxErrorLineContext src err) \<and>
    ctx_column (syntaxErrorLineContext src err) \<le> int (length (runes (ctx_line (syntaxErrorLineContext src err))))"
  by (simp add: syntaxErrorLineContext_def Let_def)

end
