(* ===== verification/Analyze.thy ===== *)
theory Analyze
  imports Request_State Config_Payload Response_Metrics Analysis_Store Sarif Middleware Syntax_Hints
begin

text \<open>
  The analyze handlers of \<^verbatim>\<open>internal/api/handler.go\<close>: \<^verbatim>\<open>Analyze\<close>, \<^verbatim>\<open>AnalyzeRaw\<close> and
  \<^verbatim>\<open>AnalyzeSARIF\<close>, from the body of the request to the reply. The three functions are the same
  sequence of steps around different ways to read the request and to render the reply; the model has
  the steps once and the readers and renderers separately.

  What a request meets outside the program is a record \<open>world\<close>: the JSON codecs, the
  parser, the clock and the map orders. A reply is what is written to the client, a value of
  \<open>reply_body\<close> until it is rendered.
\<close>

section \<open>State\<close>

record service =
  sv_engine :: "engine option"
  sv_strict :: bool
  sv_slots :: parser_limiter
  sv_cache :: analysis_cache
  sv_counters :: outcome_counters
  sv_telemetry :: "metrics_call list option"

record analysis_core_result =
  acr_Issues :: "issue list"
  acr_Metrics :: metrics_response

text \<open>
  A request body: its bytes, and whether the client's stream then ends or breaks off. Reading through
  \<^verbatim>\<open>http.MaxBytesReader\<close> cuts it at the limit. The JSON decoder sees the bytes and whether the end of the
  stream follows; it finds a value and what is left, an error, or needs more bytes.
\<close>

datatype stream_end = Ends | Breaks | TooLarge

type_synonym body = "gostring \<times> stream_end"

datatype decode_step = Decoded analyze_request gostring | NeedsMore | Malformed

record world =
  wd_Decode :: "gostring \<Rightarrow> bool \<Rightarrow> decode_step"
  wd_UnmarshalRequest :: "gostring \<Rightarrow> analyze_request option"
  wd_Unmarshal :: "gostring \<Rightarrow> go_value option"
  wd_MarshalKey :: "diagram \<Rightarrow> config \<Rightarrow> gostring option"
  wd_MarshalResult :: "analysis_core_result \<Rightarrow> gostring option"
  wd_UnmarshalResult :: "gostring \<Rightarrow> analysis_core_result option"
  wd_parser :: parser_iface
  wd_orders :: orders
  wd_ord :: "gostring list \<Rightarrow> gostring list"
  wd_mediaType :: gostring
  wd_now :: int
  wd_unixMilli :: int
  wd_parseDuration :: int
  wd_ruleDuration :: "gostring \<Rightarrow> int"

text \<open>A call on the metrics object, if there is one.\<close>

definition tell :: "metrics_call \<Rightarrow> service \<Rightarrow> service" where
  "tell c sv = sv\<lparr>sv_telemetry := map_option (\<lambda>cs. cs @ [c]) (sv_telemetry sv)\<rparr>"

definition observeAnalyzeOutcome :: "gostring \<Rightarrow> service \<Rightarrow> service" where
  "observeAnalyzeOutcome outcome sv =
     (let canonicalOutcome = CanonicalOutcome outcome; sv = tell (MAnalyzeOutcome canonicalOutcome) sv
      in sv\<lparr>sv_counters := Increment canonicalOutcome (sv_counters sv)\<rparr>)"

definition observe_parse :: "gostring \<Rightarrow> int \<Rightarrow> service \<Rightarrow> service" where
  "observe_parse outcome d sv = tell (MParserLatency outcome d) (tell (MParserDuration outcome d) sv)"

definition lintSupportedFamilies :: "engine option \<Rightarrow> diagram_family list" where
  "lintSupportedFamilies e = (case e of None \<Rightarrow> [] | Some e \<Rightarrow> DiagramFamilies e)"

definition isLintSupported :: "engine option \<Rightarrow> diagram_family \<Rightarrow> bool" where
  "isLintSupported e family \<longleftrightarrow> family \<in> set (lintSupportedFamilies e)"

definition uniqueStrings :: "gostring list \<Rightarrow> gostring list" where
  "uniqueStrings values =
     snd (fold (\<lambda>value (seen, result).
            if map_of seen value \<noteq> None then (seen, result) else (set_add value seen, result @ [value])) values ([], []))"

section \<open>Replies\<close>

text \<open>
  An error without and with the context of the request; a refused configuration; a failed parse; a
  syntax error; a type without rules; the findings. The last three carry the deprecation warnings.
\<close>

datatype reply_body =
    PlainError int gostring gostring
  | ContextError int gostring gostring rule_config
  | ConfigRejected validation_error
  | ParserFailure request_error
  | SyntaxReply syntax_error gostring
  | UnsupportedReply diagram
  | LintReply diagram analysis_core_result

record reply =
  rep_body :: reply_body
  rep_warnings :: "gostring list"
  rep_retryAfter :: bool
  rep_log :: "(gostring \<times> diagram_type) option"
  rep_hints :: "response_hint list"

definition plain_reply :: "reply_body \<Rightarrow> reply" where
  "plain_reply b = \<lparr>rep_body = b, rep_warnings = [], rep_retryAfter = False, rep_log = None, rep_hints = []\<rparr>"

section \<open>Running the rules\<close>

definition analysisResultCacheKey :: "(diagram \<Rightarrow> config \<Rightarrow> gostring option) \<Rightarrow> diagram \<Rightarrow> config \<Rightarrow> gostring" where
  "analysisResultCacheKey Marshal d cfg = (case Marshal d cfg of None \<Rightarrow> [] | Some payload \<Rightarrow> EncodeToString (Sum256 payload))"

definition run_core :: "world \<Rightarrow> engine \<Rightarrow> diagram \<Rightarrow> config \<Rightarrow> analysis_core_result \<times> rule_metrics list" where
  "run_core wd e d cfg =
     (let (issues, emitted) = RunWithInstrumentation (wd_ord wd) (wd_ruleDuration wd) e (Some d) cfg
      in (\<lparr>acr_Issues = issues, acr_Metrics = computeMetrics (wd_ord wd) d issues\<rparr>,
          sink_Snapshot (wd_ord wd) (fold sink_RecordRuleMetrics emitted [])))"

definition tell_all :: "metrics_call list \<Rightarrow> service \<Rightarrow> service" where
  "tell_all cs sv = fold tell cs sv"

definition lint_cached :: "world \<Rightarrow> engine \<Rightarrow> diagram \<Rightarrow> config \<Rightarrow> service \<Rightarrow> (analysis_core_result \<times> service) option" where
  "lint_cached wd e d cfg sv =
     (let cacheKey = analysisResultCacheKey (wd_MarshalKey wd) d cfg;
          ((hit, evictions), cache) = analysis_Get (wd_UnmarshalResult wd) (wd_now wd) cacheKey (sv_cache sv);
          sv = sv\<lparr>sv_cache := cache\<rparr>;
          sv = tell (MAnalysisCacheEvent (if hit \<noteq> None then ''hit'' else ''miss'')) sv;
          sv = tell_all (replicate (nat evictions) (MAnalysisCacheEvent ''eviction'')) sv
      in case hit of
           Some core \<Rightarrow> Some (core, sv)
         | None \<Rightarrow>
             (let (core, metrics) = run_core wd e d cfg;
                  sv = tell_all (map MRuleMetrics metrics) sv
              in case store_loop (wd_MarshalResult wd) (wd_now wd) cacheKey core 0 (sv_cache sv) of
                   None \<Rightarrow> None
                 | Some (n, cache) \<Rightarrow>
                     Some (core, tell_all (replicate (nat n) (MAnalysisCacheEvent ''eviction'')) (sv\<lparr>sv_cache := cache\<rparr>))))"

definition lint_direct :: "world \<Rightarrow> engine \<Rightarrow> diagram \<Rightarrow> config \<Rightarrow> service \<Rightarrow> (analysis_core_result \<times> service) option" where
  "lint_direct wd e d cfg sv = Some (fst (run_core wd e d cfg), sv)"

section \<open>The steps of a request\<close>

type_synonym linter = "world \<Rightarrow> engine \<Rightarrow> diagram \<Rightarrow> config \<Rightarrow> service \<Rightarrow> (analysis_core_result \<times> service) option"

definition after_parse ::
  "world \<Rightarrow> linter \<Rightarrow> engine \<Rightarrow> analyze_request \<Rightarrow> config \<Rightarrow> gostring list \<Rightarrow> service \<Rightarrow> (reply \<times> service) option" where
  "after_parse wd lint e req cfg warnings sv =
     (let answer = (\<lambda>b outcome t. \<lparr>rep_body = b, rep_warnings = warnings, rep_retryAfter = False, rep_log = Some (outcome, t), rep_hints = []\<rparr>);
          observed = (\<lambda>outcome. observeAnalyzeOutcome outcome (observe_parse outcome (wd_parseDuration wd) sv))
      in case parseWithRequestSettings (wd_parser wd) req cfg of
           Inl (InvalidRequest msg) \<Rightarrow>
             Some (\<lparr>rep_body = ContextError 400 ''invalid_option'' msg [], rep_warnings = warnings, rep_retryAfter = False, rep_log = None, rep_hints = []\<rparr>,
                   observeAnalyzeOutcome ''invalid_option'' sv)
         | Inl err \<Rightarrow>
             Some (answer (ParserFailure err) (parserFailureOutcome err) DiagramTypeUnknown, observed (parserFailureOutcome err))
         | Inr (Inr syntaxErr) \<Rightarrow>
             Some (answer (SyntaxReply syntaxErr (areq_Code req)) ''syntax_error'' (defaultDiagramTypeForSyntaxError (areq_Code req)),
                   observed ''syntax_error'')
         | Inr (Inl None) \<Rightarrow>
             Some (answer (PlainError 500 ''internal_error'' ''parser returned nil diagram'') ''internal_error'' DiagramTypeUnknown,
                   observed ''internal_error'')
         | Inr (Inl (Some d)) \<Rightarrow>
             (let sv = observe_parse ''lint_success'' (wd_parseDuration wd) sv in
              if \<not> isLintSupported (Some e) (Family (diag_Type d)) then
                Some (answer (UnsupportedReply d) ''unsupported_diagram_type'' (diag_Type d),
                      observeAnalyzeOutcome ''unsupported_diagram_type'' sv)
              else case lint wd e d cfg sv of
                None \<Rightarrow> None
              | Some (core, sv) \<Rightarrow>
                  Some (answer (LintReply d core) ''lint_success'' (diag_Type d), observeAnalyzeOutcome ''lint_success'' sv)))"

text \<open>
  The text of an error of \<^verbatim>\<open>rules.NormalizeConfig\<close>. Of the errors about identifiers,
  \<^verbatim>\<open>NormalizeConfigRuleID\<close> returns two: an empty and an unknown one.
\<close>

definition config_error_text :: "config_error \<Rightarrow> gostring" where
  "config_error_text err =
     (case err of
        BadRuleID (UnknownRuleID ruleID) \<Rightarrow> ''unknown rule id '' @ Quote ruleID @ '' in config''
      | BadRuleID _ \<Rightarrow> ''invalid config: rule id cannot be empty''
      | SeverityNotString ruleID \<Rightarrow> ''invalid severity for rule '' @ Quote ruleID @ '': must be one of error, warning, info''
      | SeverityNotAllowed ruleID severity \<Rightarrow>
          ''invalid severity for rule '' @ Quote ruleID @ '': '' @ Quote severity @ '' (allowed: error, warning, info)''
      | EnabledNotBoolean ruleID \<Rightarrow> ''invalid enabled flag for rule '' @ Quote ruleID @ '': must be a boolean''
      | SelectorsNotStrings ruleID \<Rightarrow>
          ''invalid suppression selectors for rule '' @ Quote ruleID @ '': must be an array of strings''
      | BadSelector ruleID selector \<Rightarrow>
          ''invalid suppression selector for rule '' @ Quote ruleID @ '': '' @ Quote selector @
          '' (expected ^!?(node|subgraph|rule):'' @ [CHR 0x5C] @ ''S+$)'')"

text \<open>The slot is given back when the function returns, by the deferred call.\<close>

definition handle_request :: "world \<Rightarrow> linter \<Rightarrow> analyze_request \<Rightarrow> service \<Rightarrow> (reply \<times> service) option" where
  "handle_request wd lint req sv =
     (case sv_engine sv of
        None \<Rightarrow>
          Some (plain_reply (ContextError 500 ''internal_error'' ''analysis engine unavailable'' [(''dependency'', VString ''engine'')]),
                observeAnalyzeOutcome ''internal_error'' sv)
      | Some e \<Rightarrow>
          (case parseConfig (wd_orders wd) (wd_Unmarshal wd) (areq_Config req) (KnownRuleIDs e) (sv_strict sv)
                  (extractAllowUnknownRulesFlag (wd_Unmarshal wd) (areq_Config req)) of
             Inl err \<Rightarrow> Some (plain_reply (ConfigRejected err), observeAnalyzeOutcome (ve_Code err) sv)
           | Inr (cfg, deprecations) \<Rightarrow>
               (let warnings = uniqueStrings deprecations in
                case engine_NormalizeConfig (wd_ord wd) e cfg of
                  Inl err \<Rightarrow>
                    Some ((plain_reply (PlainError 400 ''invalid_config'' (config_error_text err)))\<lparr>rep_warnings := warnings\<rparr>,
                          observeAnalyzeOutcome ''invalid_config'' sv)
                | Inr normalizedCfg \<Rightarrow>
                    (case TryAcquire (sv_slots sv) of
                       (False, _) \<Rightarrow>
                         Some ((plain_reply (ContextError 503 ''server_busy'' ''parser concurrency limit reached; try again'' []))
                                 \<lparr>rep_warnings := warnings, rep_retryAfter := True\<rparr>,
                               observeAnalyzeOutcome ''server_busy'' sv)
                     | (True, slots) \<Rightarrow>
                         map_option (\<lambda>(r, sv). (r, sv\<lparr>sv_slots := Release (sv_slots sv)\<rparr>))
                           (after_parse wd lint e req normalizedCfg warnings (sv\<lparr>sv_slots := slots\<rparr>))))))"

section \<open>Reading the request\<close>

definition maxAnalyzeBodyBytes :: nat where "maxAnalyzeBodyBytes = 2 ^ 20"

definition MaxBytesReader :: "body \<Rightarrow> body" where
  "MaxBytesReader b =
     (if length (fst b) > maxAnalyzeBodyBytes then (take maxAnalyzeBodyBytes (fst b), TooLarge) else b)"

definition json_space :: "char \<Rightarrow> bool" where
  "json_space c \<longleftrightarrow> c = CHR '' '' \<or> c = CHR 0x09 \<or> c = CHR 0x0D \<or> c = CHR 0x0A"

text \<open>A reader gives the request and the hints about its form, or the status, code and message of the refusal.\<close>

type_synonym reader = "world \<Rightarrow> body \<Rightarrow> (int \<times> gostring \<times> gostring) + (analyze_request \<times> response_hint list)"

definition too_large :: "int \<times> gostring \<times> gostring" where
  "too_large = (413, ''request_too_large'', ''request body exceeds 1 MiB limit'')"

definition bad_json :: "int \<times> gostring \<times> gostring" where
  "bad_json = (400, ''invalid_json'', ''invalid JSON body'')"

definition no_code :: "int \<times> gostring \<times> gostring" where
  "no_code = (400, ''missing_code'', ''field 'code' is required'')"

definition read_json :: reader where
  "read_json wd b =
     (let (bytes, fin) = MaxBytesReader b in
      case wd_Decode wd bytes (fin = Ends) of
        NeedsMore \<Rightarrow> Inl (if fin = TooLarge then too_large else bad_json)
      | Malformed \<Rightarrow> Inl bad_json
      | Decoded req rest \<Rightarrow>
          if \<not> (list_all json_space rest \<and> fin = Ends) then Inl bad_json
          else if areq_Code req = [] then Inl no_code
          else Inr (req, []))"

text \<open>\<^verbatim>\<open>parseRawMermaidInput\<close>: the request, whether it was JSON, whether JSON lacks the code.\<close>

definition parseRawMermaidInput :: "world \<Rightarrow> gostring \<Rightarrow> analyze_request \<times> bool \<times> bool" where
  "parseRawMermaidInput wd bytes =
     (case wd_UnmarshalRequest wd bytes of
        None \<Rightarrow> (\<lparr>areq_Code = bytes, areq_Config = [], areq_Parser = None\<rparr>, False, False)
      | Some req \<Rightarrow> (req, True, areq_Code req = []))"

definition likelyJSONIntendedBody :: "gostring \<Rightarrow> bool" where
  "likelyJSONIntendedBody bytes =
     (let trimmed = TrimSpace bytes in if trimmed = [] then False else HasPrefix trimmed ''{'' \<or> HasPrefix trimmed ''['')"

definition read_raw :: reader where
  "read_raw wd b =
     (let (bytes, fin) = MaxBytesReader b in
      if fin = TooLarge then Inl too_large
      else if fin = Breaks then Inl (400, ''invalid_json'', ''failed to read request body'')
      else let (req, jsonDecoded, missingCode) = parseRawMermaidInput wd bytes;
               jsonContentType = (wd_mediaType wd = ''application/json'' \<or> HasSuffix (wd_mediaType wd) ''+json'');
               requestHints = (if jsonContentType \<and> \<not> jsonDecoded \<and> likelyJSONIntendedBody bytes then [fallback_hint] else [])
        in
        if jsonDecoded \<and> missingCode then Inl no_code
        else if areq_Code req = [] then
          Inl (400, ''missing_code'', ''request body is empty or does not contain mermaid code'')
        else Inr (req, requestHints))"

definition respond :: "world \<Rightarrow> linter \<Rightarrow> reader \<Rightarrow> body \<Rightarrow> service \<Rightarrow> (reply \<times> service) option" where
  "respond wd lint reader b sv =
     (case reader wd b of
        Inl (status, ec, message) \<Rightarrow> Some (plain_reply (PlainError status ec message), observeAnalyzeOutcome ec sv)
      | Inr (req, hints) \<Rightarrow> map_option (\<lambda>(rep, sv). (rep\<lparr>rep_hints := hints\<rparr>, sv)) (handle_request wd lint req sv))"

section \<open>Writing the reply\<close>

record response_warning =
  rw_Code :: gostring
  rw_Message :: gostring
  rw_Replacement :: gostring

record api_error =
  err_Code :: gostring
  err_Message :: gostring
  err_Details :: rule_config

text \<open>The response document. A nil map or slice is empty.\<close>

record analyze_response =
  ar_Valid :: bool
  ar_DiagramType :: diagram_type
  ar_LintSupported :: bool
  ar_RequestID :: gostring
  ar_Timestamp :: int
  ar_SyntaxError :: "syntax_error option"
  ar_Issues :: "issue list"
  ar_Hints :: "response_hint list"
  ar_Suggestions :: "gostring list"
  ar_HelpSuggestion :: "help_suggestion option"
  ar_Warnings :: "gostring list"
  ar_Meta :: "response_warning list option"
  ar_Error :: "api_error option"
  ar_Metrics :: metrics_response

text \<open>\<^verbatim>\<open>strings.SplitN(s, sep, 2)\<close>: the two parts, when the separator occurs.\<close>

fun split_first :: "gostring \<Rightarrow> gostring \<Rightarrow> (gostring \<times> gostring) option" where
  "split_first [] sep = (if sep = [] then Some ([], []) else None)"
| "split_first (c # cs) sep =
     (if HasPrefix (c # cs) sep then Some ([], drop (length sep) (c # cs))
      else map_option (\<lambda>(a, b). (c # a, b)) (split_first cs sep))"

definition buildResponseWarnings :: "gostring list \<Rightarrow> response_warning list" where
  "buildResponseWarnings warnings =
     map (\<lambda>warning. \<lparr>rw_Code = ''legacy_config_format'', rw_Message = warning,
            rw_Replacement = (case split_first warning ''Example: '' of None \<Rightarrow> [] | Some (_, rest) \<Rightarrow> TrimSpace rest)\<rparr>) warnings"

definition responseMetaForWarnings :: "gostring list \<Rightarrow> response_warning list option" where
  "responseMetaForWarnings warnings =
     (let structured = buildResponseWarnings warnings in if structured = [] then None else Some structured)"

definition error_response :: "gostring \<Rightarrow> gostring \<Rightarrow> rule_config \<Rightarrow> analyze_response" where
  "error_response ec message details =
     \<lparr>ar_Valid = False, ar_DiagramType = [], ar_LintSupported = False, ar_RequestID = [], ar_Timestamp = 0,
      ar_SyntaxError = None, ar_Issues = [], ar_Hints = [], ar_Suggestions = [], ar_HelpSuggestion = None, ar_Warnings = [], ar_Meta = None,
      ar_Error = Some \<lparr>err_Code = ec, err_Message = message, err_Details = details\<rparr>,
      ar_Metrics = defaultMetrics DiagramTypeUnknown\<rparr>"

definition error_response_in_context :: "world \<Rightarrow> http_request \<Rightarrow> gostring \<Rightarrow> gostring \<Rightarrow> rule_config \<Rightarrow> analyze_response" where
  "error_response_in_context wd r ec message details =
     (error_response ec message details)\<lparr>ar_RequestID := RequestIDFromContext r, ar_Timestamp := wd_unixMilli wd\<rparr>"

definition config_error_details :: "validation_error \<Rightarrow> rule_config" where
  "config_error_details err =
     (if ve_Path err \<noteq> [] then [(''path'', VString (ve_Path err))] else []) @
     (if ve_Supported err \<noteq> [] then [(''supported'', VStrings (ve_Supported err))] else []) @
     (if ve_Hint err \<noteq> [] then [(''hint'', VString (ve_Hint err))] else [])"

definition unsupported_message :: "diagram \<Rightarrow> gostring" where
  "unsupported_message d =
     ''diagram type '' @ [CHR 0x22] @ diag_Type d @ [CHR 0x22] @ '' is parsed but lint rules are not available yet''"

definition unsupportedIssue :: "diagram \<Rightarrow> issue" where
  "unsupportedIssue d = \<lparr>iss_RuleID = ''unsupported-diagram-type'', iss_Severity = ''info'', iss_Message = unsupported_message d,
     iss_Line = None, iss_Column = None, iss_Fingerprint = [], iss_Context = None\<rparr>"

text \<open>
  The status and the document of a reply; \<open>onSyntax\<close> says which types count as supported by
  the linter after a syntax error, where the two JSON endpoints differ.
\<close>

definition json_reply ::
  "(diagram_type \<Rightarrow> bool) \<Rightarrow> world \<Rightarrow> engine option \<Rightarrow> http_request \<Rightarrow> response_hint list \<Rightarrow> gostring list \<Rightarrow> reply_body
     \<Rightarrow> int \<times> analyze_response" where
  "json_reply onSyntax wd e r requestHints warnings b =
     (let answered = \<lparr>ar_Valid = True, ar_DiagramType = [], ar_LintSupported = False, ar_RequestID = RequestIDFromContext r,
            ar_Timestamp = wd_unixMilli wd, ar_SyntaxError = None, ar_Issues = [], ar_Hints = [], ar_Suggestions = [], ar_HelpSuggestion = None, ar_Warnings = warnings,
            ar_Meta = responseMetaForWarnings warnings, ar_Error = None, ar_Metrics = defaultMetrics []\<rparr>
      in case b of
           PlainError status ec message \<Rightarrow> (status, error_response ec message [])
         | ContextError status ec message details \<Rightarrow> (status, error_response_in_context wd r ec message details)
         | ConfigRejected err \<Rightarrow> 
             (400, (error_response (ve_Code err) (ve_Message err) (config_error_details err))
                \<lparr>ar_Hints := hintsForConfigValidationError err, ar_HelpSuggestion := helpForConfigError err\<rparr>)
         | ParserFailure err \<Rightarrow>
             (let f = parserErrorDetails err
              in (fd_statusCode f, error_response_in_context wd r (fd_code f) (fd_message f) (fd_details f)))
         | SyntaxReply err src \<Rightarrow>
             (let diagramType = defaultDiagramTypeForSyntaxError src; hints = requestHints @ hintsForSyntaxError err src
              in (200, answered\<lparr>ar_Valid := False, ar_DiagramType := diagramType, ar_LintSupported := onSyntax diagramType,
                    ar_Hints := hints, ar_Suggestions := suggestionsFromHints hints, ar_HelpSuggestion := Some (helpForSyntaxError err src),
                    ar_SyntaxError := Some err, ar_Metrics := defaultMetrics diagramType\<rparr>))
         | UnsupportedReply d \<Rightarrow>
             (200, answered\<lparr>ar_DiagramType := diag_Type d, ar_Issues := [unsupportedIssue d],
                ar_Hints := requestHints @ [hintForUnsupportedDiagramType (diag_Type d)],
                ar_Error := Some \<lparr>err_Code = ''unsupported_diagram_type'',
                  err_Message = ''diagram type is parsed but linting is not supported'', err_Details = []\<rparr>,
                ar_Metrics := zeroMetrics (diag_Type d)\<rparr>)
         | LintReply d core \<Rightarrow>
             (200, answered\<lparr>ar_DiagramType := diag_Type d, ar_LintSupported := isLintSupported e (Family (diag_Type d)),
                ar_Issues := acr_Issues core, ar_Hints := requestHints, ar_Metrics := acr_Metrics core\<rparr>))"

definition sarif_error :: "request_metadata \<Rightarrow> int \<Rightarrow> gostring \<Rightarrow> gostring \<Rightarrow> int \<times> sarif_report" where
  "sarif_error meta status ec message = (status, TransformError \<lparr>ei_Code = ec, ei_Message = message\<rparr> meta)"

definition sarif_reply :: "http_request \<Rightarrow> reply_body \<Rightarrow> int \<times> sarif_report" where
  "sarif_reply r b =
     (let meta = \<lparr>sm_RequestURI = rq_Path r, sm_ArtifactURI = []\<rparr> in
      case b of
        PlainError status ec message \<Rightarrow> sarif_error meta status ec message
      | ContextError status ec message _ \<Rightarrow> sarif_error meta status ec message
      | ConfigRejected err \<Rightarrow> sarif_error meta 400 (ve_Code err) (ve_Message err)
      | ParserFailure err \<Rightarrow>
          (let f = parserErrorDetails err in sarif_error meta (fd_statusCode f) (fd_code f) (fd_message f))
      | SyntaxReply err _ \<Rightarrow> sarif_error meta 200 ''syntax_error'' (se_Message err)
      | UnsupportedReply d \<Rightarrow> sarif_error meta 200 ''unsupported_diagram_type'' (unsupported_message d)
      | LintReply d core \<Rightarrow> (200, Transform (acr_Issues core) meta))"

definition add_header :: "gostring \<Rightarrow> gostring \<Rightarrow> exchange \<Rightarrow> exchange" where
  "add_header k v ex = ex\<lparr>ex_writer := w_update (h_Add k v) (ex_writer ex)\<rparr>"

definition emitLegacyConfigWarnings :: "gostring list \<Rightarrow> exchange \<Rightarrow> exchange" where
  "emitLegacyConfigWarnings warnings ex =
     (if warnings = [] then ex
      else fold (\<lambda>warning. add_header ''Warning'' (''299 - '' @ [CHR 0x22] @ warning @ [CHR 0x22])) warnings
             (set_header ''Deprecation'' ''true'' ex))"

definition emitAnalyseAliasWarning :: "http_request \<Rightarrow> exchange \<Rightarrow> exchange" where
  "emitAnalyseAliasWarning r ex =
     (if rq_Path r = ''/v1/analyse'' then
        add_header ''Warning'' (''299 - '' @ [CHR 0x22] @ ''POST /v1/analyse is deprecated; use POST /v1/analyze. Planned removal in v1.2.0 (Q2 2026).'' @ [CHR 0x22])
          (set_header ''Deprecation'' ''true'' ex)
      else if rq_Path r = ''/v1/analyse/raw'' then
        add_header ''Warning'' (''299 - '' @ [CHR 0x22] @ ''POST /v1/analyse/raw is deprecated; use POST /v1/analyze/raw. Planned removal in v1.2.0 (Q2 2026).'' @ [CHR 0x22])
          (set_header ''Deprecation'' ''true'' ex)
      else ex)"

definition setServerBusyRetryAfterHeader :: "exchange \<Rightarrow> exchange" where
  "setServerBusyRetryAfterHeader ex = set_header ''Retry-After'' (Itoa 1) ex"

definition writeSARIF :: "int \<Rightarrow> gostring \<Rightarrow> exchange \<Rightarrow> exchange" where
  "writeSARIF status doc ex =
     (let ex = set_header ''Content-Type'' ''application/sarif+json'' ex;
          ex = ex\<lparr>ex_writer := w_WriteHeader status (ex_writer ex)\<rparr>
      in ex\<lparr>ex_writer := w_Write doc (ex_writer ex)\<rparr>)"

text \<open>What the steps do to the exchange before the document is written.\<close>

definition announce :: "http_request \<Rightarrow> reply \<Rightarrow> exchange \<Rightarrow> exchange" where
  "announce r rep ex =
     (let ex = emitLegacyConfigWarnings (rep_warnings rep) ex;
          ex = (if rep_retryAfter rep then setServerBusyRetryAfterHeader ex else ex)
      in case rep_log rep of None \<Rightarrow> ex | Some (outcome, t) \<Rightarrow> setAnalyzeLogFields r [] outcome t ex)"

section \<open>The handlers\<close>

definition json_handler ::
  "linter \<Rightarrow> reader \<Rightarrow> (service \<Rightarrow> diagram_type \<Rightarrow> bool) \<Rightarrow> (analyze_response \<Rightarrow> gostring) \<Rightarrow> world \<Rightarrow> http_request \<Rightarrow> body
     \<Rightarrow> service \<times> exchange \<Rightarrow> (service \<times> exchange) option" where
  "json_handler lint reader onSyntax Encode wd r b s =
     map_option (\<lambda>(rep, sv).
         let (status, resp) = json_reply (onSyntax sv) wd (sv_engine sv) r (rep_hints rep) (rep_warnings rep) (rep_body rep)
         in (sv, writeJSON status (Encode resp) (announce r rep (emitAnalyseAliasWarning r (snd s)))))
       (respond wd lint reader b (fst s))"

definition Analyze ::
  "(analyze_response \<Rightarrow> gostring) \<Rightarrow> world \<Rightarrow> http_request \<Rightarrow> body \<Rightarrow> service \<times> exchange \<Rightarrow> (service \<times> exchange) option" where
  "Analyze = json_handler lint_cached read_json (\<lambda>_ _. False)"

definition AnalyzeRaw ::
  "(analyze_response \<Rightarrow> gostring) \<Rightarrow> world \<Rightarrow> http_request \<Rightarrow> body \<Rightarrow> service \<times> exchange \<Rightarrow> (service \<times> exchange) option" where
  "AnalyzeRaw = json_handler lint_direct read_raw
     (\<lambda>sv diagramType. diagramType \<noteq> DiagramTypeUnknown \<and> isLintSupported (sv_engine sv) (Family diagramType))"

definition AnalyzeSARIF ::
  "(sarif_report \<Rightarrow> gostring) \<Rightarrow> world \<Rightarrow> http_request \<Rightarrow> body \<Rightarrow> service \<times> exchange \<Rightarrow> (service \<times> exchange) option" where
  "AnalyzeSARIF Encode wd r b s =
     map_option (\<lambda>(rep, sv).
         let (status, report) = sarif_reply r (rep_body rep)
         in (sv, writeSARIF status (Encode report) (announce r rep (snd s))))
       (respond wd lint_direct read_json b (fst s))"

end
