(* ===== verification/Analyze_Props.thy ===== *)
theory Analyze_Props
  imports Analyze
begin

text \<open>
  What the analyze handlers promise: every request is answered and counted once, whatever
  happens to it, and gives its parser slot back; and the replies of the cached endpoint are those of a
  server without a cache.
\<close>

section \<open>Frames\<close>

text \<open>What linting may not change, and what two servers with and without a cache agree on.\<close>

definition alike :: "service \<Rightarrow> service \<Rightarrow> bool" where
  "alike sv sv' \<longleftrightarrow> sv_engine sv' = sv_engine sv \<and> sv_strict sv' = sv_strict sv \<and> sv_slots sv' = sv_slots sv \<and>
     sv_counters sv' = sv_counters sv"

lemma tell_frame [simp]:
  "alike sv (tell c sv') = alike sv sv'" "alike (tell c sv) sv' = alike sv sv'" "sv_cache (tell c sv) = sv_cache sv"
  by (simp_all add: alike_def tell_def)

lemma tell_all_frame [simp]:
  "alike sv (tell_all cs sv') = alike sv sv'" "alike (tell_all cs sv) sv' = alike sv sv'" "sv_cache (tell_all cs sv) = sv_cache sv"
  by (induction cs arbitrary: sv sv') (simp_all add: tell_all_def)

lemma alike_cache [simp]: "alike sv (sv'\<lparr>sv_cache := c\<rparr>) = alike sv sv'" "alike (sv\<lparr>sv_cache := c\<rparr>) sv' = alike sv sv'"
  by (simp_all add: alike_def)

lemma alike_refl [simp]: "alike sv sv"
  by (simp add: alike_def)

lemma alike_trans: "alike a b \<Longrightarrow> alike b c \<Longrightarrow> alike a c"
  by (simp add: alike_def)

lemma alike_sym: "alike a b \<Longrightarrow> alike b a"
  by (simp add: alike_def)

lemma observe_parse_frame [simp]:
  "alike sv (observe_parse oc t sv') = alike sv sv'" "alike (observe_parse oc t sv) sv' = alike sv sv'"
  "sv_cache (observe_parse oc t sv) = sv_cache sv" "sv_counters (observe_parse oc t sv) = sv_counters sv"
  by (simp_all add: observe_parse_def) (simp add: tell_def)

lemma tell_fields [simp]:
  "sv_engine (tell c sv) = sv_engine sv" "sv_strict (tell c sv) = sv_strict sv" "sv_slots (tell c sv) = sv_slots sv"
  "sv_counters (tell c sv) = sv_counters sv"
  by (simp_all add: tell_def)

lemma observe_fields [simp]:
  "sv_engine (observeAnalyzeOutcome oc sv) = sv_engine sv" "sv_strict (observeAnalyzeOutcome oc sv) = sv_strict sv"
  "sv_slots (observeAnalyzeOutcome oc sv) = sv_slots sv" "sv_cache (observeAnalyzeOutcome oc sv) = sv_cache sv"
  "sv_counters (observeAnalyzeOutcome oc sv) = Increment (CanonicalOutcome oc) (sv_counters sv)"
  "sv_engine (observe_parse oc t sv) = sv_engine sv" "sv_strict (observe_parse oc t sv) = sv_strict sv"
  "sv_slots (observe_parse oc t sv) = sv_slots sv"
  by (simp_all add: observeAnalyzeOutcome_def Let_def observe_parse_def)

lemma alike_observe: "alike sv sv' \<Longrightarrow> alike (observeAnalyzeOutcome oc sv) (observeAnalyzeOutcome oc sv')"
  by (simp add: alike_def)

section \<open>Every request is answered and counted\<close>

text \<open>The outcome a reply is counted under, and whether it is a success.\<close>

definition is_lint :: "reply_body \<Rightarrow> bool" where
  "is_lint b = (case b of LintReply _ _ \<Rightarrow> True | _ \<Rightarrow> False)"

definition counted :: "reply \<Rightarrow> outcome_counters \<Rightarrow> outcome_counters \<Rightarrow> bool" where
  "counted rep c c' \<longleftrightarrow> total_requests c' = total_requests c + 1 \<and>
     oc_validSuccess c' = oc_validSuccess c + (if is_lint (rep_body rep) then 1 else 0)"

lemma counted_Increment:
  "(CanonicalOutcome oc = ''lint_success'') = is_lint (rep_body rep) \<Longrightarrow> counted rep c (Increment (CanonicalOutcome oc) c)"
  using total_Increment [OF CanonicalOutcome_valid, of oc c]
  by (simp add: counted_def) (auto simp: Increment_def)

lemma counted_hints [simp]: "counted (rep\<lparr>rep_hints := h\<rparr>) c c' = counted rep c c'"
  by (simp add: counted_def)

lemma CanonicalOutcome_success: "(CanonicalOutcome oc = ''lint_success'') = (oc = ''lint_success'')"
  by (simp add: CanonicalOutcome_def ValidOutcome_def)

lemma parserFailureOutcome_no_success [simp]: "parserFailureOutcome err \<noteq> ''lint_success''"
  by (simp add: parserFailureOutcome_def)

locale total_linter =
  fixes lint :: linter and ok :: "analysis_cache \<Rightarrow> bool"
  assumes lints: "ok (sv_cache sv) \<Longrightarrow>
    \<exists>core sv'. lint wd e d cfg sv = Some (core, sv') \<and> ok (sv_cache sv') \<and> alike sv sv'"
begin

lemma after_parse_served:
  assumes "ok (sv_cache sv)"
  shows "\<exists>rep sv'. after_parse wd lint e req cfg warnings sv = Some (rep, sv') \<and> ok (sv_cache sv') \<and>
    alike sv (sv'\<lparr>sv_counters := sv_counters sv\<rparr>) \<and> counted rep (sv_counters sv) (sv_counters sv')"
proof -
  consider (invalid) msg where "parseWithRequestSettings (wd_parser wd) req cfg = Inl (InvalidRequest msg)"
    | (failed) err where "parseWithRequestSettings (wd_parser wd) req cfg = Inl err" "\<And>msg. err \<noteq> InvalidRequest msg"
    | (syn) s where "parseWithRequestSettings (wd_parser wd) req cfg = Inr (Inr s)"
    | (nil) "parseWithRequestSettings (wd_parser wd) req cfg = Inr (Inl None)"
    | (parsed) d where "parseWithRequestSettings (wd_parser wd) req cfg = Inr (Inl (Some d))"
    by (metis not_None_eq old.sum.exhaust)
  then show ?thesis
  proof cases
    case invalid
    then show ?thesis using assms
      by (simp add: after_parse_def alike_def counted_Increment CanonicalOutcome_success is_lint_def)
  next
    case failed
    then show ?thesis using assms
      by (cases err) (simp_all add: after_parse_def Let_def alike_def counted_Increment CanonicalOutcome_success is_lint_def)
  next
    case (syn s)
    then show ?thesis using assms
      by (simp add: after_parse_def Let_def alike_def counted_Increment CanonicalOutcome_success is_lint_def)
  next
    case nil
    then show ?thesis using assms
      by (simp add: after_parse_def Let_def alike_def counted_Increment CanonicalOutcome_success is_lint_def)
  next
    case (parsed d)
    let ?sv = "observe_parse ''lint_success'' (wd_parseDuration wd) sv"
    obtain core sv' where l: "lint wd e d cfg ?sv = Some (core, sv')" "ok (sv_cache sv')" "alike ?sv sv'"
      using lints [of ?sv wd e d cfg] assms by auto
    then have "sv_engine sv' = sv_engine sv" "sv_strict sv' = sv_strict sv" "sv_slots sv' = sv_slots sv" "sv_counters sv' = sv_counters sv"
      by (simp_all add: alike_def)
    then show ?thesis using assms l(1,2) parsed
      by (cases "isLintSupported (Some e) (Family (diag_Type d))")
        (simp_all add: after_parse_def Let_def alike_def counted_Increment CanonicalOutcome_success is_lint_def)
  qed
qed

lemma respond_served:
  assumes ok: "ok (sv_cache sv)" and slots: "0 \<le> pl_inFlight (sv_slots sv)" and orders: "orders_ok (wd_orders wd)"
    and reader: "\<And>b err. reader wd b = Inl err \<Longrightarrow> fst (snd err) \<noteq> ''lint_success''"
  shows "\<exists>rep sv'. respond wd lint reader b sv = Some (rep, sv') \<and> ok (sv_cache sv') \<and>
    alike sv (sv'\<lparr>sv_counters := sv_counters sv\<rparr>) \<and> counted rep (sv_counters sv) (sv_counters sv')"
proof (cases "reader wd b")
  case (Inl err)
  obtain status ec message where err: "err = (status, ec, message)" by (cases err)
  then show ?thesis using reader [of b err] Inl ok
    by (simp add: respond_def plain_reply_def alike_def counted_Increment CanonicalOutcome_success is_lint_def)
next
  case (Inr rh)
  obtain req hints where rh: "rh = (req, hints)" by (cases rh)
  have respond: "respond wd lint reader b sv = map_option (\<lambda>(rep, sv). (rep\<lparr>rep_hints := hints\<rparr>, sv)) (handle_request wd lint req sv)"
    by (simp add: respond_def Inr rh)
  show ?thesis
  proof (cases "sv_engine sv")
    case None
    then show ?thesis using ok
      by (simp add: respond handle_request_def plain_reply_def alike_def counted_Increment CanonicalOutcome_success is_lint_def)
  next
    case engine: (Some e)
    let ?p = "parseConfig (wd_orders wd) (wd_Unmarshal wd) (areq_Config req) (KnownRuleIDs e) (sv_strict sv)
                  (extractAllowUnknownRulesFlag (wd_Unmarshal wd) (areq_Config req))"
    show ?thesis
    proof (cases ?p)
      case (Inl err)
      then have "ve_Code err \<in> set payload_error_codes" using parseConfig_error_codes [OF orders] by blast
      then have "ve_Code err \<noteq> ''lint_success''" by (auto simp: payload_error_codes_def)
      then show ?thesis using ok engine Inl
        by (simp add: respond handle_request_def plain_reply_def alike_def counted_Increment CanonicalOutcome_success is_lint_def)
    next
      case cfg: (Inr cw)
      obtain cfg w where cw: "cw = (cfg, w)" by (cases cw)
      show ?thesis
      proof (cases "engine_NormalizeConfig (wd_ord wd) e cfg")
        case (Inl err)
        then show ?thesis using ok engine cfg
          by (simp add: respond handle_request_def cw Let_def plain_reply_def alike_def counted_Increment CanonicalOutcome_success is_lint_def)
      next
        case norm: (Inr ncfg)
        show ?thesis
        proof (cases "fst (TryAcquire (sv_slots sv))")
          case False
          then obtain l where "TryAcquire (sv_slots sv) = (False, l)" by (metis prod.collapse)
          then show ?thesis using ok engine cfg norm
            by (simp add: respond handle_request_def cw Let_def plain_reply_def alike_def counted_Increment CanonicalOutcome_success is_lint_def)
        next
          case True
          then obtain l where l: "TryAcquire (sv_slots sv) = (True, l)" by (metis prod.collapse)
          have release: "Release l = sv_slots sv" using l slots by (auto simp: TryAcquire_def Release_def split: if_splits)
          let ?sv = "sv\<lparr>sv_slots := l\<rparr>"
          obtain rep sv' where a: "after_parse wd lint e req ncfg (uniqueStrings w) ?sv = Some (rep, sv')" "ok (sv_cache sv')"
              "alike ?sv (sv'\<lparr>sv_counters := sv_counters ?sv\<rparr>)" "counted rep (sv_counters ?sv) (sv_counters sv')"
            using after_parse_served [of ?sv wd e req ncfg "uniqueStrings w"] ok by auto
          have "respond wd lint reader b sv = Some (rep\<lparr>rep_hints := hints\<rparr>, sv'\<lparr>sv_slots := Release (sv_slots sv')\<rparr>)"
            using engine cfg norm l a(1) by (simp add: respond handle_request_def cw Let_def)
          then show ?thesis using a release by (simp add: alike_def)
        qed
      qed
    qed
  qed
qed

end


lemma lint_cached_served:
  assumes "ac_bounded n life bytes (sv_cache sv)"
  shows "\<exists>core sv'. lint_cached wd e d cfg sv = Some (core, sv') \<and> ac_bounded n life bytes (sv_cache sv') \<and> alike sv sv'"
proof -
  let ?key = "analysisResultCacheKey (wd_MarshalKey wd) d cfg"
  obtain hit ev cache where g: "analysis_Get (wd_UnmarshalResult wd) (wd_now wd) ?key (sv_cache sv) = ((hit, ev), cache)"
    by (metis surj_pair)
  have bounded: "ac_bounded n life bytes cache" using analysis_Get_bounded [OF assms, of "wd_UnmarshalResult wd" "wd_now wd" ?key] g by simp
  show ?thesis
  proof (cases hit)
    case (Some core)
    then show ?thesis using bounded by (simp add: lint_cached_def g Let_def)
  next
    case None
    obtain core metrics where r: "run_core wd e d cfg = (core, metrics)" by (cases "run_core wd e d cfg")
    obtain i cache' where "store_loop (wd_MarshalResult wd) (wd_now wd) ?key core 0 cache = Some (i, cache')" "ac_bounded n life bytes cache'"
      using store_loop_result [OF bounded, of "wd_MarshalResult wd" "wd_now wd" ?key core] by blast
    then show ?thesis by (simp add: lint_cached_def g None r Let_def)
  qed
qed

interpretation cached: total_linter lint_cached "ac_bounded n life bytes" for n life bytes
  by (rule total_linter.intro) (rule lint_cached_served)

interpretation direct: total_linter lint_direct ok for ok
  by (rule total_linter.intro) (simp add: lint_direct_def)

lemma reader_codes:
  "read_json wd b = Inl err \<Longrightarrow> fst (snd err) \<noteq> ''lint_success''"
  "read_raw wd b = Inl err \<Longrightarrow> fst (snd err) \<noteq> ''lint_success''"
  by (auto simp: read_json_def read_raw_def too_large_def bad_json_def no_code_def parseRawMermaidInput_def case_prod_beta Let_def
      split: decode_step.splits option.splits if_splits)

text \<open>The state after a request, against the state before.\<close>

definition accounted :: "int \<times> int \<times> int \<Rightarrow> service \<Rightarrow> service \<Rightarrow> bool" where
  "accounted bounds sv sv' \<longleftrightarrow>
     total_requests (sv_counters sv') = total_requests (sv_counters sv) + 1 \<and>
     oc_validSuccess (sv_counters sv') \<in> {oc_validSuccess (sv_counters sv), oc_validSuccess (sv_counters sv) + 1} \<and>
     sv_slots sv' = sv_slots sv \<and> sv_engine sv' = sv_engine sv \<and> sv_strict sv' = sv_strict sv \<and>
     (case bounds of (n, life, bytes) \<Rightarrow> ac_bounded n life bytes (sv_cache sv'))"

lemma accounted_intro:
  "ac_bounded n life bytes (sv_cache sv') \<Longrightarrow> alike sv (sv'\<lparr>sv_counters := sv_counters sv\<rparr>) \<Longrightarrow>
   counted rep (sv_counters sv) (sv_counters sv') \<Longrightarrow> accounted (n, life, bytes) sv sv'"
  by (simp add: accounted_def alike_def counted_def)

lemma fresh_add_header [simp]: "fresh (add_header k v ex) = fresh ex"
  by (auto simp: fresh_def add_header_def)

lemma fresh_steps [simp]:
  "fresh (emitLegacyConfigWarnings ws ex) = fresh ex" "fresh (emitAnalyseAliasWarning r ex) = fresh ex"
  "fresh (setAnalyzeLogFields r i oc t ex) = fresh ex" "fresh (setServerBusyRetryAfterHeader ex) = fresh ex"
proof -
  have "fresh (fold (\<lambda>w. add_header ''Warning'' (f w)) ws ex) = fresh ex" for f and ws :: "gostring list" and ex :: exchange
    by (induction ws arbitrary: ex) simp_all
  then show "fresh (emitLegacyConfigWarnings ws ex) = fresh ex" by (simp add: emitLegacyConfigWarnings_def)
qed (simp_all add: emitAnalyseAliasWarning_def setAnalyzeLogFields_def setServerBusyRetryAfterHeader_def Let_def)

lemma fresh_announce [simp]: "fresh (announce r rep ex) = fresh ex"
  by (simp add: announce_def Let_def split: option.split)

lemma writeJSON_sends: "fresh ex \<Longrightarrow> sent_status (writeJSON status doc ex) = Some status"
  by (simp add: fresh_def sent_status_def writeJSON_def set_header_def conn_Write_def conn_WriteHeader_def Let_def)

lemma writeSARIF_sends: "fresh ex \<Longrightarrow> sent_status (writeSARIF status doc ex) = Some status"
  by (simp add: fresh_def sent_status_def writeSARIF_def set_header_def conn_Write_def conn_WriteHeader_def Let_def)

lemma json_handler_served:
  assumes "respond wd lint reader b sv = Some (rep, sv')" and "fresh ex"
  shows "\<exists>ex' status. json_handler lint reader onSyntax Encode wd r b (sv, ex) = Some (sv', ex') \<and> sent_status ex' = Some status"
  using assms by (simp add: json_handler_def case_prod_beta writeJSON_sends)

text \<open>
  C12: on each of the three endpoints every request is answered with a status, whatever its body, the
  configuration it carries and the parser's result; it is counted exactly once; it gives back
  its parser slot on every path; and it leaves the settings alone and the result cache within its limits.
\<close>
theorem requests_answered_and_counted:
  assumes "ac_bounded n life bytes (sv_cache sv)" and "0 \<le> pl_inFlight (sv_slots sv)" and "orders_ok (wd_orders wd)" and "fresh ex"
  shows "(\<exists>sv' ex' status. Analyze enc wd r b (sv, ex) = Some (sv', ex') \<and> sent_status ex' = Some status \<and> accounted (n, life, bytes) sv sv') \<and>
    (\<exists>sv' ex' status. AnalyzeRaw enc wd r b (sv, ex) = Some (sv', ex') \<and> sent_status ex' = Some status \<and> accounted (n, life, bytes) sv sv') \<and>
    (\<exists>sv' ex' status. AnalyzeSARIF enc' wd r b (sv, ex) = Some (sv', ex') \<and> sent_status ex' = Some status \<and> accounted (n, life, bytes) sv sv')"
proof (intro conjI)
  show "\<exists>sv' ex' status. Analyze enc wd r b (sv, ex) = Some (sv', ex') \<and> sent_status ex' = Some status \<and> accounted (n, life, bytes) sv sv'"
    using cached.respond_served [OF assms(1-3), of read_json b] reader_codes(1) json_handler_served [OF _ assms(4)] accounted_intro
    unfolding Analyze_def by (metis (no_types, lifting))
  show "\<exists>sv' ex' status. AnalyzeRaw enc wd r b (sv, ex) = Some (sv', ex') \<and> sent_status ex' = Some status \<and> accounted (n, life, bytes) sv sv'"
    using direct.respond_served [of "ac_bounded n life bytes", OF assms(1-3), of read_raw b] reader_codes(2) json_handler_served [OF _ assms(4)] accounted_intro
    unfolding AnalyzeRaw_def by (metis (no_types, lifting))
  obtain rep sv' where s: "respond wd lint_direct read_json b sv = Some (rep, sv')" "accounted (n, life, bytes) sv sv'"
    using direct.respond_served [of "ac_bounded n life bytes", OF assms(1-3), of read_json b] reader_codes(1) accounted_intro by metis
  then show "\<exists>sv' ex' status. AnalyzeSARIF enc' wd r b (sv, ex) = Some (sv', ex') \<and> sent_status ex' = Some status \<and> accounted (n, life, bytes) sv sv'"
    using assms(4) by (simp add: AnalyzeSARIF_def case_prod_beta writeSARIF_sends)
qed

text \<open>A service with a flowchart rule and room for one parser run, and a world that answers with fixed values.\<close>

definition example_service :: service where
  "example_service = \<lparr>sv_engine = Some \<lparr>eng_rules = [MaxFanout], eng_sink = NoopInstrumentationSink\<rparr>, sv_strict = False,
     sv_slots = SetLimit 1 newParserConcurrencyLimiter, sv_cache = newAnalysisResultCache 8 10 1000, sv_counters = zero_counters,
     sv_telemetry = None\<rparr>"

definition example_core :: analysis_core_result where
  "example_core = \<lparr>acr_Issues = [], acr_Metrics = zeroMetrics DiagramTypeFlowchart\<rparr>"

definition example_world :: world where
  "example_world = \<lparr>wd_Decode = (\<lambda>bytes _. Decoded \<lparr>areq_Code = bytes, areq_Config = [], areq_Parser = None\<rparr> []),
     wd_UnmarshalRequest = (\<lambda>_. None), wd_Unmarshal = (\<lambda>_. None), wd_MarshalKey = (\<lambda>_ _. None),
     wd_MarshalResult = (\<lambda>core. if core = example_core then Some ''core'' else None),
     wd_UnmarshalResult = (\<lambda>_. Some example_core),
     wd_parser = noopParser\<lparr>pi_Parse := (\<lambda>_. Inr (Inl (Some (empty_diagram\<lparr>diag_Type := DiagramTypeFlowchart\<rparr>))))\<rparr>,
     wd_orders = (\<lambda>_ ks. ks), wd_ord = (\<lambda>ks. ks), wd_mediaType = ''application/json'', wd_now = 0, wd_unixMilli = 0, wd_parseDuration = 5, wd_ruleDuration = (\<lambda>_. 1)\<rparr>"

definition example_exchange :: exchange where
  "example_exchange = \<lparr>ex_limiter = None, ex_lastLog = None, ex_fields = \<lparr>lf_requestID = [], lf_parserOutcome = [], lf_diagramType = []\<rparr>,
     ex_events = [], ex_writer = Conn \<lparr>c_header = [], c_sent = None, c_body = []\<rparr>\<rparr>"

definition example_request :: http_request where
  "example_request = \<lparr>rq_Method = ''POST'', rq_Path = ''/v1/analyze'', rq_RemoteAddr = [], rq_Header = [], ctx_requestID = None,
     ctx_version = None, ctx_logFields = False, rq_now = 0, rq_ord = (\<lambda>ks. ks), rq_uuid = []\<rparr>"

lemma example_facts:
  "ac_bounded 8 10 1000 (sv_cache example_service)" "0 \<le> pl_inFlight (sv_slots example_service)"
  "orders_ok (wd_orders example_world)" "fresh example_exchange"
  by (simp_all add: example_service_def SetLimit_def newParserConcurrencyLimiter_def example_world_def orders_ok_def fresh_def
      example_exchange_def)

theorem requests_answered_and_counted_witness:
  "\<exists>sv' ex' status. Analyze (\<lambda>_. ''doc'') example_world example_request (''graph TD'', Ends) (example_service, example_exchange) = Some (sv', ex') \<and>
     sent_status ex' = Some status \<and> accounted (8, 10, 1000) example_service sv'"
  using requests_answered_and_counted [OF example_facts] by blast

section \<open>The cache does not show\<close>

text \<open>What a request would have linted, when it gets that far.\<close>

definition linted :: "world \<Rightarrow> engine \<Rightarrow> bool \<Rightarrow> body \<Rightarrow> (diagram \<times> config) option" where
  "linted wd e strict b =
     (case read_json wd b of
        Inl _ \<Rightarrow> None
      | Inr (req, _) \<Rightarrow>
          (case parseConfig (wd_orders wd) (wd_Unmarshal wd) (areq_Config req) (KnownRuleIDs e) strict
                  (extractAllowUnknownRulesFlag (wd_Unmarshal wd) (areq_Config req)) of
             Inl _ \<Rightarrow> None
           | Inr (cfg, _) \<Rightarrow>
               (case engine_NormalizeConfig (wd_ord wd) e cfg of
                  Inl _ \<Rightarrow> None
                | Inr ncfg \<Rightarrow>
                    (case parseWithRequestSettings (wd_parser wd) req ncfg of
                       Inr (Inl (Some d)) \<Rightarrow> Some (d, ncfg)
                     | _ \<Rightarrow> None))))"

text \<open>A linter that, in the worlds that fit and on the inputs of a set, gives the result of the rules themselves.\<close>

locale exact_linter =
  fixes lint :: linter and e :: engine and inputs :: "(diagram \<times> config) set" and fits :: "world \<Rightarrow> bool"
    and good :: "int \<Rightarrow> analysis_cache \<Rightarrow> bool"
  assumes exact: "fits wd \<Longrightarrow> good (wd_now wd) (sv_cache sv) \<Longrightarrow> (d, cfg) \<in> inputs \<Longrightarrow>
      \<exists>sv'. lint wd e d cfg sv = Some (fst (run_core wd e d cfg), sv') \<and> alike sv sv' \<and> good (wd_now wd) (sv_cache sv')"
    and later: "good t c \<Longrightarrow> t \<le> t' \<Longrightarrow> good t' c"
begin

definition same_reply :: "int \<Rightarrow> (reply \<times> service) option \<Rightarrow> (reply \<times> service) option \<Rightarrow> bool" where
  "same_reply t x y \<longleftrightarrow> (\<exists>rep s s'. x = Some (rep, s) \<and> y = Some (rep, s') \<and> alike s s' \<and> good t (sv_cache s))"

lemma after_parse_same:
  assumes "fits wd" "good (wd_now wd) (sv_cache sv)" "alike sv sv'"
    and pair: "\<And>d. parseWithRequestSettings (wd_parser wd) req cfg = Inr (Inl (Some d)) \<Longrightarrow> (d, cfg) \<in> inputs"
  shows "same_reply (wd_now wd) (after_parse wd lint e req cfg w sv) (after_parse wd lint_direct e req cfg w sv')"
proof (cases "\<exists>d. parseWithRequestSettings (wd_parser wd) req cfg = Inr (Inl (Some d))")
  case False
  then show ?thesis using assms(2,3)
    by (auto simp: same_reply_def after_parse_def Let_def alike_observe split: sum.split option.split request_error.split)
next
  case True
  then obtain d where d: "parseWithRequestSettings (wd_parser wd) req cfg = Inr (Inl (Some d))" by blast
  let ?o = "observe_parse ''lint_success'' (wd_parseDuration wd)"
  obtain sv1 where l: "lint wd e d cfg (?o sv) = Some (fst (run_core wd e d cfg), sv1)" "alike (?o sv) sv1" "good (wd_now wd) (sv_cache sv1)"
    using exact [OF assms(1) _ pair [OF d], of "?o sv"] assms(2) by auto
  then have "alike sv sv1" by simp
  then have "alike sv1 sv'" using assms(3) by (rule alike_trans [OF alike_sym])
  then show ?thesis using assms(2,3) l(1,3)
    by (cases "isLintSupported (Some e) (Family (diag_Type d))")
      (simp_all add: same_reply_def after_parse_def d Let_def alike_observe lint_direct_def)
qed

lemma respond_same:
  assumes "fits wd" "good (wd_now wd) (sv_cache sv)" "alike sv sv'" and engine: "sv_engine sv = Some e"
    and pair: "\<And>p. linted wd e (sv_strict sv) b = Some p \<Longrightarrow> p \<in> inputs"
  shows "same_reply (wd_now wd) (respond wd lint read_json b sv) (respond wd lint_direct read_json b sv')"
proof (cases "read_json wd b")
  case (Inl err)
  then show ?thesis using assms(2,3) by (cases err) (simp add: same_reply_def respond_def alike_observe)
next
  case (Inr rh)
  then obtain req hints where req: "read_json wd b = Inr (req, hints)" by (cases rh) simp
  have same: "sv_engine sv' = Some e" "sv_strict sv' = sv_strict sv" "sv_slots sv' = sv_slots sv" using assms(3) engine by (simp_all add: alike_def)
  let ?p = "parseConfig (wd_orders wd) (wd_Unmarshal wd) (areq_Config req) (KnownRuleIDs e) (sv_strict sv)
                  (extractAllowUnknownRulesFlag (wd_Unmarshal wd) (areq_Config req))"
  show ?thesis
  proof (cases "\<exists>cfg w ncfg. ?p = Inr (cfg, w) \<and> engine_NormalizeConfig (wd_ord wd) e cfg = Inr ncfg \<and> fst (TryAcquire (sv_slots sv))")
    case False
    then show ?thesis using assms(2,3)
      by (auto simp: same_reply_def respond_def req handle_request_def engine same Let_def alike_observe
          split: sum.split prod.split bool.split)
  next
    case True
    then obtain cfg w ncfg l where c: "?p = Inr (cfg, w)" "engine_NormalizeConfig (wd_ord wd) e cfg = Inr ncfg"
      "TryAcquire (sv_slots sv) = (True, l)" by (metis prod.collapse)
    let ?l = "sv_slots_update (\<lambda>_. l)"
    have a: "same_reply (wd_now wd) (after_parse wd lint e req ncfg (uniqueStrings w) (?l sv))
        (after_parse wd lint_direct e req ncfg (uniqueStrings w) (?l sv'))"
    proof (rule after_parse_same [OF assms(1)])
      show "good (wd_now wd) (sv_cache (?l sv))" "alike (?l sv) (?l sv')" using assms(2,3) by (simp_all add: alike_def)
      show "(d, ncfg) \<in> inputs" if "parseWithRequestSettings (wd_parser wd) req ncfg = Inr (Inl (Some d))" for d
        using pair [of "(d, ncfg)"] that c by (simp add: linted_def req)
    qed
    have "respond wd ln read_json b s =
        map_option (\<lambda>x. ((fst x)\<lparr>rep_hints := hints\<rparr>, (snd x)\<lparr>sv_slots := Release (sv_slots (snd x))\<rparr>)) (after_parse wd ln e req ncfg (uniqueStrings w) (?l s))"
      if "sv_engine s = Some e" "sv_strict s = sv_strict sv" "sv_slots s = sv_slots sv" for ln s
      using that c by (simp add: respond_def req handle_request_def Let_def option.map_comp comp_def case_prod_beta)
    then show ?thesis using a engine same by (auto simp: same_reply_def alike_def)
  qed
qed

end

text \<open>
  The codecs and the map order of a world; that decoding a stored result gives it back, and that the
  keys of the inputs at hand differ.
\<close>

definition same_codecs :: "world \<Rightarrow> world \<Rightarrow> bool" where
  "same_codecs wd wd' \<longleftrightarrow> wd_MarshalKey wd' = wd_MarshalKey wd \<and> wd_MarshalResult wd' = wd_MarshalResult wd \<and>
     wd_UnmarshalResult wd' = wd_UnmarshalResult wd \<and> wd_ord wd' = wd_ord wd"

definition core_key :: "world \<Rightarrow> diagram \<times> config \<Rightarrow> gostring" where
  "core_key wd p = analysisResultCacheKey (wd_MarshalKey wd) (fst p) (snd p)"

definition stores_results :: "world \<Rightarrow> bool" where
  "stores_results wd \<longleftrightarrow> (\<forall>core s. wd_MarshalResult wd core = Some s \<longrightarrow> wd_UnmarshalResult wd s = Some core)"

definition cacheable :: "world \<Rightarrow> (diagram \<times> config) set \<Rightarrow> world \<Rightarrow> bool" where
  "cacheable wd inputs wd' \<longleftrightarrow> same_codecs wd wd' \<and> stores_results wd \<and> inj_on (core_key wd) inputs"

definition cache_exact ::
  "world \<Rightarrow> engine \<Rightarrow> (diagram \<times> config) set \<Rightarrow> int \<times> int \<times> int \<Rightarrow> int \<Rightarrow> analysis_cache \<Rightarrow> bool" where
  "cache_exact wd e inputs bounds t c \<longleftrightarrow> (case bounds of (n, life, bytes) \<Rightarrow> ac_bounded n life bytes c) \<and>
     (\<forall>p\<in>inputs. \<forall>t' core. t \<le> t' \<longrightarrow> analysis_lookup (wd_UnmarshalResult wd) t' c (core_key wd p) = Some core \<longrightarrow>
        core = fst (run_core wd e (fst p) (snd p)))"

lemma run_core_same: "same_codecs wd wd' \<Longrightarrow> fst (run_core wd' e d cfg) = fst (run_core wd e d cfg)"
  by (auto simp: run_core_def same_codecs_def case_prod_beta Let_def RunWithInstrumentation_def split: option.split sum.split)

lemma cache_exact_Set:
  assumes "cache_exact wd e inputs bounds t c" and "p \<in> inputs" and "stores_results wd" and "inj_on (core_key wd) inputs"
  shows "cache_exact wd e inputs bounds t
    (snd (analysis_Set (wd_MarshalResult wd) t (core_key wd p) (fst (run_core wd e (fst p) (snd p))) c))" (is "cache_exact _ _ _ _ _ ?c")
proof -
  obtain n life bytes where b: "bounds = (n, life, bytes)" by (cases bounds)
  have bounded: "ac_bounded n life bytes c" using assms(1) by (simp add: cache_exact_def b)
  have "core = fst (run_core wd e (fst q) (snd q))"
    if q: "q \<in> inputs" and t: "t \<le> t'" and l: "analysis_lookup (wd_UnmarshalResult wd) t' ?c (core_key wd q) = Some core" for q t' core
    using analysis_Set_lookup [OF bounded t l]
  proof
    assume "analysis_lookup (wd_UnmarshalResult wd) t' c (core_key wd q) = Some core"
    then show ?thesis using assms(1) q t by (auto simp: cache_exact_def)
  next
    assume a: "core_key wd q = core_key wd p \<and>
      (\<exists>s. wd_MarshalResult wd (fst (run_core wd e (fst p) (snd p))) = Some s \<and> wd_UnmarshalResult wd s = Some core) \<and> t' < t + life"
    then have "q = p" using assms(2,4) q by (auto dest: inj_onD)
    then show ?thesis using a assms(3) by (auto simp: stores_results_def)
  qed
  then show ?thesis using analysis_Set_bounded [OF bounded] by (simp add: cache_exact_def b)
qed

lemma lint_cached_exact:
  assumes fits: "cacheable wd0 inputs wd" and good: "cache_exact wd0 e inputs bounds (wd_now wd) (sv_cache sv)"
    and pair: "(d, cfg) \<in> inputs"
  shows "\<exists>sv'. lint_cached wd e d cfg sv = Some (fst (run_core wd e d cfg), sv') \<and> alike sv sv' \<and>
    cache_exact wd0 e inputs bounds (wd_now wd) (sv_cache sv')"
proof -
  have f: "same_codecs wd0 wd" "stores_results wd0" "inj_on (core_key wd0) inputs" using fits by (simp_all add: cacheable_def)
  then have codec: "wd_UnmarshalResult wd = wd_UnmarshalResult wd0" "wd_MarshalResult wd = wd_MarshalResult wd0"
      "analysisResultCacheKey (wd_MarshalKey wd) d cfg = core_key wd0 (d, cfg)"
    by (simp_all add: same_codecs_def core_key_def)
  obtain n life bytes where b: "bounds = (n, life, bytes)" by (cases bounds)
  let ?key = "core_key wd0 (d, cfg)" and ?u = "wd_UnmarshalResult wd0" and ?now = "wd_now wd"
  have bounded: "ac_bounded n life bytes (sv_cache sv)" and inv: "ac_inv (sv_cache sv)"
    using good by (simp_all add: cache_exact_def b ac_bounded_def)
  obtain hit ev cache where g: "analysis_Get ?u ?now ?key (sv_cache sv) = ((hit, ev), cache)" by (metis surj_pair)
  have exact: "cache_exact wd0 e inputs bounds ?now cache"
    using good analysis_Get_bounded [OF bounded, of ?u ?now ?key] analysis_Get_facts(4) [OF inv, of ?now _ ?u ?key]
    by (simp add: cache_exact_def b g)
  have hit: "hit = analysis_lookup ?u ?now (sv_cache sv) ?key" using analysis_Get_facts(3) [OF inv, of ?u ?now ?key] g by simp
  show ?thesis
  proof (cases hit)
    case (Some core)
    then have "core = fst (run_core wd e d cfg)"
      using good pair hit run_core_same [OF f(1)] by (fastforce simp: cache_exact_def)
    then show ?thesis using Some exact by (simp add: lint_cached_def codec g Let_def)
  next
    case None
    obtain core metrics where r: "run_core wd e d cfg = (core, metrics)" by (cases "run_core wd e d cfg")
    then have core: "core = fst (run_core wd0 e d cfg)" using run_core_same [OF f(1), of e d cfg] by simp
    let ?set = "\<lambda>c. snd (analysis_Set (wd_MarshalResult wd0) ?now ?key core c)"
    have step: "cache_exact wd0 e inputs bounds ?now (?set c)" if "cache_exact wd0 e inputs bounds ?now c" for c
      using cache_exact_Set [OF that pair f(2,3)] by (simp add: core)
    have "ac_bounded n life bytes cache" using exact by (simp add: cache_exact_def b)
    then obtain i cache' where "store_loop (wd_MarshalResult wd0) ?now ?key core 0 cache = Some (i, cache')"
        "cache' \<in> {?set cache, ?set (?set cache)}"
      using store_loop_result [of n life bytes cache "wd_MarshalResult wd0" ?now ?key core] by blast
    moreover from this(2) have "cache_exact wd0 e inputs bounds ?now cache'" using step [OF exact] step [OF step [OF exact]] by auto
    ultimately show ?thesis by (simp add: lint_cached_def codec g None r Let_def)
  qed
qed

interpretation memo: exact_linter lint_cached e inputs "cacheable wd0 inputs" "cache_exact wd0 e inputs bounds" for e inputs wd0 bounds
proof (rule exact_linter.intro)
  show "cache_exact wd0 e inputs bounds t c \<Longrightarrow> t \<le> t' \<Longrightarrow> cache_exact wd0 e inputs bounds t' c" for t t' c
    unfolding cache_exact_def by (meson order_trans)
qed (rule lint_cached_exact)

interpretation uncached: exact_linter lint_direct e inputs "\<lambda>_. True" "\<lambda>_ _. True" for e inputs
  by (rule exact_linter.intro) (simp_all add: lint_direct_def)

text \<open>A sequence of requests, each in its own world: the clock, the parser and the other codecs may differ.\<close>

fun serve_all :: "linter \<Rightarrow> (world \<times> body) list \<Rightarrow> service \<Rightarrow> (reply list \<times> service) option" where
  "serve_all lint [] sv = Some ([], sv)"
| "serve_all lint ((wd, b) # requests) sv =
     (case respond wd lint read_json b sv of
        None \<Rightarrow> None
      | Some (rep, sv) \<Rightarrow> map_option (\<lambda>(reps, sv). (rep # reps, sv)) (serve_all lint requests sv))"

definition linted_inputs :: "engine \<Rightarrow> bool \<Rightarrow> (world \<times> body) list \<Rightarrow> (diagram \<times> config) set" where
  "linted_inputs e strict requests = {p. \<exists>r\<in>set requests. linted (fst r) e strict (snd r) = Some p}"

context exact_linter
begin

lemma serve_all_same:
  assumes "list_all (\<lambda>r. fits (fst r) \<and> orders_ok (wd_orders (fst r)) \<and> t \<le> wd_now (fst r)) requests"
    and "sorted (map (\<lambda>r. wd_now (fst r)) requests)"
    and "good t (sv_cache sv)" and "alike sv sv'" and "sv_engine sv = Some e" and "0 \<le> pl_inFlight (sv_slots sv)"
    and "linted_inputs e (sv_strict sv) requests \<subseteq> inputs"
  shows "\<exists>reps s s'. serve_all lint requests sv = Some (reps, s) \<and> serve_all lint_direct requests sv' = Some (reps, s') \<and> alike s s'"
  using assms
proof (induction requests arbitrary: t sv sv')
  case Nil
  then show ?case by simp
next
  case (Cons req requests)
  obtain wd b where req: "req = (wd, b)" by (cases req)
  have wd: "fits wd" "orders_ok (wd_orders wd)" "t \<le> wd_now wd" using Cons.prems(1) by (simp_all add: req)
  have pairs: "linted wd e (sv_strict sv) b = Some p \<Longrightarrow> p \<in> inputs" for p
    using Cons.prems(7) by (auto simp: linted_inputs_def req)
  have "same_reply (wd_now wd) (respond wd lint read_json b sv) (respond wd lint_direct read_json b sv')"
    by (rule respond_same [OF wd(1) later [OF Cons.prems(3) wd(3)] Cons.prems(4,5)]) (rule pairs)
  then obtain rep s s' where r: "respond wd lint read_json b sv = Some (rep, s)" "respond wd lint_direct read_json b sv' = Some (rep, s')"
      "alike s s'" "good (wd_now wd) (sv_cache s)"
    unfolding same_reply_def by blast
  have "0 \<le> pl_inFlight (sv_slots sv')" using Cons.prems(4,6) by (simp add: alike_def)
  then have "alike sv' (s'\<lparr>sv_counters := sv_counters sv'\<rparr>)"
    using direct.respond_served [of "\<lambda>_. True" sv' wd read_json b] wd(2) reader_codes(1) r(2) by auto
  then have s: "sv_engine s = sv_engine sv" "sv_strict s = sv_strict sv" "sv_slots s = sv_slots sv"
    using r(3) Cons.prems(4) by (simp_all add: alike_def)
  have rest: "list_all (\<lambda>r. fits (fst r) \<and> orders_ok (wd_orders (fst r)) \<and> wd_now wd \<le> wd_now (fst r)) requests"
    using Cons.prems(1,2) by (auto simp: req list_all_iff)
  have inputs: "linted_inputs e (sv_strict s) requests \<subseteq> inputs" using Cons.prems(7) by (auto simp: linted_inputs_def s)
  obtain reps s1 s1' where "serve_all lint requests s = Some (reps, s1)" "serve_all lint_direct requests s' = Some (reps, s1')" "alike s1 s1'"
    using Cons.IH [OF rest _ r(4,3) _ _ inputs] Cons.prems(2,5,6) s by auto
  then show ?case by (simp add: req r)
qed

end


text \<open>The same request twice: the second is answered from the cache.\<close>

definition example_requests :: "(world \<times> body) list" where
  "example_requests = replicate 2 (example_world, (''graph TD'', Ends))"


section \<open>The report and the document\<close>

text \<open>The code under which a document reports that there is no lint result.\<close>

definition response_code :: "analyze_response \<Rightarrow> gostring option" where
  "response_code resp =
     (if ar_SyntaxError resp \<noteq> None then Some ''syntax_error'' else map_option err_Code (ar_Error resp))"

definition reports :: "request_metadata \<Rightarrow> analyze_response \<Rightarrow> sarif_report \<Rightarrow> bool" where
  "reports meta resp rpt \<longleftrightarrow>
     (case response_code resp of
        None \<Rightarrow> rpt = Transform (ar_Issues resp) meta
      | Some ec \<Rightarrow> (\<exists>msg. rpt = TransformError \<lparr>ei_Code = ec, ei_Message = msg\<rparr> meta))"

lemma sarif_reply_reports:
  "fst (sarif_reply r b) = fst (json_reply onSyntax wd e r hs ws b) \<and>
   reports \<lparr>sm_RequestURI = rq_Path r, sm_ArtifactURI = []\<rparr> (snd (json_reply onSyntax wd e r hs ws b)) (snd (sarif_reply r b))"
  by (cases b)
    (auto simp: sarif_reply_def json_reply_def Let_def sarif_error_def reports_def response_code_def error_response_def
      error_response_in_context_def)



end
