(* ===== verification/Cli.thy ===== *)
theory Cli
  imports Analyze Engine_Props
begin

text \<open>
  The command line client, \<^verbatim>\<open>cmd/merm8-cli/main.go\<close>: arguments, configuration file, inputs, analysis
  in the process or by a server, output and exit code. The world outside is a record: files, standard
  input, the parser, the server, the JSON codecs. A nil map of a configuration and a nil pointer can
  make the program panic; such functions have an option as result and \<open>None\<close> is the panic.
\<close>

section \<open>Arguments\<close>

record cli_options =
  opt_UseStdin :: bool
  opt_Format :: gostring
  opt_URL :: gostring
  opt_ConfigPath :: gostring
  opt_FailOnLint :: bool
  opt_FailOnSyntax :: bool
  opt_Timeout :: int
  opt_Files :: "gostring list"

definition default_options :: cli_options where
  "default_options = \<lparr>opt_UseStdin = False, opt_Format = ''text'', opt_URL = [], opt_ConfigPath = [], opt_FailOnLint = False,
     opt_FailOnSyntax = True, opt_Timeout = 10 * Second, opt_Files = []\<rparr>"

datatype argument_error =
    BadFlagSyntax gostring
  | HelpRequested
  | UndefinedFlag gostring
  | NeedsArgument gostring
  | InvalidValue gostring gostring
  | UnsupportedFormat gostring

text \<open>The loop of \<^verbatim>\<open>flag.FlagSet.Parse\<close> on the flags the program declares.\<close>

definition set_bool :: "gostring \<Rightarrow> bool \<Rightarrow> cli_options \<Rightarrow> cli_options option" where
  "set_bool name b opts =
     (if name = ''stdin'' then Some (opts\<lparr>opt_UseStdin := b\<rparr>)
      else if name = ''fail-on-lint'' then Some (opts\<lparr>opt_FailOnLint := b\<rparr>)
      else if name = ''fail-on-syntax'' then Some (opts\<lparr>opt_FailOnSyntax := b\<rparr>)
      else None)"

definition set_value :: "(gostring \<Rightarrow> int option) \<Rightarrow> gostring \<Rightarrow> gostring \<Rightarrow> cli_options \<Rightarrow> cli_options option" where
  "set_value ParseDuration name v opts =
     (if name = ''format'' then Some (opts\<lparr>opt_Format := v\<rparr>)
      else if name = ''url'' then Some (opts\<lparr>opt_URL := v\<rparr>)
      else if name = ''config'' then Some (opts\<lparr>opt_ConfigPath := v\<rparr>)
      else map_option (\<lambda>d. opts\<lparr>opt_Timeout := d\<rparr>) (ParseDuration v))"

definition flag_parts :: "gostring \<Rightarrow> gostring \<times> gostring option" where
  "flag_parts name =
     (if CHR ''='' \<in> set (tl name)
      then (hd name # takeWhile (\<lambda>c. c \<noteq> CHR ''='') (tl name), Some (tl (dropWhile (\<lambda>c. c \<noteq> CHR ''='') (tl name))))
      else (name, None))"

definition flag_argument :: "gostring option \<Rightarrow> gostring list \<Rightarrow> (gostring \<times> gostring list) option" where
  "flag_argument v args =
     (case v of Some v \<Rightarrow> Some (v, args) | None \<Rightarrow> (case args of [] \<Rightarrow> None | a # args \<Rightarrow> Some (a, args)))"

lemma flag_argument_shorter: "flag_argument v args = Some (a, rest) \<Longrightarrow> length rest \<le> length args"
  by (auto simp: flag_argument_def split: option.splits list.splits)

text \<open>One argument: an error, or whether it was a flag, with the options and the arguments left.\<close>

type_synonym parse_step = "argument_error + (bool \<times> cli_options \<times> gostring list)"

definition bool_flags :: "gostring list" where
  "bool_flags = [''stdin'', ''fail-on-lint'', ''fail-on-syntax'']"

definition value_flags :: "gostring list" where
  "value_flags = [''format'', ''url'', ''config'', ''timeout'']"

definition set_flag :: "(gostring \<Rightarrow> int option) \<Rightarrow> gostring \<times> gostring option \<Rightarrow> gostring list \<Rightarrow> cli_options \<Rightarrow> parse_step" where
  "set_flag pd flag args opts =
     (let (name, v) = flag in
      if name \<in> set bool_flags then
        (case (case v of None \<Rightarrow> Some True | Some v \<Rightarrow> ParseBool v) of
           None \<Rightarrow> Inl (InvalidValue name (case v of None \<Rightarrow> [] | Some v \<Rightarrow> v))
         | Some b \<Rightarrow> (case set_bool name b opts of None \<Rightarrow> Inl (UndefinedFlag name) | Some opts \<Rightarrow> Inr (True, opts, args)))
      else if name \<in> set value_flags then
        (case flag_argument v args of
           None \<Rightarrow> Inl (NeedsArgument name)
         | Some (v, rest) \<Rightarrow>
             (case set_value pd name v opts of None \<Rightarrow> Inl (InvalidValue name v) | Some opts \<Rightarrow> Inr (True, opts, rest)))
      else if name = ''help'' \<or> name = ''h'' then Inl HelpRequested
      else Inl (UndefinedFlag name))"

definition parseOne :: "(gostring \<Rightarrow> int option) \<Rightarrow> gostring \<Rightarrow> gostring list \<Rightarrow> cli_options \<Rightarrow> parse_step" where
  "parseOne pd s args opts =
     (if length s < 2 \<or> hd s \<noteq> CHR ''-'' then Inr (False, opts, s # args)
      else if s = ''--'' then Inr (False, opts, args)
      else let name = (if s ! 1 = CHR ''-'' then drop 2 s else drop 1 s) in
        if name = [] \<or> hd name = CHR ''-'' \<or> hd name = CHR ''='' then Inl (BadFlagSyntax s)
        else set_flag pd (flag_parts name) args opts)"

lemma set_flag_shorter: "set_flag pd flag args opts = Inr (True, opts', rest) \<Longrightarrow> length rest \<le> length args"
  by (cases flag) (auto simp: set_flag_def dest: flag_argument_shorter split: option.splits if_splits)

lemma parseOne_shorter: "parseOne pd s args opts = Inr (True, opts', rest) \<Longrightarrow> length rest \<le> length args"
  by (auto simp: parseOne_def Let_def dest: set_flag_shorter split: if_splits)

function parse_flags ::
  "(gostring \<Rightarrow> int option) \<Rightarrow> gostring list \<Rightarrow> cli_options \<Rightarrow> argument_error + (cli_options \<times> gostring list)" where
  "parse_flags pd args opts =
     (case args of
        [] \<Rightarrow> Inr (opts, [])
      | s # args \<Rightarrow>
          (case parseOne pd s args opts of
             Inl err \<Rightarrow> Inl err
           | Inr (seen, opts, rest) \<Rightarrow> if seen then parse_flags pd rest opts else Inr (opts, rest)))"
  by pat_completeness auto
termination
  by (relation "measure (\<lambda>(_, args, _). length args)") (auto dest: parseOne_shorter)

declare parse_flags.simps [simp del]

definition parseArgs :: "(gostring \<Rightarrow> int option) \<Rightarrow> gostring list \<Rightarrow> argument_error + cli_options" where
  "parseArgs pd args =
     (case parse_flags pd args default_options of
        Inl err \<Rightarrow> Inl err
      | Inr (opts, files) \<Rightarrow>
          (let opts = opts\<lparr>opt_Files := files, opt_Format := ToLower (TrimSpace (opt_Format opts))\<rparr> in
           if opt_Format opts \<noteq> ''text'' \<and> opt_Format opts \<noteq> ''json'' then Inl (UnsupportedFormat (opt_Format opts))
           else Inr (if \<not> opt_UseStdin opts \<and> opt_Files opts = [] then opts\<lparr>opt_UseStdin := True\<rparr> else opts)))"

section \<open>The configuration file\<close>

datatype config_file_error =
    Unreadable gostring
  | NotJSON gostring
  | UnsupportedVersion go_value
  | RulesRequired
  | RulesNotAnObject
  | NestedOption gostring gostring
  | RuleNotAnObject gostring

fun hasNestedStructure :: "go_value \<Rightarrow> bool" where
  "hasNestedStructure (VMap m) = True"
| "hasNestedStructure (VList vs) = list_ex hasNestedStructure vs"
| "hasNestedStructure _ = False"

definition nested_option :: "gostring \<times> go_value \<Rightarrow> (gostring \<times> gostring) option" where
  "nested_option entry =
     (case entry of
        (ruleID, VMap ruleConfig) \<Rightarrow>
          map_option (\<lambda>(optionKey, _). (ruleID, optionKey)) (find (\<lambda>(_, v). hasNestedStructure v) ruleConfig)
      | _ \<Rightarrow> None)"

fun rejectNestedConfigStructure :: "(gostring \<times> go_value) list \<Rightarrow> (gostring \<times> gostring) option" where
  "rejectNestedConfigStructure [] = None"
| "rejectNestedConfigStructure (entry # rest) =
     (case nested_option entry of Some x \<Rightarrow> Some x | None \<Rightarrow> rejectNestedConfigStructure rest)"

text \<open>Decoding an object into \<^verbatim>\<open>rules.Config\<close>: null gives a nil map.\<close>

type_synonym raw_config = "(gostring, rule_config option) gomap"

fun decode_config :: "(gostring \<times> go_value) list \<Rightarrow> config_file_error + raw_config" where
  "decode_config [] = Inr []"
| "decode_config ((ruleID, v) # rest) =
     (case (case v of VMap m \<Rightarrow> Some (Some m) | VNil \<Rightarrow> Some None | _ \<Rightarrow> None) of
        None \<Rightarrow> Inl (RuleNotAnObject ruleID)
      | Some rc \<Rightarrow> (case decode_config rest of Inl err \<Rightarrow> Inl err | Inr cfg \<Rightarrow> Inr ((ruleID, rc) # cfg)))"

text \<open>The loop that fills in the options a rule does not have; writing to a nil map panics.\<close>

fun backfill :: "rule_config \<Rightarrow> rule_config option \<Rightarrow> rule_config option option" where
  "backfill [] existing = Some existing"
| "backfill ((optionKey, v) # rest) existing =
     (case existing of
        None \<Rightarrow> None
      | Some options \<Rightarrow>
          backfill rest (Some (if map_of options optionKey \<noteq> None then options else AList.update optionKey v options)))"

definition options_of :: "rule_config option \<Rightarrow> rule_config" where
  "options_of rc = (case rc of None \<Rightarrow> [] | Some options \<Rightarrow> options)"

definition sorted_rule_ids :: "raw_config \<Rightarrow> gostring list" where
  "sorted_rule_ids cfg = sort (gm_keys cfg)"

definition cloneRuleConfig :: "rule_config option \<Rightarrow> rule_config option" where
  "cloneRuleConfig ruleCfg = map_option (map (\<lambda>(optionKey, optionValue). (optionKey, optionValue))) ruleCfg"

lemma cloneRuleConfig_eq [simp]: "cloneRuleConfig ruleCfg = ruleCfg"
  by (cases ruleCfg) (simp_all add: cloneRuleConfig_def)

fun alias_pass :: "raw_config \<Rightarrow> gostring list \<Rightarrow> raw_config \<Rightarrow> raw_config option" where
  "alias_pass cfg [] canonical = Some canonical"
| "alias_pass cfg (ruleID # ruleIDs) canonical =
     (let canonicalRuleID = TrimPrefix ruleID ''core/''; ruleCfg = (case map_of cfg ruleID of None \<Rightarrow> None | Some rc \<Rightarrow> rc) in
      case map_of canonical canonicalRuleID of
        None \<Rightarrow> alias_pass cfg ruleIDs (AList.update canonicalRuleID (cloneRuleConfig ruleCfg) canonical)
      | Some existing \<Rightarrow>
          (case backfill (options_of ruleCfg) existing of
             None \<Rightarrow> None
           | Some merged \<Rightarrow> alias_pass cfg ruleIDs (AList.update canonicalRuleID merged canonical)))"

definition canonicalizeConfigRuleKeys :: "raw_config \<Rightarrow> raw_config option" where
  "canonicalizeConfigRuleKeys cfg =
     (let ruleIDs = sorted_rule_ids cfg;
          canonical = map (\<lambda>ruleID. (ruleID, cloneRuleConfig (case map_of cfg ruleID of None \<Rightarrow> None | Some rc \<Rightarrow> rc)))
            (filter (\<lambda>ruleID. \<not> HasPrefix ruleID ''core/'') ruleIDs)
      in alias_pass cfg (filter (\<lambda>ruleID. HasPrefix ruleID ''core/'') ruleIDs) canonical)"

definition decode_rules :: "(gostring \<times> go_value) list \<Rightarrow> (config_file_error + raw_config) option" where
  "decode_rules m =
     (case rejectNestedConfigStructure m of
        Some (r, k) \<Rightarrow> Some (Inl (NestedOption r k))
      | None \<Rightarrow>
          (case decode_config m of
             Inl err \<Rightarrow> Some (Inl err)
           | Inr cfg \<Rightarrow> map_option Inr (canonicalizeConfigRuleKeys cfg)))"

text \<open>Encoding the rules object and decoding it again, as \<^verbatim>\<open>decodeRulesObject\<close> does, gives the same object.\<close>

definition decodeRulesObject :: "go_value \<Rightarrow> (config_file_error + raw_config) option" where
  "decodeRulesObject v = (case v of VMap m \<Rightarrow> decode_rules m | _ \<Rightarrow> Some (Inl RulesNotAnObject))"

definition parse_payload :: "(gostring \<times> go_value) list \<Rightarrow> (config_file_error + raw_config) option" where
  "parse_payload payload =
     (case map_of payload ''schema-version'' of
        Some version \<Rightarrow>
          if version \<noteq> VString CurrentConfigSchemaVersion then Some (Inl (UnsupportedVersion version))
          else (case map_of payload ''rules'' of
                  None \<Rightarrow> Some (Inl RulesRequired)
                | Some v \<Rightarrow> decodeRulesObject v)
      | None \<Rightarrow>
          (case map_of payload ''rules'' of
             Some v \<Rightarrow> decodeRulesObject v
           | None \<Rightarrow> decode_rules payload))"

definition parseConfigFile :: "(gostring \<Rightarrow> gostring + go_value) \<Rightarrow> gostring \<Rightarrow> (config_file_error + raw_config) option" where
  "parseConfigFile Unmarshal raw =
     (case Unmarshal raw of
        Inl err \<Rightarrow> Some (Inl (NotJSON err))
      | Inr (VMap payload) \<Rightarrow> parse_payload payload
      | Inr VNil \<Rightarrow> Some (Inr [])
      | Inr _ \<Rightarrow> Some (Inl (NotJSON ''json: cannot unmarshal into Go value of type map[string]interface {}'')))"

section \<open>Results\<close>

record output_result =
  out_Input :: gostring
  out_Valid :: bool
  out_DiagramType :: diagram_type
  out_Supported :: bool
  out_SyntaxError :: "syntax_error option"
  out_Issues :: "issue list"
  out_Error :: "(gostring \<times> gostring) option"

definition failed_result :: "gostring \<Rightarrow> gostring \<Rightarrow> gostring \<Rightarrow> output_result" where
  "failed_result name ec message = \<lparr>out_Input = name, out_Valid = False, out_DiagramType = [], out_Supported = False,
     out_SyntaxError = None, out_Issues = [], out_Error = Some (ec, message)\<rparr>"

type_synonym local_parser = "gostring \<Rightarrow> gostring + (diagram option + syntax_error)"

record cli_env =
  ce_ParseDuration :: "gostring \<Rightarrow> int option"
  ce_ReadFile :: "gostring \<Rightarrow> gostring + gostring"
  ce_Stdin :: "gostring + gostring"
  ce_ParserScript :: gostring
  ce_parserNew :: "gostring \<Rightarrow> gostring + local_parser"
  ce_Close :: "gostring option"
  ce_Unmarshal :: "gostring \<Rightarrow> gostring + go_value"
  ce_Send :: "gostring \<Rightarrow> gostring \<Rightarrow> gostring option \<Rightarrow> gostring + (int \<times> gostring)"
  ce_UnmarshalResult :: "gostring \<Rightarrow> gostring + output_result"
  ce_UnmarshalEnvelope :: "gostring \<Rightarrow> (gostring \<times> gostring) option"
  ce_StatusText :: "int \<Rightarrow> gostring"
  ce_EncodeResults :: "output_result list \<Rightarrow> gostring + gostring"
  ce_ord :: "gostring list \<Rightarrow> gostring list"
  ce_duration :: "gostring \<Rightarrow> int"

definition analyzeLocal :: "cli_env \<Rightarrow> gostring \<Rightarrow> gostring \<Rightarrow> config \<Rightarrow> local_parser \<Rightarrow> engine \<Rightarrow> output_result option" where
  "analyzeLocal env name src cfg p eng =
     (case p src of
        Inl err \<Rightarrow> Some (failed_result name ''internal_error'' err)
      | Inr (Inr syntaxErr) \<Rightarrow>
          Some \<lparr>out_Input = name, out_Valid = False, out_DiagramType = [], out_Supported = False,
            out_SyntaxError = Some syntaxErr, out_Issues = [], out_Error = None\<rparr>
      | Inr (Inl diagram) \<Rightarrow>
          (let issues = fst (Run (ce_ord env) (ce_duration env) eng diagram cfg) in
           case diagram of
             None \<Rightarrow> None
           | Some d \<Rightarrow>
               if length issues = 1 \<and> iss_RuleID (hd issues) = ''unsupported-diagram-type''
               then Some ((failed_result name ''unsupported_diagram_type'' (iss_Message (hd issues)))\<lparr>out_DiagramType := diag_Type d\<rparr>)
               else Some \<lparr>out_Input = name, out_Valid = True, out_DiagramType = diag_Type d, out_Supported = True,
                      out_SyntaxError = None, out_Issues = issues, out_Error = None\<rparr>))"

definition TrimRightSlash :: "gostring \<Rightarrow> gostring" where
  "TrimRightSlash s = rev (dropWhile ((=) CHR ''/'') (rev s))"

definition endpoint_of :: "gostring \<Rightarrow> gostring" where
  "endpoint_of url = (let endpoint = TrimRightSlash url in if HasSuffix endpoint ''/analyze'' then endpoint else endpoint @ ''/analyze'')"

text \<open>
  Encoding, sending and reading the answer are one step of the environment; its error is the transport
  error of the program, the value \<open>Inl\<close>.
\<close>

definition analyzeRemote :: "cli_env \<Rightarrow> gostring \<Rightarrow> gostring \<Rightarrow> gostring option \<Rightarrow> cli_options \<Rightarrow> gostring + output_result" where
  "analyzeRemote env name src cfgRaw opts =
     (case ce_Send env (endpoint_of (opt_URL opts)) src cfgRaw of
        Inl err \<Rightarrow> Inl err
      | Inr (status, bytes) \<Rightarrow>
          if 200 \<le> status \<and> status < 300 then
            (case ce_UnmarshalResult env bytes of
               Inl err \<Rightarrow>
                 Inr (failed_result name ''invalid_response''
                   (''remote server returned HTTP '' @ Itoa status @ '' with invalid JSON body: '' @ err))
             | Inr result \<Rightarrow> Inr (result\<lparr>out_Input := name\<rparr>))
          else
            (let (ec, message) = (''http_error'', TrimSpace bytes);
                 (ec, message) = (case ce_UnmarshalEnvelope env bytes of
                     None \<Rightarrow> (ec, message)
                   | Some (ec', message') \<Rightarrow>
                       (if TrimSpace ec' \<noteq> [] then ec' else ec, if TrimSpace message' \<noteq> [] then message' else message));
                 message = (if message = [] then ce_StatusText env status else message)
             in Inr (failed_result name ec (''remote server returned HTTP '' @ Itoa status @ '': '' @ message))))"

definition isSyntaxFailure :: "output_result \<Rightarrow> bool" where
  "isSyntaxFailure result = (if out_SyntaxError result \<noteq> None then True else \<not> out_Valid result \<and> out_Error result = None)"

section \<open>Output and exit code\<close>

definition issue_text :: "issue \<Rightarrow> gostring" where
  "issue_text issue = ''  - ['' @ iss_Severity issue @ ''] '' @ iss_RuleID issue @ '': '' @ iss_Message issue @ [CHR 0x0A]"

definition result_text :: "output_result \<Rightarrow> gostring" where
  "result_text result =
     out_Input result @ '': '' @
     (case out_Error result of
        Some (ec, message) \<Rightarrow> ''error ('' @ ec @ ''): '' @ message @ [CHR 0x0A]
      | None \<Rightarrow>
          (case out_SyntaxError result of
             Some e \<Rightarrow> ''syntax error at '' @ Itoa (se_Line e) @ '':'' @ Itoa (se_Column e) @ '': '' @ se_Message e @ [CHR 0x0A]
           | None \<Rightarrow>
               if out_Issues result = [] then ''ok'' @ [CHR 0x0A]
               else Itoa (int (length (out_Issues result))) @ '' lint issue(s)'' @ [CHR 0x0A] @ concat (map issue_text (out_Issues result))))"

definition emitOutput :: "cli_env \<Rightarrow> output_result list \<Rightarrow> gostring \<Rightarrow> gostring + gostring" where
  "emitOutput env results fmt =
     (if fmt = ''json'' then ce_EncodeResults env results else Inr (concat (map result_text results)))"

record run_summary =
  sum_Results :: "output_result list"
  sum_HasFindings :: bool
  sum_HasInternalFailure :: bool
  sum_HasTransport :: bool

definition chooseExitCode :: "run_summary \<Rightarrow> int" where
  "chooseExitCode summary =
     (if sum_HasTransport summary then 3 else if sum_HasInternalFailure summary then 2 else if sum_HasFindings summary then 1 else 0)"

definition internal_failure :: "output_result \<Rightarrow> bool" where
  "internal_failure result =
     (case out_Error result of None \<Rightarrow> False | Some (ec, _) \<Rightarrow> ec \<noteq> ''unsupported_diagram_type'' \<and> ec \<noteq> ''transport_error'')"

definition add_result :: "cli_options \<Rightarrow> output_result \<Rightarrow> bool \<Rightarrow> run_summary \<Rightarrow> run_summary" where
  "add_result opts result transport s =
     \<lparr>sum_Results = sum_Results s @ [result],
      sum_HasFindings = (sum_HasFindings s \<or> isSyntaxFailure result \<and> opt_FailOnSyntax opts \<or> out_Issues result \<noteq> [] \<and> opt_FailOnLint opts),
      sum_HasInternalFailure = (sum_HasInternalFailure s \<or> internal_failure result),
      sum_HasTransport = (sum_HasTransport s \<or> transport)\<rparr>"

section \<open>A run\<close>

datatype cli_failure =
    ArgumentError argument_error
  | ConfigError config_file_error
  | InputError gostring
  | ParserInitError gostring
  | ConfigValidationError config_error
  | OutputError gostring
  | CloseError gostring

record cli_result =
  cli_exit :: int
  cli_stdout :: gostring
  cli_stderr :: "cli_failure list"

definition readConfig :: "cli_env \<Rightarrow> gostring \<Rightarrow> (config_file_error + (gostring option \<times> raw_config)) option" where
  "readConfig env path =
     (if TrimSpace path = [] then Some (Inr (None, []))
      else case ce_ReadFile env path of
        Inl err \<Rightarrow> Some (Inl (Unreadable err))
      | Inr raw \<Rightarrow>
          (case parseConfigFile (ce_Unmarshal env) raw of
             None \<Rightarrow> None
           | Some (Inl err) \<Rightarrow> Some (Inl err)
           | Some (Inr cfg) \<Rightarrow> Some (Inr (Some raw, cfg))))"

fun read_files :: "cli_env \<Rightarrow> gostring list \<Rightarrow> gostring + (gostring \<times> gostring) list" where
  "read_files env [] = Inr []"
| "read_files env (path # paths) =
     (case ce_ReadFile env path of
        Inl err \<Rightarrow> Inl (''read '' @ path @ '': '' @ err)
      | Inr content \<Rightarrow> (case read_files env paths of Inl err \<Rightarrow> Inl err | Inr inputs \<Rightarrow> Inr ((path, content) # inputs)))"

definition collectInputs :: "cli_env \<Rightarrow> cli_options \<Rightarrow> gostring + (gostring \<times> gostring) list" where
  "collectInputs env opts =
     (case (if opt_UseStdin opts then map_sum (\<lambda>e. e) (\<lambda>buf. [(''stdin'', buf)]) (ce_Stdin env) else Inr []) of
        Inl err \<Rightarrow> Inl err
      | Inr inputs \<Rightarrow> map_sum (\<lambda>e. e) (\<lambda>files. inputs @ files) (read_files env (opt_Files opts)))"

text \<open>The loop over the inputs; \<open>analyze\<close> gives a result and whether the transport failed.\<close>

fun analyze_all ::
  "(gostring \<Rightarrow> gostring \<Rightarrow> (output_result \<times> bool) option) \<Rightarrow> cli_options \<Rightarrow> (gostring \<times> gostring) list \<Rightarrow> run_summary \<Rightarrow> run_summary option" where
  "analyze_all analyze opts [] s = Some s"
| "analyze_all analyze opts ((name, src) # inputs) s =
     (case analyze name src of
        None \<Rightarrow> None
      | Some (result, transport) \<Rightarrow> analyze_all analyze opts inputs (add_result opts result transport s))"

definition remote_step :: "cli_env \<Rightarrow> gostring option \<Rightarrow> cli_options \<Rightarrow> gostring \<Rightarrow> gostring \<Rightarrow> (output_result \<times> bool) option" where
  "remote_step env cfgRaw opts name src =
     (case analyzeRemote env name src cfgRaw opts of
        Inl err \<Rightarrow> Some (failed_result name ''transport_error'' err, True)
      | Inr result \<Rightarrow> Some (result, False))"

definition local_step :: "cli_env \<Rightarrow> config \<Rightarrow> local_parser \<Rightarrow> engine \<Rightarrow> gostring \<Rightarrow> gostring \<Rightarrow> (output_result \<times> bool) option" where
  "local_step env cfg p eng name src = map_option (\<lambda>result. (result, False)) (analyzeLocal env name src cfg p eng)"

definition empty_summary :: run_summary where
  "empty_summary = \<lparr>sum_Results = [], sum_HasFindings = False, sum_HasInternalFailure = False, sum_HasTransport = False\<rparr>"

definition finish :: "cli_env \<Rightarrow> cli_options \<Rightarrow> run_summary option \<Rightarrow> cli_result option" where
  "finish env opts summary =
     (case summary of
        None \<Rightarrow> None
      | Some s \<Rightarrow>
          (case emitOutput env (sum_Results s) (opt_Format opts) of
             Inl err \<Rightarrow> Some \<lparr>cli_exit = 2, cli_stdout = [], cli_stderr = [OutputError err]\<rparr>
           | Inr text \<Rightarrow> Some \<lparr>cli_exit = chooseExitCode s, cli_stdout = text, cli_stderr = []\<rparr>))"

definition failing :: "cli_failure \<Rightarrow> cli_result option" where
  "failing f = Some \<lparr>cli_exit = 2, cli_stdout = [], cli_stderr = [f]\<rparr>"

definition script_path :: "cli_env \<Rightarrow> gostring" where
  "script_path env = (if TrimSpace (ce_ParserScript env) = [] then ''parser-node/parse.ts'' else ce_ParserScript env)"

text \<open>The deferred call closes the parser and reports its error.\<close>

definition closing_parser :: "cli_env \<Rightarrow> cli_result option \<Rightarrow> cli_result option" where
  "closing_parser env r =
     map_option (\<lambda>r. case ce_Close env of None \<Rightarrow> r | Some err \<Rightarrow> r\<lparr>cli_stderr := cli_stderr r @ [CloseError err]\<rparr>) r"

definition engine_config :: "raw_config \<Rightarrow> config" where
  "engine_config cfg = map (\<lambda>(r, rc). (r, options_of rc)) cfg"

definition run_local :: "cli_env \<Rightarrow> cli_options \<Rightarrow> config \<Rightarrow> (gostring \<times> gostring) list \<Rightarrow> cli_result option" where
  "run_local env opts cfg inputs =
     (case ce_parserNew env (script_path env) of
        Inl err \<Rightarrow> failing (ParserInitError err)
      | Inr p \<Rightarrow>
          closing_parser env
            (case New of
               Inl _ \<Rightarrow> None
             | Inr (eng, _) \<Rightarrow>
                 (case engine_NormalizeConfig (ce_ord env) eng cfg of
                    Inl err \<Rightarrow> failing (ConfigValidationError err)
                  | Inr _ \<Rightarrow> finish env opts (analyze_all (local_step env cfg p eng) opts inputs empty_summary))))"

definition cli_run :: "cli_env \<Rightarrow> gostring list \<Rightarrow> cli_result option" where
  "cli_run env args =
     (case parseArgs (ce_ParseDuration env) args of
        Inl err \<Rightarrow> failing (ArgumentError err)
      | Inr opts \<Rightarrow>
          (case readConfig env (opt_ConfigPath opts) of
             None \<Rightarrow> None
           | Some (Inl err) \<Rightarrow> failing (ConfigError err)
           | Some (Inr (cfgRaw, cfg)) \<Rightarrow>
               (case collectInputs env opts of
                  Inl err \<Rightarrow> failing (InputError err)
                | Inr inputs \<Rightarrow>
                    if opt_URL opts = [] then run_local env opts (engine_config cfg) inputs
                    else finish env opts (analyze_all (remote_step env cfgRaw opts) opts inputs empty_summary))))"

end
