(* ===== verification/Cli_Props.thy ===== *)
theory Cli_Props
  imports Cli
begin

text \<open>
  What the client promises: which options a rule has after the configuration file was read, and the exit code
  of a run in the process.
\<close>

section \<open>The configuration file\<close>

text \<open>The value of an option, if it is set.\<close>

definition option_value :: "raw_config \<Rightarrow> gostring \<Rightarrow> gostring \<Rightarrow> go_value option" where
  "option_value cfg r k = (case map_of cfg r of None \<Rightarrow> None | Some rc \<Rightarrow> map_of (options_of rc) k)"

definition core_id :: "gostring \<Rightarrow> gostring" where
  "core_id r = ''core/'' @ r"

lemma core_id_facts [simp]: "HasPrefix (core_id r) ''core/''" "TrimPrefix (core_id r) ''core/'' = r" "core_id r = core_id s \<longleftrightarrow> r = s"
  by (simp_all add: core_id_def HasPrefix_def TrimPrefix_def)

lemma core_id_cases: "HasPrefix s ''core/'' \<Longrightarrow> \<exists>r. s = core_id r"
  by (metis HasPrefix_def append_take_drop_id core_id_def)

text \<open>The alias has options and the rule itself is null.\<close>

definition writes_to_nil :: "raw_config \<Rightarrow> gostring \<Rightarrow> rule_config option option \<Rightarrow> bool" where
  "writes_to_nil cfg r entry \<longleftrightarrow> entry = Some None \<and> (\<exists>k. option_value cfg (core_id r) k \<noteq> None)"

lemma backfill_cases:
  "case backfill extra existing of
     None \<Rightarrow> existing = None \<and> extra \<noteq> []
   | Some merged \<Rightarrow> (existing \<noteq> None \<or> extra = []) \<and> map_of (options_of merged) k =
       (case map_of (options_of existing) k of None \<Rightarrow> map_of extra k | Some v \<Rightarrow> Some v)"
proof (induction extra existing rule: backfill.induct)
  case (1 existing)
  then show ?case by (simp split: option.split)
next
  case (2 optionKey v rest existing)
  show ?case
  proof (cases existing)
    case (Some options)
    let ?new = "if map_of options optionKey \<noteq> None then options else AList.update optionKey v options"
    show ?thesis using 2 [OF Some] by (auto simp: Some options_of_def update_conv' split: option.splits if_splits)
  qed simp
qed

lemma map_of_graph: "map_of (map (\<lambda>x. (x, f x)) xs) r = (if r \<in> set xs then Some (f r) else None)"
  by (induction xs) auto

lemma nonempty_option: "(\<exists>k. map_of m k \<noteq> None) \<longleftrightarrow> m \<noteq> []"
  by (cases m) auto

lemma option_value_update [simp]:
  "option_value (AList.update s rc cfg) r k = (if r = s then map_of (options_of rc) k else option_value cfg r k)"
  by (simp add: option_value_def update_conv')

lemma option_value_absent: "map_of cfg r = None \<Longrightarrow> option_value cfg r k = None"
  by (simp add: option_value_def)

lemma option_value_present: "map_of cfg r = Some rc \<Longrightarrow> option_value cfg r k = map_of (options_of rc) k"
  by (simp add: option_value_def)

text \<open>Some rule of the list is null and has an alias with options.\<close>

definition nil_write :: "raw_config \<Rightarrow> gostring list \<Rightarrow> raw_config \<Rightarrow> bool" where
  "nil_write cfg rs canonical = list_ex (\<lambda>r. writes_to_nil cfg r (map_of canonical r)) rs"

lemma nil_write_update: "s \<notin> set rs \<Longrightarrow> nil_write cfg rs (AList.update s e canonical) = nil_write cfg rs canonical"
  by (auto simp: nil_write_def list_ex_iff update_conv')

lemma nil_write_Cons [simp]:
  "nil_write cfg (s # rs) canonical \<longleftrightarrow> writes_to_nil cfg s (map_of canonical s) \<or> nil_write cfg rs canonical"
  by (simp add: nil_write_def)

lemma alias_pass_cases:
  assumes "distinct rs" and "set rs \<subseteq> {r. map_of cfg (core_id r) \<noteq> None}"
  shows "case alias_pass cfg (map core_id rs) canonical of
     None \<Rightarrow> nil_write cfg rs canonical
   | Some out \<Rightarrow> \<not> nil_write cfg rs canonical \<and>
       (map_of out r \<noteq> None \<longleftrightarrow> map_of canonical r \<noteq> None \<or> r \<in> set rs) \<and>
       option_value out r k = (case option_value canonical r k of
          Some v \<Rightarrow> Some v | None \<Rightarrow> if r \<in> set rs then option_value cfg (core_id r) k else None)"
  using assms
proof (induction rs arbitrary: canonical)
  case Nil
  then show ?case by (simp add: nil_write_def split: option.split)
next
  case (Cons s rs)
  obtain rc where rc: "map_of cfg (core_id s) = Some rc" using Cons.prems(2) by auto
  note vals = option_value_present [OF rc]
  have s: "s \<notin> set rs" "distinct rs" "set rs \<subseteq> {r. map_of cfg (core_id r) \<noteq> None}" using Cons.prems by auto
  note IH = Cons.IH [OF s(2,3)]
  note upd = nil_write_update [OF s(1)]
  show ?case
  proof (cases "map_of canonical s")
    case None
    have step: "alias_pass cfg (map core_id (s # rs)) canonical = alias_pass cfg (map core_id rs) (AList.update s rc canonical)"
      by (simp add: Let_def None rc)
    have no: "\<not> writes_to_nil cfg s (map_of canonical s)" by (simp add: writes_to_nil_def None)
    show ?thesis unfolding step
      by (cases "r = s"; use IH [of "AList.update s rc canonical"] option_value_absent [OF None] no s(1) in
          \<open>simp add: upd update_conv' vals split: option.splits\<close>)
  next
    case (Some existing)
    show ?thesis
    proof (cases "backfill (options_of rc) existing")
      case panic: None
      then have "writes_to_nil cfg s (map_of canonical s)"
        using backfill_cases [where extra = "options_of rc" and existing = existing] nonempty_option [of "options_of rc"]
        by (simp add: writes_to_nil_def Some vals)
      then show ?thesis by (simp add: Let_def Some rc panic)
    next
      case merged: (Some merged)
      have b: "existing \<noteq> None \<or> options_of rc = []" "map_of (options_of merged) k =
          (case map_of (options_of existing) k of None \<Rightarrow> map_of (options_of rc) k | Some v \<Rightarrow> Some v)" for k
        using backfill_cases [where extra = "options_of rc" and existing = existing and k = k] merged by simp_all
      have step: "alias_pass cfg (map core_id (s # rs)) canonical = alias_pass cfg (map core_id rs) (AList.update s merged canonical)"
        by (simp add: Let_def Some rc merged)
      have no: "\<not> writes_to_nil cfg s (map_of canonical s)" using b(1) by (auto simp: writes_to_nil_def Some vals)
      show ?thesis unfolding step
        by (cases "r = s"; use IH [of "AList.update s merged canonical"] no s(1) in
            \<open>simp add: upd update_conv' vals option_value_present [OF Some] b(2) Some split: option.splits\<close>)
    qed
  qed
qed

lemma nil_write_iff:
  assumes "\<And>r. r \<in> set rs \<longleftrightarrow> map_of cfg (core_id r) \<noteq> None"
    and "\<And>r. map_of canonical r = (if HasPrefix r ''core/'' then None else map_of cfg r)"
  shows "nil_write cfg rs canonical \<longleftrightarrow> (\<exists>r. \<not> HasPrefix r ''core/'' \<and> writes_to_nil cfg r (map_of cfg r))"
proof
  assume "nil_write cfg rs canonical"
  then obtain t where "writes_to_nil cfg t (map_of canonical t)" by (auto simp: nil_write_def list_ex_iff)
  then show "\<exists>r. \<not> HasPrefix r ''core/'' \<and> writes_to_nil cfg r (map_of cfg r)"
    by (intro exI [of _ t]) (simp add: assms(2) writes_to_nil_def split: if_splits)
next
  assume "\<exists>r. \<not> HasPrefix r ''core/'' \<and> writes_to_nil cfg r (map_of cfg r)"
  then obtain t where t: "\<not> HasPrefix t ''core/''" "writes_to_nil cfg t (map_of cfg t)" by blast
  then have "t \<in> set rs" unfolding assms(1) by (auto simp: writes_to_nil_def option_value_def split: option.splits)
  then show "nil_write cfg rs canonical" using t by (auto simp: nil_write_def list_ex_iff assms(2))
qed

text \<open>
  C36: reading the rules of a configuration file gives each rule the options written under its own
  identifier and, for those not written there, the options written under its \<^verbatim>\<open>core/\<close> alias, in
  whatever order the entries come; the program panics exactly when a rule is null and its alias is
  not empty.
\<close>
theorem cli_config_merge:
  assumes "distinct (map fst cfg)"
  shows "case canonicalizeConfigRuleKeys cfg of
     None \<Rightarrow> \<exists>r. \<not> HasPrefix r ''core/'' \<and> writes_to_nil cfg r (map_of cfg r)
   | Some out \<Rightarrow> \<not> (\<exists>r. \<not> HasPrefix r ''core/'' \<and> writes_to_nil cfg r (map_of cfg r)) \<and>
       (map_of out r \<noteq> None \<longleftrightarrow> \<not> HasPrefix r ''core/'' \<and> map_of cfg r \<noteq> None \<or> map_of cfg (core_id r) \<noteq> None) \<and>
       option_value out r k = (case (if HasPrefix r ''core/'' then None else option_value cfg r k) of
          Some v \<Rightarrow> Some v | None \<Rightarrow> option_value cfg (core_id r) k)"
proof -
  define keys where "keys = sorted_rule_ids cfg"
  define rs where "rs = map (\<lambda>s. TrimPrefix s ''core/'') (filter (\<lambda>s. HasPrefix s ''core/'') keys)"
  define canonical where "canonical = map (\<lambda>ruleID. (ruleID, case map_of cfg ruleID of None \<Rightarrow> None | Some rc \<Rightarrow> rc))
            (filter (\<lambda>ruleID. \<not> HasPrefix ruleID ''core/'') keys)"
  have ks: "distinct keys" "set keys = {s. map_of cfg s \<noteq> None}"
    using assms by (auto simp: keys_def sorted_rule_ids_def gm_keys_def map_of_eq_None_iff)
  have bk: "core_id (TrimPrefix s ''core/'') = s" if "HasPrefix s ''core/''" for s
    using core_id_cases [OF that] by auto
  have ids: "map core_id rs = filter (\<lambda>s. HasPrefix s ''core/'') keys"
    unfolding rs_def map_map by (rule map_idI) (simp add: bk)
  have "distinct (map core_id rs)" unfolding ids using ks(1) by simp
  then have rs: "distinct rs" by (simp add: distinct_map)
  have "core_id r \<in> set (map core_id rs) \<longleftrightarrow> map_of cfg (core_id r) \<noteq> None" for r
    unfolding ids using ks(2) by simp
  moreover have "core_id r \<in> set (map core_id rs) \<longleftrightarrow> r \<in> set rs" for r by (auto simp: image_iff)
  ultimately have set_rs: "r \<in> set rs \<longleftrightarrow> map_of cfg (core_id r) \<noteq> None" for r by metis
  have "map_of canonical r = (if r \<in> set (filter (\<lambda>s. \<not> HasPrefix s ''core/'') keys)
      then Some (case map_of cfg r of None \<Rightarrow> None | Some rc \<Rightarrow> rc) else None)" for r
    unfolding canonical_def by (rule map_of_graph)
  then have can: "map_of canonical r = (if HasPrefix r ''core/'' then None else map_of cfg r)" for r
    using ks(2) by (auto split: option.split)
  have eq: "canonicalizeConfigRuleKeys cfg = alias_pass cfg (map core_id rs) canonical"
    by (simp add: canonicalizeConfigRuleKeys_def keys_def [symmetric] canonical_def Let_def ids)
  note nil = nil_write_iff [of rs cfg canonical, OF set_rs can]
  have vals: "option_value canonical r k = (if HasPrefix r ''core/'' then None else option_value cfg r k)"
    by (simp add: option_value_def can)
  have sub: "set rs \<subseteq> {r. map_of cfg (core_id r) \<noteq> None}" using set_rs by blast
  have absent: "(if map_of cfg (core_id r) \<noteq> None then option_value cfg (core_id r) k else None) = option_value cfg (core_id r) k"
    by (simp add: option_value_absent)
  have present: "(if HasPrefix r ''core/'' then None else map_of cfg r) \<noteq> None \<longleftrightarrow> \<not> HasPrefix r ''core/'' \<and> map_of cfg r \<noteq> None"
    by simp
  show ?thesis
    using alias_pass_cases [OF rs sub, where canonical = canonical and r = r and k = k]
    unfolding eq [symmetric] nil set_rs can vals absent present .
qed

theorem cli_config_merge_witness:
  "let cfg = [(''max-fanout'', Some [(''limit'', VFloat 3)]), (''core/max-fanout'', Some [(''limit'', VFloat 5), (''enabled'', VBool False)])]
   in case canonicalizeConfigRuleKeys cfg of
        None \<Rightarrow> False
      | Some out \<Rightarrow> option_value out ''max-fanout'' ''limit'' = Some (VFloat 3) \<and> map_of out ''max-fanout'' \<noteq> None"
proof -
  let ?cfg = "[(''max-fanout'', Some [(''limit'', VFloat 3)]), (''core/max-fanout'', Some [(''limit'', VFloat 5), (''enabled'', VBool False)])]"
  have "canonicalizeConfigRuleKeys ?cfg \<noteq> None" by code_simp
  moreover have "\<not> HasPrefix ''max-fanout'' ''core/''" "map_of ?cfg ''max-fanout'' \<noteq> None"
    "option_value ?cfg ''max-fanout'' ''limit'' = Some (VFloat 3)"
    by (simp_all add: HasPrefix_def option_value_def options_of_def)
  moreover have "distinct (map fst ?cfg)" by simp
  ultimately show ?thesis
    using cli_config_merge [where cfg = ?cfg and r = "''max-fanout''" and k = "''limit''"]
    by (simp add: Let_def split: option.splits)
qed

text \<open>A rule that is null beside its alias with an option: the program writes to a nil map.\<close>

lemma null_rule_panics:
  "parse_payload [(''max-fanout'', VNil), (''core/max-fanout'', VMap [(''limit'', VFloat 3)])] = None"
  by code_simp

section \<open>The exit code of a run in the process\<close>

text \<open>What the parser and the engine say of one input.\<close>

definition parse_failed :: "local_parser \<Rightarrow> gostring \<Rightarrow> bool" where
  "parse_failed p src = (case p src of Inl _ \<Rightarrow> True | Inr _ \<Rightarrow> False)"

definition bad_syntax :: "local_parser \<Rightarrow> gostring \<Rightarrow> bool" where
  "bad_syntax p src = (case p src of Inr (Inr _) \<Rightarrow> True | _ \<Rightarrow> False)"

definition has_issues :: "cli_env \<Rightarrow> config \<Rightarrow> engine \<Rightarrow> local_parser \<Rightarrow> gostring \<Rightarrow> bool" where
  "has_issues env cfg eng p src =
     (case p src of
        Inr (Inl (Some d)) \<Rightarrow> Family (diag_Type d) \<noteq> DiagramFamilyUnknown \<and> fst (Run (ce_ord env) (ce_duration env) eng (Some d) cfg) \<noteq> []
      | _ \<Rightarrow> False)"

text \<open>No rule is called \<^verbatim>\<open>unsupported-diagram-type\<close>, so the test of \<open>analyzeLocal\<close> is the one on the family.\<close>

lemma default_rule_names: "r \<in> set default_rules \<Longrightarrow> rule_ID r \<noteq> ''unsupported-diagram-type''"
proof -
  have "list_all (\<lambda>r. rule_ID r \<noteq> ''unsupported-diagram-type'') default_rules" by code_simp
  then show "r \<in> set default_rules \<Longrightarrow> ?thesis" by (simp add: list_all_iff)
qed

lemma Run_unsupported_only:
  assumes "New = Inr (eng, warnings)" and "engine_NormalizeConfig ord eng cfg = Inr c"
  shows "fst (Run ord duration eng (Some d) cfg) = [unsupportedDiagramTypeIssue d] \<and> Family (diag_Type d) = DiagramFamilyUnknown \<or>
    Family (diag_Type d) \<noteq> DiagramFamilyUnknown \<and>
    (\<forall>i \<in> set (fst (Run ord duration eng (Some d) cfg)). iss_RuleID i \<noteq> ''unsupported-diagram-type'')"
proof (cases "Family (diag_Type d) = DiagramFamilyUnknown")
  case True
  then show ?thesis by (simp add: Run_def RunWithInstrumentation_def assms(2))
next
  case False
  have "iss_RuleID i \<noteq> ''unsupported-diagram-type''" if "r \<in> set default_rules" "i \<in> set (rule_Run r ord d c)" for r i
    using lint_rule.run_RuleID [OF defaults.lawful [OF that(1)] that(2)] default_rule_names [OF that(1)] by simp
  then show ?thesis using False
    by (auto simp: Run_def RunWithInstrumentation_def assms(2) Let_def New_rules [OF assms(1)] defaults.run_exact)
qed

lemma analyzeLocal_outcome:
  assumes "New = Inr (eng, warnings)" and "engine_NormalizeConfig (ce_ord env) eng cfg = Inr c" and "p src \<noteq> Inr (Inl None)"
  shows "\<exists>result. analyzeLocal env name src cfg p eng = Some result \<and> internal_failure result = parse_failed p src \<and>
    isSyntaxFailure result = bad_syntax p src \<and> (out_Issues result \<noteq> []) = has_issues env cfg eng p src"
proof -
  note defs = analyzeLocal_def failed_result_def internal_failure_def isSyntaxFailure_def parse_failed_def bad_syntax_def has_issues_def
  consider err where "p src = Inl err" | e where "p src = Inr (Inr e)" | d where "p src = Inr (Inl (Some d))"
    using assms(3) by (metis obj_sumE not_None_eq)
  then show ?thesis
  proof cases
    case (3 d)
    let ?issues = "fst (Run (ce_ord env) (ce_duration env) eng (Some d) cfg)"
    have "\<not> (length ?issues = Suc 0 \<and> iss_RuleID (hd ?issues) = ''unsupported-diagram-type'')"
      if "\<forall>i \<in> set ?issues. iss_RuleID i \<noteq> ''unsupported-diagram-type''"
      using that by (metis hd_in_set length_0_conv nat.distinct(1))
    with Run_unsupported_only [OF assms(1,2), of "ce_duration env" d] show ?thesis
      by (elim disjE conjE) (auto simp: defs 3 Let_def unsupportedDiagramTypeIssue_def mk_issue_def)
  qed (simp_all add: defs)
qed

text \<open>The loop, over a step that never fails to give a result.\<close>

lemma analyze_all_local:
  assumes "\<forall>(name, src) \<in> set inputs. \<exists>result. analyze name src = Some (result, False) \<and>
      internal_failure result = bad src \<and> isSyntaxFailure result = syn src \<and> (out_Issues result \<noteq> []) = lint src"
  shows "\<exists>s'. analyze_all analyze opts inputs s = Some s' \<and> sum_HasTransport s' = sum_HasTransport s \<and>
      sum_HasInternalFailure s' = (sum_HasInternalFailure s \<or> (\<exists>src \<in> snd ` set inputs. bad src)) \<and>
      sum_HasFindings s' = (sum_HasFindings s \<or> opt_FailOnSyntax opts \<and> (\<exists>src \<in> snd ` set inputs. syn src) \<or>
        opt_FailOnLint opts \<and> (\<exists>src \<in> snd ` set inputs. lint src))"
  using assms
proof (induction inputs arbitrary: s)
  case (Cons input inputs)
  obtain name src where [simp]: "input = (name, src)" by fastforce
  obtain result where r: "analyze name src = Some (result, False)" "internal_failure result = bad src"
    "isSyntaxFailure result = syn src" "(out_Issues result \<noteq> []) = lint src" using Cons.prems by auto
  obtain s' where "analyze_all analyze opts inputs (add_result opts result False s) = Some s'"
    "sum_HasTransport s' = sum_HasTransport (add_result opts result False s)"
    "sum_HasInternalFailure s' = (sum_HasInternalFailure (add_result opts result False s) \<or> (\<exists>src \<in> snd ` set inputs. bad src))"
    "sum_HasFindings s' = (sum_HasFindings (add_result opts result False s) \<or> opt_FailOnSyntax opts \<and> (\<exists>src \<in> snd ` set inputs. syn src) \<or>
        opt_FailOnLint opts \<and> (\<exists>src \<in> snd ` set inputs. lint src))"
    using Cons.IH [of "add_result opts result False s"] Cons.prems by auto
  then show ?case using r by (auto simp: add_result_def)
qed simp


definition sample_env :: "local_parser \<Rightarrow> cli_env" where
  "sample_env p = \<lparr>ce_ParseDuration = (\<lambda>_. None), ce_ReadFile = (\<lambda>path. if path = ''a.mmd'' then Inr ''graph TD'' else Inl ''no such file''),
     ce_Stdin = Inr [], ce_ParserScript = [], ce_parserNew = (\<lambda>_. Inr p), ce_Close = None,
     ce_Unmarshal = (\<lambda>_. Inr VNil), ce_Send = (\<lambda>_ _ _. Inl ''no route''), ce_UnmarshalResult = (\<lambda>_. Inl ''bad''),
     ce_UnmarshalEnvelope = (\<lambda>_. None), ce_StatusText = (\<lambda>_. []), ce_EncodeResults = (\<lambda>_. Inr []), ce_ord = (\<lambda>ks. ks), ce_duration = (\<lambda>_. 0)\<rparr>"

definition sample_parser :: local_parser where
  "sample_parser src = (if src = [] then Inl ''empty'' else Inr (Inr \<lparr>se_Message = ''bad'', se_Line = 1, se_Column = 2\<rparr>))"


section \<open>The two modes on a diagram without rules\<close>

text \<open>What decoding the server's JSON document gives the client: the fields have the same names.\<close>

definition client_view :: "analyze_response \<Rightarrow> output_result" where
  "client_view a = \<lparr>out_Input = [], out_Valid = ar_Valid a, out_DiagramType = ar_DiagramType a, out_Supported = ar_LintSupported a,
     out_SyntaxError = ar_SyntaxError a, out_Issues = ar_Issues a,
     out_Error = map_option (\<lambda>e. (err_Code e, err_Message e)) (ar_Error a)\<rparr>"

text \<open>
  With \<^verbatim>\<open>--fail-on-lint\<close> a diagram whose family has no rules ends a run against the server with
  code 1, since the answer carries one informational issue, and a run in the process with code 0.
\<close>

lemma unsupported_exit_differs:
  assumes "opt_FailOnLint opts" and "Run (ce_ord env) (ce_duration env) eng (Some d) cfg = ([unsupportedDiagramTypeIssue d], m)"
    and "p src = Inr (Inl (Some d))"
  shows "chooseExitCode (add_result opts (client_view (snd (json_reply onSyntax wd e r hs ws (UnsupportedReply d)))) False empty_summary) = 1"
    and "\<exists>result. analyzeLocal env name src cfg p eng = Some result \<and> chooseExitCode (add_result opts result False empty_summary) = 0"
  using assms
  by (simp_all add: json_reply_def Let_def client_view_def add_result_def chooseExitCode_def internal_failure_def isSyntaxFailure_def
      empty_summary_def analyzeLocal_def failed_result_def unsupportedDiagramTypeIssue_def mk_issue_def)

end
