(* ===== verification/Openapi_Doc.thy ===== *)
theory Openapi_Doc
  imports Registry
begin

text \<open>
  The OpenAPI document of the service, the literal \<^verbatim>\<open>openapi\<close> of \<^verbatim>\<open>internal/api/openapi.go\<close>, member by
  member: one definition for each path, each schema and each large part of them.
\<close>

definition SeverityMappingDoc :: gostring where
  "SeverityMappingDoc = ''Severity mapping to SARIF level: error->error, warning/warn->warning, info->note.''"

definition ConfigJSONSchema :: go_value where
  "ConfigJSONSchema = ConfigJSONSchemaForRuleIDs []"

definition path_healthz :: go_value where
  "path_healthz =
    VMap [
      (''get'', VMap [
        (''tags'', VStrings [''Probes'']),
        (''summary'', VString ''Liveness probe (canonical v1)''),
        (''description'', VString ''Canonical v1 process liveness-only probe. Returns process liveness status (dependency checks are handled by /ready).''),
        (''operationId'', VString ''getHealthz''),
        (''responses'', VMap [
          (''200'', VMap [
            (''description'', VString ''Process is healthy''),
            (''content'', VMap [
              (''application/json'', VMap [
                (''schema'', VMap [
                  (''type'', VString ''object''),
                  (''properties'', VMap [(''status'', VMap [(''type'', VString ''string''), (''example'', VString ''ok'')])])])])])])])])]"

definition path_health :: go_value where
  "path_health =
    VMap [
      (''get'', VMap [
        (''tags'', VStrings [''Probes'']),
        (''summary'', VString ''Liveness probe alias''),
        (''description'', VString ''Versioned alias for canonical /v1/healthz. Returns process liveness status (dependency checks are handled by /v1/ready).''),
        (''operationId'', VString ''getHealth''),
        (''responses'', VMap [
          (''200'', VMap [
            (''description'', VString ''Process is healthy''),
            (''content'', VMap [
              (''application/json'', VMap [
                (''schema'', VMap [
                  (''type'', VString ''object''),
                  (''properties'', VMap [(''status'', VMap [(''type'', VString ''string''), (''example'', VString ''ok'')])])])])])])])])]"

definition path_ready :: go_value where
  "path_ready =
    VMap [
      (''get'', VMap [
        (''tags'', VStrings [''Probes'']),
        (''summary'', VString ''Readiness probe''),
        (''description'', VString ''Dependency/readiness-only probe. Returns readiness status for required dependencies (including parser checks when available) and may return 503 when not ready.''),
        (''operationId'', VString ''getReady''),
        (''responses'', VMap [
          (''200'', VMap [
            (''description'', VString ''Service is ready''),
            (''content'', VMap [
              (''application/json'', VMap [(''schema'', VMap [(''$ref'', VString ''#/components/schemas/ReadyResponse'')])])])]),
          (''503'', VMap [
            (''description'', VString ''Service is not ready''),
            (''content'', VMap [
              (''application/json'', VMap [
                (''schema'', VMap [(''$ref'', VString ''#/components/schemas/ReadyErrorResponse'')]),
                (''example'', VMap [
                  (''status'', VString ''not_ready''),
                  (''error'', VMap [(''code'', VString ''not_ready''), (''message'', VString ''parser script not found'')])])])])])])])]"

definition path_health_metrics :: go_value where
  "path_health_metrics =
    VMap [
      (''get'', VMap [
        (''tags'', VStrings [''Probes'']),
        (''summary'', VString ''Extended health and metrics snapshot (v1)''),
        (''description'', VString ''Returns comprehensive health status including uptime, request counters, analysis outcomes, and parser health. Suitable for dashboards and monitoring; not a probe endpoint.''),
        (''operationId'', VString ''getHealthMetricsV1''),
        (''responses'', VMap [
          (''200'', VMap [
            (''description'', VString ''Health metrics snapshot''),
            (''content'', VMap [
              (''application/json'', VMap [
                (''schema'', VMap [(''$ref'', VString ''#/components/schemas/HealthMetricsResponse'')]),
                (''example'', VMap [
                  (''status'', VString ''ok''),
                  (''timestamp'', VInt 1704067200000),
                  (''uptime-seconds'', VFloat (36005 / 10)),
                  (''build-commit'', VString ''abc123def456''),
                  (''build-time'', VString ''2024-03-06T10:00:00Z''),
                  (''parser-ready'', VBool True),
                  (''parser-version'', VString ''10.6.1''),
                  (''lint-supported'', VStrings [''flowchart'', ''graph'']),
                  (''total-requests'', VInt 1500),
                  (''successful-analyses'', VMap [(''total'', VInt 1450), (''lint-success'', VInt 1450)]),
                  (''failed-analyses'', VMap [
                    (''total'', VInt 50),
                    (''syntax-errors'', VInt 24),
                    (''other'', VInt 1),
                    (''parser-timeout'', VInt 10),
                    (''parser-errors'', VInt 10),
                    (''internal-errors'', VInt 5)]),
                  (''median-parser-latency-ms'', VFloat (425 / 10)),
                  (''p95-parser-latency-ms'', VFloat 150)])])])])])])]"

definition path_info :: go_value where
  "path_info =
    VMap [
      (''get'', VMap [
        (''tags'', VStrings [''Probes'']),
        (''summary'', VString ''Service and parser runtime metadata''),
        (''description'', VString ''Returns service/app version metadata (when configured), parser and Mermaid versions, parser-recognized/lint-supported diagram families, supported lint rule IDs, and engine-registered supported-rule-ids.''),
        (''operationId'', VString ''getInfo''),
        (''responses'', VMap [
          (''200'', VMap [
            (''description'', VString ''Service metadata''),
            (''content'', VMap [
              (''application/json'', VMap [(''schema'', VMap [(''$ref'', VString ''#/components/schemas/InfoResponse'')])])])])])])]"

definition path_metrics :: go_value where
  "path_metrics =
    VMap [
      (''get'', VMap [
        (''tags'', VStrings [''Probes'']),
        (''summary'', VString ''Prometheus metrics''),
        (''description'', VString ''Returns service metrics in Prometheus text exposition format, including request and parser histograms, parser cache events and estimated bytes, and deterministic analysis cache events. Restrict exposure to trusted scrape networks/identities in production.''),
        (''operationId'', VString ''getMetrics''),
        (''responses'', VMap [
          (''200'', VMap [
            (''description'', VString ''Metrics in Prometheus text format''),
            (''content'', VMap [(''text/plain'', VMap [(''schema'', VMap [(''type'', VString ''string'')])])])]),
          (''501'', VMap [
            (''description'', VString ''Metrics exporter not configured''),
            (''content'', VMap [
              (''application/json'', VMap [(''schema'', VMap [(''$ref'', VString ''#/components/schemas/AnalyzeResponse'')])])])])])])]"

definition path_version :: go_value where
  "path_version =
    VMap [
      (''get'', VMap [
        (''tags'', VStrings [''Probes'']),
        (''summary'', VString ''Version and build metadata''),
        (''description'', VString ''Informational endpoint that returns service version/build metadata (when configured) and parser runtime versions. Suitable for diagnostics; not a readiness signal.''),
        (''operationId'', VString ''getVersionV1''),
        (''responses'', VMap [
          (''200'', VMap [
            (''description'', VString ''Version metadata''),
            (''content'', VMap [
              (''application/json'', VMap [
                (''schema'', VMap [(''type'', VString ''object''), (''additionalProperties'', VMap [(''type'', VString ''string'')])])])])])])])]"

definition path_config_versions :: go_value where
  "path_config_versions =
    VMap [
      (''get'', VMap [
        (''tags'', VStrings [''Documentation'']),
        (''summary'', VString ''Config schema version compatibility information''),
        (''description'', VString ''Returns information about supported config schema versions, deprecation timelines, and API version negotiation details. Use this endpoint to plan config migrations and understand backward compatibility guarantees.''),
        (''operationId'', VString ''getConfigVersionsV1''),
        (''responses'', VMap [
          (''200'', VMap [
            (''description'', VString ''Config version compatibility information''),
            (''content'', VMap [
              (''application/json'', VMap [(''schema'', VMap [(''$ref'', VString ''#/components/schemas/ConfigVersionsResponse'')])])])])])])]"

definition path_internal_metrics :: go_value where
  "path_internal_metrics =
    VMap [
      (''get'', VMap [
        (''tags'', VStrings [''Probes'']),
        (''summary'', VString ''Internal analyze outcome counters''),
        (''description'', VString ''Returns cumulative internal JSON analyze outcome counters. analyze.valid_success maps to lint_success; analyze.syntax_error maps to syntax_error; parser.{timeout,subprocess,decode,contract,internal} map to parser_timeout, parser_subprocess_error, parser_decode_error, parser_contract_violation, and internal_error. Intended for restricted internal diagnostics.''),
        (''operationId'', VString ''getInternalMetrics''),
        (''responses'', VMap [
          (''200'', VMap [
            (''description'', VString ''Internal analyze outcome counters''),
            (''content'', VMap [
              (''application/json'', VMap [(''schema'', VMap [(''$ref'', VString ''#/components/schemas/InternalMetricsResponse'')])])])])])])]"

definition path_rules :: go_value where
  "path_rules =
    VMap [
      (''get'', VMap [
        (''tags'', VStrings [''Linting'']),
        (''summary'', VString ''List built-in lint rules''),
        (''description'', VString ''Returns lifecycle metadata for built-in rule IDs, including implemented and planned rules, defaults, and configurable options.''),
        (''operationId'', VString ''listRules''),
        (''responses'', VMap [
          (''200'', VMap [
            (''description'', VString ''Rule metadata (implemented and planned)''),
            (''content'', VMap [
              (''application/json'', VMap [
                (''schema'', VMap [(''$ref'', VString ''#/components/schemas/RulesResponse'')]),
                (''examples'', VMap [
                  (''builtInRules'', VMap [
                    (''summary'', VString ''Currently built-in runtime rule metadata''),
                    (''value'', VMap [
                      (''rules'', VList [
                        VMap [
                          (''id'', VString ''max-depth''),
                          (''state'', VString ''implemented''),
                          (''severity'', VString ''warning''),
                          (''description'', VString ''Flags root-to-leaf traversals whose depth exceeds a configurable limit.''),
                          (''default-config'', VMap [
                            (''enabled'', VBool True),
                            (''severity'', VString ''warning''),
                            (''suppression-selectors'', VList []),
                            (''limit'', VInt 8)]),
                          (''configurable-options'', VList [
                            VMap [
                              (''name'', VString ''enabled''),
                              (''type'', VString ''boolean''),
                              (''description'', VString ''Enable or disable this rule.''),
                              (''constraints'', VString ''Must be true or false.'')],
                            VMap [
                              (''name'', VString ''severity''),
                              (''type'', VString ''string''),
                              (''description'', VString ''Severity assigned to emitted issues (case-insensitive; surrounding whitespace ignored).''),
                              (''constraints'', VString ''Accepted values (canonical): error, warning, info.'')],
                            VMap [
                              (''name'', VString ''suppression-selectors''),
                              (''type'', VString ''array[string]''),
                              (''description'', VString ''Selectors that suppress matching issues.''),
                              (''constraints'', VString ''Each entry must be a string selector.'')],
                            VMap [
                              (''name'', VString ''limit''),
                              (''type'', VString ''integer''),
                              (''description'', VString ''Maximum allowed depth for root-to-leaf traversals.''),
                              (''constraints'', VString ''Must be an integer >= 1. Default is 8.'')]])],
                        VMap [
                          (''id'', VString ''max-fanout''),
                          (''state'', VString ''implemented''),
                          (''severity'', VString ''warning''),
                          (''description'', VString ''Flags nodes whose outgoing edge count exceeds a configurable limit.''),
                          (''default-config'', VMap [
                            (''enabled'', VBool True),
                            (''severity'', VString ''warning''),
                            (''suppression-selectors'', VList []),
                            (''limit'', VInt 5)]),
                          (''configurable-options'', VList [
                            VMap [
                              (''name'', VString ''enabled''),
                              (''type'', VString ''boolean''),
                              (''description'', VString ''Enable or disable this rule.''),
                              (''constraints'', VString ''Must be true or false.'')],
                            VMap [
                              (''name'', VString ''severity''),
                              (''type'', VString ''string''),
                              (''description'', VString ''Severity assigned to emitted issues (case-insensitive; surrounding whitespace ignored).''),
                              (''constraints'', VString ''Accepted values (canonical): error, warning, info.'')],
                            VMap [
                              (''name'', VString ''suppression-selectors''),
                              (''type'', VString ''array[string]''),
                              (''description'', VString ''Selectors that suppress matching issues.''),
                              (''constraints'', VString ''Each entry must be a string selector.'')],
                            VMap [
                              (''name'', VString ''limit''),
                              (''type'', VString ''integer''),
                              (''description'', VString ''Maximum allowed outgoing edges per node.''),
                              (''constraints'', VString ''Must be an integer >= 1. Default is 5.'')]])],
                        VMap [
                          (''id'', VString ''no-cycles''),
                          (''state'', VString ''implemented''),
                          (''severity'', VString ''error''),
                          (''description'', VString ''Flags directed cycles in flowcharts.''),
                          (''default-config'', VMap [
                            (''enabled'', VBool True),
                            (''severity'', VString ''error''),
                            (''suppression-selectors'', VList []),
                            (''allow-self-loop'', VBool False)]),
                          (''configurable-options'', VList [
                            VMap [
                              (''name'', VString ''enabled''),
                              (''type'', VString ''boolean''),
                              (''description'', VString ''Enable or disable this rule.''),
                              (''constraints'', VString ''Must be true or false.'')],
                            VMap [
                              (''name'', VString ''severity''),
                              (''type'', VString ''string''),
                              (''description'', VString ''Severity assigned to emitted issues (case-insensitive; surrounding whitespace ignored).''),
                              (''constraints'', VString ''Accepted values (canonical): error, warning, info.'')],
                            VMap [
                              (''name'', VString ''suppression-selectors''),
                              (''type'', VString ''array[string]''),
                              (''description'', VString ''Selectors that suppress matching issues.''),
                              (''constraints'', VString ''Each entry must be a string selector.'')],
                            VMap [
                              (''name'', VString ''allow-self-loop''),
                              (''type'', VString ''boolean''),
                              (''description'', VString ''Allow single-node self-loop cycles without emitting issues.''),
                              (''constraints'', VString ''Must be true or false.'')]])],
                        VMap [
                          (''id'', VString ''no-disconnected-nodes''),
                          (''state'', VString ''implemented''),
                          (''severity'', VString ''error''),
                          (''description'', VString ''Flags nodes that are not connected by any incoming or outgoing edge.''),
                          (''default-config'', VMap [(''enabled'', VBool True), (''severity'', VString ''error''), (''suppression-selectors'', VList [])]),
                          (''configurable-options'', VList [
                            VMap [
                              (''name'', VString ''enabled''),
                              (''type'', VString ''boolean''),
                              (''description'', VString ''Enable or disable this rule.''),
                              (''constraints'', VString ''Must be true or false.'')],
                            VMap [
                              (''name'', VString ''severity''),
                              (''type'', VString ''string''),
                              (''description'', VString ''Severity assigned to emitted issues (case-insensitive; surrounding whitespace ignored).''),
                              (''constraints'', VString ''Accepted values (canonical): error, warning, info.'')],
                            VMap [
                              (''name'', VString ''suppression-selectors''),
                              (''type'', VString ''array[string]''),
                              (''description'', VString ''Selectors that suppress matching issues.''),
                              (''constraints'', VString ''Each entry must be a string selector.'')]])],
                        VMap [
                          (''id'', VString ''no-duplicate-node-ids''),
                          (''state'', VString ''implemented''),
                          (''severity'', VString ''error''),
                          (''description'', VString ''Flags diagrams containing more than one node with the same ID.''),
                          (''default-config'', VMap [(''enabled'', VBool True), (''severity'', VString ''error''), (''suppression-selectors'', VList [])]),
                          (''configurable-options'', VList [
                            VMap [
                              (''name'', VString ''enabled''),
                              (''type'', VString ''boolean''),
                              (''description'', VString ''Enable or disable this rule.''),
                              (''constraints'', VString ''Must be true or false.'')],
                            VMap [
                              (''name'', VString ''severity''),
                              (''type'', VString ''string''),
                              (''description'', VString ''Severity assigned to emitted issues (case-insensitive; surrounding whitespace ignored).''),
                              (''constraints'', VString ''Accepted values (canonical): error, warning, info.'')],
                            VMap [
                              (''name'', VString ''suppression-selectors''),
                              (''type'', VString ''array[string]''),
                              (''description'', VString ''Selectors that suppress matching issues.''),
                              (''constraints'', VString ''Each entry must be a string selector.'')]])],
                        VMap [
                          (''id'', VString ''sequence-max-participants''),
                          (''state'', VString ''planned''),
                          (''availability'', VString ''Planned for sequence diagram linting expansion.''),
                          (''severity'', VString ''info''),
                          (''description'', VString ''Will flag sequence diagrams that exceed a configurable participant count.''),
                          (''default-config'', VMap [(''enabled'', VBool False), (''severity'', VString ''info''), (''suppression-selectors'', VList [])]),
                          (''configurable-options'', VList [
                            VMap [
                              (''name'', VString ''enabled''),
                              (''type'', VString ''boolean''),
                              (''description'', VString ''Enable or disable this rule.''),
                              (''constraints'', VString ''Must be true or false.'')],
                            VMap [
                              (''name'', VString ''severity''),
                              (''type'', VString ''string''),
                              (''description'', VString ''Severity assigned to emitted issues (case-insensitive; surrounding whitespace ignored).''),
                              (''constraints'', VString ''Accepted values (canonical): error, warning, info.'')],
                            VMap [
                              (''name'', VString ''suppression-selectors''),
                              (''type'', VString ''array[string]''),
                              (''description'', VString ''Selectors that suppress matching issues.''),
                              (''constraints'', VString ''Each entry must be a string selector.'')]])]])])])])])])])])])]"

definition path_rules_schema :: go_value where
  "path_rules_schema =
    VMap [
      (''get'', VMap [
        (''tags'', VStrings [''Linting'']),
        (''summary'', VString ''Get JSON Schema for lint rule configuration''),
        (''description'', VString ''Returns a JSON Schema generated from the currently implemented rule config registry. The schema validates only the canonical versioned config payload format and excludes unimplemented rules.''),
        (''operationId'', VString ''getRuleConfigSchema''),
        (''responses'', VMap [
          (''200'', VMap [
            (''description'', VString ''Rule configuration schema''),
            (''content'', VMap [
              (''application/json'', VMap [
                (''schema'', VMap [
                  (''type'', VString ''object''),
                  (''required'', VStrings [''schema'']),
                  (''properties'', VMap [(''schema'', VMap [(''$ref'', VString ''#/components/schemas/RuleConfigSchema'')])])])])])])])])]"

definition path_diagram_types :: go_value where
  "path_diagram_types =
    VMap [
      (''get'', VMap [
        (''tags'', VStrings [''Linting'']),
        (''summary'', VString ''List parser-recognized and lint-supported diagram types''),
        (''description'', VString ''Returns diagram families/types recognized by the parser and currently lint-supported by registered rules.''),
        (''operationId'', VString ''listDiagramTypes''),
        (''responses'', VMap [
          (''200'', VMap [
            (''description'', VString ''Diagram type support matrix''),
            (''content'', VMap [
              (''application/json'', VMap [(''schema'', VMap [(''$ref'', VString ''#/components/schemas/DiagramTypesResponse'')])])])])])])]"

definition path_analyze_requestBody :: go_value where
  "path_analyze_requestBody =
    VMap [
      (''required'', VBool True),
      (''content'', VMap [
        (''application/json'', VMap [
          (''schema'', VMap [(''$ref'', VString ''#/components/schemas/AnalyzeRequest'')]),
          (''examples'', VMap [
            (''simple'', VMap [
              (''summary'', VString ''Simple graph''),
              (''value'', VMap [(''code'', VString (''graph TD'' @ [CHR 0x0A] @ ''  A[Start] --> B[End]''))])]),
            (''withConfigVersioned'', VMap [
              (''summary'', VString ''Preferred versioned config payload (recommended)''),
              (''value'', VMap [
                (''code'', VString (''graph LR'' @ [CHR 0x0A] @ ''  A --> B'' @ [CHR 0x0A] @ ''  B --> C'')),
                (''config'', VMap [
                  (''schema-version'', VString ''v1''),
                  (''rules'', VMap [
                    (''max-fanout'', VMap [
                      (''enabled'', VBool True),
                      (''limit'', VInt 2),
                      (''severity'', VString ''error''),
                      (''suppression-selectors'', VList [VString ''node:A''])])])])])]),
            (''withConfigNestedLegacy'', VMap [
              (''summary'', VString ''Legacy nested rules payload (migration support)''),
              (''value'', VMap [
                (''code'', VString (''graph LR'' @ [CHR 0x0A] @ ''  A --> B'' @ [CHR 0x0A] @ ''  B --> C'')),
                (''config'', VMap [
                  (''rules'', VMap [
                    (''max-fanout'', VMap [
                      (''enabled'', VBool True),
                      (''limit'', VInt 2),
                      (''severity'', VString ''error''),
                      (''suppression-selectors'', VList [VString ''node:A''])])])])])]),
            (''withConfigFlatLegacy'', VMap [
              (''summary'', VString ''Legacy flat rule payload (migration support)''),
              (''value'', VMap [
                (''code'', VString (''graph LR'' @ [CHR 0x0A] @ ''  A --> B'' @ [CHR 0x0A] @ ''  B --> C'')),
                (''config'', VMap [
                  (''max-fanout'', VMap [
                    (''enabled'', VBool True),
                    (''limit'', VInt 2),
                    (''severity'', VString ''error''),
                    (''suppression-selectors'', VList [VString ''node:A''])])])])]),
            (''syntaxError'', VMap [
              (''summary'', VString ''Invalid Mermaid syntax''),
              (''value'', VMap [(''code'', VString (''graph TD'' @ [CHR 0x0A] @ ''  A --> B -->''))])])])])])]"

definition path_analyze_200_headers :: go_value where
  "path_analyze_200_headers =
    VMap [
      (''Deprecation'', VMap [
        (''description'', VString (''Present with value '' @ [CHR 0x60] @ ''true'' @ [CHR 0x60] @ '' when legacy config keys/shapes are accepted under Phase 1 deprecation policy.'')),
        (''schema'', VMap [(''type'', VString ''string'')]),
        (''example'', VString ''true'')]),
      (''Warning'', VMap [
        (''description'', VString ''One or more RFC 7234 warning values (code 299) describing legacy config migration guidance when legacy config is accepted.''),
        (''schema'', VMap [(''type'', VString ''string'')]),
        (''example'', VString (''299 - '' @ [CHR 0x22] @ ''config.schema_version is deprecated; use config.schema-version'' @ [CHR 0x22]))]),
      (''X-RateLimit-Limit'', VMap [
        (''description'', VString ''Maximum number of requests allowed in the current time window''),
        (''schema'', VMap [(''type'', VString ''integer'')]),
        (''example'', VInt 120)]),
      (''X-RateLimit-Remaining'', VMap [
        (''description'', VString ''Number of requests remaining in the current time window''),
        (''schema'', VMap [(''type'', VString ''integer'')]),
        (''example'', VInt 119)]),
      (''X-RateLimit-Reset'', VMap [
        (''description'', VString ''Unix timestamp when the rate limit window resets''),
        (''schema'', VMap [(''type'', VString ''integer'')]),
        (''example'', VInt 1234567890)])]"

definition path_analyze_200 :: go_value where
  "path_analyze_200 =
    VMap [
      (''application/json'', VMap [
        (''schema'', VMap [(''$ref'', VString ''#/components/schemas/AnalyzeResponse'')]),
        (''examples'', VMap [
          (''validDiagram'', VMap [
            (''summary'', VString ''Valid diagram with no issues''),
            (''value'', VMap [
              (''valid'', VBool True),
              (''diagram-type'', VString ''flowchart''),
              (''lint-supported'', VBool True),
              (''syntax-error'', VNil),
              (''issues'', VList []),
              (''metrics'', VMap [
                (''node-count'', VInt 2),
                (''edge-count'', VInt 1),
                (''disconnected-node-count'', VInt 0),
                (''duplicate-node-count'', VInt 0),
                (''max-fanin'', VInt 1),
                (''max-fanout'', VInt 1),
                (''diagram-type'', VString ''flowchart''),
                (''direction'', VString ''TD''),
                (''issue-counts'', VMap [(''by-severity'', VMap []), (''by-rule'', VMap [])])])])]),
          (''syntaxError'', VMap [
            (''summary'', VString ''Syntax error response''),
            (''value'', VMap [
              (''valid'', VBool False),
              (''diagram-type'', VString ''flowchart''),
              (''lint-supported'', VBool True),
              (''syntax-error'', VMap [
                (''message'', VString (''Unexpected token '' @ [CHR 0x27] @ ''>'' @ [CHR 0x27])),
                (''line'', VInt 2),
                (''column'', VInt 12)]),
              (''issues'', VList []),
              (''metrics'', VMap [
                (''node-count'', VInt 0),
                (''edge-count'', VInt 0),
                (''disconnected-node-count'', VInt 0),
                (''duplicate-node-count'', VInt 0),
                (''max-fanin'', VInt 0),
                (''max-fanout'', VInt 0),
                (''diagram-type'', VString ''flowchart''),
                (''issue-counts'', VMap [(''by-severity'', VMap []), (''by-rule'', VMap [])])])])]),
          (''sequenceDiagram'', VMap [
            (''summary'', VString ''Valid sequence diagram (lint currently unsupported)''),
            (''value'', VMap [
              (''valid'', VBool True),
              (''diagram-type'', VString ''sequence''),
              (''lint-supported'', VBool False),
              (''syntax-error'', VNil),
              (''issues'', VList [
                VMap [
                  (''rule-id'', VString ''unsupported-diagram-type''),
                  (''severity'', VString ''info''),
                  (''message'', VString (''diagram type '' @ [CHR 0x22] @ ''sequence'' @ [CHR 0x22] @ '' is parsed but lint rules are not available yet''))]]),
              (''metrics'', VMap [
                (''node-count'', VInt 0),
                (''edge-count'', VInt 0),
                (''disconnected-node-count'', VInt 0),
                (''duplicate-node-count'', VInt 0),
                (''max-fanin'', VInt 0),
                (''max-fanout'', VInt 0),
                (''diagram-type'', VString ''sequence''),
                (''issue-counts'', VMap [(''by-severity'', VMap []), (''by-rule'', VMap [])])]),
              (''error'', VMap [
                (''code'', VString ''unsupported_diagram_type''),
                (''message'', VString ''diagram type is parsed but linting is not supported'')])])]),
          (''withIssues'', VMap [
            (''summary'', VString ''Valid diagram with lint issues''),
            (''value'', VMap [
              (''valid'', VBool True),
              (''diagram-type'', VString ''flowchart''),
              (''lint-supported'', VBool True),
              (''syntax-error'', VNil),
              (''issues'', VList [
                VMap [
                  (''rule-id'', VString ''no-disconnected-nodes''),
                  (''severity'', VString ''error''),
                  (''message'', VString (''Node '' @ [CHR 0x27] @ ''D'' @ [CHR 0x27] @ '' is not connected to the graph''))],
                VMap [
                  (''rule-id'', VString ''max-fanout''),
                  (''severity'', VString ''warning''),
                  (''message'', VString (''Node '' @ [CHR 0x27] @ ''A'' @ [CHR 0x27] @ '' has fanout 6, exceeding limit of 5'')),
                  (''line'', VInt 2),
                  (''column'', VInt 2)]]),
              (''metrics'', VMap [
                (''node-count'', VInt 4),
                (''edge-count'', VInt 2),
                (''disconnected-node-count'', VInt 1),
                (''duplicate-node-count'', VInt 0),
                (''max-fanin'', VInt 1),
                (''max-fanout'', VInt 2),
                (''diagram-type'', VString ''flowchart''),
                (''direction'', VString ''TD''),
                (''issue-counts'', VMap [
                  (''by-severity'', VMap [(''error'', VInt 1), (''warning'', VInt 1)]),
                  (''by-rule'', VMap [(''no-disconnected-nodes'', VInt 1), (''max-fanout'', VInt 1)])])])])])])])]"

definition path_analyze_400_headers :: go_value where
  "path_analyze_400_headers =
    VMap [
      (''X-RateLimit-Limit'', VMap [
        (''description'', VString ''Maximum number of requests allowed in the current time window''),
        (''schema'', VMap [(''type'', VString ''integer'')]),
        (''example'', VInt 120)]),
      (''X-RateLimit-Remaining'', VMap [
        (''description'', VString ''Number of requests remaining in the current time window''),
        (''schema'', VMap [(''type'', VString ''integer'')]),
        (''example'', VInt 119)]),
      (''X-RateLimit-Reset'', VMap [
        (''description'', VString ''Unix timestamp when the rate limit window resets''),
        (''schema'', VMap [(''type'', VString ''integer'')]),
        (''example'', VInt 1234567890)])]"

definition path_analyze_400_missingCode :: go_value where
  "path_analyze_400_missingCode =
    VMap [
      (''summary'', VString (''Missing '' @ [CHR 0x27] @ ''code'' @ [CHR 0x27] @ '' field'')),
      (''value'', VMap [
        (''valid'', VBool False),
        (''lint-supported'', VBool False),
        (''syntax-error'', VNil),
        (''issues'', VList []),
        (''metrics'', VMap [
          (''node-count'', VInt 0),
          (''edge-count'', VInt 0),
          (''disconnected-node-count'', VInt 0),
          (''duplicate-node-count'', VInt 0),
          (''max-fanin'', VInt 0),
          (''max-fanout'', VInt 0),
          (''diagram-type'', VString ''unknown''),
          (''issue-counts'', VMap [(''by-severity'', VMap []), (''by-rule'', VMap [])])]),
        (''error'', VMap [
          (''code'', VString ''missing_code''),
          (''message'', VString (''field '' @ [CHR 0x27] @ ''code'' @ [CHR 0x27] @ '' is required''))])])]"

definition path_analyze_400_invalidJSON :: go_value where
  "path_analyze_400_invalidJSON =
    VMap [
      (''summary'', VString ''Invalid JSON body''),
      (''value'', VMap [
        (''valid'', VBool False),
        (''lint-supported'', VBool False),
        (''syntax-error'', VNil),
        (''issues'', VList []),
        (''metrics'', VMap [
          (''node-count'', VInt 0),
          (''edge-count'', VInt 0),
          (''disconnected-node-count'', VInt 0),
          (''duplicate-node-count'', VInt 0),
          (''max-fanin'', VInt 0),
          (''max-fanout'', VInt 0),
          (''diagram-type'', VString ''unknown''),
          (''issue-counts'', VMap [(''by-severity'', VMap []), (''by-rule'', VMap [])])]),
        (''error'', VMap [(''code'', VString ''invalid_json''), (''message'', VString ''invalid JSON body'')])])]"

definition path_analyze_400_unknownRule :: go_value where
  "path_analyze_400_unknownRule =
    VMap [
      (''summary'', VString ''Unknown rule in config''),
      (''value'', VMap [
        (''valid'', VBool False),
        (''lint-supported'', VBool False),
        (''syntax-error'', VNil),
        (''issues'', VList []),
        (''metrics'', VMap [
          (''node-count'', VInt 0),
          (''edge-count'', VInt 0),
          (''disconnected-node-count'', VInt 0),
          (''duplicate-node-count'', VInt 0),
          (''max-fanin'', VInt 0),
          (''max-fanout'', VInt 0),
          (''diagram-type'', VString ''unknown''),
          (''issue-counts'', VMap [(''by-severity'', VMap []), (''by-rule'', VMap [])])]),
        (''error'', VMap [
          (''code'', VString ''unknown_rule''),
          (''message'', VString ''unknown rule: unknown-rule''),
          (''details'', VMap [
            (''path'', VString ''config.rules.unknown-rule''),
            (''supported'', VList [VString ''max-depth'', VString ''max-fanout'', VString ''no-cycles'', VString ''no-disconnected-nodes'', VString ''no-duplicate-node-ids''])])])])]"

definition path_analyze_400_unknownOption :: go_value where
  "path_analyze_400_unknownOption =
    VMap [
      (''summary'', VString ''Unknown option in rule config''),
      (''value'', VMap [
        (''valid'', VBool False),
        (''lint-supported'', VBool False),
        (''syntax-error'', VNil),
        (''issues'', VList []),
        (''metrics'', VMap [
          (''node-count'', VInt 0),
          (''edge-count'', VInt 0),
          (''disconnected-node-count'', VInt 0),
          (''duplicate-node-count'', VInt 0),
          (''max-fanin'', VInt 0),
          (''max-fanout'', VInt 0),
          (''diagram-type'', VString ''unknown''),
          (''issue-counts'', VMap [(''by-severity'', VMap []), (''by-rule'', VMap [])])]),
        (''error'', VMap [
          (''code'', VString ''unknown_option''),
          (''message'', VString ''unknown option: threshold''),
          (''details'', VMap [
            (''path'', VString ''config.rules.max-fanout.threshold''),
            (''supported'', VList [VString ''enabled'', VString ''limit'', VString ''severity'', VString ''suppression-selectors''])])])])]"

definition path_analyze_400_invalidOption :: go_value where
  "path_analyze_400_invalidOption =
    VMap [
      (''summary'', VString ''Invalid option value''),
      (''value'', VMap [
        (''valid'', VBool False),
        (''lint-supported'', VBool False),
        (''syntax-error'', VNil),
        (''issues'', VList []),
        (''metrics'', VMap [
          (''node-count'', VInt 0),
          (''edge-count'', VInt 0),
          (''disconnected-node-count'', VInt 0),
          (''duplicate-node-count'', VInt 0),
          (''max-fanin'', VInt 0),
          (''max-fanout'', VInt 0),
          (''diagram-type'', VString ''unknown''),
          (''issue-counts'', VMap [(''by-severity'', VMap []), (''by-rule'', VMap [])])]),
        (''error'', VMap [
          (''code'', VString ''invalid_option''),
          (''message'', VString ''invalid option value for limit''),
          (''details'', VMap [(''path'', VString ''config.rules.max-fanout.limit'')])])])]"

definition path_analyze_400_invalidSuppressionSelector :: go_value where
  "path_analyze_400_invalidSuppressionSelector =
    VMap [
      (''summary'', VString ''Invalid suppression selector format''),
      (''value'', VMap [
        (''valid'', VBool False),
        (''lint-supported'', VBool False),
        (''syntax-error'', VNil),
        (''issues'', VList []),
        (''metrics'', VMap [
          (''node-count'', VInt 0),
          (''edge-count'', VInt 0),
          (''disconnected-node-count'', VInt 0),
          (''duplicate-node-count'', VInt 0),
          (''max-fanin'', VInt 0),
          (''max-fanout'', VInt 0),
          (''diagram-type'', VString ''unknown''),
          (''issue-counts'', VMap [(''by-severity'', VMap []), (''by-rule'', VMap [])])]),
        (''error'', VMap [
          (''code'', VString ''invalid_suppression_selector''),
          (''message'', VString ''invalid suppression selector format: node:''),
          (''details'', VMap [
            (''path'', VString ''config.rules.max-fanout.suppression-selectors[0]''),
            (''hint'', VString ''valid formats: rule:*, node:ID, subgraph:NAME, file:*.js, or negation with ! prefix'')])])])]"

definition path_analyze_413 :: go_value where
  "path_analyze_413 =
    VMap [
      (''description'', VString (''Request entity too large (body exceeds 1 MiB). For non-200 API failures, '' @ [CHR 0x60] @ ''error'' @ [CHR 0x60] @ '' is populated, '' @ [CHR 0x60] @ ''syntax-error'' @ [CHR 0x60] @ '' is null, and '' @ [CHR 0x60] @ ''issues'' @ [CHR 0x60] @ '' is an empty array.'')),
      (''headers'', VMap [
        (''X-RateLimit-Limit'', VMap [
          (''description'', VString ''Maximum number of requests allowed in the current time window''),
          (''schema'', VMap [(''type'', VString ''integer'')]),
          (''example'', VInt 120)]),
        (''X-RateLimit-Remaining'', VMap [
          (''description'', VString ''Number of requests remaining in the current time window''),
          (''schema'', VMap [(''type'', VString ''integer'')]),
          (''example'', VInt 119)]),
        (''X-RateLimit-Reset'', VMap [
          (''description'', VString ''Unix timestamp when the rate limit window resets''),
          (''schema'', VMap [(''type'', VString ''integer'')]),
          (''example'', VInt 1234567890)])]),
      (''content'', VMap [
        (''application/json'', VMap [
          (''schema'', VMap [(''$ref'', VString ''#/components/schemas/AnalyzeResponse'')]),
          (''example'', VMap [
            (''valid'', VBool False),
            (''lint-supported'', VBool False),
            (''syntax-error'', VNil),
            (''issues'', VList []),
            (''metrics'', VMap [
              (''node-count'', VInt 0),
              (''edge-count'', VInt 0),
              (''disconnected-node-count'', VInt 0),
              (''duplicate-node-count'', VInt 0),
              (''max-fanin'', VInt 0),
              (''max-fanout'', VInt 0),
              (''diagram-type'', VString ''unknown''),
              (''issue-counts'', VMap [(''by-severity'', VMap []), (''by-rule'', VMap [])])]),
            (''error'', VMap [(''code'', VString ''request_too_large''), (''message'', VString ''request body exceeds 1 MiB limit'')])])])])]"

definition path_analyze_429 :: go_value where
  "path_analyze_429 =
    VMap [
      (''description'', VString (''Rate limited. For non-200 API failures, '' @ [CHR 0x60] @ ''error'' @ [CHR 0x60] @ '' is populated, '' @ [CHR 0x60] @ ''syntax-error'' @ [CHR 0x60] @ '' is null, and '' @ [CHR 0x60] @ ''issues'' @ [CHR 0x60] @ '' is an empty array.'')),
      (''headers'', VMap [
        (''X-RateLimit-Limit'', VMap [
          (''description'', VString ''Maximum number of requests allowed in the current time window''),
          (''schema'', VMap [(''type'', VString ''integer'')]),
          (''example'', VInt 120)]),
        (''X-RateLimit-Remaining'', VMap [
          (''description'', VString ''Number of requests remaining in the current time window''),
          (''schema'', VMap [(''type'', VString ''integer'')]),
          (''example'', VInt 0)]),
        (''X-RateLimit-Reset'', VMap [
          (''description'', VString ''Unix timestamp when the rate limit window resets''),
          (''schema'', VMap [(''type'', VString ''integer'')]),
          (''example'', VInt 1234567890)])]),
      (''content'', VMap [
        (''application/json'', VMap [
          (''schema'', VMap [(''$ref'', VString ''#/components/schemas/AnalyzeResponse'')]),
          (''example'', VMap [
            (''valid'', VBool False),
            (''lint-supported'', VBool False),
            (''syntax-error'', VNil),
            (''issues'', VList []),
            (''metrics'', VMap [
              (''node-count'', VInt 0),
              (''edge-count'', VInt 0),
              (''disconnected-node-count'', VInt 0),
              (''duplicate-node-count'', VInt 0),
              (''max-fanin'', VInt 0),
              (''max-fanout'', VInt 0),
              (''diagram-type'', VString ''unknown''),
              (''issue-counts'', VMap [(''by-severity'', VMap []), (''by-rule'', VMap [])])]),
            (''error'', VMap [(''code'', VString ''rate_limited''), (''message'', VString ''rate limit exceeded'')])])])])]"

definition path_analyze_503 :: go_value where
  "path_analyze_503 =
    VMap [
      (''description'', VString (''Service unavailable. For non-200 API failures, '' @ [CHR 0x60] @ ''error'' @ [CHR 0x60] @ '' is populated, '' @ [CHR 0x60] @ ''syntax-error'' @ [CHR 0x60] @ '' is null, and '' @ [CHR 0x60] @ ''issues'' @ [CHR 0x60] @ '' is an empty array. '' @ [CHR 0x60] @ ''server_busy'' @ [CHR 0x60] @ '' responses include a '' @ [CHR 0x60] @ ''Retry-After'' @ [CHR 0x60] @ '' hint (for example '' @ [CHR 0x60] @ ''Retry-After: 1'' @ [CHR 0x60] @ '' or '' @ [CHR 0x60] @ ''Retry-After: Wed, 21 Oct 2015 07:28:00 GMT'' @ [CHR 0x60] @ '').'')),
      (''headers'', VMap [
        (''Retry-After'', VMap [
          (''description'', VString (''Suggested delay before retrying a '' @ [CHR 0x60] @ ''server_busy'' @ [CHR 0x60] @ '' response. Value is either delta-seconds or an HTTP-date.'')),
          (''schema'', VMap [(''type'', VString ''string'')]),
          (''examples'', VMap [
            (''deltaSeconds'', VMap [(''value'', VString ''1'')]),
            (''httpDate'', VMap [(''value'', VString ''Wed, 21 Oct 2015 07:28:00 GMT'')])])]),
        (''X-RateLimit-Limit'', VMap [
          (''description'', VString ''Maximum number of requests allowed in the current time window''),
          (''schema'', VMap [(''type'', VString ''integer'')]),
          (''example'', VInt 120)]),
        (''X-RateLimit-Remaining'', VMap [
          (''description'', VString ''Number of requests remaining in the current time window''),
          (''schema'', VMap [(''type'', VString ''integer'')]),
          (''example'', VInt 119)]),
        (''X-RateLimit-Reset'', VMap [
          (''description'', VString ''Unix timestamp when the rate limit window resets''),
          (''schema'', VMap [(''type'', VString ''integer'')]),
          (''example'', VInt 1234567890)])]),
      (''content'', VMap [
        (''application/json'', VMap [
          (''schema'', VMap [(''$ref'', VString ''#/components/schemas/AnalyzeResponse'')]),
          (''example'', VMap [
            (''valid'', VBool False),
            (''lint-supported'', VBool False),
            (''syntax-error'', VNil),
            (''issues'', VList []),
            (''metrics'', VMap [
              (''node-count'', VInt 0),
              (''edge-count'', VInt 0),
              (''disconnected-node-count'', VInt 0),
              (''duplicate-node-count'', VInt 0),
              (''max-fanin'', VInt 0),
              (''max-fanout'', VInt 0),
              (''diagram-type'', VString ''unknown''),
              (''issue-counts'', VMap [(''by-severity'', VMap []), (''by-rule'', VMap [])])]),
            (''error'', VMap [
              (''code'', VString ''server_busy''),
              (''message'', VString ''parser concurrency limit reached; try again'')])])])])]"

definition path_analyze_500 :: go_value where
  "path_analyze_500 =
    VMap [
      (''description'', VString (''Internal server error. For non-200 API failures, '' @ [CHR 0x60] @ ''error'' @ [CHR 0x60] @ '' is populated, '' @ [CHR 0x60] @ ''syntax-error'' @ [CHR 0x60] @ '' is null, and '' @ [CHR 0x60] @ ''issues'' @ [CHR 0x60] @ '' is an empty array.'')),
      (''headers'', VMap [
        (''X-RateLimit-Limit'', VMap [
          (''description'', VString ''Maximum number of requests allowed in the current time window''),
          (''schema'', VMap [(''type'', VString ''integer'')]),
          (''example'', VInt 120)]),
        (''X-RateLimit-Remaining'', VMap [
          (''description'', VString ''Number of requests remaining in the current time window''),
          (''schema'', VMap [(''type'', VString ''integer'')]),
          (''example'', VInt 119)]),
        (''X-RateLimit-Reset'', VMap [
          (''description'', VString ''Unix timestamp when the rate limit window resets''),
          (''schema'', VMap [(''type'', VString ''integer'')]),
          (''example'', VInt 1234567890)])]),
      (''content'', VMap [
        (''application/json'', VMap [
          (''schema'', VMap [(''$ref'', VString ''#/components/schemas/AnalyzeResponse'')]),
          (''examples'', VMap [
            (''subprocess'', VMap [
              (''summary'', VString ''Parser subprocess failure''),
              (''value'', VMap [
                (''valid'', VBool False),
                (''lint-supported'', VBool False),
                (''syntax-error'', VNil),
                (''issues'', VList []),
                (''metrics'', VMap [
                  (''node-count'', VInt 0),
                  (''edge-count'', VInt 0),
                  (''disconnected-node-count'', VInt 0),
                  (''duplicate-node-count'', VInt 0),
                  (''max-fanin'', VInt 0),
                  (''max-fanout'', VInt 0),
                  (''diagram-type'', VString ''unknown''),
                  (''issue-counts'', VMap [(''by-severity'', VMap []), (''by-rule'', VMap [])])]),
                (''error'', VMap [(''code'', VString ''parser_subprocess_error''), (''message'', VString ''parser subprocess failed'')])])]),
            (''decode'', VMap [
              (''summary'', VString ''Parser malformed output''),
              (''value'', VMap [
                (''valid'', VBool False),
                (''lint-supported'', VBool False),
                (''syntax-error'', VNil),
                (''issues'', VList []),
                (''metrics'', VMap [
                  (''node-count'', VInt 0),
                  (''edge-count'', VInt 0),
                  (''disconnected-node-count'', VInt 0),
                  (''duplicate-node-count'', VInt 0),
                  (''max-fanin'', VInt 0),
                  (''max-fanout'', VInt 0),
                  (''diagram-type'', VString ''unknown''),
                  (''issue-counts'', VMap [(''by-severity'', VMap []), (''by-rule'', VMap [])])]),
                (''error'', VMap [
                  (''code'', VString ''parser_decode_error''),
                  (''message'', VString ''parser returned malformed output'')])])]),
            (''contract'', VMap [
              (''summary'', VString ''Parser contract violation''),
              (''value'', VMap [
                (''valid'', VBool False),
                (''lint-supported'', VBool False),
                (''syntax-error'', VNil),
                (''issues'', VList []),
                (''metrics'', VMap [
                  (''node-count'', VInt 0),
                  (''edge-count'', VInt 0),
                  (''disconnected-node-count'', VInt 0),
                  (''duplicate-node-count'', VInt 0),
                  (''max-fanin'', VInt 0),
                  (''max-fanout'', VInt 0),
                  (''diagram-type'', VString ''unknown''),
                  (''issue-counts'', VMap [(''by-severity'', VMap []), (''by-rule'', VMap [])])]),
                (''error'', VMap [
                  (''code'', VString ''parser_contract_violation''),
                  (''message'', VString ''parser response violated service contract'')])])]),
            (''internal'', VMap [
              (''summary'', VString ''Generic internal failure''),
              (''value'', VMap [
                (''valid'', VBool False),
                (''lint-supported'', VBool False),
                (''syntax-error'', VNil),
                (''issues'', VList []),
                (''metrics'', VMap [
                  (''node-count'', VInt 0),
                  (''edge-count'', VInt 0),
                  (''disconnected-node-count'', VInt 0),
                  (''duplicate-node-count'', VInt 0),
                  (''max-fanin'', VInt 0),
                  (''max-fanout'', VInt 0),
                  (''diagram-type'', VString ''unknown''),
                  (''issue-counts'', VMap [(''by-severity'', VMap []), (''by-rule'', VMap [])])]),
                (''error'', VMap [(''code'', VString ''internal_error''), (''message'', VString ''internal server error'')])])])])])])]"

definition path_analyze_504 :: go_value where
  "path_analyze_504 =
    VMap [
      (''description'', VString (''Parser timeout. For non-200 API failures, '' @ [CHR 0x60] @ ''error'' @ [CHR 0x60] @ '' is populated, '' @ [CHR 0x60] @ ''syntax-error'' @ [CHR 0x60] @ '' is null, and '' @ [CHR 0x60] @ ''issues'' @ [CHR 0x60] @ '' is an empty array.'')),
      (''content'', VMap [
        (''application/json'', VMap [
          (''schema'', VMap [(''$ref'', VString ''#/components/schemas/AnalyzeResponse'')]),
          (''example'', VMap [
            (''valid'', VBool False),
            (''lint-supported'', VBool False),
            (''syntax-error'', VNil),
            (''issues'', VList []),
            (''metrics'', VMap [
              (''node-count'', VInt 0),
              (''edge-count'', VInt 0),
              (''disconnected-node-count'', VInt 0),
              (''duplicate-node-count'', VInt 0),
              (''max-fanin'', VInt 0),
              (''max-fanout'', VInt 0),
              (''diagram-type'', VString ''unknown''),
              (''issue-counts'', VMap [(''by-severity'', VMap []), (''by-rule'', VMap [])])]),
            (''error'', VMap [
              (''code'', VString ''parser_timeout''),
              (''message'', VString ''parser timed out while validating Mermaid code'')])])])])]"

definition path_analyze :: go_value where
  "path_analyze =
    VMap [
      (''post'', VMap [
        (''tags'', VStrings [''Linting'']),
        (''summary'', VString ''Analyze and lint a Mermaid diagram''),
        (''description'', VString (''Validates Mermaid code syntax and runs deterministic lint rules.'' @ [CHR 0x0A, CHR 0x0A] @ ''Maximum request body size is 1 MiB. Oversized payloads return HTTP 413.'' @ [CHR 0x0A, CHR 0x0A] @ ''Legacy config acceptance: Phase 1 accepts legacy flat/nested/snake_case config and emits deprecation signals. Phase 2 enforcement starts in v1.2.0 (Q2 2026 planned), where legacy config is rejected with HTTP 400 '' @ [CHR 0x60] @ ''deprecated_config_format'' @ [CHR 0x60] @ ''.'' @ [CHR 0x0A, CHR 0x0A] @ ''Operational note: tune '' @ [CHR 0x60] @ ''PARSER_CONCURRENCY_LIMIT'' @ [CHR 0x60] @ '' and '' @ [CHR 0x60] @ ''PARSER_MAX_OLD_SPACE_MB'' @ [CHR 0x60] @ '' (documented in API_GUIDE.md under Operational environment variables). When parser concurrency is exhausted, '' @ [CHR 0x60] @ ''/analyze'' @ [CHR 0x60] @ '' returns HTTP 503 with '' @ [CHR 0x60] @ ''error.code=server_busy'' @ [CHR 0x60] @ ''; parser subprocess heap is capped with Node '' @ [CHR 0x60] @ ''--max-old-space-size'' @ [CHR 0x60] @ ''. Per-request parser overrides remain bounded (timeout 1-60s, memory 128-4096 MiB). For oversized/complex diagrams, split work into smaller diagrams and batch requests.'' @ [CHR 0x0A, CHR 0x0A] @ ''Supports source comment suppressions such as '' @ [CHR 0x60] @ ''%% merm8-disable <rule-id>'' @ [CHR 0x60] @ '', '' @ [CHR 0x60] @ ''%% merm8-disable all'' @ [CHR 0x60] @ '', and '' @ [CHR 0x60] @ ''%% merm8-disable-next-line <rule-id>'' @ [CHR 0x60] @ ''.'' @ [CHR 0x0A, CHR 0x0A] @ ''Returns syntax errors as semantic responses ('' @ [CHR 0x60] @ ''valid=false'' @ [CHR 0x60] @ '') if parsing fails, or lint results if parsing succeeds.'' @ [CHR 0x0A, CHR 0x0A] @ ''Parser infrastructure failures return machine-readable API error codes:'' @ [CHR 0x0A] @ ''- '' @ [CHR 0x60] @ ''parser_subprocess_error'' @ [CHR 0x60, CHR 0x0A] @ ''- '' @ [CHR 0x60] @ ''parser_decode_error'' @ [CHR 0x60, CHR 0x0A] @ ''- '' @ [CHR 0x60] @ ''parser_contract_violation'' @ [CHR 0x60, CHR 0x0A] @ ''- '' @ [CHR 0x60] @ ''parser_timeout'' @ [CHR 0x60] @ '' (HTTP 504)'' @ [CHR 0x0A] @ ''- '' @ [CHR 0x60] @ ''parser_memory_limit'' @ [CHR 0x60] @ '' (HTTP 500)'')),
        (''x-operational-env'', VMap [(''required'', VList [VString ''PARSER_CONCURRENCY_LIMIT'', VString ''PARSER_MAX_OLD_SPACE_MB''])]),
        (''operationId'', VString ''analyzeCode''),
        (''requestBody'', path_analyze_requestBody),
        (''responses'', VMap [
          (''200'', VMap [
            (''description'', VString (''Analysis completed. For HTTP 200: '' @ [CHR 0x60] @ ''error'' @ [CHR 0x60] @ '' is always null, '' @ [CHR 0x60] @ ''issues'' @ [CHR 0x60] @ '' is always present as an array, and '' @ [CHR 0x60] @ ''syntax-error'' @ [CHR 0x60] @ '' is populated only for parser syntax failures (otherwise null).'')),
            (''headers'', path_analyze_200_headers),
            (''content'', path_analyze_200)]),
          (''400'', VMap [
            (''description'', VString (''Bad request (invalid JSON, missing required field, or invalid config). For non-200 API failures, '' @ [CHR 0x60] @ ''valid=false'' @ [CHR 0x60] @ '', '' @ [CHR 0x60] @ ''syntax-error=null'' @ [CHR 0x60] @ '', '' @ [CHR 0x60] @ ''issues=[]'' @ [CHR 0x60] @ '', and '' @ [CHR 0x60] @ ''error'' @ [CHR 0x60] @ '' is populated.'')),
            (''headers'', path_analyze_400_headers),
            (''content'', VMap [
              (''application/json'', VMap [
                (''schema'', VMap [(''$ref'', VString ''#/components/schemas/AnalyzeResponse'')]),
                (''examples'', VMap [
                  (''missingCode'', path_analyze_400_missingCode),
                  (''invalidJSON'', path_analyze_400_invalidJSON),
                  (''unknownRule'', path_analyze_400_unknownRule),
                  (''unknownOption'', path_analyze_400_unknownOption),
                  (''invalidOption'', path_analyze_400_invalidOption),
                  (''invalidSuppressionSelector'', path_analyze_400_invalidSuppressionSelector)])])])]),
          (''413'', path_analyze_413),
          (''429'', path_analyze_429),
          (''503'', path_analyze_503),
          (''500'', path_analyze_500),
          (''504'', path_analyze_504)])])]"

definition path_analyze_help :: go_value where
  "path_analyze_help =
    VMap [
      (''get'', VMap [
        (''tags'', VStrings [''Documentation'']),
        (''summary'', VString ''Get diagram templates and error guidance''),
        (''description'', VString ''Returns diagram type templates, common error patterns with fixes, arrow syntax reference, and links to documentation.''),
        (''operationId'', VString ''getAnalyzeHelp''),
        (''responses'', VMap [
          (''200'', VMap [
            (''description'', VString ''Help guide with templates and error resolution''),
            (''content'', VMap [
              (''application/json'', VMap [(''schema'', VMap [(''$ref'', VString ''#/components/schemas/AnalyzeHelpResponse'')])])])])])])]"

definition path_analyze_raw :: go_value where
  "path_analyze_raw =
    VMap [
      (''post'', VMap [
        (''tags'', VStrings [''Linting'']),
        (''summary'', VString ''Analyze and lint a Mermaid diagram (raw text)''),
        (''description'', VString (''Accepts raw mermaid code (plain text) directly in the request body. Auto-detects format: attempts to parse as JSON first (supports {'' @ [CHR 0x22] @ ''code'' @ [CHR 0x22] @ '': '' @ [CHR 0x22] @ ''...'' @ [CHR 0x22] @ ''} and optional config/parser fields), then falls back to treating the entire body as raw mermaid syntax.'' @ [CHR 0x0A, CHR 0x0A] @ ''If Content-Type is JSON and the payload appears JSON-like (for example starts with '' @ [CHR 0x60] @ ''{'' @ [CHR 0x60] @ ''/'' @ [CHR 0x60] @ ''['' @ [CHR 0x60] @ ''), but decoding fails, the request is still analyzed as raw text and a request-level hint code '' @ [CHR 0x60] @ ''raw_json_decode_failed_fallback_to_text'' @ [CHR 0x60] @ '' explains that decode fallback. Non-JSON raw text sent with JSON content type still falls back successfully without that decode-fallback hint. Maximum request body size is 1 MiB.'' @ [CHR 0x0A, CHR 0x0A] @ ''Returns the same structured analysis as /v1/analyze, including syntax errors, structured hints for fixing errors, and lint results. When syntax errors occur, the '' @ [CHR 0x27] @ ''hints'' @ [CHR 0x27] @ '' field contains machine-readable entries for common mistakes (e.g., Graphviz syntax, tab indentation, arrow operators). The legacy '' @ [CHR 0x27] @ ''suggestions'' @ [CHR 0x27] @ '' field remains for backward compatibility and is deprecated.'')),
        (''operationId'', VString ''analyzeCodeRaw''),
        (''requestBody'', VMap [
          (''required'', VBool True),
          (''content'', VMap [
            (''text/plain'', VMap [
              (''schema'', VMap [
                (''type'', VString ''string''),
                (''description'', VString ''Raw mermaid diagram code''),
                (''example'', VString (''sequenceDiagram'' @ [CHR 0x0A] @ ''  Alice ->> Bob: Hello Bob, how are you?'' @ [CHR 0x0A] @ ''  Bob-->>Alice: I am good thanks!''))])]),
            (''application/json'', VMap [
              (''schema'', VMap [
                (''type'', VString ''object''),
                (''description'', VString ''Auto-detected JSON with code field''),
                (''properties'', VMap [(''code'', VMap [(''type'', VString ''string''), (''description'', VString ''Mermaid diagram code'')])]),
                (''required'', VStrings [''code''])])])])]),
        (''responses'', VMap [
          (''200'', VMap [
            (''description'', VString ''Analysis complete (valid or syntax error)''),
            (''content'', VMap [
              (''application/json'', VMap [(''schema'', VMap [(''$ref'', VString ''#/components/schemas/AnalyzeResponse'')])])])]),
          (''400'', VMap [
            (''description'', VString ''Bad request (missing code, invalid body, etc.)''),
            (''content'', VMap [(''application/json'', VMap [(''schema'', VMap [(''$ref'', VString ''#/components/schemas/Error'')])])])]),
          (''413'', VMap [
            (''description'', VString ''Request too large (exceeds 1 MiB)''),
            (''content'', VMap [(''application/json'', VMap [(''schema'', VMap [(''$ref'', VString ''#/components/schemas/Error'')])])])]),
          (''500'', VMap [
            (''description'', VString ''Parser/service internal failure''),
            (''content'', VMap [
              (''application/json'', VMap [(''schema'', VMap [(''$ref'', VString ''#/components/schemas/AnalyzeResponse'')])])])]),
          (''504'', VMap [
            (''description'', VString ''Parser timeout''),
            (''content'', VMap [
              (''application/json'', VMap [(''schema'', VMap [(''$ref'', VString ''#/components/schemas/AnalyzeResponse'')])])])])])])]"

definition path_analyze_sarif_200_headers :: go_value where
  "path_analyze_sarif_200_headers =
    VMap [
      (''Deprecation'', VMap [
        (''description'', VString (''Present with value '' @ [CHR 0x60] @ ''true'' @ [CHR 0x60] @ '' when legacy config keys/shapes are accepted under Phase 1 deprecation policy.'')),
        (''schema'', VMap [(''type'', VString ''string'')]),
        (''example'', VString ''true'')]),
      (''Warning'', VMap [
        (''description'', VString ''One or more RFC 7234 warning values (code 299) describing legacy config migration guidance when legacy config is accepted.''),
        (''schema'', VMap [(''type'', VString ''string'')]),
        (''example'', VString (''299 - '' @ [CHR 0x22] @ ''config.schema_version is deprecated; use config.schema-version'' @ [CHR 0x22]))])]"

definition path_analyze_sarif_200_validDiagramWithIssues :: go_value where
  "path_analyze_sarif_200_validDiagramWithIssues =
    VMap [
      (''summary'', VString ''Valid diagram with rule violations (max-fanout exceeded)''),
      (''value'', VMap [
        (''version'', VString ''2.1.0''),
        (''$schema'', VString ''https://raw.githubusercontent.com/oasis-tcs/sarif-spec/master/Schemata/sarif-schema-2.1.0.json''),
        (''runs'', VList [
          VMap [
            (''tool'', VMap [
              (''driver'', VMap [
                (''name'', VString ''merm8''),
                (''informationUri'', VString ''https://github.com/CyanAutomation/merm8''),
                (''rules'', VList [
                  VMap [
                    (''id'', VString ''max-fanout''),
                    (''name'', VString ''max-fanout''),
                    (''shortDescription'', VMap [
                      (''text'', VString ''Flags nodes whose outgoing edge count exceeds a configurable limit (default 5).'')])]])])]),
            (''artifacts'', VList [
              VMap [(''location'', VMap [(''uri'', VString ''mermaid://diagram'')])]]),
            (''invocations'', VList [
              VMap [
                (''executionSuccessful'', VBool True),
                (''properties'', VMap [(''request-uri'', VString ''/v1/analyze/sarif'')])]]),
            (''results'', VList [
              VMap [
                (''ruleId'', VString ''max-fanout''),
                (''level'', VString ''warning''),
                (''message'', VMap [(''text'', VString ''Node exceeds max-fanout limit: 6 outgoing edges (limit: 5)'')]),
                (''locations'', VList [
                  VMap [
                    (''physicalLocation'', VMap [
                      (''artifactLocation'', VMap [(''uri'', VString ''mermaid://diagram'')]),
                      (''region'', VMap [(''startLine'', VInt 1)])])]]),
                (''partialFingerprints'', VMap [(''ruleId'', VString ''max-fanout''), (''nodeId'', VString ''A'')])]])]])])]"

definition path_analyze_sarif_200_syntaxError :: go_value where
  "path_analyze_sarif_200_syntaxError =
    VMap [
      (''summary'', VString ''Parser syntax error (invalid arrow operator)''),
      (''value'', VMap [
        (''version'', VString ''2.1.0''),
        (''$schema'', VString ''https://raw.githubusercontent.com/oasis-tcs/sarif-spec/master/Schemata/sarif-schema-2.1.0.json''),
        (''runs'', VList [
          VMap [
            (''tool'', VMap [
              (''driver'', VMap [
                (''name'', VString ''merm8''),
                (''informationUri'', VString ''https://github.com/CyanAutomation/merm8'')])]),
            (''artifacts'', VList [
              VMap [(''location'', VMap [(''uri'', VString ''mermaid://diagram'')])]]),
            (''invocations'', VList [
              VMap [
                (''executionSuccessful'', VBool False),
                (''properties'', VMap [
                  (''error-code'', VString ''syntax_error''),
                  (''error-message'', VString ''Unexpected token at line 4, column 5'')])]]),
            (''results'', VList [
              VMap [
                (''level'', VString ''error''),
                (''message'', VMap [
                  (''text'', VString ''Unexpected token at line 4, column 5. Check arrow syntax: --> (left to right) or any valid Mermaid arrow.'')]),
                (''locations'', VList [
                  VMap [
                    (''physicalLocation'', VMap [
                      (''artifactLocation'', VMap [(''uri'', VString ''mermaid://diagram'')]),
                      (''region'', VMap [(''startLine'', VInt 4)])])]])]])]])])]"

definition path_analyze_sarif_200_validDiagramNoIssues :: go_value where
  "path_analyze_sarif_200_validDiagramNoIssues =
    VMap [
      (''summary'', VString ''Valid diagram with no issues''),
      (''value'', VMap [
        (''version'', VString ''2.1.0''),
        (''$schema'', VString ''https://raw.githubusercontent.com/oasis-tcs/sarif-spec/master/Schemata/sarif-schema-2.1.0.json''),
        (''runs'', VList [
          VMap [
            (''tool'', VMap [
              (''driver'', VMap [
                (''name'', VString ''merm8''),
                (''informationUri'', VString ''https://github.com/CyanAutomation/merm8'')])]),
            (''artifacts'', VList [
              VMap [(''location'', VMap [(''uri'', VString ''mermaid://diagram'')])]]),
            (''invocations'', VList [
              VMap [
                (''executionSuccessful'', VBool True),
                (''properties'', VMap [(''request-uri'', VString ''/v1/analyze/sarif'')])]]),
            (''results'', VList [])]])])]"

definition path_analyze_sarif :: go_value where
  "path_analyze_sarif =
    VMap [
      (''post'', VMap [
        (''tags'', VStrings [''Linting'']),
        (''summary'', VString ''Analyze and lint a Mermaid diagram (SARIF output)''),
        (''description'', VString (''Runs the same analysis pipeline as POST /v1/analyze, returning SARIF 2.1.0 when analysis is valid. Legacy config acceptance follows the same deprecation lifecycle: Phase 1 accepts legacy flat/nested/snake_case config with deprecation signals, and Phase 2 enforcement starts in v1.2.0 (Q2 2026 planned) with HTTP 400 '' @ [CHR 0x60] @ ''deprecated_config_format'' @ [CHR 0x60] @ '' for legacy config.'')),
        (''x-operational-env'', VMap [(''required'', VList [VString ''PARSER_CONCURRENCY_LIMIT'', VString ''PARSER_MAX_OLD_SPACE_MB''])]),
        (''operationId'', VString ''analyzeCodeSARIF''),
        (''requestBody'', VMap [
          (''required'', VBool True),
          (''content'', VMap [
            (''application/json'', VMap [(''schema'', VMap [(''$ref'', VString ''#/components/schemas/AnalyzeRequest'')])])])]),
        (''responses'', VMap [
          (''200'', VMap [
            (''description'', VString ''SARIF 2.1.0 report''),
            (''headers'', path_analyze_sarif_200_headers),
            (''content'', VMap [
              (''application/sarif+json'', VMap [
                (''schema'', VMap [(''$ref'', VString ''#/components/schemas/SARIFReport'')]),
                (''examples'', VMap [
                  (''validDiagramWithIssues'', path_analyze_sarif_200_validDiagramWithIssues),
                  (''syntaxError'', path_analyze_sarif_200_syntaxError),
                  (''validDiagramNoIssues'', path_analyze_sarif_200_validDiagramNoIssues)])])])]),
          (''400'', VMap [
            (''description'', VString ''Bad request''),
            (''content'', VMap [
              (''application/json'', VMap [(''schema'', VMap [(''$ref'', VString ''#/components/schemas/AnalyzeResponse'')])])])]),
          (''413'', VMap [
            (''description'', VString ''Request too large''),
            (''content'', VMap [
              (''application/json'', VMap [(''schema'', VMap [(''$ref'', VString ''#/components/schemas/AnalyzeResponse'')])])])]),
          (''500'', VMap [
            (''description'', VString ''Parser/service internal failure''),
            (''content'', VMap [
              (''application/json'', VMap [(''schema'', VMap [(''$ref'', VString ''#/components/schemas/AnalyzeResponse'')])])])]),
          (''504'', VMap [
            (''description'', VString ''Parser timeout''),
            (''content'', VMap [
              (''application/json'', VMap [(''schema'', VMap [(''$ref'', VString ''#/components/schemas/AnalyzeResponse'')])])])])])])]"

definition path_spec :: go_value where
  "path_spec =
    VMap [
      (''get'', VMap [
        (''tags'', VStrings [''Documentation'']),
        (''summary'', VString ''Get OpenAPI specification''),
        (''description'', VString ''Returns the OpenAPI 3.0 specification for this API in JSON format''),
        (''operationId'', VString ''getSpec''),
        (''responses'', VMap [
          (''200'', VMap [
            (''description'', VString ''OpenAPI specification''),
            (''content'', VMap [(''application/json'', VMap [(''schema'', VMap [(''type'', VString ''object'')])])])])])])]"

definition path_docs :: go_value where
  "path_docs =
    VMap [
      (''get'', VMap [
        (''tags'', VStrings [''Documentation'']),
        (''summary'', VString ''Interactive API documentation''),
        (''description'', VString ''Serve Swagger UI for interactive API exploration and testing''),
        (''operationId'', VString ''getDocs''),
        (''responses'', VMap [
          (''200'', VMap [
            (''description'', VString ''Swagger UI HTML page''),
            (''content'', VMap [(''text/html'', VMap [(''schema'', VMap [(''type'', VString ''string'')])])])])])])]"

definition path_analyse :: go_value where
  "path_analyse =
    VMap [
      (''post'', VMap [
        (''tags'', VStrings [''Linting'']),
        (''summary'', VString ''Analyze and lint a Mermaid diagram (deprecated spelling alias)''),
        (''description'', VString ''Deprecated compatibility alias for POST /v1/analyze. Use the canonical American English spelling endpoint instead. Planned removal in v1.2.0 (Q2 2026).''),
        (''operationId'', VString ''analyzeCodeSpellingAlias''),
        (''deprecated'', VBool True),
        (''requestBody'', VMap [
          (''required'', VBool True),
          (''content'', VMap [
            (''application/json'', VMap [(''schema'', VMap [(''$ref'', VString ''#/components/schemas/AnalyzeRequest'')])])])]),
        (''responses'', VMap [
          (''200'', VMap [
            (''description'', VString ''Success''),
            (''content'', VMap [
              (''application/json'', VMap [(''schema'', VMap [(''$ref'', VString ''#/components/schemas/AnalyzeResponse'')])])])]),
          (''400'', VMap [
            (''description'', VString ''Bad request''),
            (''content'', VMap [
              (''application/json'', VMap [(''schema'', VMap [(''$ref'', VString ''#/components/schemas/AnalyzeResponse'')])])])]),
          (''413'', VMap [
            (''description'', VString ''Request too large''),
            (''content'', VMap [
              (''application/json'', VMap [(''schema'', VMap [(''$ref'', VString ''#/components/schemas/AnalyzeResponse'')])])])]),
          (''500'', VMap [
            (''description'', VString ''Parser/service internal failure''),
            (''content'', VMap [
              (''application/json'', VMap [(''schema'', VMap [(''$ref'', VString ''#/components/schemas/AnalyzeResponse'')])])])]),
          (''504'', VMap [
            (''description'', VString ''Parser timeout''),
            (''content'', VMap [
              (''application/json'', VMap [(''schema'', VMap [(''$ref'', VString ''#/components/schemas/AnalyzeResponse'')])])])])])])]"

definition path_analyse_raw :: go_value where
  "path_analyse_raw =
    VMap [
      (''post'', VMap [
        (''tags'', VStrings [''Linting'']),
        (''summary'', VString ''Analyze and lint a Mermaid diagram (raw text, deprecated spelling alias)''),
        (''description'', VString ''Deprecated compatibility alias for POST /v1/analyze/raw. Use the canonical American English spelling endpoint instead. Planned removal in v1.2.0 (Q2 2026).''),
        (''operationId'', VString ''analyzeCodeRawSpellingAlias''),
        (''deprecated'', VBool True),
        (''requestBody'', VMap [
          (''required'', VBool True),
          (''content'', VMap [
            (''text/plain'', VMap [
              (''schema'', VMap [(''type'', VString ''string''), (''description'', VString ''Raw mermaid diagram code'')])]),
            (''application/json'', VMap [
              (''schema'', VMap [
                (''type'', VString ''object''),
                (''description'', VString ''Auto-detected JSON with code field''),
                (''properties'', VMap [(''code'', VMap [(''type'', VString ''string''), (''description'', VString ''Mermaid diagram code'')])]),
                (''required'', VStrings [''code''])])])])]),
        (''responses'', VMap [
          (''200'', VMap [
            (''description'', VString ''Analysis complete''),
            (''content'', VMap [
              (''application/json'', VMap [(''schema'', VMap [(''$ref'', VString ''#/components/schemas/AnalyzeResponse'')])])])]),
          (''400'', VMap [
            (''description'', VString ''Bad request''),
            (''content'', VMap [(''application/json'', VMap [(''schema'', VMap [(''$ref'', VString ''#/components/schemas/Error'')])])])]),
          (''413'', VMap [
            (''description'', VString ''Request too large''),
            (''content'', VMap [(''application/json'', VMap [(''schema'', VMap [(''$ref'', VString ''#/components/schemas/Error'')])])])]),
          (''500'', VMap [
            (''description'', VString ''Parser/service internal failure''),
            (''content'', VMap [
              (''application/json'', VMap [(''schema'', VMap [(''$ref'', VString ''#/components/schemas/AnalyzeResponse'')])])])]),
          (''504'', VMap [
            (''description'', VString ''Parser timeout''),
            (''content'', VMap [
              (''application/json'', VMap [(''schema'', VMap [(''$ref'', VString ''#/components/schemas/AnalyzeResponse'')])])])])])])]"

definition schema_SARIFReport :: go_value where
  "schema_SARIFReport =
    VMap [
      (''type'', VString ''object''),
      (''required'', VStrings [''version'', ''runs'']),
      (''properties'', VMap [
        (''$schema'', VMap [
          (''type'', VString ''string''),
          (''example'', VString ''https://json.schemastore.org/sarif-2.1.0.json'')]),
        (''version'', VMap [(''type'', VString ''string''), (''enum'', VStrings [''2.1.0''])]),
        (''runs'', VMap [(''type'', VString ''array''), (''items'', VMap [(''type'', VString ''object'')])])]),
      (''description'', VString SeverityMappingDoc)]"

definition schema_ReadyResponse :: go_value where
  "schema_ReadyResponse =
    VMap [
      (''type'', VString ''object''),
      (''required'', VStrings [''status'']),
      (''properties'', VMap [
        (''status'', VMap [(''type'', VString ''string''), (''example'', VString ''ready'')]),
        (''parser_version'', VMap [(''type'', VString ''string'')]),
        (''mermaid_version'', VMap [(''type'', VString ''string'')])])]"

definition schema_ReadyErrorResponse :: go_value where
  "schema_ReadyErrorResponse =
    VMap [
      (''type'', VString ''object''),
      (''required'', VStrings [''status'', ''error'']),
      (''properties'', VMap [
        (''status'', VMap [(''type'', VString ''string''), (''example'', VString ''not_ready'')]),
        (''error'', VMap [(''$ref'', VString ''#/components/schemas/Error'')])])]"

definition schema_HealthMetricsResponse :: go_value where
  "schema_HealthMetricsResponse =
    VMap [
      (''type'', VString ''object''),
      (''required'', VStrings [''status'', ''timestamp'', ''uptime-seconds'', ''parser-ready'', ''lint-supported'', ''total-requests'']),
      (''properties'', VMap [
        (''status'', VMap [
          (''type'', VString ''string''),
          (''example'', VString ''ok''),
          (''enum'', VStrings [''ok'', ''degraded''])]),
        (''timestamp'', VMap [
          (''type'', VString ''integer''),
          (''format'', VString ''int64''),
          (''description'', VString ''Unix timestamp in milliseconds''),
          (''example'', VInt 1704067200000)]),
        (''uptime-seconds'', VMap [(''type'', VString ''number''), (''example'', VFloat (36005 / 10))]),
        (''build-commit'', VMap [(''type'', VString ''string'')]),
        (''build-time'', VMap [(''type'', VString ''string'')]),
        (''parser-ready'', VMap [(''type'', VString ''boolean''), (''example'', VBool True)]),
        (''parser-version'', VMap [(''type'', VString ''string'')]),
        (''lint-supported'', VMap [
          (''type'', VString ''array''),
          (''items'', VMap [
            (''type'', VString ''string''),
            (''enum'', VStrings [''flowchart'', ''sequence'', ''class'', ''er'', ''state''])]),
          (''example'', VStrings [''flowchart'', ''sequence'', ''class'', ''er'', ''state''])]),
        (''total-requests'', VMap [(''type'', VString ''integer''), (''format'', VString ''int64''), (''example'', VInt 1500)]),
        (''successful-analyses'', VMap [(''$ref'', VString ''#/components/schemas/AnalyzeOutcomeMetrics'')]),
        (''failed-analyses'', VMap [(''$ref'', VString ''#/components/schemas/AnalyzeOutcomeMetrics'')]),
        (''median-parser-latency-ms'', VMap [(''type'', VString ''number''), (''example'', VFloat (425 / 10))]),
        (''p95-parser-latency-ms'', VMap [(''type'', VString ''number''), (''example'', VFloat 150)])])]"

definition schema_AnalyzeOutcomeMetrics :: go_value where
  "schema_AnalyzeOutcomeMetrics =
    VMap [
      (''type'', VString ''object''),
      (''required'', VStrings [''total'']),
      (''properties'', VMap [
        (''total'', VMap [(''type'', VString ''integer''), (''format'', VString ''int64''), (''example'', VInt 1450)]),
        (''syntax-errors'', VMap [(''type'', VString ''integer''), (''format'', VString ''int64''), (''example'', VInt 25)]),
        (''lint-success'', VMap [(''type'', VString ''integer''), (''format'', VString ''int64''), (''example'', VInt 1450)]),
        (''other'', VMap [(''type'', VString ''integer''), (''format'', VString ''int64''), (''example'', VInt 1)]),
        (''parser-timeout'', VMap [(''type'', VString ''integer''), (''format'', VString ''int64''), (''example'', VInt 10)]),
        (''parser-errors'', VMap [(''type'', VString ''integer''), (''format'', VString ''int64''), (''example'', VInt 10)]),
        (''internal-errors'', VMap [(''type'', VString ''integer''), (''format'', VString ''int64''), (''example'', VInt 5)])])]"

definition schema_InfoResponse :: go_value where
  "schema_InfoResponse =
    VMap [
      (''type'', VString ''object''),
      (''required'', VStrings [''parser-recognized'', ''lint-supported'', ''supported-rules'', ''supported-rule-ids'']),
      (''example'', VMap [
        (''service-version'', VString ''2.3.4''),
        (''parser-version'', VString ''1.0.0''),
        (''mermaid-version'', VString ''11.12.3''),
        (''parser-recognized'', VStrings [''flowchart'', ''sequence'', ''class'', ''er'', ''state'']),
        (''lint-supported'', VStrings [''flowchart'', ''sequence'', ''class'', ''er'', ''state'']),
        (''supported-rules'', VStrings [''no-cycles'', ''no-disconnected-nodes'']),
        (''supported-rule-ids'', VStrings [''flowchart/no-cycles'', ''flowchart/no-disconnected-nodes''])]),
      (''properties'', VMap [
        (''service-version'', VMap [(''type'', VString ''string'')]),
        (''parser-version'', VMap [(''type'', VString ''string'')]),
        (''mermaid-version'', VMap [(''type'', VString ''string'')]),
        (''parser-timeout-seconds'', VMap [(''type'', VString ''integer'')]),
        (''parser-recognized'', VMap [
          (''type'', VString ''array''),
          (''items'', VMap [
            (''type'', VString ''string''),
            (''enum'', VStrings [''flowchart'', ''sequence'', ''class'', ''er'', ''state''])])]),
        (''lint-supported'', VMap [
          (''type'', VString ''array''),
          (''items'', VMap [
            (''type'', VString ''string''),
            (''enum'', VStrings [''flowchart'', ''sequence'', ''class'', ''er'', ''state''])])]),
        (''supported-rules'', VMap [(''type'', VString ''array''), (''items'', VMap [(''type'', VString ''string'')])]),
        (''supported-rule-ids'', VMap [
          (''type'', VString ''array''),
          (''description'', VString ''Rule IDs currently registered in the engine and accepted in config.rules.''),
          (''items'', VMap [(''type'', VString ''string'')])])])]"

definition schema_InternalMetricsResponse :: go_value where
  "schema_InternalMetricsResponse =
    VMap [
      (''type'', VString ''object''),
      (''required'', VStrings [''analyze'', ''parser'']),
      (''properties'', VMap [
        (''analyze'', VMap [
          (''type'', VString ''object''),
          (''required'', VStrings [''valid_success'', ''syntax_error'', ''other'']),
          (''properties'', VMap [
            (''valid_success'', VMap [(''type'', VString ''integer''), (''format'', VString ''int64'')]),
            (''syntax_error'', VMap [(''type'', VString ''integer''), (''format'', VString ''int64'')]),
            (''other'', VMap [(''type'', VString ''integer''), (''format'', VString ''int64'')])])]),
        (''parser'', VMap [
          (''type'', VString ''object''),
          (''required'', VStrings [''timeout'', ''subprocess'', ''decode'', ''contract'', ''internal'', ''other'']),
          (''properties'', VMap [
            (''timeout'', VMap [(''type'', VString ''integer''), (''format'', VString ''int64'')]),
            (''subprocess'', VMap [(''type'', VString ''integer''), (''format'', VString ''int64'')]),
            (''decode'', VMap [(''type'', VString ''integer''), (''format'', VString ''int64'')]),
            (''contract'', VMap [(''type'', VString ''integer''), (''format'', VString ''int64'')]),
            (''internal'', VMap [(''type'', VString ''integer''), (''format'', VString ''int64'')]),
            (''other'', VMap [(''type'', VString ''integer''), (''format'', VString ''int64'')])])])])]"

definition schema_DiagramTypesResponse :: go_value where
  "schema_DiagramTypesResponse =
    VMap [
      (''type'', VString ''object''),
      (''required'', VStrings [''parser-recognized'', ''lint-supported'']),
      (''properties'', VMap [
        (''parser-recognized'', VMap [
          (''type'', VString ''array''),
          (''items'', VMap [
            (''type'', VString ''string''),
            (''enum'', VStrings [''flowchart'', ''sequence'', ''class'', ''er'', ''state''])])]),
        (''lint-supported'', VMap [
          (''type'', VString ''array''),
          (''items'', VMap [
            (''type'', VString ''string''),
            (''enum'', VStrings [''flowchart'', ''sequence'', ''class'', ''er'', ''state''])])])])]"

definition schema_ConfigVersionsResponse :: go_value where
  "schema_ConfigVersionsResponse =
    VMap [
      (''type'', VString ''object''),
      (''required'', VStrings [''current'', ''supported'', ''deprecations'', ''compatibility'']),
      (''properties'', VMap [
        (''current'', VMap [
          (''type'', VString ''string''),
          (''description'', VString ''The current/default config schema version''),
          (''example'', VString ''v1'')]),
        (''supported'', VMap [
          (''type'', VString ''array''),
          (''description'', VString ''List of supported config schema versions''),
          (''items'', VMap [(''type'', VString ''string'')]),
          (''example'', VStrings [''v1''])]),
        (''deprecations'', VMap [
          (''type'', VString ''array''),
          (''description'', VString ''Deprecated config shapes and their sunset dates''),
          (''items'', VMap [
            (''type'', VString ''object''),
            (''required'', VStrings [''version'', ''status'', ''sunset-date'', ''replacement'', ''migration-notes'']),
            (''properties'', VMap [
              (''version'', VMap [
                (''type'', VString ''string''),
                (''description'', VString ''The deprecated config variant''),
                (''example'', VString ''unversioned'')]),
              (''status'', VMap [
                (''type'', VString ''string''),
                (''enum'', VStrings [''deprecated'']),
                (''example'', VString ''deprecated'')]),
              (''sunset-date'', VMap [
                (''type'', VString ''string''),
                (''format'', VString ''date-time''),
                (''description'', VString ''ISO 8601 datetime when support will be removed''),
                (''example'', VString ''2026-12-31T23:59:59Z'')]),
              (''replacement'', VMap [
                (''type'', VString ''string''),
                (''description'', VString ''Recommended alternative''),
                (''example'', VString ''Use config.schema-version: v1 with config.rules structure'')]),
              (''migration-notes'', VMap [
                (''type'', VString ''string''),
                (''description'', VString ''Migration guidance''),
                (''example'', VString ''Legacy flat config shapes must be migrated to the v1 schema.'')])])])]),
        (''compatibility'', VMap [
          (''type'', VString ''object''),
          (''required'', VStrings [''api-version'', ''accepts-accept-version'', ''version-negotiation'', ''rate-limiting'']),
          (''description'', VString ''API compatibility information''),
          (''properties'', VMap [
            (''api-version'', VMap [(''type'', VString ''string''), (''example'', VString ''1.0'')]),
            (''accepts-accept-version'', VMap [(''type'', VString ''boolean''), (''example'', VBool True)]),
            (''version-negotiation'', VMap [
              (''type'', VString ''string''),
              (''description'', VString ''How to use version negotiation headers''),
              (''example'', VString ''Use Accept-Version header to request specific API versions. Response includes Content-Version header.'')]),
            (''rate-limiting'', VMap [
              (''type'', VString ''string''),
              (''description'', VString ''Rate limiting information''),
              (''example'', VString ''Rate limit info available in X-RateLimit-* response headers.'')])])])])]"

definition schema_RulesResponse :: go_value where
  "schema_RulesResponse =
    VMap [
      (''type'', VString ''object''),
      (''required'', VStrings [''rules'']),
      (''properties'', VMap [
        (''rules'', VMap [
          (''type'', VString ''array''),
          (''items'', VMap [(''$ref'', VString ''#/components/schemas/RuleMetadata'')])])])]"

definition schema_RuleMetadata :: go_value where
  "schema_RuleMetadata =
    VMap [
      (''type'', VString ''object''),
      (''required'', VStrings [''id'', ''state'', ''severity'', ''description'', ''default-config'', ''configurable-options'']),
      (''properties'', VMap [
        (''id'', VMap [(''type'', VString ''string''), (''example'', VString ''max-fanout'')]),
        (''state'', VMap [
          (''type'', VString ''string''),
          (''enum'', VStrings [''implemented'', ''planned'']),
          (''example'', VString ''implemented'')]),
        (''availability'', VMap [
          (''type'', VString ''string''),
          (''example'', VString ''Planned for sequence diagram linting expansion.'')]),
        (''severity'', VMap [(''type'', VString ''string''), (''enum'', VStrings [''error'', ''warning'', ''info''])]),
        (''description'', VMap [(''type'', VString ''string'')]),
        (''default-config'', VMap [(''type'', VString ''object''), (''additionalProperties'', VBool True)]),
        (''configurable-options'', VMap [
          (''type'', VString ''array''),
          (''items'', VMap [(''$ref'', VString ''#/components/schemas/RuleOption'')])]),
        (''diagram-examples'', VMap [
          (''type'', VString ''array''),
          (''items'', VMap [(''type'', VString ''string'')]),
          (''description'', VString ''Example Mermaid diagrams that trigger violations for this rule.'')])])]"

definition schema_RuleOption :: go_value where
  "schema_RuleOption =
    VMap [
      (''type'', VString ''object''),
      (''required'', VStrings [''name'', ''type'', ''description'']),
      (''properties'', VMap [
        (''name'', VMap [(''type'', VString ''string'')]),
        (''type'', VMap [(''type'', VString ''string'')]),
        (''description'', VMap [(''type'', VString ''string'')]),
        (''constraints'', VMap [(''type'', VString ''string'')])])]"

definition schema_AnalyzeRequest :: go_value where
  "schema_AnalyzeRequest =
    VMap [
      (''type'', VString ''object''),
      (''required'', VStrings [''code'']),
      (''properties'', VMap [
        (''code'', VMap [
          (''type'', VString ''string''),
          (''description'', VString (''Mermaid diagram code to analyze. Total request body must be 1 MiB or smaller. Supports suppression comments like '' @ [CHR 0x60] @ ''%% merm8-disable max-fanout'' @ [CHR 0x60] @ '' and '' @ [CHR 0x60] @ ''%% merm8-disable all'' @ [CHR 0x60] @ ''.'')),
          (''example'', VString (''graph TD'' @ [CHR 0x0A] @ ''  A[Start] --> B[Process]'' @ [CHR 0x0A] @ ''  B --> C[End]''))]),
        (''config'', VMap [
          (''$ref'', VString ''#/components/schemas/RuleConfigSchema''),
          (''description'', VString (''Optional lint rule configuration. Canonical format is {'' @ [CHR 0x22] @ ''schema-version'' @ [CHR 0x22] @ '':'' @ [CHR 0x22] @ ''v1'' @ [CHR 0x22] @ '','' @ [CHR 0x22] @ ''rules'' @ [CHR 0x22] @ '':{...}}. If schema-version is v1 and rules is omitted, the server normalizes rules to {}. Phase 1 accepts legacy flat/nested/snake_case config with deprecation warnings; Phase 2 rejects legacy config with 400 deprecated_config_format.'')),
          (''example'', VMap [
            (''schema-version'', VString ''v1''),
            (''rules'', VMap [
              (''max-fanout'', VMap [
                (''enabled'', VBool True),
                (''limit'', VInt 3),
                (''severity'', VString ''error''),
                (''suppression-selectors'', VList [VString ''node:A''])]),
              (''no-disconnected-nodes'', VMap [(''enabled'', VBool False), (''severity'', VString ''info'')])])])]),
        (''parser'', VMap [
          (''type'', VString ''object''),
          (''description'', VString ''Optional per-request parser execution limits. Server-side bounds are enforced regardless of requested values. Defaults: timeout_seconds=5, max_old_space_mb=512. For very large diagrams, split into smaller diagrams/subgraphs and batch requests where possible.''),
          (''properties'', VMap [
            (''timeout_seconds'', VMap [
              (''type'', VString ''integer''),
              (''minimum'', VInt 1),
              (''maximum'', VInt 60),
              (''default'', VInt 5),
              (''description'', VString ''Parser timeout in seconds. Min 1, max 60.'')]),
            (''max_old_space_mb'', VMap [
              (''type'', VString ''integer''),
              (''minimum'', VInt 128),
              (''maximum'', VInt 4096),
              (''default'', VInt 512),
              (''description'', VString ''Node parser max old-space heap in MiB. Min 128, max 4096.'')])])])])]"

definition schema_Error :: go_value where
  "schema_Error =
    VMap [
      (''type'', VString ''object''),
      (''required'', VStrings [''code'', ''message'']),
      (''properties'', VMap [
        (''code'', VMap [
          (''type'', VString ''string''),
          (''description'', VString ''Machine-readable error code''),
          (''example'', VString ''invalid_json'')]),
        (''message'', VMap [
          (''type'', VString ''string''),
          (''description'', VString ''Human-readable error message''),
          (''example'', VString ''invalid JSON body'')]),
        (''details'', VMap [
          (''type'', VString ''object''),
          (''description'', VString ''Optional context-specific error details object (e.g. path, supported)''),
          (''additionalProperties'', VBool True)])])]"

definition schema_HintAppliesTo :: go_value where
  "schema_HintAppliesTo =
    VMap [
      (''type'', VString ''object''),
      (''properties'', VMap [
        (''line'', VMap [(''type'', VString ''integer''), (''minimum'', VInt 0)]),
        (''column'', VMap [(''type'', VString ''integer''), (''minimum'', VInt 0)]),
        (''diagram-type'', VMap [
          (''type'', VString ''string''),
          (''enum'', VStrings [''flowchart'', ''sequence'', ''class'', ''er'', ''state'', ''unknown''])])])]"

definition schema_Hint :: go_value where
  "schema_Hint =
    VMap [
      (''type'', VString ''object''),
      (''required'', VStrings [''code'', ''message'', ''severity'', ''confidence'']),
      (''properties'', VMap [
        (''code'', VMap [
          (''type'', VString ''string''),
          (''description'', VString (''Machine-readable hint code. See API_GUIDE.md '' @ [CHR 0x22] @ ''Hint codes'' @ [CHR 0x22] @ '' for the current catalog and semantics. Codes are stable for automation (no silent semantic repurposing); clients should treat unknown codes as additive future expansion.'')),
          (''example'', VString ''graphviz_syntax_detected'')]),
        (''message'', VMap [(''type'', VString ''string''), (''description'', VString ''Human-readable hint message.'')]),
        (''severity'', VMap [(''type'', VString ''string''), (''enum'', VStrings [''info'', ''warning''])]),
        (''confidence'', VMap [(''type'', VString ''number''), (''minimum'', VInt 0), (''maximum'', VInt 1)]),
        (''applies-to'', VMap [(''$ref'', VString ''#/components/schemas/HintAppliesTo'')]),
        (''fix-example'', VMap [(''type'', VString ''string''), (''description'', VString ''Optional concise replacement snippet.'')])])]"

definition schema_ResponseHint :: go_value where
  "schema_ResponseHint =
    VMap [
      (''type'', VString ''object''),
      (''required'', VStrings [''code'', ''message'', ''severity'', ''confidence'']),
      (''properties'', VMap [
        (''code'', VMap [
          (''type'', VString ''string''),
          (''description'', VString (''Machine-readable hint code. See API_GUIDE.md '' @ [CHR 0x22] @ ''Hint codes'' @ [CHR 0x22] @ '' for the current catalog and semantics. Codes are stable for automation (no silent semantic repurposing); clients should treat unknown codes as additive future expansion.'')),
          (''example'', VString ''graphviz_syntax_detected'')]),
        (''message'', VMap [(''type'', VString ''string''), (''description'', VString ''Human-readable hint message.'')]),
        (''severity'', VMap [(''type'', VString ''string''), (''enum'', VStrings [''info'', ''warning''])]),
        (''confidence'', VMap [(''type'', VString ''number''), (''minimum'', VInt 0), (''maximum'', VInt 1)]),
        (''applies-to'', VMap [(''$ref'', VString ''#/components/schemas/HintAppliesTo'')]),
        (''fix-example'', VMap [(''type'', VString ''string''), (''description'', VString ''Optional concise replacement snippet.'')])])]"

definition schema_HelpSuggestion :: go_value where
  "schema_HelpSuggestion =
    VMap [
      (''type'', VString ''object''),
      (''required'', VStrings [''title'', ''explanation'', ''wrong-example'', ''correct-example'', ''doc-link'', ''fix-action'']),
      (''properties'', VMap [
        (''title'', VMap [
          (''type'', VString ''string''),
          (''description'', VString ''Short help topic title.''),
          (''example'', VString ''Arrow operator syntax'')]),
        (''explanation'', VMap [
          (''type'', VString ''string''),
          (''description'', VString ''One-paragraph explanation of the likely issue.'')]),
        (''wrong-example'', VMap [(''type'', VString ''string''), (''description'', VString ''Incorrect code snippet.'')]),
        (''correct-example'', VMap [(''type'', VString ''string''), (''description'', VString ''Corrected code snippet.'')]),
        (''doc-link'', VMap [
          (''type'', VString ''string''),
          (''description'', VString ''Reference documentation URL or path fragment.'')]),
        (''fix-action'', VMap [
          (''type'', VString ''string''),
          (''description'', VString ''Actionable one-line remediation instruction.'')])])]"

definition schema_AnalyzeResponse :: go_value where
  "schema_AnalyzeResponse =
    VMap [
      (''type'', VString ''object''),
      (''required'', VStrings [''valid'', ''lint-supported'', ''issues'', ''syntax-error'', ''metrics'']),
      (''properties'', VMap [
        (''valid'', VMap [
          (''type'', VString ''boolean''),
          (''description'', VString ''Whether the Mermaid code is syntactically valid and lint-supported (unsupported parsed families return valid=false).'')]),
        (''diagram-type'', VMap [
          (''type'', VString ''string''),
          (''description'', VString ''Normalized Mermaid diagram type (flowchart, sequence, class, er, state, unknown).''),
          (''enum'', VStrings [''flowchart'', ''sequence'', ''class'', ''er'', ''state'', ''unknown'']),
          (''example'', VString ''flowchart'')]),
        (''lint-supported'', VMap [
          (''type'', VString ''boolean''),
          (''description'', VString ''Whether lint rules are currently implemented for the reported diagram type. Syntax-error responses use parser-detected type fallback when available.'')]),
        (''syntax-error'', VMap [
          (''$ref'', VString ''#/components/schemas/SyntaxError''),
          (''description'', VString (''Syntax error details if '' @ [CHR 0x60] @ ''valid'' @ [CHR 0x60] @ '' is false. Null if valid.'')),
          (''nullable'', VBool True)]),
        (''issues'', VMap [
          (''type'', VString ''array''),
          (''description'', VString ''Lint rule violations found in the diagram''),
          (''items'', VMap [(''$ref'', VString ''#/components/schemas/Issue'')])]),
        (''warnings'', VMap [
          (''type'', VString ''array''),
          (''description'', VString ''Deprecation warnings emitted when legacy config keys/shapes are used.''),
          (''items'', VMap [(''type'', VString ''string'')])]),
        (''error'', VMap [
          (''$ref'', VString ''#/components/schemas/Error''),
          (''description'', VString ''API-level error details for non-200 responses.''),
          (''nullable'', VBool True)]),
        (''metrics'', VMap [
          (''$ref'', VString ''#/components/schemas/Metrics''),
          (''description'', VString ''Aggregate statistics about the diagram. Present for successful analyze responses, including syntax errors (zeroed counters with fallback diagram-type) and parsed but lint-unsupported families.''),
          (''nullable'', VBool True)]),
        (''hints'', VMap [
          (''type'', VString ''array''),
          (''description'', VString ''Structured syntax remediation hints. Provided when valid=false and syntax-error is present.''),
          (''items'', VMap [(''$ref'', VString ''#/components/schemas/Hint'')])]),
        (''help-suggestion'', VMap [
          (''$ref'', VString ''#/components/schemas/HelpSuggestion''),
          (''description'', VString ''Focused remediation guidance for common syntax/config mistakes.''),
          (''nullable'', VBool True)]),
        (''suggestions'', VMap [
          (''type'', VString ''array''),
          (''description'', VString ''Deprecated: use hints. Backward-compatible derived text messages from hints.''),
          (''deprecated'', VBool True),
          (''items'', VMap [(''type'', VString ''string'')])])])]"

definition schema_SyntaxError :: go_value where
  "schema_SyntaxError =
    VMap [
      (''type'', VString ''object''),
      (''required'', VStrings [''message'', ''line'', ''column'']),
      (''properties'', VMap [
        (''message'', VMap [
          (''type'', VString ''string''),
          (''description'', VString ''Error message from the Mermaid parser''),
          (''example'', VString (''Unexpected token '' @ [CHR 0x27] @ ''>'' @ [CHR 0x27]))]),
        (''line'', VMap [
          (''type'', VString ''integer''),
          (''description'', VString ''1-based line number where the error occurred''),
          (''example'', VInt 2)]),
        (''column'', VMap [
          (''type'', VString ''integer''),
          (''description'', VString ''0-based column number where the error occurred''),
          (''example'', VInt 12)])])]"

definition schema_Issue :: go_value where
  "schema_Issue =
    VMap [
      (''type'', VString ''object''),
      (''required'', VStrings [''rule-id'', ''severity'', ''message'', ''fingerprint'']),
      (''properties'', VMap [
        (''rule-id'', VMap [
          (''type'', VString ''string''),
          (''description'', VString ''Identifier of the lint rule that triggered''),
          (''example'', VString ''no-disconnected-nodes'')]),
        (''severity'', VMap [
          (''type'', VString ''string''),
          (''enum'', VStrings [''error'', ''warning'', ''info'']),
          (''description'', VString ''Severity level of the issue'')]),
        (''message'', VMap [
          (''type'', VString ''string''),
          (''description'', VString ''Human-readable description of the issue''),
          (''example'', VString (''Node '' @ [CHR 0x27] @ ''isolated'' @ [CHR 0x27] @ '' is not connected to the graph''))]),
        (''line'', VMap [
          (''type'', VString ''integer''),
          (''description'', VString ''1-based line number where issue is located when known. Omitted when unknown.''),
          (''example'', VInt 5),
          (''nullable'', VBool True)]),
        (''column'', VMap [
          (''type'', VString ''integer''),
          (''description'', VString ''0-based column number where issue is located when known. Omitted when unknown.''),
          (''example'', VInt 2),
          (''nullable'', VBool True)]),
        (''fingerprint'', VMap [
          (''type'', VString ''string''),
          (''description'', VString ''Deterministic SHA-256 hash of the normalized issue signature for CI tracking and dedupe.''),
          (''example'', VString ''b57b8d8ac7c95f6e8f6e30a38ae2e6bcd2c6576d7f20d3155014a4f14f7a8f46'')]),
        (''context'', VMap [
          (''$ref'', VString ''#/components/schemas/IssueContext''),
          (''description'', VString ''Optional grouping context for node-scoped findings; omitted when no grouping applies.''),
          (''nullable'', VBool True)])])]"

definition schema_IssueContext :: go_value where
  "schema_IssueContext =
    VMap [
      (''type'', VString ''object''),
      (''properties'', VMap [
        (''subgraph-id'', VMap [
          (''type'', VString ''string''),
          (''description'', VString ''ID of the subgraph containing the affected node.''),
          (''example'', VString ''cluster-1'')]),
        (''subgraph-label'', VMap [
          (''type'', VString ''string''),
          (''description'', VString ''Human-readable label of the subgraph containing the affected node.''),
          (''example'', VString ''Core Services'')])])]"

definition schema_Metrics :: go_value where
  "schema_Metrics =
    VMap [
      (''type'', VString ''object''),
      (''required'', VStrings [''node-count'', ''edge-count'', ''disconnected-node-count'', ''duplicate-node-count'', ''max-fanin'', ''max-fanout'', ''diagram-type'']),
      (''properties'', VMap [
        (''node-count'', VMap [
          (''type'', VString ''integer''),
          (''description'', VString ''Total number of nodes in the diagram''),
          (''example'', VInt 5)]),
        (''edge-count'', VMap [
          (''type'', VString ''integer''),
          (''description'', VString ''Total number of edges (connections) in the diagram''),
          (''example'', VInt 4)]),
        (''disconnected-node-count'', VMap [
          (''type'', VString ''integer''),
          (''description'', VString ''Number of nodes with neither incoming nor outgoing edges''),
          (''example'', VInt 1)]),
        (''duplicate-node-count'', VMap [
          (''type'', VString ''integer''),
          (''description'', VString ''Number of duplicate node declarations beyond first occurrences''),
          (''example'', VInt 0)]),
        (''max-fanin'', VMap [
          (''type'', VString ''integer''),
          (''description'', VString ''Maximum number of incoming edges to any single node''),
          (''example'', VInt 3)]),
        (''max-fanout'', VMap [
          (''type'', VString ''integer''),
          (''description'', VString ''Maximum number of outgoing edges from any single node''),
          (''example'', VInt 2)]),
        (''diagram-type'', VMap [
          (''type'', VString ''string''),
          (''description'', VString ''Diagram type copied from parsed metadata''),
          (''enum'', VStrings [''flowchart'', ''sequence'', ''class'', ''er'', ''state'', ''unknown'']),
          (''example'', VString ''flowchart'')]),
        (''direction'', VMap [
          (''type'', VString ''string''),
          (''description'', VString ''Diagram direction when provided by parser''),
          (''example'', VString ''TD'')]),
        (''issue-counts'', VMap [
          (''$ref'', VString ''#/components/schemas/IssueCounts''),
          (''description'', VString ''Issue count aggregations by severity and rule ID'')])])]"

definition schema_IssueCounts :: go_value where
  "schema_IssueCounts =
    VMap [
      (''type'', VString ''object''),
      (''required'', VStrings [''by-severity'', ''by-rule'']),
      (''properties'', VMap [
        (''by-severity'', VMap [(''type'', VString ''object''), (''additionalProperties'', VMap [(''type'', VString ''integer'')])]),
        (''by-rule'', VMap [(''type'', VString ''object''), (''additionalProperties'', VMap [(''type'', VString ''integer'')])])])]"

definition schema_AnalyzeHelpResponse :: go_value where
  "schema_AnalyzeHelpResponse =
    VMap [
      (''type'', VString ''object''),
      (''properties'', VMap [
        (''diagram-types'', VMap [
          (''type'', VString ''object''),
          (''description'', VString ''Map of supported diagram types with descriptions and examples''),
          (''additionalProperties'', VMap [
            (''type'', VString ''object''),
            (''properties'', VMap [
              (''description'', VMap [(''type'', VString ''string''), (''description'', VString ''What this diagram type is used for'')]),
              (''example'', VMap [
                (''type'', VString ''string''),
                (''description'', VString ''Example Mermaid code for this diagram type'')])])])]),
        (''common-errors'', VMap [
          (''type'', VString ''array''),
          (''description'', VString ''List of common syntax errors and how to fix them''),
          (''items'', VMap [
            (''type'', VString ''object''),
            (''properties'', VMap [
              (''pattern'', VMap [(''type'', VString ''string''), (''description'', VString ''Name or pattern of the common mistake'')]),
              (''fix'', VMap [(''type'', VString ''string''), (''description'', VString ''How to fix this error'')]),
              (''example'', VMap [(''type'', VString ''string''), (''description'', VString ''Example of the error and correct code'')])])])]),
        (''arrow-syntax'', VMap [
          (''type'', VString ''object''),
          (''description'', VString ''Arrow syntax for different diagram types''),
          (''additionalProperties'', VMap [
            (''type'', VString ''object''),
            (''properties'', VMap [
              (''description'', VMap [
                (''type'', VString ''string''),
                (''description'', VString ''Description of arrow syntax for this diagram type'')]),
              (''valid'', VMap [
                (''type'', VString ''array''),
                (''description'', VString ''Valid arrow styles''),
                (''items'', VMap [(''type'', VString ''string'')])])])])]),
        (''resources'', VMap [
          (''type'', VString ''object''),
          (''description'', VString ''Helpful links and documentation''),
          (''additionalProperties'', VMap [(''type'', VString ''string''), (''description'', VString ''URL to resource'')])])])]"

definition openapi_paths :: go_value where
  "openapi_paths =
    VMap [
      (''/v1/healthz'', path_healthz),
      (''/v1/health'', path_health),
      (''/v1/ready'', path_ready),
      (''/v1/health/metrics'', path_health_metrics),
      (''/v1/info'', path_info),
      (''/v1/metrics'', path_metrics),
      (''/v1/version'', path_version),
      (''/v1/config-versions'', path_config_versions),
      (''/v1/internal/metrics'', path_internal_metrics),
      (''/v1/rules'', path_rules),
      (''/v1/rules/schema'', path_rules_schema),
      (''/v1/diagram-types'', path_diagram_types),
      (''/v1/analyze'', path_analyze),
      (''/v1/analyze/help'', path_analyze_help),
      (''/v1/analyze/raw'', path_analyze_raw),
      (''/v1/analyze/sarif'', path_analyze_sarif),
      (''/v1/spec'', path_spec),
      (''/v1/docs'', path_docs),
      (''/v1/analyse'', path_analyse),
      (''/v1/analyse/raw'', path_analyse_raw)]"

definition openapi_schemas :: go_value where
  "openapi_schemas =
    VMap [
      (''SARIFReport'', schema_SARIFReport),
      (''ReadyResponse'', schema_ReadyResponse),
      (''ReadyErrorResponse'', schema_ReadyErrorResponse),
      (''HealthMetricsResponse'', schema_HealthMetricsResponse),
      (''AnalyzeOutcomeMetrics'', schema_AnalyzeOutcomeMetrics),
      (''InfoResponse'', schema_InfoResponse),
      (''InternalMetricsResponse'', schema_InternalMetricsResponse),
      (''DiagramTypesResponse'', schema_DiagramTypesResponse),
      (''ConfigVersionsResponse'', schema_ConfigVersionsResponse),
      (''RulesResponse'', schema_RulesResponse),
      (''RuleMetadata'', schema_RuleMetadata),
      (''RuleOption'', schema_RuleOption),
      (''RuleConfigSchema'', ConfigJSONSchema),
      (''AnalyzeRequest'', schema_AnalyzeRequest),
      (''Error'', schema_Error),
      (''HintAppliesTo'', schema_HintAppliesTo),
      (''Hint'', schema_Hint),
      (''ResponseHint'', schema_ResponseHint),
      (''HelpSuggestion'', schema_HelpSuggestion),
      (''AnalyzeResponse'', schema_AnalyzeResponse),
      (''SyntaxError'', schema_SyntaxError),
      (''Issue'', schema_Issue),
      (''IssueContext'', schema_IssueContext),
      (''Metrics'', schema_Metrics),
      (''IssueCounts'', schema_IssueCounts),
      (''AnalyzeHelpResponse'', schema_AnalyzeHelpResponse)]"

definition openapi :: go_value where
  "openapi =
    VMap [
      (''openapi'', VString ''3.0.0''),
      (''info'', VMap [
        (''title'', VString ''merm8 - Mermaid Lint API''),
        (''description'', VString (''A deterministic Mermaid static analysis engine that validates and lints Mermaid diagrams.'' @ [CHR 0x0A, CHR 0x0A] @ ''- Accepts Mermaid code via HTTP POST'' @ [CHR 0x0A] @ ''- Validates syntax using the official Mermaid parser'' @ [CHR 0x0A] @ ''- Returns structured syntax errors if invalid'' @ [CHR 0x0A] @ ''- Runs deterministic lint rules on valid diagrams'' @ [CHR 0x0A] @ ''- Returns structured lint results with metrics'')),
        (''version'', VString ''1.0.0''),
        (''contact'', VMap [(''name'', VString ''merm8 Project''), (''url'', VString ''https://github.com/CyanAutomation/merm8'')]),
        (''license'', VMap [
          (''name'', VString ''License''),
          (''url'', VString ''https://github.com/CyanAutomation/merm8/blob/main/LICENSE'')])]),
      (''servers'', VList [
        VMap [(''url'', VString ''http://localhost:8080''), (''description'', VString ''Local development server'')]]),
      (''tags'', VList [
        VMap [(''name'', VString ''Linting''), (''description'', VString ''Mermaid diagram analysis and linting'')],
        VMap [
          (''name'', VString ''Documentation''),
          (''description'', VString ''API documentation and specification'')],
        VMap [(''name'', VString ''Probes''), (''description'', VString ''Liveness and readiness probe endpoints'')]]),
      (''paths'', openapi_paths),
      (''components'', VMap [(''schemas'', openapi_schemas)])]"

end
