(* ===== verification/Openapi.thy ===== *)
theory Openapi
  imports Openapi_Doc Server
begin

text \<open>
  What \<^verbatim>\<open>internal/api/openapi.go\<close> does with the document, and whether the document is right about the service:
  the operations it describes against the routes that are registered, and its internal references.
\<close>

section \<open>The document with the servers of the environment\<close>

definition local_server :: go_value where
  "local_server = VMap [(''url'', VString ''http://localhost:8080''), (''description'', VString ''Local development server'')]"

definition getServersFromEnv :: "environment \<Rightarrow> go_value" where
  "getServersFromEnv env =
     (let apiURL = TrimSpace (env ''MERM8_API_URL'') in
      if apiURL = [] then VList [local_server]
      else VList [VMap [(''url'', VString apiURL), (''description'', VString ''Production server'')], local_server])"

text \<open>The copy is made by encoding to JSON and decoding again; the codec is a parameter.\<close>

record json_codec =
  jc_Marshal :: "go_value \<Rightarrow> gostring option"
  jc_MarshalIndent :: "go_value \<Rightarrow> gostring"
  jc_Unmarshal :: "gostring \<Rightarrow> go_value option"

definition cloneOpenAPISpec :: "json_codec \<Rightarrow> go_value \<Rightarrow> (gostring, go_value) gomap option" where
  "cloneOpenAPISpec jc src =
     (case jc_Marshal jc src of
        None \<Rightarrow> None
      | Some specJSON \<Rightarrow> (case jc_Unmarshal jc specJSON of Some (VMap spec) \<Rightarrow> Some spec | Some VNil \<Rightarrow> Some [] | _ \<Rightarrow> None))"

definition openAPIFallbackSpec :: "go_value \<Rightarrow> go_value" where
  "openAPIFallbackSpec servers =
     VMap [(''openapi'', VString ''3.0.0''),
           (''info'', VMap [(''title'', VString ''merm8 - Mermaid Lint API''), (''version'', VString ''1.0.0'')]),
           (''servers'', servers),
           (''paths'', VMap [(''/v1/spec'', VMap [(''get'', VMap [
              (''summary'', VString ''Get OpenAPI specification''),
              (''responses'', VMap [(''200'', VMap [(''description'', VString ''OpenAPI specification'')])])])])])]"

definition OpenAPISpec :: "json_codec \<Rightarrow> environment \<Rightarrow> go_value" where
  "OpenAPISpec jc env =
     (let servers = getServersFromEnv env in
      case cloneOpenAPISpec jc openapi of
        None \<Rightarrow> openAPIFallbackSpec servers
      | Some spec \<Rightarrow> VMap (AList.update ''servers'' servers spec))"

section \<open>What the document says\<close>

definition member :: "gostring \<Rightarrow> go_value \<Rightarrow> go_value option" where
  "member k v = (case v of VMap m \<Rightarrow> map_of m k | _ \<Rightarrow> None)"

definition members :: "go_value option \<Rightarrow> (gostring \<times> go_value) list" where
  "members v = (case v of Some (VMap m) \<Rightarrow> m | _ \<Rightarrow> [])"

text \<open>The operations: the method, the path and the operation object.\<close>

definition described_operations :: "go_value \<Rightarrow> ((gostring \<times> gostring) \<times> go_value) list" where
  "described_operations doc =
     concat (map (\<lambda>(path, item). map (\<lambda>(m, operation). ((map upper_char m, path), operation)) (members (Some item)))
       (members (member ''paths'' doc)))"

definition operation_ids :: "go_value \<Rightarrow> go_value list" where
  "operation_ids doc = List.map_filter (\<lambda>(_, operation). member ''operationId'' operation) (described_operations doc)"

text \<open>Every reference of a value, at any depth.\<close>

fun value_refs :: "go_value \<Rightarrow> go_value list" and member_refs :: "(gostring \<times> go_value) list \<Rightarrow> go_value list"
  and list_refs :: "go_value list \<Rightarrow> go_value list" where
  "value_refs (VMap m) = member_refs m"
| "value_refs (VList vs) = list_refs vs"
| "value_refs _ = []"
| "member_refs [] = []"
| "member_refs ((k, v) # m) = (if k = ''$ref'' then v # member_refs m else value_refs v @ member_refs m)"
| "list_refs [] = []"
| "list_refs (v # vs) = value_refs v @ list_refs vs"

definition schema_named :: "go_value \<Rightarrow> gostring \<Rightarrow> go_value option" where
  "schema_named doc name = map_of (members (Option.bind (member ''components'' doc) (member ''schemas''))) name"

definition ref_prefix :: gostring where
  "ref_prefix = ''#/components/schemas/''"

definition resolve :: "go_value \<Rightarrow> go_value \<Rightarrow> go_value option" where
  "resolve doc r =
     (case r of
        VString s \<Rightarrow> if HasPrefix s ref_prefix then schema_named doc (TrimPrefix s ref_prefix) else None
      | _ \<Rightarrow> None)"

text \<open>The operations in the order of the document.\<close>

definition operation_table :: "(gostring \<times> gostring) list" where
  "operation_table =
    [(''GET'', ''/v1/healthz''), (''GET'', ''/v1/health''), (''GET'', ''/v1/ready''), (''GET'', ''/v1/health/metrics''),
     (''GET'', ''/v1/info''), (''GET'', ''/v1/metrics''), (''GET'', ''/v1/version''), (''GET'', ''/v1/config-versions''),
     (''GET'', ''/v1/internal/metrics''), (''GET'', ''/v1/rules''), (''GET'', ''/v1/rules/schema''), (''GET'', ''/v1/diagram-types''),
     (''POST'', ''/v1/analyze''), (''GET'', ''/v1/analyze/help''), (''POST'', ''/v1/analyze/raw''), (''POST'', ''/v1/analyze/sarif''),
     (''GET'', ''/v1/spec''), (''GET'', ''/v1/docs''), (''POST'', ''/v1/analyse''), (''POST'', ''/v1/analyse/raw'')]"

definition schema_names :: "gostring list" where
  "schema_names = [''SARIFReport'', ''ReadyResponse'', ''ReadyErrorResponse'', ''HealthMetricsResponse'', ''AnalyzeOutcomeMetrics'', ''InfoResponse'', ''InternalMetricsResponse'', ''DiagramTypesResponse'', ''ConfigVersionsResponse'', ''RulesResponse'', ''RuleMetadata'', ''RuleOption'', ''RuleConfigSchema'', ''AnalyzeRequest'', ''Error'', ''HintAppliesTo'', ''Hint'', ''ResponseHint'', ''HelpSuggestion'', ''AnalyzeResponse'', ''SyntaxError'', ''Issue'', ''IssueContext'', ''Metrics'', ''IssueCounts'', ''AnalyzeHelpResponse'']"

text \<open>What the evaluation of the document gives.\<close>

definition operations_ok :: "go_value \<Rightarrow> bool" where
  "operations_ok doc \<longleftrightarrow> (let ops = described_operations doc in
     map fst ops = operation_table \<and> distinct (List.map_filter (\<lambda>(_, operation). member ''operationId'' operation) ops) \<and>
     list_all (\<lambda>(_, operation). member ''operationId'' operation \<noteq> None) ops)"

definition refs_ok :: "go_value \<Rightarrow> gostring list \<Rightarrow> bool" where
  "refs_ok doc known \<longleftrightarrow> map fst (members (Option.bind (member ''components'' doc) (member ''schemas''))) = schema_names \<and>
     list_all (\<lambda>r. case r of VString s \<Rightarrow> s \<in> set known | _ \<Rightarrow> False) (value_refs doc)"

lemma openapi_operations: "operations_ok openapi"
  by code_simp

lemma openapi_refs: "refs_ok openapi (map (\<lambda>name. ref_prefix @ name) schema_names)"
  by code_simp

lemma resolve_known: "name \<in> set schema_names \<Longrightarrow> resolve openapi (VString (ref_prefix @ name)) \<noteq> None"
  using openapi_refs
  by (auto simp: resolve_def schema_named_def refs_ok_def HasPrefix_def TrimPrefix_def map_of_eq_None_iff image_iff simp flip: set_map)

text \<open>
  C39: the OpenAPI document describes the service. It describes each of its operations once, and they are
  the registered routes save the page \<^verbatim>\<open>/v1/benchmark.html\<close>; every operation has an identifier of its own; every
  reference in the document leads to one of its schemas.
\<close>
theorem openapi_describes_routes:
  "set (map fst (described_operations openapi)) = set registered_routes - {(''GET'', ''/v1/benchmark.html'')} \<and>
   distinct (map fst (described_operations openapi)) \<and>
   distinct (operation_ids openapi) \<and> length (operation_ids openapi) = length (described_operations openapi) \<and>
   list_all (\<lambda>r. resolve openapi r \<noteq> None) (value_refs openapi)"
proof -
  have ops: "map fst (described_operations openapi) = operation_table" "distinct (operation_ids openapi)"
    "list_all (\<lambda>(_, operation). member ''operationId'' operation \<noteq> None) (described_operations openapi)"
    using openapi_operations by (simp_all add: operations_ok_def operation_ids_def Let_def)
  have "length (List.map_filter f xs) = length xs" if "list_all (\<lambda>x. f x \<noteq> None) xs" for f :: "'x \<Rightarrow> 'y option" and xs
    using that by (induction xs) (auto simp: List.map_filter_simps)
  moreover have "resolve openapi r \<noteq> None" if "r \<in> set (value_refs openapi)" for r
  proof -
    have "case r of VString s \<Rightarrow> s \<in> set (map (\<lambda>name. ref_prefix @ name) schema_names) | _ \<Rightarrow> False"
      using openapi_refs that unfolding refs_ok_def list_all_iff by blast
    then obtain name where "r = VString (ref_prefix @ name)" "name \<in> set schema_names" by (auto split: go_value.splits)
    then show ?thesis using resolve_known by simp
  qed
  moreover have "set operation_table = set registered_routes - {(''GET'', ''/v1/benchmark.html'')}" "distinct operation_table"
    by code_simp+
  ultimately show ?thesis using ops by (simp add: operation_ids_def case_prod_unfold list_all_iff)
qed

end
