(* ===== verification/Endpoints.thy ===== *)
theory Endpoints
  imports Openapi Analyze Engine_Props
begin

text \<open>
  The endpoints of \<^verbatim>\<open>internal/api/handler.go\<close> that answer from the state of the handler: health, readiness,
  metrics, rules, versions, help, and the documents with their validators. A handler gives the status and the
  value for \<^verbatim>\<open>writeJSON\<close>, or changes the exchange where it writes by itself. The clock, the file system and what
  the parser can report are arguments.
\<close>

section \<open>The handler\<close>

text \<open>The fields the setters write, and the optional abilities of the parser: \<open>None\<close> when it lacks one.\<close>

record handler_info =
  hd_serviceVersion :: gostring
  hd_buildCommit :: gostring
  hd_buildTime :: gostring
  hd_metricsHandler :: "(http_request \<Rightarrow> exchange \<Rightarrow> exchange) option"

record parser_abilities =
  pa_Ready :: "gostring option option"
  pa_VersionInfo :: "version_info option option"
  pa_Timeout :: "int option"

definition NewHandler :: "bool \<Rightarrow> parser_iface option \<Rightarrow> engine option \<Rightarrow> engine_panic + parser_iface \<times> service \<times> handler_info" where
  "NewHandler defaultStrictConfigSchema p e =
     (let p = (case p of None \<Rightarrow> noopParser | Some p \<Rightarrow> p) in
      case (case e of Some e \<Rightarrow> Inr e | None \<Rightarrow> map_sum (\<lambda>x. x) fst New) of
        Inl panic \<Rightarrow> Inl panic
      | Inr e \<Rightarrow> Inr (p,
          \<lparr>sv_engine = Some e, sv_strict = defaultStrictConfigSchema, sv_slots = newParserConcurrencyLimiter,
           sv_cache = newAnalysisResultCache defaultAnalysisCacheEntries defaultAnalysisCacheTTL defaultAnalysisCacheBytes,
           sv_counters = zero_counters, sv_telemetry = None\<rparr>,
          \<lparr>hd_serviceVersion = [], hd_buildCommit = [], hd_buildTime = [], hd_metricsHandler = None\<rparr>))"

definition SetStrictConfigSchema :: "bool \<Rightarrow> service \<Rightarrow> service" where
  "SetStrictConfigSchema strict sv = sv\<lparr>sv_strict := strict\<rparr>"

definition SetParserConcurrencyLimit :: "int \<Rightarrow> service \<Rightarrow> service" where
  "SetParserConcurrencyLimit limit sv = sv\<lparr>sv_slots := SetLimit limit (sv_slots sv)\<rparr>"

definition SetMetricsHandler :: "(http_request \<Rightarrow> exchange \<Rightarrow> exchange) option \<Rightarrow> handler_info \<Rightarrow> handler_info" where
  "SetMetricsHandler metricsHandler h = h\<lparr>hd_metricsHandler := metricsHandler\<rparr>"

text \<open>The collectors go to the service and, where the parser takes them, to its cache.\<close>

definition SetTelemetryMetrics :: "metrics_call list option \<Rightarrow> ('p \<Rightarrow> 'p) option \<Rightarrow> service \<times> 'p \<Rightarrow> service \<times> 'p" where
  "SetTelemetryMetrics metrics setter s =
     ((fst s)\<lparr>sv_telemetry := metrics\<rparr>, case setter of None \<Rightarrow> snd s | Some set_cache_metrics \<Rightarrow> set_cache_metrics (snd s))"

definition NewHandlerWithScript ::
  "bool \<Rightarrow> (gostring \<Rightarrow> 'err + parser_iface) \<Rightarrow> gostring \<Rightarrow> 'err + (engine_panic + parser_iface \<times> service \<times> handler_info)" where
  "NewHandlerWithScript defaultStrictConfigSchema parser_New scriptPath =
     (case parser_New scriptPath of
        Inl err \<Rightarrow> Inl err
      | Inr p \<Rightarrow> Inr (case New of Inl panic \<Rightarrow> Inl panic | Inr (e, _) \<Rightarrow> NewHandler defaultStrictConfigSchema (Some p) (Some e)))"

definition SetServiceVersion :: "gostring \<Rightarrow> handler_info \<Rightarrow> handler_info" where
  "SetServiceVersion version h = h\<lparr>hd_serviceVersion := TrimSpace version\<rparr>"

definition SetBuildMetadata :: "gostring \<Rightarrow> gostring \<Rightarrow> handler_info \<Rightarrow> handler_info" where
  "SetBuildMetadata commit buildTime h = h\<lparr>hd_buildCommit := TrimSpace commit, hd_buildTime := TrimSpace buildTime\<rparr>"

section \<open>Health and metrics\<close>

text \<open>A member with \<^verbatim>\<open>omitempty\<close>, and one set only when the text is not empty.\<close>

definition text_member :: "gostring \<Rightarrow> gostring \<Rightarrow> (gostring \<times> go_value) list" where
  "text_member k s = (if s \<noteq> [] then [(k, VString s)] else [])"

definition count_member :: "gostring \<Rightarrow> 64 word \<Rightarrow> (gostring \<times> go_value) list" where
  "count_member k n = (if n \<noteq> 0 then [(k, VInt (uint n))] else [])"

definition version_of :: "parser_abilities \<Rightarrow> version_info option" where
  "version_of pa = (case pa_VersionInfo pa of None \<Rightarrow> None | Some info \<Rightarrow> info)"

definition InternalMetrics :: "outcome_counters \<Rightarrow> int \<times> go_value" where
  "InternalMetrics snapshot = (200, VMap [
     (''analyze'', VMap [
        (''valid_success'', VInt (uint (oc_validSuccess snapshot))),
        (''syntax_error'', VInt (uint (oc_syntaxError snapshot))),
        (''other'', VInt (uint (oc_other snapshot)))]),
     (''parser'', VMap [
        (''timeout'', VInt (uint (oc_parserTimeout snapshot))),
        (''subprocess'', VInt (uint (oc_parserSubprocess snapshot))),
        (''decode'', VInt (uint (oc_parserDecode snapshot))),
        (''contract'', VInt (uint (oc_parserContract snapshot))),
        (''internal'', VInt (uint (oc_parserInternalError snapshot))),
        (''other'', VInt (uint (oc_other snapshot)))])])"

definition handler_Metrics :: "(gostring \<Rightarrow> gostring \<Rightarrow> gostring) \<Rightarrow> handler_info \<Rightarrow> http_request \<Rightarrow> exchange \<Rightarrow> exchange" where
  "handler_Metrics error_doc h r ex =
     (case hd_metricsHandler h of
        None \<Rightarrow> writeError error_doc 501 ''metrics_not_configured'' ''metrics exporter is not configured'' ex
      | Some exporter \<Rightarrow> exporter r ex)"

definition Healthz :: "handler_info \<Rightarrow> int \<times> go_value" where
  "Healthz h = (200, VMap ([(''status'', VString ''ok'')] @ text_member ''build-commit'' (hd_buildCommit h) @
     text_member ''build-time'' (hd_buildTime h)))"

definition ready_versions :: "parser_abilities \<Rightarrow> (gostring \<times> go_value) list" where
  "ready_versions pa =
     (case version_of pa of
        None \<Rightarrow> []
      | Some info \<Rightarrow> [(''parser-version'', VString (vi_ParserVersion info)), (''mermaid-version'', VString (vi_MermaidVersion info))])"

definition handler_Ready :: "parser_abilities \<Rightarrow> handler_info \<Rightarrow> int \<times> go_value" where
  "handler_Ready pa h =
     (case pa_Ready pa of
        Some (Some err) \<Rightarrow>
          (503, VMap [(''status'', VString ''not_ready''),
                      (''error'', VMap [(''code'', VString ''not_ready''), (''message'', VString err)])])
      | _ \<Rightarrow>
          (200, VMap ([(''status'', VString ''ready'')] @ text_member ''build-commit'' (hd_buildCommit h) @
             text_member ''build-time'' (hd_buildTime h) @ ready_versions pa)))"

definition outcome_value ::
  "64 word \<Rightarrow> 64 word \<Rightarrow> 64 word \<Rightarrow> 64 word \<Rightarrow> 64 word \<Rightarrow> 64 word \<Rightarrow> 64 word \<Rightarrow> go_value" where
  "outcome_value n syntaxErrors lintSuccess oth parserTimeout parserErrors internalErrors =
     VMap ([(''total'', VInt (uint n))] @ count_member ''syntax-errors'' syntaxErrors @ count_member ''lint-success'' lintSuccess @
       count_member ''other'' oth @ count_member ''parser-timeout'' parserTimeout @ count_member ''parser-errors'' parserErrors @
       count_member ''internal-errors'' internalErrors)"

definition HealthMetrics ::
  "int \<Rightarrow> rat \<Rightarrow> engine option \<Rightarrow> parser_abilities \<Rightarrow> handler_info \<Rightarrow> outcome_counters \<Rightarrow> int \<times> go_value" where
  "HealthMetrics unixMilli uptime e pa h c =
     (200, VMap (
        [(''status'', VString ''ok''), (''timestamp'', VInt unixMilli), (''uptime-seconds'', VFloat uptime)] @
        text_member ''build-commit'' (hd_buildCommit h) @ text_member ''build-time'' (hd_buildTime h) @
        [(''parser-ready'', VBool (case pa_Ready pa of Some (Some _) \<Rightarrow> False | _ \<Rightarrow> True))] @
        text_member ''parser-version'' (case version_of pa of None \<Rightarrow> [] | Some info \<Rightarrow> vi_ParserVersion info) @
        [(''lint-supported'', VStrings (lintSupportedFamilies e)),
         (''total-requests'', VInt (uint (total_requests c))),
         (''successful-analyses'', outcome_value (oc_validSuccess c) 0 (oc_validSuccess c) 0 0 0 0),
         (''failed-analyses'', outcome_value (failed_total c) (oc_syntaxError c) 0 (oc_other c) (oc_parserTimeout c)
            (oc_parserSubprocess c + oc_parserDecode c + oc_parserContract c) (oc_parserInternalError c)),
         (''median-parser-latency-ms'', VFloat 0), (''p95-parser-latency-ms'', VFloat 0)]))"

section \<open>Rules, versions and help\<close>

definition rule_examples :: "(gostring, gostring list) gomap" where
  "rule_examples =
     [(''no-duplicate-node-ids'', [''graph TD'' @ [CHR 0x0A] @ ''  A[Node A]'' @ [CHR 0x0A] @ ''  B[Another Node]'' @ [CHR 0x0A] @ ''  A[Duplicate ID]'' @ [CHR 0x0A] @ ''  A --> B'']),
      (''no-disconnected-nodes'', [''graph TD'' @ [CHR 0x0A] @ ''  A[Connected] --> B[Also Connected]'' @ [CHR 0x0A] @ ''  C[Lonely Node]'' @ [CHR 0x0A] @ ''  D[Orphaned]'']),
      (''max-fanout'', [''graph TD'' @ [CHR 0x0A] @ ''  Root[Hub]'' @ [CHR 0x0A] @ ''  Root --> A[Branch 1]'' @ [CHR 0x0A] @ ''  Root --> B[Branch 2]'' @ [CHR 0x0A] @ ''  Root --> C[Branch 3]'' @ [CHR 0x0A] @ ''  Root --> D[Branch 4]'' @ [CHR 0x0A] @ ''  Root --> E[Branch 5]'']),
      (''max-depth'', [''graph TD'' @ [CHR 0x0A] @ ''  A[Level 1] --> B[Level 2]'' @ [CHR 0x0A] @ ''  B --> C[Level 3]'' @ [CHR 0x0A] @ ''  C --> D[Level 4]'' @ [CHR 0x0A] @ ''  D --> E[Level 5]'' @ [CHR 0x0A] @ ''  E --> F[Level 6]'']),
      (''no-cycles'', [''graph TD'' @ [CHR 0x0A] @ ''  A[Start] --> B[Middle]'' @ [CHR 0x0A] @ ''  B --> C[End]'' @ [CHR 0x0A] @ ''  C --> A''])]"

definition getRuleExamples :: "gostring \<Rightarrow> gostring list" where
  "getRuleExamples ruleID = (case map_of rule_examples ruleID of Some diagrams \<Rightarrow> diagrams | None \<Rightarrow> [])"

definition rule_option_response :: "option_metadata \<Rightarrow> go_value" where
  "rule_option_response option =
     VMap ([(''name'', VString (opt_Name option)), (''type'', VString (opt_Type option)),
            (''description'', VString (opt_Description option))] @ text_member ''constraints'' (opt_Constraints option))"

definition rule_response :: "rule_metadata \<Rightarrow> go_value" where
  "rule_response rule =
     VMap ([(''id'', VString (meta_ID rule)), (''state'', VString (meta_State rule))] @ text_member ''availability'' (meta_Availability rule) @
       [(''severity'', VString (meta_Severity rule)), (''description'', VString (meta_Description rule)),
        (''default-config'', VMap (meta_DefaultConfig rule)),
        (''configurable-options'', VList (map rule_option_response (meta_ConfigurableOptions rule)))] @
       (if getRuleExamples (meta_ID rule) \<noteq> [] then [(''diagram-examples'', VStrings (getRuleExamples (meta_ID rule)))] else []))"

definition ListRules :: "int \<times> go_value" where
  "ListRules = (200, VMap [(''rules'', VList (map rule_response ListRuleMetadata))])"

text \<open>Without an engine the endpoint answers with an error document.\<close>

definition RuleConfigSchema :: "world \<Rightarrow> http_request \<Rightarrow> engine option \<Rightarrow> int \<times> analyze_response + int \<times> go_value" where
  "RuleConfigSchema wd r e =
     (case e of
        None \<Rightarrow> Inl (500, error_response_in_context wd r ''internal_error'' ''analysis engine unavailable'' [(''dependency'', VString ''engine'')])
      | Some e \<Rightarrow> Inr (200, VMap [(''schema'', ConfigJSONSchemaForRuleIDs (KnownRuleIDs e))]))"

definition DiagramTypes :: "engine option \<Rightarrow> int \<times> go_value" where
  "DiagramTypes e = (200, VMap [(''parser-recognized'', VStrings RecognizedDiagramTypes), (''lint-supported'', VStrings (lintSupportedFamilies e))])"

definition supportedRuleIDs :: "gostring list" where
  "supportedRuleIDs = map meta_ID (filter (\<lambda>rule. meta_State rule = ''implemented'') ListRuleMetadata)"

definition handler_supportedRuleIDs :: "engine option \<Rightarrow> gostring list" where
  "handler_supportedRuleIDs e = (case e of None \<Rightarrow> [] | Some e \<Rightarrow> sort (KnownRuleIDs e))"

definition Info :: "engine option \<Rightarrow> parser_abilities \<Rightarrow> handler_info \<Rightarrow> int \<times> go_value" where
  "Info e pa h =
     (let versions = (case version_of pa of None \<Rightarrow> ([], []) | Some info \<Rightarrow> (vi_ParserVersion info, vi_MermaidVersion info));
          timeout = (case pa_Timeout pa of None \<Rightarrow> 0 | Some t \<Rightarrow> if t \<ge> 0 then t div Second else - ((- t) div Second))
      in (200, VMap (text_member ''service-version'' (hd_serviceVersion h) @ text_member ''parser-version'' (fst versions) @
            text_member ''mermaid-version'' (snd versions) @
            (if timeout \<noteq> 0 then [(''parser-timeout-seconds'', VInt timeout)] else []) @
            [(''parser-recognized'', VStrings RecognizedDiagramTypes), (''lint-supported'', VStrings (lintSupportedFamilies e)),
             (''supported-rules'', VStrings supportedRuleIDs), (''supported-rule-ids'', VStrings (handler_supportedRuleIDs e))])))"

definition Version :: "parser_abilities \<Rightarrow> handler_info \<Rightarrow> int \<times> go_value" where
  "Version pa h =
     (200, VMap (text_member ''version'' (hd_serviceVersion h) @ text_member ''build-commit'' (hd_buildCommit h) @
        text_member ''build-time'' (hd_buildTime h) @
        (case version_of pa of
           None \<Rightarrow> []
         | Some info \<Rightarrow> text_member ''parser-version'' (vi_ParserVersion info) @ text_member ''mermaid-version'' (vi_MermaidVersion info))))"

definition ConfigVersions :: "int \<times> go_value" where
  "ConfigVersions = (200, VMap [
     (''current'', VString CurrentConfigSchemaVersion),
     (''supported'', VStrings [CurrentConfigSchemaVersion]),
     (''deprecations'', VList [
        VMap [
          (''version'', VString ''unversioned''),
          (''status'', VString ''deprecated''),
          (''sunset-date'', VString ''2026-12-31T23:59:59Z''),
          (''replacement'', VString ''Use config.schema-version: v1 with config.rules structure''),
          (''migration-notes'', VString ''Legacy flat config shapes and unversioned config structures must be migrated to the v1 schema.'')],
        VMap [
          (''version'', VString ''schema_version (underscore)''),
          (''status'', VString ''deprecated''),
          (''sunset-date'', VString ''2026-09-30T23:59:59Z''),
          (''replacement'', VString ''Use config.schema-version (hyphenated) instead''),
          (''migration-notes'', VString ''The underscore variant config.schema_version is deprecated; migrate to config.schema-version.'')]]),
     (''compatibility'', VMap [
        (''api-version'', VString ''1.0''),
        (''accepts-accept-version'', VBool True),
        (''version-negotiation'', VString ''Use Accept-Version header to request specific API versions. Response includes Content-Version header.''),
        (''rate-limiting'', VString ''Rate limit info available in X-RateLimit-* response headers.'')])])"

definition AnalyzeHelp :: "int \<times> go_value" where
  "AnalyzeHelp = (200, VMap [
      (''diagram-types'', VMap [
        (''flowchart'', VMap [
          (''description'', VString ''Directed acyclic graph for processes, workflows, and decision trees''),
          (''example'', VString (''flowchart TD'' @ [CHR 0x0A] @ ''    Start([Start]) --> Process[Do Something]'' @ [CHR 0x0A] @ ''    Process --> End([End])''))]),
        (''sequence'', VMap [
          (''description'', VString ''Interactions between participants over time''),
          (''example'', VString (''sequenceDiagram'' @ [CHR 0x0A] @ ''    Alice->>Bob: Hello!'' @ [CHR 0x0A] @ ''    Bob-->>Alice: Hi there!''))]),
        (''class'', VMap [
          (''description'', VString ''Object-oriented class hierarchy and relationships''),
          (''example'', VString (''classDiagram'' @ [CHR 0x0A] @ ''    class Animal {'' @ [CHR 0x0A] @ ''        +String name'' @ [CHR 0x0A] @ ''        +eat()'' @ [CHR 0x0A] @ ''    }''))]),
        (''er'', VMap [
          (''description'', VString ''Entity-relationship diagrams for data models''),
          (''example'', VString (''erDiagram'' @ [CHR 0x0A] @ ''    CUSTOMER ||--o{ ORDER : places'' @ [CHR 0x0A] @ ''    ORDER ||--|{ ITEM : contains''))]),
        (''state'', VMap [
          (''description'', VString ''State machines and workflows with state transitions''),
          (''example'', VString (''stateDiagram-v2'' @ [CHR 0x0A] @ ''    [*] --> Active'' @ [CHR 0x0A] @ ''    Active --> Inactive'' @ [CHR 0x0A] @ ''    Inactive --> [*]''))])]),
      (''common-errors'', VList [
        VMap [
          (''pattern'', VString ''No diagram type detected''),
          (''fix'', VString ''Start your diagram with a type keyword: flowchart, sequenceDiagram, classDiagram, erDiagram, or stateDiagram-v2''),
          (''example'', VString (''flowchart TD'' @ [CHR 0x0A] @ ''  A[Start] --> B[End]''))],
        VMap [
          (''pattern'', VString ''Looks like Graphviz syntax''),
          (''fix'', VString (''Use Mermaid syntax instead. Replace '' @ [CHR 0x27] @ ''digraph'' @ [CHR 0x27] @ '' with '' @ [CHR 0x27] @ ''flowchart TD'' @ [CHR 0x27] @ '' and '' @ [CHR 0x27] @ ''->'' @ [CHR 0x27] @ '' with '' @ [CHR 0x27] @ ''-->'' @ [CHR 0x27])),
          (''example'', VString (''flowchart TD'' @ [CHR 0x0A] @ ''  A --> B''))],
        VMap [
          (''pattern'', VString ''Unexpected token''),
          (''fix'', VString ''Check syntax: correct arrow operators, bracket matching, and indentation (use spaces, not tabs)''),
          (''example'', VString (''flowchart TD'' @ [CHR 0x0A] @ ''  A[Valid Label] --> B[Another]''))],
        VMap [
          (''pattern'', VString ''Tab indentation detected''),
          (''fix'', VString ''Replace tabs with spaces (2-4 spaces per indentation level)''),
          (''example'', VString (''flowchart TD'' @ [CHR 0x0A] @ ''    A --> B''))]]),
      (''arrow-syntax'', VMap [
        (''flowchart'', VString ''-->, -..-, -.->, or ===''),
        (''sequence'', VString ''->, -->, ->>, ->>''),
        (''class'', VString ''<|--, *--, o--''),
        (''er'', VString ''||, |o, o|, ||'')]),
      (''resources'', VMap [
        (''documentation'', VString ''https://mermaid.js.org/intro/''),
        (''syntax-guide'', VString ''https://mermaid.js.org/syntax/flowchart.html'')])])"

section \<open>Documents\<close>

definition etag_of :: "gostring \<Rightarrow> gostring" where
  "etag_of data = [CHR 0x22] @ EncodeToString (Sum256 data) @ [CHR 0x22]"

definition revalidates :: "http_request \<Rightarrow> gostring \<Rightarrow> bool" where
  "revalidates r etag = list_ex (\<lambda>candidate. TrimSpace candidate = etag \<or> TrimSpace candidate = ''*'') (Split (req_Get ''If-None-Match'' r) CHR '','')"

definition serveCacheableAsset :: "http_request \<Rightarrow> gostring \<Rightarrow> gostring \<Rightarrow> gostring \<Rightarrow> exchange \<Rightarrow> exchange" where
  "serveCacheableAsset r contentType data cacheControl ex =
     (let etag = etag_of data;
          ex = set_header ''ETag'' etag (set_header ''Cache-Control'' cacheControl (set_header ''Content-Type'' contentType ex))
      in if revalidates r etag then ex\<lparr>ex_writer := w_WriteHeader 304 (ex_writer ex)\<rparr>
         else ex\<lparr>ex_writer := w_Write data (ex_writer ex)\<rparr>)"

text \<open>The cache of encoded documents; its key has the address of the literal and the URL of the environment.\<close>

definition spec_key :: "gostring \<Rightarrow> environment \<Rightarrow> gostring" where
  "spec_key address env = address @ ''|'' @ TrimSpace (env ''MERM8_API_URL'')"

definition openAPISpecPayload ::
  "json_codec \<Rightarrow> gostring \<Rightarrow> environment \<Rightarrow> (gostring, gostring) gomap \<Rightarrow> gostring \<times> (gostring, gostring) gomap" where
  "openAPISpecPayload jc address env cached =
     (let cacheKey = spec_key address env in
      case map_of cached cacheKey of
        Some data \<Rightarrow> (data, cached)
      | None \<Rightarrow>
          (let data = jc_MarshalIndent jc (OpenAPISpec jc env)
           in (data, AList.update cacheKey data (if 4 \<le> length cached then [] else cached))))"

definition ServeSpec ::
  "json_codec \<Rightarrow> gostring \<Rightarrow> environment \<Rightarrow> http_request \<Rightarrow> (gostring, gostring) gomap \<times> exchange \<Rightarrow> (gostring, gostring) gomap \<times> exchange" where
  "ServeSpec jc address env r s =
     (let (data, cached) = openAPISpecPayload jc address env (fst s)
      in (cached, serveCacheableAsset r ''application/json'' data ''public, max-age=3600'' (snd s)))"

definition ServeSwagger :: "gostring \<Rightarrow> http_request \<Rightarrow> exchange \<Rightarrow> exchange" where
  "ServeSwagger swaggerHTML r ex = serveCacheableAsset r ''text/html; charset=utf-8'' swaggerHTML ''public, max-age=3600'' ex"

datatype read_error = NotExist | ReadFailed

definition benchmark_path :: "environment \<Rightarrow> gostring" where
  "benchmark_path env =
     (let path = TrimSpace (env ''MERM8_BENCHMARK_HTML_PATH'') in if path = [] then ''/app/benchmark.html'' else path)"

definition benchmark_status :: "gostring \<Rightarrow> gostring" where
  "benchmark_status content = (if Contains content ''benchmark.html was not pre-generated'' then ''placeholder'' else ''generated'')"

definition ServeBenchmark ::
  "(go_value \<Rightarrow> gostring) \<Rightarrow> environment \<Rightarrow> (gostring \<Rightarrow> read_error + gostring) \<Rightarrow> exchange \<Rightarrow> exchange" where
  "ServeBenchmark Encode env ReadFile ex =
     (case ReadFile (benchmark_path env) of
        Inl NotExist \<Rightarrow>
          writeJSON 404 (Encode (VMap [(''error'', VString (''benchmark file not found at '' @ Quote (benchmark_path env)))])) ex
      | Inl ReadFailed \<Rightarrow> writeJSON 500 (Encode (VMap [(''error'', VString ''failed to read benchmark file'')])) ex
      | Inr content \<Rightarrow>
          (let ex = set_header ''X-Merm8-Benchmark-Status'' (benchmark_status content) (set_header ''Content-Type'' ''text/html; charset=utf-8'' ex);
               ex = ex\<lparr>ex_writer := w_WriteHeader 200 (ex_writer ex)\<rparr>
           in ex\<lparr>ex_writer := w_Write content (ex_writer ex)\<rparr>))"

end
