(* ===== verification/Endpoints_Props.thy ===== *)
theory Endpoints_Props
  imports Endpoints
begin

text \<open>
  The endpoints keep what the OpenAPI document says of them: every answer has the shape the document gives for
  its path and status. The document itself is served from a cache that cannot be noticed, with validators that work.
\<close>

section \<open>Values and schemas\<close>

text \<open>
  The part of the OpenAPI schema objects that the document uses for these answers, read into a datatype without
  the descriptions and examples, and what it means for a value to have a shape.
\<close>

datatype shape =
    Unreadable
  | Reference gostring
  | PlainType gostring
  | Choice "gostring list"
  | ListOf shape
  | OneOf "shape list"
  | Object "gostring list" "(gostring \<times> shape) list" extra
  and extra = Anything | Forbidden | Given shape

definition items_of :: "go_value option \<Rightarrow> go_value list" where
  "items_of v = (case v of Some (VList vs) \<Rightarrow> vs | Some (VStrings ss) \<Rightarrow> map VString ss | _ \<Rightarrow> [])"

definition texts_of :: "go_value option \<Rightarrow> gostring list" where
  "texts_of v = List.map_filter (\<lambda>x. case x of VString s \<Rightarrow> Some s | _ \<Rightarrow> None) (items_of v)"

text \<open>The number bounds the depth of the schema.\<close>

definition read_schema :: "(go_value \<Rightarrow> shape) \<Rightarrow> go_value \<Rightarrow> shape" where
  "read_schema sub s =
     (case member ''$ref'' s of
        Some (VString r) \<Rightarrow> Reference r
      | _ \<Rightarrow>
          (case member ''type'' s of
             Some (VString t) \<Rightarrow>
               if t = ''object'' then
                 Object (texts_of (member ''required'' s)) (map (\<lambda>(k, v). (k, sub v)) (members (member ''properties'' s)))
                   (case member ''additionalProperties'' s of
                      None \<Rightarrow> Anything
                    | Some (VBool b) \<Rightarrow> if b then Anything else Forbidden
                    | Some v \<Rightarrow> Given (sub v))
               else if t = ''array'' then ListOf (case member ''items'' s of None \<Rightarrow> Unreadable | Some v \<Rightarrow> sub v)
               else if member ''enum'' s \<noteq> None then Choice (texts_of (member ''enum'' s))
               else PlainType t
           | _ \<Rightarrow> if member ''oneOf'' s \<noteq> None then OneOf (map (sub) (items_of (member ''oneOf'' s))) else Unreadable))"

primrec shape_of :: "nat \<Rightarrow> go_value \<Rightarrow> shape" where
  "shape_of 0 = (\<lambda>_. Unreadable)"
| "shape_of (Suc n) = read_schema (shape_of n)"

definition has_type :: "gostring \<Rightarrow> go_value \<Rightarrow> bool" where
  "has_type t v =
     (case v of
        VString _ \<Rightarrow> t = ''string''
      | VInt _ \<Rightarrow> t = ''integer'' \<or> t = ''number''
      | VFloat _ \<Rightarrow> t = ''number''
      | VBool _ \<Rightarrow> t = ''boolean''
      | _ \<Rightarrow> False)"

text \<open>The number bounds the depth of the value and of the references followed; \<open>res\<close> resolves references.\<close>

fun has_shape :: "nat \<Rightarrow> (gostring \<Rightarrow> shape option) \<Rightarrow> shape \<Rightarrow> go_value \<Rightarrow> bool" where
  "has_shape 0 res s v = False"
| "has_shape (Suc n) res Unreadable v = False"
| "has_shape (Suc n) res (Reference r) v = (case res r of None \<Rightarrow> False | Some s \<Rightarrow> has_shape n res s v)"
| "has_shape (Suc n) res (PlainType t) v = has_type t v"
| "has_shape (Suc n) res (Choice ss) v = (case v of VString s \<Rightarrow> s \<in> set ss | _ \<Rightarrow> False)"
| "has_shape (Suc n) res (ListOf s) v =
     (case v of VList vs \<Rightarrow> list_all (has_shape n res s) vs | VStrings ss \<Rightarrow> list_all (\<lambda>x. has_shape n res s (VString x)) ss | _ \<Rightarrow> False)"
| "has_shape (Suc n) res (OneOf ss) v = (length (filter (\<lambda>s. has_shape n res s v) ss) = 1)"
| "has_shape (Suc n) res (Object req props ext) v =
     (case v of
        VMap m \<Rightarrow> list_all (\<lambda>k. map_of m k \<noteq> None) req \<and>
          list_all (\<lambda>(k, x). case map_of props k of
              Some s \<Rightarrow> has_shape n res s x
            | None \<Rightarrow> (case ext of Anything \<Rightarrow> True | Forbidden \<Rightarrow> False | Given s \<Rightarrow> has_shape n res s x)) m
      | _ \<Rightarrow> False)"

definition referred_shape :: "gostring \<Rightarrow> shape option" where
  "referred_shape r = map_option (shape_of 6) (resolve openapi (VString r))"

text \<open>The schema the document gives for the answer to a GET request with a status.\<close>

definition documented_schema :: "go_value \<Rightarrow> gostring \<Rightarrow> gostring \<Rightarrow> go_value option" where
  "documented_schema doc path st =
     fold (\<lambda>k v. Option.bind v (member k)) [''paths'', path, ''get'', ''responses'', st, ''content'', ''application/json'', ''schema''] (Some doc)"

definition as_documented :: "gostring \<Rightarrow> int \<times> go_value \<Rightarrow> bool" where
  "as_documented path answer =
     (case documented_schema openapi path (Itoa (fst answer)) of
        None \<Rightarrow> False
      | Some schema \<Rightarrow> has_shape 9 referred_shape (shape_of 6 schema) (snd answer))"

section \<open>The shapes of the document\<close>

definition shape_ReadyResponse :: shape where
  "shape_ReadyResponse =
     Object [''status''] [(''status'', PlainType ''string''), (''parser_version'', PlainType ''string''),
     (''mermaid_version'', PlainType ''string'')] Anything"

definition shape_Error :: shape where
  "shape_Error =
     Object [''code'', ''message''] [(''code'', PlainType ''string''), (''message'', PlainType ''string''), (''details'',
     Object [] [] Anything)] Anything"

definition shape_ReadyErrorResponse :: shape where
  "shape_ReadyErrorResponse =
     Object [''status'', ''error''] [(''status'', PlainType ''string''), (''error'', Reference
     ''#/components/schemas/Error'')] Anything"

definition shape_AnalyzeOutcomeMetrics :: shape where
  "shape_AnalyzeOutcomeMetrics =
     Object [''total''] [(''total'', PlainType ''integer''), (''syntax-errors'', PlainType ''integer''), (''lint-success'',
     PlainType ''integer''), (''other'', PlainType ''integer''), (''parser-timeout'', PlainType ''integer''),
     (''parser-errors'', PlainType ''integer''), (''internal-errors'', PlainType ''integer'')] Anything"

definition shape_HealthMetricsResponse :: shape where
  "shape_HealthMetricsResponse =
     Object [''status'', ''timestamp'', ''uptime-seconds'', ''parser-ready'', ''lint-supported'', ''total-requests'']
     [(''status'', Choice [''ok'', ''degraded'']), (''timestamp'', PlainType ''integer''), (''uptime-seconds'', PlainType
     ''number''), (''build-commit'', PlainType ''string''), (''build-time'', PlainType ''string''), (''parser-ready'',
     PlainType ''boolean''), (''parser-version'', PlainType ''string''), (''lint-supported'', ListOf (Choice
     [''flowchart'', ''sequence'', ''class'', ''er'', ''state''])), (''total-requests'', PlainType ''integer''),
     (''successful-analyses'', Reference ''#/components/schemas/AnalyzeOutcomeMetrics''), (''failed-analyses'', Reference
     ''#/components/schemas/AnalyzeOutcomeMetrics''), (''median-parser-latency-ms'', PlainType ''number''),
     (''p95-parser-latency-ms'', PlainType ''number'')] Anything"

definition shape_InfoResponse :: shape where
  "shape_InfoResponse =
     Object [''parser-recognized'', ''lint-supported'', ''supported-rules'', ''supported-rule-ids''] [(''service-version'',
     PlainType ''string''), (''parser-version'', PlainType ''string''), (''mermaid-version'', PlainType ''string''),
     (''parser-timeout-seconds'', PlainType ''integer''), (''parser-recognized'', ListOf (Choice [''flowchart'',
     ''sequence'', ''class'', ''er'', ''state''])), (''lint-supported'', ListOf (Choice [''flowchart'', ''sequence'',
     ''class'', ''er'', ''state''])), (''supported-rules'', ListOf (PlainType ''string'')), (''supported-rule-ids'', ListOf
     (PlainType ''string''))] Anything"

definition shape_InternalMetricsResponse :: shape where
  "shape_InternalMetricsResponse =
     Object [''analyze'', ''parser''] [(''analyze'', Object [''valid_success'', ''syntax_error'', ''other'']
     [(''valid_success'', PlainType ''integer''), (''syntax_error'', PlainType ''integer''), (''other'', PlainType
     ''integer'')] Anything), (''parser'', Object [''timeout'', ''subprocess'', ''decode'', ''contract'', ''internal'',
     ''other''] [(''timeout'', PlainType ''integer''), (''subprocess'', PlainType ''integer''), (''decode'', PlainType
     ''integer''), (''contract'', PlainType ''integer''), (''internal'', PlainType ''integer''), (''other'', PlainType
     ''integer'')] Anything)] Anything"

definition shape_DiagramTypesResponse :: shape where
  "shape_DiagramTypesResponse =
     Object [''parser-recognized'', ''lint-supported''] [(''parser-recognized'', ListOf (Choice [''flowchart'',
     ''sequence'', ''class'', ''er'', ''state''])), (''lint-supported'', ListOf (Choice [''flowchart'', ''sequence'',
     ''class'', ''er'', ''state'']))] Anything"

definition shape_ConfigVersionsResponse :: shape where
  "shape_ConfigVersionsResponse =
     Object [''current'', ''supported'', ''deprecations'', ''compatibility''] [(''current'', PlainType ''string''),
     (''supported'', ListOf (PlainType ''string'')), (''deprecations'', ListOf (Object [''version'', ''status'',
     ''sunset-date'', ''replacement'', ''migration-notes''] [(''version'', PlainType ''string''), (''status'', Choice
     [''deprecated'']), (''sunset-date'', PlainType ''string''), (''replacement'', PlainType ''string''),
     (''migration-notes'', PlainType ''string'')] Anything)), (''compatibility'', Object [''api-version'',
     ''accepts-accept-version'', ''version-negotiation'', ''rate-limiting''] [(''api-version'', PlainType ''string''),
     (''accepts-accept-version'', PlainType ''boolean''), (''version-negotiation'', PlainType ''string''),
     (''rate-limiting'', PlainType ''string'')] Anything)] Anything"

definition shape_RuleOption :: shape where
  "shape_RuleOption =
     Object [''name'', ''type'', ''description''] [(''name'', PlainType ''string''), (''type'', PlainType ''string''),
     (''description'', PlainType ''string''), (''constraints'', PlainType ''string'')] Anything"

definition shape_RuleMetadata :: shape where
  "shape_RuleMetadata =
     Object [''id'', ''state'', ''severity'', ''description'', ''default-config'', ''configurable-options''] [(''id'',
     PlainType ''string''), (''state'', Choice [''implemented'', ''planned'']), (''availability'', PlainType ''string''),
     (''severity'', Choice [''error'', ''warning'', ''info'']), (''description'', PlainType ''string''),
     (''default-config'', Object [] [] Anything), (''configurable-options'', ListOf (Reference
     ''#/components/schemas/RuleOption'')), (''diagram-examples'', ListOf (PlainType ''string''))] Anything"

definition shape_RulesResponse :: shape where
  "shape_RulesResponse =
     Object [''rules''] [(''rules'', ListOf (Reference ''#/components/schemas/RuleMetadata''))] Anything"

definition shape_AnalyzeHelpResponse :: shape where
  "shape_AnalyzeHelpResponse =
     Object [] [(''diagram-types'', Object [] [] (Given (Object [] [(''description'', PlainType ''string''), (''example'',
     PlainType ''string'')] Anything))), (''common-errors'', ListOf (Object [] [(''pattern'', PlainType ''string''),
     (''fix'', PlainType ''string''), (''example'', PlainType ''string'')] Anything)), (''arrow-syntax'', Object [] []
     (Given (Object [] [(''description'', PlainType ''string''), (''valid'', ListOf (PlainType ''string''))] Anything))),
     (''resources'', Object [] [] (Given (PlainType ''string'')))] Anything"

lemma shapes [simp]:
  "shape_of 6 schema_ReadyResponse = shape_ReadyResponse"
  "shape_of 6 schema_Error = shape_Error"
  "shape_of 6 schema_ReadyErrorResponse = shape_ReadyErrorResponse"
  "shape_of 6 schema_AnalyzeOutcomeMetrics = shape_AnalyzeOutcomeMetrics"
  "shape_of 6 schema_HealthMetricsResponse = shape_HealthMetricsResponse"
  "shape_of 6 schema_InfoResponse = shape_InfoResponse"
  "shape_of 6 schema_InternalMetricsResponse = shape_InternalMetricsResponse"
  "shape_of 6 schema_DiagramTypesResponse = shape_DiagramTypesResponse"
  "shape_of 6 schema_ConfigVersionsResponse = shape_ConfigVersionsResponse"
  "shape_of 6 schema_RuleOption = shape_RuleOption"
  "shape_of 6 schema_RuleMetadata = shape_RuleMetadata"
  "shape_of 6 schema_RulesResponse = shape_RulesResponse"
  "shape_of 6 schema_AnalyzeHelpResponse = shape_AnalyzeHelpResponse"
  by code_simp+


lemma documented_schema_openapi:
  "documented_schema openapi path st =
     fold (\<lambda>k v. Option.bind v (member k)) [path, ''get'', ''responses'', st, ''content'', ''application/json'', ''schema''] (Some openapi_paths)"
  by (simp add: documented_schema_def member_def openapi_def)

lemma schema_named_openapi: "schema_named openapi name = map_of (members (Some openapi_schemas)) name"
  by (simp add: schema_named_def member_def openapi_def)

lemmas path_lookup = documented_schema_openapi member_def openapi_paths_def

lemma codes [simp]: "Itoa 200 = ''200''" "Itoa 503 = ''503''"
  by code_simp+

lemma schema_ref [simp]:
  "resolve openapi (VString ''#/components/schemas/ReadyResponse'') = Some schema_ReadyResponse"
  "resolve openapi (VString ''#/components/schemas/ReadyErrorResponse'') = Some schema_ReadyErrorResponse"
  "resolve openapi (VString ''#/components/schemas/HealthMetricsResponse'') = Some schema_HealthMetricsResponse"
  "resolve openapi (VString ''#/components/schemas/AnalyzeOutcomeMetrics'') = Some schema_AnalyzeOutcomeMetrics"
  "resolve openapi (VString ''#/components/schemas/InfoResponse'') = Some schema_InfoResponse"
  "resolve openapi (VString ''#/components/schemas/InternalMetricsResponse'') = Some schema_InternalMetricsResponse"
  "resolve openapi (VString ''#/components/schemas/DiagramTypesResponse'') = Some schema_DiagramTypesResponse"
  "resolve openapi (VString ''#/components/schemas/ConfigVersionsResponse'') = Some schema_ConfigVersionsResponse"
  "resolve openapi (VString ''#/components/schemas/RulesResponse'') = Some schema_RulesResponse"
  "resolve openapi (VString ''#/components/schemas/RuleMetadata'') = Some schema_RuleMetadata"
  "resolve openapi (VString ''#/components/schemas/RuleOption'') = Some schema_RuleOption"
  "resolve openapi (VString ''#/components/schemas/RuleConfigSchema'') = Some ConfigJSONSchema"
  "resolve openapi (VString ''#/components/schemas/Error'') = Some schema_Error"
  "resolve openapi (VString ''#/components/schemas/AnalyzeHelpResponse'') = Some schema_AnalyzeHelpResponse"
  by (simp_all add: resolve_def ref_prefix_def HasPrefix_def TrimPrefix_def schema_named_openapi members_def openapi_schemas_def)

abbreviation (input) ref_to :: "gostring \<Rightarrow> go_value option" where
  "ref_to name \<equiv> Some (VMap [(''$ref'', VString (''#/components/schemas/'' @ name))])"

lemma at_healthz [simp]:
  "documented_schema openapi ''/v1/healthz'' ''200'' =
     Some (VMap [(''type'', VString ''object''), (''properties'', VMap [(''status'', VMap [(''type'', VString ''string''), (''example'', VString ''ok'')])])])"
  by (simp add: path_lookup path_healthz_def)

lemma at_health [simp]:
  "documented_schema openapi ''/v1/health'' ''200'' =
     Some (VMap [(''type'', VString ''object''), (''properties'', VMap [(''status'', VMap [(''type'', VString ''string''), (''example'', VString ''ok'')])])])"
  by (simp add: path_lookup path_health_def)

lemma at_version [simp]:
  "documented_schema openapi ''/v1/version'' ''200'' =
     Some (VMap [(''type'', VString ''object''), (''additionalProperties'', VMap [(''type'', VString ''string'')])])"
  by (simp add: path_lookup path_version_def)

lemma at_rules_schema [simp]:
  "documented_schema openapi ''/v1/rules/schema'' ''200'' =
     Some (VMap [(''type'', VString ''object''), (''required'', VStrings [''schema'']),
       (''properties'', VMap [(''schema'', VMap [(''$ref'', VString ''#/components/schemas/RuleConfigSchema'')])])])"
  by (simp add: path_lookup path_rules_schema_def)

lemma at_ready [simp]:
  "documented_schema openapi ''/v1/ready'' ''200'' = ref_to ''ReadyResponse''"
  by (simp add: path_lookup path_ready_def)

lemma at_ready_503 [simp]:
  "documented_schema openapi ''/v1/ready'' ''503'' = ref_to ''ReadyErrorResponse''"
  by (simp add: path_lookup path_ready_def)

lemma at_info [simp]:
  "documented_schema openapi ''/v1/info'' ''200'' = ref_to ''InfoResponse''"
  by (simp add: path_lookup path_info_def)

lemma at_health_metrics [simp]:
  "documented_schema openapi ''/v1/health/metrics'' ''200'' = ref_to ''HealthMetricsResponse''"
  by (simp add: path_lookup path_health_metrics_def)

lemma at_internal_metrics [simp]:
  "documented_schema openapi ''/v1/internal/metrics'' ''200'' = ref_to ''InternalMetricsResponse''"
  by (simp add: path_lookup path_internal_metrics_def)

lemma at_diagram_types [simp]:
  "documented_schema openapi ''/v1/diagram-types'' ''200'' = ref_to ''DiagramTypesResponse''"
  by (simp add: path_lookup path_diagram_types_def)

lemma at_config_versions [simp]:
  "documented_schema openapi ''/v1/config-versions'' ''200'' = ref_to ''ConfigVersionsResponse''"
  by (simp add: path_lookup path_config_versions_def)

lemma at_rules [simp]:
  "documented_schema openapi ''/v1/rules'' ''200'' = ref_to ''RulesResponse''"
  by (simp add: path_lookup path_rules_def)

lemma at_analyze_help [simp]:
  "documented_schema openapi ''/v1/analyze/help'' ''200'' = ref_to ''AnalyzeHelpResponse''"
  by (simp add: path_lookup path_analyze_help_def)

lemma referred [simp]:
  "referred_shape ''#/components/schemas/ReadyResponse'' = Some shape_ReadyResponse"
  "referred_shape ''#/components/schemas/Error'' = Some shape_Error"
  "referred_shape ''#/components/schemas/ReadyErrorResponse'' = Some shape_ReadyErrorResponse"
  "referred_shape ''#/components/schemas/AnalyzeOutcomeMetrics'' = Some shape_AnalyzeOutcomeMetrics"
  "referred_shape ''#/components/schemas/HealthMetricsResponse'' = Some shape_HealthMetricsResponse"
  "referred_shape ''#/components/schemas/InfoResponse'' = Some shape_InfoResponse"
  "referred_shape ''#/components/schemas/InternalMetricsResponse'' = Some shape_InternalMetricsResponse"
  "referred_shape ''#/components/schemas/DiagramTypesResponse'' = Some shape_DiagramTypesResponse"
  "referred_shape ''#/components/schemas/ConfigVersionsResponse'' = Some shape_ConfigVersionsResponse"
  "referred_shape ''#/components/schemas/RuleOption'' = Some shape_RuleOption"
  "referred_shape ''#/components/schemas/RuleMetadata'' = Some shape_RuleMetadata"
  "referred_shape ''#/components/schemas/RulesResponse'' = Some shape_RulesResponse"
  "referred_shape ''#/components/schemas/AnalyzeHelpResponse'' = Some shape_AnalyzeHelpResponse"
  by (simp_all add: referred_shape_def)

section \<open>The answers\<close>

lemmas fits_eval = as_documented_def eval_nat_numeral read_schema_def member_def members_def texts_of_def items_of_def has_type_def list_all_append

lemma optional_members [simp]:
  "list_all P (text_member k s) \<longleftrightarrow> s = [] \<or> P (k, VString s)"
  "list_all P (count_member k n) \<longleftrightarrow> n = 0 \<or> P (k, VInt (uint n))"
  "map_of (text_member k s @ m) k' = (if s \<noteq> [] \<and> k = k' then Some (VString s) else map_of m k')"
  "map_of (count_member k n @ m) k' = (if n \<noteq> 0 \<and> k = k' then Some (VInt (uint n)) else map_of m k')"
  by (auto simp: text_member_def count_member_def)

lemma optional_member_last [simp]:
  "map_of (text_member k s) k' = (if s \<noteq> [] \<and> k = k' then Some (VString s) else None)"
  "map_of (count_member k n) k' = (if n \<noteq> 0 \<and> k = k' then Some (VInt (uint n)) else None)"
  by (auto simp: text_member_def count_member_def)

lemma Healthz_documented: "as_documented ''/v1/healthz'' (Healthz h)" "as_documented ''/v1/health'' (Healthz h)"
  by (simp_all add: fits_eval Healthz_def)

lemma not_ready_documented: "as_documented ''/v1/ready'' (503, VMap [(''status'', VString ''not_ready''), (''error'', VMap [(''code'', VString ''not_ready''), (''message'', VString err)])])"
  by (simp add: fits_eval shape_ReadyErrorResponse_def shape_Error_def)

lemma ready_documented:
  "as_documented ''/v1/ready'' (200, VMap ([(''status'', VString ''ready'')] @ text_member ''build-commit'' commit @ text_member ''build-time'' time @ ready_versions pa))"
proof (cases "version_of pa")
  case None
  then show ?thesis by (simp add: fits_eval ready_versions_def shape_ReadyResponse_def)
next
  case (Some info)
  then show ?thesis by (simp add: fits_eval ready_versions_def shape_ReadyResponse_def)
qed

lemma Ready_documented: "as_documented ''/v1/ready'' (handler_Ready pa h)"
  using not_ready_documented ready_documented by (simp add: handler_Ready_def split: option.split)

lemma Version_documented: "as_documented ''/v1/version'' (Version pa h)"
  by (simp add: fits_eval Version_def split: option.split)

lemma InternalMetrics_documented: "as_documented ''/v1/internal/metrics'' (InternalMetrics c)"
  by (simp add: fits_eval InternalMetrics_def shape_InternalMetricsResponse_def)

lemma families_documented: "list_all (\<lambda>f. f \<in> set [''flowchart'', ''sequence'', ''class'', ''er'', ''state'']) (lintSupportedFamilies e)"
proof -
  have "set (DiagramFamilies e) \<subseteq> set [''flowchart'', ''sequence'', ''class'', ''er'', ''state'']" for e
    unfolding DiagramFamilies_def Let_def set_filter by blast
  then show ?thesis by (auto simp: lintSupportedFamilies_def list_all_iff split: option.split)
qed

lemma DiagramTypes_documented: "as_documented ''/v1/diagram-types'' (DiagramTypes e)"
  using families_documented [of e] by (simp add: fits_eval DiagramTypes_def shape_DiagramTypesResponse_def RecognizedDiagramTypes_def)

lemma HealthMetrics_documented: "as_documented ''/v1/health/metrics'' (HealthMetrics ms up e pa h c)"
  using families_documented [of e]
  by (simp add: fits_eval HealthMetrics_def outcome_value_def shape_HealthMetricsResponse_def shape_AnalyzeOutcomeMetrics_def
      del: map_of_append)

lemma Info_documented: "as_documented ''/v1/info'' (Info e pa h)"
  using families_documented [of e] by (simp add: fits_eval Info_def Let_def shape_InfoResponse_def RecognizedDiagramTypes_def list.pred_True)

lemma ConfigVersions_documented: "as_documented ''/v1/config-versions'' ConfigVersions"
  by (simp add: fits_eval ConfigVersions_def shape_ConfigVersionsResponse_def CurrentConfigSchemaVersion_def)

lemma option_fits: "has_shape (Suc (Suc n)) referred_shape shape_RuleOption (rule_option_response option)"
  by (simp add: rule_option_response_def shape_RuleOption_def has_type_def)

lemma rule_fits:
  assumes "meta_State rule \<in> set [''implemented'', ''planned'']" "meta_Severity rule \<in> set [''error'', ''warning'', ''info'']"
  shows "has_shape (Suc (Suc (Suc (Suc (Suc n))))) referred_shape shape_RuleMetadata (rule_response rule)"
  using assms
  by (simp add: rule_response_def shape_RuleMetadata_def has_type_def list.pred_map comp_def option_fits list.pred_True list_all_append
      case_prod_unfold del: map_of_append)

lemma ListRules_documented: "as_documented ''/v1/rules'' ListRules"
proof -
  have "list_all (\<lambda>rule. meta_State rule \<in> set [''implemented'', ''planned''] \<and> meta_Severity rule \<in> set [''error'', ''warning'', ''info'']) builtInRuleMetadata"
    by code_simp
  then have "list_all (\<lambda>rule. has_shape (Suc (Suc (Suc (Suc (Suc 0))))) referred_shape shape_RuleMetadata (rule_response rule)) ListRuleMetadata"
    using rule_fits by (auto simp: list_all_iff ListRuleMetadata_def cloneRuleMetadata_def)
  then show ?thesis
    by (simp add: as_documented_def ListRules_def eval_nat_numeral read_schema_def member_def shape_RulesResponse_def list.pred_map comp_def)
qed


text \<open>
  Three divergences: the help document has texts where the document promises objects; the answer of the schema
  endpoint is documented as a configuration, though it holds the schema of one; and the versions
  of a ready service are never under the documented names.
\<close>

lemma AnalyzeHelp_not_documented: "\<not> as_documented ''/v1/analyze/help'' AnalyzeHelp"
  by (simp add: fits_eval AnalyzeHelp_def shape_AnalyzeHelpResponse_def)

lemma ready_other_names: "handler_Ready pa h = (st, VMap m) \<Longrightarrow> map_of m ''parser_version'' = None \<and> map_of m ''mermaid_version'' = None"
  by (auto simp: handler_Ready_def ready_versions_def split: option.splits)

lemma no_flat_schema: "\<not> has_shape n res (shape_of (Suc k) (flatConfigSchemaForRuleIDs [])) (VMap ((''$schema'', x) # m))"
proof -
  have "''$schema'' \<notin> set (gm_keys (ConfigRegistryForRuleIDs []))" by code_simp
  then have "map_of (map (\<lambda>ruleID. (ruleID, f ruleID)) (sort (gm_keys (ConfigRegistryForRuleIDs [])))) ''$schema'' = None" for f :: "gostring \<Rightarrow> shape"
    by (simp add: map_of_eq_None_iff image_image)
  then show ?thesis
    by (cases n) (simp_all add: flatConfigSchemaForRuleIDs_def Let_def read_schema_def member_def members_def texts_of_def items_of_def
        List.map_filter_simps comp_def)
qed

lemma no_versioned_schema:
  "\<not> has_shape n res (shape_of (Suc k) (ConfigV1JSONSchemaForRuleIDs [])) (VMap [(''$schema'', x), (''title'', y), (''oneOf'', z)])"
  by (cases n) (simp_all add: ConfigV1JSONSchemaForRuleIDs_def read_schema_def member_def texts_of_def items_of_def List.map_filter_simps)

lemma RuleConfigSchema_not_documented:
  assumes "RuleConfigSchema wd r e = Inr answer"
  shows "\<not> as_documented ''/v1/rules/schema'' answer"
proof -
  obtain e' where v: "answer = (200, VMap [(''schema'', ConfigJSONSchemaForRuleIDs (KnownRuleIDs e'))])"
    using assms by (auto simp: RuleConfigSchema_def split: option.splits)
  define k :: nat where "k = 4"
  have "shape_of 6 ConfigJSONSchema = OneOf [shape_of (Suc k) (flatConfigSchemaForRuleIDs []), shape_of (Suc k) (ConfigV1JSONSchemaForRuleIDs [])]"
    using shape_of.simps(2) [of "Suc k"]
    by (simp add: k_def ConfigJSONSchema_def ConfigJSONSchemaForRuleIDs_def read_schema_def [of _ "VMap _"] member_def items_of_def del: shape_of.simps)
  then have c: "referred_shape ''#/components/schemas/RuleConfigSchema'' =
      Some (OneOf [shape_of (Suc k) (flatConfigSchemaForRuleIDs []), shape_of (Suc k) (ConfigV1JSONSchemaForRuleIDs [])])"
    by (simp only: referred_shape_def schema_ref option.map)
  have "\<not> has_shape (Suc (Suc n)) referred_shape (Reference ''#/components/schemas/RuleConfigSchema'') (ConfigJSONSchemaForRuleIDs ids)" for n ids
    by (simp add: c ConfigJSONSchemaForRuleIDs_def no_flat_schema no_versioned_schema del: shape_of.simps)
  then show ?thesis
    by (simp add: v as_documented_def eval_nat_numeral read_schema_def member_def members_def texts_of_def items_of_def List.map_filter_simps
        del: has_shape.simps(3))
qed

section \<open>Documents and validators\<close>

text \<open>
  The cache of encoded documents: every entry is what encoding the document for its URL gives, and there are at
  most four.
\<close>

definition rendered :: "json_codec \<Rightarrow> environment \<Rightarrow> gostring" where
  "rendered jc env = jc_MarshalIndent jc (OpenAPISpec jc env)"

definition spec_cache_inv :: "json_codec \<Rightarrow> gostring \<Rightarrow> (gostring, gostring) gomap \<Rightarrow> bool" where
  "spec_cache_inv jc address cached \<longleftrightarrow> length cached \<le> 4 \<and> distinct (map fst cached) \<and>
     (\<forall>env data. map_of cached (spec_key address env) = Some data \<longrightarrow> data = rendered jc env)"

lemma rendered_key: "spec_key address env = spec_key address env' \<Longrightarrow> rendered jc env = rendered jc env'"
  by (simp add: spec_key_def rendered_def OpenAPISpec_def getServersFromEnv_def)

lemma length_update_le: "length (AList.update k v m) \<le> Suc (length m)"
  by (induction m) auto

lemma payload_inv:
  assumes "spec_cache_inv jc address cached"
  shows "fst (openAPISpecPayload jc address env cached) = rendered jc env"
    and "spec_cache_inv jc address (snd (openAPISpecPayload jc address env cached))"
proof -
  note inv = assms [unfolded spec_cache_inv_def]
  show "fst (openAPISpecPayload jc address env cached) = rendered jc env"
    using inv by (auto simp: openAPISpecPayload_def Let_def rendered_def split: option.split)
  show "spec_cache_inv jc address (snd (openAPISpecPayload jc address env cached))"
  proof (cases "map_of cached (spec_key address env)")
    case None
    define kept where "kept = (if 4 \<le> length cached then [] else cached)"
    have k: "length kept \<le> 3" "distinct (map fst kept)" "map_of kept (spec_key address env) = None"
      "map_of kept (spec_key address env') = Some data \<Longrightarrow> data = rendered jc env'" for env' data
      using inv None by (auto simp: kept_def split: if_splits)
    have len: "length (AList.update (spec_key address env) (rendered jc env) kept) \<le> 4"
      using length_update_le [of "spec_key address env" "rendered jc env" kept] k(1) by simp
    have val: "data = rendered jc env'"
      if "map_of (AList.update (spec_key address env) (rendered jc env) kept) (spec_key address env') = Some data" for env' data
      using that k(4) rendered_key [of address env' env] by (auto simp: update_conv' split: if_splits)
    have out: "snd (openAPISpecPayload jc address env cached) = AList.update (spec_key address env) (rendered jc env) kept"
      by (simp add: openAPISpecPayload_def Let_def None kept_def rendered_def)
    show ?thesis unfolding spec_cache_inv_def out using len distinct_update [OF k(2)] val by blast
  qed (use assms in \<open>simp add: openAPISpecPayload_def\<close>)
qed

text \<open>The cache after the documents of a list of environments have been asked for.\<close>

definition spec_cache_after :: "json_codec \<Rightarrow> gostring \<Rightarrow> environment list \<Rightarrow> (gostring, gostring) gomap" where
  "spec_cache_after jc address envs = fold (\<lambda>env cached. snd (openAPISpecPayload jc address env cached)) envs []"

lemma spec_cache_reached: "spec_cache_inv jc address (spec_cache_after jc address envs)"
proof (induction envs rule: rev_induct)
  case Nil
  then show ?case by (simp add: spec_cache_after_def spec_cache_inv_def)
next
  case (snoc env envs)
  then show ?case using payload_inv(2) by (simp add: spec_cache_after_def)
qed

lemma asset_keys: "CanonicalHeaderKey ''ETag'' = ''Etag''" "CanonicalHeaderKey ''Cache-Control'' = ''Cache-Control''"
  "CanonicalHeaderKey ''Content-Type'' = ''Content-Type''"
  by code_simp+

lemma serveCacheableAsset_response:
  assumes "ex_writer ex = Conn \<lparr>c_header = [], c_sent = None, c_body = []\<rparr>"
  shows "case response (ex_writer (serveCacheableAsset r contentType data cacheControl ex)) of (st, hdr, content) \<Rightarrow>
    st = (if revalidates r (etag_of data) then 304 else 200) \<and> content = (if revalidates r (etag_of data) then [] else data) \<and>
    h_Get ''ETag'' hdr = etag_of data \<and> h_Get ''Content-Type'' hdr = contentType \<and> h_Get ''Cache-Control'' hdr = cacheControl"
  using assms
  by (simp add: serveCacheableAsset_def Let_def set_header_def response_def conn_WriteHeader_def conn_Write_def StatusOK_def h_Get_def h_Values_def
      adj_of_ops asset_keys)

lemma Split_one: "c \<notin> set s \<Longrightarrow> Split s c = [s]"
  by (induction s) auto

lemma hex_no_comma: "CHR '','' \<notin> set (EncodeToString s)"
proof -
  have d: "hex_digit n \<noteq> CHR '',''" if "n < 16" for n
  proof -
    have "list_all (\<lambda>n. hex_digit n \<noteq> CHR '','') [0..<16]" by code_simp
    then show ?thesis using that by (simp add: list_all_iff)
  qed
  have "(of_char c :: nat) div 16 < 16" for c by (rule less_mult_imp_div_less) simp
  then have "CHR '','' \<notin> set (hex_byte (of_char c))" for c
    using d [of "of_char c div 16"] d [of "of_char c mod 16"] by (auto simp: hex_byte_def)
  then show ?thesis by (auto simp: EncodeToString_def)
qed

lemma space_not_quoted: "list_all (\<lambda>e. e \<noteq> [] \<and> hd e \<noteq> CHR 0x22 \<and> last e \<noteq> CHR 0x22) space_encodings"
  by code_simp

lemma etag_trimmed: "TrimSpace (etag_of data) = etag_of data"
proof -
  have ends: "e \<noteq> []" "hd e \<noteq> CHR 0x22" "last e \<noteq> CHR 0x22" if "e \<in> set space_encodings" for e
    using that space_not_quoted by (auto simp: list_all_iff)
  have "\<not> prefix e (etag_of data)" if "e \<in> set space_encodings" for e
    using ends [OF that] by (cases e) (auto simp: etag_of_def)
  then have "trim_left (etag_of data) = etag_of data" by (simp add: trim_left.simps find_None)
  moreover have "\<not> suffix e (etag_of data)" if "e \<in> set space_encodings" for e
  proof -
    have "last (etag_of data) = CHR 0x22" by (simp add: etag_of_def)
    then show ?thesis using ends [OF that] by (metis last_appendR suffix_def)
  qed
  then have "trim_right (etag_of data) = etag_of data" by (simp add: trim_right.simps find_None)
  ultimately show ?thesis by (simp add: TrimSpace_def)
qed

lemma etag_revalidates: "req_Get ''If-None-Match'' r = etag_of data \<Longrightarrow> revalidates r (etag_of data)"
proof -
  have "Split (etag_of data) CHR '','' = [etag_of data]"
    by (rule Split_one) (use hex_no_comma in \<open>auto simp: etag_of_def\<close>)
  then show "req_Get ''If-None-Match'' r = etag_of data \<Longrightarrow> ?thesis" by (simp add: revalidates_def etag_trimmed)
qed

lemma unconditional: "req_Get ''If-None-Match'' r = [] \<Longrightarrow> \<not> revalidates r (etag_of data)"
proof -
  have "TrimSpace [] = []" by code_simp
  then show "req_Get ''If-None-Match'' r = [] \<Longrightarrow> ?thesis" by (simp add: revalidates_def etag_of_def)
qed

text \<open>
  C40: whatever was asked before, \<^verbatim>\<open>/v1/spec\<close> answers on a new connection with the document for the environment of
  the request, as if there were no cache, and with its validator: a request without a condition gets the document,
  a request that carries the validator gets status 304 and no body; the cache never holds more than four documents.
\<close>
theorem spec_served:
  assumes "ex_writer ex = Conn \<lparr>c_header = [], c_sent = None, c_body = []\<rparr>"
  shows "case ServeSpec jc address env r (spec_cache_after jc address envs, ex) of (cached, ex') \<Rightarrow>
    (case response (ex_writer ex') of (st, hdr, content) \<Rightarrow>
       length cached \<le> 4 \<and> h_Get ''ETag'' hdr = etag_of (rendered jc env) \<and> h_Get ''Content-Type'' hdr = ''application/json'' \<and>
       (st, content) = (if revalidates r (etag_of (rendered jc env)) then (304, []) else (200, rendered jc env)) \<and>
       (req_Get ''If-None-Match'' r = etag_of (rendered jc env) \<longrightarrow> st = 304) \<and>
       (req_Get ''If-None-Match'' r = [] \<longrightarrow> st = 200))"
proof -
  define cached where "cached = spec_cache_after jc address envs"
  have inv: "spec_cache_inv jc address cached" unfolding cached_def by (rule spec_cache_reached)
  have "ServeSpec jc address env r (cached, ex) = (snd (openAPISpecPayload jc address env cached),
      serveCacheableAsset r ''application/json'' (rendered jc env) ''public, max-age=3600'' ex)"
    using payload_inv(1) [OF inv, of env] by (simp add: ServeSpec_def case_prod_unfold)
  moreover have "length (snd (openAPISpecPayload jc address env cached)) \<le> 4"
    using payload_inv(2) [OF inv, of env] by (simp add: spec_cache_inv_def)
  ultimately show ?thesis
    using serveCacheableAsset_response [OF assms, where r = r and contentType = "''application/json''" and data = "rendered jc env" and
        cacheControl = "''public, max-age=3600''"]
      etag_revalidates [of r "rendered jc env"] unconditional [of r "rendered jc env"]
    by (auto simp: cached_def [symmetric] split: prod.splits if_splits)
qed

definition sample_codec :: json_codec where
  "sample_codec = \<lparr>jc_Marshal = (\<lambda>_. None), jc_MarshalIndent = (\<lambda>_. ''{}''), jc_Unmarshal = (\<lambda>_. None)\<rparr>"

definition sample_exchange :: exchange where
  "sample_exchange = \<lparr>ex_limiter = None, ex_lastLog = None, ex_fields = \<lparr>lf_requestID = [], lf_parserOutcome = [], lf_diagramType = []\<rparr>,
     ex_events = [], ex_writer = Conn \<lparr>c_header = [], c_sent = None, c_body = []\<rparr>\<rparr>"

definition sample_request :: http_request where
  "sample_request = \<lparr>rq_Method = ''GET'', rq_Path = ''/v1/spec'', rq_RemoteAddr = [], rq_Header = [], ctx_requestID = None, ctx_version = None,
     ctx_logFields = False, rq_now = 0, rq_ord = (\<lambda>ks. ks), rq_uuid = []\<rparr>"

theorem spec_served_witness:
  "case ServeSpec sample_codec ''0x1'' (\<lambda>_. []) sample_request (spec_cache_after sample_codec ''0x1'' [\<lambda>_. ''x''], sample_exchange) of (cached, ex') \<Rightarrow>
    (case response (ex_writer ex') of (st, hdr, content) \<Rightarrow> st = 200 \<and> length cached \<le> 4)"
proof -
  have "req_Get ''If-None-Match'' sample_request = []" by code_simp
  moreover have "ex_writer sample_exchange = Conn \<lparr>c_header = [], c_sent = None, c_body = []\<rparr>" by (simp add: sample_exchange_def)
  ultimately show ?thesis
    using spec_served [where ex = sample_exchange and jc = sample_codec and address = "''0x1''" and env = "\<lambda>_. []" and r = sample_request and
        envs = "[\<lambda>_. ''x'']"]
    by (simp split: prod.splits)
qed

end
