(* ===== verification/Openapi_Yaml.thy ===== *)
theory Openapi_Yaml
  imports Openapi
begin

text \<open>
  The generator of the published documents, \<^verbatim>\<open>scripts/generate_openapi.go\<close>: the document as JSON and as YAML.
  The decimal text of a float is a parameter.
\<close>

section \<open>Writing YAML\<close>

definition isScalar :: "go_value \<Rightarrow> bool" where
  "isScalar v = (case v of VNil \<Rightarrow> True | VString _ \<Rightarrow> True | VBool _ \<Rightarrow> True | VInt _ \<Rightarrow> True | VFloat _ \<Rightarrow> True | _ \<Rightarrow> False)"

definition yamlString :: "gostring \<Rightarrow> gostring" where
  "yamlString s = Quote s"

definition yamlScalar :: "(rat \<Rightarrow> gostring) \<Rightarrow> go_value \<Rightarrow> gostring" where
  "yamlScalar fmt v =
     (case v of
        VNil \<Rightarrow> ''null''
      | VString s \<Rightarrow> yamlString s
      | VBool b \<Rightarrow> if b then ''true'' else ''false''
      | VInt i \<Rightarrow> Itoa i
      | VFloat x \<Rightarrow> fmt x
      | _ \<Rightarrow> [])"

definition yaml_pad :: "nat \<Rightarrow> gostring" where
  "yaml_pad indent = concat (replicate indent ''  '')"

text \<open>The texts of the parts in order; an unsupported value anywhere is the error of the whole.\<close>

fun join_texts :: "gostring option list \<Rightarrow> gostring option" where
  "join_texts [] = Some []"
| "join_texts (t # ts) = (case t of None \<Rightarrow> None | Some x \<Rightarrow> map_option (append x) (join_texts ts))"

text \<open>One entry: after its head either the scalar on the same line, or the nested value below.\<close>

definition yaml_entry :: "(rat \<Rightarrow> gostring) \<Rightarrow> gostring \<Rightarrow> go_value \<Rightarrow> gostring option \<Rightarrow> gostring option" where
  "yaml_entry fmt opening v nested =
     (if isScalar v then Some (opening @ '' '' @ yamlScalar fmt v @ [CHR 0x0A])
      else map_option (\<lambda>t. opening @ [CHR 0x0A] @ t) nested)"

fun writeYAMLValue :: "(rat \<Rightarrow> gostring) \<Rightarrow> nat \<Rightarrow> go_value \<Rightarrow> gostring option"
  and yaml_members :: "(rat \<Rightarrow> gostring) \<Rightarrow> nat \<Rightarrow> (gostring \<times> go_value) list \<Rightarrow> (gostring \<times> gostring option) list"
  and yaml_items :: "(rat \<Rightarrow> gostring) \<Rightarrow> nat \<Rightarrow> go_value list \<Rightarrow> gostring option list" where
  "writeYAMLValue fmt indent (VMap m) = join_texts (map snd (sort_key fst (yaml_members fmt indent m)))"
| "writeYAMLValue fmt indent (VList vs) = join_texts (yaml_items fmt indent vs)"
| "writeYAMLValue fmt indent (VStrings ss) = Some (concat (map (\<lambda>s. yaml_pad indent @ ''- '' @ yamlString s @ [CHR 0x0A]) ss))"
| "writeYAMLValue fmt indent _ = None"
| "yaml_members fmt indent [] = []"
| "yaml_members fmt indent ((k, v) # m) =
     (k, yaml_entry fmt (yaml_pad indent @ yamlString k @ '':'') v (writeYAMLValue fmt (Suc indent) v)) # yaml_members fmt indent m"
| "yaml_items fmt indent [] = []"
| "yaml_items fmt indent (v # vs) =
     yaml_entry fmt (yaml_pad indent @ ''-'') v (writeYAMLValue fmt (Suc indent) v) # yaml_items fmt indent vs"

section \<open>The two files\<close>

definition generatedHeader :: gostring where
  "generatedHeader = ''# Code generated by go run ./scripts/generate_openapi.go; DO NOT EDIT.'' @ [CHR 0x0A] @
     ''# This file is generated from internal/api/openapi.go and may be removed in a future release.'' @ [CHR 0x0A]"

datatype generation_error = NormalizeSpec | MarshalYAML

definition generate_openapi :: "json_codec \<Rightarrow> (rat \<Rightarrow> gostring) \<Rightarrow> environment \<Rightarrow> generation_error + (gostring \<times> gostring) list" where
  "generate_openapi jc fmt env =
     (case Option.bind (jc_Marshal jc (OpenAPISpec jc env)) (jc_Unmarshal jc) of
        None \<Rightarrow> Inl NormalizeSpec
      | Some normalized \<Rightarrow>
          (case writeYAMLValue fmt 0 normalized of
             None \<Rightarrow> Inl MarshalYAML
           | Some text \<Rightarrow> Inr [(''openapi.json'', jc_MarshalIndent jc normalized @ [CHR 0x0A]),
                            (''openapi.yaml'', generatedHeader @ text @ [CHR 0x0A])]))"

section \<open>What is written\<close>

lemma join_texts_None: "join_texts ts = None \<longleftrightarrow> None \<in> set ts"
  by (induction ts) (auto split: option.split)

text \<open>Writing fails only where the whole value is a scalar.\<close>

lemma yaml_total:
  "writeYAMLValue fmt indent v = None \<longleftrightarrow> isScalar v"
  "None \<notin> snd ` set (yaml_members fmt indent m)"
  "None \<notin> set (yaml_items fmt indent vs)"
  by (induction fmt indent v and fmt indent m and fmt indent vs rule: writeYAMLValue_yaml_members_yaml_items.induct)
    (auto simp: join_texts_None isScalar_def yaml_entry_def split: go_value.splits)

text \<open>
  An empty list and an empty object both leave nothing after the colon, which YAML reads as null: the published file
  does not keep the empty values of the document.
\<close>

lemma yaml_loses_empty:
  "writeYAMLValue fmt n (VMap [(k, VList [])]) = writeYAMLValue fmt n (VMap [(k, VMap [])])"
  "writeYAMLValue fmt 0 (VMap [(''issues'', VList [])]) = Some (yamlString ''issues'' @ '':'' @ [CHR 0x0A])"
  by (simp_all add: yaml_entry_def isScalar_def yaml_pad_def)

end
