(* ===== verification/Spec2Isabelle.thy ===== *)
theory Spec2Isabelle
  imports Engine_Props Server Analyze_Props Cli_Props Endpoints_Props Openapi_Yaml
begin

text \<open>
  A verification development for merm8, a linter for Mermaid diagrams written in Go (sources under
  \<^verbatim>\<open>src/\<close>). A request carries the text of a diagram and a configuration. The parser package
  has a Node program parse the text, through a pool of worker processes and two caches; the engine
  runs the rules of the diagram's family on the parsed diagram, removes suppressed findings, sorts
  them and gives them fingerprints; the API package serves this over HTTP behind a chain of
  middleware and keeps whole results in a cache of its own; a command line client runs the same analysis
  in its process or asks a server.

  \<^bold>\<open>Shared material.\<close> \<open>Prelude\<close> models the parts of Go the code uses: byte strings and the
  functions of \<^verbatim>\<open>strings\<close>, maps as association lists whose iteration order is a parameter,
  stable sorting; \<open>Strconv\<close> models decimal integers, booleans and durations in text and 64-bit
  wrap-around; \<open>Sha256\<close> the hash; \<open>Http\<close> header maps and response writers.

  \<^bold>\<open>Diagrams, rules, engine.\<close>
  \<^item> \<open>Model\<close>: \<^verbatim>\<open>internal/model/diagram.go\<close>, its structs as records.
  \<^item> \<open>Rule_Values\<close>, \<open>Rule_Config\<close>, \<open>Registry\<close>: configuration values, severities, enablement,
    normalisation, validation, selectors, rule metadata and identifiers (\<^verbatim>\<open>rule.go\<close>,
    \<^verbatim>\<open>selector.go\<close>, \<^verbatim>\<open>registry.go\<close>, \<^verbatim>\<open>schema.go\<close>, \<^verbatim>\<open>rule_id_namespace.go\<close>).
  \<^item> \<open>Rules_Flowchart\<close>, \<open>Rules_Other\<close>: the counting rules; \<open>Rules_Cycles\<close>, \<open>Rules_Chain\<close>,
    \<open>Rules_Inheritance\<close>, \<open>Rules_Depth\<close>, \<open>Rules_Reach\<close>: the rules that search a graph, over the
    shared lemmas of \<open>Graph\<close>. Each search is shown to decide its graph property (acyclicity,
    longest trail, reachability) for every iteration order, and its messages to be true.
  \<^item> \<open>Engine\<close>, \<open>Engine_Props\<close>: \<^verbatim>\<open>internal/engine\<close>: registration, a run, suppression,
    ordering, duplicates, fingerprints. The output of a run is characterised exactly, is strictly
    sorted, and for three families does not depend on iteration orders.

  \<^bold>\<open>Parser.\<close>
  \<^item> \<open>Expiration_Heap\<close>, \<open>Parser_Cache\<close>: the generic LRU cache with expiry of
    \<^verbatim>\<open>internal/parser/cache.go\<close>; \<open>Ttl_Cache\<close> states what users of a cache rely on as locales;
    \<open>Parse_Cache\<close> builds the cache of diagrams and syntax errors and meets the contract;
    \<open>Analysis_Cache\<close> is the result cache of \<^verbatim>\<open>internal/api/analysis_cache.go\<close>;
    \<open>Cache_Config\<close>, \<open>Parser_Settings\<close>: settings from the environment.
  \<^item> \<open>Single_Flight\<close>: concurrent requests for one text share one run, as a transition system;
    \<open>Worker_Pool\<close>: borrowing, releasing and closing workers, as a transition system; goroutines
    are anonymous, so the states hold multisets of them.
  \<^item> \<open>Parser_Results\<close>: how process outcomes become diagrams, syntax errors and classified
    failures, and the cache key; \<open>Script_Path\<close>: which script paths are accepted;
    \<open>Source_Nodes\<close>: the byte scanner of \<^verbatim>\<open>ast_enhancer.go\<close>.

  \<^bold>\<open>HTTP.\<close>
  \<^item> \<open>Rate_Limiter\<close>, \<open>Compression\<close>, \<open>Cors_Origins\<close>, \<open>Client_Identity\<close>: the parts of
    \<^verbatim>\<open>internal/api/middleware.go\<close>. The limiter meets the contract of a fixed-window limiter, a
    locale from which the bound on allowed requests and the independence of clients follow.
  \<^item> \<open>Middleware\<close>: every middleware as a transformer of handlers; \<open>Server\<close>:
    \<^verbatim>\<open>cmd/server/main.go\<close>, the settings and the chain of middleware around the routes, and that in
    production no request passes without the token.
  \<^item> \<open>Parser_Lifecycle\<close>: the parser object of \<^verbatim>\<open>internal/parser/parser.go\<close>, its pools and its shutdown.
  \<^item> \<open>Request_State\<close>: what requests share (parser slots, outcome counters), the parser
    settings of a request, failures; \<open>Config_Payload\<close>: which configurations a request may carry;
    \<open>Response_Metrics\<close>: the numbers of a response; \<open>Sarif\<close>: reports; \<open>Telemetry\<close>: the
    metrics object and its page.
  \<^item> \<open>Analysis_Store\<close>: the loop that stores a result; \<open>Analyze\<close>: the three analyze handlers,
    which are one sequence of steps around a reader, a linter and a renderer; \<open>Analyze_Props\<close>: every
    request is answered, counted once and gives its slot back; the cache cannot be seen in the
    replies; the formats agree. The linter is a locale, interpreted with and without the cache.
  \<^item> \<open>Source_Signals\<close>: the detectors that look for the cause of a syntax error in the text, over UTF-8
    runes; a locale for line detectors gives that each reported position is where its pattern stands;
    \<open>Syntax_Hints\<close>: the hints and help of a response, complete, without repetition and ranked.
  \<^item> \<open>Openapi_Doc\<close>: the OpenAPI document of \<^verbatim>\<open>internal/api/openapi.go\<close> as a value; \<open>Openapi\<close>: the functions around
    it, and that it describes the registered routes and resolves its references; \<open>Openapi_Yaml\<close>:
    \<^verbatim>\<open>scripts/generate_openapi.go\<close>. \<open>Endpoints\<close>: the handler's constructor and setters and the read-only
    endpoints; \<open>Endpoints_Props\<close>: their answers have the documented shapes, and the document is served with
    a cache that cannot be noticed and validators that work.

  \<^bold>\<open>Client.\<close> \<open>Cli\<close>: \<^verbatim>\<open>cmd/merm8-cli/main.go\<close>: arguments, configuration file, inputs, local and remote
  analysis, output, exit code; \<open>Cli_Props\<close>: the options of a rule after aliases are merged, and the exit code of
  a local run.

  \<^bold>\<open>Conventions.\<close> A Go \<^verbatim>\<open>int\<close> is an integer; where a computation can leave 64 bits the
  wrap-around is written out. A panic or an error is a value of an option or sum type. Recursion
  is well-founded everywhere and no definition of the code uses fuel (the depth of a schema is bounded by 6 and
  of an answer by 9 in \<open>Endpoints_Props\<close>, more than any of the document has); the one loop of the code whose bound changes
  while it runs, \<open>store_loop\<close>, is a partial function, and that it returns is a theorem. Operations that run under a mutex are
  functions on the state; concurrency is the interleaving of such operations, in step relations
  or in lists of operations. Clocks, environment variables, file systems and the order of map
  iteration are arguments. Where one component relies on another, the reliance is a locale, and
  its interpretation discharges it for the code's model.

  \<^bold>\<open>Parameters.\<close> Code outside the repository is an argument of the definitions that use it:
  the JSON codec, gzip, media types, IP addresses, the Node program's answer, the process's exit.

  \<^bold>\<open>Not modelled.\<close> Starting and killing processes and their pipes; listening, signals and the
  shutdown of the server; loggers; the writing of the generated files. They are input and output.
\<close>

end
